(* ===== verification/Prelude.thy ===== *)
theory Prelude
  imports Main "HOL-Library.Word" "HOL-Library.Monad_Syntax" "HOL-Library.Char_ord" "HOL-Library.List_Lexorder"
begin

text \<open>
  Shared ground of the development: the machine types of the program, the observable part of the
  object system it is built on (the third-party library aether-objects), and the generic facts on
  bytes, lists and sorted insertion that the component theories rest on.

  Assertions.  A function of the source that runs \<open>assert\<close> returns an option here; \<open>None\<close> is the
  abort of a failed assertion and of nothing else.  A theorem that excludes \<open>None\<close> therefore says
  that a build without assertions behaves the same.

  The object system.  \<open>ae::ObjId\<close>, \<open>ae::Registry\<close> and the serialization archive are not part of the
  repository.  What the code asks of them is the record \<open>aether\<close>, an argument of every definition
  that uses it; what a theorem needs of it is a named hypothesis.
\<close>

unbundle bit_operations_syntax

section \<open>Types\<close>

type_synonym u8 = "8 word"
type_synonym u32 = "32 word"
type_synonym u64 = "64 word"
type_synonym bytes = "u8 list"
type_synonym obj_id = u32
type_synonym class_id = u32

text \<open>Collections: equations of the wire codecs, and preservation rules of the invariants.\<close>

named_theorems codec_simps
named_theorems inv_intros

text \<open>
  What the program observes of the object system: the default id \<open>ae::ObjId{}\<close>, \<open>ObjId::is_valid\<close>,
  \<open>Registry::GenerationDistance(base, derived)\<close> (negative when unrelated), \<open>Registry::IsExisting\<close>,
  whether \<open>Registry::FindFactory\<close> returns a factory with create, load and save, and the class ids
  \<open>Obj::kClassId\<close>, \<open>Event::kClassId\<close>, \<open>Node::kClassId\<close> and \<open>SharedNode::kClassId\<close>, which are checksums
  the library computes.
\<close>

record aether =
  ae_null :: obj_id
  ae_valid :: "obj_id \<Rightarrow> bool"
  ae_distance :: "class_id \<Rightarrow> class_id \<Rightarrow> int"
  ae_existing :: "class_id \<Rightarrow> bool"
  ae_factory :: "class_id \<Rightarrow> bool"
  ae_obj_class :: class_id
  ae_event_class :: class_id
  ae_node_class :: class_id
  ae_shared_node_class :: class_id

text \<open>The one law the components need of ids: the default id is not a valid one.\<close>

definition aether_ids :: "aether \<Rightarrow> bool" where
  "aether_ids ae \<longleftrightarrow> \<not> ae_valid ae (ae_null ae)"

text \<open>A concrete object system, on which the witnesses evaluate the model.\<close>

definition sample_aether :: aether where
  "sample_aether = \<lparr> ae_null = 0, ae_valid = (\<lambda>i. i \<noteq> 0),
     ae_distance = (\<lambda>b d. if b = d then 0 else if b = 1 then 2 else if b = 2 \<and> d = 60 then 1 else -1),
     ae_existing = (\<lambda>c. c \<noteq> 0), ae_factory = (\<lambda>c. c \<noteq> 0),
     ae_obj_class = 1, ae_event_class = 2, ae_node_class = 3, ae_shared_node_class = 4 \<rparr>"

text \<open>
  A pointer \<open>ae::ObjPtr<T>\<close> by what can be asked of it: \<open>is_valid()\<close>, \<open>id()\<close>, \<open>domain()\<close> (a domain is
  named by a number, \<open>None\<close> is the null pointer), the object it is loaded with, and the object
  \<open>Load()\<close> would find in storage.
\<close>

record 'o obj_ptr =
  ptr_valid :: bool
  ptr_id :: obj_id
  ptr_domain :: "nat option"
  ptr_object :: "'o option"
  ptr_stored :: "'o option"

definition is_loaded :: "'o obj_ptr \<Rightarrow> bool" where
  "is_loaded p \<longleftrightarrow> ptr_object p \<noteq> None"

text \<open>The object reached after \<open>if (!p.is_loaded()) p.Load();\<close>.\<close>

definition ptr_load :: "'o obj_ptr \<Rightarrow> 'o option" where
  "ptr_load p = (case ptr_object p of Some ob \<Rightarrow> Some ob | None \<Rightarrow> ptr_stored p)"

definition null_ptr :: "aether \<Rightarrow> 'o obj_ptr" where
  "null_ptr ae = \<lparr> ptr_valid = False, ptr_id = ae_null ae, ptr_domain = None, ptr_object = None, ptr_stored = None \<rparr>"

text \<open>\<open>assert(b)\<close>.\<close>

definition assert_that :: "bool \<Rightarrow> unit option" where
  "assert_that b = (if b then Some () else None)"

text \<open>\<open>std::string\<close> is a sequence of bytes; the conversions of \<open>reinterpret_cast\<close>.\<close>

definition byte_of_char :: "char \<Rightarrow> u8" where
  "byte_of_char c = of_nat (of_char c)"

definition char_of_byte :: "u8 \<Rightarrow> char" where
  "char_of_byte b = char_of (unat b)"

definition string_bytes :: "string \<Rightarrow> bytes" where
  "string_bytes s = map byte_of_char s"

definition bytes_string :: "bytes \<Rightarrow> string" where
  "bytes_string bs = map char_of_byte bs"

text \<open>The index of the first element with a property, the length of the list when there is none:
  the shape of every \<open>Find...Index\<close> loop of the source.\<close>

fun find_index :: "('a \<Rightarrow> bool) \<Rightarrow> 'a list \<Rightarrow> nat" where
  "find_index P [] = 0"
| "find_index P (x # xs) = (if P x then 0 else Suc (find_index P xs))"

text \<open>\<open>v.erase(v.begin() + i)\<close> and \<open>v.insert(v.begin() + i, x)\<close>.\<close>

definition erase_at :: "nat \<Rightarrow> 'a list \<Rightarrow> 'a list" where
  "erase_at i xs = take i xs @ drop (Suc i) xs"

definition insert_at :: "nat \<Rightarrow> 'a \<Rightarrow> 'a list \<Rightarrow> 'a list" where
  "insert_at i x xs = take i xs @ x # drop i xs"

text \<open>\<open>std::lower_bound\<close>: binary search for the first position whose element is not less than the
  value, over the half-open range that starts at \<open>first\<close> and has \<open>len\<close> elements.\<close>

function lower_bound_from :: "('a \<Rightarrow> 'a \<Rightarrow> bool) \<Rightarrow> 'a list \<Rightarrow> 'a \<Rightarrow> nat \<Rightarrow> nat \<Rightarrow> nat" where
  "lower_bound_from lt xs v first len =
     (if len = 0 then first
      else let half = len div 2; mid = first + half in
        if lt (xs ! mid) v then lower_bound_from lt xs v (Suc mid) (len - half - 1)
        else lower_bound_from lt xs v first half)"
  by pat_completeness auto
termination
  by (relation "measure (\<lambda>(lt, xs, v, first, len). len)") auto

declare lower_bound_from.simps [simp del]

definition lower_bound :: "('a \<Rightarrow> 'a \<Rightarrow> bool) \<Rightarrow> 'a list \<Rightarrow> 'a \<Rightarrow> nat" where
  "lower_bound lt xs v = lower_bound_from lt xs v 0 (length xs)"

section \<open>Pointers, assertions, strings\<close>

lemma assert_that_simps [simp]:
  "assert_that True = Some ()" "assert_that False = None"
  "assert_that b = Some u \<longleftrightarrow> b" "assert_that b = None \<longleftrightarrow> \<not> b"
  by (auto simp: assert_that_def)

lemma assert_that_bind [simp]:
  "(assert_that b \<bind> f) = (if b then f () else None)"
  by (simp add: assert_that_def)

lemma is_loaded_simps [simp]:
  "ptr_object p = Some ob \<Longrightarrow> is_loaded p" "ptr_object p = None \<Longrightarrow> \<not> is_loaded p"
  by (auto simp: is_loaded_def)

lemma is_loadedE: "is_loaded p \<Longrightarrow> (\<And>ob. ptr_object p = Some ob \<Longrightarrow> thesis) \<Longrightarrow> thesis"
  by (auto simp: is_loaded_def)

lemma ptr_load_loaded [simp]: "ptr_object p = Some ob \<Longrightarrow> ptr_load p = Some ob"
  by (simp add: ptr_load_def)

lemma null_ptr_simps [simp]:
  "ptr_valid (null_ptr ae) = False" "ptr_id (null_ptr ae) = ae_null ae"
  "ptr_object (null_ptr ae) = None" "is_loaded (null_ptr ae) = False"
  by (auto simp: null_ptr_def is_loaded_def)

lemma sample_aether_ids [simp]: "aether_ids sample_aether"
  by (simp add: aether_ids_def sample_aether_def)

lemma char_of_byte_of_char [simp]: "char_of_byte (byte_of_char c) = c"
  by (simp add: char_of_byte_def byte_of_char_def unat_of_nat)

lemma byte_of_char_of_byte [simp]: "byte_of_char (char_of_byte b) = b"
proof -
  have "unat b < 2 ^ LENGTH(8)" by (rule unsigned_less)
  then have "unat b < 256" by simp
  then show ?thesis by (simp add: char_of_byte_def byte_of_char_def of_char_of)
qed

lemma bytes_string_bytes [simp]: "bytes_string (string_bytes s) = s"
  by (simp add: bytes_string_def string_bytes_def comp_def)

lemma string_bytes_string [simp]: "string_bytes (bytes_string bs) = bs"
  by (simp add: bytes_string_def string_bytes_def comp_def)

lemma length_string_bytes [simp]: "length (string_bytes s) = length s"
  by (simp add: string_bytes_def)

lemma length_bytes_string [simp]: "length (bytes_string bs) = length bs"
  by (simp add: bytes_string_def)

section \<open>Indices, erasure, insertion\<close>

lemma find_index_le [simp]: "find_index P xs \<le> length xs"
  by (induction xs) auto

lemma find_index_less_iff [simp]: "find_index P xs < length xs \<longleftrightarrow> (\<exists>x\<in>set xs. P x)"
  by (induction xs) auto

lemma find_index_length_iff: "find_index P xs = length xs \<longleftrightarrow> (\<forall>x\<in>set xs. \<not> P x)"
  by (induction xs) auto

lemma find_index_nth: "find_index P xs < length xs \<Longrightarrow> P (xs ! find_index P xs)"
  by (induction xs) auto

lemma find_index_before: "j < find_index P xs \<Longrightarrow> \<not> P (xs ! j)"
proof (induction xs arbitrary: j)
  case (Cons x xs)
  then show ?case by (cases j) (auto split: if_splits)
qed simp

lemma find_index_eqI: "i < length xs \<Longrightarrow> P (xs ! i) \<Longrightarrow> (\<And>j. j < i \<Longrightarrow> \<not> P (xs ! j)) \<Longrightarrow>
  find_index P xs = i"
proof (induction xs arbitrary: i)
  case (Cons x xs)
  show ?case
  proof (cases i)
    case 0
    with Cons.prems show ?thesis by simp
  next
    case (Suc k)
    with Cons.prems(3) [of 0] have "\<not> P x" by simp
    moreover have "find_index P xs = k"
      using Cons.prems Suc by (intro Cons.IH) fastforce+
    ultimately show ?thesis using Suc by simp
  qed
qed simp

lemma find_index_append:
  "find_index P (xs @ ys) = (if \<exists>x\<in>set xs. P x then find_index P xs else length xs + find_index P ys)"
  by (induction xs) auto

lemma set_erase_at_subset: "set (erase_at i xs) \<subseteq> set xs"
  unfolding erase_at_def by (auto dest: in_set_takeD in_set_dropD)

lemma map_erase_at: "map f (erase_at i xs) = erase_at i (map f xs)"
  by (simp add: erase_at_def take_map drop_map)

lemma distinct_erase_at: "distinct xs \<Longrightarrow> distinct (erase_at i xs)"
proof -
  assume d: "distinct xs"
  have "set (take i xs) \<inter> set (drop i xs) = {}"
    using d by (simp add: set_take_disj_set_drop_if_distinct)
  moreover have "set (drop (Suc i) xs) \<subseteq> set (drop i xs)"
    by (simp add: set_drop_subset_set_drop)
  ultimately show ?thesis
    unfolding erase_at_def using d by auto
qed

lemma erase_at_not_mem: "distinct xs \<Longrightarrow> i < length xs \<Longrightarrow> xs ! i \<notin> set (erase_at i xs)"
proof -
  assume d: "distinct xs" and i: "i < length xs"
  have "xs = take i xs @ xs ! i # drop (Suc i) xs"
    using i by (rule id_take_nth_drop)
  then have "distinct (take i xs @ xs ! i # drop (Suc i) xs)" using d by simp
  then show ?thesis by (auto simp: erase_at_def)
qed

lemma set_erase_at: "distinct xs \<Longrightarrow> i < length xs \<Longrightarrow> set (erase_at i xs) = set xs - {xs ! i}"
proof -
  assume d: "distinct xs" and i: "i < length xs"
  have "xs = take i xs @ xs ! i # drop (Suc i) xs"
    using i by (rule id_take_nth_drop)
  then have "set xs = insert (xs ! i) (set (erase_at i xs))"
    unfolding erase_at_def by (metis Un_insert_right list.simps(15) set_append)
  then show ?thesis using erase_at_not_mem [OF d i] by auto
qed

lemma set_erase_at_other: "x \<in> set xs \<Longrightarrow> i < length xs \<Longrightarrow> x \<noteq> xs ! i \<Longrightarrow> x \<in> set (erase_at i xs)"
proof -
  assume x: "x \<in> set xs" "i < length xs" "x \<noteq> xs ! i"
  have "xs = take i xs @ xs ! i # drop (Suc i) xs"
    using x(2) by (rule id_take_nth_drop)
  then have "x \<in> set (take i xs @ xs ! i # drop (Suc i) xs)" using x(1) by metis
  then show ?thesis using x(3) by (auto simp: erase_at_def)
qed

lemma set_insert_at [simp]: "set (insert_at i x xs) = insert x (set xs)"
proof -
  have "set (take i xs) \<union> set (drop i xs) = set xs"
    by (metis append_take_drop_id set_append)
  then show ?thesis by (auto simp: insert_at_def)
qed

lemma length_insert_at [simp]: "length (insert_at i x xs) = Suc (length xs)"
  by (simp add: insert_at_def)

lemma insert_at_end [simp]: "insert_at (length xs) x xs = xs @ [x]"
  by (simp add: insert_at_def)

section \<open>Binary search is sorted insertion\<close>

text \<open>On a list partitioned by \<open>lt _ v\<close>, which every list sorted for \<open>lt\<close> is, the search ends at
  the number of leading elements below the value.\<close>

lemma lower_bound_from_partition:
  assumes "\<And>i. i < length xs \<Longrightarrow> lt (xs ! i) v \<longleftrightarrow> i < k"
    and "first \<le> k" "k \<le> first + len" "first + len \<le> length xs"
  shows "lower_bound_from lt xs v first len = k"
  using assms(2-4)
proof (induction len arbitrary: first rule: less_induct)
  case (less len)
  show ?case
  proof (cases "len = 0")
    case True
    then show ?thesis using less.prems by (simp add: lower_bound_from.simps)
  next
    case False
    let ?half = "len div 2" and ?mid = "first + len div 2"
    have mid: "?mid < length xs" using False less.prems by simp
    have half: "?half < len" "len - ?half - 1 < len" using False by auto
    show ?thesis
    proof (cases "?mid < k")
      case True
      have "lower_bound_from lt xs v (Suc ?mid) (len - ?half - 1) = k"
        by (rule less.IH) (use half True less.prems False in auto)
      then show ?thesis using assms(1) [OF mid] True False
        by (subst lower_bound_from.simps) (simp add: Let_def)
    next
      case not_less: False
      have "lower_bound_from lt xs v first ?half = k"
        by (rule less.IH) (use half not_less less.prems False in auto)
      then show ?thesis using assms(1) [OF mid] not_less False
        by (subst lower_bound_from.simps) (simp add: Let_def)
    qed
  qed
qed

lemma lower_bound_takeWhile:
  fixes key :: "'a \<Rightarrow> 'k::linorder"
  assumes "sorted (map key xs)"
  shows "lower_bound (\<lambda>a b. key a < key b) xs v = length (takeWhile (\<lambda>a. key a < key v) xs)"
proof -
  let ?k = "length (takeWhile (\<lambda>a. key a < key v) xs)"
  have part: "key (xs ! i) < key v \<longleftrightarrow> i < ?k" if i: "i < length xs" for i
  proof
    assume lt: "key (xs ! i) < key v"
    show "i < ?k"
    proof (rule ccontr)
      assume "\<not> i < ?k"
      then have le: "?k \<le> i" by simp
      then have "\<not> key (xs ! ?k) < key v"
        using i nth_length_takeWhile [of "\<lambda>a. key a < key v" xs] by simp
      moreover have "key (xs ! ?k) \<le> key (xs ! i)"
        using assms le i by (simp add: sorted_iff_nth_mono)
      ultimately show False using lt by simp
    qed
  next
    assume "i < ?k"
    then show "key (xs ! i) < key v"
      by (metis nth_mem set_takeWhileD takeWhile_nth)
  qed
  have "?k \<le> length xs" by (simp add: length_takeWhile_le)
  then show ?thesis
    unfolding lower_bound_def by (intro lower_bound_from_partition) (use part in auto)
qed

lemma sorted_insert_at_takeWhile:
  fixes key :: "'a \<Rightarrow> 'k::linorder"
  assumes "sorted (map key xs)"
  shows "sorted (map key (insert_at (length (takeWhile (\<lambda>a. key a < key v) xs)) v xs))"
proof -
  let ?p = "\<lambda>a. key a < key v"
  have split: "insert_at (length (takeWhile ?p xs)) v xs = takeWhile ?p xs @ v # dropWhile ?p xs"
    by (simp add: insert_at_def takeWhile_eq_take [symmetric] dropWhile_eq_drop [symmetric])
  have "sorted (map key (takeWhile ?p xs @ dropWhile ?p xs))" using assms by simp
  then have s1: "sorted (map key (takeWhile ?p xs))" and s2: "sorted (map key (dropWhile ?p xs))"
    by (simp_all only: map_append sorted_append)
  have hi: "key v \<le> key y" if y: "y \<in> set (dropWhile ?p xs)" for y
  proof -
    obtain z zs where zs: "dropWhile ?p xs = z # zs"
      using y by (cases "dropWhile ?p xs") auto
    then have "\<not> ?p z" using hd_dropWhile [of ?p xs] by auto
    then show ?thesis using s2 y zs by auto
  qed
  have lo: "key x < key v" if "x \<in> set (takeWhile ?p xs)" for x
    using that by (auto dest: set_takeWhileD)
  show ?thesis
    unfolding split using s1 s2 hi lo
    by (auto simp: sorted_append intro: less_imp_le less_le_trans)
qed

lemma sorted_map_le_last:
  fixes key :: "'a \<Rightarrow> 'k::linorder"
  shows "sorted (map key xs) \<Longrightarrow> x \<in> set xs \<Longrightarrow> key x \<le> key (last xs)"
  by (induction xs) auto

text \<open>A list whose keys increase strictly is determined by its elements.\<close>

lemma strict_sorted_map_unique:
  fixes key :: "'a \<Rightarrow> 'k::linorder"
  assumes "sorted_wrt (<) (map key xs)" "sorted_wrt (<) (map key ys)" "set xs = set ys"
  shows "xs = ys"
proof -
  have keys: "map key xs = map key ys"
    using assms by (intro strict_sorted_equal) (auto simp: image_set [symmetric])
  have inj: "inj_on key (set xs)"
    using assms(1) by (metis distinct_map strict_sorted_iff)
  show ?thesis
    using keys inj assms(3) by (metis (no_types, lifting) map_inj_on Un_absorb)
qed

section \<open>Byte order\<close>

lemma mask8: "(0xFF :: 'a::len word) = mask 8"
  by (simp add: mask_eq_exp_minus_1)

lemma ucast_and_FF [codec_simps]:
  "(ucast (x AND 0xFF :: u32) :: u8) = ucast x" "(ucast (y AND 0xFF :: u64) :: u8) = ucast y"
  by (rule bit_word_eqI, simp only: mask8, simp add: bit_simps)+

lemma word_less_Suc:
  fixes x :: "'a::len word"
  assumes "x \<noteq> -1"
  shows "x < x + 1"
proof -
  have "1 + x \<noteq> 0" using assms by (metis add.commute eq_neg_iff_add_eq_0)
  then show ?thesis by (simp add: word_less_nat_alt unatSuc add.commute)
qed

lemma unat_word_of_nat_32: "n < 2 ^ 32 \<Longrightarrow> unat (word_of_nat n :: u32) = n"
  by (simp add: unat_of_nat)

end
