(* ===== verification/Codec.thy ===== *)
theory Codec
  imports Prelude
begin

text \<open>
  The contract between a frame encoder and its decoder, and what every client of a pair may conclude
  from it.  The sync frames and the stream frames are its instances.
\<close>

locale wire_codec =
  fixes enc :: "'f \<Rightarrow> bytes"
    and dec :: "bytes \<Rightarrow> 'f option"
    and wf :: "'f \<Rightarrow> bool"
  assumes dec_enc: "wf f \<Longrightarrow> dec (enc f) = Some f"
    and enc_dec: "dec b = Some f \<Longrightarrow> wf f \<and> enc f = b"
    and enc_append: "wf f \<Longrightarrow> wf g \<Longrightarrow> enc g = enc f @ r \<Longrightarrow> r = []"
begin

lemma dec_iff: "dec b = Some f \<longleftrightarrow> wf f \<and> b = enc f"
  using dec_enc [of f] enc_dec [of b f] by blast

lemma enc_inj: "wf f \<Longrightarrow> wf g \<Longrightarrow> enc f = enc g \<Longrightarrow> f = g"
  by (metis dec_enc option.inject)

lemma prefix_free: "wf f \<Longrightarrow> wf g \<Longrightarrow> enc g = enc f @ r \<Longrightarrow> f = g \<and> r = []"
  using enc_append [of f g r] enc_inj [of f g] by auto

lemma truncated_rejected: "wf f \<Longrightarrow> enc f = p @ q \<Longrightarrow> q \<noteq> [] \<Longrightarrow> dec p = None"
  using enc_dec [of p] enc_append [of _ f q] by (cases "dec p") auto

lemma extended_rejected: "wf f \<Longrightarrow> q \<noteq> [] \<Longrightarrow> dec (enc f @ q) = None"
  using enc_dec [of "enc f @ q"] enc_append [of f _ q] by (cases "dec (enc f @ q)") auto

end

text \<open>
  Readers: a reader takes the input and a position and returns a value with the position after it.
  A reader is \<open>exact\<close> for a printer when what it consumed is what the printer writes.
\<close>

definition reader_exact :: "(bytes \<Rightarrow> nat \<Rightarrow> ('a \<times> nat) option) \<Rightarrow> ('a \<Rightarrow> bytes) \<Rightarrow> bool" where
  "reader_exact rd pr \<longleftrightarrow> (\<forall>inp pos v pos'. pos \<le> length inp \<longrightarrow> rd inp pos = Some (v, pos') \<longrightarrow>
     pos' \<le> length inp \<and> pos' = pos + length (pr v) \<and> take pos' inp = take pos inp @ pr v)"

lemma reader_exactD:
  assumes "reader_exact rd pr" "pos \<le> length inp" "rd inp pos = Some (v, pos')"
  shows "pos' \<le> length inp" "pos' = pos + length (pr v)" "take pos' inp = take pos inp @ pr v"
  using assms unfolding reader_exact_def by blast+

text \<open>A chunk of the input from its position, as a reader takes it with \<open>assign\<close>.\<close>

lemma take_add_slice: "pos + n \<le> length inp \<Longrightarrow> take (pos + n) inp = take pos inp @ take n (drop pos inp)"
  by (simp add: take_add)

lemma nth_slice_4:
  assumes "pos + 4 \<le> length inp"
  shows "take 4 (drop pos inp) = [inp ! pos, inp ! (pos + 1), inp ! (pos + 2), inp ! (pos + 3)]"
proof -
  have "take 4 (drop pos inp) = map (\<lambda>i. drop pos inp ! i) [0..<4]"
    using assms by (intro nth_equalityI) auto
  then show ?thesis using assms by (simp add: upt_rec eval_nat_numeral)
qed

end
