(* ===== verification/SyncFrame.thy ===== *)
theory SyncFrame
  imports Codec
begin

text \<open>
  The synchronization frames of protocol version 1 (src/include/apptraverse/sync_frame.h and
  src/src/sync_frame.cpp, with SharedEventId): big-endian encoders and the decoders that validate
  untrusted bytes.  The C++ decoders fill an output parameter and return a bool; here the result is
  an option, since every caller discards the parameter when the bool is false.  \<open>size_t\<close> is \<open>nat\<close>:
  positions and lengths of a vector in memory, far below the 64-bit range.
\<close>

section \<open>Frames\<close>

record shared_event_id =
  origin_uid :: string
  origin_sequence :: u64

definition SharedEventId_less :: "shared_event_id \<Rightarrow> shared_event_id \<Rightarrow> bool" where
  "SharedEventId_less lhs rhs =
     (if origin_uid lhs \<noteq> origin_uid rhs then origin_uid lhs < origin_uid rhs
      else origin_sequence lhs < origin_sequence rhs)"

definition kSyncProtocolVersion :: u8 where
  "kSyncProtocolVersion = 1"

datatype sync_frame_type = kNodeState | kAck | kEvent

fun sync_frame_type_byte :: "sync_frame_type \<Rightarrow> u8" where
  "sync_frame_type_byte kNodeState = 1"
| "sync_frame_type_byte kAck = 2"
| "sync_frame_type_byte kEvent = 3"

record node_state_frame =
  ns_packet_id :: obj_id
  ns_target_node_id :: obj_id
  ns_destination_share_id :: obj_id
  ns_payload :: bytes

record ack_frame =
  ack_packet_id :: obj_id
  ack_target_node_id :: obj_id
  ack_destination_share_id :: obj_id

record event_frame =
  ev_packet_id :: obj_id
  ev_target_node_id :: obj_id
  ev_destination_share_id :: obj_id
  ev_identity :: shared_event_id
  ev_timestamp_us :: u64
  ev_event_class_id :: class_id
  ev_payload :: bytes

section \<open>Writers\<close>

definition AppendU32 :: "bytes \<Rightarrow> u32 \<Rightarrow> bytes" where
  "AppendU32 out value = out @
     [ucast (drop_bit 24 value AND 0xFF), ucast (drop_bit 16 value AND 0xFF),
      ucast (drop_bit 8 value AND 0xFF), ucast (value AND 0xFF)]"

definition AppendObjId :: "bytes \<Rightarrow> obj_id \<Rightarrow> bytes" where
  "AppendObjId out i = AppendU32 out i"

definition AppendU64 :: "bytes \<Rightarrow> u64 \<Rightarrow> bytes" where
  "AppendU64 out value = AppendU32 (AppendU32 out (ucast (drop_bit 32 value))) (ucast (value AND 0xFFFFFFFF))"

definition AppendHeader :: "bytes \<Rightarrow> sync_frame_type \<Rightarrow> bytes" where
  "AppendHeader out t = out @ [sync_frame_type_byte t, kSyncProtocolVersion]"

definition EncodeNodeStateFrame :: "node_state_frame \<Rightarrow> bytes" where
  "EncodeNodeStateFrame f =
     (let out = AppendHeader [] kNodeState;
          out = AppendObjId out (ns_packet_id f);
          out = AppendObjId out (ns_target_node_id f);
          out = AppendObjId out (ns_destination_share_id f);
          out = AppendU32 out (of_nat (length (ns_payload f)))
      in out @ ns_payload f)"

definition EncodeAckFrame :: "ack_frame \<Rightarrow> bytes" where
  "EncodeAckFrame f =
     (let out = AppendHeader [] kAck;
          out = AppendObjId out (ack_packet_id f);
          out = AppendObjId out (ack_target_node_id f)
      in AppendObjId out (ack_destination_share_id f))"

definition EncodeEventFrame :: "event_frame \<Rightarrow> bytes" where
  "EncodeEventFrame f =
     (let out = AppendHeader [] kEvent;
          out = AppendObjId out (ev_packet_id f);
          out = AppendObjId out (ev_target_node_id f);
          out = AppendObjId out (ev_destination_share_id f);
          out = AppendU32 out (of_nat (length (origin_uid (ev_identity f))));
          out = out @ string_bytes (origin_uid (ev_identity f));
          out = AppendU64 out (origin_sequence (ev_identity f));
          out = AppendU64 out (ev_timestamp_us f);
          out = AppendU32 out (ev_event_class_id f);
          out = AppendU32 out (of_nat (length (ev_payload f)))
      in out @ ev_payload f)"

section \<open>Readers\<close>

definition ReadU32 :: "bytes \<Rightarrow> nat \<Rightarrow> (u32 \<times> nat) option" where
  "ReadU32 inp pos =
     (if pos + 4 > length inp then None
      else Some (push_bit 24 (ucast (inp ! pos)) OR push_bit 16 (ucast (inp ! (pos + 1))) OR
                 push_bit 8 (ucast (inp ! (pos + 2))) OR ucast (inp ! (pos + 3)), pos + 4))"

definition ReadObjId :: "aether \<Rightarrow> bytes \<Rightarrow> nat \<Rightarrow> (obj_id \<times> nat) option" where
  "ReadObjId ae inp pos = do {
     (raw, pos) \<leftarrow> ReadU32 inp pos;
     if ae_valid ae raw then Some (raw, pos) else None }"

definition ReadU64 :: "bytes \<Rightarrow> nat \<Rightarrow> (u64 \<times> nat) option" where
  "ReadU64 inp pos = do {
     (hi, pos) \<leftarrow> ReadU32 inp pos;
     (lo, pos) \<leftarrow> ReadU32 inp pos;
     Some (push_bit 32 (ucast hi) OR ucast lo, pos) }"

definition kMaxOriginUidBytes :: u32 where
  "kMaxOriginUidBytes = 256"

definition ReadBoundedBytes :: "bytes \<Rightarrow> nat \<Rightarrow> u32 \<Rightarrow> (string \<times> nat) option" where
  "ReadBoundedBytes inp pos max_size = do {
     (size, pos) \<leftarrow> ReadU32 inp pos;
     if size = 0 \<or> size > max_size \<or> pos + unat size > length inp then None
     else Some (bytes_string (take (unat size) (drop pos inp)), pos + unat size) }"

definition ReadHeader :: "bytes \<Rightarrow> sync_frame_type \<Rightarrow> nat option" where
  "ReadHeader inp expected =
     (if length inp < 2 then None
      else if inp ! 0 \<noteq> sync_frame_type_byte expected then None
      else if inp ! 1 \<noteq> kSyncProtocolVersion then None
      else Some 2)"

definition PeekSyncFrameType :: "bytes \<Rightarrow> sync_frame_type option" where
  "PeekSyncFrameType bs =
     (if length bs < 2 \<or> bs ! 1 \<noteq> kSyncProtocolVersion then None
      else if bs ! 0 = sync_frame_type_byte kNodeState then Some kNodeState
      else if bs ! 0 = sync_frame_type_byte kAck then Some kAck
      else if bs ! 0 = sync_frame_type_byte kEvent then Some kEvent
      else None)"

definition DecodeNodeStateFrame :: "aether \<Rightarrow> bytes \<Rightarrow> node_state_frame option" where
  "DecodeNodeStateFrame ae bs = do {
     pos \<leftarrow> ReadHeader bs kNodeState;
     (packet, pos) \<leftarrow> ReadObjId ae bs pos;
     (target, pos) \<leftarrow> ReadObjId ae bs pos;
     (share, pos) \<leftarrow> ReadObjId ae bs pos;
     (payload_size, pos) \<leftarrow> ReadU32 bs pos;
     if pos + unat payload_size \<noteq> length bs then None
     else Some \<lparr> ns_packet_id = packet, ns_target_node_id = target, ns_destination_share_id = share,
                 ns_payload = take (unat payload_size) (drop pos bs) \<rparr> }"

definition DecodeAckFrame :: "aether \<Rightarrow> bytes \<Rightarrow> ack_frame option" where
  "DecodeAckFrame ae bs = do {
     pos \<leftarrow> ReadHeader bs kAck;
     (packet, pos) \<leftarrow> ReadObjId ae bs pos;
     (target, pos) \<leftarrow> ReadObjId ae bs pos;
     (share, pos) \<leftarrow> ReadObjId ae bs pos;
     if pos = length bs
     then Some \<lparr> ack_packet_id = packet, ack_target_node_id = target, ack_destination_share_id = share \<rparr>
     else None }"

definition DecodeEventFrame :: "aether \<Rightarrow> bytes \<Rightarrow> event_frame option" where
  "DecodeEventFrame ae bs = do {
     pos \<leftarrow> ReadHeader bs kEvent;
     (packet, pos) \<leftarrow> ReadObjId ae bs pos;
     (target, pos) \<leftarrow> ReadObjId ae bs pos;
     (share, pos) \<leftarrow> ReadObjId ae bs pos;
     (uid, pos) \<leftarrow> ReadBoundedBytes bs pos kMaxOriginUidBytes;
     (seqn, pos) \<leftarrow> ReadU64 bs pos;
     if seqn = 0 then None else do {
     (timestamp, pos) \<leftarrow> ReadU64 bs pos;
     if timestamp = 0 then None else do {
     (cls, pos) \<leftarrow> ReadU32 bs pos;
     if cls = 0 \<or> ae_distance ae (ae_event_class ae) cls < 0 then None else do {
     (payload_size, pos) \<leftarrow> ReadU32 bs pos;
     if pos + unat payload_size \<noteq> length bs then None
     else Some \<lparr> ev_packet_id = packet, ev_target_node_id = target, ev_destination_share_id = share,
                 ev_identity = \<lparr> origin_uid = uid, origin_sequence = seqn \<rparr>,
                 ev_timestamp_us = timestamp, ev_event_class_id = cls,
                 ev_payload = take (unat payload_size) (drop pos bs) \<rparr> }}}}"

text \<open>What a frame must satisfy to be carried: the domain of the round trips.\<close>

definition node_state_frame_wf :: "aether \<Rightarrow> node_state_frame \<Rightarrow> bool" where
  "node_state_frame_wf ae f \<longleftrightarrow> ae_valid ae (ns_packet_id f) \<and> ae_valid ae (ns_target_node_id f) \<and>
     ae_valid ae (ns_destination_share_id f) \<and> length (ns_payload f) < 2 ^ 32"

definition ack_frame_wf :: "aether \<Rightarrow> ack_frame \<Rightarrow> bool" where
  "ack_frame_wf ae f \<longleftrightarrow> ae_valid ae (ack_packet_id f) \<and> ae_valid ae (ack_target_node_id f) \<and>
     ae_valid ae (ack_destination_share_id f)"

definition event_frame_wf :: "aether \<Rightarrow> event_frame \<Rightarrow> bool" where
  "event_frame_wf ae f \<longleftrightarrow> ae_valid ae (ev_packet_id f) \<and> ae_valid ae (ev_target_node_id f) \<and>
     ae_valid ae (ev_destination_share_id f) \<and>
     origin_uid (ev_identity f) \<noteq> [] \<and> length (origin_uid (ev_identity f)) \<le> 256 \<and>
     origin_sequence (ev_identity f) \<noteq> 0 \<and> ev_timestamp_us f \<noteq> 0 \<and>
     ev_event_class_id f \<noteq> 0 \<and> ae_distance ae (ae_event_class ae) (ev_event_class_id f) \<ge> 0 \<and>
     length (ev_payload f) < 2 ^ 32"

section \<open>Fixed-width integers\<close>

definition u32_bytes :: "u32 \<Rightarrow> bytes" where
  "u32_bytes v = [ucast (drop_bit 24 v), ucast (drop_bit 16 v), ucast (drop_bit 8 v), ucast v]"

definition u64_bytes :: "u64 \<Rightarrow> bytes" where
  "u64_bytes v = u32_bytes (ucast (drop_bit 32 v)) @ u32_bytes (ucast v)"

definition be_u32 :: "u8 \<Rightarrow> u8 \<Rightarrow> u8 \<Rightarrow> u8 \<Rightarrow> u32" where
  "be_u32 a b c d = push_bit 24 (ucast a) OR push_bit 16 (ucast b) OR push_bit 8 (ucast c) OR ucast d"

lemma length_u32_bytes [simp]: "length (u32_bytes v) = 4"
  by (simp add: u32_bytes_def)

lemma length_u64_bytes [simp]: "length (u64_bytes v) = 8"
  by (simp add: u64_bytes_def)

lemma AppendU32_bytes [codec_simps]: "AppendU32 out v = out @ u32_bytes v"
  by (simp add: AppendU32_def u32_bytes_def ucast_and_FF)

lemma ucast_mask32: "(ucast (v AND 0xFFFFFFFF :: u64) :: u32) = ucast v"
proof -
  have m: "(0xFFFFFFFF :: u64) = mask 32" by (simp add: mask_eq_exp_minus_1)
  show ?thesis unfolding m by (rule bit_word_eqI) (simp add: bit_simps)
qed

lemma AppendU64_bytes [codec_simps]: "AppendU64 out v = out @ u64_bytes v"
  by (simp add: AppendU64_def u64_bytes_def codec_simps ucast_mask32)

lemma bit_be_u32: "bit (be_u32 a b c d) n \<longleftrightarrow>
   (if n < 8 then bit d n else if n < 16 then bit c (n - 8)
    else if n < 24 then bit b (n - 16) else n < 32 \<and> bit a (n - 24))"
  unfolding be_u32_def by (auto simp: bit_simps not_less dest: bit_imp_le_length)

lemma be_u32_bytes: "be_u32 (ucast (drop_bit 24 v)) (ucast (drop_bit 16 v)) (ucast (drop_bit 8 v)) (ucast v) = v"
  by (rule bit_word_eqI) (auto simp: bit_be_u32 bit_simps)

lemma u32_bytes_be: "u32_bytes (be_u32 a b c d) = [a, b, c, d]"
  unfolding u32_bytes_def
  by (simp, intro conjI; rule bit_word_eqI) (auto simp: bit_be_u32 bit_simps dest: bit_imp_le_length)

lemma u64_halves: "push_bit 32 (ucast (ucast (drop_bit 32 v) :: u32)) OR ucast (ucast v :: u32) = (v :: u64)"
  by (rule bit_word_eqI) (auto simp: bit_simps)

lemma u64_bytes_join: "u64_bytes (push_bit 32 (ucast (hi :: u32)) OR ucast (lo :: u32)) = u32_bytes hi @ u32_bytes lo"
proof -
  have "(ucast (drop_bit 32 (push_bit 32 (ucast hi) OR ucast lo :: u64)) :: u32) = hi"
    by (rule bit_word_eqI) (auto simp: bit_simps dest: bit_imp_le_length)
  moreover have "(ucast (push_bit 32 (ucast hi) OR ucast lo :: u64) :: u32) = lo"
    by (rule bit_word_eqI) (auto simp: bit_simps dest: bit_imp_le_length)
  ultimately show ?thesis by (simp only: u64_bytes_def)
qed

section \<open>Readers undo writers\<close>

lemma ReadU32_print [codec_simps]: "pos = length pre \<Longrightarrow> ReadU32 (pre @ u32_bytes v @ post) pos = Some (v, pos + 4)"
  by (simp add: ReadU32_def u32_bytes_def nth_append be_u32_bytes [unfolded be_u32_def])

lemma ReadU32_eq:
  "ReadU32 inp pos = (if pos + 4 > length inp then None
     else Some (be_u32 (inp ! pos) (inp ! (pos + 1)) (inp ! (pos + 2)) (inp ! (pos + 3)), pos + 4))"
  by (simp add: ReadU32_def be_u32_def)

lemma ReadU32_exact: "reader_exact ReadU32 u32_bytes"
  unfolding reader_exact_def
  by (auto simp: ReadU32_eq u32_bytes_be take_add_slice nth_slice_4 split: if_splits)

lemma ReadObjId_print [codec_simps]:
  "pos = length pre \<Longrightarrow> ae_valid ae v \<Longrightarrow> ReadObjId ae (pre @ u32_bytes v @ post) pos = Some (v, pos + 4)"
  by (simp add: ReadObjId_def ReadU32_print)

lemma ReadObjId_U32: "ReadObjId ae inp pos = Some (v, pos') \<longleftrightarrow> ReadU32 inp pos = Some (v, pos') \<and> ae_valid ae v"
  by (auto simp: ReadObjId_def split: Option.bind_splits if_splits)

lemma ReadObjId_exact: "reader_exact (ReadObjId ae) u32_bytes"
  using ReadU32_exact unfolding reader_exact_def ReadObjId_U32 by blast

lemma ReadU64_print [codec_simps]:
  assumes "pos = length pre"
  shows "ReadU64 (pre @ u64_bytes v @ post) pos = Some (v, pos + 8)"
proof -
  let ?hi = "ucast (drop_bit 32 v) :: u32" and ?lo = "ucast v :: u32"
  have "ReadU32 (pre @ u32_bytes ?hi @ (u32_bytes ?lo @ post)) pos = Some (?hi, pos + 4)"
    using assms by (rule ReadU32_print)
  moreover have "ReadU32 ((pre @ u32_bytes ?hi) @ u32_bytes ?lo @ post) (pos + 4) = Some (?lo, pos + 4 + 4)"
    using assms by (intro ReadU32_print) simp
  ultimately show ?thesis by (simp add: ReadU64_def u64_bytes_def u64_halves)
qed

lemma ReadU64_exact: "reader_exact ReadU64 u64_bytes"
proof -
  have "pos' \<le> length inp \<and> pos' = pos + length (u64_bytes v) \<and> take pos' inp = take pos inp @ u64_bytes v"
    if pos: "pos \<le> length inp" and rd: "ReadU64 inp pos = Some (v, pos')" for inp pos v pos'
  proof -
    obtain hi lo p1 where 1: "ReadU32 inp pos = Some (hi, p1)" and 2: "ReadU32 inp p1 = Some (lo, pos')"
      and v: "v = push_bit 32 (ucast hi) OR ucast lo"
      using rd by (auto simp: ReadU64_def split: Option.bind_splits)
    note a = reader_exactD [OF ReadU32_exact pos 1]
    note b = reader_exactD [OF ReadU32_exact a(1) 2]
    show ?thesis using a b by (simp add: v u64_bytes_join)
  qed
  then show ?thesis unfolding reader_exact_def by blast
qed

definition bounded_bytes :: "string \<Rightarrow> bytes" where
  "bounded_bytes s = u32_bytes (of_nat (length s)) @ string_bytes s"

lemma length_bounded_bytes [simp]: "length (bounded_bytes s) = 4 + length s"
  by (simp add: bounded_bytes_def)

lemma ReadBoundedBytes_print [codec_simps]:
  assumes "pos = length pre" "s \<noteq> []" "length s \<le> unat m" "length s < 2 ^ 32"
  shows "ReadBoundedBytes (pre @ bounded_bytes s @ post) pos m = Some (s, pos + 4 + length s)"
proof -
  have n: "unat (of_nat (length s) :: u32) = length s"
    using assms(4) by (rule unat_word_of_nat_32)
  have "ReadU32 (pre @ u32_bytes (of_nat (length s)) @ (string_bytes s @ post)) pos = Some (of_nat (length s), pos + 4)"
    using assms(1) by (rule ReadU32_print)
  moreover have "(of_nat (length s) :: u32) \<noteq> 0" "\<not> (of_nat (length s) :: u32) > m"
    using assms n by (auto simp: word_less_nat_alt unat_eq_zero)
  ultimately show ?thesis using assms n
    by (simp add: ReadBoundedBytes_def bounded_bytes_def)
qed

lemma ReadBoundedBytes_exact: "reader_exact (\<lambda>inp pos. ReadBoundedBytes inp pos m) bounded_bytes"
proof -
  have "pos' \<le> length inp \<and> pos' = pos + length (bounded_bytes s) \<and> take pos' inp = take pos inp @ bounded_bytes s"
    if pos: "pos \<le> length inp" and rd: "ReadBoundedBytes inp pos m = Some (s, pos')" for inp pos s pos'
  proof -
    obtain size p1 where 1: "ReadU32 inp pos = Some (size, p1)" and p': "pos' = p1 + unat size"
      and le: "p1 + unat size \<le> length inp" and s: "s = bytes_string (take (unat size) (drop p1 inp))"
      using rd by (auto simp: ReadBoundedBytes_def split: Option.bind_splits if_splits)
    note a = reader_exactD [OF ReadU32_exact pos 1]
    have "length s = unat size" using le by (simp add: s)
    then show ?thesis using a le by (simp add: p' s bounded_bytes_def take_add)
  qed
  then show ?thesis unfolding reader_exact_def by blast
qed

lemma ReadBoundedBytes_bounds:
  assumes "ReadBoundedBytes inp pos m = Some (s, pos')"
  shows "s \<noteq> [] \<and> length s \<le> unat m"
proof -
  obtain size p1 where b: "size \<noteq> 0" "\<not> size > m" "\<not> length inp < p1 + unat size"
    and s: "s = bytes_string (take (unat size) (drop p1 inp))"
    using assms by (auto simp: ReadBoundedBytes_def split: Option.bind_splits if_splits)
  have "length s = unat size" using b(3) by (simp add: s)
  moreover have "unat size > 0" "unat size \<le> unat m"
    using b by (simp_all add: unat_gt_0 word_le_nat_alt [symmetric] not_less)
  ultimately show ?thesis by auto
qed

lemma ReadHeader_iff:
  "ReadHeader inp t = Some pos \<longleftrightarrow> pos = 2 \<and> 2 \<le> length inp \<and>
     take 2 inp = [sync_frame_type_byte t, kSyncProtocolVersion]"
proof (cases inp rule: list.exhaust [case_names Nil Cons])
  case (Cons a xs)
  then show ?thesis by (cases xs) (auto simp: ReadHeader_def)
qed (simp add: ReadHeader_def)

lemma ReadHeader_print [codec_simps]:
  "ReadHeader (sync_frame_type_byte t # kSyncProtocolVersion # rest) t = Some 2"
  by (simp add: ReadHeader_iff)

section \<open>Frames are a codec\<close>

text \<open>The layout of the three frames.\<close>

definition addressed :: "sync_frame_type \<Rightarrow> obj_id \<Rightarrow> obj_id \<Rightarrow> obj_id \<Rightarrow> bytes" where
  "addressed t p n s = [sync_frame_type_byte t, kSyncProtocolVersion] @ u32_bytes p @ u32_bytes n @ u32_bytes s"

lemma length_addressed [simp]: "length (addressed t p n s) = 14"
  by (simp add: addressed_def)

lemma EncodeNodeStateFrame_layout: "EncodeNodeStateFrame f =
   addressed kNodeState (ns_packet_id f) (ns_target_node_id f) (ns_destination_share_id f) @
   u32_bytes (of_nat (length (ns_payload f))) @ ns_payload f"
  by (simp add: EncodeNodeStateFrame_def addressed_def AppendHeader_def AppendObjId_def codec_simps Let_def)

lemma EncodeAckFrame_layout: "EncodeAckFrame f =
   addressed kAck (ack_packet_id f) (ack_target_node_id f) (ack_destination_share_id f)"
  by (simp add: EncodeAckFrame_def addressed_def AppendHeader_def AppendObjId_def codec_simps Let_def)

lemma EncodeEventFrame_layout: "EncodeEventFrame f =
   addressed kEvent (ev_packet_id f) (ev_target_node_id f) (ev_destination_share_id f) @
   bounded_bytes (origin_uid (ev_identity f)) @ u64_bytes (origin_sequence (ev_identity f)) @
   u64_bytes (ev_timestamp_us f) @ u32_bytes (ev_event_class_id f) @
   u32_bytes (of_nat (length (ev_payload f))) @ ev_payload f"
  by (simp add: EncodeEventFrame_def addressed_def AppendHeader_def AppendObjId_def bounded_bytes_def
      codec_simps Let_def)

text \<open>The three ids every frame starts with, read back and read exactly.\<close>

definition ReadAddress :: "aether \<Rightarrow> bytes \<Rightarrow> sync_frame_type \<Rightarrow> ((obj_id \<times> obj_id \<times> obj_id) \<times> nat) option" where
  "ReadAddress ae bs t = do {
     pos \<leftarrow> ReadHeader bs t;
     (packet, pos) \<leftarrow> ReadObjId ae bs pos;
     (target, pos) \<leftarrow> ReadObjId ae bs pos;
     (share, pos) \<leftarrow> ReadObjId ae bs pos;
     Some ((packet, target, share), pos) }"

lemma ReadAddress_print [codec_simps]:
  assumes "ae_valid ae p" "ae_valid ae n" "ae_valid ae s"
  shows "ReadAddress ae (addressed t p n s @ rest) t = Some ((p, n, s), 14)"
proof -
  let ?h = "[sync_frame_type_byte t, kSyncProtocolVersion]"
  have h: "ReadHeader (addressed t p n s @ rest) t = Some 2"
    by (simp add: addressed_def ReadHeader_print)
  have 1: "ReadObjId ae (addressed t p n s @ rest) 2 = Some (p, 6)"
    using ReadObjId_print [of 2 ?h ae p "u32_bytes n @ u32_bytes s @ rest"] assms by (simp add: addressed_def)
  have 2: "ReadObjId ae (addressed t p n s @ rest) 6 = Some (n, 10)"
    using ReadObjId_print [of 6 "?h @ u32_bytes p" ae n "u32_bytes s @ rest"] assms by (simp add: addressed_def)
  have 3: "ReadObjId ae (addressed t p n s @ rest) 10 = Some (s, 14)"
    using ReadObjId_print [of 10 "?h @ u32_bytes p @ u32_bytes n" ae s rest] assms by (simp add: addressed_def)
  show ?thesis using h 1 2 3 by (simp add: ReadAddress_def)
qed

lemma ReadAddressD:
  assumes "ReadAddress ae bs t = Some ((p, n, s), pos)"
  shows "pos = 14 \<and> 14 \<le> length bs \<and> take 14 bs = addressed t p n s \<and>
    ae_valid ae p \<and> ae_valid ae n \<and> ae_valid ae s"
proof -
  obtain p1 p2 where h: "ReadHeader bs t = Some 2" and 1: "ReadObjId ae bs 2 = Some (p, p1)"
    and 2: "ReadObjId ae bs p1 = Some (n, p2)" and 3: "ReadObjId ae bs p2 = Some (s, pos)"
    using assms by (auto simp: ReadAddress_def ReadHeader_iff split: Option.bind_splits)
  have h2: "2 \<le> length bs" using h by (simp add: ReadHeader_iff)
  note a = reader_exactD [OF ReadObjId_exact h2 1]
  note b = reader_exactD [OF ReadObjId_exact a(1) 2]
  note c = reader_exactD [OF ReadObjId_exact b(1) 3]
  show ?thesis using h a b c 1 2 3 by (simp add: ReadHeader_iff addressed_def ReadObjId_U32)
qed

lemma DecodeNodeStateFrame_address: "DecodeNodeStateFrame ae bs = do {
     ((packet, target, share), pos) \<leftarrow> ReadAddress ae bs kNodeState;
     (payload_size, pos) \<leftarrow> ReadU32 bs pos;
     if pos + unat payload_size \<noteq> length bs then None
     else Some \<lparr> ns_packet_id = packet, ns_target_node_id = target, ns_destination_share_id = share,
                 ns_payload = take (unat payload_size) (drop pos bs) \<rparr> }"
  by (simp add: DecodeNodeStateFrame_def ReadAddress_def split: Option.bind_splits)

lemma DecodeAckFrame_address: "DecodeAckFrame ae bs = do {
     ((packet, target, share), pos) \<leftarrow> ReadAddress ae bs kAck;
     if pos = length bs
     then Some \<lparr> ack_packet_id = packet, ack_target_node_id = target, ack_destination_share_id = share \<rparr>
     else None }"
  by (simp add: DecodeAckFrame_def ReadAddress_def split: Option.bind_splits)

lemma DecodeEventFrame_address: "DecodeEventFrame ae bs = do {
     ((packet, target, share), pos) \<leftarrow> ReadAddress ae bs kEvent;
     (uid, pos) \<leftarrow> ReadBoundedBytes bs pos kMaxOriginUidBytes;
     (seqn, pos) \<leftarrow> ReadU64 bs pos;
     if seqn = 0 then None else do {
     (timestamp, pos) \<leftarrow> ReadU64 bs pos;
     if timestamp = 0 then None else do {
     (cls, pos) \<leftarrow> ReadU32 bs pos;
     if cls = 0 \<or> ae_distance ae (ae_event_class ae) cls < 0 then None else do {
     (payload_size, pos) \<leftarrow> ReadU32 bs pos;
     if pos + unat payload_size \<noteq> length bs then None
     else Some \<lparr> ev_packet_id = packet, ev_target_node_id = target, ev_destination_share_id = share,
                 ev_identity = \<lparr> origin_uid = uid, origin_sequence = seqn \<rparr>,
                 ev_timestamp_us = timestamp, ev_event_class_id = cls,
                 ev_payload = take (unat payload_size) (drop pos bs) \<rparr> }}}}"
  by (simp add: DecodeEventFrame_def ReadAddress_def split: Option.bind_splits)

lemma NodeState_decode_encode:
  assumes "node_state_frame_wf ae f"
  shows "DecodeNodeStateFrame ae (EncodeNodeStateFrame f) = Some f"
proof -
  let ?n = "of_nat (length (ns_payload f)) :: u32"
  let ?a = "addressed kNodeState (ns_packet_id f) (ns_target_node_id f) (ns_destination_share_id f)"
  have n: "unat ?n = length (ns_payload f)"
    using assms by (intro unat_word_of_nat_32) (simp add: node_state_frame_wf_def)
  have "ReadU32 (?a @ u32_bytes ?n @ ns_payload f) 14 = Some (?n, 14 + 4)"
    by (rule ReadU32_print) simp
  then show ?thesis using assms n
    by (simp add: DecodeNodeStateFrame_address EncodeNodeStateFrame_layout codec_simps node_state_frame_wf_def)
qed

lemma Ack_decode_encode:
  assumes "ack_frame_wf ae f"
  shows "DecodeAckFrame ae (EncodeAckFrame f) = Some f"
proof -
  have "ReadAddress ae (EncodeAckFrame f @ []) kAck =
      Some ((ack_packet_id f, ack_target_node_id f, ack_destination_share_id f), 14)"
    using assms unfolding EncodeAckFrame_layout ack_frame_wf_def by (intro ReadAddress_print) auto
  then show ?thesis by (simp add: DecodeAckFrame_address) (simp add: EncodeAckFrame_layout)
qed

lemma Event_decode_encode:
  assumes "event_frame_wf ae f"
  shows "DecodeEventFrame ae (EncodeEventFrame f) = Some f"
proof -
  let ?a = "addressed kEvent (ev_packet_id f) (ev_target_node_id f) (ev_destination_share_id f)"
  let ?u = "origin_uid (ev_identity f)" and ?q = "origin_sequence (ev_identity f)"
  let ?n = "of_nat (length (ev_payload f)) :: u32"
  let ?bs = "EncodeEventFrame f" and ?p = "18 + length ?u"
  have n: "unat ?n = length (ev_payload f)"
    using assms by (intro unat_word_of_nat_32) (simp add: event_frame_wf_def)
  have 0: "ReadAddress ae ?bs kEvent =
      Some ((ev_packet_id f, ev_target_node_id f, ev_destination_share_id f), 14)"
    using assms by (simp add: EncodeEventFrame_layout codec_simps event_frame_wf_def)
  have 1: "ReadBoundedBytes ?bs 14 kMaxOriginUidBytes = Some (?u, 14 + 4 + length ?u)"
    unfolding EncodeEventFrame_layout
    by (rule ReadBoundedBytes_print) (use assms in \<open>simp_all add: event_frame_wf_def kMaxOriginUidBytes_def\<close>)
  have 2: "ReadU64 ?bs ?p = Some (?q, ?p + 8)"
    using ReadU64_print [of ?p "?a @ bounded_bytes ?u" ?q] by (simp add: EncodeEventFrame_layout)
  have 3: "ReadU64 ?bs (?p + 8) = Some (ev_timestamp_us f, ?p + 8 + 8)"
    using ReadU64_print [of "?p + 8" "?a @ bounded_bytes ?u @ u64_bytes ?q" "ev_timestamp_us f"]
    by (simp add: EncodeEventFrame_layout)
  have 4: "ReadU32 ?bs (?p + 8 + 8) = Some (ev_event_class_id f, ?p + 8 + 8 + 4)"
    using ReadU32_print [of "?p + 8 + 8" "?a @ bounded_bytes ?u @ u64_bytes ?q @ u64_bytes (ev_timestamp_us f)"
        "ev_event_class_id f"] by (simp add: EncodeEventFrame_layout)
  have 5: "ReadU32 ?bs (?p + 8 + 8 + 4) = Some (?n, ?p + 8 + 8 + 4 + 4)"
    using ReadU32_print [of "?p + 8 + 8 + 4" "?a @ bounded_bytes ?u @ u64_bytes ?q @ u64_bytes (ev_timestamp_us f) @
        u32_bytes (ev_event_class_id f)" ?n "ev_payload f"] by (simp add: EncodeEventFrame_layout)
  have len: "length ?bs = ?p + 8 + 8 + 4 + 4 + length (ev_payload f)"
    by (simp add: EncodeEventFrame_layout)
  have pay: "take (length (ev_payload f)) (drop (?p + 8 + 8 + 4 + 4) ?bs) = ev_payload f"
    by (simp add: EncodeEventFrame_layout)
  show ?thesis
    using 0 1 2 3 4 5 n len pay assms
    by (simp add: DecodeEventFrame_address event_frame_wf_def)
qed

text \<open>A payload with its length in front fills the input to its end.\<close>

lemma payload_exact:
  assumes "ReadU32 bs pos = Some (sz, pos')" "pos \<le> length bs" "pos' + unat sz = length bs"
    "payload = take (unat sz) (drop pos' bs)"
  shows "take pos bs @ u32_bytes (of_nat (length payload)) @ payload = bs"
    and "length payload < 2 ^ 32"
proof -
  note a = reader_exactD [OF ReadU32_exact assms(2,1)]
  have n: "length payload = unat sz" using assms(3,4) by simp
  have "unat sz < 2 ^ LENGTH(32)" by (rule unsigned_less)
  then show "length payload < 2 ^ 32" using n by simp
  have "take pos' bs @ payload = bs"
    using assms(3,4) by simp
  then show "take pos bs @ u32_bytes (of_nat (length payload)) @ payload = bs"
    using a(3) n by simp
qed

lemma NodeState_encode_decode:
  assumes "DecodeNodeStateFrame ae bs = Some f"
  shows "node_state_frame_wf ae f \<and> EncodeNodeStateFrame f = bs"
proof -
  obtain p n s p0 size pos where 1: "ReadAddress ae bs kNodeState = Some ((p, n, s), p0)"
    and 2: "ReadU32 bs p0 = Some (size, pos)" and 3: "pos + unat size = length bs"
    and f: "f = \<lparr> ns_packet_id = p, ns_target_node_id = n, ns_destination_share_id = s,
                 ns_payload = take (unat size) (drop pos bs) \<rparr>"
    using assms by (auto simp: DecodeNodeStateFrame_address split: Option.bind_splits if_splits)
  note a = ReadAddressD [OF 1]
  then have "p0 \<le> length bs" by simp
  note b = payload_exact [OF 2 this 3 refl]
  show ?thesis using a b unfolding f node_state_frame_wf_def EncodeNodeStateFrame_layout by simp
qed

lemma Ack_encode_decode:
  assumes "DecodeAckFrame ae bs = Some f"
  shows "ack_frame_wf ae f \<and> EncodeAckFrame f = bs"
proof -
  obtain p n s where 1: "ReadAddress ae bs kAck = Some ((p, n, s), length bs)"
    and f: "f = \<lparr> ack_packet_id = p, ack_target_node_id = n, ack_destination_share_id = s \<rparr>"
    using assms by (auto simp: DecodeAckFrame_address split: Option.bind_splits if_splits)
  note a = ReadAddressD [OF 1]
  then have "addressed kAck p n s = bs" by (metis order_refl take_all)
  then show ?thesis using a by (simp add: f ack_frame_wf_def EncodeAckFrame_layout)
qed

lemma DecodeEventFrame_cases:
  assumes "DecodeEventFrame ae bs = Some f"
  obtains p n s uid p1 q p2 ts p3 cls p4 size p5 where
    "ReadAddress ae bs kEvent = Some ((p, n, s), 14)"
    "ReadBoundedBytes bs 14 kMaxOriginUidBytes = Some (uid, p1)"
    "ReadU64 bs p1 = Some (q, p2)" "q \<noteq> 0" "ReadU64 bs p2 = Some (ts, p3)" "ts \<noteq> 0"
    "ReadU32 bs p3 = Some (cls, p4)" "cls \<noteq> 0" "ae_distance ae (ae_event_class ae) cls \<ge> 0"
    "ReadU32 bs p4 = Some (size, p5)" "p5 + unat size = length bs"
    "f = \<lparr> ev_packet_id = p, ev_target_node_id = n, ev_destination_share_id = s,
           ev_identity = \<lparr> origin_uid = uid, origin_sequence = q \<rparr>, ev_timestamp_us = ts,
           ev_event_class_id = cls, ev_payload = take (unat size) (drop p5 bs) \<rparr>"
proof -
  obtain p n s p0 where 1: "ReadAddress ae bs kEvent = Some ((p, n, s), p0)"
    using assms by (auto simp: DecodeEventFrame_address split: Option.bind_splits)
  then have p0: "p0 = 14" by (auto dest: ReadAddressD)
  show thesis
    using assms 1 p0 that
    by (simp add: DecodeEventFrame_address not_less split: Option.bind_splits if_splits prod.splits)
qed

lemma Event_encode_decode:
  assumes "DecodeEventFrame ae bs = Some f"
  shows "event_frame_wf ae f \<and> EncodeEventFrame f = bs"
  using assms
proof (cases rule: DecodeEventFrame_cases)
  case (1 p n s uid p1 q p2 ts p3 cls p4 size p5)
  note r = 1
  note a = ReadAddressD [OF r(1)]
  note b = reader_exactD [OF ReadBoundedBytes_exact _ r(2)]
  note c = reader_exactD [OF ReadU64_exact b(1) r(3)]
  note d = reader_exactD [OF ReadU64_exact c(1) r(5)]
  note e = reader_exactD [OF ReadU32_exact d(1) r(7)]
  note g = payload_exact [OF r(10) e(1) r(11) refl]
  have "event_frame_wf ae f"
    using a g ReadBoundedBytes_bounds [OF r(2)] r(4,6,8,9) unfolding r(12) event_frame_wf_def
    by (simp add: kMaxOriginUidBytes_def)
  moreover have "EncodeEventFrame f = take p4 bs @ u32_bytes (of_nat (length (ev_payload f))) @ ev_payload f"
    using a b c d e unfolding r(12) EncodeEventFrame_layout by simp
  ultimately show ?thesis using a g unfolding r(12) by simp
qed

section \<open>No frame is a prefix of another\<close>

lemma u32_bytes_inj [simp]: "u32_bytes a = u32_bytes b \<longleftrightarrow> a = b"
  by (metis append_Nil append_Nil2 ReadU32_print list.size(3) option.inject prod.inject)

lemma of_nat_u32_inj: "m < 2 ^ 32 \<Longrightarrow> n < 2 ^ 32 \<Longrightarrow> (of_nat m :: u32) = of_nat n \<Longrightarrow> m = n"
  by (metis unat_word_of_nat_32)

lemma NodeState_enc_append:
  assumes "node_state_frame_wf ae f" "node_state_frame_wf ae g"
    "EncodeNodeStateFrame g = EncodeNodeStateFrame f @ r"
  shows "r = []"
proof -
  have n: "(of_nat (length (ns_payload g)) :: u32) = of_nat (length (ns_payload f))"
    and r: "ns_payload g = ns_payload f @ r"
    using assms(3) unfolding EncodeNodeStateFrame_layout by auto
  have "length (ns_payload g) = length (ns_payload f)"
    using assms(1,2) by (intro of_nat_u32_inj [OF _ _ n]) (simp_all add: node_state_frame_wf_def)
  then show ?thesis using r by simp
qed

lemma Ack_enc_append: "EncodeAckFrame g = EncodeAckFrame f @ r \<Longrightarrow> r = []"
  by (drule arg_cong [where f = length]) (simp add: EncodeAckFrame_layout)

lemma Event_enc_append:
  assumes "event_frame_wf ae f" "event_frame_wf ae g" "EncodeEventFrame g = EncodeEventFrame f @ r"
  shows "r = []"
proof -
  let ?u = "\<lambda>f. origin_uid (ev_identity f)"
  have "(of_nat (length (?u g)) :: u32) = of_nat (length (?u f))"
    using assms(3) by (simp add: EncodeEventFrame_layout bounded_bytes_def)
  then have "length (?u g) = length (?u f)"
    by (rule of_nat_u32_inj [rotated 2]) (use assms(1,2) in \<open>simp_all add: event_frame_wf_def\<close>)
  then have n: "(of_nat (length (ev_payload g)) :: u32) = of_nat (length (ev_payload f))"
    and r: "ev_payload g = ev_payload f @ r"
    using assms(3) unfolding EncodeEventFrame_layout by auto
  have "length (ev_payload g) = length (ev_payload f)"
    using assms(1,2) by (intro of_nat_u32_inj [OF _ _ n]) (simp_all add: event_frame_wf_def)
  then show ?thesis using r by simp
qed

interpretation node_state: wire_codec EncodeNodeStateFrame "DecodeNodeStateFrame ae" "node_state_frame_wf ae"
  for ae
  by unfold_locales
    (auto simp: NodeState_decode_encode dest: NodeState_encode_decode NodeState_enc_append)

interpretation ack: wire_codec EncodeAckFrame "DecodeAckFrame ae" "ack_frame_wf ae"
  for ae
  by unfold_locales
    (auto simp: Ack_decode_encode dest: Ack_encode_decode Ack_enc_append)

interpretation event: wire_codec EncodeEventFrame "DecodeEventFrame ae" "event_frame_wf ae"
  for ae
  by unfold_locales
    (auto simp: Event_decode_encode dest: Event_encode_decode Event_enc_append)

text \<open>Dispatch: the peeked type is the type of the only decoder that can accept the bytes.\<close>

lemma PeekSyncFrameType_iff:
  "PeekSyncFrameType bs = Some t \<longleftrightarrow> 2 \<le> length bs \<and> take 2 bs = [sync_frame_type_byte t, kSyncProtocolVersion]"
proof (cases bs rule: list.exhaust [case_names Nil Cons])
  case (Cons a xs)
  then show ?thesis
    by (cases xs; cases t) (auto simp: PeekSyncFrameType_def)
qed (simp add: PeekSyncFrameType_def)

lemma Peek_addressed [simp]: "PeekSyncFrameType (addressed t p n s @ rest) = Some t"
  by (simp add: PeekSyncFrameType_iff addressed_def)

lemma Peek_addressed_only [simp]: "PeekSyncFrameType (addressed t p n s) = Some t"
  using Peek_addressed [of t p n s "[]"] by simp

lemma Peek_encoded [simp]:
  "PeekSyncFrameType (EncodeNodeStateFrame f) = Some kNodeState"
  "PeekSyncFrameType (EncodeAckFrame g) = Some kAck"
  "PeekSyncFrameType (EncodeEventFrame h) = Some kEvent"
  by (simp_all add: EncodeNodeStateFrame_layout EncodeAckFrame_layout EncodeEventFrame_layout)

section \<open>Properties\<close>

text \<open>C10. Decoding is the exact inverse of encoding for each of the three frames: a decoder accepts a byte
  string if and only if it is the encoding of a well-formed frame, and returns that frame.\<close>

theorem sync_frame_decoders_exact:
  "(DecodeNodeStateFrame ae b = Some f \<longleftrightarrow> node_state_frame_wf ae f \<and> b = EncodeNodeStateFrame f) \<and>
   (DecodeAckFrame ae b = Some g \<longleftrightarrow> ack_frame_wf ae g \<and> b = EncodeAckFrame g) \<and>
   (DecodeEventFrame ae b = Some h \<longleftrightarrow> event_frame_wf ae h \<and> b = EncodeEventFrame h)"
  by (intro conjI node_state.dec_iff ack.dec_iff event.dec_iff)

text \<open>Event frames are self-delimiting: cutting bytes off a frame or adding bytes to it makes the
  decoder reject it, and no frame is a proper prefix of another.\<close>

theorem event_frame_self_delimiting:
  assumes "event_frame_wf ae f" "q \<noteq> []"
  shows "DecodeEventFrame ae (EncodeEventFrame f @ q) = None \<and>
    (\<forall>p. EncodeEventFrame f = p @ q \<longrightarrow> DecodeEventFrame ae p = None) \<and>
    (\<forall>g. event_frame_wf ae g \<longrightarrow> EncodeEventFrame g \<noteq> EncodeEventFrame f @ q)"
proof (intro conjI allI impI)
  show "DecodeEventFrame ae (EncodeEventFrame f @ q) = None" using assms by (rule event.extended_rejected)
  show "DecodeEventFrame ae p = None" if "EncodeEventFrame f = p @ q" for p
    using assms(1) that assms(2) by (rule event.truncated_rejected)
  show "EncodeEventFrame g \<noteq> EncodeEventFrame f @ q" if "event_frame_wf ae g" for g
    using event.enc_append [OF assms(1) that] assms(2) by metis
qed

definition sample_event_frame :: event_frame where
  "sample_event_frame = \<lparr> ev_packet_id = 1, ev_target_node_id = 2, ev_destination_share_id = 3,
     ev_identity = \<lparr> origin_uid = ''a'', origin_sequence = 1 \<rparr>, ev_timestamp_us = 9,
     ev_event_class_id = 2, ev_payload = [7] \<rparr>"

theorem event_frame_self_delimiting_witness:
  "DecodeEventFrame sample_aether (EncodeEventFrame sample_event_frame @ [0]) = None"
proof -
  have "event_frame_wf sample_aether sample_event_frame"
    by (simp add: event_frame_wf_def sample_event_frame_def sample_aether_def)
  then show ?thesis using event_frame_self_delimiting [of sample_aether sample_event_frame "[0]"] by simp
qed

text \<open>Dispatch: whatever a decoder accepts carries the frame type that PeekSyncFrameType reports, so
  at most one of the three decoders can accept given bytes.\<close>

theorem peek_agrees_with_decoders:
  "(DecodeNodeStateFrame ae b = Some f \<longrightarrow> PeekSyncFrameType b = Some kNodeState) \<and>
   (DecodeAckFrame ae b = Some g \<longrightarrow> PeekSyncFrameType b = Some kAck) \<and>
   (DecodeEventFrame ae b = Some h \<longrightarrow> PeekSyncFrameType b = Some kEvent)"
  using node_state.dec_iff [of ae b f] ack.dec_iff [of ae b g] event.dec_iff [of ae b h] by auto

definition sample_ack_frame :: ack_frame where
  "sample_ack_frame = \<lparr> ack_packet_id = 1, ack_target_node_id = 2, ack_destination_share_id = 3 \<rparr>"

theorem peek_agrees_with_decoders_witness:
  "DecodeAckFrame sample_aether (EncodeAckFrame sample_ack_frame) = Some sample_ack_frame \<and>
   PeekSyncFrameType (EncodeAckFrame sample_ack_frame) = Some kAck"
proof -
  have "DecodeAckFrame sample_aether (EncodeAckFrame sample_ack_frame) = Some sample_ack_frame"
    by (intro Ack_decode_encode) (simp add: ack_frame_wf_def sample_ack_frame_def sample_aether_def)
  then show ?thesis using peek_agrees_with_decoders [of sample_aether "EncodeAckFrame sample_ack_frame"] by blast
qed

end
