(* ===== verification/Journal.thy ===== *)
theory Journal
  imports SyncFrame "HOL-Library.Multiset"
begin

text \<open>
  The event-sourced Node (src/include/apptraverse/node.h, event.h, event_record.h, event_for.h,
  node_for.h, shared_event_order.h, journal_retention_policy.h and runtime_node.h): a node keeps its
  materialized fields, a base snapshot and a journal of event records sorted by timestamp.

  A concrete node class is the record \<open>node_ops\<close>: what its \<open>CanApply\<close>/\<open>Apply\<close> overloads do (an
  \<open>Apply\<close> may assert, and calls NoteMaterializedChange a number of times), how its fields are saved
  to and loaded from the layers of an object, and what it stashes across a rebuild.  Saving and
  loading are the archive of aether-objects, so they are parameters; the locale \<open>node_class\<close> states
  what the journal relies on, and the concrete classes interpret it.  Clock readings are arguments.
\<close>

section \<open>Records and policies\<close>

record 'e event_record =
  event :: "'e obj_ptr"
  identity :: shared_event_id
  timestamp_us :: u64
  retained_since_us :: u64

definition HasSharedIdentity :: "'e event_record \<Rightarrow> bool" where
  "HasSharedIdentity r \<longleftrightarrow> origin_uid (identity r) \<noteq> []"

definition SharedEventOrderLess :: "u64 \<Rightarrow> u64 \<Rightarrow> bool" where
  "SharedEventOrderLess a b \<longleftrightarrow> a < b"

definition EventRecordOrderLess :: "'e event_record \<Rightarrow> 'e event_record \<Rightarrow> bool" where
  "EventRecordOrderLess a b \<longleftrightarrow> SharedEventOrderLess (timestamp_us a) (timestamp_us b)"

text \<open>\<open>std::size_t\<close> counts are \<open>nat\<close>; the two sentinels are its largest 64-bit value.\<close>

definition kUnlimitedEvents :: nat where
  "kUnlimitedEvents = 2 ^ 64 - 1"

definition kJournalFullyMaterialized :: nat where
  "kJournalFullyMaterialized = 2 ^ 64 - 1"

text \<open>\<open>max_age\<close> is a signed count of microseconds that the code casts to \<open>std::uint64_t\<close>: its 64 bits.\<close>

record retention_policy =
  max_events :: nat
  max_age :: "u64 option"

definition default_retention :: retention_policy where
  "default_retention = \<lparr> max_events = kUnlimitedEvents, max_age = None \<rparr>"

record ('s, 'e, 'b) node_ops =
  ops_can_apply :: "'e \<Rightarrow> 's \<Rightarrow> bool"
  ops_apply :: "obj_id \<Rightarrow> 'e \<Rightarrow> 's \<Rightarrow> ('s \<times> nat) option"
  ops_matches :: "'e \<Rightarrow> shared_event_id \<Rightarrow> u64 \<Rightarrow> bool"
  ops_save :: "'s \<Rightarrow> 'b"
  ops_load :: "'b option \<Rightarrow> 's \<Rightarrow> 's"
  ops_restore :: "'s \<Rightarrow> 's \<Rightarrow> 's"

text \<open>\<open>base_layer\<close> is what storage holds under the id of the base object.\<close>

record ('s, 'e, 'b) node =
  node_obj_id :: obj_id
  node_domain :: "nat option"
  materialized :: 's
  base :: "'s obj_ptr"
  base_layer :: "'b option"
  journal :: "'e event_record list"
  generation :: u64
  applied_journal_size :: nat
  journal_retention_policy :: retention_policy
  journal_compaction_blocked :: bool
  suppress_materialized_change :: bool
  materialized_change_fn :: bool
  notifications :: nat

section \<open>Operations\<close>

definition AdoptPublishedGeneration :: "u64 \<Rightarrow> ('s, 'e, 'b) node \<Rightarrow> ('s, 'e, 'b) node" where
  "AdoptPublishedGeneration g n = n\<lparr> generation := g \<rparr>"

definition AdoptMaterializedPersistentCheckpointJournal :: "('s, 'e, 'b) node \<Rightarrow> ('s, 'e, 'b) node" where
  "AdoptMaterializedPersistentCheckpointJournal n = n\<lparr> applied_journal_size := kJournalFullyMaterialized \<rparr>"

definition SetJournalRetentionPolicy :: "retention_policy \<Rightarrow> ('s, 'e, 'b) node \<Rightarrow> ('s, 'e, 'b) node" where
  "SetJournalRetentionPolicy p n = n\<lparr> journal_retention_policy := p \<rparr>"

definition SetJournalCompactionBlocked :: "bool \<Rightarrow> ('s, 'e, 'b) node \<Rightarrow> ('s, 'e, 'b) node" where
  "SetJournalCompactionBlocked b n = n\<lparr> journal_compaction_blocked := b \<rparr>"

definition BindMaterializedChangeNotifier :: "('s, 'e, 'b) node \<Rightarrow> ('s, 'e, 'b) node" where
  "BindMaterializedChangeNotifier n = n\<lparr> materialized_change_fn := True \<rparr>"

definition ClearMaterializedChangeNotifier :: "('s, 'e, 'b) node \<Rightarrow> ('s, 'e, 'b) node" where
  "ClearMaterializedChangeNotifier n = n\<lparr> materialized_change_fn := False \<rparr>"

definition NoteMaterializedChange :: "('s, 'e, 'b) node \<Rightarrow> ('s, 'e, 'b) node" where
  "NoteMaterializedChange n =
     (if suppress_materialized_change n then n
      else n\<lparr> generation := generation n + 1,
              notifications := notifications n + (if materialized_change_fn n then 1 else 0) \<rparr>)"

definition ApplyEvent ::
  "('s, 'e, 'b) node_ops \<Rightarrow> obj_id \<Rightarrow> 'e \<Rightarrow> ('s, 'e, 'b) node \<Rightarrow> ('s, 'e, 'b) node option" where
  "ApplyEvent ops i e n = do {
     (s, k) \<leftarrow> ops_apply ops i e (materialized n);
     Some ((NoteMaterializedChange ^^ k) (n\<lparr> materialized := s \<rparr>)) }"

text \<open>The event of a record, when its pointer is valid and loaded.\<close>

definition usable_event :: "'e event_record \<Rightarrow> 'e option" where
  "usable_event r = (if ptr_valid (event r) then ptr_object (event r) else None)"

text \<open>The loop of TryEnsureCurrentGeneration over the records that are not applied yet.\<close>

fun ensure_loop ::
  "('s, 'e, 'b) node_ops \<Rightarrow> 'e event_record list \<Rightarrow> ('s, 'e, 'b) node \<Rightarrow> (bool \<times> ('s, 'e, 'b) node) option" where
  "ensure_loop ops [] n = Some (True, n)"
| "ensure_loop ops (r # rs) n =
     (case usable_event r of
        None \<Rightarrow> Some (False, n)
      | Some e \<Rightarrow>
          if \<not> ops_can_apply ops e (materialized n) then Some (False, n)
          else do {
            n \<leftarrow> ApplyEvent ops (ptr_id (event r)) e n;
            ensure_loop ops rs (n\<lparr> applied_journal_size := Suc (applied_journal_size n) \<rparr>) })"

definition TryEnsureCurrentGeneration ::
  "('s, 'e, 'b) node_ops \<Rightarrow> ('s, 'e, 'b) node \<Rightarrow> (bool \<times> ('s, 'e, 'b) node) option" where
  "TryEnsureCurrentGeneration ops n =
     (if applied_journal_size n = kJournalFullyMaterialized
      then Some (True, n\<lparr> applied_journal_size := length (journal n) \<rparr>)
      else ensure_loop ops (drop (applied_journal_size n) (journal n)) n)"

definition assert_ok :: "(bool \<times> 'n) option \<Rightarrow> 'n option" where
  "assert_ok r = do { (ok, n) \<leftarrow> r; assert_that ok; Some n }"

definition EnsureCurrentGeneration ::
  "('s, 'e, 'b) node_ops \<Rightarrow> ('s, 'e, 'b) node \<Rightarrow> ('s, 'e, 'b) node option" where
  "EnsureCurrentGeneration ops n = assert_ok (TryEnsureCurrentGeneration ops n)"

definition TryReplayJournal ::
  "('s, 'e, 'b) node_ops \<Rightarrow> ('s, 'e, 'b) node \<Rightarrow> (bool \<times> ('s, 'e, 'b) node) option" where
  "TryReplayJournal ops n = TryEnsureCurrentGeneration ops (n\<lparr> applied_journal_size := 0 \<rparr>)"

definition ReplayJournal ::
  "('s, 'e, 'b) node_ops \<Rightarrow> ('s, 'e, 'b) node \<Rightarrow> ('s, 'e, 'b) node option" where
  "ReplayJournal ops n = assert_ok (TryReplayJournal ops n)"

text \<open>Loading the base layer into the live object replaces its fields; id, base and journal are put
  back, and so are the stashed local fields.\<close>

definition TryRebuildFromBaseAndReplay ::
  "('s, 'e, 'b) node_ops \<Rightarrow> ('s, 'e, 'b) node \<Rightarrow> (bool \<times> ('s, 'e, 'b) node) option" where
  "TryRebuildFromBaseAndReplay ops n =
     TryReplayJournal ops
       (n\<lparr> materialized := ops_restore ops (materialized n) (ops_load ops (base_layer n) (materialized n)), generation := 1 \<rparr>)"

definition RebuildFromBaseAndReplay ::
  "('s, 'e, 'b) node_ops \<Rightarrow> ('s, 'e, 'b) node \<Rightarrow> ('s, 'e, 'b) node option" where
  "RebuildFromBaseAndReplay ops n = assert_ok (TryRebuildFromBaseAndReplay ops n)"

definition CaptureBaseStateInto ::
  "('s, 'e, 'b) node_ops \<Rightarrow> ('s, 'e, 'b) node \<Rightarrow> ('s, 'e, 'b) node option" where
  "CaptureBaseStateInto ops n = do {
     assert_that (node_domain n \<noteq> None);
     assert_that (ptr_valid (base n));
     concrete_base \<leftarrow> ptr_object (base n);
     assert_that (journal n = []);
     assert_that (ptr_id (base n) \<noteq> node_obj_id n);
     let layer = ops_save ops (materialized n) in
     Some (n\<lparr> base_layer := Some layer,
              base := (base n)\<lparr> ptr_object := Some (ops_load ops (Some layer) concrete_base) \<rparr> \<rparr>) }"

definition retain_record :: "retention_policy \<Rightarrow> u64 \<Rightarrow> nat \<Rightarrow> 'e event_record \<Rightarrow> bool" where
  "retain_record policy now_us remaining r \<longleftrightarrow>
     (max_events policy = kUnlimitedEvents \<or> remaining \<le> max_events policy) \<or>
     (case max_age policy of
        None \<Rightarrow> False
      | Some age \<Rightarrow> retained_since_us r > now_us \<or> now_us - retained_since_us r \<le> age)"

text \<open>The scan of CollapsiblePrefixCount; \<open>journal.size() - i\<close> is the length of the rest.\<close>

fun collapsible_scan :: "retention_policy \<Rightarrow> u64 \<Rightarrow> 'e event_record list \<Rightarrow> nat" where
  "collapsible_scan policy now_us [] = 0"
| "collapsible_scan policy now_us (r # rs) =
     (if retain_record policy now_us (length (r # rs)) r then 0
      else Suc (collapsible_scan policy now_us rs))"

definition CollapsiblePrefixCount :: "u64 \<Rightarrow> ('s, 'e, 'b) node \<Rightarrow> nat" where
  "CollapsiblePrefixCount now_us n =
     (if journal_compaction_blocked n \<or> journal n = [] then 0
      else collapsible_scan (journal_retention_policy n) now_us (journal n))"

definition CompactJournalInto ::
  "('s, 'e, 'b) node_ops \<Rightarrow> u64 \<Rightarrow> ('s, 'e, 'b) node \<Rightarrow> ('s, 'e, 'b) node option" where
  "CompactJournalInto ops now_us n =
     (let collapse = CollapsiblePrefixCount now_us n in
      if collapse = 0 then Some n
      else let saved_generation = generation n; retained = drop collapse (journal n) in
        if retained = [] then do {
          n \<leftarrow> CaptureBaseStateInto ops (n\<lparr> journal := [] \<rparr>);
          Some (n\<lparr> generation := saved_generation, applied_journal_size := kJournalFullyMaterialized \<rparr>) }
        else do {
          n \<leftarrow> RebuildFromBaseAndReplay ops
            (n\<lparr> journal := take collapse (journal n), suppress_materialized_change := True \<rparr>);
          n \<leftarrow> CaptureBaseStateInto ops (n\<lparr> journal := [] \<rparr>);
          n \<leftarrow> ReplayJournal ops (n\<lparr> journal := retained \<rparr>);
          Some (n\<lparr> suppress_materialized_change := False, generation := saved_generation,
                   applied_journal_size := kJournalFullyMaterialized \<rparr>) })"

text \<open>\<open>now_us\<close> is the reading of SystemUtcMicros, used when the record carries none.\<close>

definition TryInsertEvent ::
  "('s, 'e, 'b) node_ops \<Rightarrow> u64 \<Rightarrow> 'e event_record \<Rightarrow> ('s, 'e, 'b) node \<Rightarrow>
   (bool \<times> ('s, 'e, 'b) node) option" where
  "TryInsertEvent ops now_us r n =
     (if node_domain n = None \<or> \<not> ptr_valid (base n) \<or> \<not> is_loaded (base n) \<or>
         \<not> ptr_valid (event r) \<or> \<not> is_loaded (event r) \<or>
         ptr_domain (event r) \<noteq> node_domain n \<or> timestamp_us r = 0
      then Some (False, n)
      else let r = (if retained_since_us r = 0 then r\<lparr> retained_since_us := now_us \<rparr> else r) in
        if HasSharedIdentity r \<and>
           (\<exists>existing\<in>set (journal n). HasSharedIdentity existing \<and> identity existing = identity r)
        then Some (False, n)
        else let position = lower_bound EventRecordOrderLess (journal n) r;
                 appended = (position = length (journal n));
                 n = n\<lparr> journal := insert_at position r (journal n) \<rparr>
          in if appended then do {
               let n = (if applied_journal_size n = kJournalFullyMaterialized
                        then n\<lparr> applied_journal_size := length (journal n) - 1 \<rparr> else n);
               (ok, n) \<leftarrow> TryEnsureCurrentGeneration ops n;
               if ok then Some (True, n)
               else let n = n\<lparr> journal := butlast (journal n) \<rparr>
                    in Some (False, n\<lparr> applied_journal_size := length (journal n) \<rparr>) }
             else TryRebuildFromBaseAndReplay ops n)"

definition InsertEvent ::
  "('s, 'e, 'b) node_ops \<Rightarrow> u64 \<Rightarrow> 'e event_record \<Rightarrow> ('s, 'e, 'b) node \<Rightarrow> ('s, 'e, 'b) node option" where
  "InsertEvent ops now_us r n = assert_ok (TryInsertEvent ops now_us r n)"

text \<open>The timestamp of a local commit: never at or before the last record's.  The increment wraps.\<close>

definition commit_timestamp :: "u64 \<Rightarrow> ('s, 'e, 'b) node \<Rightarrow> u64" where
  "commit_timestamp now_us n =
     (if journal n \<noteq> [] \<and> now_us \<le> timestamp_us (last (journal n))
      then timestamp_us (last (journal n)) + 1 else now_us)"

text \<open>CommitInto reads the clock for the order, again for retention, and TryInsertEvent a third time
  when that second reading was 0.\<close>

definition CommitInto ::
  "('s, 'e, 'b) node_ops \<Rightarrow> u64 \<Rightarrow> u64 \<Rightarrow> u64 \<Rightarrow> 'e obj_ptr \<Rightarrow> ('s, 'e, 'b) node \<Rightarrow> ('s, 'e, 'b) node option" where
  "CommitInto ops now1 now2 now3 ev n = do {
     assert_that (ptr_valid ev);
     e \<leftarrow> ptr_object ev;
     assert_that (ops_can_apply ops e (materialized n));
     InsertEvent ops now3 \<lparr> event = ev, identity = \<lparr> origin_uid = [], origin_sequence = 0 \<rparr>,
       timestamp_us = commit_timestamp now1 n, retained_since_us = now2 \<rparr> n }"

definition TryCommitSharedInto ::
  "('s, 'e, 'b) node_ops \<Rightarrow> u64 \<Rightarrow> u64 \<Rightarrow> 'e obj_ptr \<Rightarrow> shared_event_id \<Rightarrow> u64 \<Rightarrow> ('s, 'e, 'b) node \<Rightarrow>
   (bool \<times> ('s, 'e, 'b) node) option" where
  "TryCommitSharedInto ops now1 now2 ev ident ts n =
     (case ptr_object ev of
        None \<Rightarrow> Some (False, n)
      | Some e \<Rightarrow>
          if \<not> ptr_valid ev \<or> origin_uid ident = [] then Some (False, n)
          else if \<not> ops_matches ops e ident ts then Some (False, n)
          else TryInsertEvent ops now2 \<lparr> event = ev, identity = ident, timestamp_us = ts,
                 retained_since_us = now1 \<rparr> n)"

definition CommitSharedInto ::
  "('s, 'e, 'b) node_ops \<Rightarrow> u64 \<Rightarrow> u64 \<Rightarrow> 'e obj_ptr \<Rightarrow> shared_event_id \<Rightarrow> u64 \<Rightarrow> ('s, 'e, 'b) node \<Rightarrow>
   ('s, 'e, 'b) node option" where
  "CommitSharedInto ops now1 now2 ev ident ts n = assert_ok (TryCommitSharedInto ops now1 now2 ev ident ts n)"

definition InsertSharedOrderedEvent ::
  "('s, 'e, 'b) node_ops \<Rightarrow> u64 \<Rightarrow> 'e obj_ptr \<Rightarrow> shared_event_id \<Rightarrow> u64 \<Rightarrow> ('s, 'e, 'b) node \<Rightarrow>
   ('s, 'e, 'b) node option" where
  "InsertSharedOrderedEvent ops now_us ev ident ts n =
     InsertEvent ops now_us \<lparr> event = ev, identity = ident, timestamp_us = ts, retained_since_us = 0 \<rparr> n"

definition FindSharedEvent :: "shared_event_id \<Rightarrow> ('s, 'e, 'b) node \<Rightarrow> 'e event_record option" where
  "FindSharedEvent ident n =
     (if origin_uid ident = [] then None
      else find (\<lambda>r. HasSharedIdentity r \<and> identity r = ident) (journal n))"

text \<open>Node::Save leaves base and journal out of a materialized publication; Node::Load reads version
  4 and throws for the older layouts.\<close>

datatype serialization_scope = FullGraph | MaterializedPublication

datatype load_error = UnsupportedVersion nat

definition Node_Save ::
  "aether \<Rightarrow> serialization_scope \<Rightarrow> ('s, 'e, 'b) node \<Rightarrow> 's obj_ptr \<times> 'e event_record list" where
  "Node_Save ae scope n = (if scope = MaterializedPublication then (null_ptr ae, []) else (base n, journal n))"

definition Node_Load ::
  "nat \<Rightarrow> 's obj_ptr \<times> 'e event_record list \<Rightarrow> ('s, 'e, 'b) node \<Rightarrow> load_error + ('s, 'e, 'b) node" where
  "Node_Load version layer n =
     (if version = 4 then Inr (n\<lparr> base := fst layer, journal := snd layer \<rparr>)
      else Inl (UnsupportedVersion version))"

text \<open>InitializeRuntimeNode: a base object of the same class, default-constructed, under a fresh id.
  A missing factory fails the assertion.\<close>

definition InitializeRuntimeNode ::
  "('s, 'e, 'b) node_ops \<Rightarrow> bool \<Rightarrow> 's \<Rightarrow> obj_id \<Rightarrow> ('s, 'e, 'b) node \<Rightarrow> ('s, 'e, 'b) node option" where
  "InitializeRuntimeNode ops has_factory created i n = do {
     assert_that (node_domain n \<noteq> None);
     assert_that (\<not> ptr_valid (base n));
     assert_that (journal n = []);
     assert_that has_factory;
     CaptureBaseStateInto ops
       (n\<lparr> base := \<lparr> ptr_valid = True, ptr_id = i, ptr_domain = node_domain n,
            ptr_object = Some created, ptr_stored = None \<rparr> \<rparr>) }"

section \<open>The pending dirty set\<close>

record pending_dirty =
  ordered :: "u32 list"
  membership :: "u32 set"

definition PendingDirty_Note :: "u32 \<Rightarrow> pending_dirty \<Rightarrow> pending_dirty" where
  "PendingDirty_Note i p =
     (if i \<in> membership p then p
      else p\<lparr> membership := insert i (membership p), ordered := ordered p @ [i] \<rparr>)"

definition PendingDirty_Clear :: "pending_dirty \<Rightarrow> pending_dirty" where
  "PendingDirty_Clear p = \<lparr> ordered = [], membership = {} \<rparr>"

definition PendingDirty_PopFront :: "pending_dirty \<Rightarrow> (u32 \<times> pending_dirty) option" where
  "PendingDirty_PopFront p =
     (case ordered p of
        [] \<Rightarrow> None
      | i # rest \<Rightarrow> Some (i, \<lparr> ordered = rest, membership = membership p - {i} \<rparr>))"

definition pending_dirty_inv :: "pending_dirty \<Rightarrow> bool" where
  "pending_dirty_inv p \<longleftrightarrow> distinct (ordered p) \<and> set (ordered p) = membership p"

lemma PendingDirty_inv [inv_intros]:
  "pending_dirty_inv p \<Longrightarrow> pending_dirty_inv (PendingDirty_Note i p)"
  "pending_dirty_inv (PendingDirty_Clear p)"
  "pending_dirty_inv p \<Longrightarrow> PendingDirty_PopFront p = Some (i, q) \<Longrightarrow> pending_dirty_inv q"
  by (auto simp: pending_dirty_inv_def PendingDirty_Note_def PendingDirty_Clear_def
      PendingDirty_PopFront_def split: list.splits)

section \<open>The journal as a replay\<close>

text \<open>Specification: the fields a list of records produces from given fields, when every record can be
  applied.\<close>

fun replay :: "('s, 'e, 'b) node_ops \<Rightarrow> 'e event_record list \<Rightarrow> 's \<Rightarrow> 's option" where
  "replay ops [] s = Some s"
| "replay ops (r # rs) s =
     (case usable_event r of
        None \<Rightarrow> None
      | Some e \<Rightarrow>
          if ops_can_apply ops e s then do { (s, k) \<leftarrow> ops_apply ops (ptr_id (event r)) e s; replay ops rs s }
          else None)"

text \<open>Everything an application of events leaves alone.\<close>

definition static_part :: "('s, 'e, 'b) node \<Rightarrow> obj_id \<times> nat option \<times> 's obj_ptr \<times> 'b option \<times>
    'e event_record list \<times> retention_policy \<times> bool \<times> bool \<times> bool" where
  "static_part n = (node_obj_id n, node_domain n, base n, base_layer n, journal n, journal_retention_policy n,
     journal_compaction_blocked n, suppress_materialized_change n, materialized_change_fn n)"

lemma static_part_simps [simp]:
  "static_part (n\<lparr> materialized := s \<rparr>) = static_part n"
  "static_part (n\<lparr> generation := g \<rparr>) = static_part n"
  "static_part (n\<lparr> applied_journal_size := k \<rparr>) = static_part n"
  "static_part (n\<lparr> notifications := m \<rparr>) = static_part n"
  by (simp_all add: static_part_def)

lemma static_part_eqD:
  assumes "static_part n = static_part m"
  shows "node_obj_id n = node_obj_id m" "node_domain n = node_domain m" "base n = base m"
    "base_layer n = base_layer m" "journal n = journal m"
    "journal_retention_policy n = journal_retention_policy m"
    "journal_compaction_blocked n = journal_compaction_blocked m"
    "suppress_materialized_change n = suppress_materialized_change m"
    "materialized_change_fn n = materialized_change_fn m"
  using assms by (simp_all add: static_part_def)

lemma NoteMaterializedChange_simps [simp]:
  "static_part (NoteMaterializedChange n) = static_part n"
  "materialized (NoteMaterializedChange n) = materialized n"
  "applied_journal_size (NoteMaterializedChange n) = applied_journal_size n"
  by (simp_all add: NoteMaterializedChange_def static_part_def)

lemma note_changes_simps [simp]:
  "static_part ((NoteMaterializedChange ^^ k) n) = static_part n"
  "materialized ((NoteMaterializedChange ^^ k) n) = materialized n"
  "applied_journal_size ((NoteMaterializedChange ^^ k) n) = applied_journal_size n"
  by (induction k) simp_all

lemma note_changes_suppressed [simp]:
  "suppress_materialized_change n \<Longrightarrow> (NoteMaterializedChange ^^ k) n = n"
  by (induction k) (simp_all add: NoteMaterializedChange_def)

lemma ApplyEvent_Some:
  assumes "ApplyEvent ops i e n = Some n'"
  obtains s k where "ops_apply ops i e (materialized n) = Some (s, k)"
    "n' = (NoteMaterializedChange ^^ k) (n\<lparr> materialized := s \<rparr>)"
  using assms by (auto simp: ApplyEvent_def split: Option.bind_splits)

lemma ApplyEvent_keeps:
  assumes "ApplyEvent ops i e n = Some n'"
  shows "static_part n' = static_part n" "applied_journal_size n' = applied_journal_size n"
    "suppress_materialized_change n \<Longrightarrow> notifications n' = notifications n \<and> generation n' = generation n"
  using assms by (auto elim!: ApplyEvent_Some)

lemma ensure_loop_keeps:
  assumes "ensure_loop ops rs n = Some (ok, n')"
  shows "static_part n' = static_part n \<and> (ok \<longrightarrow> applied_journal_size n' = applied_journal_size n + length rs) \<and>
    (suppress_materialized_change n \<longrightarrow> notifications n' = notifications n \<and> generation n' = generation n)"
  using assms
proof (induction rs arbitrary: n)
  case (Cons r rs)
  show ?case
  proof (cases "\<exists>e. usable_event r = Some e \<and> ops_can_apply ops e (materialized n)")
    case True
    then obtain e m where m: "ApplyEvent ops (ptr_id (event r)) e n = Some m"
      and l: "ensure_loop ops rs (m\<lparr> applied_journal_size := Suc (applied_journal_size m) \<rparr>) = Some (ok, n')"
      using Cons.prems by (auto split: Option.bind_splits)
    show ?thesis using Cons.IH [OF l] ApplyEvent_keeps [OF m] by (simp add: static_part_def)
  next
    case False
    then show ?thesis using Cons.prems by (auto split: option.splits if_splits)
  qed
qed simp

lemma ensure_loop_replay:
  "(\<exists>n'. ensure_loop ops rs n = Some (True, n') \<and> materialized n' = s) \<longleftrightarrow>
     replay ops rs (materialized n) = Some s"
proof (induction rs arbitrary: n)
  case (Cons r rs)
  show ?case
  proof (cases "\<exists>e s1 k. usable_event r = Some e \<and> ops_can_apply ops e (materialized n) \<and>
      ops_apply ops (ptr_id (event r)) e (materialized n) = Some (s1, k)")
    case True
    then obtain e s1 k where e: "usable_event r = Some e" "ops_can_apply ops e (materialized n)"
      "ops_apply ops (ptr_id (event r)) e (materialized n) = Some (s1, k)" by blast
    let ?m = "(NoteMaterializedChange ^^ k) (n\<lparr> materialized := s1 \<rparr>)"
    show ?thesis
      using e Cons.IH [of "?m\<lparr> applied_journal_size := Suc (applied_journal_size ?m) \<rparr>"]
      by (simp add: ApplyEvent_def)
  next
    case False
    then show ?thesis by (auto simp: ApplyEvent_def split: option.splits Option.bind_splits if_splits)
  qed
qed auto

lemma ensure_loop_True:
  "ensure_loop ops rs n = Some (True, n') \<Longrightarrow> replay ops rs (materialized n) = Some (materialized n')"
  using ensure_loop_replay [of ops rs n "materialized n'"] by auto

lemma replay_append: "replay ops (xs @ ys) s = (replay ops xs s \<bind> replay ops ys)"
proof (induction xs arbitrary: s)
  case (Cons r xs)
  then show ?case by (auto split: option.splits Option.bind_splits)
qed simp

section \<open>The invariant of a node\<close>

definition journal_sorted :: "'e event_record list \<Rightarrow> bool" where
  "journal_sorted js \<longleftrightarrow> sorted (map timestamp_us js) \<and> (\<forall>r\<in>set js. timestamp_us r \<noteq> 0)"

definition shared_ids :: "'e event_record list \<Rightarrow> shared_event_id list" where
  "shared_ids js = map identity (filter HasSharedIdentity js)"

text \<open>The node can be edited: it lives in a domain and its base is a loaded object of its own.\<close>

definition node_live :: "('s, 'e, 'b) node \<Rightarrow> bool" where
  "node_live n \<longleftrightarrow> node_domain n \<noteq> None \<and> ptr_valid (base n) \<and> is_loaded (base n) \<and>
     ptr_id (base n) \<noteq> node_obj_id n"

text \<open>The materialized fields are, as far as \<open>view\<close> tells, the journal replayed on the captured base.\<close>

definition consistent :: "('s, 'e, 'b) node_ops \<Rightarrow> ('s \<Rightarrow> 'v) \<Rightarrow> ('s, 'e, 'b) node \<Rightarrow> bool" where
  "consistent ops view n \<longleftrightarrow> (\<exists>s0 s. base_layer n = Some (ops_save ops s0) \<and>
     replay ops (journal n) s0 = Some s \<and> view s = view (materialized n))"

definition node_inv :: "('s, 'e, 'b) node_ops \<Rightarrow> ('s \<Rightarrow> 'v) \<Rightarrow> ('s, 'e, 'b) node \<Rightarrow> bool" where
  "node_inv ops view n \<longleftrightarrow> node_live n \<and> journal_sorted (journal n) \<and> distinct (shared_ids (journal n)) \<and>
     applied_journal_size n \<in> {kJournalFullyMaterialized, length (journal n)} \<and> consistent ops view n"

lemma node_live_frame: "static_part n = static_part m \<Longrightarrow> node_live n = node_live m"
  by (simp add: node_live_def static_part_def)

lemma lower_bound_timestamp:
  "sorted (map timestamp_us js) \<Longrightarrow>
   lower_bound EventRecordOrderLess js r = length (takeWhile (\<lambda>a. timestamp_us a < timestamp_us r) js)"
  using lower_bound_takeWhile [of timestamp_us js r]
  by (simp add: EventRecordOrderLess_def [abs_def] SharedEventOrderLess_def)

lemma journal_sorted_insert:
  assumes "journal_sorted js" "timestamp_us r \<noteq> 0"
  shows "journal_sorted (insert_at (lower_bound EventRecordOrderLess js r) r js)"
  using assms sorted_insert_at_takeWhile [of timestamp_us js r]
  by (auto simp: journal_sorted_def lower_bound_timestamp)

lemma shared_ids_append [simp]: "shared_ids (xs @ ys) = shared_ids xs @ shared_ids ys"
  by (simp add: shared_ids_def)

lemma shared_ids_Cons [simp]:
  "shared_ids (r # rs) = (if HasSharedIdentity r then [identity r] else []) @ shared_ids rs"
  by (simp add: shared_ids_def)

lemma set_shared_ids: "set (shared_ids js) = identity ` {r\<in>set js. HasSharedIdentity r}"
  by (auto simp: shared_ids_def)

lemma distinct_shared_ids_insert:
  assumes "distinct (shared_ids js)"
    "\<not> (HasSharedIdentity r \<and> (\<exists>x\<in>set js. HasSharedIdentity x \<and> identity x = identity r))"
  shows "distinct (shared_ids (insert_at i r js))"
proof -
  have split: "shared_ids js = shared_ids (take i js) @ shared_ids (drop i js)"
    by (metis append_take_drop_id shared_ids_append)
  have "HasSharedIdentity r \<Longrightarrow> identity r \<notin> set (shared_ids js)"
    using assms(2) by (auto simp: set_shared_ids)
  then show ?thesis
    using assms(1) unfolding insert_at_def by (auto simp: split)
qed

text \<open>The insertion of a record seen as a relation on the journal.\<close>

definition stamped :: "u64 \<Rightarrow> 'e event_record \<Rightarrow> 'e event_record" where
  "stamped now_us r = (if retained_since_us r = 0 then r\<lparr> retained_since_us := now_us \<rparr> else r)"

lemma stamped_simps [simp]:
  "event (stamped t r) = event r" "identity (stamped t r) = identity r"
  "timestamp_us (stamped t r) = timestamp_us r" "HasSharedIdentity (stamped t r) = HasSharedIdentity r"
  "usable_event (stamped t r) = usable_event r"
  by (simp_all add: stamped_def HasSharedIdentity_def usable_event_def)

definition admissible :: "'e event_record \<Rightarrow> ('s, 'e, 'b) node \<Rightarrow> bool" where
  "admissible r n \<longleftrightarrow> node_domain n \<noteq> None \<and> ptr_valid (base n) \<and> is_loaded (base n) \<and>
     ptr_valid (event r) \<and> is_loaded (event r) \<and> ptr_domain (event r) = node_domain n \<and> timestamp_us r \<noteq> 0 \<and>
     \<not> (HasSharedIdentity r \<and> (\<exists>x\<in>set (journal n). HasSharedIdentity x \<and> identity x = identity r))"

definition inserted_journal :: "u64 \<Rightarrow> 'e event_record \<Rightarrow> 'e event_record list \<Rightarrow> 'e event_record list" where
  "inserted_journal now_us r js = insert_at (lower_bound EventRecordOrderLess js r) (stamped now_us r) js"

lemma lower_bound_from_stamped:
  "lower_bound_from EventRecordOrderLess js (stamped t r) a b = lower_bound_from EventRecordOrderLess js r a b"
proof (induction b arbitrary: a rule: less_induct)
  case (less b)
  have e: "EventRecordOrderLess x (stamped t r) = EventRecordOrderLess x r" for x
    by (simp add: EventRecordOrderLess_def)
  show ?case
    by (subst (1 2) lower_bound_from.simps) (auto simp: Let_def e less.IH)
qed

lemma TryInsertEvent_alt:
  "TryInsertEvent ops now_us r n =
     (if \<not> admissible r n then Some (False, n)
      else let m = n\<lparr> journal := inserted_journal now_us r (journal n) \<rparr> in
        if lower_bound EventRecordOrderLess (journal n) r = length (journal n) then do {
          (ok, m) \<leftarrow> TryEnsureCurrentGeneration ops
            (if applied_journal_size m = kJournalFullyMaterialized
             then m\<lparr> applied_journal_size := length (journal n) \<rparr> else m);
          if ok then Some (True, m)
          else Some (False, m\<lparr> journal := butlast (journal m), applied_journal_size := length (journal m) - 1 \<rparr>) }
        else TryRebuildFromBaseAndReplay ops m)"
proof (cases "admissible r n")
  case True
  then show ?thesis
    unfolding TryInsertEvent_def stamped_def [symmetric] Let_def inserted_journal_def
    by (auto simp: admissible_def lower_bound_def lower_bound_from_stamped cong: if_cong)
next
  case False
  then show ?thesis
    unfolding TryInsertEvent_def stamped_def [symmetric] Let_def
    by (auto simp: admissible_def)
qed

text \<open>Without any invariant: an accepted record is in the journal, where the search put it.\<close>

lemma TryEnsure_keeps:
  "TryEnsureCurrentGeneration ops n = Some (ok, n') \<Longrightarrow> static_part n' = static_part n"
  using ensure_loop_keeps by (fastforce simp: TryEnsureCurrentGeneration_def split: if_splits)

lemma TryRebuild_keeps:
  "TryRebuildFromBaseAndReplay ops n = Some (ok, n') \<Longrightarrow> static_part n' = static_part n"
  by (auto simp: TryRebuildFromBaseAndReplay_def TryReplayJournal_def dest: TryEnsure_keeps)

lemma TryInsert_True_journal:
  assumes "TryInsertEvent ops t r n = Some (True, n')"
  shows "journal n' = inserted_journal t r (journal n) \<and> node_obj_id n' = node_obj_id n"
  using assms
  by (auto simp: TryInsertEvent_alt Let_def static_part_def split: if_splits Option.bind_splits
      dest!: TryEnsure_keeps TryRebuild_keeps)

lemma set_inserted_journal: "set (inserted_journal t r js) = insert (stamped t r) (set js)"
  by (simp add: inserted_journal_def)

lemma TryCommitShared_True:
  assumes "TryCommitSharedInto ops now1 now2 ev ident ts n = Some (True, n')"
  shows "node_obj_id n' = node_obj_id n \<and> set (journal n) \<subseteq> set (journal n') \<and>
    (\<exists>r\<in>set (journal n'). event r = ev \<and> identity r = ident \<and> timestamp_us r = ts \<and> HasSharedIdentity r)"
proof -
  let ?r = "\<lparr> event = ev, identity = ident, timestamp_us = ts, retained_since_us = now1 \<rparr>"
  have "TryInsertEvent ops now2 ?r n = Some (True, n')" "origin_uid ident \<noteq> []"
    using assms by (auto simp: TryCommitSharedInto_def split: option.splits if_splits)
  then have "journal n' = inserted_journal now2 ?r (journal n) \<and> node_obj_id n' = node_obj_id n"
    and "HasSharedIdentity (stamped now2 ?r)"
    using TryInsert_True_journal [of ops now2 ?r n n'] by (auto simp: HasSharedIdentity_def)
  then show ?thesis by (auto simp: set_inserted_journal intro!: bexI [of _ "stamped now2 ?r"])
qed

section \<open>What the journal needs of a node class\<close>

text \<open>\<open>view\<close> is the part of the fields that events determine; the rest is local to the replica and is
  carried across a rebuild.  A class with no local fields has the identity as its view.\<close>

locale node_class =
  fixes ops :: "('s, 'e, 'b) node_ops"
    and view :: "'s \<Rightarrow> 'v"
  assumes can_apply_view: "view s = view t \<Longrightarrow> ops_can_apply ops e s = ops_can_apply ops e t"
    and apply_view: "view s = view t \<Longrightarrow>
      map_option (view \<circ> fst) (ops_apply ops i e s) = map_option (view \<circ> fst) (ops_apply ops i e t)"
    and load_save: "view (ops_restore ops old (ops_load ops (Some (ops_save ops s)) t)) = view s"
begin

lemma replay_view:
  assumes "view s = view t" "replay ops rs s = Some s'"
  shows "\<exists>t'. replay ops rs t = Some t' \<and> view s' = view t'"
  using assms
proof (induction rs arbitrary: s t)
  case (Cons r rs)
  then obtain e s1 k where e: "usable_event r = Some e" "ops_can_apply ops e s"
    and s1: "ops_apply ops (ptr_id (event r)) e s = Some (s1, k)" and rest: "replay ops rs s1 = Some s'"
    by (auto split: option.splits Option.bind_splits if_splits)
  obtain t1 l where t1: "ops_apply ops (ptr_id (event r)) e t = Some (t1, l)" "view s1 = view t1"
    using apply_view [OF Cons.prems(1), of "ptr_id (event r)" e] s1
    by (cases "ops_apply ops (ptr_id (event r)) e t") auto
  have "ops_can_apply ops e t" using can_apply_view [OF Cons.prems(1)] e by simp
  then show ?case using Cons.IH [OF t1(2) rest] e t1 by simp
qed simp

lemma rebuild_keeps:
  assumes "TryRebuildFromBaseAndReplay ops n = Some (True, n')"
  shows "static_part n' = static_part n" "applied_journal_size n' = length (journal n)"
    "suppress_materialized_change n \<Longrightarrow> notifications n' = notifications n"
  using assms ensure_loop_keeps
  by (fastforce simp: TryRebuildFromBaseAndReplay_def TryReplayJournal_def TryEnsureCurrentGeneration_def
      kJournalFullyMaterialized_def)+

lemma rebuild_consistent:
  assumes "TryRebuildFromBaseAndReplay ops n = Some (True, n')" "base_layer n = Some (ops_save ops s0)"
  shows "\<exists>s. replay ops (journal n) s0 = Some s \<and> view s = view (materialized n')"
proof -
  let ?s = "ops_restore ops (materialized n) (ops_load ops (base_layer n) (materialized n))"
  have "replay ops (journal n) ?s = Some (materialized n')"
    using assms(1) ensure_loop_True
    by (fastforce simp: TryRebuildFromBaseAndReplay_def TryReplayJournal_def TryEnsureCurrentGeneration_def
        kJournalFullyMaterialized_def)
  moreover have "view ?s = view s0" using assms(2) load_save by simp
  ultimately show ?thesis using replay_view [of ?s s0 "journal n"] by metis
qed

lemma rebuild_succeeds:
  assumes "base_layer n = Some (ops_save ops s0)" "replay ops (journal n) s0 = Some s"
  shows "\<exists>n'. TryRebuildFromBaseAndReplay ops n = Some (True, n') \<and> view (materialized n') = view s"
proof -
  let ?s = "ops_restore ops (materialized n) (ops_load ops (base_layer n) (materialized n))"
  have "view s0 = view ?s" using assms(1) load_save by simp
  then obtain s' where "replay ops (journal n) ?s = Some s'" "view s = view s'"
    using replay_view assms(2) by blast
  then show ?thesis
    using ensure_loop_replay [of ops "journal n" "n\<lparr> materialized := ?s, generation := 1, applied_journal_size := 0 \<rparr>" s']
    by (auto simp: TryRebuildFromBaseAndReplay_def TryReplayJournal_def TryEnsureCurrentGeneration_def
        kJournalFullyMaterialized_def)
qed

lemma inserted_journal_ok:
  assumes "journal_sorted (journal n)" "distinct (shared_ids (journal n))" "admissible r n"
  shows "journal_sorted (inserted_journal t r (journal n))" "distinct (shared_ids (inserted_journal t r (journal n)))"
proof -
  have lb: "lower_bound EventRecordOrderLess (journal n) r = lower_bound EventRecordOrderLess (journal n) (stamped t r)"
    by (simp add: lower_bound_def lower_bound_from_stamped)
  show "journal_sorted (inserted_journal t r (journal n))"
    unfolding inserted_journal_def lb using assms by (intro journal_sorted_insert) (simp_all add: admissible_def)
  show "distinct (shared_ids (inserted_journal t r (journal n)))"
    unfolding inserted_journal_def using assms by (intro distinct_shared_ids_insert) (auto simp: admissible_def)
qed

text \<open>An appended record is the only one left to apply.\<close>

lemma append_step:
  assumes "node_inv ops view n" "m = n\<lparr> journal := journal n @ [r] \<rparr>"
    "m' = (if applied_journal_size m = kJournalFullyMaterialized
           then m\<lparr> applied_journal_size := length (journal n) \<rparr> else m)"
    "length (journal n) < kJournalFullyMaterialized"
  shows "TryEnsureCurrentGeneration ops m' = ensure_loop ops [r] (m\<lparr> applied_journal_size := length (journal n) \<rparr>)"
proof -
  have "m' = m\<lparr> applied_journal_size := length (journal n) \<rparr>"
    using assms(1-3) by (cases n) (auto simp: node_inv_def)
  then show ?thesis using assms(2,4) by (simp add: TryEnsureCurrentGeneration_def)
qed

lemma lower_bound_end_append:
  "lower_bound EventRecordOrderLess js r = length js \<Longrightarrow> inserted_journal t r js = js @ [stamped t r]"
  by (simp add: inserted_journal_def)

lemma append_replays:
  assumes inv: "node_inv ops view n" and len: "length (journal n) < kJournalFullyMaterialized"
    and pos: "lower_bound EventRecordOrderLess (journal n) r = length (journal n)"
    and ok: "TryInsertEvent ops t r n = Some (True, n')"
  shows "replay ops [stamped t r] (materialized n) = Some (materialized n')"
    and "static_part n' = static_part (n\<lparr> journal := journal n @ [stamped t r] \<rparr>)"
    and "applied_journal_size n' = Suc (length (journal n))"
proof -
  let ?k = "n\<lparr> journal := journal n @ [stamped t r], applied_journal_size := length (journal n) \<rparr>"
  have adm: "admissible r n" using ok by (auto simp: TryInsertEvent_alt split: if_splits)
  have j: "inserted_journal t r (journal n) = journal n @ [stamped t r]" using lower_bound_end_append [OF pos] .
  have "ensure_loop ops [stamped t r] ?k = Some (True, n')"
    using ok adm pos append_step [OF inv _ refl len, of _ "stamped t r"] j
    by (auto simp: TryInsertEvent_alt Let_def split: Option.bind_splits if_splits)
  then show "static_part n' = static_part (n\<lparr> journal := journal n @ [stamped t r] \<rparr>)"
    "applied_journal_size n' = Suc (length (journal n))"
    "replay ops [stamped t r] (materialized n) = Some (materialized n')"
    using ensure_loop_keeps [of ops "[stamped t r]" ?k True n'] ensure_loop_True [of ops "[stamped t r]" ?k n']
    by auto
qed

lemma insert_ok:
  assumes inv: "node_inv ops view n" and len: "length (journal n) < kJournalFullyMaterialized"
    and ok: "TryInsertEvent ops t r n = Some (True, n')"
  shows "node_inv ops view n' \<and> journal n' = inserted_journal t r (journal n) \<and> base_layer n' = base_layer n \<and>
    node_domain n' = node_domain n \<and> node_obj_id n' = node_obj_id n \<and> base n' = base n"
proof -
  let ?m = "n\<lparr> journal := inserted_journal t r (journal n) \<rparr>"
  have adm: "admissible r n" using ok by (auto simp: TryInsertEvent_alt split: if_splits)
  have js: "journal_sorted (journal ?m)" "distinct (shared_ids (journal ?m))"
    using inserted_journal_ok adm inv by (auto simp: node_inv_def)
  obtain s0 s where s0: "base_layer n = Some (ops_save ops s0)" and s: "replay ops (journal n) s0 = Some s"
    "view s = view (materialized n)" using inv by (auto simp: node_inv_def consistent_def)
  have fr: "static_part n' = static_part ?m \<and> applied_journal_size n' = length (journal ?m) \<and>
    (\<exists>s. replay ops (journal ?m) s0 = Some s \<and> view s = view (materialized n'))"
  proof (cases "lower_bound EventRecordOrderLess (journal n) r = length (journal n)")
    case True
    have j: "journal ?m = journal n @ [stamped t r]" using lower_bound_end_append [OF True] by simp
    note k = append_replays(2,3) [OF inv len True ok] and rp = append_replays(1) [OF inv len True ok]
    obtain s' where "replay ops [stamped t r] s = Some s'" "view (materialized n') = view s'"
      using replay_view [OF s(2) [symmetric] rp] by blast
    then show ?thesis using k j s by (simp add: replay_append)
  next
    case False
    then have "TryRebuildFromBaseAndReplay ops ?m = Some (True, n')"
      using ok adm by (simp add: TryInsertEvent_alt)
    then show ?thesis using rebuild_keeps rebuild_consistent [of ?m n' s0] s0 by simp
  qed
  have "node_live n'" using fr inv by (simp add: node_live_def node_inv_def static_part_def)
  then show ?thesis using fr js s0 by (auto simp: node_inv_def consistent_def static_part_def)
qed

text \<open>A record that can be replayed at its place is accepted.\<close>

lemma insert_accepts:
  assumes inv: "node_inv ops view n" and len: "length (journal n) < kJournalFullyMaterialized"
    and adm: "admissible r n" and s0: "base_layer n = Some (ops_save ops s0)"
    and rp: "replay ops (inserted_journal t r (journal n)) s0 \<noteq> None"
  shows "\<exists>n'. TryInsertEvent ops t r n = Some (True, n')"
proof (cases "lower_bound EventRecordOrderLess (journal n) r = length (journal n)")
  case True
  let ?m = "n\<lparr> journal := inserted_journal t r (journal n) \<rparr>"
  have j: "inserted_journal t r (journal n) = journal n @ [stamped t r]" using lower_bound_end_append [OF True] .
  obtain s1 s where s: "base_layer n = Some (ops_save ops s1)" "replay ops (journal n) s1 = Some s"
    "view s = view (materialized n)" using inv by (auto simp: node_inv_def consistent_def)
  have "view s0 = view s1" using s0 s(1) load_save by (metis option.inject)
  then obtain s' where s': "replay ops (journal n) s0 = Some s'" "view s = view s'"
    using replay_view [of s1 s0] s(2) by metis
  then obtain u where "replay ops [stamped t r] s' = Some u" using rp j by (auto simp: replay_append)
  then obtain v where v: "replay ops [stamped t r] (materialized n) = Some v"
    using replay_view [of s' "materialized n"] s s' by metis
  have "\<exists>n'. ensure_loop ops [stamped t r] (?m\<lparr> applied_journal_size := length (journal n) \<rparr>) = Some (True, n')"
    using ensure_loop_replay [of ops "[stamped t r]" "?m\<lparr> applied_journal_size := length (journal n) \<rparr>" v] v
    by auto
  then show ?thesis
    using adm True append_step [OF inv _ refl len, of ?m "stamped t r"] j
    by (auto simp: TryInsertEvent_alt Let_def)
next
  case False
  then show ?thesis
    using adm rp s0 rebuild_succeeds [of "n\<lparr> journal := inserted_journal t r (journal n) \<rparr>" s0]
    by (auto simp: TryInsertEvent_alt Let_def)
qed

text \<open>A rejected record that would have been appended leaves the node as it was.\<close>

lemma append_rejected:
  assumes inv: "node_inv ops view n" and len: "length (journal n) < kJournalFullyMaterialized"
    and pos: "lower_bound EventRecordOrderLess (journal n) r = length (journal n)"
    and rej: "TryInsertEvent ops t r n = Some (False, n')"
  shows "n' = n \<or> n' = n\<lparr> applied_journal_size := length (journal n) \<rparr>"
proof (cases "admissible r n")
  case True
  have j: "inserted_journal t r (journal n) = journal n @ [stamped t r]" using lower_bound_end_append [OF pos] .
  let ?k = "n\<lparr> journal := journal n @ [stamped t r], applied_journal_size := length (journal n) \<rparr>"
  obtain m where m: "ensure_loop ops [stamped t r] ?k = Some (False, m)"
    and n': "n' = m\<lparr> journal := butlast (journal m), applied_journal_size := length (journal m) - 1 \<rparr>"
    using rej True pos append_step [OF inv _ refl len, of _ "stamped t r"] j
    by (auto simp: TryInsertEvent_alt Let_def split: Option.bind_splits if_splits)
  have "m = ?k" using m by (auto split: option.splits if_splits Option.bind_splits)
  then show ?thesis using n' by simp
next
  case False
  then show ?thesis using rej by (simp add: TryInsertEvent_alt)
qed

text \<open>Capturing and compacting.\<close>

lemma capture_succeeds:
  assumes "node_live n" "journal n = []"
  shows "\<exists>b. CaptureBaseStateInto ops n = Some (n\<lparr> base_layer := Some (ops_save ops (materialized n)),
           base := (base n)\<lparr> ptr_object := Some b \<rparr> \<rparr>)"
  using assms by (auto simp: CaptureBaseStateInto_def node_live_def Let_def elim!: is_loadedE)

lemma replay_prefix_suffix:
  assumes "replay ops (xs @ ys) s0 = Some s"
  obtains s1 where "replay ops xs s0 = Some s1" "replay ops ys s1 = Some s"
  using assms by (auto simp: replay_append split: Option.bind_splits)

lemma journal_sorted_drop: "journal_sorted js \<Longrightarrow> journal_sorted (drop k js)"
  by (auto simp: journal_sorted_def drop_map [symmetric] sorted_wrt_drop dest: in_set_dropD)

lemma distinct_shared_ids_drop: "distinct (shared_ids js) \<Longrightarrow> distinct (shared_ids (drop k js))"
  by (metis append_take_drop_id distinct_append shared_ids_append)

lemma replay_run:
  assumes "replay ops (journal n) (materialized n) = Some s"
  shows "\<exists>n'. ReplayJournal ops n = Some n' \<and> materialized n' = s \<and> static_part n' = static_part n \<and>
    (suppress_materialized_change n \<longrightarrow> notifications n' = notifications n)"
proof -
  obtain n' where n': "ensure_loop ops (journal n) (n\<lparr> applied_journal_size := 0 \<rparr>) = Some (True, n')" "materialized n' = s"
    using ensure_loop_replay [of ops "journal n" "n\<lparr> applied_journal_size := 0 \<rparr>" s] assms by auto
  then show ?thesis using ensure_loop_keeps [OF n'(1)]
    by (auto simp: ReplayJournal_def assert_ok_def TryReplayJournal_def TryEnsureCurrentGeneration_def
        kJournalFullyMaterialized_def)
qed

text \<open>The three stages of a compaction that retains records: rebuild the prefix, capture it, replay the
  rest.\<close>

lemma compact_stages:
  assumes live: "node_live n" and s0: "base_layer n = Some (ops_save ops s0)"
    and s1: "replay ops xs s0 = Some s1" and s: "replay ops ys s1 = Some s"
  shows "\<exists>m b p. RebuildFromBaseAndReplay ops (n\<lparr> journal := xs, suppress_materialized_change := True \<rparr>) = Some m \<and>
    CaptureBaseStateInto ops (m\<lparr> journal := [] \<rparr>) = Some b \<and> ReplayJournal ops (b\<lparr> journal := ys \<rparr>) = Some p \<and>
    node_live p \<and> journal p = ys \<and> consistent ops view p \<and> view (materialized p) = view s \<and>
    notifications p = notifications n"
proof -
  let ?m = "n\<lparr> journal := xs, suppress_materialized_change := True \<rparr>"
  obtain m where m: "TryRebuildFromBaseAndReplay ops ?m = Some (True, m)" "view (materialized m) = view s1"
    using rebuild_succeeds [of ?m s0 s1] s0 s1 by auto
  note keep = rebuild_keeps [OF m(1)]
  have live': "node_live (m\<lparr> journal := [] \<rparr>)" using keep(1) live by (simp add: node_live_def static_part_def)
  obtain b where c: "CaptureBaseStateInto ops (m\<lparr> journal := [] \<rparr>) =
      Some (m\<lparr> journal := [], base_layer := Some (ops_save ops (materialized m)), base := (base m)\<lparr> ptr_object := Some b \<rparr> \<rparr>)"
    using capture_succeeds [OF live'] by auto
  let ?c = "m\<lparr> base_layer := Some (ops_save ops (materialized m)), base := (base m)\<lparr> ptr_object := Some b \<rparr>,
      journal := ys \<rparr>"
  obtain s2 where s2: "replay ops ys (materialized m) = Some s2" "view s = view s2"
    using replay_view [of s1 "materialized m"] m(2) s by metis
  obtain p where p: "ReplayJournal ops ?c = Some p" "materialized p = s2" "static_part p = static_part ?c"
    "notifications p = notifications m"
    using replay_run [of ?c s2] s2 keep(1) by (auto simp: static_part_def)
  have "node_live p" using p(3) live' by (simp add: node_live_def static_part_def)
  moreover have "consistent ops view p" using p s2 by (auto simp: consistent_def static_part_def)
  ultimately show ?thesis using m c p s2 keep
    by (auto simp: RebuildFromBaseAndReplay_def assert_ok_def static_part_def)
qed

text \<open>Compaction never fails on a node that satisfies the invariant; it drops the collapsible prefix
  and changes nothing a reader of the node can see.\<close>

lemma compact_total:
  assumes inv: "node_inv ops view n" and sup: "\<not> suppress_materialized_change n"
  shows "\<exists>n'. CompactJournalInto ops now n = Some n' \<and> node_inv ops view n' \<and>
    journal n' = drop (CollapsiblePrefixCount now n) (journal n) \<and>
    view (materialized n') = view (materialized n) \<and> generation n' = generation n \<and>
    notifications n' = notifications n \<and> \<not> suppress_materialized_change n'"
proof -
  let ?k = "CollapsiblePrefixCount now n"
  obtain s0 s where s0: "base_layer n = Some (ops_save ops s0)" and s: "replay ops (journal n) s0 = Some s"
    "view s = view (materialized n)" using inv by (auto simp: node_inv_def consistent_def)
  have live: "node_live n" and js: "journal_sorted (drop ?k (journal n))" "distinct (shared_ids (drop ?k (journal n)))"
    using inv journal_sorted_drop distinct_shared_ids_drop by (auto simp: node_inv_def)
  consider "?k = 0" | "?k \<noteq> 0" "drop ?k (journal n) = []" | "?k \<noteq> 0" "drop ?k (journal n) \<noteq> []" by blast
  then show ?thesis
  proof cases
    case 1
    then show ?thesis using inv sup by (simp add: CompactJournalInto_def)
  next
    case 2
    have "node_live (n\<lparr> journal := [] \<rparr>)" using live by (simp add: node_live_def)
    then obtain b where "CaptureBaseStateInto ops (n\<lparr> journal := [] \<rparr>) =
        Some (n\<lparr> journal := [], base_layer := Some (ops_save ops (materialized n)), base := (base n)\<lparr> ptr_object := Some b \<rparr> \<rparr>)"
      using capture_succeeds [of "n\<lparr> journal := [] \<rparr>"] by auto
    then show ?thesis using 2 sup live js
      by (auto simp: CompactJournalInto_def Let_def node_inv_def consistent_def node_live_def)
  next
    case 3
    obtain s1 where s1: "replay ops (take ?k (journal n)) s0 = Some s1" "replay ops (drop ?k (journal n)) s1 = Some s"
      using s(1) replay_prefix_suffix [of "take ?k (journal n)" "drop ?k (journal n)" s0 s] by auto
    obtain m b p where st: "RebuildFromBaseAndReplay ops (n\<lparr> journal := take ?k (journal n), suppress_materialized_change := True \<rparr>) = Some m"
      "CaptureBaseStateInto ops (m\<lparr> journal := [] \<rparr>) = Some b" "ReplayJournal ops (b\<lparr> journal := drop ?k (journal n) \<rparr>) = Some p"
      and p: "node_live p" "journal p = drop ?k (journal n)" "consistent ops view p" "view (materialized p) = view s"
      "notifications p = notifications n"
      using compact_stages [OF live s0 s1] by blast
    have "CompactJournalInto ops now n = Some (p\<lparr> suppress_materialized_change := False,
        generation := generation n, applied_journal_size := kJournalFullyMaterialized \<rparr>)"
      using 3 st by (simp add: CompactJournalInto_def Let_def)
    then show ?thesis using p s js by (auto simp: node_inv_def consistent_def node_live_def)
  qed
qed

text \<open>A local commit always lands at the end, so it applies one event and rebuilds nothing.\<close>

lemma commit_timestamp_later:
  assumes "journal_sorted (journal n)" "journal n = [] \<or> timestamp_us (last (journal n)) \<noteq> -1" "x \<in> set (journal n)"
  shows "timestamp_us x < commit_timestamp now n"
proof -
  have ne: "journal n \<noteq> []" using assms(3) by auto
  have "timestamp_us x \<le> timestamp_us (last (journal n))"
    using assms(1,3) by (auto simp: journal_sorted_def intro: sorted_map_le_last)
  moreover have "timestamp_us (last (journal n)) < commit_timestamp now n"
    using assms(2) ne by (auto simp: commit_timestamp_def intro: word_less_Suc)
  ultimately show ?thesis by simp
qed

lemma commit_position:
  assumes "journal_sorted (journal n)" "timestamp_us r = commit_timestamp now n"
    "journal n = [] \<or> timestamp_us (last (journal n)) \<noteq> -1"
  shows "lower_bound EventRecordOrderLess (journal n) r = length (journal n)"
proof -
  have all: "takeWhile (\<lambda>a. timestamp_us a < timestamp_us r) (journal n) = journal n"
    using commit_timestamp_later [OF assms(1,3)] assms(2) by (simp add: takeWhile_eq_all_conv)
  have "sorted (map timestamp_us (journal n))" using assms(1) by (simp add: journal_sorted_def)
  then show ?thesis by (simp only: lower_bound_timestamp all)
qed

lemma commit_appends:
  assumes inv: "node_inv ops view n" and len: "length (journal n) < kJournalFullyMaterialized"
    and ok: "CommitInto ops now1 now2 now3 ev n = Some n'"
    and wrap: "journal n = [] \<or> timestamp_us (last (journal n)) \<noteq> -1"
  shows "node_inv ops view n' \<and> (\<exists>r. journal n' = journal n @ [r] \<and> event r = ev \<and>
    timestamp_us r = commit_timestamp now1 n \<and> \<not> HasSharedIdentity r)"
proof -
  let ?r = "\<lparr> event = ev, identity = \<lparr> origin_uid = [], origin_sequence = 0 \<rparr>,
       timestamp_us = commit_timestamp now1 n, retained_since_us = now2 \<rparr>"
  have ins: "TryInsertEvent ops now3 ?r n = Some (True, n')"
    using ok by (auto simp: CommitInto_def InsertEvent_def assert_ok_def split: Option.bind_splits if_splits)
  have pos: "lower_bound EventRecordOrderLess (journal n) ?r = length (journal n)"
    using inv wrap by (intro commit_position) (auto simp: node_inv_def)
  have "HasSharedIdentity (stamped now3 ?r) = False" by (simp add: HasSharedIdentity_def)
  then show ?thesis using insert_ok [OF inv len ins] lower_bound_end_append [OF pos, of now3] by auto
qed

lemma commit_succeeds:
  assumes inv: "node_inv ops view n" and len: "length (journal n) < kJournalFullyMaterialized"
    and ev: "ptr_valid ev" "ptr_object ev = Some e" "ptr_domain ev = node_domain n"
    and can: "ops_can_apply ops e (materialized n)" "ops_apply ops (ptr_id ev) e (materialized n) = Some (s', k)"
    and clock: "now1 \<noteq> 0" "journal n = [] \<or> timestamp_us (last (journal n)) \<noteq> -1"
  shows "\<exists>n'. CommitInto ops now1 now2 now3 ev n = Some n'"
proof -
  let ?r = "\<lparr> event = ev, identity = \<lparr> origin_uid = [], origin_sequence = 0 \<rparr>,
       timestamp_us = commit_timestamp now1 n, retained_since_us = now2 \<rparr>"
  obtain s0 s where s0: "base_layer n = Some (ops_save ops s0)" and s: "replay ops (journal n) s0 = Some s"
    "view s = view (materialized n)" using inv by (auto simp: node_inv_def consistent_def)
  have pos: "lower_bound EventRecordOrderLess (journal n) ?r = length (journal n)"
    using inv clock(2) by (intro commit_position) (auto simp: node_inv_def)
  have "replay ops [stamped now3 ?r] (materialized n) = Some s'"
    using ev can by (simp add: usable_event_def)
  then have rp: "replay ops (inserted_journal now3 ?r (journal n)) s0 \<noteq> None"
    using replay_view [of "materialized n" s "[stamped now3 ?r]" s'] s lower_bound_end_append [OF pos, of now3]
    by (auto simp: replay_append)
  have "commit_timestamp now1 n \<noteq> 0"
    using clock by (auto simp: commit_timestamp_def eq_neg_iff_add_eq_0)
  then have "admissible ?r n"
    using inv ev by (simp add: admissible_def node_inv_def node_live_def HasSharedIdentity_def)
  then obtain n' where "TryInsertEvent ops now3 ?r n = Some (True, n')"
    using insert_accepts [OF inv len _ s0 rp] by blast
  then show ?thesis using ev can by (simp add: CommitInto_def InsertEvent_def assert_ok_def)
qed

lemma commit_runs:
  assumes inv: "node_inv ops view n" and len: "length (journal n) < kJournalFullyMaterialized"
    and ev: "ptr_valid ev" "ptr_object ev = Some e" "ptr_domain ev = node_domain n"
    and can: "ops_can_apply ops e (materialized n)" "ops_apply ops (ptr_id ev) e (materialized n) = Some (s', k)"
    and clock: "now1 \<noteq> 0" "journal n = [] \<or> timestamp_us (last (journal n)) \<noteq> -1"
  shows "\<exists>n' r. CommitInto ops now1 now2 now3 ev n = Some n' \<and> node_inv ops view n' \<and>
    materialized n' = s' \<and> journal n' = journal n @ [r] \<and> event r = ev \<and> \<not> HasSharedIdentity r \<and>
    timestamp_us r = commit_timestamp now1 n"
proof -
  let ?r = "\<lparr> event = ev, identity = \<lparr> origin_uid = [], origin_sequence = 0 \<rparr>,
       timestamp_us = commit_timestamp now1 n, retained_since_us = now2 \<rparr>"
  obtain n' where c: "CommitInto ops now1 now2 now3 ev n = Some n'"
    using commit_succeeds [OF assms] by blast
  then have ins: "TryInsertEvent ops now3 ?r n = Some (True, n')"
    by (auto simp: CommitInto_def InsertEvent_def assert_ok_def split: Option.bind_splits if_splits)
  have pos: "lower_bound EventRecordOrderLess (journal n) ?r = length (journal n)"
    using inv clock(2) by (intro commit_position) (auto simp: node_inv_def)
  have "replay ops [stamped now3 ?r] (materialized n) = Some (materialized n')"
    by (rule append_replays [OF inv len pos ins])
  then have "materialized n' = s'" using ev can by (auto simp: usable_event_def)
  then show ?thesis using commit_appends [OF inv len c clock(2)] c by blast
qed

end

section \<open>Retention\<close>

lemma collapsible_scan_le: "collapsible_scan p now js \<le> length js"
  by (induction js) auto

lemma collapsible_scan_collapses:
  "i < collapsible_scan p now js \<Longrightarrow> \<not> retain_record p now (length js - i) (js ! i)"
proof (induction js arbitrary: i)
  case (Cons r rs)
  then show ?case by (cases i) (auto split: if_splits)
qed simp

lemma collapsible_scan_stops:
  "collapsible_scan p now js < length js \<Longrightarrow>
   retain_record p now (length js - collapsible_scan p now js) (js ! collapsible_scan p now js)"
  by (induction js) (auto split: if_splits)

lemma collapsible_scan_keeps_count: "length js - collapsible_scan p now js \<ge> min (max_events p) (length js)"
  by (induction js) (auto simp: retain_record_def)

text \<open>A journal whose last timestamp is the largest one accepts no further commit: the increment wraps to
  0, which TryInsertEvent refuses.\<close>

lemma commit_timestamp_wraps:
  "journal n \<noteq> [] \<Longrightarrow> timestamp_us (last (journal n)) = -1 \<Longrightarrow> commit_timestamp now n = 0"
  by (simp add: commit_timestamp_def)

lemma commit_after_last_timestamp:
  assumes "journal n \<noteq> []" "timestamp_us (last (journal n)) = -1"
  shows "CommitInto ops now1 now2 now3 ev n = None"
  using commit_timestamp_wraps [OF assms, of now1]
  by (simp add: CommitInto_def InsertEvent_def TryInsertEvent_def assert_ok_def)

section \<open>Convergence\<close>

text \<open>What replicas agree on: an event, its identity and its timestamp.  Domains and retention times are
  local to a replica.\<close>

definition content :: "'e event_record \<Rightarrow> obj_id \<times> 'e option \<times> shared_event_id \<times> u64" where
  "content r = (ptr_id (event r), usable_event r, identity r, timestamp_us r)"

lemma content_stamped [simp]: "content (stamped t r) = content r"
  by (simp add: content_def)

text \<open>A replica that receives records, each with its own clock reading.\<close>

fun insert_all ::
  "('s, 'e, 'b) node_ops \<Rightarrow> (u64 \<times> 'e event_record) list \<Rightarrow> ('s, 'e, 'b) node \<Rightarrow> ('s, 'e, 'b) node option" where
  "insert_all ops [] n = Some n"
| "insert_all ops ((now_us, r) # rs) n =
     (case TryInsertEvent ops now_us r n of Some (True, n) \<Rightarrow> insert_all ops rs n | _ \<Rightarrow> None)"

lemma replay_content: "map content xs = map content ys \<Longrightarrow> replay ops xs s = replay ops ys s"
proof (induction xs arbitrary: ys s)
  case (Cons x xs)
  then obtain y ys' where ys: "ys = y # ys'" and y: "content x = content y" and rest: "map content xs = map content ys'"
    by (cases ys) auto
  have "replay ops xs t = replay ops ys' t" for t using Cons.IH [OF rest] .
  moreover have "usable_event x = usable_event y" "ptr_id (event x) = ptr_id (event y)"
    using y by (simp_all add: content_def)
  ultimately show ?case by (auto simp: ys split: option.split)
qed simp

lemma mset_inserted_journal:
  "mset (map content (inserted_journal t r js)) = add_mset (content r) (mset (map content js))"
proof -
  have "mset (map content (take k js)) + mset (map content (drop k js)) = mset (map content js)" for k
    by (metis append_take_drop_id map_append mset_append)
  then show ?thesis by (simp add: inserted_journal_def insert_at_def)
qed

lemma sorted_content_unique:
  assumes "journal_sorted xs" "journal_sorted ys" "mset (map content xs) = mset (map content ys)"
    "distinct (map timestamp_us xs)"
  shows "map content xs = map content ys"
proof -
  let ?key = "\<lambda>c. snd (snd (snd c)) :: u64"
  have k: "map ?key (map content js) = map timestamp_us js" for js :: "'a event_record list"
    by (simp add: content_def)
  have m: "mset (map timestamp_us xs) = mset (map timestamp_us ys)"
    using arg_cong [OF assms(3), of "image_mset ?key"] unfolding mset_map [symmetric] k .
  then have d: "distinct (map timestamp_us ys)"
    using assms(4) by (metis mset_eq_imp_distinct_iff)
  have "sorted_wrt (<) (map ?key (map content xs))" "sorted_wrt (<) (map ?key (map content ys))"
    unfolding k using assms(1,2,4) d by (simp_all add: journal_sorted_def strict_sorted_iff)
  moreover have "set (map content xs) = set (map content ys)" using assms(3) by (metis set_mset_mset)
  ultimately show ?thesis by (rule strict_sorted_map_unique)
qed

context node_class
begin

lemma insert_all_ok:
  assumes "node_inv ops view n" "length (journal n) + length xs \<le> kJournalFullyMaterialized"
    "insert_all ops xs n = Some n'"
  shows "node_inv ops view n' \<and> base_layer n' = base_layer n \<and>
    mset (map content (journal n')) = mset (map content (journal n)) + mset (map (content \<circ> snd) xs)"
  using assms
proof (induction xs arbitrary: n)
  case (Cons x xs)
  obtain t r where x: "x = (t, r)" by (cases x)
  obtain m where m: "TryInsertEvent ops t r n = Some (True, m)" and rest: "insert_all ops xs m = Some n'"
    using Cons.prems(3) x by (auto split: option.splits bool.splits)
  have "length (journal n) < kJournalFullyMaterialized" using Cons.prems(2) by simp
  note i = insert_ok [OF Cons.prems(1) this m]
  have "length (journal m) = Suc (length (journal n))" using i by (simp add: inserted_journal_def)
  then have "length (journal m) + length xs \<le> kJournalFullyMaterialized" using Cons.prems(2) by simp
  then show ?case using Cons.IH [OF _ _ rest] i x by (simp add: mset_inserted_journal [unfolded mset_map])
qed simp

lemma convergence:
  assumes n: "node_inv ops view n" "length (journal n) + length xs \<le> kJournalFullyMaterialized"
      "insert_all ops xs n = Some n'"
    and m: "node_inv ops view m" "length (journal m) + length ys \<le> kJournalFullyMaterialized"
      "insert_all ops ys m = Some m'"
    and start: "base_layer n = base_layer m" "map content (journal n) = map content (journal m)"
    and recs: "mset (map (content \<circ> snd) xs) = mset (map (content \<circ> snd) ys)"
    and ts: "distinct (map timestamp_us (journal n'))"
  shows "map content (journal n') = map content (journal m') \<and> view (materialized n') = view (materialized m')"
proof -
  note a = insert_all_ok [OF n] and b = insert_all_ok [OF m]
  have "mset (map content (journal n')) = mset (map content (journal m'))"
    using a b start(2) recs by (metis mset_map)
  then have c: "map content (journal n') = map content (journal m')"
    using a b ts by (intro sorted_content_unique) (auto simp: node_inv_def)
  obtain s0 s where s: "base_layer n' = Some (ops_save ops s0)" "replay ops (journal n') s0 = Some s"
    "view s = view (materialized n')" using conjunct1 [OF a] by (auto simp: node_inv_def consistent_def)
  obtain t0 t where t: "base_layer m' = Some (ops_save ops t0)" "replay ops (journal m') t0 = Some t"
    "view t = view (materialized m')" using conjunct1 [OF b] by (auto simp: node_inv_def consistent_def)
  have "view s0 = view t0" using s(1) t(1) a b start(1) load_save by (metis option.inject)
  then have "view s = view t"
    using replay_view [of s0 t0 "journal n'" s] s(2) t(2) replay_content [OF c, of ops t0] by auto
  then show ?thesis using c s t by simp
qed

end

text \<open>A trial on a copy.  The copy agrees with the node on the content of the journal and on the base;
  the trial record carries the same event under another id, which the event's Apply does not read.\<close>

definition same_effect :: "('s, 'e, 'b) node_ops \<Rightarrow> 'e event_record \<Rightarrow> 'e event_record \<Rightarrow> bool" where
  "same_effect ops a b \<longleftrightarrow> usable_event a = usable_event b \<and> timestamp_us a = timestamp_us b \<and>
     (\<forall>e s. usable_event a = Some e \<longrightarrow> ops_apply ops (ptr_id (event a)) e s = ops_apply ops (ptr_id (event b)) e s)"

lemma replay_same_effect: "list_all2 (same_effect ops) xs ys \<Longrightarrow> replay ops xs s = replay ops ys s"
proof (induction xs ys arbitrary: s rule: list_all2_induct)
  case (Cons x xs y ys)
  have "replay ops xs t = replay ops ys t" for t using Cons by blast
  then show ?case using Cons(1) by (auto simp: same_effect_def split: option.split)
qed simp

lemma content_same_effect: "map content xs = map content ys \<Longrightarrow> list_all2 (same_effect ops) xs ys"
  by (auto simp: list_all2_conv_all_nth content_def same_effect_def dest: map_eq_imp_length_eq
      intro!: nth_equalityI) (metis (no_types, lifting) content_def length_map nth_map prod.inject)+

lemma lower_bound_same_timestamps:
  assumes "map timestamp_us xs = map timestamp_us ys" "timestamp_us a = timestamp_us b"
    "sorted (map timestamp_us xs)"
  shows "lower_bound EventRecordOrderLess xs a = lower_bound EventRecordOrderLess ys b"
proof -
  have "length (takeWhile (\<lambda>x. timestamp_us x < t) zs) = length (takeWhile (\<lambda>x. x < t) (map timestamp_us zs))"
    for zs :: "'x event_record list" and t
    by (simp add: takeWhile_map comp_def)
  then have "length (takeWhile (\<lambda>x. timestamp_us x < timestamp_us b) xs) = length (takeWhile (\<lambda>x. timestamp_us x < timestamp_us b) ys)"
    using assms(1) by metis
  then show ?thesis using assms by (simp add: lower_bound_timestamp)
qed

context node_class
begin

lemma trial_insert_sound:
  assumes n: "node_inv ops view n" "length (journal n) < kJournalFullyMaterialized"
    and m: "node_inv ops view m" "length (journal m) < kJournalFullyMaterialized"
    and copy: "map content (journal m) = map content (journal n)"
      "base_layer m = Some (ops_save ops s1)" "base_layer n = Some (ops_save ops s0)" "view s1 = view s0"
    and trial: "TryInsertEvent ops t1 r m = Some (True, m')"
    and rec: "same_effect ops r q" and adm: "admissible q n"
  shows "\<exists>n'. TryInsertEvent ops t2 q n = Some (True, n')"
proof -
  let ?k = "lower_bound EventRecordOrderLess (journal n) q"
  have ts: "map timestamp_us (journal m) = map timestamp_us (journal n)"
    using arg_cong [OF copy(1), of "map (\<lambda>c. snd (snd (snd c)))"] by (simp add: content_def comp_def)
  have k: "lower_bound EventRecordOrderLess (journal m) r = ?k"
    using ts rec m(1) by (intro lower_bound_same_timestamps) (auto simp: same_effect_def node_inv_def journal_sorted_def)
  have len: "length (journal m) = length (journal n)" using copy(1) map_eq_imp_length_eq by blast
  have "list_all2 (same_effect ops) (journal m) (journal n)" using content_same_effect copy(1) by blast
  moreover have "same_effect ops (stamped t1 r) (stamped t2 q)" using rec by (simp add: same_effect_def)
  ultimately have "list_all2 (same_effect ops) (inserted_journal t1 r (journal m)) (inserted_journal t2 q (journal n))"
    unfolding inserted_journal_def insert_at_def k
    by (intro list_all2_appendI list_all2_Cons [THEN iffD2] conjI list_all2_takeI list_all2_dropI) auto
  then have rp: "replay ops (inserted_journal t1 r (journal m)) s = replay ops (inserted_journal t2 q (journal n)) s" for s
    by (rule replay_same_effect)
  note i = insert_ok [OF m trial]
  then obtain s2 s where "base_layer m = Some (ops_save ops s2)" "replay ops (inserted_journal t1 r (journal m)) s2 = Some s"
    by (auto simp: node_inv_def consistent_def)
  moreover have "view s2 = view s0" using calculation(1) copy(2,4) load_save by (metis option.inject)
  ultimately have "replay ops (inserted_journal t2 q (journal n)) s0 \<noteq> None"
    using rp replay_view [of s2 s0] by (metis option.distinct(1))
  then show ?thesis by (rule insert_accepts [OF n adm copy(3)])
qed

end

end
