(* ===== verification/SharedNode.thy ===== *)
theory SharedNode
  imports Journal
begin

text \<open>
  Shared nodes (src/include/apptraverse/shared_node.h, src/src/shared_node.cpp, link.h): LinkSyncState,
  the event-sourced progress of one share relationship, and SharedNode, whose shares are shared
  topology and whose LinkSyncState pointers are local to the replica.  Both are instances of the
  journal's node class: LinkSyncState with all its fields as the view, SharedNode with its shares.

  Enumerations stored as \<open>std::uint8_t\<close> are bytes, since an untrusted value need not name a constant.
  Ids of created objects and clock readings are arguments: \<open>commit_env\<close> for one Commit, \<open>sn_mint\<close> for
  the state and base objects that an applied AddShareEvent creates.  A valid pointer whose Load finds
  no object is dereferenced by the source, which is undefined; the lookups here skip it.
\<close>

section \<open>Links and shares\<close>

text \<open>AetherLink is the link class of the chat example.\<close>

datatype link_obj = Link | MemoryLink string u32 | AetherLink string

fun EndpointUid :: "link_obj \<Rightarrow> string" where
  "EndpointUid Link = []"
| "EndpointUid (MemoryLink endpoint_uid heartbeat_interval_ms) = endpoint_uid"
| "EndpointUid (AetherLink endpoint_uid) = endpoint_uid"

definition ReadWrite :: u8 where "ReadWrite = 0"
definition ReadOnly :: u8 where "ReadOnly = 1"

record share =
  share_id :: obj_id
  share_link :: "link_obj obj_ptr"
  share_access :: u8

definition NotStarted :: u8 where "NotStarted = 0"
definition Pending :: u8 where "Pending = 1"
definition Complete :: u8 where "Complete = 2"

lemmas phase_defs = NotStarted_def Pending_def Complete_def

section \<open>LinkSyncState\<close>

record link_sync_state =
  ls_share_id :: obj_id
  ls_link :: "link_obj obj_ptr"
  initial_sync_phase :: u8
  pending_initial_packet_id :: obj_id
  pending_initial_packet :: bytes
  received_initial_packet_id :: obj_id
  pending_initial_covered_event_ids :: "shared_event_id list"
  delivered_event_ids :: "shared_event_id list"
  pending_event_packet_id :: obj_id
  pending_event_identity :: shared_event_id
  pending_event_packet :: bytes

definition empty_event_id :: shared_event_id where
  "empty_event_id = \<lparr> origin_uid = [], origin_sequence = 0 \<rparr>"

definition default_link_sync_state :: "aether \<Rightarrow> link_sync_state" where
  "default_link_sync_state ae = \<lparr> ls_share_id = ae_null ae, ls_link = null_ptr ae,
     initial_sync_phase = NotStarted, pending_initial_packet_id = ae_null ae, pending_initial_packet = [],
     received_initial_packet_id = ae_null ae, pending_initial_covered_event_ids = [],
     delivered_event_ids = [], pending_event_packet_id = ae_null ae,
     pending_event_identity = empty_event_id, pending_event_packet = [] \<rparr>"

datatype link_sync_event =
    SetLinkInitialSyncPhaseEvent u8
  | BeginInitialSyncEvent bytes "shared_event_id list"
  | CompleteInitialSyncEvent
  | NoteInitialSyncReceivedEvent obj_id
  | CompleteFromReceivedSnapshotEvent "shared_event_id list"
  | BeginIncrementalEventSyncEvent shared_event_id bytes
  | CompleteIncrementalEventSyncEvent

definition HasDelivered :: "shared_event_id \<Rightarrow> link_sync_state \<Rightarrow> bool" where
  "HasDelivered ident s \<longleftrightarrow> ident \<in> set (delivered_event_ids s)"

definition HasPendingEvent :: "aether \<Rightarrow> link_sync_state \<Rightarrow> bool" where
  "HasPendingEvent ae s \<longleftrightarrow> ae_valid ae (pending_event_packet_id s)"

definition note_delivered :: "shared_event_id \<Rightarrow> link_sync_state \<Rightarrow> link_sync_state" where
  "note_delivered ident s =
     (if HasDelivered ident s then s else s\<lparr> delivered_event_ids := delivered_event_ids s @ [ident] \<rparr>)"

fun LinkSyncState_CanApply :: "aether \<Rightarrow> link_sync_event \<Rightarrow> link_sync_state \<Rightarrow> bool" where
  "LinkSyncState_CanApply ae (CompleteFromReceivedSnapshotEvent ids) s \<longleftrightarrow>
     initial_sync_phase s = NotStarted \<and> \<not> HasPendingEvent ae s"
| "LinkSyncState_CanApply ae _ s \<longleftrightarrow> True"

text \<open>Every overload ends with one NoteMaterializedChange; \<open>None\<close> is a failed assertion.\<close>

fun LinkSyncState_Apply ::
  "aether \<Rightarrow> obj_id \<Rightarrow> link_sync_event \<Rightarrow> link_sync_state \<Rightarrow> (link_sync_state \<times> nat) option" where
  "LinkSyncState_Apply ae i (SetLinkInitialSyncPhaseEvent phase) s =
     Some (s\<lparr> initial_sync_phase := phase \<rparr>, 1)"
| "LinkSyncState_Apply ae i (BeginInitialSyncEvent packet covered) s = do {
     assert_that (initial_sync_phase s = NotStarted);
     assert_that (packet \<noteq> []);
     Some (s\<lparr> initial_sync_phase := Pending, pending_initial_packet_id := i,
              pending_initial_packet := packet, pending_initial_covered_event_ids := covered \<rparr>, 1) }"
| "LinkSyncState_Apply ae i CompleteInitialSyncEvent s =
     (let s = s\<lparr> initial_sync_phase := Complete, pending_initial_packet_id := ae_null ae,
                 pending_initial_packet := [] \<rparr>;
          s = fold note_delivered (pending_initial_covered_event_ids s) s
      in Some (s\<lparr> pending_initial_covered_event_ids := [] \<rparr>, 1))"
| "LinkSyncState_Apply ae i (NoteInitialSyncReceivedEvent packet_id) s =
     Some (s\<lparr> received_initial_packet_id := packet_id, initial_sync_phase := Complete \<rparr>, 1)"
| "LinkSyncState_Apply ae i (CompleteFromReceivedSnapshotEvent ids) s =
     (let s = s\<lparr> initial_sync_phase := Complete \<rparr>;
          s = fold (\<lambda>ident s. if origin_uid ident \<noteq> [] then note_delivered ident s else s) ids s
      in Some (s\<lparr> pending_initial_packet_id := ae_null ae, pending_initial_packet := [],
                  pending_initial_covered_event_ids := [] \<rparr>, 1))"
| "LinkSyncState_Apply ae i (BeginIncrementalEventSyncEvent ident packet) s = do {
     assert_that (initial_sync_phase s = Complete);
     assert_that (\<not> HasPendingEvent ae s);
     assert_that (origin_uid ident \<noteq> []);
     assert_that (packet \<noteq> []);
     Some (s\<lparr> pending_event_packet_id := i, pending_event_identity := ident,
              pending_event_packet := packet \<rparr>, 1) }"
| "LinkSyncState_Apply ae i CompleteIncrementalEventSyncEvent s = do {
     assert_that (HasPendingEvent ae s);
     let s = note_delivered (pending_event_identity s) s in
     Some (s\<lparr> pending_event_packet_id := ae_null ae, pending_event_identity := empty_event_id,
              pending_event_packet := [] \<rparr>, 1) }"

text \<open>Version 3 of the layer lists every field; \<open>missing\<close> is what DomainGraph::Load leaves in an object
  whose id has no stored layer.\<close>

definition LinkSyncState_ops ::
  "aether \<Rightarrow> (link_sync_state \<Rightarrow> link_sync_state) \<Rightarrow> (link_sync_state, link_sync_event, link_sync_state) node_ops" where
  "LinkSyncState_ops ae missing = \<lparr> ops_can_apply = LinkSyncState_CanApply ae,
     ops_apply = LinkSyncState_Apply ae, ops_matches = (\<lambda>e ident ts. True),
     ops_save = (\<lambda>s. s), ops_load = (\<lambda>layer s. case layer of Some l \<Rightarrow> l | None \<Rightarrow> missing s),
     ops_restore = (\<lambda>old s. s) \<rparr>"

type_synonym link_sync_node = "(link_sync_state, link_sync_event, link_sync_state) node"

definition LinkSyncState_Load :: "nat \<Rightarrow> link_sync_state \<Rightarrow> load_error + link_sync_state" where
  "LinkSyncState_Load version layer = (if version = 3 then Inr layer else Inl (UnsupportedVersion version))"

text \<open>One Commit: the id Create gave the event, and the readings of the clock.\<close>

record commit_env =
  ce_event_id :: obj_id
  ce_now1 :: u64
  ce_now2 :: u64
  ce_now3 :: u64

definition new_event :: "commit_env \<Rightarrow> nat option \<Rightarrow> 'e \<Rightarrow> 'e obj_ptr" where
  "new_event env d e = \<lparr> ptr_valid = True, ptr_id = ce_event_id env, ptr_domain = d,
     ptr_object = Some e, ptr_stored = None \<rparr>"

definition Commit ::
  "('s, 'e, 'b) node_ops \<Rightarrow> commit_env \<Rightarrow> 'e \<Rightarrow> ('s, 'e, 'b) node \<Rightarrow> ('s, 'e, 'b) node option" where
  "Commit ops env e n =
     CommitInto ops (ce_now1 env) (ce_now2 env) (ce_now3 env) (new_event env (node_domain n) e) n"

definition LinkSyncState_SetInitialSyncPhase ::
  "aether \<Rightarrow> (link_sync_state \<Rightarrow> link_sync_state) \<Rightarrow> commit_env \<Rightarrow> u8 \<Rightarrow> link_sync_node \<Rightarrow> link_sync_node option" where
  "LinkSyncState_SetInitialSyncPhase ae missing env phase n =
     (if initial_sync_phase (materialized n) = phase then Some n
      else Commit (LinkSyncState_ops ae missing) env (SetLinkInitialSyncPhaseEvent phase) n)"

definition CompleteInitialSync ::
  "aether \<Rightarrow> (link_sync_state \<Rightarrow> link_sync_state) \<Rightarrow> commit_env \<Rightarrow> link_sync_node \<Rightarrow> link_sync_node option" where
  "CompleteInitialSync ae missing env n = Commit (LinkSyncState_ops ae missing) env CompleteInitialSyncEvent n"

definition NoteInitialSyncReceived ::
  "aether \<Rightarrow> (link_sync_state \<Rightarrow> link_sync_state) \<Rightarrow> commit_env \<Rightarrow> obj_id \<Rightarrow> link_sync_node \<Rightarrow> link_sync_node option" where
  "NoteInitialSyncReceived ae missing env packet_id n = do {
     assert_that (ae_valid ae packet_id);
     Commit (LinkSyncState_ops ae missing) env (NoteInitialSyncReceivedEvent packet_id) n }"

definition CompleteFromReceivedSnapshot ::
  "aether \<Rightarrow> (link_sync_state \<Rightarrow> link_sync_state) \<Rightarrow> commit_env \<Rightarrow> shared_event_id list \<Rightarrow> link_sync_node \<Rightarrow>
   link_sync_node option" where
  "CompleteFromReceivedSnapshot ae missing env delivered n =
     Commit (LinkSyncState_ops ae missing) env (CompleteFromReceivedSnapshotEvent delivered) n"

definition BeginIncrementalEvent ::
  "aether \<Rightarrow> (link_sync_state \<Rightarrow> link_sync_state) \<Rightarrow> commit_env \<Rightarrow> shared_event_id \<Rightarrow> bytes \<Rightarrow> link_sync_node \<Rightarrow>
   link_sync_node option" where
  "BeginIncrementalEvent ae missing env ident packet n = do {
     assert_that (initial_sync_phase (materialized n) = Complete);
     assert_that (\<not> HasPendingEvent ae (materialized n));
     assert_that (origin_uid ident \<noteq> []);
     assert_that (origin_sequence ident \<noteq> 0);
     assert_that (packet \<noteq> []);
     Commit (LinkSyncState_ops ae missing) env (BeginIncrementalEventSyncEvent ident packet) n }"

definition CompleteIncrementalEvent ::
  "aether \<Rightarrow> (link_sync_state \<Rightarrow> link_sync_state) \<Rightarrow> commit_env \<Rightarrow> link_sync_node \<Rightarrow> link_sync_node option" where
  "CompleteIncrementalEvent ae missing env n = do {
     assert_that (HasPendingEvent ae (materialized n));
     Commit (LinkSyncState_ops ae missing) env CompleteIncrementalEventSyncEvent n }"

section \<open>SharedNode\<close>

record shared_fields =
  shares :: "share list"
  link_sync_states :: "link_sync_node obj_ptr list"

datatype shared_event =
    AddShareEvent "link_obj obj_ptr" u8
  | RemoveShareEvent obj_id
  | ChangeShareAccessEvent obj_id u8

record sn_env =
  sn_ae :: aether
  sn_domain :: "nat option"
  sn_mint :: "obj_id \<Rightarrow> obj_id \<times> obj_id"
  sn_missing_sync :: "link_sync_state \<Rightarrow> link_sync_state"
  sn_missing :: "shared_fields \<Rightarrow> shared_fields"

definition FindShareIndex :: "obj_id \<Rightarrow> ('x shared_fields_scheme) \<Rightarrow> nat" where
  "FindShareIndex link_id s =
     find_index (\<lambda>sh. ptr_valid (share_link sh) \<and> ptr_id (share_link sh) = link_id) (shares s)"

definition FindShareIndexForShare :: "obj_id \<Rightarrow> ('x shared_fields_scheme) \<Rightarrow> nat" where
  "FindShareIndexForShare i s = find_index (\<lambda>sh. share_id sh = i) (shares s)"

definition sync_entry_for :: "obj_id \<Rightarrow> link_sync_node obj_ptr \<Rightarrow> bool" where
  "sync_entry_for i entry \<longleftrightarrow> ptr_valid entry \<and>
     (case ptr_load entry of Some n \<Rightarrow> ls_share_id (materialized n) = i | None \<Rightarrow> False)"

definition FindLinkSyncIndexForShare :: "obj_id \<Rightarrow> ('x shared_fields_scheme) \<Rightarrow> nat" where
  "FindLinkSyncIndexForShare i s = find_index (sync_entry_for i) (link_sync_states s)"

text \<open>The LinkSyncState an applied AddShareEvent creates: configured, then made a live node.\<close>

definition fresh_link_sync_node :: "sn_env \<Rightarrow> obj_id \<Rightarrow> link_obj obj_ptr \<Rightarrow> link_sync_node" where
  "fresh_link_sync_node env i link =
     \<lparr> node_obj_id = fst (sn_mint env i), node_domain = sn_domain env,
       materialized = (default_link_sync_state (sn_ae env))\<lparr> ls_share_id := i, ls_link := link,
         initial_sync_phase := NotStarted \<rparr>,
       base = null_ptr (sn_ae env), base_layer = None, journal = [], generation = 1,
       applied_journal_size = kJournalFullyMaterialized, journal_retention_policy = default_retention,
       journal_compaction_blocked = False, suppress_materialized_change = False,
       materialized_change_fn = False, notifications = 0 \<rparr>"

definition create_link_sync_node :: "sn_env \<Rightarrow> obj_id \<Rightarrow> link_obj obj_ptr \<Rightarrow> link_sync_node option" where
  "create_link_sync_node env i link =
     InitializeRuntimeNode (LinkSyncState_ops (sn_ae env) (sn_missing_sync env)) True
       (default_link_sync_state (sn_ae env)) (snd (sn_mint env i)) (fresh_link_sync_node env i link)"

definition sync_node_ptr :: "link_sync_node \<Rightarrow> link_sync_node obj_ptr" where
  "sync_node_ptr n = \<lparr> ptr_valid = True, ptr_id = node_obj_id n, ptr_domain = node_domain n,
     ptr_object = Some n, ptr_stored = None \<rparr>"

fun SharedNode_Apply ::
  "sn_env \<Rightarrow> obj_id \<Rightarrow> shared_event \<Rightarrow> 'x shared_fields_scheme \<Rightarrow> ('x shared_fields_scheme \<times> nat) option" where
  "SharedNode_Apply env i (AddShareEvent link access) s = do {
     assert_that (ptr_valid link);
     assert_that (ae_valid (sn_ae env) i);
     assert_that (FindShareIndexForShare i s = length (shares s));
     assert_that (FindShareIndex (ptr_id link) s = length (shares s));
     let s = s\<lparr> shares := shares s @ [\<lparr> share_id = i, share_link = link, share_access = access \<rparr>] \<rparr>;
     s \<leftarrow> (if FindLinkSyncIndexForShare i s \<ge> length (link_sync_states s) then do {
             state \<leftarrow> create_link_sync_node env i link;
             Some (s\<lparr> link_sync_states := link_sync_states s @ [sync_node_ptr state] \<rparr>) }
           else Some s);
     Some (s, 1) }"
| "SharedNode_Apply env i (RemoveShareEvent sid) s = do {
     let index = FindShareIndexForShare sid s;
     assert_that (index < length (shares s));
     let s = s\<lparr> shares := erase_at index (shares s) \<rparr>;
     let sync_index = FindLinkSyncIndexForShare sid s;
     let s = (if sync_index < length (link_sync_states s)
              then s\<lparr> link_sync_states := erase_at sync_index (link_sync_states s) \<rparr> else s);
     Some (s, 1) }"
| "SharedNode_Apply env i (ChangeShareAccessEvent sid access) s = do {
     let index = FindShareIndexForShare sid s;
     assert_that (index < length (shares s));
     Some (s\<lparr> shares := (shares s)[index := (shares s ! index)\<lparr> share_access := access \<rparr>] \<rparr>, 1) }"

text \<open>StashLocalPersistentAcrossRebuild keeps the valid entries, Restore puts them back.\<close>

definition stash_restore :: "'x shared_fields_scheme \<Rightarrow> 'x shared_fields_scheme \<Rightarrow> 'x shared_fields_scheme" where
  "stash_restore old s = s\<lparr> link_sync_states := filter ptr_valid (link_sync_states old) \<rparr>"

type_synonym shared_layer = "share list \<times> link_sync_node obj_ptr list"

definition SharedNode_ops :: "sn_env \<Rightarrow> (shared_fields, shared_event, shared_layer) node_ops" where
  "SharedNode_ops env = \<lparr> ops_can_apply = (\<lambda>e s. True), ops_apply = SharedNode_Apply env,
     ops_matches = (\<lambda>e ident ts. True), ops_save = (\<lambda>s. (shares s, link_sync_states s)),
     ops_load = (\<lambda>layer s. case layer of
       Some (sh, ls) \<Rightarrow> s\<lparr> shares := sh, link_sync_states := ls \<rparr> | None \<Rightarrow> sn_missing env s),
     ops_restore = stash_restore \<rparr>"

type_synonym shared_node = "(shared_fields, shared_event, shared_layer) node"

definition AddShare ::
  "sn_env \<Rightarrow> commit_env \<Rightarrow> link_obj obj_ptr \<Rightarrow> u8 \<Rightarrow> shared_node \<Rightarrow> shared_node option" where
  "AddShare env cenv link access n = do {
     assert_that (ptr_valid link);
     if FindShareIndex (ptr_id link) (materialized n) < length (shares (materialized n)) then Some n
     else Commit (SharedNode_ops env) cenv (AddShareEvent link access) n }"

definition RemoveShare :: "sn_env \<Rightarrow> commit_env \<Rightarrow> link_obj obj_ptr \<Rightarrow> shared_node \<Rightarrow> shared_node option" where
  "RemoveShare env cenv link n = do {
     assert_that (ptr_valid link);
     let index = FindShareIndex (ptr_id link) (materialized n);
     if index \<ge> length (shares (materialized n)) then Some n
     else Commit (SharedNode_ops env) cenv (RemoveShareEvent (share_id (shares (materialized n) ! index))) n }"

definition SetShareAccess ::
  "sn_env \<Rightarrow> commit_env \<Rightarrow> link_obj obj_ptr \<Rightarrow> u8 \<Rightarrow> shared_node \<Rightarrow> shared_node option" where
  "SetShareAccess env cenv link access n = do {
     assert_that (ptr_valid link);
     let index = FindShareIndex (ptr_id link) (materialized n);
     assert_that (index < length (shares (materialized n)));
     let sh = shares (materialized n) ! index;
     if share_access sh = access then Some n
     else Commit (SharedNode_ops env) cenv (ChangeShareAccessEvent (share_id sh) access) n }"

text \<open>Editing the LinkSyncState behind one of the local pointers.\<close>

definition with_sync_state ::
  "nat \<Rightarrow> (link_sync_node \<Rightarrow> link_sync_node option) \<Rightarrow> ('x shared_fields_scheme, 'e, 'b) node \<Rightarrow>
   ('x shared_fields_scheme, 'e, 'b) node option" where
  "with_sync_state i f n = do {
     state \<leftarrow> ptr_load (link_sync_states (materialized n) ! i);
     state \<leftarrow> f state;
     let s = materialized n;
     Some (n\<lparr> materialized := s\<lparr> link_sync_states :=
       (link_sync_states s)[i := (link_sync_states s ! i)\<lparr> ptr_object := Some state \<rparr>] \<rparr> \<rparr>) }"

definition SharedNode_SetInitialSyncPhase ::
  "sn_env \<Rightarrow> commit_env \<Rightarrow> link_obj obj_ptr \<Rightarrow> u8 \<Rightarrow> shared_node \<Rightarrow> shared_node option" where
  "SharedNode_SetInitialSyncPhase env cenv link phase n = do {
     assert_that (ptr_valid link);
     let share_index = FindShareIndex (ptr_id link) (materialized n);
     assert_that (share_index < length (shares (materialized n)));
     let index = FindLinkSyncIndexForShare (share_id (shares (materialized n) ! share_index)) (materialized n);
     assert_that (index < length (link_sync_states (materialized n)));
     with_sync_state index (LinkSyncState_SetInitialSyncPhase (sn_ae env) (sn_missing_sync env) cenv phase) n }"

definition SharedNode_GetInitialSyncPhase :: "link_obj obj_ptr \<Rightarrow> shared_node \<Rightarrow> u8 option" where
  "SharedNode_GetInitialSyncPhase link n = do {
     assert_that (ptr_valid link);
     let share_index = FindShareIndex (ptr_id link) (materialized n);
     if share_index \<ge> length (shares (materialized n)) then Some NotStarted
     else do {
       let index = FindLinkSyncIndexForShare (share_id (shares (materialized n) ! share_index)) (materialized n);
       if index \<ge> length (link_sync_states (materialized n)) then Some NotStarted
       else do {
         state \<leftarrow> ptr_load (link_sync_states (materialized n) ! index);
         Some (initial_sync_phase (materialized state)) }}}"

definition SharedNode_Load :: "nat \<Rightarrow> shared_layer \<Rightarrow> shared_fields \<Rightarrow> load_error + shared_fields" where
  "SharedNode_Load version layer s =
     (if version = 2 then Inr (s\<lparr> shares := fst layer, link_sync_states := snd layer \<rparr>)
      else Inl (UnsupportedVersion version))"

section \<open>LinkSyncState as a node class and as a state machine\<close>

lemma LinkSyncState_ops_simps [simp]:
  "ops_can_apply (LinkSyncState_ops ae missing) = LinkSyncState_CanApply ae"
  "ops_apply (LinkSyncState_ops ae missing) = LinkSyncState_Apply ae"
  "ops_save (LinkSyncState_ops ae missing) s = s"
  "ops_load (LinkSyncState_ops ae missing) (Some l) s = l"
  "ops_restore (LinkSyncState_ops ae missing) old s = s"
  by (simp_all add: LinkSyncState_ops_def)

lemma link_sync_class: "node_class (LinkSyncState_ops ae missing) id"
  by (rule node_class.intro) (simp_all only: LinkSyncState_ops_simps id_apply)

interpretation link_sync: node_class "LinkSyncState_ops ae missing" id for ae missing
  by (rule link_sync_class)

lemma note_delivered_eq:
  "note_delivered ident s = s\<lparr> delivered_event_ids :=
     delivered_event_ids s @ (if ident \<in> set (delivered_event_ids s) then [] else [ident]) \<rparr>"
  by (simp add: note_delivered_def HasDelivered_def)

text \<open>Recording a list of identities extends the delivered list by those it lacked, each once.\<close>

lemma fold_deliver:
  assumes "\<And>ident s. f ident s = (if P ident then note_delivered ident s else s)"
  shows "\<exists>d. fold f ids s = s\<lparr> delivered_event_ids := delivered_event_ids s @ d \<rparr> \<and>
    set d = {i \<in> set ids. P i} - set (delivered_event_ids s) \<and> distinct d"
proof (induction ids arbitrary: s)
  case Nil
  show ?case by simp
next
  case (Cons a ids)
  obtain d where d: "fold f ids (f a s) = (f a s)\<lparr> delivered_event_ids := delivered_event_ids (f a s) @ d \<rparr>"
    "set d = {i \<in> set ids. P i} - set (delivered_event_ids (f a s))" "distinct d"
    using Cons by blast
  show ?case
  proof (cases "P a \<and> a \<notin> set (delivered_event_ids s)")
    case True
    then have fa: "f a s = s\<lparr> delivered_event_ids := delivered_event_ids s @ [a] \<rparr>"
      unfolding assms note_delivered_eq by simp
    have "fold f (a # ids) s = s\<lparr> delivered_event_ids := delivered_event_ids s @ (a # d) \<rparr>"
      using d(1) unfolding fold_simps fa by simp
    moreover have "set (a # d) = {i \<in> set (a # ids). P i} - set (delivered_event_ids s)" "distinct (a # d)"
      using d(2,3) True unfolding fa by auto
    ultimately show ?thesis by blast
  next
    case False
    then have fa: "f a s = s" unfolding assms note_delivered_eq by auto
    have "set d = {i \<in> set (a # ids). P i} - set (delivered_event_ids s)"
      using d(2) False unfolding fa by auto
    then show ?thesis using d(1,3) unfolding fold_simps fa by blast
  qed
qed

lemma fold_note_delivered:
  "\<exists>d. fold note_delivered ids s = s\<lparr> delivered_event_ids := delivered_event_ids s @ d \<rparr> \<and>
    set d = set ids - set (delivered_event_ids s) \<and> distinct d"
  using fold_deliver [of note_delivered "\<lambda>i. True" ids s] by simp

lemma fold_note_named:
  "\<exists>d. fold (\<lambda>ident s. if origin_uid ident \<noteq> [] then note_delivered ident s else s) ids s =
      s\<lparr> delivered_event_ids := delivered_event_ids s @ d \<rparr> \<and>
    set d = {i \<in> set ids. origin_uid i \<noteq> []} - set (delivered_event_ids s) \<and> distinct d"
  by (rule fold_deliver) simp

text \<open>What every applied event keeps: deliveries are never forgotten and never doubled; only the
  explicit phase event can leave Complete.\<close>

lemma LinkSyncState_Apply_delivered:
  assumes "LinkSyncState_Apply ae i e s = Some (s', k)"
  shows "\<exists>d. delivered_event_ids s' = delivered_event_ids s @ d \<and> distinct d \<and>
    set d \<inter> set (delivered_event_ids s) = {}"
  using assms
proof (cases e)
  case CompleteInitialSyncEvent
  let ?s = "s\<lparr> initial_sync_phase := Complete, pending_initial_packet_id := ae_null ae, pending_initial_packet := [] \<rparr>"
  show ?thesis using assms CompleteInitialSyncEvent
    fold_note_delivered [of "pending_initial_covered_event_ids s" ?s] by (auto simp: Let_def)
next
  case (CompleteFromReceivedSnapshotEvent ids)
  show ?thesis using assms CompleteFromReceivedSnapshotEvent
    fold_note_named [of ids "s\<lparr> initial_sync_phase := Complete \<rparr>"] by (auto simp: Let_def)
qed (auto simp: note_delivered_eq split: if_splits)

lemma LinkSyncState_Apply_phase:
  assumes "LinkSyncState_Apply ae i e s = Some (s', k)" "\<And>p. e \<noteq> SetLinkInitialSyncPhaseEvent p"
  shows "initial_sync_phase s' = initial_sync_phase s \<or> initial_sync_phase s' = Complete \<or>
    initial_sync_phase s = NotStarted \<and> initial_sync_phase s' = Pending"
  using assms
proof (cases e)
  case CompleteInitialSyncEvent
  let ?s = "s\<lparr> initial_sync_phase := Complete, pending_initial_packet_id := ae_null ae, pending_initial_packet := [] \<rparr>"
  show ?thesis using assms CompleteInitialSyncEvent
    fold_note_delivered [of "pending_initial_covered_event_ids s" ?s] by (auto simp: Let_def)
next
  case (CompleteFromReceivedSnapshotEvent ids)
  show ?thesis using assms CompleteFromReceivedSnapshotEvent
    fold_note_named [of ids "s\<lparr> initial_sync_phase := Complete \<rparr>"] by (auto simp: Let_def)
qed (auto simp: note_delivered_eq split: if_splits)

text \<open>A sync state that can take another commit: its invariant holds and its journal has room.\<close>

definition sync_node_ok :: "aether \<Rightarrow> (link_sync_state \<Rightarrow> link_sync_state) \<Rightarrow> link_sync_node \<Rightarrow> bool" where
  "sync_node_ok ae missing n \<longleftrightarrow> node_inv (LinkSyncState_ops ae missing) id n \<and>
     length (journal n) < kJournalFullyMaterialized \<and> (journal n = [] \<or> timestamp_us (last (journal n)) \<noteq> -1)"

lemma sync_commit_runs:
  assumes "sync_node_ok ae missing n" "ce_now1 cenv \<noteq> 0" "LinkSyncState_CanApply ae e (materialized n)"
    and "LinkSyncState_Apply ae (ce_event_id cenv) e (materialized n) = Some (s', k)"
  shows "\<exists>n'. Commit (LinkSyncState_ops ae missing) cenv e n = Some n' \<and> materialized n' = s' \<and>
    node_inv (LinkSyncState_ops ae missing) id n' \<and> length (journal n') = Suc (length (journal n)) \<and>
    timestamp_us (last (journal n')) = commit_timestamp (ce_now1 cenv) n"
proof -
  let ?ev = "new_event cenv (node_domain n) e"
  have p: "ptr_valid ?ev" "ptr_object ?ev = Some e" "ptr_domain ?ev = node_domain n" "ptr_id ?ev = ce_event_id cenv"
    by (simp_all add: new_event_def)
  have "\<exists>n' r. CommitInto (LinkSyncState_ops ae missing) (ce_now1 cenv) (ce_now2 cenv) (ce_now3 cenv) ?ev n = Some n' \<and>
    node_inv (LinkSyncState_ops ae missing) id n' \<and>
    materialized n' = s' \<and> journal n' = journal n @ [r] \<and> event r = ?ev \<and> \<not> HasSharedIdentity r \<and>
    timestamp_us r = commit_timestamp (ce_now1 cenv) n"
    by (rule link_sync.commit_runs [OF _ _ p(1-3)]) (use assms in \<open>simp_all add: sync_node_ok_def p\<close>)
  then show ?thesis by (auto simp: Commit_def)
qed

section \<open>SharedNode as a node class\<close>

definition sn_env_ok :: "sn_env \<Rightarrow> bool" where
  "sn_env_ok env \<longleftrightarrow> sn_domain env \<noteq> None \<and> (\<forall>i. fst (sn_mint env i) \<noteq> snd (sn_mint env i))"

text \<open>The created state is live, with a base of its own.\<close>

lemma create_link_sync_node_ok:
  assumes "sn_env_ok env"
  obtains n where "create_link_sync_node env i link = Some n"
    "materialized n = (default_link_sync_state (sn_ae env))\<lparr> ls_share_id := i, ls_link := link \<rparr>"
    "node_inv (LinkSyncState_ops (sn_ae env) (sn_missing_sync env)) id n" "node_obj_id n = fst (sn_mint env i)"
    "node_domain n = sn_domain env" "journal n = []"
proof -
  have d: "sn_domain env \<noteq> None" "snd (sn_mint env i) \<noteq> fst (sn_mint env i)"
    using assms by (simp_all add: sn_env_ok_def) (metis)
  have "\<exists>n. create_link_sync_node env i link = Some n \<and>
    materialized n = (default_link_sync_state (sn_ae env))\<lparr> ls_share_id := i, ls_link := link \<rparr> \<and>
    node_inv (LinkSyncState_ops (sn_ae env) (sn_missing_sync env)) id n \<and> node_obj_id n = fst (sn_mint env i) \<and>
    node_domain n = sn_domain env \<and> journal n = []"
    using d
    by (auto simp: create_link_sync_node_def InitializeRuntimeNode_def CaptureBaseStateInto_def Let_def
        fresh_link_sync_node_def node_inv_def node_live_def journal_sorted_def shared_ids_def consistent_def
        LinkSyncState_ops_def default_link_sync_state_def)
  then show thesis using that by blast
qed

lemma SharedNode_Apply_shares:
  assumes "sn_env_ok env" "shares s = shares t"
  shows "map_option (shares \<circ> fst) (SharedNode_Apply env i e s) = map_option (shares \<circ> fst) (SharedNode_Apply env i e t)"
proof (cases e)
  case (AddShareEvent link access)
  obtain n where "create_link_sync_node env i link = Some n"
    using create_link_sync_node_ok [OF assms(1)] by blast
  then show ?thesis using assms(2) AddShareEvent
    by (auto simp: FindShareIndexForShare_def FindShareIndex_def Let_def)
qed (use assms(2) in \<open>auto simp: FindShareIndexForShare_def Let_def\<close>)

lemma SharedNode_ops_simps [simp]:
  "ops_can_apply (SharedNode_ops env) e s" "ops_apply (SharedNode_ops env) = SharedNode_Apply env"
  "ops_save (SharedNode_ops env) s = (shares s, link_sync_states s)"
  "ops_restore (SharedNode_ops env) = stash_restore"
  "ops_load (SharedNode_ops env) (Some (sh, ls)) s = s\<lparr> shares := sh, link_sync_states := ls \<rparr>"
  by (simp_all add: SharedNode_ops_def)

lemma shared_node_class:
  assumes "sn_env_ok env"
  shows "node_class (SharedNode_ops env) shares"
proof
  show "map_option (shares \<circ> fst) (ops_apply (SharedNode_ops env) i e s) =
      map_option (shares \<circ> fst) (ops_apply (SharedNode_ops env) i e t)" if "shares s = shares t" for s t i e
    using SharedNode_Apply_shares [OF assms that] by simp
qed (simp_all add: stash_restore_def)

section \<open>Topology\<close>

definition topology_ok :: "'x shared_fields_scheme \<Rightarrow> bool" where
  "topology_ok s \<longleftrightarrow> distinct (map share_id (shares s)) \<and>
     distinct (map (\<lambda>sh. ptr_id (share_link sh)) (shares s)) \<and> (\<forall>sh\<in>set (shares s). ptr_valid (share_link sh))"

definition sync_covered :: "'x shared_fields_scheme \<Rightarrow> bool" where
  "sync_covered s \<longleftrightarrow> (\<forall>sh\<in>set (shares s). \<exists>entry\<in>set (link_sync_states s). sync_entry_for (share_id sh) entry)"

lemma FindShareIndexForShare_none:
  "FindShareIndexForShare i s = length (shares s) \<longleftrightarrow> i \<notin> share_id ` set (shares s)"
  by (auto simp: FindShareIndexForShare_def find_index_length_iff)

lemma FindShareIndexForShare_some:
  "FindShareIndexForShare i s < length (shares s) \<longleftrightarrow> i \<in> share_id ` set (shares s)"
  by (auto simp: FindShareIndexForShare_def)

lemma FindShareIndexForShare_nth:
  "FindShareIndexForShare i s < length (shares s) \<Longrightarrow> share_id (shares s ! FindShareIndexForShare i s) = i"
  unfolding FindShareIndexForShare_def by (rule find_index_nth)

lemma sync_entry_for_unique: "sync_entry_for i e \<Longrightarrow> sync_entry_for j e \<Longrightarrow> i = j"
  by (auto simp: sync_entry_for_def split: option.splits)

lemma sync_node_ptr_entry:
  "sync_entry_for i (sync_node_ptr n) \<longleftrightarrow> ls_share_id (materialized n) = i"
  by (simp add: sync_entry_for_def sync_node_ptr_def)

lemma FindShareIndex_none:
  "FindShareIndex l s = length (shares s) \<longleftrightarrow>
     (\<forall>sh\<in>set (shares s). \<not> (ptr_valid (share_link sh) \<and> ptr_id (share_link sh) = l))"
  by (auto simp: FindShareIndex_def find_index_length_iff)

lemma FindShareIndex_le [simp]: "FindShareIndex l s \<le> length (shares s)"
  by (simp add: FindShareIndex_def)

lemma FindLinkSyncIndexForShare_le [simp]: "FindLinkSyncIndexForShare i s \<le> length (link_sync_states s)"
  by (simp add: FindLinkSyncIndexForShare_def)

text \<open>The three transitions as equations on the two lists.\<close>

lemma SharedNode_Apply_Add:
  assumes "sn_env_ok env" "SharedNode_Apply env i (AddShareEvent link access) s = Some (s', k)"
  shows "k = 1 \<and> shares s' = shares s @ [\<lparr> share_id = i, share_link = link, share_access = access \<rparr>] \<and>
    i \<notin> share_id ` set (shares s) \<and> ptr_valid link \<and> FindShareIndex (ptr_id link) s = length (shares s) \<and>
    (\<exists>entry\<in>set (link_sync_states s'). sync_entry_for i entry) \<and>
    set (link_sync_states s) \<subseteq> set (link_sync_states s')"
proof -
  obtain n where n: "create_link_sync_node env i link = Some n"
      "materialized n = (default_link_sync_state (sn_ae env))\<lparr> ls_share_id := i, ls_link := link \<rparr>"
    using create_link_sync_node_ok [OF assms(1)] by blast
  have e: "sync_entry_for i (sync_node_ptr n)" by (simp add: sync_node_ptr_entry n(2))
  show ?thesis
    using assms(2) n(1) e FindShareIndexForShare_none [of i s]
    by (auto simp: Let_def FindLinkSyncIndexForShare_def not_le split: if_splits)
qed

lemma SharedNode_Apply_Remove:
  assumes "SharedNode_Apply env i (RemoveShareEvent sid) s = Some (s', k)"
  shows "k = 1 \<and> shares s' = erase_at (FindShareIndexForShare sid s) (shares s) \<and>
    FindShareIndexForShare sid s < length (shares s) \<and>
    (link_sync_states s' = link_sync_states s \<or>
     (FindLinkSyncIndexForShare sid s < length (link_sync_states s) \<and>
      link_sync_states s' = erase_at (FindLinkSyncIndexForShare sid s) (link_sync_states s)))"
  using assms by (auto simp: Let_def FindLinkSyncIndexForShare_def split: if_splits)

lemma topology_ok_Apply [inv_intros]:
  assumes "sn_env_ok env" "topology_ok s" "SharedNode_Apply env i e s = Some (s', k)"
  shows "topology_ok s'"
proof (cases e)
  case (AddShareEvent link access)
  note a = SharedNode_Apply_Add [OF assms(1) assms(3) [unfolded AddShareEvent]]
  then show ?thesis using assms(2) by (auto simp: topology_ok_def FindShareIndex_none)
next
  case (RemoveShareEvent sid)
  note r = SharedNode_Apply_Remove [OF assms(3) [unfolded RemoveShareEvent]]
  then show ?thesis using assms(2) set_erase_at_subset [of "FindShareIndexForShare sid s" "shares s"]
    by (auto simp: topology_ok_def map_erase_at intro: distinct_erase_at)
next
  case (ChangeShareAccessEvent sid access)
  let ?j = "FindShareIndexForShare sid s"
  have s': "s' = s\<lparr> shares := (shares s)[?j := (shares s ! ?j)\<lparr> share_access := access \<rparr>] \<rparr>" "?j < length (shares s)"
    using assms(3) ChangeShareAccessEvent by (auto simp: Let_def split: if_splits)
  have "map share_id (shares s') = map share_id (shares s)"
    "map (\<lambda>sh. ptr_id (share_link sh)) (shares s') = map (\<lambda>sh. ptr_id (share_link sh)) (shares s)"
    "map (\<lambda>sh. ptr_valid (share_link sh)) (shares s') = map (\<lambda>sh. ptr_valid (share_link sh)) (shares s)"
    using s' by (auto simp: map_update list_update_same_conv)
  then show ?thesis using assms(2) unfolding topology_ok_def
    by (metis (mono_tags, lifting) in_set_conv_nth length_map nth_map)
qed

lemma sync_covered_Apply [inv_intros]:
  assumes "sn_env_ok env" "topology_ok s" "sync_covered s" "SharedNode_Apply env i e s = Some (s', k)"
  shows "sync_covered s'"
proof (cases e)
  case (AddShareEvent link access)
  note a = SharedNode_Apply_Add [OF assms(1) assms(4) [unfolded AddShareEvent]]
  then show ?thesis using assms(3) by (fastforce simp: sync_covered_def)
next
  case (RemoveShareEvent sid)
  note r = SharedNode_Apply_Remove [OF assms(4) [unfolded RemoveShareEvent]]
  let ?j = "FindShareIndexForShare sid s" and ?l = "FindLinkSyncIndexForShare sid s"
  have rest: "share_id sh \<noteq> sid \<and> sh \<in> set (shares s)" if "sh \<in> set (shares s')" for sh
  proof -
    have d: "distinct (map share_id (shares s))" using assms(2) by (simp add: topology_ok_def)
    have "share_id sh \<in> set (erase_at ?j (map share_id (shares s)))"
      using that r by (metis image_eqI list.set_map map_erase_at)
    then have "share_id sh \<noteq> map share_id (shares s) ! ?j"
      using erase_at_not_mem [OF d] r by auto
    then show ?thesis using FindShareIndexForShare_nth r that set_erase_at_subset [of ?j "shares s"] by auto
  qed
  have keep: "entry \<in> set (link_sync_states s')"
    if "entry \<in> set (link_sync_states s)" "sync_entry_for (share_id sh) entry" "share_id sh \<noteq> sid" for entry sh
  proof (cases "link_sync_states s' = link_sync_states s")
    case False
    then have l: "?l < length (link_sync_states s)" "link_sync_states s' = erase_at ?l (link_sync_states s)"
      using r by auto
    have "sync_entry_for sid (link_sync_states s ! ?l)"
      using l(1) unfolding FindLinkSyncIndexForShare_def by (rule find_index_nth)
    then have "entry \<noteq> link_sync_states s ! ?l" using that sync_entry_for_unique by blast
    then show ?thesis using that(1) l by (simp add: set_erase_at_other)
  qed (use that in simp)
  show ?thesis unfolding sync_covered_def
  proof
    fix sh assume "sh \<in> set (shares s')"
    then obtain entry where "entry \<in> set (link_sync_states s)" "sync_entry_for (share_id sh) entry" "share_id sh \<noteq> sid"
      using rest assms(3) by (auto simp: sync_covered_def)
    then show "\<exists>entry\<in>set (link_sync_states s'). sync_entry_for (share_id sh) entry" using keep by blast
  qed
next
  case (ChangeShareAccessEvent sid access)
  let ?j = "FindShareIndexForShare sid s"
  have s': "s' = s\<lparr> shares := (shares s)[?j := (shares s ! ?j)\<lparr> share_access := access \<rparr>] \<rparr>" "?j < length (shares s)"
    using assms(4) ChangeShareAccessEvent by (auto simp: Let_def split: if_splits)
  have "map share_id (shares s') = map share_id (shares s)"
    using s' by (simp add: map_update list_update_same_conv)
  then have "share_id ` set (shares s') = share_id ` set (shares s)" by (metis list.set_map)
  moreover have "link_sync_states s' = link_sync_states s" using s' by simp
  ultimately show ?thesis using assms(3) unfolding sync_covered_def by (metis (no_types, lifting) imageE imageI)
qed

section \<open>A sample relationship\<close>

text \<open>A synchronization state as AddShareEvent creates it, and readings of the clock.\<close>

definition sample_sn_env :: sn_env where
  "sample_sn_env = \<lparr> sn_ae = sample_aether, sn_domain = Some 0, sn_mint = (\<lambda>i. (i + 100, i + 200)),
     sn_missing_sync = id, sn_missing = id \<rparr>"

definition sample_link :: "link_obj obj_ptr" where
  "sample_link = \<lparr> ptr_valid = True, ptr_id = 9, ptr_domain = Some 0,
     ptr_object = Some (MemoryLink ''bob'' 1000), ptr_stored = None \<rparr>"

definition sample_sync_node :: link_sync_node where
  "sample_sync_node = the (create_link_sync_node sample_sn_env 7 sample_link)"

definition sample_cenv :: commit_env where
  "sample_cenv = \<lparr> ce_event_id = 40, ce_now1 = 1000, ce_now2 = 1001, ce_now3 = 1002 \<rparr>"

abbreviation "sample_sync_ops \<equiv> LinkSyncState_ops sample_aether id"

lemma sample_sn_env_ok [simp]: "sn_env_ok sample_sn_env"
  by (simp add: sn_env_ok_def sample_sn_env_def)

lemma sample_sync_node_eq:
  "sample_sync_node = \<lparr> node_obj_id = 107, node_domain = Some 0,
     materialized = (default_link_sync_state sample_aether)\<lparr> ls_share_id := 7, ls_link := sample_link \<rparr>,
     base = \<lparr> ptr_valid = True, ptr_id = 207, ptr_domain = Some 0,
       ptr_object = Some ((default_link_sync_state sample_aether)\<lparr> ls_share_id := 7, ls_link := sample_link \<rparr>),
       ptr_stored = None \<rparr>,
     base_layer = Some ((default_link_sync_state sample_aether)\<lparr> ls_share_id := 7, ls_link := sample_link \<rparr>),
     journal = [], generation = 1,
     applied_journal_size = kJournalFullyMaterialized, journal_retention_policy = default_retention,
     journal_compaction_blocked = False, suppress_materialized_change = False,
     materialized_change_fn = False, notifications = 0 \<rparr>"
  by (simp add: sample_sync_node_def create_link_sync_node_def InitializeRuntimeNode_def CaptureBaseStateInto_def
      Let_def fresh_link_sync_node_def sample_sn_env_def null_ptr_def LinkSyncState_ops_def
      default_link_sync_state_def)

lemma sample_sync_node_inv: "node_inv sample_sync_ops id sample_sync_node"
  by (auto simp: sample_sync_node_eq node_inv_def node_live_def journal_sorted_def shared_ids_def consistent_def
      is_loaded_def)

end
