(* ===== verification/Lifecycle.thy ===== *)
theory Lifecycle
  imports SharedNode
begin

text \<open>
  The runtime lifecycle nodes (src/include/apptraverse/runtime_lifecycle.h and
  src/src/runtime_lifecycle.cpp): the process run, the network availability observed in it and the
  Aether registration made in it.  Each is an event-sourced node whose fields are its view.  A stored
  enumeration is its byte.
\<close>

section \<open>States and events\<close>

definition kInitializing :: u8 where "kInitializing = 0"
definition kInterfaceUnavailable :: u8 where "kInterfaceUnavailable = 1"
definition kInternetUnavailable :: u8 where "kInternetUnavailable = 2"
definition kAvailable :: u8 where "kAvailable = 3"
definition kRegistering :: u8 where "kRegistering = 0"
definition kRegistered :: u8 where "kRegistered = 1"

definition NetworkIsOutage :: "u8 \<Rightarrow> bool" where
  "NetworkIsOutage availability \<longleftrightarrow> availability = kInterfaceUnavailable \<or> availability = kInternetUnavailable"

record application_state =
  app_run_id :: u64

record network_state =
  net_run_id :: u64
  availability :: u8

record registration_state =
  reg_run_id :: u64
  registered_run_id :: u64
  reg_phase :: u8
  reg_uid :: string

definition initial_application :: application_state where
  "initial_application = \<lparr> app_run_id = 0 \<rparr>"

definition initial_network :: network_state where
  "initial_network = \<lparr> net_run_id = 0, availability = kInitializing \<rparr>"

definition initial_registration :: registration_state where
  "initial_registration = \<lparr> reg_run_id = 0, registered_run_id = 0, reg_phase = kRegistering, reg_uid = [] \<rparr>"

definition IsRegisteredForCurrentRun :: "registration_state \<Rightarrow> bool" where
  "IsRegisteredForCurrentRun s \<longleftrightarrow>
     reg_phase s = kRegistered \<and> registered_run_id s = reg_run_id s \<and> reg_uid s \<noteq> []"

definition CurrentUid :: "registration_state \<Rightarrow> string" where
  "CurrentUid s = (if \<not> IsRegisteredForCurrentRun s then [] else reg_uid s)"

datatype application_event = ApplicationStartedEvent u64

datatype network_event =
    NetworkInitializingEvent u64
  | NetworkInterfaceUnavailableEvent u64
  | InternetUnavailableEvent u64
  | NetworkAvailableEvent u64

datatype registration_event =
    AetherRegistrationStartedEvent u64
  | AetherRegistrationCompletedEvent u64 string

section \<open>CanApply and Apply\<close>

fun Application_CanApply :: "application_event \<Rightarrow> application_state \<Rightarrow> bool" where
  "Application_CanApply (ApplicationStartedEvent run) s \<longleftrightarrow> run \<noteq> 0 \<and> run \<noteq> app_run_id s"

fun Application_Apply :: "application_event \<Rightarrow> application_state \<Rightarrow> (application_state \<times> nat) option" where
  "Application_Apply (ApplicationStartedEvent run) s = do {
     assert_that (Application_CanApply (ApplicationStartedEvent run) s);
     Some (s\<lparr> app_run_id := run \<rparr>, 1) }"

fun Network_CanApply :: "network_event \<Rightarrow> network_state \<Rightarrow> bool" where
  "Network_CanApply (NetworkInitializingEvent run) s \<longleftrightarrow>
     run \<noteq> 0 \<and> (run \<noteq> net_run_id s \<or> availability s \<noteq> kInitializing)"
| "Network_CanApply (NetworkInterfaceUnavailableEvent run) s \<longleftrightarrow>
     run \<noteq> 0 \<and> run = net_run_id s \<and> availability s \<noteq> kInterfaceUnavailable"
| "Network_CanApply (InternetUnavailableEvent run) s \<longleftrightarrow>
     run \<noteq> 0 \<and> run = net_run_id s \<and> availability s \<noteq> kInternetUnavailable"
| "Network_CanApply (NetworkAvailableEvent run) s \<longleftrightarrow>
     run \<noteq> 0 \<and> run = net_run_id s \<and> availability s \<noteq> kAvailable"

fun Network_Apply :: "network_event \<Rightarrow> network_state \<Rightarrow> (network_state \<times> nat) option" where
  "Network_Apply (NetworkInitializingEvent run) s = do {
     assert_that (Network_CanApply (NetworkInitializingEvent run) s);
     Some (s\<lparr> net_run_id := run, availability := kInitializing \<rparr>, 1) }"
| "Network_Apply (NetworkInterfaceUnavailableEvent run) s = do {
     assert_that (Network_CanApply (NetworkInterfaceUnavailableEvent run) s);
     Some (s\<lparr> availability := kInterfaceUnavailable \<rparr>, 1) }"
| "Network_Apply (InternetUnavailableEvent run) s = do {
     assert_that (Network_CanApply (InternetUnavailableEvent run) s);
     Some (s\<lparr> availability := kInternetUnavailable \<rparr>, 1) }"
| "Network_Apply (NetworkAvailableEvent run) s = do {
     assert_that (Network_CanApply (NetworkAvailableEvent run) s);
     Some (s\<lparr> availability := kAvailable \<rparr>, 1) }"

fun Registration_CanApply :: "registration_event \<Rightarrow> registration_state \<Rightarrow> bool" where
  "Registration_CanApply (AetherRegistrationStartedEvent run) s \<longleftrightarrow>
     run \<noteq> 0 \<and> (run \<noteq> reg_run_id s \<or> reg_phase s \<noteq> kRegistering)"
| "Registration_CanApply (AetherRegistrationCompletedEvent run uid) s \<longleftrightarrow>
     (if uid = [] then False
      else if reg_run_id s \<noteq> 0 \<and> run \<noteq> 0 \<and> run \<noteq> reg_run_id s then False
      else \<not> IsRegisteredForCurrentRun s \<or> reg_uid s \<noteq> uid)"

fun Registration_Apply :: "registration_event \<Rightarrow> registration_state \<Rightarrow> (registration_state \<times> nat) option" where
  "Registration_Apply (AetherRegistrationStartedEvent run) s = do {
     assert_that (Registration_CanApply (AetherRegistrationStartedEvent run) s);
     Some (s\<lparr> reg_run_id := run, reg_phase := kRegistering \<rparr>, 1) }"
| "Registration_Apply (AetherRegistrationCompletedEvent run uid) s = do {
     assert_that (Registration_CanApply (AetherRegistrationCompletedEvent run uid) s);
     let s = (if reg_run_id s = 0 then s\<lparr> reg_run_id := run \<rparr> else s);
     Some (s\<lparr> registered_run_id := run, reg_uid := uid, reg_phase := kRegistered \<rparr>, 1) }"

text \<open>Version 2 of each layout lists every field; older versions throw.\<close>

definition lifecycle_ops ::
  "('e \<Rightarrow> 's \<Rightarrow> bool) \<Rightarrow> ('e \<Rightarrow> 's \<Rightarrow> ('s \<times> nat) option) \<Rightarrow> ('s \<Rightarrow> 's) \<Rightarrow> ('s, 'e, 's) node_ops" where
  "lifecycle_ops can app missing = \<lparr> ops_can_apply = can, ops_apply = (\<lambda>i. app),
     ops_matches = (\<lambda>e ident ts. True), ops_save = (\<lambda>s. s),
     ops_load = (\<lambda>layer s. case layer of Some l \<Rightarrow> l | None \<Rightarrow> missing s), ops_restore = (\<lambda>old s. s) \<rparr>"

definition Lifecycle_Load :: "nat \<Rightarrow> 's \<Rightarrow> load_error + 's" where
  "Lifecycle_Load version layer = (if version = 2 then Inr layer else Inl (UnsupportedVersion version))"

abbreviation "Application_ops \<equiv> lifecycle_ops Application_CanApply Application_Apply"
abbreviation "Network_ops \<equiv> lifecycle_ops Network_CanApply Network_Apply"
abbreviation "Registration_ops \<equiv> lifecycle_ops Registration_CanApply Registration_Apply"

type_synonym application_node = "(application_state, application_event, application_state) node"
type_synonym network_node = "(network_state, network_event, network_state) node"
type_synonym registration_node = "(registration_state, registration_event, registration_state) node"

section \<open>Commits\<close>

text \<open>The common shape: create the event, ask CanApply, commit.\<close>

definition commit_if_applicable ::
  "('s, 'e, 'b) node_ops \<Rightarrow> commit_env \<Rightarrow> 'e \<Rightarrow> ('s, 'e, 'b) node \<Rightarrow> (bool \<times> ('s, 'e, 'b) node) option" where
  "commit_if_applicable ops cenv e n =
     (if \<not> ops_can_apply ops e (materialized n) then Some (False, n)
      else do { n \<leftarrow> Commit ops cenv e n; Some (True, n) })"

definition CommitApplicationStarted ::
  "(application_state \<Rightarrow> application_state) \<Rightarrow> commit_env \<Rightarrow> u64 \<Rightarrow> application_node \<Rightarrow> (bool \<times> application_node) option" where
  "CommitApplicationStarted missing cenv run n =
     commit_if_applicable (Application_ops missing) cenv (ApplicationStartedEvent run) n"

definition CommitNetworkInitializing ::
  "(network_state \<Rightarrow> network_state) \<Rightarrow> commit_env \<Rightarrow> u64 \<Rightarrow> network_node \<Rightarrow> (bool \<times> network_node) option" where
  "CommitNetworkInitializing missing cenv run n =
     commit_if_applicable (Network_ops missing) cenv (NetworkInitializingEvent run) n"

definition CommitNetworkInterfaceUnavailable ::
  "(network_state \<Rightarrow> network_state) \<Rightarrow> commit_env \<Rightarrow> u64 \<Rightarrow> network_node \<Rightarrow> (bool \<times> network_node) option" where
  "CommitNetworkInterfaceUnavailable missing cenv run n =
     commit_if_applicable (Network_ops missing) cenv (NetworkInterfaceUnavailableEvent run) n"

definition CommitInternetUnavailable ::
  "(network_state \<Rightarrow> network_state) \<Rightarrow> commit_env \<Rightarrow> u64 \<Rightarrow> network_node \<Rightarrow> (bool \<times> network_node) option" where
  "CommitInternetUnavailable missing cenv run n =
     commit_if_applicable (Network_ops missing) cenv (InternetUnavailableEvent run) n"

definition CommitNetworkAvailable ::
  "(network_state \<Rightarrow> network_state) \<Rightarrow> commit_env \<Rightarrow> u64 \<Rightarrow> network_node \<Rightarrow> (bool \<times> network_node) option" where
  "CommitNetworkAvailable missing cenv run n =
     commit_if_applicable (Network_ops missing) cenv (NetworkAvailableEvent run) n"

definition CommitAetherRegistrationStarted ::
  "(registration_state \<Rightarrow> registration_state) \<Rightarrow> commit_env \<Rightarrow> u64 \<Rightarrow> registration_node \<Rightarrow>
   (bool \<times> registration_node) option" where
  "CommitAetherRegistrationStarted missing cenv run n =
     commit_if_applicable (Registration_ops missing) cenv (AetherRegistrationStartedEvent run) n"

definition CommitAetherRegistrationCompleted ::
  "(registration_state \<Rightarrow> registration_state) \<Rightarrow> commit_env \<Rightarrow> string \<Rightarrow> registration_node \<Rightarrow>
   (bool \<times> registration_node) option" where
  "CommitAetherRegistrationCompleted missing cenv uid n =
     (if uid = [] then Some (False, n)
      else commit_if_applicable (Registration_ops missing) cenv
        (AetherRegistrationCompletedEvent (reg_run_id (materialized n)) uid) n)"

definition session_run :: "application_state \<Rightarrow> u64" where
  "session_run s = (let run = app_run_id s + 1 in if run = 0 then 1 else run)"

definition BeginRuntimeSession ::
  "(application_state \<Rightarrow> application_state) \<Rightarrow> (network_state \<Rightarrow> network_state) \<Rightarrow>
   (registration_state \<Rightarrow> registration_state) \<Rightarrow> commit_env \<Rightarrow> commit_env \<Rightarrow> commit_env \<Rightarrow>
   application_node \<Rightarrow> network_node \<Rightarrow> registration_node \<Rightarrow>
   (application_node \<times> network_node \<times> registration_node) option" where
  "BeginRuntimeSession m1 m2 m3 c1 c2 c3 app net reg = do {
     let run = session_run (materialized app);
     (_, app) \<leftarrow> CommitApplicationStarted m1 c1 run app;
     (_, net) \<leftarrow> CommitNetworkInitializing m2 c2 run net;
     (_, reg) \<leftarrow> CommitAetherRegistrationStarted m3 c3 run reg;
     Some (app, net, reg) }"

section \<open>The node class\<close>

lemma lifecycle_ops_simps [simp]:
  "ops_can_apply (lifecycle_ops can app missing) = can" "ops_apply (lifecycle_ops can app missing) i = app"
  "ops_save (lifecycle_ops can app missing) s = s" "ops_load (lifecycle_ops can app missing) (Some l) s = l"
  "ops_restore (lifecycle_ops can app missing) old s = s"
  by (simp_all add: lifecycle_ops_def)

interpretation lifecycle: node_class "lifecycle_ops can app missing" id for can app missing
  by (rule node_class.intro) (simp_all only: lifecycle_ops_simps id_apply)

definition node_ready :: "('s, 'e, 'b) node_ops \<Rightarrow> ('s, 'e, 'b) node \<Rightarrow> bool" where
  "node_ready ops n \<longleftrightarrow> node_inv ops id n \<and> length (journal n) < kJournalFullyMaterialized \<and>
     (journal n = [] \<or> timestamp_us (last (journal n)) \<noteq> -1)"

text \<open>An Apply that asserts only its own CanApply cannot fail once CanApply was asked.\<close>

lemma commit_if_applicable_total:
  assumes ready: "node_ready (lifecycle_ops can app missing) n" and clock: "ce_now1 cenv \<noteq> 0"
    and app: "\<And>s. can e s \<Longrightarrow> app e s = Some (f s, 1)"
  shows "\<exists>n'. commit_if_applicable (lifecycle_ops can app missing) cenv e n = Some (can e (materialized n), n') \<and>
    materialized n' = (if can e (materialized n) then f (materialized n) else materialized n)"
proof (cases "can e (materialized n)")
  case True
  let ?ops = "lifecycle_ops can app missing" and ?ev = "new_event cenv (node_domain n) e"
  have p: "ptr_valid ?ev" "ptr_object ?ev = Some e" "ptr_domain ?ev = node_domain n" by (simp_all add: new_event_def)
  have inv: "node_inv ?ops id n" and len: "length (journal n) < kJournalFullyMaterialized"
    and wrap: "journal n = [] \<or> timestamp_us (last (journal n)) \<noteq> -1"
    using ready by (auto simp: node_ready_def)
  have "\<exists>n' r. CommitInto ?ops (ce_now1 cenv) (ce_now2 cenv) (ce_now3 cenv) ?ev n = Some n' \<and> node_inv ?ops id n' \<and>
    materialized n' = f (materialized n) \<and> journal n' = journal n @ [r] \<and> event r = ?ev \<and> \<not> HasSharedIdentity r \<and>
    timestamp_us r = commit_timestamp (ce_now1 cenv) n"
    by (rule lifecycle.commit_runs [OF inv len p _ _ clock wrap]) (simp_all add: True app)
  then show ?thesis using True by (auto simp: commit_if_applicable_def Commit_def)
qed (simp add: commit_if_applicable_def)

lemma session_run_fresh: "session_run s \<noteq> 0 \<and> session_run s \<noteq> app_run_id s"
proof -
  have "app_run_id s + 1 \<noteq> app_run_id s" by simp
  then show ?thesis by (auto simp: session_run_def Let_def eq_neg_iff_add_eq_0)
qed

section \<open>What a session promises\<close>

text \<open>Beginning a runtime session never fails and leaves nothing of the last run presentable: the run gets a
  new non-zero id, the network is Initializing in that run, and the registration is Registering in it,
  so that no UID is current.\<close>

theorem session_begins_fresh:
  assumes "node_ready (Application_ops m1) app" "node_ready (Network_ops m2) net" "node_ready (Registration_ops m3) reg"
    and "ce_now1 c1 \<noteq> 0" "ce_now1 c2 \<noteq> 0" "ce_now1 c3 \<noteq> 0"
  shows "\<exists>app' net' reg'. BeginRuntimeSession m1 m2 m3 c1 c2 c3 app net reg = Some (app', net', reg') \<and>
    app_run_id (materialized app') = session_run (materialized app) \<and> session_run (materialized app) \<noteq> 0 \<and>
    session_run (materialized app) \<noteq> app_run_id (materialized app) \<and>
    materialized net' = \<lparr> net_run_id = session_run (materialized app), availability = kInitializing \<rparr> \<and>
    reg_run_id (materialized reg') = session_run (materialized app) \<and> CurrentUid (materialized reg') = []"
proof -
  let ?run = "session_run (materialized app)"
  note fresh = session_run_fresh [of "materialized app"]
  obtain app' where app': "CommitApplicationStarted m1 c1 ?run app = Some (True, app')" "app_run_id (materialized app') = ?run"
    using commit_if_applicable_total [where e = "ApplicationStartedEvent ?run" and can = Application_CanApply
        and app = Application_Apply and f = "\<lambda>s. s\<lparr> app_run_id := ?run \<rparr>", OF assms(1,4)] fresh
    by (auto simp: CommitApplicationStarted_def)
  obtain b net' where net': "CommitNetworkInitializing m2 c2 ?run net = Some (b, net')"
      "materialized net' = \<lparr> net_run_id = ?run, availability = kInitializing \<rparr>"
    using commit_if_applicable_total [where e = "NetworkInitializingEvent ?run" and can = Network_CanApply
        and app = Network_Apply and f = "\<lambda>s. s\<lparr> net_run_id := ?run, availability := kInitializing \<rparr>", OF assms(2,5)] fresh
    by (auto simp: CommitNetworkInitializing_def split: if_splits)
  obtain c reg' where reg': "CommitAetherRegistrationStarted m3 c3 ?run reg = Some (c, reg')"
      "reg_run_id (materialized reg') = ?run" "reg_phase (materialized reg') = kRegistering"
    using commit_if_applicable_total [where e = "AetherRegistrationStartedEvent ?run" and can = Registration_CanApply
        and app = Registration_Apply and f = "\<lambda>s. s\<lparr> reg_run_id := ?run, reg_phase := kRegistering \<rparr>", OF assms(3,6)] fresh
    by (auto simp: CommitAetherRegistrationStarted_def split: if_splits)
  have "CurrentUid (materialized reg') = []"
    using reg'(3) by (simp add: CurrentUid_def IsRegisteredForCurrentRun_def kRegistering_def kRegistered_def)
  then show ?thesis using app' net' reg' fresh by (simp add: BeginRuntimeSession_def)
qed

text \<open>A live node over given fields, with nothing in its journal.\<close>

definition lifecycle_sample :: "obj_id \<Rightarrow> 's \<Rightarrow> ('s, 'e, 's) node" where
  "lifecycle_sample i s = \<lparr> node_obj_id = i, node_domain = Some 0, materialized = s,
     base = \<lparr> ptr_valid = True, ptr_id = i + 1, ptr_domain = Some 0, ptr_object = Some s, ptr_stored = None \<rparr>,
     base_layer = Some s, journal = [], generation = 1, applied_journal_size = kJournalFullyMaterialized,
     journal_retention_policy = default_retention, journal_compaction_blocked = False,
     suppress_materialized_change = False, materialized_change_fn = False, notifications = 0 \<rparr>"

lemma lifecycle_sample_ready: "node_ready (lifecycle_ops can app missing) (lifecycle_sample i s)"
  by (simp add: node_ready_def lifecycle_sample_def node_inv_def node_live_def is_loaded_def journal_sorted_def
      shared_ids_def consistent_def kJournalFullyMaterialized_def)

definition sample_registration :: registration_state where
  "sample_registration = \<lparr> reg_run_id = 4, registered_run_id = 4, reg_phase = kRegistered, reg_uid = ''u1'' \<rparr>"

lemma session_begins_fresh_witness:
  "CurrentUid sample_registration = ''u1'' \<and>
    (\<exists>app' net' reg'. BeginRuntimeSession id id id sample_cenv sample_cenv sample_cenv
      (lifecycle_sample 1 \<lparr> app_run_id = 4 \<rparr>) (lifecycle_sample 3 \<lparr> net_run_id = 4, availability = kAvailable \<rparr>)
      (lifecycle_sample 5 sample_registration) = Some (app', net', reg') \<and>
      app_run_id (materialized app') = 5 \<and> CurrentUid (materialized reg') = [])"
proof -
  have c: "ce_now1 sample_cenv \<noteq> 0" by (simp add: sample_cenv_def)
  have m: "materialized (lifecycle_sample i s) = s" for i s by (simp add: lifecycle_sample_def)
  have r: "session_run \<lparr> app_run_id = 4 \<rparr> = 5" "CurrentUid sample_registration = ''u1''"
    by (simp_all add: session_run_def Let_def sample_registration_def CurrentUid_def IsRegisteredForCurrentRun_def)
  show ?thesis
    using session_begins_fresh [of id "lifecycle_sample 1 \<lparr> app_run_id = 4 \<rparr>" id
        "lifecycle_sample 3 \<lparr> net_run_id = 4, availability = kAvailable \<rparr>" id "lifecycle_sample 5 sample_registration",
        OF lifecycle_sample_ready lifecycle_sample_ready lifecycle_sample_ready c c c] r
    unfolding m by auto
qed

text \<open>Completing the registration of the running session makes the UID current, in that run; the same UID a
  second time, or an empty one, changes nothing.\<close>

theorem registration_completes_once:
  assumes "node_ready (Registration_ops missing) n" "ce_now1 cenv \<noteq> 0"
    and "reg_run_id (materialized n) \<noteq> 0" "reg_phase (materialized n) = kRegistering" "uid \<noteq> []"
  shows "\<exists>n'. CommitAetherRegistrationCompleted missing cenv uid n = Some (True, n') \<and>
    CurrentUid (materialized n') = uid \<and> registered_run_id (materialized n') = reg_run_id (materialized n) \<and>
    CommitAetherRegistrationCompleted missing cenv' uid n' = Some (False, n') \<and>
    CommitAetherRegistrationCompleted missing cenv' [] n' = Some (False, n')"
proof -
  let ?run = "reg_run_id (materialized n)" and ?s = "materialized n"
  let ?f = "\<lambda>s. (if reg_run_id s = 0 then s\<lparr> reg_run_id := ?run \<rparr> else s)
      \<lparr> registered_run_id := ?run, reg_uid := uid, reg_phase := kRegistered \<rparr>"
  have ph: "kRegistering \<noteq> kRegistered" by (simp add: kRegistering_def kRegistered_def)
  have can: "Registration_CanApply (AetherRegistrationCompletedEvent ?run uid) ?s"
    using assms(3-5) ph by (simp add: IsRegisteredForCurrentRun_def)
  have step: "Registration_Apply (AetherRegistrationCompletedEvent ?run uid) s = Some (?f s, 1)"
    if "Registration_CanApply (AetherRegistrationCompletedEvent ?run uid) s" for s
    using that by (simp only: Registration_Apply.simps assert_that_def Let_def if_True Option.bind.bind_lunit)
  have "\<exists>n'. commit_if_applicable (Registration_ops missing) cenv (AetherRegistrationCompletedEvent ?run uid) n =
      Some (True, n') \<and> materialized n' = ?f ?s"
    using commit_if_applicable_total [where f = ?f, OF assms(1,2) step] by (simp only: can if_True)
  then obtain n' where n': "CommitAetherRegistrationCompleted missing cenv uid n = Some (True, n')" "materialized n' = ?f ?s"
    using assms(5) by (auto simp: CommitAetherRegistrationCompleted_def)
  then have m: "materialized n' = ?s\<lparr> registered_run_id := ?run, reg_uid := uid, reg_phase := kRegistered \<rparr>"
    using assms(3) by simp
  then have r: "IsRegisteredForCurrentRun (materialized n')" using assms(5) by (simp add: IsRegisteredForCurrentRun_def)
  then have again: "CommitAetherRegistrationCompleted missing cenv' uid n' = Some (False, n')"
    using m by (simp add: CommitAetherRegistrationCompleted_def commit_if_applicable_def)
  have "CurrentUid (materialized n') = uid" "registered_run_id (materialized n') = ?run"
    using r m by (simp_all add: CurrentUid_def)
  then show ?thesis using n'(1) again by (auto simp: CommitAetherRegistrationCompleted_def)
qed

lemma registration_completes_once_witness:
  "\<exists>n'. CommitAetherRegistrationCompleted id sample_cenv ''u2''
      (lifecycle_sample 5 (sample_registration\<lparr> reg_phase := kRegistering \<rparr>)) = Some (True, n') \<and>
    CurrentUid (materialized n') = ''u2''"
proof -
  let ?n = "lifecycle_sample 5 (sample_registration\<lparr> reg_phase := kRegistering \<rparr>) :: registration_node"
  have h: "ce_now1 sample_cenv \<noteq> 0" "reg_run_id (materialized ?n) \<noteq> 0" "reg_phase (materialized ?n) = kRegistering"
      "''u2'' \<noteq> []" by (simp_all add: sample_cenv_def lifecycle_sample_def sample_registration_def)
  show ?thesis using registration_completes_once [OF lifecycle_sample_ready h] by blast
qed

end
