(* ===== verification/ChatModel.thy ===== *)
theory ChatModel
  imports Lifecycle
begin

text \<open>
  The data of the chat example (src/examples/chat_demo/common/chat_model.h, chat_model.cpp,
  chat_demo_runtime_state.h, chat_demo_runtime_state.cpp): the fields of ChatRoom, ChatEntry, ChatWorkspace and
  ChatDemoRuntimeState, their events, and what CanApply and Apply do.  Pointers to nodes are object ids, valid as
  \<open>ae_valid\<close> says.  A node of these classes is an instance of the node of Journal; \<open>chat_ops\<close> makes the
  class from CanApply and Apply, and the last section states that a Commit of Journal is, on the fields, the
  partial function \<open>commit_fields\<close> that the commands of ChatCommands use.
\<close>

section \<open>Rooms\<close>

datatype demo_role = kUnconfigured | kHost | kClient

record message_value =
  message_id :: shared_event_id
  message_timestamp_us :: u64
  message_text :: string

definition Room_CanApply :: "message_value \<Rightarrow> bool" where
  "Room_CanApply msg \<longleftrightarrow> \<not> (origin_uid (message_id msg) = [] \<or> origin_sequence (message_id msg) = 0 \<or>
     message_timestamp_us msg = 0 \<or> message_text msg = [])"

definition Room_Apply :: "message_value \<Rightarrow> message_value list \<Rightarrow> message_value list" where
  "Room_Apply msg messages = messages @ [msg]"

definition MatchesSharedMetadata :: "message_value \<Rightarrow> shared_event_id \<Rightarrow> u64 \<Rightarrow> bool" where
  "MatchesSharedMetadata msg ident timestamp \<longleftrightarrow> message_id msg = ident \<and> message_timestamp_us msg = timestamp"

section \<open>Entries\<close>

text \<open>A \<open>double\<close> is its bits; \<open>==\<close> on doubles is false on NaN and identifies the two zeros.\<close>

definition double_nan :: "u64 \<Rightarrow> bool" where
  "double_nan x \<longleftrightarrow> and x 0x7FFFFFFFFFFFFFFF > 0x7FF0000000000000"

definition double_eq :: "u64 \<Rightarrow> u64 \<Rightarrow> bool" where
  "double_eq x y \<longleftrightarrow> \<not> double_nan x \<and> \<not> double_nan y \<and>
     (x = y \<or> and x 0x7FFFFFFFFFFFFFFF = 0 \<and> and y 0x7FFFFFFFFFFFFFFF = 0)"

record scroll_anchor =
  follow_tail :: bool
  first_visible_message :: shared_event_id
  offset_from_message_top :: u64

definition scroll_eq :: "scroll_anchor \<Rightarrow> scroll_anchor \<Rightarrow> bool" where
  "scroll_eq a b \<longleftrightarrow> follow_tail a = follow_tail b \<and> first_visible_message a = first_visible_message b \<and>
     double_eq (offset_from_message_top a) (offset_from_message_top b)"

record chat_entry =
  peer_uid :: string
  display_name :: string
  peer_link :: obj_id
  entry_room :: obj_id
  draft :: string
  scroll :: scroll_anchor

definition new_entry :: "aether \<Rightarrow> chat_entry" where
  "new_entry ae = \<lparr> peer_uid = [], display_name = [], peer_link = ae_null ae, entry_room = ae_null ae, draft = [],
     scroll = \<lparr> follow_tail = True, first_visible_message = \<lparr> origin_uid = [], origin_sequence = 0 \<rparr>,
       offset_from_message_top = 0 \<rparr> \<rparr>"

datatype entry_event =
    ChatBindingChangedEvent obj_id obj_id
  | DraftChangedEvent string
  | ScrollChangedEvent scroll_anchor

text \<open>\<open>endpoint\<close> is EndpointUid of the links.\<close>

fun Entry_CanApply :: "aether \<Rightarrow> (obj_id \<Rightarrow> string) \<Rightarrow> entry_event \<Rightarrow> chat_entry \<Rightarrow> bool" where
  "Entry_CanApply ae endpoint (ChatBindingChangedEvent link room) entry \<longleftrightarrow>
     ae_valid ae link \<and> ae_valid ae room \<and> endpoint link = peer_uid entry"
| "Entry_CanApply ae endpoint e entry \<longleftrightarrow> True"

fun Entry_Apply :: "entry_event \<Rightarrow> chat_entry \<Rightarrow> chat_entry" where
  "Entry_Apply (ChatBindingChangedEvent link room) entry = entry\<lparr> peer_link := link, entry_room := room \<rparr>"
| "Entry_Apply (DraftChangedEvent text) entry = entry\<lparr> draft := text \<rparr>"
| "Entry_Apply (ScrollChangedEvent anchor) entry = entry\<lparr> scroll := anchor \<rparr>"

section \<open>The workspace\<close>

record desktop_bounds =
  bounds_valid :: bool
  bounds_x :: u32
  bounds_y :: u32
  bounds_width :: u32
  bounds_height :: u32
  bounds_maximized :: bool

record chat_workspace =
  demo_role :: demo_role
  host_uid_input :: string
  local_endpoint_uid :: string
  next_message_sequence :: u64
  chats :: "obj_id list"
  selected_chat_id :: obj_id
  desktop_bounds :: desktop_bounds

definition new_workspace :: "aether \<Rightarrow> chat_workspace" where
  "new_workspace ae = \<lparr> demo_role = kUnconfigured, host_uid_input = [], local_endpoint_uid = [],
     next_message_sequence = 1, chats = [], selected_chat_id = ae_null ae,
     desktop_bounds = \<lparr> bounds_valid = False, bounds_x = 0, bounds_y = 0, bounds_width = 1000,
       bounds_height = 700, bounds_maximized = False \<rparr> \<rparr>"

datatype workspace_event =
    ChatEntryAddedEvent obj_id
  | ChatSelectedEvent obj_id
  | LocalEndpointBoundEvent string
  | MessageSequenceReservedEvent u64
  | DesktopBoundsChangedEvent desktop_bounds
  | DemoRoleConfiguredEvent demo_role
  | HostUidInputChangedEvent string

fun Workspace_CanApply :: "aether \<Rightarrow> workspace_event \<Rightarrow> chat_workspace \<Rightarrow> bool" where
  "Workspace_CanApply ae (ChatSelectedEvent i) ws \<longleftrightarrow> ae_valid ae i \<and> (\<exists>entry\<in>set (chats ws). ae_valid ae entry \<and> entry = i)"
| "Workspace_CanApply ae (DemoRoleConfiguredEvent role) ws \<longleftrightarrow> (role = kHost \<or> role = kClient) \<and> demo_role ws = kUnconfigured"
| "Workspace_CanApply ae (HostUidInputChangedEvent text) ws \<longleftrightarrow> demo_role ws = kClient \<and> length text \<le> 128"
| "Workspace_CanApply ae (MessageSequenceReservedEvent n) ws \<longleftrightarrow> n = next_message_sequence ws \<and> n \<noteq> 0 \<and> n \<noteq> -1"
| "Workspace_CanApply ae e ws \<longleftrightarrow> True"

fun Workspace_Apply :: "workspace_event \<Rightarrow> chat_workspace \<Rightarrow> chat_workspace" where
  "Workspace_Apply (ChatEntryAddedEvent entry) ws = ws\<lparr> chats := chats ws @ [entry] \<rparr>"
| "Workspace_Apply (ChatSelectedEvent i) ws = ws\<lparr> selected_chat_id := i \<rparr>"
| "Workspace_Apply (LocalEndpointBoundEvent uid) ws = ws\<lparr> local_endpoint_uid := uid \<rparr>"
| "Workspace_Apply (MessageSequenceReservedEvent n) ws = ws\<lparr> next_message_sequence := n + 1 \<rparr>"
| "Workspace_Apply (DesktopBoundsChangedEvent bounds) ws = ws\<lparr> desktop_bounds := bounds \<rparr>"
| "Workspace_Apply (DemoRoleConfiguredEvent role) ws = ws\<lparr> demo_role := role \<rparr>"
| "Workspace_Apply (HostUidInputChangedEvent text) ws = ws\<lparr> host_uid_input := text \<rparr>"

section \<open>The runtime state\<close>

datatype join_phase = kIdle | kJoining | kAccepted | kJoined | kFailed

record runtime_state =
  join_phase :: join_phase
  join_attempt_id :: obj_id
  expected_host_uid :: string
  accepted_room_id :: obj_id
  bound_room_id :: obj_id
  join_entry_id :: obj_id
  last_error :: string
  copy_request_id :: obj_id
  copy_uid :: string
  copy_pending :: bool

definition new_runtime_state :: "aether \<Rightarrow> runtime_state" where
  "new_runtime_state ae = \<lparr> join_phase = kIdle, join_attempt_id = ae_null ae, expected_host_uid = [],
     accepted_room_id = ae_null ae, bound_room_id = ae_null ae, join_entry_id = ae_null ae, last_error = [],
     copy_request_id = ae_null ae, copy_uid = [], copy_pending = False \<rparr>"

datatype runtime_event =
    JoinHostRequestedEvent obj_id string              \<comment> \<open>entry, host\<close>
  | JoinHostAcceptedEvent obj_id string obj_id        \<comment> \<open>attempt, source, room\<close>
  | JoinHostCompletedEvent obj_id obj_id              \<comment> \<open>attempt, room\<close>
  | JoinHostFailedEvent obj_id string                 \<comment> \<open>attempt, reason\<close>
  | CopyHostUidRequestedEvent string
  | CopyHostUidCompletedEvent obj_id bool string

fun Runtime_CanApply :: "aether \<Rightarrow> runtime_event \<Rightarrow> runtime_state \<Rightarrow> bool" where
  "Runtime_CanApply ae (JoinHostRequestedEvent entry host) rs \<longleftrightarrow> ae_valid ae entry \<and> host \<noteq> []"
| "Runtime_CanApply ae (JoinHostAcceptedEvent attempt source room) rs \<longleftrightarrow>
     join_phase rs = kJoining \<and> attempt = join_attempt_id rs \<and> ae_valid ae room \<and> source = expected_host_uid rs"
| "Runtime_CanApply ae (JoinHostCompletedEvent attempt room) rs \<longleftrightarrow>
     (if \<not> ae_valid ae attempt \<or> \<not> ae_valid ae room then False
      else if join_phase rs = kJoined \<and> accepted_room_id rs = room \<and> join_attempt_id rs = attempt then True
      else if join_phase rs \<noteq> kAccepted then False
      else if attempt \<noteq> join_attempt_id rs then False
      else if \<not> ae_valid ae (accepted_room_id rs) \<or> room \<noteq> accepted_room_id rs then False
      else True)"
| "Runtime_CanApply ae (JoinHostFailedEvent attempt reason) rs \<longleftrightarrow>
     (if reason = [] then False
      else if join_phase rs = kJoining \<or> join_phase rs = kAccepted then
        (if \<not> ae_valid ae attempt then False
         else if ae_valid ae (join_attempt_id rs) \<and> attempt \<noteq> join_attempt_id rs then False
         else True)
      else if join_phase rs = kIdle \<or> join_phase rs = kFailed then True
      else False)"
| "Runtime_CanApply ae e rs \<longleftrightarrow> True"

text \<open>\<open>i\<close> is the id of the event object.\<close>

fun Runtime_Apply :: "aether \<Rightarrow> obj_id \<Rightarrow> runtime_event \<Rightarrow> runtime_state \<Rightarrow> runtime_state" where
  "Runtime_Apply ae i (JoinHostRequestedEvent entry host) rs =
     rs\<lparr> join_phase := kJoining, join_attempt_id := i, expected_host_uid := host, join_entry_id := entry,
        accepted_room_id := ae_null ae, bound_room_id := ae_null ae, last_error := [] \<rparr>"
| "Runtime_Apply ae i (JoinHostAcceptedEvent attempt source room) rs =
     rs\<lparr> join_phase := kAccepted, accepted_room_id := room, last_error := [] \<rparr>"
| "Runtime_Apply ae i (JoinHostCompletedEvent attempt room) rs =
     rs\<lparr> join_phase := kJoined, bound_room_id := room, accepted_room_id := room, last_error := [] \<rparr>"
| "Runtime_Apply ae i (JoinHostFailedEvent attempt reason) rs =
     rs\<lparr> join_phase := kFailed, join_attempt_id := (if ae_valid ae attempt then attempt else join_attempt_id rs),
        last_error := reason \<rparr>"
| "Runtime_Apply ae i (CopyHostUidRequestedEvent uid) rs =
     rs\<lparr> copy_request_id := i, copy_uid := uid, copy_pending := True \<rparr>"
| "Runtime_Apply ae i (CopyHostUidCompletedEvent request ok detail) rs =
     (if request = copy_request_id rs then rs\<lparr> copy_pending := False \<rparr> else rs)"

section \<open>Commits on the fields\<close>

text \<open>A Commit asserts CanApply; every Apply above succeeds and notes one materialized change.\<close>

definition commit_fields :: "('e \<Rightarrow> 's \<Rightarrow> bool) \<Rightarrow> ('e \<Rightarrow> 's \<Rightarrow> 's) \<Rightarrow> 'e \<Rightarrow> 's \<Rightarrow> 's option" where
  "commit_fields can app e s = (if can e s then Some (app e s) else None)"

definition chat_ops ::
  "('e \<Rightarrow> 's \<Rightarrow> bool) \<Rightarrow> (obj_id \<Rightarrow> 'e \<Rightarrow> 's \<Rightarrow> 's) \<Rightarrow> ('e \<Rightarrow> shared_event_id \<Rightarrow> u64 \<Rightarrow> bool) \<Rightarrow> ('s \<Rightarrow> 's) \<Rightarrow> ('s, 'e, 's) node_ops" where
  "chat_ops can app matches missing = \<lparr> ops_can_apply = can, ops_apply = (\<lambda>i e s. Some (app i e s, 1)), ops_matches = matches,
     ops_save = (\<lambda>s. s), ops_load = (\<lambda>layer s. case layer of Some l \<Rightarrow> l | None \<Rightarrow> missing s), ops_restore = (\<lambda>old s. s) \<rparr>"

lemma chat_ops_simps [simp]:
  "ops_can_apply (chat_ops can app matches missing) = can" "ops_apply (chat_ops can app matches missing) i e s = Some (app i e s, 1)"
  "ops_matches (chat_ops can app matches missing) = matches"
  "ops_save (chat_ops can app matches missing) s = s" "ops_load (chat_ops can app matches missing) (Some l) s = l"
  "ops_restore (chat_ops can app matches missing) old s = s"
  by (simp_all add: chat_ops_def)

lemma chat_class: "node_class (chat_ops can app matches missing) id"
  by (rule node_class.intro) (simp_all only: chat_ops_simps id_apply)

interpretation chat: node_class "chat_ops can app matches missing" id for can app matches missing
  by (rule chat_class)

lemma chat_commit:
  assumes "node_ready (chat_ops can app matches missing) n" "ce_now1 cenv \<noteq> 0" "can e (materialized n)"
  shows "\<exists>n' r. Commit (chat_ops can app matches missing) cenv e n = Some n' \<and> node_inv (chat_ops can app matches missing) id n' \<and>
    materialized n' = app (ce_event_id cenv) e (materialized n) \<and> journal n' = journal n @ [r]"
proof -
  let ?ops = "chat_ops can app matches missing" and ?ev = "new_event cenv (node_domain n) e"
  have p: "ptr_valid ?ev" "ptr_object ?ev = Some e" "ptr_domain ?ev = node_domain n" by (simp_all add: new_event_def)
  have inv: "node_inv ?ops id n" and len: "length (journal n) < kJournalFullyMaterialized"
    and wrap: "journal n = [] \<or> timestamp_us (last (journal n)) \<noteq> -1"
    using assms(1) by (auto simp: node_ready_def)
  have "\<exists>n' r. CommitInto ?ops (ce_now1 cenv) (ce_now2 cenv) (ce_now3 cenv) ?ev n = Some n' \<and> node_inv ?ops id n' \<and>
    materialized n' = app (ce_event_id cenv) e (materialized n) \<and> journal n' = journal n @ [r] \<and> event r = ?ev \<and> \<not> HasSharedIdentity r \<and>
    timestamp_us r = commit_timestamp (ce_now1 cenv) n"
    by (rule chat.commit_runs [OF inv len p _ _ assms(2) wrap]) (simp_all add: assms(3) new_event_def)
  then show ?thesis by (auto simp: Commit_def)
qed

lemma chat_commit_refused:
  "\<not> can e (materialized n) \<Longrightarrow> Commit (chat_ops can app matches missing) cenv e n = None"
  by (simp add: Commit_def CommitInto_def new_event_def)

text \<open>On the fields of a chat node a Commit is \<open>commit_fields\<close>: it fails exactly when CanApply refuses the event,
  and otherwise leaves a node that satisfies the journal invariant and whose fields are those of Apply.\<close>

theorem commit_refines_fields:
  assumes "node_ready (chat_ops can app matches missing) n" "ce_now1 cenv \<noteq> 0"
  shows "map_option materialized (Commit (chat_ops can app matches missing) cenv e n) =
      commit_fields can (app (ce_event_id cenv)) e (materialized n) \<and>
    (\<forall>n'. Commit (chat_ops can app matches missing) cenv e n = Some n' \<longrightarrow>
      node_inv (chat_ops can app matches missing) id n' \<and> length (journal n') = Suc (length (journal n)))"
proof (cases "can e (materialized n)")
  case True
  then show ?thesis using chat_commit [OF assms, of e] by (auto simp: commit_fields_def)
next
  case False
  then show ?thesis using chat_commit_refused [where can = can and e = e and n = n, OF False] by (simp add: commit_fields_def)
qed

definition sample_workspace_ops :: "(chat_workspace, workspace_event, chat_workspace) node_ops" where
  "sample_workspace_ops = chat_ops (Workspace_CanApply sample_aether) (\<lambda>i. Workspace_Apply) (\<lambda>e ident ts. True) id"

lemma chat_sample_ready: "node_ready (chat_ops can app matches missing) (lifecycle_sample i s)"
  by (simp add: node_ready_def lifecycle_sample_def node_inv_def node_live_def is_loaded_def journal_sorted_def
      shared_ids_def consistent_def kJournalFullyMaterialized_def)

lemma commit_refines_fields_witness:
  "\<exists>n'. Commit sample_workspace_ops sample_cenv (MessageSequenceReservedEvent 1) (lifecycle_sample 9 (new_workspace sample_aether)) = Some n' \<and>
     next_message_sequence (materialized n') = 2"
proof -
  let ?n = "lifecycle_sample 9 (new_workspace sample_aether) :: (chat_workspace, workspace_event, chat_workspace) node"
  have c: "ce_now1 sample_cenv \<noteq> 0" by (simp add: sample_cenv_def)
  have m: "materialized ?n = new_workspace sample_aether" by (simp add: lifecycle_sample_def)
  have "map_option materialized (Commit sample_workspace_ops sample_cenv (MessageSequenceReservedEvent 1) ?n) =
      Some (Workspace_Apply (MessageSequenceReservedEvent 1) (new_workspace sample_aether))"
    using commit_refines_fields [OF chat_sample_ready c, of "Workspace_CanApply sample_aether" "\<lambda>i. Workspace_Apply"
        "\<lambda>e ident ts. True" id "MessageSequenceReservedEvent 1" 9 "new_workspace sample_aether"]
    unfolding m sample_workspace_ops_def by (simp add: commit_fields_def new_workspace_def)
  then show ?thesis by (auto simp: new_workspace_def)
qed

end
