(* ===== verification/ChatCommands.thy ===== *)
theory ChatCommands
  imports ChatModel
begin

text \<open>
  The commands of the chat example (src/examples/chat_demo/common/chat_commands.cpp): ChatRoom as a node class
  derived from SharedNode, the graph of workspace, entries and rooms, and the commands, each a sequence of Commits on
  those nodes and of calls of the \<open>persist\<close> callback.  \<open>None\<close> is a failed assertion or a dereferenced
  dangling pointer.  Ids of created objects and clock readings are arguments.  \<open>cs_saved\<close> lists the states
  the callback has persisted, so that a restart after a crash is the last of them.
\<close>

section \<open>ChatRoom\<close>

record chat_room = shared_fields +
  messages :: "message_value list"

datatype room_event = Topology shared_event | MessageAddedEvent message_value

type_synonym room_layer = "share list \<times> link_sync_node obj_ptr list \<times> message_value list"
type_synonym room_node = "(chat_room, room_event, room_layer) node"
type_synonym entry_node = "(chat_entry, entry_event, chat_entry) node"
type_synonym workspace_node = "(chat_workspace, workspace_event, chat_workspace) node"

fun ChatRoom_CanApply :: "room_event \<Rightarrow> chat_room \<Rightarrow> bool" where
  "ChatRoom_CanApply (Topology e) s \<longleftrightarrow> True"
| "ChatRoom_CanApply (MessageAddedEvent msg) s \<longleftrightarrow> Room_CanApply msg"

fun ChatRoom_Apply :: "sn_env \<Rightarrow> obj_id \<Rightarrow> room_event \<Rightarrow> chat_room \<Rightarrow> (chat_room \<times> nat) option" where
  "ChatRoom_Apply env i (Topology e) s = SharedNode_Apply env i e s"
| "ChatRoom_Apply env i (MessageAddedEvent msg) s = Some (s\<lparr> messages := Room_Apply msg (messages s) \<rparr>, 1)"

fun ChatRoom_matches :: "room_event \<Rightarrow> shared_event_id \<Rightarrow> u64 \<Rightarrow> bool" where
  "ChatRoom_matches (Topology e) ident ts \<longleftrightarrow> True"
| "ChatRoom_matches (MessageAddedEvent msg) ident ts \<longleftrightarrow> MatchesSharedMetadata msg ident ts"

definition ChatRoom_ops :: "sn_env \<Rightarrow> (chat_room, room_event, room_layer) node_ops" where
  "ChatRoom_ops env = \<lparr> ops_can_apply = ChatRoom_CanApply, ops_apply = ChatRoom_Apply env, ops_matches = ChatRoom_matches,
     ops_save = (\<lambda>s. (shares s, link_sync_states s, messages s)),
     ops_load = (\<lambda>layer s. case layer of Some (sh, ls, ms) \<Rightarrow> s\<lparr> shares := sh, link_sync_states := ls, messages := ms \<rparr> | None \<Rightarrow> s),
     ops_restore = stash_restore \<rparr>"

section \<open>The graph and its persistence\<close>

text \<open>\<open>che_endpoint\<close> is EndpointUid of the link objects, \<open>che_missing_*\<close> what a load without a stored layer leaves.\<close>

record chat_env =
  che_ae :: aether
  che_endpoint :: "obj_id \<Rightarrow> string"
  che_sn :: sn_env
  che_missing_workspace :: "chat_workspace \<Rightarrow> chat_workspace"
  che_missing_entry :: "chat_entry \<Rightarrow> chat_entry"

definition workspace_ops :: "chat_env \<Rightarrow> (chat_workspace, workspace_event, chat_workspace) node_ops" where
  "workspace_ops env = chat_ops (Workspace_CanApply (che_ae env)) (\<lambda>i. Workspace_Apply) (\<lambda>e ident ts. True) (che_missing_workspace env)"

definition entry_ops :: "chat_env \<Rightarrow> (chat_entry, entry_event, chat_entry) node_ops" where
  "entry_ops env = chat_ops (Entry_CanApply (che_ae env) (che_endpoint env)) (\<lambda>i. Entry_Apply) (\<lambda>e ident ts. True) (che_missing_entry env)"

record chat_graph =
  cg_workspace :: workspace_node
  cg_entries :: "obj_id \<Rightarrow> entry_node option"
  cg_rooms :: "obj_id \<Rightarrow> room_node option"

record command_state =
  cs_graph :: chat_graph
  cs_saved :: "chat_graph list"
  cs_persist :: bool

abbreviation workspace_of :: "command_state \<Rightarrow> chat_workspace" where
  "workspace_of st \<equiv> materialized (cg_workspace (cs_graph st))"

definition persist :: "command_state \<Rightarrow> command_state" where
  "persist st = (if cs_persist st then st\<lparr> cs_saved := cs_saved st @ [cs_graph st] \<rparr> else st)"

definition commit_workspace :: "chat_env \<Rightarrow> commit_env \<Rightarrow> workspace_event \<Rightarrow> command_state \<Rightarrow> command_state option" where
  "commit_workspace env cenv e st = do {
     n \<leftarrow> Commit (workspace_ops env) cenv e (cg_workspace (cs_graph st));
     Some (st\<lparr> cs_graph := (cs_graph st)\<lparr> cg_workspace := n \<rparr> \<rparr>) }"

definition commit_entry :: "chat_env \<Rightarrow> commit_env \<Rightarrow> obj_id \<Rightarrow> entry_event \<Rightarrow> command_state \<Rightarrow> command_state option" where
  "commit_entry env cenv i e st = do {
     n \<leftarrow> cg_entries (cs_graph st) i;
     n \<leftarrow> Commit (entry_ops env) cenv e n;
     Some (st\<lparr> cs_graph := (cs_graph st)\<lparr> cg_entries := (cg_entries (cs_graph st))(i \<mapsto> n) \<rparr> \<rparr>) }"

section \<open>Commands on the workspace\<close>

definition isspace :: "char \<Rightarrow> bool" where
  "isspace c \<longleftrightarrow> (let n = of_char c :: nat in n = 32 \<or> 9 \<le> n \<and> n \<le> 13)"

definition TrimAsciiWhitespace :: "string \<Rightarrow> string" where
  "TrimAsciiWhitespace s = rev (dropWhile isspace (rev (dropWhile isspace s)))"

definition ConfigureDemoRole :: "chat_env \<Rightarrow> commit_env \<Rightarrow> demo_role \<Rightarrow> command_state \<Rightarrow> (bool \<times> command_state) option" where
  "ConfigureDemoRole env cenv role st =
     (if role \<noteq> kHost \<and> role \<noteq> kClient then Some (False, st)
      else if demo_role (workspace_of st) = role then Some (True, st)
      else if demo_role (workspace_of st) \<noteq> kUnconfigured then Some (False, st)
      else do {
        st \<leftarrow> commit_workspace env cenv (DemoRoleConfiguredEvent role) st;
        Some (True, persist st) })"

definition SetHostUidInput :: "chat_env \<Rightarrow> commit_env \<Rightarrow> string \<Rightarrow> command_state \<Rightarrow> (bool \<times> command_state) option" where
  "SetHostUidInput env cenv text st =
     (if demo_role (workspace_of st) \<noteq> kClient then Some (False, st)
      else if host_uid_input (workspace_of st) = text then Some (True, st)
      else do {
        st \<leftarrow> commit_workspace env cenv (HostUidInputChangedEvent text) st;
        Some (True, persist st) })"

definition ConversationDisplayName :: "demo_role \<Rightarrow> string \<Rightarrow> string" where
  "ConversationDisplayName local_role uid =
     (let suffix = (if length uid \<ge> 8 then take 8 uid else uid) in
      if local_role = kHost then (if suffix = [] then ''Client'' else ''Client '' @ suffix)
      else (if suffix = [] then ''Host'' else ''Host '' @ suffix))"

text \<open>The first valid entry of the peer; an entry pointer that leads nowhere is dereferenced.\<close>

fun find_peer :: "chat_env \<Rightarrow> chat_graph \<Rightarrow> string \<Rightarrow> obj_id list \<Rightarrow> obj_id option option" where
  "find_peer env g uid [] = Some None"
| "find_peer env g uid (i # is) =
     (if ae_valid (che_ae env) i then do {
        n \<leftarrow> cg_entries g i;
        if peer_uid (materialized n) = uid then Some (Some i) else find_peer env g uid is }
      else find_peer env g uid is)"

text \<open>The ids and clock readings one OpenOrSelectChat consumes.\<close>

record open_env =
  oe_entry :: obj_id
  oe_base :: obj_id
  oe_add :: commit_env
  oe_select :: commit_env

definition created_entry :: "chat_env \<Rightarrow> nat option \<Rightarrow> obj_id \<Rightarrow> entry_node" where
  "created_entry env d i = \<lparr> node_obj_id = i, node_domain = d, materialized = new_entry (che_ae env),
     base = null_ptr (che_ae env), base_layer = None, journal = [], generation = 1,
     applied_journal_size = kJournalFullyMaterialized, journal_retention_policy = default_retention,
     journal_compaction_blocked = False, suppress_materialized_change = False,
     materialized_change_fn = False, notifications = 0 \<rparr>"

definition make_entry :: "chat_env \<Rightarrow> open_env \<Rightarrow> string \<Rightarrow> command_state \<Rightarrow> command_state option" where
  "make_entry env oe uid st = do {
     let n = created_entry env (node_domain (cg_workspace (cs_graph st))) (oe_entry oe);
     let n = n\<lparr> materialized := (materialized n)\<lparr> peer_uid := uid,
       display_name := ConversationDisplayName (demo_role (workspace_of st)) uid \<rparr> \<rparr>;
     n \<leftarrow> InitializeRuntimeNode (entry_ops env) True (new_entry (che_ae env)) (oe_base oe) n;
     Some (st\<lparr> cs_graph := (cs_graph st)\<lparr> cg_entries := (cg_entries (cs_graph st))(oe_entry oe \<mapsto> n) \<rparr> \<rparr>) }"

definition OpenOrSelectChat :: "chat_env \<Rightarrow> open_env \<Rightarrow> string \<Rightarrow> command_state \<Rightarrow> (obj_id \<times> command_state) option" where
  "OpenOrSelectChat env oe uid st =
     (let canonical_uid = TrimAsciiWhitespace uid in
      if canonical_uid = [] then Some (ae_null (che_ae env), st)
      else do {
        found \<leftarrow> find_peer env (cs_graph st) canonical_uid (chats (workspace_of st));
        case found of
          Some i \<Rightarrow>
            if selected_chat_id (workspace_of st) \<noteq> i then do {
              st \<leftarrow> commit_workspace env (oe_select oe) (ChatSelectedEvent i) st;
              Some (i, persist st) }
            else Some (i, st)
        | None \<Rightarrow> do {
            st \<leftarrow> make_entry env oe canonical_uid st;
            st \<leftarrow> commit_workspace env (oe_add oe) (ChatEntryAddedEvent (oe_entry oe)) st;
            st \<leftarrow> commit_workspace env (oe_select oe) (ChatSelectedEvent (oe_entry oe)) st;
            Some (oe_entry oe, persist st) } })"

definition BindLocalEndpoint :: "chat_env \<Rightarrow> commit_env \<Rightarrow> string \<Rightarrow> command_state \<Rightarrow> (bool \<times> command_state) option" where
  "BindLocalEndpoint env cenv uid st =
     (if uid = [] then Some (False, st)
      else if local_endpoint_uid (workspace_of st) = uid then Some (True, st)
      else if local_endpoint_uid (workspace_of st) \<noteq> [] then Some (False, st)
      else do {
        st \<leftarrow> commit_workspace env cenv (LocalEndpointBoundEvent uid) st;
        Some (True, persist st) })"

definition SetDesktopBounds :: "chat_env \<Rightarrow> commit_env \<Rightarrow> desktop_bounds \<Rightarrow> command_state \<Rightarrow> (bool \<times> command_state) option" where
  "SetDesktopBounds env cenv bounds st =
     (if desktop_bounds (workspace_of st) = bounds then Some (True, st)
      else do {
        st \<leftarrow> commit_workspace env cenv (DesktopBoundsChangedEvent bounds) st;
        Some (True, persist st) })"

definition SelectChat :: "chat_env \<Rightarrow> commit_env \<Rightarrow> obj_id \<Rightarrow> command_state \<Rightarrow> (bool \<times> command_state) option" where
  "SelectChat env cenv i st =
     (if \<not> ae_valid (che_ae env) i then Some (False, st)
      else if \<not> (\<exists>entry\<in>set (chats (workspace_of st)). ae_valid (che_ae env) entry \<and> entry = i) then Some (False, st)
      else if selected_chat_id (workspace_of st) = i then Some (True, st)
      else do {
        st \<leftarrow> commit_workspace env cenv (ChatSelectedEvent i) st;
        Some (True, persist st) })"

section \<open>Commands on an entry\<close>

text \<open>The entry is a reference: the id of an existing node.\<close>

definition BindChat :: "chat_env \<Rightarrow> commit_env \<Rightarrow> obj_id \<Rightarrow> unit obj_ptr \<Rightarrow> unit obj_ptr \<Rightarrow> command_state \<Rightarrow> (bool \<times> command_state) option" where
  "BindChat env cenv i link room st = do {
     n \<leftarrow> cg_entries (cs_graph st) i;
     let entry = materialized n;
     let ae = che_ae env;
     if \<not> ae_valid ae (ptr_id link) \<or> \<not> ae_valid ae (ptr_id room) then Some (False, st)
     else if ptr_domain link \<noteq> node_domain n \<or> ptr_domain room \<noteq> node_domain n then Some (False, st)
     else if che_endpoint env (ptr_id link) \<noteq> peer_uid entry then Some (False, st)
     else if ae_valid ae (peer_link entry) \<and> ae_valid ae (entry_room entry) \<and>
       peer_link entry = ptr_id link \<and> entry_room entry = ptr_id room then Some (True, st)
     else if ae_valid ae (peer_link entry) \<and> peer_link entry \<noteq> ptr_id link then Some (False, st)
     else if ae_valid ae (entry_room entry) \<and> entry_room entry \<noteq> ptr_id room then Some (False, st)
     else do {
       st \<leftarrow> commit_entry env cenv i (ChatBindingChangedEvent (ptr_id link) (ptr_id room)) st;
       Some (True, persist st) } }"

definition SetDraft :: "chat_env \<Rightarrow> commit_env \<Rightarrow> obj_id \<Rightarrow> string \<Rightarrow> command_state \<Rightarrow> (bool \<times> command_state) option" where
  "SetDraft env cenv i text st = do {
     n \<leftarrow> cg_entries (cs_graph st) i;
     if draft (materialized n) = text then Some (True, st)
     else do {
       st \<leftarrow> commit_entry env cenv i (DraftChangedEvent text) st;
       Some (True, persist st) } }"

definition SetScroll :: "chat_env \<Rightarrow> commit_env \<Rightarrow> obj_id \<Rightarrow> scroll_anchor \<Rightarrow> command_state \<Rightarrow> (bool \<times> command_state) option" where
  "SetScroll env cenv i anchor st = do {
     n \<leftarrow> cg_entries (cs_graph st) i;
     if scroll_eq (scroll (materialized n)) anchor then Some (True, st)
     else do {
       st \<leftarrow> commit_entry env cenv i (ScrollChangedEvent anchor) st;
       Some (True, persist st) } }"

section \<open>Sending\<close>

text \<open>SubmitDraft in its three phases, each of which ends with \<open>persist\<close>.  The message is committed by CommitShared
  of the room, \<open>effective_time\<close> is the loop over the messages from the back.\<close>

definition effective_time :: "string \<Rightarrow> message_value list \<Rightarrow> u64 \<Rightarrow> u64" where
  "effective_time uid ms now_us =
     (case find (\<lambda>msg. origin_uid (message_id msg) = uid) (rev ms) of
        None \<Rightarrow> now_us
      | Some msg \<Rightarrow> if now_us \<le> message_timestamp_us msg then message_timestamp_us msg + 1 else now_us)"

definition reserve_sequence :: "chat_env \<Rightarrow> commit_env \<Rightarrow> command_state \<Rightarrow> command_state option" where
  "reserve_sequence env cenv st = do {
     st \<leftarrow> commit_workspace env cenv (MessageSequenceReservedEvent (next_message_sequence (workspace_of st))) st;
     Some (persist st) }"

definition commit_message :: "chat_env \<Rightarrow> commit_env \<Rightarrow> obj_id \<Rightarrow> message_value \<Rightarrow> command_state \<Rightarrow> command_state option" where
  "commit_message env cenv r msg st = do {
     n \<leftarrow> cg_rooms (cs_graph st) r;
     n \<leftarrow> CommitSharedInto (ChatRoom_ops (che_sn env)) (ce_now1 cenv) (ce_now2 cenv)
       (new_event cenv (node_domain n) (MessageAddedEvent msg)) (message_id msg) (message_timestamp_us msg) n;
     Some (st\<lparr> cs_graph := (cs_graph st)\<lparr> cg_rooms := (cg_rooms (cs_graph st))(r \<mapsto> n) \<rparr> \<rparr>) }"

definition clear_draft :: "chat_env \<Rightarrow> commit_env \<Rightarrow> obj_id \<Rightarrow> command_state \<Rightarrow> command_state option" where
  "clear_draft env cenv i st = do {
     st \<leftarrow> commit_entry env cenv i (DraftChangedEvent []) st;
     Some (persist st) }"

record submit_env =
  su_reserve :: commit_env
  su_message :: commit_env
  su_clear :: commit_env

definition can_submit :: "chat_env \<Rightarrow> chat_entry \<Rightarrow> u64 \<Rightarrow> chat_workspace \<Rightarrow> bool" where
  "can_submit env entry now_us ws \<longleftrightarrow> \<not> (local_endpoint_uid ws = [] \<or> \<not> ae_valid (che_ae env) (entry_room entry) \<or>
     draft entry = [] \<or> now_us = 0 \<or> next_message_sequence ws = 0 \<or> next_message_sequence ws = -1)"

definition drafted_message :: "chat_entry \<Rightarrow> chat_room \<Rightarrow> u64 \<Rightarrow> chat_workspace \<Rightarrow> message_value" where
  "drafted_message entry room now_us ws =
     \<lparr> message_id = \<lparr> origin_uid = local_endpoint_uid ws, origin_sequence = next_message_sequence ws \<rparr>,
       message_timestamp_us = effective_time (local_endpoint_uid ws) (messages room) now_us, message_text = draft entry \<rparr>"

definition SubmitDraft :: "chat_env \<Rightarrow> submit_env \<Rightarrow> obj_id \<Rightarrow> u64 \<Rightarrow> command_state \<Rightarrow> (shared_event_id \<times> command_state) option" where
  "SubmitDraft env su i now_us st = do {
     n \<leftarrow> cg_entries (cs_graph st) i;
     let entry = materialized n;
     if \<not> can_submit env entry now_us (workspace_of st) then Some (empty_event_id, st)
     else do {
       room \<leftarrow> cg_rooms (cs_graph st) (entry_room entry);
       let msg = drafted_message entry (materialized room) now_us (workspace_of st);
       st \<leftarrow> reserve_sequence env (su_reserve su) st;
       st \<leftarrow> commit_message env (su_message su) (entry_room entry) msg st;
       let st = persist st;
       st \<leftarrow> clear_draft env (su_clear su) i st;
       Some (message_id msg, st) } }"

end
