(* ===== verification/ChatBootstrap.thy ===== *)
theory ChatBootstrap
  imports ChatCommands SyncFrame
begin

text \<open>
  The control messages of the join protocol (src/examples/chat_demo/common/chat_bootstrap.cpp), the validation of Aether
  UIDs and the small projections of chat_session.cpp and chat_connectivity.h.  BinaryArchive and ae::Uid are library
  code: \<open>archive\<close> and \<open>uid_api\<close> are what the program calls of them.
\<close>

section \<open>Bootstrap messages\<close>

datatype bootstrap_kind = kJoinRequest | kJoinAccepted | kJoinRejected

record bootstrap_message =
  bs_kind :: bootstrap_kind
  bs_attempt_id :: obj_id
  bs_room_id :: obj_id
  bs_rejection_reason :: string

definition kMaxControlPayloadBytes :: nat where "kMaxControlPayloadBytes = 1024"

fun kind_byte :: "bootstrap_kind \<Rightarrow> u8" where
  "kind_byte kJoinRequest = 1"
| "kind_byte kJoinAccepted = 2"
| "kind_byte kJoinRejected = 3"

definition kind_of_byte :: "u8 \<Rightarrow> bootstrap_kind option" where
  "kind_of_byte b = (if b = 1 then Some kJoinRequest else if b = 2 then Some kJoinAccepted
     else if b = 3 then Some kJoinRejected else None)"

text \<open>A Save appends bytes or fails; a Load takes bytes from the front or fails.\<close>

record archive =
  save_u8 :: "u8 \<Rightarrow> bytes option"
  save_id :: "obj_id \<Rightarrow> bytes option"
  save_string :: "string \<Rightarrow> bytes option"
  load_u8 :: "bytes \<Rightarrow> (u8 \<times> bytes) option"
  load_id :: "bytes \<Rightarrow> (obj_id \<times> bytes) option"
  load_string :: "bytes \<Rightarrow> (string \<times> bytes) option"

text \<open>The answer with the out parameter.\<close>

definition EncodeChatBootstrap :: "archive \<Rightarrow> bootstrap_message \<Rightarrow> bool \<times> bytes" where
  "EncodeChatBootstrap ar msg =
     (case do {
        k \<leftarrow> save_u8 ar (kind_byte (bs_kind msg));
        a \<leftarrow> save_id ar (bs_attempt_id msg);
        r \<leftarrow> save_id ar (bs_room_id msg);
        s \<leftarrow> save_string ar (bs_rejection_reason msg);
        Some (k @ a @ r @ s) } of
        None \<Rightarrow> (False, [])
      | Some out \<Rightarrow> (out \<noteq> [] \<and> length out \<le> kMaxControlPayloadBytes, out))"

definition DecodeChatBootstrap :: "aether \<Rightarrow> archive \<Rightarrow> bytes \<Rightarrow> bootstrap_message option" where
  "DecodeChatBootstrap ae ar bs =
     (if bs = [] \<or> length bs > kMaxControlPayloadBytes then None
      else do {
        (k, bs) \<leftarrow> load_u8 ar bs;
        (attempt, bs) \<leftarrow> load_id ar bs;
        (room, bs) \<leftarrow> load_id ar bs;
        (reason, bs) \<leftarrow> load_string ar bs;
        if load_u8 ar bs \<noteq> None then None
        else do {
          kind \<leftarrow> kind_of_byte k;
          if kind = kJoinRejected \<and> reason = [] then None
          else if kind \<noteq> kJoinRejected \<and> reason \<noteq> [] then None
          else if kind = kJoinAccepted \<and> \<not> ae_valid ae room then None
          else if \<not> ae_valid ae attempt then None
          else Some \<lparr> bs_kind = kind, bs_attempt_id = attempt, bs_room_id = room, bs_rejection_reason = reason \<rparr> } })"

section \<open>Aether UIDs\<close>

definition IsAsciiHex :: "char \<Rightarrow> bool" where
  "IsAsciiHex c \<longleftrightarrow> (let n = of_char c :: nat in (48 \<le> n \<and> n \<le> 57) \<or> (97 \<le> n \<and> n \<le> 102) \<or> (65 \<le> n \<and> n \<le> 70))"

text \<open>\<open>UidString::valid\<close>, \<open>Uid::FromString(...).empty()\<close> and \<open>Format("{}", uid)\<close> of a text.\<close>

record uid_api =
  uid_string_valid :: "string \<Rightarrow> bool"
  uid_empty :: "string \<Rightarrow> bool"
  uid_format :: "string \<Rightarrow> string"

text \<open>The loop over the characters from position \<open>i\<close>: \<open>None\<close> on a misplaced character, else \<open>all_zero\<close>.\<close>

fun uid_scan :: "nat \<Rightarrow> bool \<Rightarrow> string \<Rightarrow> bool option" where
  "uid_scan i all_zero [] = Some all_zero"
| "uid_scan i all_zero (c # cs) =
     (if i = 8 \<or> i = 13 \<or> i = 18 \<or> i = 23 then
        if c \<noteq> CHR ''-'' then None else uid_scan (Suc i) all_zero cs
      else if \<not> IsAsciiHex c then None
      else uid_scan (Suc i) (if c \<noteq> CHR ''0'' then False else all_zero) cs)"

text \<open>\<open>out\<close> is the out parameter, which a refusal before the last test leaves alone.\<close>

definition TryCanonicalizeAetherUid :: "uid_api \<Rightarrow> string \<Rightarrow> string \<Rightarrow> bool \<times> string" where
  "TryCanonicalizeAetherUid api raw out =
     (let trimmed = TrimAsciiWhitespace raw in
      if length trimmed \<noteq> 36 then (False, out)
      else case uid_scan 0 True trimmed of
        None \<Rightarrow> (False, out)
      | Some all_zero \<Rightarrow>
          if all_zero then (False, out)
          else if \<not> uid_string_valid api trimmed then (False, out)
          else if uid_empty api trimmed then (False, out)
          else (uid_format api trimmed \<noteq> [], uid_format api trimmed))"

text \<open>The text a comparison uses: the canonical one, or the source when it is no UID.\<close>

definition canonical_source :: "uid_api \<Rightarrow> string \<Rightarrow> string" where
  "canonical_source api source = snd (TryCanonicalizeAetherUid api source source)"

section \<open>Projections\<close>

datatype connectivity = Connectivity_Unknown | Connectivity_Offline | Connectivity_Online
datatype peer_presence = Peer_Unknown | Peer_Connecting | Peer_Online | Peer_Offline
datatype room_bootstrap = Room_NotStarted | Room_Pending | Room_Complete
datatype delivery_state = Delivery_None | Delivery_Queued | Delivery_Sending | Delivery_Delivered

definition LocalConnectivityFromDiag :: "bool \<Rightarrow> bool \<Rightarrow> connectivity" where
  "LocalConnectivityFromDiag has_schedule any_online =
     (if \<not> has_schedule then Connectivity_Unknown else if any_online then Connectivity_Online else Connectivity_Offline)"

definition BootstrapFromPhase :: "u8 \<Rightarrow> room_bootstrap" where
  "BootstrapFromPhase phase = (if phase = Complete then Room_Complete else if phase = Pending then Room_Pending else Room_NotStarted)"

definition DeliveryForOwnEvent :: "aether \<Rightarrow> link_sync_state \<Rightarrow> shared_event_id \<Rightarrow> string \<Rightarrow> delivery_state" where
  "DeliveryForOwnEvent ae s i local_uid =
     (if origin_uid i \<noteq> local_uid \<or> origin_sequence i = 0 then Delivery_None
      else if HasDelivered i s then Delivery_Delivered
      else if HasPendingEvent ae s \<and> pending_event_identity s = i then Delivery_Sending
      else Delivery_Queued)"

definition FieldWithinUserCommandLimit :: "string \<Rightarrow> nat \<Rightarrow> bool" where
  "FieldWithinUserCommandLimit v max_bytes \<longleftrightarrow> length v \<le> max_bytes"

definition kMaxDraftTextBytes :: nat where "kMaxDraftTextBytes = 65536"

definition FindEntryById :: "aether \<Rightarrow> chat_workspace \<Rightarrow> obj_id \<Rightarrow> obj_id option" where
  "FindEntryById ae ws i = find (\<lambda>entry. ae_valid ae entry \<and> entry = i) (chats ws)"

section \<open>What the archive promises\<close>

text \<open>A Load returns what Save wrote and leaves what follows; there is no byte in an empty input.\<close>

definition archive_ok :: "archive \<Rightarrow> bool" where
  "archive_ok ar \<longleftrightarrow>
     (\<forall>x b r. save_u8 ar x = Some b \<longrightarrow> b \<noteq> [] \<and> load_u8 ar (b @ r) = Some (x, r)) \<and>
     (\<forall>x b r. save_id ar x = Some b \<longrightarrow> load_id ar (b @ r) = Some (x, r)) \<and>
     (\<forall>x b r. save_string ar x = Some b \<longrightarrow> load_string ar (b @ r) = Some (x, r)) \<and> load_u8 ar [] = None"

definition bootstrap_wf :: "aether \<Rightarrow> bootstrap_message \<Rightarrow> bool" where
  "bootstrap_wf ae msg \<longleftrightarrow> ae_valid ae (bs_attempt_id msg) \<and> (bs_kind msg = kJoinRejected \<longleftrightarrow> bs_rejection_reason msg \<noteq> []) \<and>
     (bs_kind msg = kJoinAccepted \<longrightarrow> ae_valid ae (bs_room_id msg))"

lemma kind_of_kind_byte [simp]: "kind_of_byte (kind_byte k) = Some k"
  by (cases k) (simp_all add: kind_of_byte_def)

lemma decode_wf: "DecodeChatBootstrap ae ar bs = Some msg \<Longrightarrow> bootstrap_wf ae msg"
  by (auto simp: DecodeChatBootstrap_def bootstrap_wf_def Option.bind_eq_Some_conv split: if_splits prod.splits)

lemma decode_encode:
  assumes ok: "archive_ok ar" and wf: "bootstrap_wf ae msg" and e: "EncodeChatBootstrap ar msg = (True, out)"
  shows "DecodeChatBootstrap ae ar out = Some msg"
proof -
  have "do { k \<leftarrow> save_u8 ar (kind_byte (bs_kind msg)); a \<leftarrow> save_id ar (bs_attempt_id msg); r \<leftarrow> save_id ar (bs_room_id msg);
      s \<leftarrow> save_string ar (bs_rejection_reason msg); Some (k @ a @ r @ s) } = Some out"
    and l: "out \<noteq> []" "length out \<le> kMaxControlPayloadBytes"
    using e by (auto simp: EncodeChatBootstrap_def split: option.splits)
  then obtain k a r s where p: "save_u8 ar (kind_byte (bs_kind msg)) = Some k" "save_id ar (bs_attempt_id msg) = Some a"
      "save_id ar (bs_room_id msg) = Some r" "save_string ar (bs_rejection_reason msg) = Some s" and o: "out = k @ a @ r @ s"
    by (auto simp only: Option.bind_eq_Some_conv option.inject)
  have "load_u8 ar (k @ x) = Some (kind_byte (bs_kind msg), x)" "load_id ar (a @ x) = Some (bs_attempt_id msg, x)"
      "load_id ar (r @ x) = Some (bs_room_id msg, x)" "load_string ar (s @ x) = Some (bs_rejection_reason msg, x)"
      "load_u8 ar [] = None" for x
    using ok p by (auto simp: archive_ok_def)
  note ld = this this(4) [of "[]", simplified]
  have "DecodeChatBootstrap ae ar (k @ a @ r @ s) = Some msg"
    using l wf unfolding o by (auto simp: DecodeChatBootstrap_def ld bootstrap_wf_def)
  then show ?thesis by (simp add: o)
qed

text \<open>An encoded bootstrap message is decoded to itself, and whatever bytes arrive, a decoded message is
  well formed: a valid attempt, a reason exactly in a rejection, a valid room in an acceptance.\<close>

theorem bootstrap_roundtrip:
  assumes "archive_ok ar"
  shows "(bootstrap_wf ae msg \<and> EncodeChatBootstrap ar msg = (True, out) \<longrightarrow> DecodeChatBootstrap ae ar out = Some msg) \<and>
    (DecodeChatBootstrap ae ar bs = Some msg' \<longrightarrow> bootstrap_wf ae msg' \<and> length bs \<le> kMaxControlPayloadBytes)"
  using decode_encode [OF assms] decode_wf [of ae ar bs msg'] by (auto simp: DecodeChatBootstrap_def split: if_splits)

definition sample_archive :: archive where
  "sample_archive = \<lparr> save_u8 = (\<lambda>x. Some [x]), save_id = (\<lambda>x. Some (u32_bytes x)),
     save_string = (\<lambda>s. if length s < 256 then Some (of_nat (length s) # string_bytes s) else None),
     load_u8 = (\<lambda>b. case b of [] \<Rightarrow> None | x # r \<Rightarrow> Some (x, r)),
     load_id = (\<lambda>b. case ReadU32 b 0 of None \<Rightarrow> None | Some (x, k) \<Rightarrow> Some (x, drop k b)),
     load_string = (\<lambda>b. case b of [] \<Rightarrow> None | n # r \<Rightarrow> if length r < unat n then None else
       Some (bytes_string (take (unat n) r), drop (unat n) r)) \<rparr>"


lemma sample_archive_ok: "archive_ok sample_archive"
proof -
  have u: "unat (of_nat n :: u8) = n" if "n < 256" for n using that by (simp add: unsigned_of_nat take_bit_nat_eq_self)
  have "ReadU32 (u32_bytes x @ r) 0 = Some (x, 4)" for x r using ReadU32_print [of 0 "[]" x r] by simp
  then show ?thesis
    by (auto simp: archive_ok_def sample_archive_def u split: if_splits)
qed

definition sample_rejection :: bootstrap_message where
  "sample_rejection = \<lparr> bs_kind = kJoinRejected, bs_attempt_id = 7, bs_room_id = 0, bs_rejection_reason = ''no'' \<rparr>"

lemma bootstrap_roundtrip_witness:
  "DecodeChatBootstrap sample_aether sample_archive (snd (EncodeChatBootstrap sample_archive sample_rejection)) = Some sample_rejection"
proof -
  have w: "bootstrap_wf sample_aether sample_rejection" by (simp add: bootstrap_wf_def sample_rejection_def sample_aether_def)
  have e: "EncodeChatBootstrap sample_archive sample_rejection = (True, snd (EncodeChatBootstrap sample_archive sample_rejection))"
    by (simp add: EncodeChatBootstrap_def sample_archive_def sample_rejection_def kMaxControlPayloadBytes_def)
  show ?thesis using bootstrap_roundtrip [OF sample_archive_ok, of sample_aether sample_rejection] w e by metis
qed

end
