(* ===== verification/Transport.thy ===== *)
theory Transport
  imports Codec SyncFrame
begin

text \<open>
  The transports below the synchronization runtime.  First the deterministic in-process network
  (src/src/memory_transport.cpp and .h): directed queues of packets, directional outages, endpoints
  that come and go.  Then the frame that carries packets over an Aether stream
  (src/examples/chat_demo/aether/aether_stream_frame.cpp and .h).
\<close>

section \<open>MemoryNetwork\<close>

text \<open>An attached endpoint is known by its uid and whether a receiver is bound to it.  A direction that
  is absent from the source's map of queues and one with an empty queue behave alike.\<close>

type_synonym direction = "string \<times> string"

record network =
  endpoints :: "string \<Rightarrow> bool option"
  queues :: "direction \<Rightarrow> bytes list"
  disconnected :: "direction set"

definition MemoryNetwork :: network where
  "MemoryNetwork = \<lparr> endpoints = (\<lambda>_. None), queues = (\<lambda>_. []), disconnected = {} \<rparr>"

definition PendingCount :: "string \<Rightarrow> string \<Rightarrow> network \<Rightarrow> nat" where
  "PendingCount from to net = length (queues net (from, to))"

definition PeekNext :: "string \<Rightarrow> string \<Rightarrow> network \<Rightarrow> bytes" where
  "PeekNext from to net = (case queues net (from, to) of [] \<Rightarrow> [] | p # _ \<Rightarrow> p)"

definition IsConnected :: "string \<Rightarrow> string \<Rightarrow> network \<Rightarrow> bool" where
  "IsConnected from to net \<longleftrightarrow> (from, to) \<notin> disconnected net"

definition set_queue :: "direction \<Rightarrow> bytes list \<Rightarrow> network \<Rightarrow> network" where
  "set_queue dir q net = net\<lparr> queues := (queues net)(dir := q) \<rparr>"

text \<open>The result: the returned bool, what the receiver of \<open>to\<close> was called with, the network.  \<open>None\<close> is
  the assertion of Deliver that a receiver is bound.\<close>

definition DeliverNext :: "string \<Rightarrow> string \<Rightarrow> network \<Rightarrow> (bool \<times> (string \<times> bytes) option \<times> network) option" where
  "DeliverNext from to net =
     (if \<not> IsConnected from to net then Some (False, None, net)
      else case queues net (from, to) of
        [] \<Rightarrow> Some (False, None, net)
      | p # rest \<Rightarrow>
          (case endpoints net to of
             None \<Rightarrow> Some (False, None, net)
           | Some bound \<Rightarrow> do {
               assert_that bound;
               Some (True, Some (from, p), set_queue (from, to) rest net) }))"

definition DropNext :: "string \<Rightarrow> string \<Rightarrow> network \<Rightarrow> bool \<times> network" where
  "DropNext from to net =
     (case queues net (from, to) of [] \<Rightarrow> (False, net) | p # rest \<Rightarrow> (True, set_queue (from, to) rest net))"

definition DuplicateNext :: "string \<Rightarrow> string \<Rightarrow> network \<Rightarrow> bool \<times> network" where
  "DuplicateNext from to net =
     (case queues net (from, to) of
        [] \<Rightarrow> (False, net)
      | p # rest \<Rightarrow> (True, set_queue (from, to) ((p # rest) @ [p]) net))"

definition Disconnect :: "string \<Rightarrow> string \<Rightarrow> network \<Rightarrow> network" where
  "Disconnect from to net = net\<lparr> disconnected := insert (from, to) (disconnected net) \<rparr>"

definition Reconnect :: "string \<Rightarrow> string \<Rightarrow> network \<Rightarrow> network" where
  "Reconnect from to net = net\<lparr> disconnected := disconnected net - {(from, to)} \<rparr>"

definition Attach :: "string \<Rightarrow> network \<Rightarrow> network option" where
  "Attach uid net = do {
     assert_that (endpoints net uid = None);
     Some (net\<lparr> endpoints := (endpoints net)(uid \<mapsto> False) \<rparr>) }"

definition Detach :: "string \<Rightarrow> network \<Rightarrow> network" where
  "Detach uid net = net\<lparr> endpoints := (endpoints net)(uid := None) \<rparr>"

definition Enqueue :: "string \<Rightarrow> string \<Rightarrow> bytes \<Rightarrow> network \<Rightarrow> network" where
  "Enqueue from to data net =
     (if \<not> IsConnected from to net then net
      else set_queue (from, to) (queues net (from, to) @ [data]) net)"

definition MemoryTransport :: "string \<Rightarrow> network \<Rightarrow> network option" where
  "MemoryTransport uid net = do { assert_that (uid \<noteq> []); Attach uid net }"

definition Send :: "string \<Rightarrow> string \<Rightarrow> bytes \<Rightarrow> network \<Rightarrow> network option" where
  "Send uid destination data net = do {
     assert_that (destination \<noteq> uid);
     Some (Enqueue uid destination data net) }"

definition BindReceive :: "string \<Rightarrow> network \<Rightarrow> network" where
  "BindReceive uid net = (if endpoints net uid = None then net
     else net\<lparr> endpoints := (endpoints net)(uid \<mapsto> True) \<rparr>)"

definition ClearReceive :: "string \<Rightarrow> network \<Rightarrow> network" where
  "ClearReceive uid net = (if endpoints net uid = None then net
     else net\<lparr> endpoints := (endpoints net)(uid \<mapsto> False) \<rparr>)"

section \<open>Runs of the network\<close>

text \<open>A run records, per direction, the packets the network took in and those it handed over.\<close>

datatype net_action =
    ASend string string bytes | ADeliver string string | ADisconnect string string
  | AReconnect string string | AAttach string | ADetach string | ABind string | AClear string

record net_run =
  net :: network
  taken :: "direction \<Rightarrow> bytes list"
  handed :: "direction \<Rightarrow> bytes list"

fun net_step :: "net_action \<Rightarrow> net_run \<Rightarrow> net_run option" where
  "net_step (ASend from to p) s = do {
     n \<leftarrow> Send from to p (net s);
     Some (s\<lparr> net := n, taken := (if IsConnected from to (net s)
       then (taken s)((from, to) := taken s (from, to) @ [p]) else taken s) \<rparr>) }"
| "net_step (ADeliver from to) s = do {
     (ok, given, n) \<leftarrow> DeliverNext from to (net s);
     Some (s\<lparr> net := n, handed := (case given of None \<Rightarrow> handed s
       | Some (_, p) \<Rightarrow> (handed s)((from, to) := handed s (from, to) @ [p])) \<rparr>) }"
| "net_step (ADisconnect from to) s = Some (s\<lparr> net := Disconnect from to (net s) \<rparr>)"
| "net_step (AReconnect from to) s = Some (s\<lparr> net := Reconnect from to (net s) \<rparr>)"
| "net_step (AAttach uid) s = do { n \<leftarrow> MemoryTransport uid (net s); Some (s\<lparr> net := n \<rparr>) }"
| "net_step (ADetach uid) s = Some (s\<lparr> net := Detach uid (net s) \<rparr>)"
| "net_step (ABind uid) s = Some (s\<lparr> net := BindReceive uid (net s) \<rparr>)"
| "net_step (AClear uid) s = Some (s\<lparr> net := ClearReceive uid (net s) \<rparr>)"

fun net_steps :: "net_action list \<Rightarrow> net_run \<Rightarrow> net_run option" where
  "net_steps [] s = Some s"
| "net_steps (a # as) s = do { s \<leftarrow> net_step a s; net_steps as s }"

definition net_start :: net_run where
  "net_start = \<lparr> net = MemoryNetwork, taken = (\<lambda>_. []), handed = (\<lambda>_. []) \<rparr>"

definition fifo_inv :: "net_run \<Rightarrow> bool" where
  "fifo_inv s \<longleftrightarrow> (\<forall>dir. taken s dir = handed s dir @ queues (net s) dir)"

lemma fifo_step: "net_step a s = Some t \<Longrightarrow> fifo_inv s \<Longrightarrow> fifo_inv t"
  by (cases a) (auto simp: fifo_inv_def Send_def Enqueue_def set_queue_def DeliverNext_def Disconnect_def
      Reconnect_def MemoryTransport_def Attach_def Detach_def BindReceive_def ClearReceive_def
      split: if_splits list.splits option.splits Option.bind_splits)

lemma fifo_steps: "net_steps as s = Some t \<Longrightarrow> fifo_inv s \<Longrightarrow> fifo_inv t"
  by (induction as arbitrary: s) (auto split: Option.bind_splits dest: fifo_step)

section \<open>Stream frames\<close>

datatype frame_kind = kApplication | kHeartbeatPing | kHeartbeatPong | kControl

fun frame_kind_byte :: "frame_kind \<Rightarrow> u8" where
  "frame_kind_byte kApplication = 1"
| "frame_kind_byte kHeartbeatPing = 2"
| "frame_kind_byte kHeartbeatPong = 3"
| "frame_kind_byte kControl = 4"

definition kAetherStreamHeaderSize :: nat where "kAetherStreamHeaderSize = 10"
definition kMaxApplicationPayloadSize :: nat where "kMaxApplicationPayloadSize = 16 * 1024 * 1024"
definition kHeartbeatPayloadSize :: nat where "kHeartbeatPayloadSize = 8"
definition kMaxControlPayloadSize :: nat where "kMaxControlPayloadSize = 1024"

definition EncodeAetherFrame :: "frame_kind \<times> bytes \<Rightarrow> bytes" where
  "EncodeAetherFrame = (\<lambda>(kind, payload).
     let size = (of_nat (length payload) :: u32) in
     [0x41, 0x54, 0x52, 0x4E, 1, frame_kind_byte kind,
      ucast (size AND 0xFF), ucast (drop_bit 8 size AND 0xFF), ucast (drop_bit 16 size AND 0xFF),
      ucast (drop_bit 24 size AND 0xFF)] @ payload)"

definition frame_kind_of :: "u8 \<Rightarrow> frame_kind option" where
  "frame_kind_of b =
     (if b = frame_kind_byte kApplication then Some kApplication
      else if b = frame_kind_byte kHeartbeatPing then Some kHeartbeatPing
      else if b = frame_kind_byte kHeartbeatPong then Some kHeartbeatPong
      else if b = frame_kind_byte kControl then Some kControl else None)"

definition payload_size_ok :: "frame_kind \<Rightarrow> nat \<Rightarrow> bool" where
  "payload_size_ok kind n =
     (if kind = kApplication then n \<le> kMaxApplicationPayloadSize
      else if kind = kControl then n \<noteq> 0 \<and> n \<le> kMaxControlPayloadSize
      else n = kHeartbeatPayloadSize)"

definition DecodeAetherFrame :: "bytes \<Rightarrow> (frame_kind \<times> bytes) option" where
  "DecodeAetherFrame bs =
     (if length bs < kAetherStreamHeaderSize then None
      else if bs ! 0 \<noteq> 0x41 \<or> bs ! 1 \<noteq> 0x54 \<or> bs ! 2 \<noteq> 0x52 \<or> bs ! 3 \<noteq> 0x4E then None
      else if bs ! 4 \<noteq> 1 then None
      else case frame_kind_of (bs ! 5) of
        None \<Rightarrow> None
      | Some kind \<Rightarrow>
          let size = (ucast (bs ! 6) OR push_bit 8 (ucast (bs ! 7)) OR push_bit 16 (ucast (bs ! 8)) OR
                      push_bit 24 (ucast (bs ! 9)) :: u32)
          in if length bs \<noteq> kAetherStreamHeaderSize + unat size then None
             else if \<not> payload_size_ok kind (unat size) then None
             else Some (kind, drop kAetherStreamHeaderSize bs))"

definition EncodeHeartbeatNonce :: "u64 \<Rightarrow> bytes" where
  "EncodeHeartbeatNonce nonce = map (\<lambda>i. ucast (drop_bit (i * 8) nonce AND 0xFF)) [0..<8]"

definition DecodeHeartbeatNonce :: "bytes \<Rightarrow> u64" where
  "DecodeHeartbeatNonce payload =
     (if length payload < kHeartbeatPayloadSize then 0
      else fold (\<lambda>i nonce. nonce OR push_bit (i * 8) (ucast (payload ! i))) [0..<8] 0)"

definition aether_frame_wf :: "frame_kind \<times> bytes \<Rightarrow> bool" where
  "aether_frame_wf f \<longleftrightarrow> payload_size_ok (fst f) (length (snd f))"

lemma frame_kind_of_byte [simp]: "frame_kind_of b = Some k \<longleftrightarrow> b = frame_kind_byte k"
  by (cases k) (auto simp: frame_kind_of_def)

lemma frame_kind_of_frame_kind_byte [simp]: "frame_kind_of (frame_kind_byte k) = Some k"
  by simp

lemma payload_size_32: "payload_size_ok k n \<Longrightarrow> n < 2 ^ 32"
  by (auto simp: payload_size_ok_def kMaxApplicationPayloadSize_def kMaxControlPayloadSize_def
      kHeartbeatPayloadSize_def split: if_splits)

lemma le_u32: "ucast a OR push_bit 8 (ucast b) OR push_bit 16 (ucast c) OR push_bit 24 (ucast d) = be_u32 d c b a"
  by (simp add: be_u32_def or.commute or.left_commute or.assoc)

lemma EncodeAetherFrame_layout: "EncodeAetherFrame (k, p) =
   [0x41, 0x54, 0x52, 0x4E, 1, frame_kind_byte k] @ rev (u32_bytes (of_nat (length p))) @ p"
  by (simp add: EncodeAetherFrame_def u32_bytes_def ucast_and_FF Let_def)

lemma AetherFrame_decode_encode:
  assumes "aether_frame_wf (k, p)"
  shows "DecodeAetherFrame (EncodeAetherFrame (k, p)) = Some (k, p)"
proof -
  have n: "unat (of_nat (length p) :: u32) = length p"
    using assms payload_size_32 by (intro unat_word_of_nat_32) (auto simp: aether_frame_wf_def)
  show ?thesis using assms n
    by (simp add: EncodeAetherFrame_layout u32_bytes_def DecodeAetherFrame_def kAetherStreamHeaderSize_def le_u32
        be_u32_bytes aether_frame_wf_def Let_def)
qed

lemma AetherFrame_encode_decode:
  assumes "DecodeAetherFrame b = Some (k, p)"
  shows "aether_frame_wf (k, p) \<and> EncodeAetherFrame (k, p) = b"
proof -
  let ?s = "be_u32 (b ! 9) (b ! 8) (b ! 7) (b ! 6)"
  have h: "10 \<le> length b" "b ! 0 = 0x41" "b ! 1 = 0x54" "b ! 2 = 0x52" "b ! 3 = 0x4E" "b ! 4 = 1"
    "b ! 5 = frame_kind_byte k" and len: "length b = 10 + unat ?s" and ok: "payload_size_ok k (unat ?s)"
    and p: "p = drop 10 b"
    using assms by (auto simp: DecodeAetherFrame_def kAetherStreamHeaderSize_def le_u32 Let_def split: if_splits option.splits)
  have lp: "length p = unat ?s" using len p by simp
  have "take 10 b = map ((!) b) [0..<10]" using h(1) by (intro nth_equalityI) auto
  then have t: "take 10 b = [b ! 0, b ! 1, b ! 2, b ! 3, b ! 4, b ! 5, b ! 6, b ! 7, b ! 8, b ! 9]"
    by (simp add: upt_rec eval_nat_numeral)
  have "of_nat (length p) = ?s" using lp by simp
  then have "EncodeAetherFrame (k, p) = take 10 b @ p"
    unfolding EncodeAetherFrame_layout t using h by (simp add: u32_bytes_be)
  then show ?thesis using ok lp p by (simp add: aether_frame_wf_def)
qed

interpretation stream: wire_codec EncodeAetherFrame DecodeAetherFrame aether_frame_wf
proof unfold_locales
  fix f :: "frame_kind \<times> bytes" and b
  show "aether_frame_wf f \<Longrightarrow> DecodeAetherFrame (EncodeAetherFrame f) = Some f"
    using AetherFrame_decode_encode by (cases f) simp
  show "DecodeAetherFrame b = Some f \<Longrightarrow> aether_frame_wf f \<and> EncodeAetherFrame f = b"
    using AetherFrame_encode_decode by (cases f) simp
next
  fix f g :: "frame_kind \<times> bytes" and r
  assume wf: "aether_frame_wf f" "aether_frame_wf g" and e: "EncodeAetherFrame g = EncodeAetherFrame f @ r"
  obtain k p l q where fg: "f = (k, p)" "g = (l, q)" by (cases f, cases g) auto
  have "(of_nat (length q) :: u32) = of_nat (length p)" "q = p @ r"
    using e by (auto simp: fg EncodeAetherFrame_layout)
  moreover have "length q < 2 ^ 32" "length p < 2 ^ 32"
    using wf payload_size_32 by (auto simp: fg aether_frame_wf_def)
  ultimately have "length q = length p" using of_nat_u32_inj by blast
  then show "r = []" using \<open>q = p @ r\<close> by simp
qed

lemma u64_from_bytes: "ucast (ucast v :: u8) OR push_bit 8 (ucast (ucast (drop_bit 8 v) :: u8)) OR
    push_bit 16 (ucast (ucast (drop_bit 16 v) :: u8)) OR push_bit 24 (ucast (ucast (drop_bit 24 v) :: u8)) OR
    push_bit 32 (ucast (ucast (drop_bit 32 v) :: u8)) OR push_bit 40 (ucast (ucast (drop_bit 40 v) :: u8)) OR
    push_bit 48 (ucast (ucast (drop_bit 48 v) :: u8)) OR push_bit 56 (ucast (ucast (drop_bit 56 v) :: u8)) = (v :: u64)"
proof (rule bit_word_eqI)
  fix n assume n: "n < LENGTH(64)"
  have byte: "bit (push_bit k (ucast (ucast (drop_bit k v) :: u8)) :: u64) n \<longleftrightarrow> k \<le> n \<and> n < k + 8 \<and> bit v n" for k
    using n by (auto simp: bit_simps)
  have low: "bit (ucast (ucast v :: u8) :: u64) n \<longleftrightarrow> n < 8 \<and> bit v n"
    using n by (auto simp: bit_simps)
  have "n < 64" using n by simp
  then have "n < 8 \<or> 8 \<le> n \<and> n < 8 + 8 \<or> 16 \<le> n \<and> n < 16 + 8 \<or> 24 \<le> n \<and> n < 24 + 8 \<or> 32 \<le> n \<and> n < 32 + 8 \<or>
      40 \<le> n \<and> n < 40 + 8 \<or> 48 \<le> n \<and> n < 48 + 8 \<or> 56 \<le> n \<and> n < 56 + (8::nat)" by linarith
  then show "bit (ucast (ucast v :: u8) OR push_bit 8 (ucast (ucast (drop_bit 8 v) :: u8)) OR
    push_bit 16 (ucast (ucast (drop_bit 16 v) :: u8)) OR push_bit 24 (ucast (ucast (drop_bit 24 v) :: u8)) OR
    push_bit 32 (ucast (ucast (drop_bit 32 v) :: u8)) OR push_bit 40 (ucast (ucast (drop_bit 40 v) :: u8)) OR
    push_bit 48 (ucast (ucast (drop_bit 48 v) :: u8)) OR push_bit 56 (ucast (ucast (drop_bit 56 v) :: u8)) :: u64) n = bit v n"
    by (simp only: bit_or_iff byte low) blast
qed

lemma upt_8: "[0..<8] = [0, 1, 2, 3, 4, 5, 6, 7]"
  by (simp add: upt_rec)

lemma EncodeHeartbeatNonce_list: "EncodeHeartbeatNonce v = [ucast v, ucast (drop_bit 8 v), ucast (drop_bit 16 v),
   ucast (drop_bit 24 v), ucast (drop_bit 32 v), ucast (drop_bit 40 v), ucast (drop_bit 48 v), ucast (drop_bit 56 v)]"
  unfolding EncodeHeartbeatNonce_def upt_8 by (simp add: ucast_and_FF)

lemma HeartbeatNonce_roundtrip: "DecodeHeartbeatNonce (EncodeHeartbeatNonce v) = v"
proof -
  have "DecodeHeartbeatNonce [a, b, c, d, e, f, g, h] = ucast a OR push_bit 8 (ucast b) OR push_bit 16 (ucast c) OR
      push_bit 24 (ucast d) OR push_bit 32 (ucast e) OR push_bit 40 (ucast f) OR push_bit 48 (ucast g) OR
      push_bit 56 (ucast h)" for a b c d e f g h
    unfolding DecodeHeartbeatNonce_def upt_8 kHeartbeatPayloadSize_def by (simp add: or.assoc)
  then show ?thesis by (simp only: EncodeHeartbeatNonce_list u64_from_bytes)
qed

section \<open>What the transport promises\<close>

text \<open>Each direction is a queue: in any run of sends, deliveries, outages and endpoint changes, the packets a
  direction took in are those it handed over, in order, followed by those still pending.\<close>

theorem direction_is_a_queue:
  assumes "net_steps as net_start = Some s"
  shows "taken s (from, to) = handed s (from, to) @ queues (net s) (from, to) \<and>
    PendingCount from to (net s) = length (taken s (from, to)) - length (handed s (from, to))"
proof -
  have "fifo_inv s" by (rule fifo_steps [OF assms]) (simp add: fifo_inv_def net_start_def MemoryNetwork_def)
  then show ?thesis by (simp add: fifo_inv_def PendingCount_def)
qed

definition sample_actions :: "net_action list" where
  "sample_actions = [AAttach ''a'', AAttach ''b'', ABind ''b'', ASend ''a'' ''b'' [1], ADisconnect ''a'' ''b'',
     ASend ''a'' ''b'' [2], AReconnect ''a'' ''b'', ASend ''a'' ''b'' [3], ADeliver ''a'' ''b'']"

lemma direction_is_a_queue_witness:
  "\<exists>s. net_steps sample_actions net_start = Some s \<and> taken s (''a'', ''b'') = [[1], [3]] \<and>
    handed s (''a'', ''b'') = [[1]] \<and> PendingCount ''a'' ''b'' (net s) = 1"
proof -
  have "\<exists>s. net_steps sample_actions net_start = Some s \<and> taken s (''a'', ''b'') = [[1], [3]] \<and>
      handed s (''a'', ''b'') = [[1]]"
    by (simp add: sample_actions_def net_start_def MemoryNetwork_def MemoryTransport_def Attach_def BindReceive_def
        Send_def Enqueue_def IsConnected_def set_queue_def Disconnect_def Reconnect_def DeliverNext_def)
  then obtain s where s: "net_steps sample_actions net_start = Some s" "taken s (''a'', ''b'') = [[1], [3]]"
      "handed s (''a'', ''b'') = [[1]]" by blast
  then show ?thesis using direction_is_a_queue [OF s(1), of "''a''" "''b''"] by simp
qed

text \<open>The stream frame decoder accepts exactly the encodings of frames whose payload size fits their kind,
  and returns the frame that was encoded.\<close>

theorem stream_decoder_exact:
  "DecodeAetherFrame bs = Some f \<longleftrightarrow> payload_size_ok (fst f) (length (snd f)) \<and> bs = EncodeAetherFrame f"
  using stream.dec_iff [of bs f] by (simp add: aether_frame_wf_def)

text \<open>A heartbeat survives the wire: a nonce put into a ping or pong frame is read back from the frame.\<close>

theorem heartbeat_nonce_survives:
  "DecodeAetherFrame (EncodeAetherFrame (kHeartbeatPing, EncodeHeartbeatNonce v)) = Some (kHeartbeatPing, EncodeHeartbeatNonce v) \<and>
   DecodeAetherFrame (EncodeAetherFrame (kHeartbeatPong, EncodeHeartbeatNonce v)) = Some (kHeartbeatPong, EncodeHeartbeatNonce v) \<and>
   DecodeHeartbeatNonce (EncodeHeartbeatNonce v) = v"
  by (simp add: AetherFrame_decode_encode aether_frame_wf_def payload_size_ok_def kHeartbeatPayloadSize_def
      EncodeHeartbeatNonce_def HeartbeatNonce_roundtrip [unfolded EncodeHeartbeatNonce_def])

end
