(* ===== verification/ChatEndpoint.thy ===== *)
theory ChatEndpoint
  imports ChatBootstrap Transport
begin

text \<open>
  The Aether endpoint of the chat (src/examples/chat_demo/aether/chat_aether_runtime.cpp): the state of one peer, the
  write pump with its completion notices, heartbeats and presence, and the passes of ThreadMain over all peers.  Of the
  Aether library the model takes the readings the code asks for: whether a UID text is one, the state of a stream and
  whether a started write has finished already.  Clock readings are milliseconds.  \<open>ps_effects\<close> lists, in order, what
  a peer's callbacks and writes do.
\<close>

section \<open>State\<close>

datatype link_state = Linked | Unlinked | LinkError

record stream_info =
  si_writable :: bool
  si_rec_element_size :: nat
  si_max_element_size :: nat

datatype write_status = Write_Success | Write_Fail | Write_Stop

type_synonym pending_out = "frame_kind \<times> bytes"

record terminal_write_notice =
  tn_token :: u64
  tn_incarnation :: u64
  tn_status :: write_status

datatype peer_effect =
    Reported peer_presence
  | Wrote u64 frame_kind bytes
  | Oversize frame_kind bytes
  | Settled u64 write_status
  | ChannelDestroyed
  | ClearedPending "pending_out list"
  | FrameReceived bytes
  | ControlReceived bytes

record peer_state =
  channel_incarnation :: u64
  next_write_token :: u64
  active_write_token :: u64
  active_kind :: frame_kind
  active_payload :: bytes
  terminal_notice :: "terminal_write_notice option"
  terminal_notice_pending :: bool
  pending_out :: "pending_out list"
  has_stream :: bool
  stream_linked :: bool
  last_rx_ms :: u64
  last_heartbeat_tx_ms :: u64
  last_heartbeat_rx_ms :: u64
  reported_presence :: peer_presence
  ps_effects :: "peer_effect list"

definition new_peer :: peer_state where
  "new_peer = \<lparr> channel_incarnation = 0, next_write_token = 1, active_write_token = 0, active_kind = kApplication, active_payload = [],
     terminal_notice = None, terminal_notice_pending = False, pending_out = [], has_stream = False, stream_linked = False,
     last_rx_ms = 0, last_heartbeat_tx_ms = 0, last_heartbeat_rx_ms = 0, reported_presence = Peer_Unknown, ps_effects = [] \<rparr>"

record endpoint_config =
  heartbeat_period_ms :: u64
  offline_after_ms :: u64

text \<open>The configuration that Start accepts; the product wraps.\<close>

definition config_valid :: "endpoint_config \<Rightarrow> bool" where
  "config_valid cfg \<longleftrightarrow> \<not> (heartbeat_period_ms cfg < 250 \<or> offline_after_ms cfg < heartbeat_period_ms cfg * 2)"

section \<open>One peer\<close>

definition peer_effect :: "peer_effect \<Rightarrow> peer_state \<Rightarrow> peer_state" where
  "peer_effect e p = p\<lparr> ps_effects := ps_effects p @ [e] \<rparr>"

definition set_presence :: "peer_presence \<Rightarrow> peer_state \<Rightarrow> peer_state" where
  "set_presence x p = (if reported_presence p \<noteq> x then peer_effect (Reported x) (p\<lparr> reported_presence := x \<rparr>) else p)"

definition same_pending :: "frame_kind \<Rightarrow> bytes \<Rightarrow> peer_state \<Rightarrow> bool" where
  "same_pending kind bs p \<longleftrightarrow>
     (active_write_token p \<noteq> 0 \<and> active_kind p = kind \<and> active_payload p = bs) \<or> (kind, bs) \<in> set (pending_out p)"

definition has_pending_kind :: "frame_kind \<Rightarrow> peer_state \<Rightarrow> bool" where
  "has_pending_kind kind p \<longleftrightarrow> (active_write_token p \<noteq> 0 \<and> active_kind p = kind) \<or> (\<exists>item\<in>set (pending_out p). fst item = kind)"

definition queue_pending :: "pending_out \<Rightarrow> peer_state \<Rightarrow> peer_state" where
  "queue_pending item p = (if same_pending (fst item) (snd item) p then p else p\<lparr> pending_out := pending_out p @ [item] \<rparr>)"

definition destroy_peer_channel :: "peer_state \<Rightarrow> peer_state" where
  "destroy_peer_channel p = peer_effect ChannelDestroyed (p\<lparr> has_stream := False, stream_linked := False, active_write_token := 0,
     active_payload := [], terminal_notice := None, terminal_notice_pending := False \<rparr>)"

text \<open>A pong replaces the unsent ones.\<close>

definition queue_pong :: "bytes \<Rightarrow> peer_state \<Rightarrow> peer_state" where
  "queue_pong pong p =
     (if same_pending kHeartbeatPong pong p then p
      else p\<lparr> pending_out := filter (\<lambda>item. fst item \<noteq> kHeartbeatPong) (pending_out p) @ [(kHeartbeatPong, pong)] \<rparr>)"

definition on_stream_data :: "u64 \<Rightarrow> bytes \<Rightarrow> peer_state \<Rightarrow> peer_state" where
  "on_stream_data now_ms bs p =
     (case DecodeAetherFrame bs of
        None \<Rightarrow> p
      | Some (kind, payload) \<Rightarrow>
          let p = p\<lparr> last_rx_ms := now_ms \<rparr> in
          case kind of
            kHeartbeatPing \<Rightarrow> queue_pong (EncodeHeartbeatNonce (DecodeHeartbeatNonce payload))
              (set_presence Peer_Online (p\<lparr> last_heartbeat_rx_ms := now_ms \<rparr>))
          | kHeartbeatPong \<Rightarrow> set_presence Peer_Online (p\<lparr> last_heartbeat_rx_ms := now_ms \<rparr>)
          | kApplication \<Rightarrow> peer_effect (FrameReceived payload) (set_presence Peer_Online p)
          | kControl \<Rightarrow> peer_effect (ControlReceived payload) p)"

definition on_stream_update :: "link_state \<Rightarrow> peer_state \<Rightarrow> peer_state" where
  "on_stream_update link p =
     (if \<not> has_stream p then p
      else case link of
        Linked \<Rightarrow> let p = p\<lparr> stream_linked := True \<rparr> in
          if reported_presence p \<noteq> Peer_Online then set_presence Peer_Connecting p else p
      | _ \<Rightarrow> let p = p\<lparr> stream_linked := False \<rparr> in
          if reported_presence p = Peer_Online then set_presence Peer_Connecting p else p)"

definition bind_peer_stream :: "link_state \<Rightarrow> u64 \<Rightarrow> peer_state \<Rightarrow> peer_state" where
  "bind_peer_stream link now_ms p =
     (let p = destroy_peer_channel p;
          p = p\<lparr> channel_incarnation := channel_incarnation p + 1, has_stream := True, stream_linked := (link = Linked) \<rparr>;
          p = (if reported_presence p \<noteq> Peer_Online then set_presence Peer_Connecting p else p)
      in if last_rx_ms p = 0 then p\<lparr> last_rx_ms := now_ms \<rparr> else p)"

definition close_peer :: "peer_state \<Rightarrow> peer_state" where
  "close_peer p =
     (let p = destroy_peer_channel p;
          p = peer_effect (ClearedPending (pending_out p)) (p\<lparr> pending_out := [], channel_incarnation := channel_incarnation p + 1 \<rparr>)
      in set_presence Peer_Offline p)"

text \<open>The status callback of a write: it only leaves a notice.\<close>

definition ApplyWriteStatus :: "u64 \<Rightarrow> u64 \<Rightarrow> write_status \<Rightarrow> peer_state \<Rightarrow> peer_state" where
  "ApplyWriteStatus token inc status p =
     (if channel_incarnation p \<noteq> inc then p
      else if active_write_token p \<noteq> token then p
      else p\<lparr> terminal_notice := Some \<lparr> tn_token = token, tn_incarnation = inc, tn_status = status \<rparr>, terminal_notice_pending := True \<rparr>)"

definition last_active :: "peer_state \<Rightarrow> u64" where
  "last_active p = max (last_heartbeat_rx_ms p) (last_rx_ms p)"

definition settle_write :: "endpoint_config \<Rightarrow> u64 \<Rightarrow> terminal_write_notice \<Rightarrow> peer_state \<Rightarrow> peer_state" where
  "settle_write cfg now_ms nt p =
     (let p = peer_effect (Settled (tn_token nt) (tn_status nt)) (p\<lparr> active_write_token := 0, active_payload := [] \<rparr>) in
      if tn_status nt = Write_Fail then
        let p = p\<lparr> stream_linked := False \<rparr> in
        set_presence (if now_ms - last_active p \<ge> offline_after_ms cfg then Peer_Offline else Peer_Connecting) p
      else p)"

definition process_write_notice :: "endpoint_config \<Rightarrow> u64 \<Rightarrow> peer_state \<Rightarrow> peer_state" where
  "process_write_notice cfg now_ms p =
     (if \<not> terminal_notice_pending p then p
      else let p = p\<lparr> terminal_notice_pending := False \<rparr> in
        case terminal_notice p of
          None \<Rightarrow> p
        | Some nt \<Rightarrow>
            let p = p\<lparr> terminal_notice := None \<rparr> in
            if tn_incarnation nt \<noteq> channel_incarnation p then p
            else if active_write_token p = 0 \<or> tn_token nt \<noteq> active_write_token p then p
            else settle_write cfg now_ms nt p)"

text \<open>One write: the item becomes active before Write; a write that is finished already counts as failed.\<close>

definition start_write :: "bool \<Rightarrow> pending_out \<Rightarrow> peer_state \<Rightarrow> peer_state" where
  "start_write finished item p =
     (let token = next_write_token p;
          p = peer_effect (Wrote token (fst item) (snd item)) (p\<lparr> active_kind := fst item, active_payload := snd item,
            active_write_token := token, next_write_token := token + 1 \<rparr>)
      in if finished then p\<lparr> terminal_notice := Some \<lparr> tn_token = token, tn_incarnation = channel_incarnation p, tn_status = Write_Fail \<rparr>,
           terminal_notice_pending := True \<rparr>
         else p)"

text \<open>The loop of try_start_write over the pending frames.\<close>

fun write_pump :: "stream_info \<Rightarrow> bool \<Rightarrow> pending_out list \<Rightarrow> peer_state \<Rightarrow> peer_state" where
  "write_pump info finished [] p = p\<lparr> pending_out := [] \<rparr>"
| "write_pump info finished (item # rest) p =
     (if si_rec_element_size info = 0 \<or> \<not> si_writable info then p\<lparr> pending_out := item # rest \<rparr>
      else if si_max_element_size info \<noteq> 0 \<and> length (EncodeAetherFrame item) > si_max_element_size info
      then write_pump info finished rest (peer_effect (Oversize (fst item) (snd item)) p)
      else start_write finished item (p\<lparr> pending_out := rest \<rparr>))"

definition try_start_write :: "stream_info \<Rightarrow> bool \<Rightarrow> peer_state \<Rightarrow> peer_state" where
  "try_start_write info finished p =
     (if active_write_token p = 0 \<and> has_stream p then write_pump info finished (pending_out p) p else p)"

text \<open>At most one unsent ping.\<close>

definition schedule_heartbeat_ping :: "u64 \<Rightarrow> peer_state \<Rightarrow> u64 \<times> peer_state" where
  "schedule_heartbeat_ping nonce p =
     (if \<not> has_stream p then (nonce, p)
      else if has_pending_kind kHeartbeatPing p then (nonce, p)
      else (nonce + 1, queue_pending (kHeartbeatPing, EncodeHeartbeatNonce nonce) p))"

definition heartbeat_due :: "endpoint_config \<Rightarrow> u64 \<Rightarrow> peer_state \<Rightarrow> bool" where
  "heartbeat_due cfg now_ms p \<longleftrightarrow> has_stream p \<and> (last_heartbeat_tx_ms p = 0 \<or> now_ms - last_heartbeat_tx_ms p \<ge> heartbeat_period_ms cfg)"

definition send_heartbeat :: "endpoint_config \<Rightarrow> u64 \<Rightarrow> u64 \<Rightarrow> peer_state \<Rightarrow> u64 \<times> peer_state" where
  "send_heartbeat cfg now_ms nonce p =
     (if heartbeat_due cfg now_ms p
      then let (nonce, p) = schedule_heartbeat_ping nonce p in (nonce, p\<lparr> last_heartbeat_tx_ms := now_ms \<rparr>)
      else (nonce, p))"

definition check_liveness :: "endpoint_config \<Rightarrow> u64 \<Rightarrow> peer_state \<Rightarrow> peer_state" where
  "check_liveness cfg now_ms p =
     (if (reported_presence p = Peer_Connecting \<or> reported_presence p = Peer_Online) \<and>
         last_active p \<noteq> 0 \<and> now_ms - last_active p \<ge> offline_after_ms cfg
      then set_presence Peer_Offline p else p)"


section \<open>All peers\<close>

record endpoint =
  ep_peers :: "string \<Rightarrow> peer_state option"
  ep_next_nonce :: u64

definition new_endpoint :: endpoint where
  "new_endpoint = \<lparr> ep_peers = (\<lambda>uid. None), ep_next_nonce = 1 \<rparr>"

text \<open>\<open>peers[uid]\<close>, which inserts a fresh state.\<close>

definition peer_at :: "string \<Rightarrow> endpoint \<Rightarrow> peer_state" where
  "peer_at uid ep = (case ep_peers ep uid of Some p \<Rightarrow> p | None \<Rightarrow> new_peer)"

definition put_peer :: "string \<Rightarrow> peer_state \<Rightarrow> endpoint \<Rightarrow> endpoint" where
  "put_peer uid p ep = ep\<lparr> ep_peers := (ep_peers ep)(uid \<mapsto> p) \<rparr>"

text \<open>A peer that \<open>peers.find\<close> finds.\<close>

definition with_peer :: "string \<Rightarrow> (peer_state \<Rightarrow> peer_state) \<Rightarrow> endpoint \<Rightarrow> endpoint" where
  "with_peer uid f ep = (case ep_peers ep uid of Some p \<Rightarrow> put_peer uid (f p) ep | None \<Rightarrow> ep)"

text \<open>\<open>valid_uid\<close> is the test that the parsed UID is not empty; \<open>link\<close> is the state of the stream just created.\<close>

definition open_peer_internal :: "(string \<Rightarrow> bool) \<Rightarrow> link_state \<Rightarrow> u64 \<Rightarrow> string \<Rightarrow> endpoint \<Rightarrow> endpoint" where
  "open_peer_internal valid_uid link now_ms uid ep =
     (if uid = [] then ep
      else if \<not> valid_uid uid then ep
      else if has_stream (peer_at uid ep) then ep
      else put_peer uid (bind_peer_stream link now_ms (peer_at uid ep)) ep)"

datatype endpoint_command =
    Cmd_OpenPeer string
  | Cmd_Send string bytes
  | Cmd_SendControl string bytes
  | Cmd_ClosePeer string

definition queue_frame ::
  "(string \<Rightarrow> bool) \<Rightarrow> link_state \<Rightarrow> u64 \<Rightarrow> frame_kind \<Rightarrow> string \<Rightarrow> bytes \<Rightarrow> endpoint \<Rightarrow> endpoint" where
  "queue_frame valid_uid link now_ms kind uid bs ep =
     (let ep = put_peer uid (queue_pending (kind, bs) (peer_at uid ep)) ep in
      if \<not> has_stream (peer_at uid ep) then open_peer_internal valid_uid link now_ms uid ep else ep)"

fun run_command :: "(string \<Rightarrow> bool) \<Rightarrow> link_state \<Rightarrow> u64 \<Rightarrow> endpoint_command \<Rightarrow> endpoint \<Rightarrow> endpoint" where
  "run_command valid_uid link now_ms (Cmd_OpenPeer uid) ep = open_peer_internal valid_uid link now_ms uid ep"
| "run_command valid_uid link now_ms (Cmd_Send uid bs) ep = queue_frame valid_uid link now_ms kApplication uid bs ep"
| "run_command valid_uid link now_ms (Cmd_SendControl uid bs) ep = queue_frame valid_uid link now_ms kControl uid bs ep"
| "run_command valid_uid link now_ms (Cmd_ClosePeer uid) ep = with_peer uid close_peer ep"

text \<open>The passes of one turn of the loop, over the peers in the order of the map.\<close>

definition heartbeat_peer :: "endpoint_config \<Rightarrow> u64 \<Rightarrow> string \<Rightarrow> endpoint \<Rightarrow> endpoint" where
  "heartbeat_peer cfg now_ms uid ep =
     (case ep_peers ep uid of
        None \<Rightarrow> ep
      | Some p \<Rightarrow> let (nonce, p) = send_heartbeat cfg now_ms (ep_next_nonce ep) p in
          put_peer uid (check_liveness cfg now_ms p) (ep\<lparr> ep_next_nonce := nonce \<rparr>))"

definition heartbeat_pass :: "endpoint_config \<Rightarrow> u64 \<Rightarrow> string list \<Rightarrow> endpoint \<Rightarrow> endpoint" where
  "heartbeat_pass cfg now_ms uids ep = fold (heartbeat_peer cfg now_ms) uids ep"

definition write_pass ::
  "endpoint_config \<Rightarrow> (string \<Rightarrow> u64) \<Rightarrow> (string \<Rightarrow> stream_info) \<Rightarrow> (string \<Rightarrow> bool) \<Rightarrow> string list \<Rightarrow> endpoint \<Rightarrow> endpoint" where
  "write_pass cfg now info finished uids ep =
     fold (\<lambda>uid. with_peer uid (\<lambda>p. try_start_write (info uid) (finished uid) (process_write_notice cfg (now uid) p))) uids ep"

section \<open>The monitor of the local connectivity\<close>

text \<open>\<open>Tick\<close> with the diagnosis it reads; the second component is the callback, made when there is a change.\<close>

definition local_connectivity_tick ::
  "bool \<times> bool \<Rightarrow> (bool \<times> bool) option \<Rightarrow> (bool \<times> bool) option \<times> (bool \<times> bool) option" where
  "local_connectivity_tick diag last_reported =
     (if last_reported = Some diag then (last_reported, None) else (Some diag, Some diag))"

section \<open>Runs\<close>

text \<open>What reaches the endpoint: commands, passes of the loop, and the callbacks of the Aether library.\<close>

datatype endpoint_input =
    Ep_command link_state u64 endpoint_command
  | Ep_heartbeats u64 "string list"
  | Ep_writes "string \<Rightarrow> u64" "string \<Rightarrow> stream_info" "string \<Rightarrow> bool" "string list"
  | Ep_data string u64 bytes
  | Ep_update string link_state
  | Ep_new_port string link_state u64
  | Ep_status string u64 u64 write_status

fun endpoint_step :: "(string \<Rightarrow> bool) \<Rightarrow> endpoint_config \<Rightarrow> endpoint_input \<Rightarrow> endpoint \<Rightarrow> endpoint" where
  "endpoint_step valid_uid cfg (Ep_command link now_ms cmd) ep = run_command valid_uid link now_ms cmd ep"
| "endpoint_step valid_uid cfg (Ep_heartbeats now_ms uids) ep = heartbeat_pass cfg now_ms uids ep"
| "endpoint_step valid_uid cfg (Ep_writes now info finished uids) ep = write_pass cfg now info finished uids ep"
| "endpoint_step valid_uid cfg (Ep_data uid now_ms bs) ep = with_peer uid (on_stream_data now_ms bs) ep"
| "endpoint_step valid_uid cfg (Ep_update uid link) ep = with_peer uid (on_stream_update link) ep"
| "endpoint_step valid_uid cfg (Ep_new_port uid link now_ms) ep = put_peer uid (bind_peer_stream link now_ms (peer_at uid ep)) ep"
| "endpoint_step valid_uid cfg (Ep_status uid token inc status) ep = with_peer uid (ApplyWriteStatus token inc status) ep"

definition endpoint_run :: "(string \<Rightarrow> bool) \<Rightarrow> endpoint_config \<Rightarrow> endpoint_input list \<Rightarrow> endpoint \<Rightarrow> endpoint" where
  "endpoint_run valid_uid cfg inputs ep = fold (endpoint_step valid_uid cfg) inputs ep"

text \<open>The same for one peer.\<close>

datatype peer_act =
    Act_queue frame_kind bytes
  | Act_bind link_state u64
  | Act_close
  | Act_data u64 bytes
  | Act_update link_state
  | Act_status u64 u64 write_status
  | Act_notice u64
  | Act_write stream_info bool
  | Act_heartbeat u64 u64
  | Act_liveness u64

fun peer_step :: "endpoint_config \<Rightarrow> peer_act \<Rightarrow> peer_state \<Rightarrow> peer_state" where
  "peer_step cfg (Act_queue kind bs) p = queue_pending (kind, bs) p"
| "peer_step cfg (Act_bind link now_ms) p = bind_peer_stream link now_ms p"
| "peer_step cfg Act_close p = close_peer p"
| "peer_step cfg (Act_data now_ms bs) p = on_stream_data now_ms bs p"
| "peer_step cfg (Act_update link) p = on_stream_update link p"
| "peer_step cfg (Act_status token inc status) p = ApplyWriteStatus token inc status p"
| "peer_step cfg (Act_notice now_ms) p = process_write_notice cfg now_ms p"
| "peer_step cfg (Act_write info finished) p = try_start_write info finished p"
| "peer_step cfg (Act_heartbeat now_ms nonce) p = snd (send_heartbeat cfg now_ms nonce p)"
| "peer_step cfg (Act_liveness now_ms) p = check_liveness cfg now_ms p"

definition peer_run :: "endpoint_config \<Rightarrow> peer_act list \<Rightarrow> peer_state \<Rightarrow> peer_state" where
  "peer_run cfg acts p = fold (peer_step cfg) acts p"

end
