(* ===== verification/ChatEndpointProperties.thy ===== *)
theory ChatEndpointProperties
  imports ChatEndpoint
begin

text \<open>
  Guarantees of the endpoint over all its runs: one write at a time with tokens in order, frames written in the order in
  which they were accepted, and presence reports that change every time and expire with silence.
\<close>

section \<open>Readings of the effects\<close>

fun tokens :: "peer_effect list \<Rightarrow> u64 list" where
  "tokens [] = []"
| "tokens (Wrote t kind bs # es) = t # tokens es"
| "tokens (e # es) = tokens es"

text \<open>The write in flight after the effects: \<open>None\<close> when a write started during another, or another one settled.\<close>

fun flight :: "u64 option \<Rightarrow> peer_effect list \<Rightarrow> u64 option option" where
  "flight f [] = Some f"
| "flight f (Wrote t kind bs # es) = (if f = None then flight (Some t) es else None)"
| "flight f (Settled t status # es) = (if f = Some t then flight None es else None)"
| "flight f (ChannelDestroyed # es) = flight None es"
| "flight f (e # es) = flight f es"

fun reports :: "peer_effect list \<Rightarrow> peer_presence list" where
  "reports [] = []"
| "reports (Reported x # es) = x # reports es"
| "reports (e # es) = reports es"

text \<open>The frames that left the queue.\<close>

fun dequeued :: "peer_effect list \<Rightarrow> pending_out list" where
  "dequeued [] = []"
| "dequeued (Wrote t kind bs # es) = (kind, bs) # dequeued es"
| "dequeued (Oversize kind bs # es) = (kind, bs) # dequeued es"
| "dequeued (ClearedPending items # es) = items @ dequeued es"
| "dequeued (e # es) = dequeued es"

lemma tokens_append [simp]: "tokens (xs @ ys) = tokens xs @ tokens ys"
  by (induction xs rule: tokens.induct) auto

lemma flight_append [simp]: "flight f (xs @ ys) = flight f xs \<bind> (\<lambda>f. flight f ys)"
  by (induction f xs rule: flight.induct) auto

lemma reports_append [simp]: "reports (xs @ ys) = reports xs @ reports ys"
  by (induction xs rule: reports.induct) auto

lemma taken_append [simp]: "dequeued (xs @ ys) = dequeued xs @ dequeued ys"
  by (induction xs rule: dequeued.induct) auto

lemma effects_peer_effect [simp]: "ps_effects (peer_effect e p) = ps_effects p @ [e]"
  by (simp add: peer_effect_def)

lemma peer_effect_fields [simp]:
  "active_write_token (peer_effect e p) = active_write_token p" "next_write_token (peer_effect e p) = next_write_token p"
  "pending_out (peer_effect e p) = pending_out p" "terminal_notice (peer_effect e p) = terminal_notice p"
  "reported_presence (peer_effect e p) = reported_presence p" "has_stream (peer_effect e p) = has_stream p"
  "last_active (peer_effect e p) = last_active p" "channel_incarnation (peer_effect e p) = channel_incarnation p"
  by (simp_all add: peer_effect_def last_active_def)

lemma set_presence_fields [simp]:
  "active_write_token (set_presence x p) = active_write_token p" "next_write_token (set_presence x p) = next_write_token p"
  "pending_out (set_presence x p) = pending_out p" "terminal_notice (set_presence x p) = terminal_notice p"
  "reported_presence (set_presence x p) = x" "has_stream (set_presence x p) = has_stream p" "last_active (set_presence x p) = last_active p"
  "channel_incarnation (set_presence x p) = channel_incarnation p"
  by (simp_all add: set_presence_def last_active_def peer_effect_def)

section \<open>One write at a time\<close>

definition token_list :: "nat \<Rightarrow> u64 list" where
  "token_list n = map of_nat [1..<Suc n]"

lemma token_list_Suc: "token_list (Suc n) = token_list n @ [of_nat (Suc n)]"
  by (simp add: token_list_def)

definition write_inv :: "peer_state \<Rightarrow> bool" where
  "write_inv p \<longleftrightarrow> tokens (ps_effects p) = token_list (length (tokens (ps_effects p))) \<and>
     next_write_token p = of_nat (Suc (length (tokens (ps_effects p)))) \<and>
     (length (tokens (ps_effects p)) < 2 ^ 64 \<longrightarrow>
       flight None (ps_effects p) = Some (if active_write_token p = 0 then None else Some (active_write_token p)))"

lemma write_inv_presence [simp]: "write_inv (set_presence x p) = write_inv p"
  by (cases "flight None (ps_effects p)") (auto simp: write_inv_def set_presence_def Let_def)

lemma write_inv_effect:
  assumes "write_inv p" "e \<in> {FrameReceived d, ControlReceived d, ClearedPending items, Oversize k d}"
  shows "write_inv (peer_effect e p)"
  using assms by (cases "flight None (ps_effects p)") (auto simp: write_inv_def)

lemma write_inv_pending: "write_inv (p\<lparr> pending_out := q, channel_incarnation := c \<rparr>) = write_inv p"
  by (simp add: write_inv_def)

lemma destroy_write_inv: "write_inv p \<Longrightarrow> write_inv (destroy_peer_channel p)"
  by (auto simp: write_inv_def destroy_peer_channel_def Let_def)

lemma start_write_inv:
  assumes "write_inv p" "active_write_token p = 0"
  shows "write_inv (start_write finished item p)"
proof -
  let ?n = "length (tokens (ps_effects p))"
  have t: "tokens (ps_effects p) = token_list ?n" "next_write_token p = of_nat (Suc ?n)"
    and f: "?n < 2 ^ 64 \<Longrightarrow> flight None (ps_effects p) = Some None"
    using assms by (simp_all add: write_inv_def)
  have nz: "(of_nat (Suc m) :: u64) \<noteq> 0" if "Suc m < 2 ^ 64" for m
  proof -
    have "unat (of_nat (Suc m) :: u64) = Suc m" using that by (simp add: unsigned_of_nat take_bit_nat_eq_self del: of_nat_Suc)
    then show ?thesis by (metis nat.distinct(1) unat_eq_0)
  qed
  have e: "ps_effects (start_write finished item p) = ps_effects p @ [Wrote (next_write_token p) (fst item) (snd item)]"
    "next_write_token (start_write finished item p) = next_write_token p + 1"
    "active_write_token (start_write finished item p) = next_write_token p"
    by (simp_all add: start_write_def Let_def)
  have "tokens (ps_effects (start_write finished item p)) = token_list (Suc ?n)"
    using t by (simp add: e token_list_Suc del: of_nat_Suc)
  moreover have "length (tokens (ps_effects (start_write finished item p))) = Suc ?n" by (simp add: e)
  moreover have "next_write_token (start_write finished item p) = of_nat (Suc (Suc ?n))" using t(2) by (simp add: e)
  moreover have "flight None (ps_effects (start_write finished item p)) = Some (Some (next_write_token p)) \<and> next_write_token p \<noteq> 0"
    if "Suc ?n < 2 ^ 64"
    using that f nz [of ?n] t(2) by (simp add: e del: of_nat_Suc)
  ultimately show ?thesis unfolding write_inv_def by (simp only: e(3) if_False) presburger
qed

lemma write_pump_inv: "write_inv p \<Longrightarrow> active_write_token p = 0 \<Longrightarrow> write_inv (write_pump info finished items p)"
proof (induction info finished items p rule: write_pump.induct)
  case (1 info finished p)
  then show ?case by (simp add: write_inv_def)
next
  case (2 info finished item rest p)
  have "write_inv (p\<lparr> pending_out := rest \<rparr>)" using 2 by (simp add: write_inv_def)
  then have s: "write_inv (start_write finished item (p\<lparr> pending_out := rest \<rparr>))" by (rule start_write_inv) (use 2 in simp)
  have "write_inv (peer_effect (Oversize (fst item) (snd item)) p)"
    by (rule write_inv_effect [OF 2(2)]) simp
  then show ?case using 2 s by (auto simp: write_inv_def)
qed

lemma peer_step_write_inv:
  assumes "write_inv p"
  shows "write_inv (peer_step cfg act p)"
proof (cases act)
  case (Act_queue kind bs)
  then show ?thesis using assms by (simp add: queue_pending_def write_inv_def)
next
  case (Act_bind link now_ms)
  have "write_inv (destroy_peer_channel p)" using assms by (rule destroy_write_inv)
  then have "write_inv ((destroy_peer_channel p)\<lparr> channel_incarnation := c, has_stream := True, stream_linked := l \<rparr>)" for c l
    by (simp add: write_inv_def)
  then have "write_inv (let q = (destroy_peer_channel p)\<lparr> channel_incarnation := c, has_stream := True, stream_linked := l \<rparr>
      in if reported_presence q \<noteq> Peer_Online then set_presence Peer_Connecting q else q)" for c l
    by (simp add: Let_def)
  then show ?thesis using Act_bind by (simp add: bind_peer_stream_def Let_def) (auto simp: write_inv_def)
next
  case Act_close
  have "write_inv (destroy_peer_channel p)" using assms by (rule destroy_write_inv)
  then show ?thesis using Act_close
    by (simp add: close_peer_def Let_def) (rule write_inv_effect, simp_all add: write_inv_pending)
next
  case (Act_data now_ms bs)
  have u: "write_inv (p\<lparr> last_rx_ms := t \<rparr>)" "write_inv (p\<lparr> last_rx_ms := t, last_heartbeat_rx_ms := t \<rparr>)" for t
    using assms by (simp_all add: write_inv_def)
  have q: "write_inv (queue_pong x q) = write_inv q" for x q by (simp add: queue_pong_def write_inv_def)
  show ?thesis using Act_data u assms
    by (auto simp: on_stream_data_def Let_def q intro!: write_inv_effect split: option.split frame_kind.split)
next
  case (Act_update link)
  have "write_inv (p\<lparr> stream_linked := l \<rparr>)" for l using assms by (simp add: write_inv_def)
  then show ?thesis using Act_update assms by (simp add: on_stream_update_def Let_def split: link_state.split)
next
  case (Act_status token inc status)
  then show ?thesis using assms by (simp add: ApplyWriteStatus_def write_inv_def)
next
  case (Act_notice now_ms)
  have s: "write_inv (settle_write cfg now_ms nt q)" if "write_inv q" "active_write_token q \<noteq> 0" "tn_token nt = active_write_token q" for nt q
  proof -
    have "write_inv (peer_effect (Settled (tn_token nt) (tn_status nt)) (q\<lparr> active_write_token := 0, active_payload := [] \<rparr>))"
      using that by (auto simp: write_inv_def Let_def)
    then show ?thesis by (simp add: settle_write_def Let_def) (simp add: write_inv_def)
  qed
  have "write_inv (p\<lparr> terminal_notice_pending := b \<rparr>)" "write_inv (p\<lparr> terminal_notice_pending := b, terminal_notice := t \<rparr>)" for b t
    using assms by (simp_all add: write_inv_def)
  then show ?thesis using Act_notice assms by (auto simp: process_write_notice_def Let_def intro!: s split: option.split)
next
  case (Act_write info finished)
  then show ?thesis using assms by (simp add: try_start_write_def write_pump_inv)
next
  case (Act_heartbeat now_ms nonce)
  have "write_inv (queue_pending x p)" for x using assms by (simp add: queue_pending_def write_inv_def)
  then show ?thesis using Act_heartbeat assms
    by (auto simp: send_heartbeat_def schedule_heartbeat_ping_def write_inv_def Let_def)
next
  case (Act_liveness now_ms)
  then show ?thesis using assms by (simp add: check_liveness_def)
qed


section \<open>Frames leave in the order in which they came\<close>

text \<open>The frames that an action adds to the queue, pongs apart.\<close>

fun pushed :: "endpoint_config \<Rightarrow> peer_act \<Rightarrow> peer_state \<Rightarrow> pending_out list" where
  "pushed cfg (Act_queue kind bs) p = (if same_pending kind bs p then [] else [(kind, bs)])"
| "pushed cfg (Act_heartbeat now_ms nonce) p =
     (if heartbeat_due cfg now_ms p \<and> \<not> has_pending_kind kHeartbeatPing p then [(kHeartbeatPing, EncodeHeartbeatNonce nonce)] else [])"
| "pushed cfg _ p = []"

fun accepted_frames :: "endpoint_config \<Rightarrow> peer_act list \<Rightarrow> peer_state \<Rightarrow> pending_out list" where
  "accepted_frames cfg [] p = []"
| "accepted_frames cfg (act # acts) p = pushed cfg act p @ accepted_frames cfg acts (peer_step cfg act p)"

abbreviation not_pong :: "pending_out list \<Rightarrow> pending_out list" where
  "not_pong \<equiv> filter (\<lambda>item. fst item \<noteq> kHeartbeatPong)"

definition all_frames :: "peer_state \<Rightarrow> pending_out list" where
  "all_frames p = not_pong (dequeued (ps_effects p)) @ not_pong (pending_out p)"

lemma all_frames_presence [simp]: "all_frames (set_presence x p) = all_frames p"
  by (simp add: all_frames_def set_presence_def)

lemma all_frames_cong: "dequeued (ps_effects q) = dequeued (ps_effects p) \<Longrightarrow> pending_out q = pending_out p \<Longrightarrow> all_frames q = all_frames p"
  by (simp add: all_frames_def)

lemma all_frames_upd [simp]:
  "all_frames (p\<lparr> last_rx_ms := t \<rparr>) = all_frames p" "all_frames (p\<lparr> last_heartbeat_rx_ms := t \<rparr>) = all_frames p"
  "all_frames (p\<lparr> stream_linked := b \<rparr>) = all_frames p" "all_frames (p\<lparr> terminal_notice_pending := b \<rparr>) = all_frames p"
  "all_frames (p\<lparr> terminal_notice := nt \<rparr>) = all_frames p" "all_frames (p\<lparr> last_heartbeat_tx_ms := t \<rparr>) = all_frames p"
  "all_frames (p\<lparr> channel_incarnation := c \<rparr>) = all_frames p" "all_frames (p\<lparr> has_stream := b \<rparr>) = all_frames p"
  "all_frames (p\<lparr> active_write_token := t, active_payload := bs \<rparr>) = all_frames p"
  by (simp_all add: all_frames_def)

lemma all_frames_effect [simp]:
  "all_frames (peer_effect (FrameReceived d) p) = all_frames p" "all_frames (peer_effect (ControlReceived d) p) = all_frames p"
  "all_frames (peer_effect (Settled t status) p) = all_frames p"
  by (simp_all add: all_frames_def)

lemma all_frames_destroy [simp]: "all_frames (destroy_peer_channel p) = all_frames p"
  by (simp add: all_frames_def destroy_peer_channel_def)

lemma all_frames_pong [simp]: "all_frames (queue_pong pong p) = all_frames p"
  by (simp add: all_frames_def queue_pong_def)

lemma all_frames_pending: "all_frames (p\<lparr> pending_out := items \<rparr>) = not_pong (dequeued (ps_effects p)) @ not_pong items"
  by (simp add: all_frames_def)

lemma all_frames_pump:
  "all_frames (write_pump info finished items p) = not_pong (dequeued (ps_effects p)) @ not_pong items"
proof (induction info finished items p rule: write_pump.induct)
  case (2 info finished item rest p)
  have "all_frames (start_write finished item (p\<lparr> pending_out := rest \<rparr>)) = not_pong (dequeued (ps_effects p)) @ not_pong (item # rest)"
    by (cases item) (simp add: all_frames_def start_write_def Let_def)
  then show ?case using 2 by (cases "fst item = kHeartbeatPong") (auto simp: all_frames_pending)
qed (simp add: all_frames_pending)

lemma queue_frames: "all_frames (queue_pending item p) =
    all_frames p @ not_pong (if same_pending (fst item) (snd item) p then [] else [item])"
  by (simp add: queue_pending_def all_frames_def)

lemma step_frames: "all_frames (peer_step cfg act p) = all_frames p @ not_pong (pushed cfg act p)"
proof (cases act)
  case (Act_write info finished)
  then show ?thesis by (simp add: try_start_write_def all_frames_pump) (simp add: all_frames_def)
next
  case (Act_heartbeat now_ms nonce)
  have "\<not> same_pending kHeartbeatPing x p" if "\<not> has_pending_kind kHeartbeatPing p" for x
    using that by (auto simp: same_pending_def has_pending_kind_def)
  then show ?thesis using Act_heartbeat
    by (auto simp: send_heartbeat_def schedule_heartbeat_ping_def heartbeat_due_def queue_frames Let_def)
next
  case (Act_bind link now_ms)
  then show ?thesis by (simp add: bind_peer_stream_def Let_def)
next
  case Act_close
  then show ?thesis by (simp add: close_peer_def Let_def) (simp add: all_frames_def destroy_peer_channel_def)
next
  case (Act_data now_ms bs)
  then show ?thesis by (simp add: on_stream_data_def Let_def split: option.split frame_kind.split)
next
  case (Act_notice now_ms)
  then show ?thesis by (simp add: process_write_notice_def settle_write_def Let_def split: option.split)
next
  case (Act_status token inc status)
  then show ?thesis by (simp add: ApplyWriteStatus_def all_frames_def)
qed (simp_all add: queue_frames on_stream_update_def check_liveness_def Let_def split: link_state.split)

text \<open>C18. Whatever happens to a peer, its application, control and ping frames leave the queue, to be written, refused as too
  large or cleared by a close, in the order in which they were accepted, none twice and none lost; what is accepted and
  has not left waits in that order.\<close>

theorem frames_leave_in_order:
  "not_pong (dequeued (ps_effects (peer_run cfg acts new_peer))) @ not_pong (pending_out (peer_run cfg acts new_peer)) =
   not_pong (accepted_frames cfg acts new_peer)"
proof -
  have "all_frames (peer_run cfg acts p) = all_frames p @ not_pong (accepted_frames cfg acts p)" for p
    by (induction acts arbitrary: p) (simp_all add: peer_run_def step_frames)
  then show ?thesis by (simp add: all_frames_def new_peer_def)
qed

section \<open>Presence\<close>

definition presence_inv :: "peer_state \<Rightarrow> bool" where
  "presence_inv p \<longleftrightarrow> distinct_adj (Peer_Unknown # reports (ps_effects p)) \<and> last (Peer_Unknown # reports (ps_effects p)) = reported_presence p"

lemma presence_inv_set [simp]: "presence_inv p \<Longrightarrow> presence_inv (set_presence x p)"
  using distinct_adj_append_iff [of "Peer_Unknown # reports (ps_effects p)" "[x]"]
  by (auto simp: presence_inv_def set_presence_def)

lemma presence_inv_cong:
  "reports (ps_effects q) = reports (ps_effects p) \<Longrightarrow> reported_presence q = reported_presence p \<Longrightarrow> presence_inv q = presence_inv p"
  by (simp add: presence_inv_def)


lemma reports_pump [simp]: "reports (ps_effects (write_pump info finished items p)) = reports (ps_effects p)"
  by (induction info finished items p rule: write_pump.induct) (auto simp: start_write_def Let_def)

lemma reported_pump [simp]: "reported_presence (write_pump info finished items p) = reported_presence p"
  by (induction info finished items p rule: write_pump.induct) (auto simp: start_write_def Let_def)

lemma presence_inv_upd [simp]:
  "presence_inv (p\<lparr> last_rx_ms := t \<rparr>) = presence_inv p" "presence_inv (p\<lparr> last_heartbeat_rx_ms := t \<rparr>) = presence_inv p"
  "presence_inv (p\<lparr> stream_linked := b \<rparr>) = presence_inv p" "presence_inv (p\<lparr> terminal_notice_pending := b \<rparr>) = presence_inv p"
  "presence_inv (p\<lparr> terminal_notice := nt \<rparr>) = presence_inv p" "presence_inv (p\<lparr> last_heartbeat_tx_ms := t \<rparr>) = presence_inv p"
  "presence_inv (p\<lparr> channel_incarnation := c \<rparr>) = presence_inv p" "presence_inv (p\<lparr> has_stream := b \<rparr>) = presence_inv p"
  "presence_inv (p\<lparr> active_write_token := k, active_payload := bs \<rparr>) = presence_inv p" "presence_inv (p\<lparr> pending_out := q \<rparr>) = presence_inv p"
  "presence_inv (queue_pending item p) = presence_inv p" "presence_inv (queue_pong pong p) = presence_inv p"
  "presence_inv (destroy_peer_channel p) = presence_inv p" "presence_inv (write_pump info finished items p) = presence_inv p"
  "presence_inv (peer_effect (FrameReceived d) p) = presence_inv p" "presence_inv (peer_effect (ControlReceived d) p) = presence_inv p"
  "presence_inv (peer_effect (Settled k status) p) = presence_inv p" "presence_inv (peer_effect (ClearedPending items) p) = presence_inv p"
  by (simp_all add: presence_inv_def queue_pending_def queue_pong_def destroy_peer_channel_def)

lemma peer_step_presence: "presence_inv p \<Longrightarrow> presence_inv (peer_step cfg act p)"
  by (cases act) (auto simp: bind_peer_stream_def close_peer_def on_stream_data_def on_stream_update_def ApplyWriteStatus_def
      process_write_notice_def settle_write_def try_start_write_def send_heartbeat_def schedule_heartbeat_ping_def check_liveness_def Let_def
      split: option.split frame_kind.split link_state.split prod.split)

lemma reports_effects: "Reported x \<in> set es \<longleftrightarrow> x \<in> set (reports es)"
  by (induction es rule: reports.induct) auto

lemma reports_set: "set (reports (ps_effects (set_presence x p))) \<subseteq> insert x (set (reports (ps_effects p)))"
  by (auto simp: set_presence_def)

lemma reports_upd [simp]:
  "reports (ps_effects (queue_pending item p)) = reports (ps_effects p)" "reports (ps_effects (queue_pong pong p)) = reports (ps_effects p)"
  "reports (ps_effects (destroy_peer_channel p)) = reports (ps_effects p)"
  by (simp_all add: queue_pending_def queue_pong_def destroy_peer_channel_def)

text \<open>Only a received frame makes a peer online, and a control frame does not.\<close>

definition shows_life :: "peer_act \<Rightarrow> bool" where
  "shows_life act \<longleftrightarrow> (\<exists>now_ms bs kind payload. act = Act_data now_ms bs \<and> DecodeAetherFrame bs = Some (kind, payload) \<and> kind \<noteq> kControl)"

lemma peer_step_online:
  "Peer_Online \<in> set (reports (ps_effects (peer_step cfg act p))) \<Longrightarrow> \<not> shows_life act \<Longrightarrow> Peer_Online \<in> set (reports (ps_effects p))"
  by (cases act) (auto simp: shows_life_def bind_peer_stream_def close_peer_def on_stream_data_def on_stream_update_def ApplyWriteStatus_def
      process_write_notice_def settle_write_def try_start_write_def send_heartbeat_def schedule_heartbeat_ping_def check_liveness_def Let_def
      set_presence_def split: option.splits frame_kind.splits link_state.splits prod.splits if_splits)

section \<open>From a peer to the endpoint\<close>

text \<open>An action that an input brings to a peer.\<close>

fun brings :: "string \<Rightarrow> endpoint_input \<Rightarrow> peer_act \<Rightarrow> bool" where
  "brings uid inp (Act_data now_ms bs) \<longleftrightarrow> inp = Ep_data uid now_ms bs"
| "brings uid inp (Act_status token inc status) \<longleftrightarrow> inp = Ep_status uid token inc status"
| "brings uid inp act \<longleftrightarrow> True"

definition acts_to :: "endpoint_config \<Rightarrow> string \<Rightarrow> endpoint_input \<Rightarrow> endpoint \<Rightarrow> endpoint \<Rightarrow> bool" where
  "acts_to cfg uid inp ep ep' \<longleftrightarrow> (\<exists>acts. peer_at uid ep' = peer_run cfg acts (peer_at uid ep) \<and> (\<forall>act\<in>set acts. brings uid inp act))"

lemma acts_to_refl: "acts_to cfg uid inp ep ep"
  unfolding acts_to_def by (rule exI [of _ "[]"]) (simp add: peer_run_def)

lemma acts_to_trans: "acts_to cfg uid inp ep ep1 \<Longrightarrow> acts_to cfg uid inp ep1 ep2 \<Longrightarrow> acts_to cfg uid inp ep ep2"
  unfolding acts_to_def by (elim exE conjE, rule_tac x = "acts @ actsa" in exI) (auto simp: peer_run_def)

lemma acts_to_put:
  assumes "p = peer_run cfg acts (peer_at u ep)" "u = uid \<Longrightarrow> \<forall>act\<in>set acts. brings uid inp act"
  shows "acts_to cfg uid inp ep (put_peer u p ep)"
proof (cases "u = uid")
  case True
  then show ?thesis using assms unfolding acts_to_def by (intro exI [of _ acts]) (simp add: put_peer_def peer_at_def)
next
  case False
  then show ?thesis unfolding acts_to_def by (intro exI [of _ "[]"]) (simp add: put_peer_def peer_at_def peer_run_def)
qed

lemma acts_to_with:
  assumes "\<And>p. f p = peer_run cfg (acts p) p" "\<And>p. u = uid \<Longrightarrow> \<forall>act\<in>set (acts p). brings uid inp act"
  shows "acts_to cfg uid inp ep (with_peer u f ep)"
proof (cases "ep_peers ep u")
  case (Some p)
  then have "acts_to cfg uid inp ep (put_peer u (f p) ep)"
    using assms by (intro acts_to_put [where acts = "acts p"]) (simp_all add: peer_at_def)
  then show ?thesis using Some by (simp add: with_peer_def)
qed (simp add: with_peer_def acts_to_refl)

lemma acts_to_fold:
  assumes "\<And>u ep. acts_to cfg uid inp ep (f u ep)"
  shows "acts_to cfg uid inp ep (fold f uids ep)"
  using assms by (induction uids arbitrary: ep) (auto intro: acts_to_refl acts_to_trans)

lemma acts_to_open:
  "\<forall>act\<in>{Act_bind link now_ms}. brings uid inp act \<Longrightarrow> acts_to cfg uid inp ep (open_peer_internal valid_uid link now_ms u ep)"
  using acts_to_put [where acts = "[Act_bind link now_ms]" and cfg = cfg and u = u and ep = ep and uid = uid and inp = inp]
  by (simp add: open_peer_internal_def acts_to_refl peer_run_def)

lemma acts_to_heartbeat: "acts_to cfg uid (Ep_heartbeats now_ms uids) ep (heartbeat_peer cfg now_ms u ep)"
proof (cases "ep_peers ep u")
  case (Some p)
  obtain nonce q where q: "send_heartbeat cfg now_ms (ep_next_nonce ep) p = (nonce, q)" by fastforce
  let ?ep = "ep\<lparr> ep_next_nonce := nonce \<rparr>"
  have at: "peer_at v ?ep = peer_at v ep" for v by (simp add: peer_at_def)
  have "acts_to cfg uid (Ep_heartbeats now_ms uids) ?ep (put_peer u (check_liveness cfg now_ms q) ?ep)"
    by (rule acts_to_put [where acts = "[Act_heartbeat now_ms (ep_next_nonce ep), Act_liveness now_ms]"])
      (simp_all add: peer_run_def peer_at_def Some q)
  then show ?thesis using Some q by (simp add: heartbeat_peer_def acts_to_def at)
qed (simp add: heartbeat_peer_def acts_to_refl)

lemma endpoint_step_acts: "acts_to cfg uid inp ep (endpoint_step valid_uid cfg inp ep)"
proof (cases inp)
  case (Ep_command link now_ms cmd)
  have q: "acts_to cfg uid inp ep (queue_frame valid_uid link now_ms kind u bs ep)" for kind u bs
  proof -
    let ?ep = "put_peer u (queue_pending (kind, bs) (peer_at u ep)) ep"
    have "acts_to cfg uid inp ep ?ep"
      by (rule acts_to_put [where acts = "[Act_queue kind bs]"]) (simp_all add: peer_run_def)
    then show ?thesis using acts_to_trans acts_to_open [of link now_ms uid inp cfg ?ep valid_uid u]
      by (auto simp: queue_frame_def Let_def)
  qed
  show ?thesis
  proof (cases cmd)
    case (Cmd_ClosePeer u)
    then show ?thesis using Ep_command acts_to_with [where acts = "\<lambda>p. [Act_close]" and f = close_peer and cfg = cfg and u = u]
      by (simp add: peer_run_def)
  qed (use Ep_command q acts_to_open in auto)
next
  case (Ep_heartbeats now_ms uids)
  then show ?thesis by (simp add: heartbeat_pass_def) (rule acts_to_fold, rule acts_to_heartbeat)
next
  case (Ep_writes now info finished uids)
  have "acts_to cfg uid inp ep (with_peer u (\<lambda>p. try_start_write (info u) (finished u) (process_write_notice cfg (now u) p)) ep)" for u ep
    by (rule acts_to_with [where acts = "\<lambda>p. [Act_notice (now u), Act_write (info u) (finished u)]"]) (simp_all add: peer_run_def)
  then show ?thesis using Ep_writes by (simp add: write_pass_def acts_to_fold)
next
  case (Ep_data u now_ms bs)
  then show ?thesis using acts_to_with [where acts = "\<lambda>p. [Act_data now_ms bs]" and f = "on_stream_data now_ms bs" and cfg = cfg and u = u]
    by (simp add: peer_run_def)
next
  case (Ep_update u link)
  then show ?thesis using acts_to_with [where acts = "\<lambda>p. [Act_update link]" and f = "on_stream_update link" and cfg = cfg and u = u]
    by (simp add: peer_run_def)
next
  case (Ep_new_port u link now_ms)
  then show ?thesis by (simp, intro acts_to_put [where acts = "[Act_bind link now_ms]"]) (simp_all add: peer_run_def)
next
  case (Ep_status u token inc status)
  then show ?thesis
    using acts_to_with [where acts = "\<lambda>p. [Act_status token inc status]" and f = "ApplyWriteStatus token inc status" and cfg = cfg and u = u]
    by (simp add: peer_run_def)
qed


lemma endpoint_run_acts:
  "\<exists>acts. peer_at uid (endpoint_run valid_uid cfg inputs new_endpoint) = peer_run cfg acts new_peer \<and>
     (\<forall>act\<in>set acts. \<exists>inp\<in>set inputs. brings uid inp act)"
proof (induction inputs rule: rev_induct)
  case Nil
  show ?case by (rule exI [of _ "[]"]) (simp add: endpoint_run_def new_endpoint_def peer_at_def peer_run_def)
next
  case (snoc inp inputs)
  let ?ep = "endpoint_run valid_uid cfg inputs new_endpoint"
  obtain acts where a: "peer_at uid ?ep = peer_run cfg acts new_peer" "\<forall>act\<in>set acts. \<exists>inp\<in>set inputs. brings uid inp act"
    using snoc by blast
  obtain more where m: "peer_at uid (endpoint_step valid_uid cfg inp ?ep) = peer_run cfg more (peer_at uid ?ep)"
      "\<forall>act\<in>set more. brings uid inp act"
    using endpoint_step_acts [of cfg uid inp ?ep valid_uid] unfolding acts_to_def by blast
  show ?case
    by (rule exI [of _ "acts @ more"]) (use a m in \<open>auto simp: endpoint_run_def peer_run_def\<close>)
qed

lemma peer_run_induct:
  assumes "peer_at uid (endpoint_run valid_uid cfg inputs new_endpoint) = p" "P new_peer"
    and "\<And>act q. P q \<Longrightarrow> \<exists>inp\<in>set inputs. brings uid inp act \<Longrightarrow> P (peer_step cfg act q)"
  shows "P p"
proof -
  obtain acts where a: "p = peer_run cfg acts new_peer" "\<forall>act\<in>set acts. \<exists>inp\<in>set inputs. brings uid inp act"
    using endpoint_run_acts [of uid valid_uid cfg inputs] assms(1) by blast
  have "P q \<Longrightarrow> P (fold (peer_step cfg) acts q)" for q
    using a(2) by (induction acts arbitrary: q) (auto intro: assms(3))
  then show ?thesis using a(1) assms(2) by (simp add: peer_run_def)
qed

text \<open>A success comes from a status callback with the token of the write.\<close>

definition success_reported :: "u64 set \<Rightarrow> peer_state \<Rightarrow> bool" where
  "success_reported ts p \<longleftrightarrow>
     (\<forall>nt. terminal_notice p = Some nt \<longrightarrow> tn_status nt = Write_Success \<longrightarrow> tn_token nt \<in> ts) \<and>
     (\<forall>t. Settled t Write_Success \<in> set (ps_effects p) \<longrightarrow> t \<in> ts)"

lemma success_reported_presence [simp]: "success_reported ts (set_presence x p) = success_reported ts p"
  by (simp add: success_reported_def set_presence_def)

lemma success_reported_start: "success_reported ts p \<Longrightarrow> success_reported ts (start_write finished item p)"
  by (auto simp: success_reported_def start_write_def Let_def)

lemma success_reported_pump: "success_reported ts p \<Longrightarrow> success_reported ts (write_pump info finished items p)"
proof (induction info finished items p rule: write_pump.induct)
  case (2 info finished item rest p)
  have "success_reported ts (start_write finished item (p\<lparr> pending_out := rest \<rparr>))"
    by (rule success_reported_start) (use 2 in \<open>simp add: success_reported_def\<close>)
  then show ?case using 2 by (simp add: success_reported_def)
qed (simp add: success_reported_def)

lemma peer_step_success:
  assumes "success_reported ts p" "\<And>token inc. act = Act_status token inc Write_Success \<Longrightarrow> token \<in> ts"
  shows "success_reported ts (peer_step cfg act p)"
proof (cases act)
  case (Act_notice now_ms)
  then show ?thesis using assms
    by (simp add: process_write_notice_def settle_write_def Let_def split: option.split) (auto simp: success_reported_def)
next
  case (Act_write info finished)
  then show ?thesis using assms by (simp add: try_start_write_def success_reported_pump)
next
  case (Act_bind link now_ms)
  then show ?thesis using assms
    by (simp add: bind_peer_stream_def destroy_peer_channel_def Let_def) (auto simp: success_reported_def set_presence_def)
next
  case Act_close
  then show ?thesis using assms
    by (simp add: close_peer_def destroy_peer_channel_def Let_def) (auto simp: success_reported_def)
next
  case (Act_data now_ms bs)
  then show ?thesis using assms
    by (simp add: on_stream_data_def queue_pong_def Let_def split: option.split frame_kind.split)
      (auto simp: success_reported_def set_presence_def)
next
  case (Act_status token inc status)
  then show ?thesis using assms by (auto simp: ApplyWriteStatus_def success_reported_def)
next
  case (Act_update link)
  then show ?thesis using assms
    by (simp add: on_stream_update_def Let_def split: link_state.split) (auto simp: success_reported_def)
next
  case (Act_heartbeat now_ms nonce)
  then show ?thesis using assms
    by (simp add: send_heartbeat_def schedule_heartbeat_ping_def queue_pending_def Let_def) (auto simp: success_reported_def)
next
  case (Act_liveness now_ms)
  then show ?thesis using assms by (simp add: check_liveness_def)
qed (use assms in \<open>simp add: queue_pending_def success_reported_def\<close>)

text \<open>C17. In every run of the endpoint, for every peer: writes carry the tokens 1, 2, 3 and so on; a write starts only when none is in
  flight and only the write in flight is settled or torn down, late status callbacks of replaced channels included; a
  success is one that a status callback gave for that token.  The bound is that of the 64-bit token.\<close>

theorem one_write_at_a_time:
  assumes "p = peer_at uid (endpoint_run valid_uid cfg inputs new_endpoint)" "length (tokens (ps_effects p)) < 2 ^ 64"
  shows "tokens (ps_effects p) = map of_nat [1..<Suc (length (tokens (ps_effects p)))] \<and>
    flight None (ps_effects p) = Some (if active_write_token p = 0 then None else Some (active_write_token p)) \<and>
    (Settled t Write_Success \<in> set (ps_effects p) \<longrightarrow> (\<exists>inc. Ep_status uid t inc Write_Success \<in> set inputs))"
proof -
  let ?ts = "{t. \<exists>inc. Ep_status uid t inc Write_Success \<in> set inputs}"
  have "write_inv p"
    by (rule peer_run_induct [OF assms(1) [symmetric]]) (simp_all add: peer_step_write_inv, simp add: write_inv_def new_peer_def token_list_def)
  moreover have "success_reported ?ts p"
  proof (rule peer_run_induct [OF assms(1) [symmetric]])
    show "success_reported ?ts new_peer" by (simp add: success_reported_def new_peer_def)
    show "success_reported ?ts (peer_step cfg act q)" if "success_reported ?ts q" "\<exists>inp\<in>set inputs. brings uid inp act" for act q
      by (rule peer_step_success [OF that(1)]) (use that(2) in auto)
  qed
  ultimately show ?thesis using assms(2) by (simp add: write_inv_def success_reported_def token_list_def)
qed


text \<open>A run that writes one frame and has it acknowledged.\<close>

definition sample_config :: endpoint_config where
  "sample_config = \<lparr> heartbeat_period_ms = 1000, offline_after_ms = 4000 \<rparr>"

definition sample_link :: stream_info where
  "sample_link = \<lparr> si_writable = True, si_rec_element_size = 1000, si_max_element_size = 0 \<rparr>"

definition sample_inputs :: "endpoint_input list" where
  "sample_inputs = [Ep_command Linked 10 (Cmd_Send ''bob'' [5]), Ep_writes (\<lambda>u. 20) (\<lambda>u. sample_link) (\<lambda>u. False) [''bob''],
     Ep_status ''bob'' 1 1 Write_Success, Ep_writes (\<lambda>u. 30) (\<lambda>u. sample_link) (\<lambda>u. False) [''bob'']]"

lemma sample_endpoint_effects:
  "ps_effects (peer_at ''bob'' (endpoint_run (\<lambda>u. True) sample_config sample_inputs new_endpoint)) =
     [ChannelDestroyed, Reported Peer_Connecting, Wrote 1 kApplication [5], Settled 1 Write_Success]"
  by (simp add: endpoint_run_def sample_inputs_def queue_frame_def open_peer_internal_def put_peer_def peer_at_def with_peer_def
      new_endpoint_def new_peer_def queue_pending_def same_pending_def bind_peer_stream_def destroy_peer_channel_def peer_effect_def
      set_presence_def write_pass_def process_write_notice_def try_start_write_def start_write_def sample_link_def ApplyWriteStatus_def
      settle_write_def Let_def)

lemma one_write_at_a_time_witness:
  "\<exists>p. p = peer_at ''bob'' (endpoint_run (\<lambda>u. True) sample_config sample_inputs new_endpoint) \<and> tokens (ps_effects p) = [1] \<and>
     flight None (ps_effects p) = Some None \<and> (\<exists>inc. Ep_status ''bob'' 1 inc Write_Success \<in> set sample_inputs)"
proof -
  let ?p = "peer_at ''bob'' (endpoint_run (\<lambda>u. True) sample_config sample_inputs new_endpoint)"
  have l: "length (tokens (ps_effects ?p)) < 2 ^ 64" by (simp add: sample_endpoint_effects)
  show ?thesis
    using one_write_at_a_time [OF refl l, of 1] by (simp add: sample_endpoint_effects)
qed

definition alive :: "endpoint_config \<Rightarrow> u64 \<Rightarrow> peer_state \<Rightarrow> bool" where
  "alive cfg now_ms p \<longleftrightarrow> reported_presence p = Peer_Connecting \<or> reported_presence p = Peer_Online \<longrightarrow>
     last_active p = 0 \<or> now_ms - last_active p < offline_after_ms cfg"

lemma alive_checked: "alive cfg now_ms (check_liveness cfg now_ms p)"
  by (auto simp: alive_def check_liveness_def not_le)

lemma alive_pass:
  assumes "ep_peers ep uid \<noteq> None"
  shows "alive cfg now_ms (peer_at uid (heartbeat_peer cfg now_ms uid ep)) \<and> ep_peers (heartbeat_peer cfg now_ms uid ep) uid \<noteq> None"
  using assms by (auto simp: heartbeat_peer_def put_peer_def peer_at_def alive_checked split: prod.split)

lemma heartbeat_other:
  "u \<noteq> uid \<Longrightarrow> ep_peers (heartbeat_peer cfg now_ms u ep) uid = ep_peers ep uid"
  by (simp add: heartbeat_peer_def put_peer_def split: option.split prod.split)

lemma alive_rest:
  "alive cfg now_ms (peer_at uid ep) \<Longrightarrow> ep_peers ep uid \<noteq> None \<Longrightarrow>
   alive cfg now_ms (peer_at uid (fold (heartbeat_peer cfg now_ms) uids ep))"
proof (induction uids arbitrary: ep)
  case (Cons u uids)
  have "alive cfg now_ms (peer_at uid (heartbeat_peer cfg now_ms u ep)) \<and> ep_peers (heartbeat_peer cfg now_ms u ep) uid \<noteq> None"
    using alive_pass [OF Cons.prems(2)] heartbeat_other [of u uid cfg now_ms ep] Cons.prems by (cases "u = uid") (auto simp: peer_at_def)
  then show ?case using Cons.IH by simp
qed simp

lemma alive_fold:
  "uid \<in> set uids \<Longrightarrow> ep_peers ep uid \<noteq> None \<Longrightarrow> alive cfg now_ms (peer_at uid (fold (heartbeat_peer cfg now_ms) uids ep))"
proof (induction uids arbitrary: ep)
  case (Cons u uids)
  show ?case
  proof (cases "u = uid")
    case True
    then show ?thesis using alive_rest alive_pass [OF Cons.prems(2)] by simp
  next
    case False
    then show ?thesis using Cons by (simp add: heartbeat_other)
  qed
qed simp

text \<open>C19. In every run, the presence reports of a peer start from unknown and no two in a row are equal, the last being the state the
  endpoint holds; online is reported only after a frame other than a control frame was received and decoded; and after
  a pass of the loop no peer of the pass is left connecting or online that has been silent for the configured time.\<close>

theorem presence_changes_and_expires:
  assumes "uid \<in> set uids" "ep_peers (endpoint_run valid_uid cfg inputs new_endpoint) uid \<noteq> None"
    and "p = peer_at uid (endpoint_run valid_uid cfg (inputs @ [Ep_heartbeats now_ms uids]) new_endpoint)"
  shows "distinct_adj (Peer_Unknown # reports (ps_effects p)) \<and> last (Peer_Unknown # reports (ps_effects p)) = reported_presence p \<and>
    (Reported Peer_Online \<in> set (ps_effects p) \<longrightarrow> (\<exists>t bs kind payload. Ep_data uid t bs \<in> set inputs \<and>
       DecodeAetherFrame bs = Some (kind, payload) \<and> kind \<noteq> kControl)) \<and>
    (reported_presence p = Peer_Connecting \<or> reported_presence p = Peer_Online \<longrightarrow>
       last_active p = 0 \<or> now_ms - last_active p < offline_after_ms cfg)"
proof -
  let ?inputs = "inputs @ [Ep_heartbeats now_ms uids]"
  let ?seen = "\<exists>t bs kind payload. Ep_data uid t bs \<in> set inputs \<and> DecodeAetherFrame bs = Some (kind, payload) \<and> kind \<noteq> kControl"
  have "presence_inv p"
    by (rule peer_run_induct [OF assms(3) [symmetric]]) (simp_all add: peer_step_presence, simp add: presence_inv_def new_peer_def)
  moreover have "Peer_Online \<in> set (reports (ps_effects p)) \<longrightarrow> ?seen"
  proof (rule peer_run_induct [OF assms(3) [symmetric]])
    show "Peer_Online \<in> set (reports (ps_effects new_peer)) \<longrightarrow> ?seen" by (simp add: new_peer_def)
    show "Peer_Online \<in> set (reports (ps_effects (peer_step cfg act q))) \<longrightarrow> ?seen"
      if "Peer_Online \<in> set (reports (ps_effects q)) \<longrightarrow> ?seen" "\<exists>inp\<in>set ?inputs. brings uid inp act" for act q
    proof (cases "shows_life act")
      case True
      then show ?thesis using that(2) unfolding shows_life_def by (elim exE conjE) (auto; blast)
    next
      case False
      then show ?thesis using peer_step_online [of cfg act q] that(1) by blast
    qed
  qed
  moreover have "alive cfg now_ms p"
    using alive_fold [OF assms(1,2)] assms(3) by (simp add: endpoint_run_def heartbeat_pass_def)
  ultimately show ?thesis by (simp add: presence_inv_def alive_def reports_effects)
qed

text \<open>A peer that answered once and then stays silent.\<close>

definition sample_presence_inputs :: "endpoint_input list" where
  "sample_presence_inputs = [Ep_new_port ''bob'' Linked 10, Ep_data ''bob'' 20 (EncodeAetherFrame (kHeartbeatPong, [0, 0, 0, 0, 0, 0, 0, 1]))]"

lemma sample_pong_decodes:
  "DecodeAetherFrame (EncodeAetherFrame (kHeartbeatPong, [0, 0, 0, 0, 0, 0, 0, 1])) = Some (kHeartbeatPong, [0, 0, 0, 0, 0, 0, 0, 1])"
  by (rule stream.dec_enc) (simp add: aether_frame_wf_def payload_size_ok_def kHeartbeatPayloadSize_def)

lemma presence_changes_and_expires_witness:
  "\<exists>p. p = peer_at ''bob'' (endpoint_run (\<lambda>u. True) sample_config (sample_presence_inputs @ [Ep_heartbeats 4020 [''bob'']]) new_endpoint) \<and>
     distinct_adj (Peer_Unknown # reports (ps_effects p)) \<and> reported_presence p = Peer_Offline \<and>
     reports (ps_effects p) = [Peer_Connecting, Peer_Online, Peer_Offline]"
proof -
  let ?p = "peer_at ''bob'' (endpoint_run (\<lambda>u. True) sample_config (sample_presence_inputs @ [Ep_heartbeats 4020 [''bob'']]) new_endpoint)"
  note defs = endpoint_run_def sample_presence_inputs_def put_peer_def peer_at_def with_peer_def sample_pong_decodes
      new_endpoint_def new_peer_def bind_peer_stream_def destroy_peer_channel_def peer_effect_def on_stream_data_def
      set_presence_def Let_def
  have e: "ep_peers (endpoint_run (\<lambda>u. True) sample_config sample_presence_inputs new_endpoint) ''bob'' \<noteq> None"
    by (simp add: defs)
  have r: "reports (ps_effects ?p) = [Peer_Connecting, Peer_Online, Peer_Offline]" "reported_presence ?p = Peer_Offline"
    by (simp_all add: defs heartbeat_pass_def heartbeat_peer_def send_heartbeat_def heartbeat_due_def schedule_heartbeat_ping_def
        has_pending_kind_def queue_pending_def same_pending_def check_liveness_def last_active_def sample_config_def)
  show ?thesis
    using presence_changes_and_expires [OF _ e, of "[''bob'']" ?p 4020] r by auto
qed

end
