(* ===== verification/ChatSession.thy ===== *)
theory ChatSession
  imports ChatBootstrap "HOL-Library.Sublist"
begin

text \<open>
  The model worker of the chat session (src/examples/chat_demo/runtime/chat_session.cpp): the state of WorkerState and
  the handlers ThreadMain builds over it, each a function on that state.  The endpoint and the synchronization runtime
  are reached through calls, which \<open>wk_effects\<close> lists in order; of the synchronization runtime the session itself
  reads only which rooms are registered.  \<open>None\<close> is a failed assertion.  Ids, clock readings and \<open>now\<close>
  (a \<open>steady_clock\<close> reading in nanoseconds) are arguments.  The pointers to workspace and runtime are valid as long as
  the worker lives, so the handlers' tests of them are left out.
\<close>

section \<open>State\<close>

datatype lifecycle_state = Session_Starting | Session_Ready | Session_Failed | Session_Stopped

datatype draft_outcome = Draft_Accepted | Draft_Rejected

record draft_result =
  dr_revision :: u64
  dr_outcome :: draft_outcome
  dr_failure_reason :: string
  dr_accepted_send_id :: shared_event_id

record chat_status =
  st_demo_role :: demo_role
  st_local_endpoint_uid :: string
  st_host_uid_input :: string
  st_join_phase :: join_phase
  st_join_status_text :: string
  st_lifecycle_state :: lifecycle_state
  st_local_connectivity :: connectivity
  st_remote_presence :: "string \<Rightarrow> peer_presence option"
  st_room_bootstrap :: "string \<Rightarrow> room_bootstrap option"
  st_delivery :: "shared_event_id \<Rightarrow> delivery_state option"
  st_error_text :: string
  st_completed_checkpoint_id :: u64
  st_edit_results :: "obj_id \<Rightarrow> draft_result option"
  st_send_results :: "obj_id \<Rightarrow> draft_result option"
  st_pending_copy :: "(obj_id \<times> string) option"

text \<open>Calls of the endpoint, of SharedSyncRuntime and of the UI notifier.\<close>

datatype session_effect =
    StartEndpoint nat                        \<comment> \<open>with callbacks of this epoch\<close>
  | OpenPeer string
  | SendControl string bytes
  | RequestStopEndpoint
  | StopEndpointJoin
  | CreateSyncRuntime string                 \<comment> \<open>transport bound to this local UID\<close>
  | RegisterNode obj_id
  | SyncInitialState obj_id obj_id
  | SyncNextEvent obj_id obj_id
  | ExpectInitialNode string obj_id
  | ForgetInitialNode string
  | NotifyUi

type_synonym runtime_node = "(runtime_state, runtime_event, runtime_state) node"

record worker_state =
  wk_cmd :: command_state
  wk_runtime :: runtime_node
  wk_has_endpoint :: bool
  wk_sync :: "obj_id set option"             \<comment> \<open>the registered rooms, once the runtime exists\<close>
  wk_my_uid :: string
  wk_aether_ready :: bool
  wk_identity_conflict :: bool
  wk_network_epoch :: nat
  wk_remote_presence :: "string \<Rightarrow> peer_presence option"
  wk_waiting_entry :: "string \<Rightarrow> obj_id option"
  wk_publication_dirty :: bool
  wk_processed_edit_revisions :: "obj_id \<Rightarrow> u64 option"
  wk_pending_select_ack :: "obj_id option"
  wk_retry_in_progress :: bool
  wk_join_sched_attempt :: obj_id
  wk_join_frozen :: bytes
  wk_join_start :: int
  wk_join_last_send :: "int option"
  wk_projected :: "(u64 \<times> u64 \<times> join_phase \<times> string \<times> string \<times> string) option"
  wk_status :: chat_status
  wk_status_serial :: u64
  wk_effects :: "session_effect list"

record session_env =
  sv_chat :: chat_env
  sv_archive :: archive
  sv_uid :: uid_api
  sv_missing_runtime :: "runtime_state \<Rightarrow> runtime_state"

abbreviation se_ae :: "session_env \<Rightarrow> aether" where "se_ae env \<equiv> che_ae (sv_chat env)"
abbreviation wk_workspace :: "worker_state \<Rightarrow> chat_workspace" where "wk_workspace w \<equiv> workspace_of (wk_cmd w)"
abbreviation wk_rt :: "worker_state \<Rightarrow> runtime_state" where "wk_rt w \<equiv> materialized (wk_runtime w)"

definition runtime_ops :: "session_env \<Rightarrow> (runtime_state, runtime_event, runtime_state) node_ops" where
  "runtime_ops env = chat_ops (Runtime_CanApply (se_ae env)) (Runtime_Apply (se_ae env)) (\<lambda>e ident ts. True) (sv_missing_runtime env)"

definition effect :: "session_effect \<Rightarrow> worker_state \<Rightarrow> worker_state" where
  "effect e w = w\<lparr> wk_effects := wk_effects w @ [e] \<rparr>"

definition mark_dirty :: "worker_state \<Rightarrow> worker_state" where
  "mark_dirty w = w\<lparr> wk_publication_dirty := True \<rparr>"

definition persist_workspace :: "worker_state \<Rightarrow> worker_state" where
  "persist_workspace w = w\<lparr> wk_cmd := persist (wk_cmd w) \<rparr>"

definition UpdateStatus :: "(chat_status \<Rightarrow> chat_status) \<Rightarrow> worker_state \<Rightarrow> worker_state" where
  "UpdateStatus mutator w = effect NotifyUi (w\<lparr> wk_status := mutator (wk_status w), wk_status_serial := wk_status_serial w + 1 \<rparr>)"

definition command :: "(command_state \<Rightarrow> ('r \<times> command_state) option) \<Rightarrow> worker_state \<Rightarrow> ('r \<times> worker_state) option" where
  "command f w = do { (r, c) \<leftarrow> f (wk_cmd w); Some (r, w\<lparr> wk_cmd := c \<rparr>) }"

definition commit_runtime :: "session_env \<Rightarrow> commit_env \<Rightarrow> runtime_event \<Rightarrow> worker_state \<Rightarrow> worker_state option" where
  "commit_runtime env cenv e w = do { n \<leftarrow> Commit (runtime_ops env) cenv e (wk_runtime w); Some (w\<lparr> wk_runtime := n \<rparr>) }"

definition can_runtime :: "session_env \<Rightarrow> runtime_event \<Rightarrow> worker_state \<Rightarrow> bool" where
  "can_runtime env e w = Runtime_CanApply (se_ae env) e (wk_rt w)"

text \<open>\<open>if (runtime->CanApply(*ev)) runtime->Commit(ev);\<close>\<close>

definition try_commit_runtime :: "session_env \<Rightarrow> commit_env \<Rightarrow> runtime_event \<Rightarrow> worker_state \<Rightarrow> worker_state option" where
  "try_commit_runtime env cenv e w = (if can_runtime env e w then commit_runtime env cenv e w else Some w)"

section \<open>The join scheduler\<close>

definition kJoinRetryInterval :: int where "kJoinRetryInterval = 1000000000"
definition kJoinAttemptDeadline :: int where "kJoinAttemptDeadline = 30000000000"

definition clear_join_scheduler :: "session_env \<Rightarrow> worker_state \<Rightarrow> worker_state" where
  "clear_join_scheduler env w = w\<lparr> wk_join_sched_attempt := ae_null (se_ae env), wk_join_frozen := [], wk_join_start := 0, wk_join_last_send := None \<rparr>"

text \<open>The room an entry is bound to, as the join request carries it.\<close>

definition entry_room_of :: "session_env \<Rightarrow> worker_state \<Rightarrow> obj_id \<Rightarrow> obj_id" where
  "entry_room_of env w i =
     (case FindEntryById (se_ae env) (wk_workspace w) i of
        None \<Rightarrow> ae_null (se_ae env)
      | Some j \<Rightarrow>
          (case cg_entries (cs_graph (wk_cmd w)) j of
             Some n \<Rightarrow> if ae_valid (se_ae env) (entry_room (materialized n)) then entry_room (materialized n) else ae_null (se_ae env)
           | None \<Rightarrow> ae_null (se_ae env)))"

definition join_request :: "session_env \<Rightarrow> worker_state \<Rightarrow> bootstrap_message" where
  "join_request env w = \<lparr> bs_kind = kJoinRequest, bs_attempt_id = join_attempt_id (wk_rt w),
     bs_room_id = entry_room_of env w (join_entry_id (wk_rt w)), bs_rejection_reason = [] \<rparr>"

definition joining :: "worker_state \<Rightarrow> bool" where
  "joining w \<longleftrightarrow> join_phase (wk_rt w) = kJoining \<or> join_phase (wk_rt w) = kAccepted"

definition arm_join_scheduler :: "session_env \<Rightarrow> int \<Rightarrow> worker_state \<Rightarrow> worker_state" where
  "arm_join_scheduler env now w =
     (if demo_role (wk_workspace w) \<noteq> kClient then clear_join_scheduler env w
      else if \<not> joining w then clear_join_scheduler env w
      else if \<not> ae_valid (se_ae env) (join_attempt_id (wk_rt w)) \<or> expected_host_uid (wk_rt w) = [] then clear_join_scheduler env w
      else if wk_join_sched_attempt w = join_attempt_id (wk_rt w) \<and> wk_join_frozen w \<noteq> [] then w
      else let (ok, bs) = EncodeChatBootstrap (sv_archive env) (join_request env w) in
        if \<not> ok then clear_join_scheduler env w
        else w\<lparr> wk_join_sched_attempt := join_attempt_id (wk_rt w), wk_join_frozen := bs, wk_join_start := now, wk_join_last_send := None \<rparr>)"

definition drive_join_send :: "session_env \<Rightarrow> commit_env \<Rightarrow> int \<Rightarrow> worker_state \<Rightarrow> worker_state option" where
  "drive_join_send env cenv now w =
     (if \<not> wk_has_endpoint w \<or> demo_role (wk_workspace w) \<noteq> kClient then Some w
      else if \<not> joining w then Some (clear_join_scheduler env w)
      else if \<not> ae_valid (se_ae env) (wk_join_sched_attempt w) \<or> wk_join_frozen w = [] \<or>
        wk_join_sched_attempt w \<noteq> join_attempt_id (wk_rt w) then Some w
      else if \<not> wk_aether_ready w \<or> wk_my_uid w = [] then Some w
      else if now - wk_join_start w \<ge> kJoinAttemptDeadline then do {
        let reason = (if join_phase (wk_rt w) = kAccepted then ''Room sync timed out'' else ''Host response timed out'');
        w \<leftarrow> try_commit_runtime env cenv (JoinHostFailedEvent (join_attempt_id (wk_rt w)) reason) w;
        let w = (if wk_sync w \<noteq> None then effect (ForgetInitialNode (expected_host_uid (wk_rt w))) w else w);
        let w = w\<lparr> wk_waiting_entry := (wk_waiting_entry w)(expected_host_uid (wk_rt w) := None) \<rparr>;
        Some (clear_join_scheduler env w) }
      else if (case wk_join_last_send w of Some t \<Rightarrow> now - t < kJoinRetryInterval | None \<Rightarrow> False) then Some w
      else Some ((effect (SendControl (expected_host_uid (wk_rt w)) (wk_join_frozen w)) (effect (OpenPeer (expected_host_uid (wk_rt w))) w))
        \<lparr> wk_join_last_send := Some now \<rparr>))"

section \<open>The host side\<close>

definition send_join_rejected :: "session_env \<Rightarrow> string \<Rightarrow> obj_id \<Rightarrow> string \<Rightarrow> worker_state \<Rightarrow> worker_state" where
  "send_join_rejected env client attempt reason w =
     (if \<not> wk_has_endpoint w \<or> client = [] then w
      else let (ok, bs) = EncodeChatBootstrap (sv_archive env) \<lparr> bs_kind = kJoinRejected, bs_attempt_id = attempt,
          bs_room_id = ae_null (se_ae env), bs_rejection_reason = reason \<rparr> in
        if \<not> ok then w else effect (SendControl client bs) (effect (OpenPeer client) w))"

definition send_join_accepted :: "session_env \<Rightarrow> string \<Rightarrow> obj_id \<Rightarrow> obj_id \<Rightarrow> worker_state \<Rightarrow> worker_state" where
  "send_join_accepted env client attempt room w =
     (let (ok, bs) = EncodeChatBootstrap (sv_archive env) \<lparr> bs_kind = kJoinAccepted, bs_attempt_id = attempt,
          bs_room_id = room, bs_rejection_reason = [] \<rparr> in
      if ok \<and> wk_has_endpoint w then effect (SendControl client bs) (effect (OpenPeer client) w) else w)"

definition register_room :: "obj_id \<Rightarrow> worker_state \<Rightarrow> worker_state" where
  "register_room room w =
     (case wk_sync w of
        None \<Rightarrow> w
      | Some rs \<Rightarrow> if room \<in> rs then w else effect (RegisterNode room) (w\<lparr> wk_sync := Some (insert room rs) \<rparr>))"

text \<open>The first share whose link ends at the peer, or the null id.\<close>

definition share_ends_at :: "string \<Rightarrow> share \<Rightarrow> bool" where
  "share_ends_at uid sh \<longleftrightarrow> ptr_valid (share_link sh) \<and> (case ptr_load (share_link sh) of Some l \<Rightarrow> EndpointUid l = uid | None \<Rightarrow> False)"

definition remote_share_id :: "aether \<Rightarrow> string \<Rightarrow> chat_room \<Rightarrow> obj_id" where
  "remote_share_id ae uid room = (case find (share_ends_at uid) (shares room) of Some sh \<Rightarrow> share_id sh | None \<Rightarrow> ae_null ae)"

text \<open>The synchronization state of a share, when there is a valid one.\<close>

definition sync_state_of :: "obj_id \<Rightarrow> chat_room \<Rightarrow> link_sync_state option" where
  "sync_state_of sid room =
     (let idx = FindLinkSyncIndexForShare sid room in
      if idx < length (link_sync_states room) \<and> ptr_valid (link_sync_states room ! idx)
      then map_option materialized (ptr_load (link_sync_states room ! idx)) else None)"

definition ChatRoom_AddShare :: "sn_env \<Rightarrow> commit_env \<Rightarrow> link_obj obj_ptr \<Rightarrow> u8 \<Rightarrow> room_node \<Rightarrow> room_node option" where
  "ChatRoom_AddShare env cenv link access n = do {
     assert_that (ptr_valid link);
     if FindShareIndex (ptr_id link) (materialized n) < length (shares (materialized n)) then Some n
     else Commit (ChatRoom_ops env) cenv (Topology (AddShareEvent link access)) n }"

text \<open>Ids and clock readings of one host_accept_client.\<close>

record accept_env =
  ac_open :: open_env
  ac_room :: obj_id
  ac_room_base :: obj_id
  ac_local_link :: obj_id
  ac_remote_link :: obj_id
  ac_share1 :: commit_env
  ac_share2 :: commit_env
  ac_bind :: commit_env

definition link_ptr :: "nat option \<Rightarrow> obj_id \<Rightarrow> string \<Rightarrow> link_obj obj_ptr" where
  "link_ptr d i uid = \<lparr> ptr_valid = True, ptr_id = i, ptr_domain = d, ptr_object = Some (AetherLink uid), ptr_stored = None \<rparr>"

definition bare_ptr :: "'o obj_ptr \<Rightarrow> unit obj_ptr" where
  "bare_ptr p = \<lparr> ptr_valid = ptr_valid p, ptr_id = ptr_id p, ptr_domain = ptr_domain p, ptr_object = Some (), ptr_stored = None \<rparr>"

definition node_ptr :: "room_node \<Rightarrow> unit obj_ptr" where
  "node_ptr n = \<lparr> ptr_valid = True, ptr_id = node_obj_id n, ptr_domain = node_domain n, ptr_object = Some (), ptr_stored = None \<rparr>"

definition created_room :: "session_env \<Rightarrow> nat option \<Rightarrow> accept_env \<Rightarrow> room_node option" where
  "created_room env d ac = do {
     let empty = \<lparr> shares = [], link_sync_states = [], messages = [] \<rparr>;
     n \<leftarrow> InitializeRuntimeNode (ChatRoom_ops (che_sn (sv_chat env))) True empty (ac_room_base ac)
       \<lparr> node_obj_id = ac_room ac, node_domain = d, materialized = empty,
         base = null_ptr (se_ae env), base_layer = None, journal = [], generation = 1,
         applied_journal_size = kJournalFullyMaterialized, journal_retention_policy = default_retention,
         journal_compaction_blocked = False, suppress_materialized_change = False,
         materialized_change_fn = False, notifications = 0 \<rparr>;
     Some (SetJournalCompactionBlocked True n) }"

definition put_room :: "room_node \<Rightarrow> worker_state \<Rightarrow> worker_state" where
  "put_room n w = w\<lparr> wk_cmd := (wk_cmd w)\<lparr> cs_graph := (cs_graph (wk_cmd w))\<lparr>
     cg_rooms := (cg_rooms (cs_graph (wk_cmd w)))(node_obj_id n \<mapsto> n) \<rparr> \<rparr> \<rparr>"

text \<open>An entry of the client that is bound to a room: the same acceptance again, then the snapshot when it is not complete.\<close>

definition accept_existing :: "session_env \<Rightarrow> string \<Rightarrow> bootstrap_message \<Rightarrow> obj_id \<Rightarrow> worker_state \<Rightarrow> worker_state option" where
  "accept_existing env client req r w =
     (if ae_valid (se_ae env) (bs_room_id req) \<and> bs_room_id req \<noteq> r
      then Some (send_join_rejected env client (bs_attempt_id req) ''Join conflict: saved room does not match host room'' w)
      else do {
        let w = send_join_accepted env client (bs_attempt_id req) r (persist_workspace w);
        let w = register_room r w;
        room \<leftarrow> cg_rooms (cs_graph (wk_cmd w)) r;
        let sid = remote_share_id (se_ae env) client (materialized room);
        let w = (if ae_valid (se_ae env) sid then
            (case sync_state_of sid (materialized room) of
               Some s \<Rightarrow> if initial_sync_phase s \<noteq> Complete then effect (SyncInitialState r sid) w else w
             | None \<Rightarrow> w) else w);
        Some (mark_dirty w) })"

definition accept_new :: "session_env \<Rightarrow> accept_env \<Rightarrow> string \<Rightarrow> bootstrap_message \<Rightarrow> worker_state \<Rightarrow> worker_state option" where
  "accept_new env ac client req w = do {
     (i, w) \<leftarrow> command (OpenOrSelectChat (sv_chat env) (ac_open ac) client) w;
     if \<not> ae_valid (se_ae env) i then Some w
     else do {
       let d = node_domain (cg_workspace (cs_graph (wk_cmd w)));
       let sn = che_sn (sv_chat env);
       let local_link = link_ptr d (ac_local_link ac) (wk_my_uid w);
       let remote_link = link_ptr d (ac_remote_link ac) client;
       room \<leftarrow> created_room env d ac;
       room \<leftarrow> ChatRoom_AddShare sn (ac_share1 ac) local_link ReadWrite room;
       room \<leftarrow> ChatRoom_AddShare sn (ac_share2 ac) remote_link ReadWrite room;
       (bound, bound_w) \<leftarrow> command (BindChat (sv_chat env) (ac_bind ac) i (bare_ptr remote_link) (node_ptr room)) (put_room room w);
       if \<not> bound then Some w
       else do {
         let w = bound_w;
         let w = send_join_accepted env client (bs_attempt_id req) (node_obj_id room) (persist_workspace w);
         let w = register_room (node_obj_id room) w;
         let sid = remote_share_id (se_ae env) client (materialized room);
         let w = (if ae_valid (se_ae env) sid then effect (SyncInitialState (node_obj_id room) sid) w else w);
         Some (mark_dirty w) } } }"

definition host_accept_client :: "session_env \<Rightarrow> accept_env \<Rightarrow> string \<Rightarrow> bootstrap_message \<Rightarrow> worker_state \<Rightarrow> worker_state option" where
  "host_accept_client env ac client req w =
     (if demo_role (wk_workspace w) \<noteq> kHost then Some w
      else if \<not> wk_aether_ready w \<or> wk_my_uid w = [] \<or> wk_sync w = None then Some w
      else if client = [] \<or> client = wk_my_uid w then Some w
      else do {
        found \<leftarrow> find_peer (sv_chat env) (cs_graph (wk_cmd w)) client (chats (wk_workspace w));
        case found of
          Some i \<Rightarrow> do {
            n \<leftarrow> cg_entries (cs_graph (wk_cmd w)) i;
            if ae_valid (se_ae env) (entry_room (materialized n)) then accept_existing env client req (entry_room (materialized n)) w
            else accept_new env ac client req w }
        | None \<Rightarrow> accept_new env ac client req w })"

end
