(* ===== verification/ChatHandlers.thy ===== *)
theory ChatHandlers
  imports ChatSession
begin

text \<open>
  The handlers of chat_session.cpp that answer control messages, user commands and the callbacks of the endpoint, and
  the passes of the main loop.
\<close>

section \<open>The client side of a join\<close>

text \<open>Commits of one handle_control: the failure or the acceptance, and the completion.\<close>

record control_env =
  ct_fail :: commit_env
  ct_accept :: commit_env
  ct_done :: commit_env
  ct_host :: accept_env

definition handle_rejected :: "session_env \<Rightarrow> control_env \<Rightarrow> string \<Rightarrow> bootstrap_message \<Rightarrow> worker_state \<Rightarrow> worker_state option" where
  "handle_rejected env ct source msg w =
     (if canonical_source (sv_uid env) source \<noteq> expected_host_uid (wk_rt w) \<or> bs_attempt_id msg \<noteq> join_attempt_id (wk_rt w) then Some w
      else let fail = JoinHostFailedEvent (bs_attempt_id msg)
          (if bs_rejection_reason msg = [] then ''Join rejected'' else bs_rejection_reason msg) in
        if \<not> can_runtime env fail w then Some w
        else do {
          w \<leftarrow> commit_runtime env (ct_fail ct) fail w;
          let w = (if wk_sync w \<noteq> None then effect (ForgetInitialNode source) w else w);
          let w = w\<lparr> wk_waiting_entry := (wk_waiting_entry w)(source := None) \<rparr>;
          Some (mark_dirty (clear_join_scheduler env w)) })"

definition expect_room :: "string \<Rightarrow> obj_id \<Rightarrow> worker_state \<Rightarrow> worker_state" where
  "expect_room source room w = (if wk_sync w \<noteq> None then effect (ExpectInitialNode source room) w else w)"

text \<open>The first acceptance of the current attempt.\<close>

definition accept_join :: "session_env \<Rightarrow> control_env \<Rightarrow> string \<Rightarrow> bootstrap_message \<Rightarrow> worker_state \<Rightarrow> worker_state option" where
  "accept_join env ct source msg w = do {
     let (ok, canonical) = TryCanonicalizeAetherUid (sv_uid env) source source;
     let ev = JoinHostAcceptedEvent (bs_attempt_id msg) (if ok then canonical else source) (bs_room_id msg);
     if \<not> can_runtime env ev w then Some w
     else do {
       w \<leftarrow> commit_runtime env (ct_accept ct) ev w;
       w \<leftarrow> (if ae_valid (se_ae env) (entry_room_of env w (join_entry_id (wk_rt w))) \<and>
               entry_room_of env w (join_entry_id (wk_rt w)) = bs_room_id msg then
             let finished = JoinHostCompletedEvent (bs_attempt_id msg) (bs_room_id msg) in
             if can_runtime env finished w then map_option (clear_join_scheduler env) (commit_runtime env (ct_done ct) finished w)
             else Some w
           else Some (expect_room source (bs_room_id msg)
             (w\<lparr> wk_waiting_entry := (wk_waiting_entry w)(source \<mapsto> join_entry_id (wk_rt w)) \<rparr>)));
       Some (mark_dirty w) } }"

definition handle_accepted :: "session_env \<Rightarrow> control_env \<Rightarrow> string \<Rightarrow> bootstrap_message \<Rightarrow> worker_state \<Rightarrow> worker_state option" where
  "handle_accepted env ct source msg w =
     (let rt = wk_rt w; room = bs_room_id msg in
      if canonical_source (sv_uid env) source \<noteq> expected_host_uid rt \<or> bs_attempt_id msg \<noteq> join_attempt_id rt \<or>
         \<not> ae_valid (se_ae env) room then Some w
      else if join_phase rt = kJoined \<and> bound_room_id rt = room \<and> join_attempt_id rt = bs_attempt_id msg then Some w
      else if join_phase rt = kAccepted \<and> accepted_room_id rt = room \<and> join_attempt_id rt = bs_attempt_id msg then
        (let w = expect_room source room w in
         Some (w\<lparr> wk_waiting_entry := (wk_waiting_entry w)(source \<mapsto> join_entry_id rt) \<rparr>))
      else if join_phase rt = kAccepted \<and> ae_valid (se_ae env) (accepted_room_id rt) \<and> accepted_room_id rt \<noteq> room then
        (let fail = JoinHostFailedEvent (bs_attempt_id msg) ''Join conflict: host offered a different room'' in
         if can_runtime env fail w then do {
           w \<leftarrow> commit_runtime env (ct_fail ct) fail w;
           Some (mark_dirty (clear_join_scheduler env w)) }
         else Some w)
      else if join_phase rt \<noteq> kJoining then Some w
      else accept_join env ct source msg w)"

definition handle_control :: "session_env \<Rightarrow> control_env \<Rightarrow> string \<Rightarrow> bytes \<Rightarrow> worker_state \<Rightarrow> worker_state option" where
  "handle_control env ct source bs w =
     (if wk_identity_conflict w then Some w
      else case DecodeChatBootstrap (se_ae env) (sv_archive env) bs of
        None \<Rightarrow> Some w
      | Some msg \<Rightarrow>
          if demo_role (wk_workspace w) = kHost \<and> bs_kind msg = kJoinRequest then
            map_option mark_dirty (host_accept_client env (ct_host ct) source msg w)
          else if demo_role (wk_workspace w) \<noteq> kClient then Some w
          else if bs_kind msg = kJoinRejected then handle_rejected env ct source msg w
          else if bs_kind msg \<noteq> kJoinAccepted then Some w
          else handle_accepted env ct source msg w)"

record begin_env =
  bg_set :: commit_env
  bg_fail :: commit_env
  bg_open :: open_env
  bg_request :: commit_env
  bg_now :: int

text \<open>Another host than that of the running attempt: the old expectation is dropped.\<close>

definition supersede_attempt :: "session_env \<Rightarrow> string \<Rightarrow> worker_state \<Rightarrow> worker_state" where
  "supersede_attempt env canonical w =
     (if joining w \<and> expected_host_uid (wk_rt w) \<noteq> [] \<and> expected_host_uid (wk_rt w) \<noteq> canonical then
        let w = (if wk_sync w \<noteq> None then effect (ForgetInitialNode (expected_host_uid (wk_rt w))) w else w) in
        clear_join_scheduler env (w\<lparr> wk_waiting_entry := (wk_waiting_entry w)(expected_host_uid (wk_rt w) := None) \<rparr>)
      else w)"

definition begin_join :: "session_env \<Rightarrow> begin_env \<Rightarrow> worker_state \<Rightarrow> worker_state option" where
  "begin_join env bg w =
     (if demo_role (wk_workspace w) \<noteq> kClient then Some w
      else do {
        (r, w) \<leftarrow> command (SetHostUidInput (sv_chat env) (bg_set bg) (host_uid_input (wk_workspace w))) w;
        let (ok, canonical) = TryCanonicalizeAetherUid (sv_uid env) (host_uid_input (wk_workspace w)) [];
        if \<not> ok \<or> (wk_my_uid w \<noteq> [] \<and> canonical = wk_my_uid w) then do {
          w \<leftarrow> try_commit_runtime env (bg_fail bg) (JoinHostFailedEvent (join_attempt_id (wk_rt w)) ''Invalid Host UID'') w;
          Some (mark_dirty (clear_join_scheduler env w)) }
        else do {
          (i, w) \<leftarrow> command (OpenOrSelectChat (sv_chat env) (bg_open bg) canonical) w;
          if \<not> ae_valid (se_ae env) i then Some w
          else if joining w \<and> expected_host_uid (wk_rt w) = canonical then Some (arm_join_scheduler env (bg_now bg) w)
          else do {
            let w = supersede_attempt env canonical w;
            let req = JoinHostRequestedEvent i canonical;
            if \<not> can_runtime env req w then Some w
            else do {
              w \<leftarrow> commit_runtime env (bg_request bg) req w;
              Some (mark_dirty (arm_join_scheduler env (bg_now bg) w)) } } } })"

text \<open>The callback of SharedSyncRuntime on an imported initial node: \<open>is_room\<close> is the class test, the answer says
  whether the import is kept.  The map of pending entries, which nothing ever fills, is left out.\<close>

record import_env =
  im_done :: commit_env
  im_bind :: commit_env

text \<open>The scheduler is cleared here without its start time.\<close>

definition end_join_send :: "session_env \<Rightarrow> worker_state \<Rightarrow> worker_state" where
  "end_join_send env w = w\<lparr> wk_join_sched_attempt := ae_null (se_ae env), wk_join_frozen := [], wk_join_last_send := None \<rparr>"

text \<open>The entry is bound to the room already, or is bound to it now.\<close>

definition finish_bound :: "session_env \<Rightarrow> import_env \<Rightarrow> string \<Rightarrow> obj_id \<Rightarrow> worker_state \<Rightarrow> (bool \<times> worker_state) option" where
  "finish_bound env im source room w = do {
     let finished = JoinHostCompletedEvent (join_attempt_id (wk_rt w)) room;
     w \<leftarrow> (if can_runtime env finished w \<and> join_phase (wk_rt w) = kAccepted then commit_runtime env (im_done im) finished w else Some w);
     let w = w\<lparr> wk_waiting_entry := (wk_waiting_entry w)(source := None) \<rparr>;
     Some (True, mark_dirty (end_join_send env w)) }"

definition bind_imported ::
  "session_env \<Rightarrow> import_env \<Rightarrow> string \<Rightarrow> obj_id \<Rightarrow> share \<Rightarrow> room_node \<Rightarrow> worker_state \<Rightarrow> (bool \<times> worker_state) option" where
  "bind_imported env im source i sh n w = do {
     (ok, w) \<leftarrow> command (BindChat (sv_chat env) (im_bind im) i (bare_ptr (share_link sh)) (node_ptr n)) w;
     if \<not> ok then Some (False, w)
     else do {
       let w = persist_workspace w;
       let w = w\<lparr> wk_waiting_entry := (wk_waiting_entry w)(source := None) \<rparr>;
       w \<leftarrow> (if join_entry_id (wk_rt w) = i
             then try_commit_runtime env (im_done im) (JoinHostCompletedEvent (join_attempt_id (wk_rt w)) (node_obj_id n)) w else Some w);
       Some (True, mark_dirty (end_join_send env w)) } }"

definition InitialNodeImported ::
  "session_env \<Rightarrow> import_env \<Rightarrow> string \<Rightarrow> bool \<Rightarrow> room_node \<Rightarrow> worker_state \<Rightarrow> (bool \<times> worker_state) option" where
  "InitialNodeImported env im source is_room n w =
     (let rt = wk_rt w; room = node_obj_id n in
      if join_phase rt \<noteq> kAccepted then Some (False, w)
      else if source \<noteq> expected_host_uid rt then Some (False, w)
      else if \<not> is_room \<or> \<not> ae_valid (se_ae env) room then Some (False, w)
      else if \<not> ae_valid (se_ae env) (accepted_room_id rt) \<or> room \<noteq> accepted_room_id rt then Some (False, w)
      else let n = SetJournalCompactionBlocked True n; w = put_room n w in
        if wk_waiting_entry w source \<noteq> Some (join_entry_id rt) then Some (False, w)
        else case FindEntryById (se_ae env) (wk_workspace w) (join_entry_id rt) of
          None \<Rightarrow> Some (False, w)
        | Some i \<Rightarrow> do {
            entry \<leftarrow> cg_entries (cs_graph (wk_cmd w)) i;
            let bound = entry_room (materialized entry);
            if ae_valid (se_ae env) bound \<and> bound \<noteq> room then Some (False, w)
            else case find (share_ends_at source) (shares (materialized n)) of
              None \<Rightarrow> Some (False, w)
            | Some sh \<Rightarrow>
                if ae_valid (se_ae env) bound \<and> bound = room then finish_bound env im source room w
                else bind_imported env im source i sh n w })"

section \<open>Status\<close>

definition ellipsis :: string where "ellipsis = [CHR 0xE2, CHR 0x80, CHR 0xA6]"

definition projected_join :: "runtime_state \<Rightarrow> chat_status \<Rightarrow> chat_status" where
  "projected_join rt s =
     (let err = last_error rt;
          s = (case join_phase rt of
             kJoining \<Rightarrow> s\<lparr> st_join_status_text := ''Joining'' @ ellipsis \<rparr>
           | kAccepted \<Rightarrow> s\<lparr> st_join_status_text := ''Syncing'' @ ellipsis \<rparr>
           | kJoined \<Rightarrow> s\<lparr> st_join_status_text := ''Joined'' \<rparr>
           | kFailed \<Rightarrow> s\<lparr> st_join_status_text := err, st_error_text := err \<rparr>
           | kIdle \<Rightarrow> s\<lparr> st_join_status_text := [] \<rparr>)
      in if join_phase rt \<noteq> kFailed \<and> err = [] \<and>
           (sublist ''Join'' (st_error_text s) \<or> sublist ''join'' (st_error_text s) \<or> st_error_text s = ''Invalid Host UID'' \<or>
            sublist ''timed out'' (st_error_text s))
         then s\<lparr> st_error_text := [] \<rparr> else s)"

definition project_demo_status :: "bool \<Rightarrow> worker_state \<Rightarrow> worker_state" where
  "project_demo_status force w =
     (let rt = wk_rt w; ws = wk_workspace w;
          now = (generation (wk_runtime w), generation (cg_workspace (cs_graph (wk_cmd w))), join_phase rt, last_error rt,
            host_uid_input ws, local_endpoint_uid ws) in
      if \<not> force \<and> wk_projected w = Some now then w
      else UpdateStatus (\<lambda>s.
        (let s = s\<lparr> st_demo_role := demo_role ws, st_host_uid_input := host_uid_input ws, st_local_endpoint_uid := local_endpoint_uid ws,
             st_join_phase := join_phase rt \<rparr> in
         if demo_role ws = kHost \<and> local_endpoint_uid ws = [] then s\<lparr> st_join_status_text := ''Registering'' @ ellipsis \<rparr>
         else if demo_role ws = kClient then projected_join rt s
         else s\<lparr> st_join_status_text := [] \<rparr>)) (w\<lparr> wk_projected := Some now \<rparr>))"

section \<open>User commands\<close>

definition on_set_host_uid_input :: "session_env \<Rightarrow> commit_env \<Rightarrow> string \<Rightarrow> worker_state \<Rightarrow> worker_state option" where
  "on_set_host_uid_input env cenv text w = do {
     (ok, w) \<leftarrow> command (SetHostUidInput (sv_chat env) cenv text) w;
     Some (if ok then project_demo_status False (mark_dirty w) else w) }"

definition on_copy_host_uid :: "session_env \<Rightarrow> commit_env \<Rightarrow> worker_state \<Rightarrow> worker_state option" where
  "on_copy_host_uid env cenv w =
     (if demo_role (wk_workspace w) \<noteq> kHost \<or> local_endpoint_uid (wk_workspace w) = [] then Some w
      else do {
        w \<leftarrow> commit_runtime env cenv (CopyHostUidRequestedEvent (local_endpoint_uid (wk_workspace w))) w;
        Some (mark_dirty (UpdateStatus (\<lambda>s. s\<lparr> st_pending_copy := Some (copy_request_id (wk_rt w), copy_uid (wk_rt w)) \<rparr>) w)) })"

definition on_select_chat :: "session_env \<Rightarrow> commit_env \<Rightarrow> obj_id \<Rightarrow> worker_state \<Rightarrow> worker_state option" where
  "on_select_chat env cenv i w = do {
     (ok, w) \<leftarrow> command (SelectChat (sv_chat env) cenv i) w;
     Some (if ok then mark_dirty (w\<lparr> wk_pending_select_ack := Some i \<rparr>) else w) }"

definition reject_edit :: "obj_id \<Rightarrow> u64 \<Rightarrow> string \<Rightarrow> worker_state \<Rightarrow> worker_state" where
  "reject_edit i revision reason = UpdateStatus (\<lambda>s. s\<lparr> st_error_text := reason, st_edit_results := (st_edit_results s)(i \<mapsto>
     \<lparr> dr_revision = revision, dr_outcome = Draft_Rejected, dr_failure_reason = reason, dr_accepted_send_id = empty_event_id \<rparr>) \<rparr>)"

definition on_edit_draft :: "session_env \<Rightarrow> commit_env \<Rightarrow> obj_id \<Rightarrow> string \<Rightarrow> u64 \<Rightarrow> worker_state \<Rightarrow> worker_state option" where
  "on_edit_draft env cenv i text revision w =
     (if \<not> FieldWithinUserCommandLimit text kMaxDraftTextBytes then Some (mark_dirty (reject_edit i revision ''Draft too large'' w))
      else case FindEntryById (se_ae env) (wk_workspace w) i of
        None \<Rightarrow> Some (reject_edit i revision ''Unknown chat entry'' w)
      | Some j \<Rightarrow> do {
          n \<leftarrow> cg_entries (cs_graph (wk_cmd w)) j;
          let unchanged = (draft (materialized n) = text);
          (ok, w) \<leftarrow> command (SetDraft (sv_chat env) cenv j text) w;
          if \<not> ok then Some w
          else do {
            let w = w\<lparr> wk_processed_edit_revisions := (wk_processed_edit_revisions w)(i \<mapsto> revision) \<rparr>;
            let w = (if unchanged then w else mark_dirty w);
            Some (UpdateStatus (\<lambda>s. s\<lparr> st_edit_results := (st_edit_results s)(i \<mapsto>
              \<lparr> dr_revision = revision, dr_outcome = Draft_Accepted, dr_failure_reason = [], dr_accepted_send_id = empty_event_id \<rparr>) \<rparr>) w) } })"

definition reject_send :: "obj_id \<Rightarrow> u64 \<Rightarrow> string \<Rightarrow> worker_state \<Rightarrow> worker_state" where
  "reject_send i revision reason = UpdateStatus (\<lambda>s. s\<lparr> st_error_text := reason, st_send_results := (st_send_results s)(i \<mapsto>
     \<lparr> dr_revision = revision, dr_outcome = Draft_Rejected, dr_failure_reason = reason, dr_accepted_send_id = empty_event_id \<rparr>) \<rparr>)"

definition on_send_draft ::
  "session_env \<Rightarrow> commit_env \<Rightarrow> submit_env \<Rightarrow> u64 \<Rightarrow> obj_id \<Rightarrow> string \<Rightarrow> u64 \<Rightarrow> worker_state \<Rightarrow> worker_state option" where
  "on_send_draft env cenv su now_us i text revision w =
     (if \<not> FieldWithinUserCommandLimit text kMaxDraftTextBytes then Some (mark_dirty (reject_send i revision ''Draft too large'' w))
      else case FindEntryById (se_ae env) (wk_workspace w) i of
        None \<Rightarrow> Some (reject_send i revision ''Unknown chat entry'' w)
      | Some j \<Rightarrow> do {
          (ok, w) \<leftarrow> command (SetDraft (sv_chat env) cenv j text) w;
          (sent, w) \<leftarrow> command (SubmitDraft (sv_chat env) su j now_us) w;
          if origin_uid sent \<noteq> [] \<and> origin_sequence sent > 0 then
            Some (UpdateStatus (\<lambda>s. s\<lparr> st_send_results := (st_send_results s)(i \<mapsto>
                \<lparr> dr_revision = revision, dr_outcome = Draft_Accepted, dr_failure_reason = [], dr_accepted_send_id = sent \<rparr>) \<rparr>)
              (mark_dirty (w\<lparr> wk_processed_edit_revisions := (wk_processed_edit_revisions w)(i \<mapsto> revision) \<rparr>)))
          else Some (mark_dirty (reject_send i revision ''Send rejected'' w)) })"

definition on_save_scroll :: "session_env \<Rightarrow> commit_env \<Rightarrow> obj_id \<Rightarrow> scroll_anchor \<Rightarrow> worker_state \<Rightarrow> worker_state option" where
  "on_save_scroll env cenv i anchor w =
     (case FindEntryById (se_ae env) (wk_workspace w) i of
        None \<Rightarrow> Some w
      | Some j \<Rightarrow> do {
          (ok, w) \<leftarrow> command (SetScroll (sv_chat env) cenv j anchor) w;
          Some (if ok then mark_dirty w else w) })"

definition on_save_bounds :: "session_env \<Rightarrow> commit_env \<Rightarrow> desktop_bounds \<Rightarrow> worker_state \<Rightarrow> worker_state option" where
  "on_save_bounds env cenv bounds w = do {
     (ok, w) \<leftarrow> command (SetDesktopBounds (sv_chat env) cenv bounds) w;
     Some (if ok then mark_dirty w else w) }"

text \<open>\<open>failure\<close> is the text of the exception that the Save threw, if it did.\<close>

definition on_checkpoint :: "u64 \<Rightarrow> string option \<Rightarrow> worker_state \<Rightarrow> worker_state" where
  "on_checkpoint request_id failure w =
     (case failure of
        None \<Rightarrow> UpdateStatus (\<lambda>s. s\<lparr> st_completed_checkpoint_id := request_id \<rparr>) (persist_workspace w)
      | Some what \<Rightarrow> UpdateStatus (\<lambda>s. s\<lparr> st_error_text := ''Checkpoint Save failed: '' @ what \<rparr>) w)"

end
