(* ===== verification/ChatNetwork.thy ===== *)
theory ChatNetwork
  imports ChatHandlers
begin

text \<open>
  The callbacks ThreadMain passes to the endpoint and the passes of its main loop (chat_session.cpp).  Every callback
  belongs to the epoch of the Start that received it; RetryConnection begins a new epoch.
\<close>

section \<open>Callbacks of the endpoint\<close>

definition conflict_text :: "worker_state \<Rightarrow> string" where
  "conflict_text w = ''Local endpoint UID conflict: persisted '' @ local_endpoint_uid (wk_workspace w) @ '' vs Aether '' @ wk_my_uid w"

definition identity_conflict :: "worker_state \<Rightarrow> worker_state" where
  "identity_conflict w =
     effect RequestStopEndpoint (mark_dirty (UpdateStatus (\<lambda>s. s\<lparr> st_lifecycle_state := Session_Failed, st_error_text := conflict_text w \<rparr>)
       (w\<lparr> wk_identity_conflict := True \<rparr>)))"

definition on_uid :: "session_env \<Rightarrow> commit_env \<Rightarrow> string \<Rightarrow> worker_state \<Rightarrow> worker_state option" where
  "on_uid env cenv uid w =
     (let w = w\<lparr> wk_my_uid := uid \<rparr> in
      if local_endpoint_uid (wk_workspace w) \<noteq> [] \<and> local_endpoint_uid (wk_workspace w) \<noteq> uid then Some (identity_conflict w)
      else do {
        (ok, w) \<leftarrow> command (BindLocalEndpoint (sv_chat env) cenv uid) w;
        if \<not> ok then Some (identity_conflict w)
        else Some (mark_dirty (UpdateStatus (\<lambda>s. s\<lparr> st_local_endpoint_uid := uid \<rparr>) w)) })"

text \<open>The rooms of the chats, and the peers of their links, in list order.\<close>

definition chat_nodes :: "session_env \<Rightarrow> worker_state \<Rightarrow> chat_entry list" where
  "chat_nodes env w = List.map_filter (\<lambda>i. if ae_valid (se_ae env) i then map_option materialized (cg_entries (cs_graph (wk_cmd w)) i) else None)
     (chats (wk_workspace w))"

definition register_rooms :: "session_env \<Rightarrow> worker_state \<Rightarrow> worker_state" where
  "register_rooms env w = fold (\<lambda>entry w. if ae_valid (se_ae env) (entry_room entry) then register_room (entry_room entry) w else w) (chat_nodes env w) w"

definition open_peers :: "session_env \<Rightarrow> worker_state \<Rightarrow> worker_state" where
  "open_peers env w = fold (\<lambda>entry w. if ae_valid (se_ae env) (peer_link entry) \<and> che_endpoint (sv_chat env) (peer_link entry) \<noteq> []
     then effect (OpenPeer (che_endpoint (sv_chat env) (peer_link entry))) w else w) (chat_nodes env w) w"

text \<open>The join request when the endpoint becomes ready: frozen unless it is, and sent at once.\<close>

definition resume_join :: "session_env \<Rightarrow> int \<Rightarrow> worker_state \<Rightarrow> worker_state" where
  "resume_join env now w =
     (if demo_role (wk_workspace w) \<noteq> kClient \<or> \<not> joining w then w
      else
        let w = (if wk_join_sched_attempt w \<noteq> join_attempt_id (wk_rt w) \<or> wk_join_frozen w = [] then
              let (ok, bs) = EncodeChatBootstrap (sv_archive env) (join_request env w) in
              if ok then w\<lparr> wk_join_sched_attempt := join_attempt_id (wk_rt w), wk_join_frozen := bs,
                wk_join_start := (if wk_join_start w = 0 then now else wk_join_start w), wk_join_last_send := None \<rparr>
              else w
            else w)
        in if wk_join_frozen w \<noteq> [] \<and> wk_has_endpoint w then
             (effect (SendControl (expected_host_uid (wk_rt w)) (wk_join_frozen w)) (effect (OpenPeer (expected_host_uid (wk_rt w))) w))
               \<lparr> wk_join_last_send := Some now \<rparr>
           else w)"

definition on_ready :: "session_env \<Rightarrow> int \<Rightarrow> worker_state \<Rightarrow> worker_state" where
  "on_ready env now w =
     (if wk_identity_conflict w then w
      else
        let w = UpdateStatus (\<lambda>s. s\<lparr> st_lifecycle_state := Session_Ready \<rparr>) (w\<lparr> wk_aether_ready := True \<rparr>);
            w = effect (CreateSyncRuntime (wk_my_uid w)) (w\<lparr> wk_sync := Some {} \<rparr>);
            w = register_rooms env w;
            rt = wk_rt w;
            w = (if join_phase rt = kAccepted \<and> ae_valid (se_ae env) (accepted_room_id rt) \<and> expected_host_uid rt \<noteq> [] then
                effect (ExpectInitialNode (expected_host_uid rt) (accepted_room_id rt))
                  (w\<lparr> wk_waiting_entry := (wk_waiting_entry w)(expected_host_uid rt \<mapsto> join_entry_id rt) \<rparr>)
              else w);
            w = open_peers env w
        in mark_dirty (resume_join env now w))"

definition on_failed :: "string \<Rightarrow> worker_state \<Rightarrow> worker_state" where
  "on_failed err = UpdateStatus (\<lambda>s. s\<lparr> st_lifecycle_state := Session_Failed, st_error_text := err \<rparr>)"

definition set_peer_presence :: "string \<Rightarrow> peer_presence \<Rightarrow> worker_state \<Rightarrow> worker_state" where
  "set_peer_presence peer p w =
     (let w = w\<lparr> wk_remote_presence := (wk_remote_presence w)(peer \<mapsto> p) \<rparr> in
      UpdateStatus (\<lambda>s. s\<lparr> st_remote_presence := wk_remote_presence w \<rparr>) w)"

datatype callback =
    Callback_uid commit_env string
  | Callback_ready int
  | Callback_failed string
  | Callback_presence string peer_presence
  | Callback_connectivity bool bool
  | Callback_control control_env string bytes

text \<open>The work a callback of an epoch enqueues.\<close>

definition run_callback :: "session_env \<Rightarrow> nat \<Rightarrow> callback \<Rightarrow> worker_state \<Rightarrow> worker_state option" where
  "run_callback env epoch c w =
     (if wk_network_epoch w \<noteq> epoch then Some w
      else case c of
        Callback_uid cenv uid \<Rightarrow> on_uid env cenv uid w
      | Callback_ready now \<Rightarrow> Some (on_ready env now w)
      | Callback_failed err \<Rightarrow> Some (on_failed err w)
      | Callback_presence peer p \<Rightarrow> Some (set_peer_presence peer p w)
      | Callback_connectivity has_schedule any_online \<Rightarrow>
          Some (UpdateStatus (\<lambda>s. s\<lparr> st_local_connectivity := LocalConnectivityFromDiag has_schedule any_online \<rparr>) w)
      | Callback_control ct source bs \<Rightarrow> handle_control env ct source bs w)"

section \<open>Starting and retrying the network\<close>

definition start_network :: "worker_state \<Rightarrow> worker_state" where
  "start_network w = effect (StartEndpoint (wk_network_epoch w)) (w\<lparr> wk_has_endpoint := True \<rparr>)"

definition on_retry_connection :: "worker_state \<Rightarrow> worker_state" where
  "on_retry_connection w =
     (if wk_identity_conflict w \<or> wk_retry_in_progress w then w
      else if st_lifecycle_state (wk_status w) \<noteq> Session_Failed then w
      else
        let w = w\<lparr> wk_retry_in_progress := True, wk_network_epoch := wk_network_epoch w + 1 \<rparr>;
            w = (if wk_has_endpoint w then effect StopEndpointJoin w else w);
            w = w\<lparr> wk_sync := None, wk_has_endpoint := False, wk_aether_ready := False, wk_remote_presence := (\<lambda>p. None) \<rparr>;
            w = UpdateStatus (\<lambda>s. s\<lparr> st_lifecycle_state := Session_Starting, st_local_connectivity := Connectivity_Unknown,
              st_remote_presence := (\<lambda>p. None), st_error_text := [] \<rparr>) w;
            w = start_network w
        in w\<lparr> wk_retry_in_progress := False \<rparr>)"

section \<open>Driving the synchronization\<close>

record room_sync_snapshot =
  ss_phase :: u8
  ss_has_pending :: bool
  ss_initial_packet :: obj_id
  ss_event_packet :: obj_id
  ss_message_count :: nat
  ss_journal_size :: nat

definition CaptureRoomSyncSnapshot :: "aether \<Rightarrow> room_node \<Rightarrow> link_sync_state \<Rightarrow> room_sync_snapshot" where
  "CaptureRoomSyncSnapshot ae room s = \<lparr> ss_phase = initial_sync_phase s, ss_has_pending = HasPendingEvent ae s,
     ss_initial_packet = pending_initial_packet_id s, ss_event_packet = pending_event_packet_id s,
     ss_message_count = length (messages (materialized room)), ss_journal_size = length (journal room) \<rparr>"

text \<open>What the loop calls for one room, \<open>prev\<close> being the time of the last attempt for the peer: the call, if any,
  and whether the loop goes on to compare the snapshots.\<close>

datatype sync_call = Call_Initial | Call_Next | Call_None

definition sync_decision :: "aether \<Rightarrow> link_sync_state \<Rightarrow> peer_presence option \<Rightarrow> int \<Rightarrow> int \<Rightarrow> sync_call \<times> bool" where
  "sync_decision ae s presence prev now =
     (let phase = initial_sync_phase s in
      if phase = NotStarted then (Call_Initial, True)
      else if phase = Pending then (if now - prev \<ge> 1000000000 then Call_Initial else Call_None, True)
      else if phase = Complete then
        (if presence \<noteq> Some Peer_Online then (Call_None, False)
         else if HasPendingEvent ae s then (if now - prev \<ge> 1000000000 then Call_Next else Call_None, True)
         else (Call_Next, True))
      else (Call_None, True))"

text \<open>One room of the pass.  \<open>sync\<close> is the room as the call leaves it; the retry times are per peer, 0 at first.\<close>

definition drive_room ::
  "session_env \<Rightarrow> (session_effect \<Rightarrow> room_node \<Rightarrow> room_node) \<Rightarrow> int \<Rightarrow> chat_entry \<Rightarrow> (string \<Rightarrow> int) \<times> worker_state \<Rightarrow> (string \<Rightarrow> int) \<times> worker_state" where
  "drive_room env sync now entry = (\<lambda>(retry, w).
     let ae = se_ae env; r = entry_room entry; peer = che_endpoint (sv_chat env) (peer_link entry) in
     if \<not> ae_valid ae r \<or> \<not> ae_valid ae (peer_link entry) \<or> peer = [] then (retry, w)
     else case cg_rooms (cs_graph (wk_cmd w)) r of
       None \<Rightarrow> (retry, w)
     | Some room \<Rightarrow>
         let sid = remote_share_id ae peer (materialized room) in
         if \<not> ae_valid ae sid then (retry, w)
         else case sync_state_of sid (materialized room) of
           None \<Rightarrow> (retry, w)
         | Some s \<Rightarrow>
             let (call, compare) = sync_decision ae s (wk_remote_presence w peer) (retry peer) now;
                 before = CaptureRoomSyncSnapshot ae room s;
                 retry' = (if call = Call_None then retry else retry(peer := now));
                 e = (if call = Call_Initial then SyncInitialState r sid else SyncNextEvent r sid);
                 room' = (if call = Call_None then room else sync e room);
                 w = (if call = Call_None then w else put_room room' (effect e w)) in
             if \<not> compare then (retry', w)
             else case sync_state_of sid (materialized room') of
               None \<Rightarrow> (retry', w)
             | Some s' \<Rightarrow> if before \<noteq> CaptureRoomSyncSnapshot ae room' s' then (retry', mark_dirty (persist_workspace w)) else (retry', w))"

definition drive_sync ::
  "session_env \<Rightarrow> (session_effect \<Rightarrow> room_node \<Rightarrow> room_node) \<Rightarrow> int \<Rightarrow> (string \<Rightarrow> int) \<times> worker_state \<Rightarrow> (string \<Rightarrow> int) \<times> worker_state" where
  "drive_sync env sync now rw =
     (if wk_sync (snd rw) = None \<or> wk_identity_conflict (snd rw) then rw
      else fold (drive_room env sync now) (chat_nodes env (snd rw)) rw)"

text \<open>The projection of the synchronization into the status.\<close>

definition project_room ::
  "session_env \<Rightarrow> worker_state \<Rightarrow> chat_entry \<Rightarrow> (string \<Rightarrow> room_bootstrap option) \<times> (shared_event_id \<Rightarrow> delivery_state option) \<Rightarrow>
   (string \<Rightarrow> room_bootstrap option) \<times> (shared_event_id \<Rightarrow> delivery_state option)" where
  "project_room env w entry = (\<lambda>(bootstrap, delivery).
     let ae = se_ae env; peer = che_endpoint (sv_chat env) (peer_link entry) in
     if \<not> ae_valid ae (entry_room entry) \<or> \<not> ae_valid ae (peer_link entry) \<or> peer = [] then (bootstrap, delivery)
     else case cg_rooms (cs_graph (wk_cmd w)) (entry_room entry) of
       None \<Rightarrow> (bootstrap, delivery)
     | Some room \<Rightarrow>
         let sid = remote_share_id ae peer (materialized room) in
         if \<not> ae_valid ae sid then (bootstrap, delivery)
         else case sync_state_of sid (materialized room) of
           None \<Rightarrow> (bootstrap, delivery)
         | Some s \<Rightarrow>
             (bootstrap(peer \<mapsto> BootstrapFromPhase (initial_sync_phase s)),
              fold (\<lambda>msg d. if DeliveryForOwnEvent ae s (message_id msg) (wk_my_uid w) \<noteq> Delivery_None
                then d(message_id msg \<mapsto> DeliveryForOwnEvent ae s (message_id msg) (wk_my_uid w)) else d)
                (messages (materialized room)) delivery))"

definition refresh_sync_projection ::
  "session_env \<Rightarrow> worker_state \<Rightarrow> (string \<Rightarrow> room_bootstrap option) \<times> (shared_event_id \<Rightarrow> delivery_state option)" where
  "refresh_sync_projection env w =
     (if wk_my_uid w = [] then (\<lambda>p. None, \<lambda>i. None)
      else fold (project_room env w) (chat_nodes env w) (\<lambda>p. None, \<lambda>i. None))"

end
