(* ===== verification/ChatProperties.thy ===== *)
theory ChatProperties
  imports ChatCommands "HOL-Library.Sublist"
begin

text \<open>
  What the commands of ChatCommands promise: the well-formedness of the workspace over every run of commands and
  crashes, message identities that are never used twice, the effect of SubmitDraft, and the text SetHostUidInput
  aborts on.
\<close>

section \<open>Commits seen from the fields\<close>

lemma chat_commit_some:
  fixes n :: "('s, 'e, 's) node"
  assumes inv: "node_inv (chat_ops can app matches missing) id n" and len: "length (journal n) < kJournalFullyMaterialized"
    and ok: "Commit (chat_ops can app matches missing) cenv e n = Some n'"
  shows "can e (materialized n) \<and> materialized n' = app (ce_event_id cenv) e (materialized n) \<and>
    node_inv (chat_ops can app matches missing) id n' \<and> length (journal n') = Suc (length (journal n)) \<and>
    node_domain n' = node_domain n"
proof -
  let ?ops = "chat_ops can app matches missing" and ?ev = "new_event cenv (node_domain n) e"
  let ?r = "\<lparr> event = ?ev, identity = \<lparr> origin_uid = [], origin_sequence = 0 \<rparr>,
    timestamp_us = commit_timestamp (ce_now1 cenv) n, retained_since_us = ce_now2 cenv \<rparr>"
  have c: "CommitInto ?ops (ce_now1 cenv) (ce_now2 cenv) (ce_now3 cenv) ?ev n = Some n'" using ok by (simp add: Commit_def)
  then have wrap: "journal n = [] \<or> timestamp_us (last (journal n)) \<noteq> -1"
    using commit_after_last_timestamp [of n ?ops "ce_now1 cenv" "ce_now2 cenv" "ce_now3 cenv" ?ev] by auto
  have can: "can e (materialized n)" and ins: "TryInsertEvent ?ops (ce_now3 cenv) ?r n = Some (True, n')"
    using c by (auto simp: CommitInto_def InsertEvent_def assert_ok_def assert_that_def new_event_def
        split: Option.bind_splits if_splits)
  have pos: "lower_bound EventRecordOrderLess (journal n) ?r = length (journal n)"
    using inv wrap by (intro chat.commit_position) (auto simp: node_inv_def)
  have "replay ?ops [stamped (ce_now3 cenv) ?r] (materialized n) = Some (materialized n')"
    by (rule chat.append_replays [OF inv len pos ins])
  then have m: "materialized n' = app (ce_event_id cenv) e (materialized n)"
    using can by (simp add: usable_event_def new_event_def)
  show ?thesis
    using can m chat.insert_ok [OF inv len ins] chat.commit_appends [OF inv len c wrap] by auto
qed

text \<open>The nodes of a graph can take \<open>k\<close> more commits.\<close>

definition nodes_ok :: "chat_env \<Rightarrow> nat \<Rightarrow> chat_graph \<Rightarrow> bool" where
  "nodes_ok env k g \<longleftrightarrow> node_inv (workspace_ops env) id (cg_workspace g) \<and>
     length (journal (cg_workspace g)) + k \<le> kJournalFullyMaterialized \<and>
     (\<forall>i n. cg_entries g i = Some n \<longrightarrow> node_inv (entry_ops env) id n \<and> length (journal n) + k \<le> kJournalFullyMaterialized)"

lemma nodes_ok_entry:
  "nodes_ok env k g \<Longrightarrow> cg_entries g i = Some n \<Longrightarrow>
   node_inv (entry_ops env) id n \<and> length (journal n) + k \<le> kJournalFullyMaterialized"
  by (auto simp: nodes_ok_def)

lemma nodes_ok_mono: "nodes_ok env k g \<Longrightarrow> j \<le> k \<Longrightarrow> nodes_ok env j g"
  unfolding nodes_ok_def by (meson add_le_cancel_left order_trans)

lemma nodes_ok_workspace:
  assumes "nodes_ok env (Suc k) g" "node_inv (workspace_ops env) id n"
    "length (journal n) = Suc (length (journal (cg_workspace g)))"
  shows "nodes_ok env k (g\<lparr> cg_workspace := n \<rparr>)"
  using assms nodes_ok_mono [OF assms(1), of k] by (simp add: nodes_ok_def)

lemma nodes_ok_set_entry:
  assumes "nodes_ok env k g" "node_inv (entry_ops env) id n" "length (journal n) + k \<le> kJournalFullyMaterialized"
  shows "nodes_ok env k (g\<lparr> cg_entries := (cg_entries g)(i \<mapsto> n) \<rparr>)"
  using assms by (simp add: nodes_ok_def)

lemma commit_workspace_some:
  assumes "commit_workspace env cenv e st = Some st'" "nodes_ok env (Suc k) (cs_graph st)"
  shows "Workspace_CanApply (che_ae env) e (workspace_of st) \<and> workspace_of st' = Workspace_Apply e (workspace_of st) \<and>
    cg_entries (cs_graph st') = cg_entries (cs_graph st) \<and> cg_rooms (cs_graph st') = cg_rooms (cs_graph st) \<and>
    cs_saved st' = cs_saved st \<and> cs_persist st' = cs_persist st \<and> nodes_ok env k (cs_graph st') \<and>
    node_domain (cg_workspace (cs_graph st')) = node_domain (cg_workspace (cs_graph st))"
proof -
  obtain n where n: "Commit (workspace_ops env) cenv e (cg_workspace (cs_graph st)) = Some n"
    and st': "st' = st\<lparr> cs_graph := (cs_graph st)\<lparr> cg_workspace := n \<rparr> \<rparr>"
    using assms(1) by (auto simp: commit_workspace_def split: Option.bind_splits)
  have inv: "node_inv (workspace_ops env) id (cg_workspace (cs_graph st))"
    and len: "length (journal (cg_workspace (cs_graph st))) < kJournalFullyMaterialized"
    using assms(2) by (auto simp: nodes_ok_def)
  note c = chat_commit_some [OF inv [unfolded workspace_ops_def] len n [unfolded workspace_ops_def], folded workspace_ops_def]
  have "nodes_ok env k ((cs_graph st)\<lparr> cg_workspace := n \<rparr>)"
    using nodes_ok_workspace [OF assms(2)] c by blast
  then show ?thesis using c st' by simp
qed

lemma commit_entry_some:
  assumes "commit_entry env cenv i e st = Some st'" "nodes_ok env (Suc k) (cs_graph st)"
  obtains n n' where "cg_entries (cs_graph st) i = Some n" "Entry_CanApply (che_ae env) (che_endpoint env) e (materialized n)"
    "materialized n' = Entry_Apply e (materialized n)" "nodes_ok env k (cs_graph st')"
    "st' = st\<lparr> cs_graph := (cs_graph st)\<lparr> cg_entries := (cg_entries (cs_graph st))(i \<mapsto> n') \<rparr> \<rparr>"
proof -
  obtain n n' where n: "cg_entries (cs_graph st) i = Some n" "Commit (entry_ops env) cenv e n = Some n'"
    and st': "st' = st\<lparr> cs_graph := (cs_graph st)\<lparr> cg_entries := (cg_entries (cs_graph st))(i \<mapsto> n') \<rparr> \<rparr>"
    using assms(1) by (auto simp: commit_entry_def split: Option.bind_splits)
  have inv: "node_inv (entry_ops env) id n" and len: "length (journal n) < kJournalFullyMaterialized"
    using nodes_ok_entry [OF assms(2) n(1)] by simp_all
  note c = chat_commit_some [OF inv [unfolded entry_ops_def] len n(2) [unfolded entry_ops_def], folded entry_ops_def]
  have "nodes_ok env k (cs_graph st')"
    using nodes_ok_set_entry [OF nodes_ok_mono [OF assms(2)], of k n' i] c st' nodes_ok_entry [OF assms(2) n(1)] by simp
  then show thesis using that n(1) c st' by blast
qed

lemma persist_simps [simp]:
  "cs_graph (persist st) = cs_graph st" "cs_persist (persist st) = cs_persist st"
  "cs_saved (persist st) = cs_saved st @ (if cs_persist st then [cs_graph st] else [])"
  by (simp_all add: persist_def)


section \<open>The well-formedness of the workspace\<close>

definition peer_of :: "chat_graph \<Rightarrow> obj_id \<Rightarrow> string" where
  "peer_of g i = (case cg_entries g i of Some n \<Rightarrow> peer_uid (materialized n) | None \<Rightarrow> [])"

text \<open>Every chat is an existing entry with a trimmed peer of its own; the selection is one of the chats or null.\<close>

definition workspace_wf :: "chat_env \<Rightarrow> chat_graph \<Rightarrow> bool" where
  "workspace_wf env g \<longleftrightarrow> (let ws = materialized (cg_workspace g) in
     (\<forall>i\<in>set (chats ws). ae_valid (che_ae env) i \<and> cg_entries g i \<noteq> None \<and> peer_of g i \<noteq> [] \<and>
        TrimAsciiWhitespace (peer_of g i) = peer_of g i) \<and>
     distinct (map (peer_of g) (chats ws)) \<and>
     (selected_chat_id ws = ae_null (che_ae env) \<or> selected_chat_id ws \<in> set (chats ws)) \<and>
     next_message_sequence ws \<noteq> 0 \<and> length (host_uid_input ws) \<le> 128)"

definition graph_ok :: "chat_env \<Rightarrow> nat \<Rightarrow> chat_graph \<Rightarrow> bool" where
  "graph_ok env k g \<longleftrightarrow> nodes_ok env k g \<and> workspace_wf env g"

text \<open>What never goes back: a configured role, a bound endpoint, the sequence, the list of chats.\<close>

definition workspace_later :: "chat_workspace \<Rightarrow> chat_workspace \<Rightarrow> bool" where
  "workspace_later ws ws' \<longleftrightarrow> (demo_role ws \<noteq> kUnconfigured \<longrightarrow> demo_role ws' = demo_role ws) \<and>
     (local_endpoint_uid ws \<noteq> [] \<longrightarrow> local_endpoint_uid ws' = local_endpoint_uid ws) \<and>
     next_message_sequence ws \<le> next_message_sequence ws' \<and> prefix (chats ws) (chats ws')"

lemma workspace_later_refl [simp]: "workspace_later ws ws"
  by (simp add: workspace_later_def)

lemma workspace_later_trans: "workspace_later a b \<Longrightarrow> workspace_later b c \<Longrightarrow> workspace_later a c"
  by (auto simp: workspace_later_def intro: prefix_order.trans)

lemma workspace_event_later:
  assumes "Workspace_CanApply ae e ws" "\<And>uid. e = LocalEndpointBoundEvent uid \<Longrightarrow> local_endpoint_uid ws = []"
  shows "workspace_later ws (Workspace_Apply e ws)"
proof (cases e)
  case (MessageSequenceReservedEvent n)
  then have "n = next_message_sequence ws" "n \<noteq> -1" using assms(1) by auto
  then have "n \<le> n + 1" by (metis word_less_Suc less_imp_le)
  then show ?thesis using MessageSequenceReservedEvent \<open>n = next_message_sequence ws\<close> by (simp add: workspace_later_def)
qed (use assms in \<open>auto simp: workspace_later_def\<close>)

lemma peer_of_same_entries: "cg_entries g = cg_entries h \<Longrightarrow> peer_of g = peer_of h"
  by (rule ext) (simp add: peer_of_def)

lemma workspace_event_wf:
  assumes wf: "workspace_wf env g" and can: "Workspace_CanApply (che_ae env) e (materialized (cg_workspace g))"
    and m: "materialized (cg_workspace h) = Workspace_Apply e (materialized (cg_workspace g))"
    and en: "cg_entries h = cg_entries g" and add: "\<And>i. e \<noteq> ChatEntryAddedEvent i"
  shows "workspace_wf env h"
  using wf can m add unfolding workspace_wf_def Let_def peer_of_same_entries [OF en] en
  by (cases e) (auto simp: eq_neg_iff_add_eq_0)

lemma step_workspace:
  assumes c: "commit_workspace env cenv e st = Some st'" and ok: "graph_ok env (Suc k) (cs_graph st)"
    and e: "\<And>i. e \<noteq> ChatEntryAddedEvent i" "\<And>uid. e = LocalEndpointBoundEvent uid \<Longrightarrow> local_endpoint_uid (workspace_of st) = []"
  shows "graph_ok env k (cs_graph st') \<and> workspace_later (workspace_of st) (workspace_of st') \<and>
    workspace_of st' = Workspace_Apply e (workspace_of st) \<and> cg_entries (cs_graph st') = cg_entries (cs_graph st) \<and>
    cg_rooms (cs_graph st') = cg_rooms (cs_graph st) \<and> cs_saved st' = cs_saved st \<and> cs_persist st' = cs_persist st"
proof -
  note s = commit_workspace_some [OF c, of k]
  have "nodes_ok env (Suc k) (cs_graph st)" "workspace_wf env (cs_graph st)" using ok by (simp_all add: graph_ok_def)
  then show ?thesis
    using s workspace_event_wf [of env "cs_graph st" e "cs_graph st'"] workspace_event_later [of "che_ae env" e "workspace_of st"] e
    by (auto simp: graph_ok_def)
qed

lemma peer_of_entry_event:
  assumes "cg_entries g i = Some n" "materialized n' = Entry_Apply e (materialized n)"
  shows "peer_of (g\<lparr> cg_entries := (cg_entries g)(i \<mapsto> n') \<rparr>) = peer_of g"
proof (rule ext)
  fix j
  show "peer_of (g\<lparr> cg_entries := (cg_entries g)(i \<mapsto> n') \<rparr>) j = peer_of g j"
    using assms by (cases e) (simp_all add: peer_of_def)
qed

lemma step_entry:
  assumes c: "commit_entry env cenv i e st = Some st'" and ok: "graph_ok env (Suc k) (cs_graph st)"
  shows "graph_ok env k (cs_graph st') \<and> cg_workspace (cs_graph st') = cg_workspace (cs_graph st) \<and>
    cg_rooms (cs_graph st') = cg_rooms (cs_graph st) \<and> cs_saved st' = cs_saved st \<and> cs_persist st' = cs_persist st"
proof -
  have nk: "nodes_ok env (Suc k) (cs_graph st)" and wf: "workspace_wf env (cs_graph st)" using ok by (simp_all add: graph_ok_def)
  obtain n n' where n: "cg_entries (cs_graph st) i = Some n" "materialized n' = Entry_Apply e (materialized n)"
    "nodes_ok env k (cs_graph st')" "st' = st\<lparr> cs_graph := (cs_graph st)\<lparr> cg_entries := (cg_entries (cs_graph st))(i \<mapsto> n') \<rparr> \<rparr>"
    using commit_entry_some [OF c nk] by metis
  have "workspace_wf env (cs_graph st')"
    using wf n(1,4) peer_of_entry_event [OF n(1,2)] by (simp add: workspace_wf_def Let_def)
  then show ?thesis using n(3,4) by (simp add: graph_ok_def)
qed


section \<open>Opening a chat\<close>

lemma dropWhile_prefix_fixed:
  assumes "prefix u (dropWhile P s)"
  shows "dropWhile P u = u"
proof (cases u)
  case (Cons x xs)
  then obtain zs where eq: "dropWhile P s = x # zs" using assms by (auto simp: prefix_def)
  have "dropWhile P s \<noteq> []" "hd (dropWhile P s) = x" unfolding eq by simp_all
  then have "\<not> P x" using hd_dropWhile [of P s] by (simp only: not_False_eq_True simp_thms)
  then show ?thesis using Cons by simp
qed simp

lemma Trim_idem: "TrimAsciiWhitespace (TrimAsciiWhitespace s) = TrimAsciiWhitespace s"
proof -
  let ?t = "dropWhile isspace s" and ?u = "rev (dropWhile isspace (rev (dropWhile isspace s)))"
  have "prefix ?u ?t" using suffix_dropWhile [of isspace "rev ?t"] by (simp add: suffix_to_prefix)
  then have "dropWhile isspace ?u = ?u" by (rule dropWhile_prefix_fixed)
  then show ?thesis by (simp add: TrimAsciiWhitespace_def dropWhile_idem)
qed

lemma find_peer_found:
  "find_peer env g uid is = Some (Some i) \<Longrightarrow> i \<in> set is \<and> ae_valid (che_ae env) i \<and> cg_entries g i \<noteq> None \<and> peer_of g i = uid"
  by (induction "is") (auto simp: peer_of_def split: if_splits Option.bind_splits)

lemma find_peer_none:
  "find_peer env g uid is = Some None \<Longrightarrow> i \<in> set is \<Longrightarrow> ae_valid (che_ae env) i \<Longrightarrow> peer_of g i \<noteq> uid"
  by (induction "is") (auto simp: peer_of_def split: if_splits Option.bind_splits)

lemma find_peer_defined:
  "\<forall>i\<in>set is. cg_entries g i \<noteq> None \<Longrightarrow> find_peer env g uid is \<noteq> None"
  by (induction "is") auto

lemma make_entry_some:
  assumes m: "make_entry env oe uid st = Some st'" and ok: "nodes_ok env k (cs_graph st)" and ids: "oe_base oe \<noteq> oe_entry oe"
  obtains n where "materialized n = (new_entry (che_ae env))\<lparr> peer_uid := uid,
      display_name := ConversationDisplayName (demo_role (workspace_of st)) uid \<rparr>"
    "st' = st\<lparr> cs_graph := (cs_graph st)\<lparr> cg_entries := (cg_entries (cs_graph st))(oe_entry oe \<mapsto> n) \<rparr> \<rparr>"
    "nodes_ok env k (cs_graph st')"
proof -
  let ?c = "created_entry env (node_domain (cg_workspace (cs_graph st))) (oe_entry oe)"
  let ?n = "?c\<lparr> materialized := (materialized ?c)\<lparr> peer_uid := uid,
       display_name := ConversationDisplayName (demo_role (workspace_of st)) uid \<rparr> \<rparr>"
  obtain n where n: "InitializeRuntimeNode (entry_ops env) True (new_entry (che_ae env)) (oe_base oe) ?n = Some n"
    and st': "st' = st\<lparr> cs_graph := (cs_graph st)\<lparr> cg_entries := (cg_entries (cs_graph st))(oe_entry oe \<mapsto> n) \<rparr> \<rparr>"
    using m by (auto simp: make_entry_def Let_def split: Option.bind_splits)
  have d: "node_domain (cg_workspace (cs_graph st)) \<noteq> None" and k: "k \<le> kJournalFullyMaterialized"
    using ok by (auto simp: nodes_ok_def node_inv_def node_live_def)
  have f: "materialized n = (new_entry (che_ae env))\<lparr> peer_uid := uid,
      display_name := ConversationDisplayName (demo_role (workspace_of st)) uid \<rparr>" and j: "journal n = []"
    and i: "node_inv (entry_ops env) id n"
    using n d ids
    by (auto simp: InitializeRuntimeNode_def CaptureBaseStateInto_def Let_def created_entry_def node_inv_def node_live_def
        is_loaded_def journal_sorted_def shared_ids_def consistent_def assert_that_def null_ptr_def entry_ops_def
        split: Option.bind_splits if_splits)
  have "nodes_ok env k (cs_graph st')" using nodes_ok_set_entry [OF ok i] j k st' by simp
  then show thesis using that f st' by blast
qed

lemma workspace_wf_new_entry:
  assumes wf: "workspace_wf env g" and fresh: "cg_entries g i = None" "ae_valid (che_ae env) i"
    and uid: "uid \<noteq> []" "TrimAsciiWhitespace uid = uid" "\<And>j. j \<in> set (chats (materialized (cg_workspace g))) \<Longrightarrow> peer_of g j \<noteq> uid"
    and n: "peer_uid (materialized n) = uid" and en: "cg_entries h = (cg_entries g)(i \<mapsto> n)"
    and ws: "materialized (cg_workspace h) = Workspace_Apply (ChatEntryAddedEvent i) (materialized (cg_workspace g))"
  shows "workspace_wf env h"
proof -
  let ?cs = "chats (materialized (cg_workspace g))"
  have new: "i \<notin> set ?cs" using wf fresh(1) by (auto simp: workspace_wf_def Let_def)
  have pn: "peer_of h i = uid" and po: "\<And>j. j \<noteq> i \<Longrightarrow> peer_of h j = peer_of g j" using en n by (simp_all add: peer_of_def)
  have same: "map (peer_of h) ?cs = map (peer_of g) ?cs"
  proof (rule map_cong [OF refl])
    fix j assume "j \<in> set ?cs"
    then have "j \<noteq> i" using new by auto
    then show "peer_of h j = peer_of g j" by (rule po)
  qed
  have old: "ae_valid (che_ae env) j \<and> cg_entries h j \<noteq> None \<and> peer_of h j \<noteq> [] \<and> TrimAsciiWhitespace (peer_of h j) = peer_of h j"
    if "j \<in> set ?cs" for j
    using wf that po [of j] new en by (auto simp: workspace_wf_def Let_def)
  have "distinct (map (peer_of g) ?cs)" using wf by (simp add: workspace_wf_def Let_def)
  then have "distinct (map (peer_of h) ?cs)" by (simp only: same)
  moreover have "uid \<notin> peer_of h ` set ?cs" using uid(3) po new by (metis imageE)
  ultimately have "distinct (map (peer_of h) (?cs @ [i]))" using pn by simp
  then show ?thesis
    using wf old pn fresh uid en unfolding workspace_wf_def Let_def ws by auto
qed


definition chat_opened :: "chat_env \<Rightarrow> nat \<Rightarrow> command_state \<Rightarrow> string \<Rightarrow> obj_id \<Rightarrow> command_state \<Rightarrow> bool" where
  "chat_opened env k st uid i st' \<longleftrightarrow> graph_ok env k (cs_graph st') \<and> workspace_later (workspace_of st) (workspace_of st') \<and>
    cs_persist st' = cs_persist st \<and> (st' = st \<or> st' = persist (st'\<lparr> cs_saved := cs_saved st \<rparr>)) \<and>
    i \<in> set (chats (workspace_of st')) \<and> peer_of (cs_graph st') i = uid \<and> selected_chat_id (workspace_of st') = i"

lemma graph_ok_mono:
  assumes "graph_ok env k g" "j \<le> k"
  shows "graph_ok env j g"
  using nodes_ok_mono [of env k g j] assms by (simp add: graph_ok_def)

lemma open_selects_existing:
  assumes ok: "graph_ok env (Suc k) (cs_graph st)" and o: "OpenOrSelectChat env oe uid st = Some (i, st')"
    and u: "TrimAsciiWhitespace uid \<noteq> []"
    and f: "find_peer env (cs_graph st) (TrimAsciiWhitespace uid) (chats (workspace_of st)) = Some (Some j)"
  shows "chat_opened env k st (TrimAsciiWhitespace uid) i st'"
proof (cases "selected_chat_id (workspace_of st) = j")
  case True
  then have "i = j \<and> st' = st" using o u f by (simp add: OpenOrSelectChat_def)
  then show ?thesis using True find_peer_found [OF f] graph_ok_mono [OF ok, of k] by (simp add: chat_opened_def)
next
  case False
  then obtain st1 where c: "commit_workspace env (oe_select oe) (ChatSelectedEvent j) st = Some st1"
    and r: "i = j" "st' = persist st1"
    using o u f by (auto simp: OpenOrSelectChat_def Let_def split: Option.bind_splits)
  note s = step_workspace [OF c ok, simplified]
  have "peer_of (cs_graph st1) = peer_of (cs_graph st)" using s by (intro peer_of_same_entries) simp
  then show ?thesis using s r find_peer_found [OF f] by (simp add: chat_opened_def persist_def workspace_later_def)
qed

lemma open_creates_entry:
  assumes ok: "graph_ok env (k + 2) (cs_graph st)" and o: "OpenOrSelectChat env oe uid st = Some (i, st')"
    and fresh: "ae_valid (che_ae env) (oe_entry oe)" "cg_entries (cs_graph st) (oe_entry oe) = None" "oe_base oe \<noteq> oe_entry oe"
    and u: "TrimAsciiWhitespace uid \<noteq> []"
    and f: "find_peer env (cs_graph st) (TrimAsciiWhitespace uid) (chats (workspace_of st)) = Some None"
  shows "chat_opened env k st (TrimAsciiWhitespace uid) i st'"
proof -
  let ?u = "TrimAsciiWhitespace uid" and ?g = "cs_graph st"
  have n2: "nodes_ok env (Suc (Suc k)) ?g" and wf: "workspace_wf env ?g" using ok by (simp_all add: graph_ok_def)
  have "do { st \<leftarrow> make_entry env oe ?u st; st \<leftarrow> commit_workspace env (oe_add oe) (ChatEntryAddedEvent (oe_entry oe)) st;
      st \<leftarrow> commit_workspace env (oe_select oe) (ChatSelectedEvent (oe_entry oe)) st;
      Some (oe_entry oe, persist st) } = Some (i, st')"
    using o u f by (simp add: OpenOrSelectChat_def)
  then obtain st1 st2 st3 where m: "make_entry env oe ?u st = Some st1"
    and c2: "commit_workspace env (oe_add oe) (ChatEntryAddedEvent (oe_entry oe)) st1 = Some st2"
    and c3: "commit_workspace env (oe_select oe) (ChatSelectedEvent (oe_entry oe)) st2 = Some st3"
    and r: "i = oe_entry oe" "st' = persist st3"
    by (auto simp: Option.bind_eq_Some_conv)
  obtain n where n: "peer_uid (materialized n) = ?u" and nk1: "nodes_ok env (Suc (Suc k)) (cs_graph st1)"
    and st1: "st1 = st\<lparr> cs_graph := ?g\<lparr> cg_entries := (cg_entries ?g)(oe_entry oe \<mapsto> n) \<rparr> \<rparr>"
  proof (rule make_entry_some [OF m n2 fresh(3)], goal_cases)
    case (1 n)
    then show ?case by (intro that [of n]) simp_all
  qed
  note s2 = commit_workspace_some [OF c2 nk1]
  have all: "peer_of ?g j \<noteq> ?u" if "j \<in> set (chats (workspace_of st))" for j
    using find_peer_none [OF f that] wf that by (auto simp: workspace_wf_def Let_def)
  have "workspace_wf env (cs_graph st2)"
    by (rule workspace_wf_new_entry [OF wf fresh(2,1) u Trim_idem all n, of "cs_graph st2"]) (use s2 st1 in auto)
  then have ok2: "graph_ok env (Suc k) (cs_graph st2)" using s2 by (simp add: graph_ok_def)
  note s3 = step_workspace [OF c3 ok2, simplified]
  have "peer_of (cs_graph st3) (oe_entry oe) = ?u" using s3 s2 st1 n by (simp add: peer_of_def)
  moreover have "oe_entry oe \<in> set (chats (workspace_of st3))" using s3 s2 by simp
  moreover have "workspace_later (workspace_of st) (workspace_of st2)" using s2 st1 by (simp add: workspace_later_def)
  then have "workspace_later (workspace_of st) (workspace_of st3)" using workspace_later_trans s3 by blast
  ultimately show ?thesis using s3 s2 st1 r by (simp add: chat_opened_def persist_def)
qed

lemma step_open:
  assumes ok: "graph_ok env (k + 2) (cs_graph st)" and o: "OpenOrSelectChat env oe uid st = Some (i, st')"
    and fresh: "ae_valid (che_ae env) (oe_entry oe)" "cg_entries (cs_graph st) (oe_entry oe) = None" "oe_base oe \<noteq> oe_entry oe"
  shows "graph_ok env k (cs_graph st') \<and> workspace_later (workspace_of st) (workspace_of st') \<and>
    cs_persist st' = cs_persist st \<and> (st' = st \<or> st' = persist (st'\<lparr> cs_saved := cs_saved st \<rparr>)) \<and>
    (TrimAsciiWhitespace uid \<noteq> [] \<longrightarrow> i \<in> set (chats (workspace_of st')) \<and> peer_of (cs_graph st') i = TrimAsciiWhitespace uid \<and>
       selected_chat_id (workspace_of st') = i) \<and>
    (TrimAsciiWhitespace uid = [] \<longrightarrow> i = ae_null (che_ae env) \<and> st' = st)"
proof (cases "TrimAsciiWhitespace uid = []")
  case True
  then show ?thesis using o graph_ok_mono [OF ok, of k] by (simp add: OpenOrSelectChat_def)
next
  case u: False
  then obtain found where f: "find_peer env (cs_graph st) (TrimAsciiWhitespace uid) (chats (workspace_of st)) = Some found"
    using o by (auto simp: OpenOrSelectChat_def Let_def split: Option.bind_splits)
  have "chat_opened env k st (TrimAsciiWhitespace uid) i st'"
  proof (cases found)
    case None
    then show ?thesis using open_creates_entry [OF ok o fresh u] f by simp
  next
    case (Some j)
    then show ?thesis using open_selects_existing [OF graph_ok_mono [OF ok] o u] f by simp
  qed
  then show ?thesis using u by (simp add: chat_opened_def)
qed

section \<open>Runs with crashes\<close>

datatype chat_command =
    Configure commit_env demo_role
  | HostInput commit_env string
  | OpenChat open_env string
  | Bind commit_env obj_id "unit obj_ptr" "unit obj_ptr"
  | BindEndpoint commit_env string
  | EditDraft commit_env obj_id string
  | MoveScroll commit_env obj_id scroll_anchor
  | MoveWindow commit_env desktop_bounds
  | Select commit_env obj_id

text \<open>A command other than SubmitDraft by its effect on the state.\<close>

fun run_chat_command :: "chat_env \<Rightarrow> chat_command \<Rightarrow> command_state \<Rightarrow> command_state option" where
  "run_chat_command env (Configure c role) st = map_option snd (ConfigureDemoRole env c role st)"
| "run_chat_command env (HostInput c text) st = map_option snd (SetHostUidInput env c text st)"
| "run_chat_command env (OpenChat oe uid) st = map_option snd (OpenOrSelectChat env oe uid st)"
| "run_chat_command env (Bind c i link room) st = map_option snd (BindChat env c i link room st)"
| "run_chat_command env (BindEndpoint c uid) st = map_option snd (BindLocalEndpoint env c uid st)"
| "run_chat_command env (EditDraft c i text) st = map_option snd (SetDraft env c i text st)"
| "run_chat_command env (MoveScroll c i anchor) st = map_option snd (SetScroll env c i anchor st)"
| "run_chat_command env (MoveWindow c bounds) st = map_option snd (SetDesktopBounds env c bounds st)"
| "run_chat_command env (Select c i) st = map_option snd (SelectChat env c i st)"

text \<open>Ids that Create hands out are valid and not in use.\<close>

fun ids_fresh :: "chat_env \<Rightarrow> chat_command \<Rightarrow> chat_graph \<Rightarrow> bool" where
  "ids_fresh env (OpenChat oe uid) g \<longleftrightarrow>
     ae_valid (che_ae env) (oe_entry oe) \<and> cg_entries g (oe_entry oe) = None \<and> oe_base oe \<noteq> oe_entry oe"
| "ids_fresh env cmd g \<longleftrightarrow> True"

text \<open>Between commands the last persisted state is the current one.\<close>

definition settled :: "command_state \<Rightarrow> bool" where
  "settled st \<longleftrightarrow> cs_persist st \<and> cs_saved st \<noteq> [] \<and> last (cs_saved st) = cs_graph st"

definition good_step :: "chat_env \<Rightarrow> nat \<Rightarrow> command_state \<Rightarrow> command_state \<Rightarrow> bool" where
  "good_step env k st st' \<longleftrightarrow> graph_ok env k (cs_graph st') \<and> workspace_later (workspace_of st) (workspace_of st') \<and>
     (settled st \<longrightarrow> settled st')"

lemma good_step_refl: "graph_ok env (k + 2) (cs_graph st) \<Longrightarrow> good_step env k st st"
  by (simp add: good_step_def graph_ok_mono [of env "k + 2"])

lemma settled_persist: "cs_persist st \<Longrightarrow> settled (persist st)"
  by (simp add: settled_def)

lemma good_workspace:
  assumes "commit_workspace env cenv e st = Some st'" "graph_ok env (k + 2) (cs_graph st)"
    and "\<And>i. e \<noteq> ChatEntryAddedEvent i" "\<And>uid. e = LocalEndpointBoundEvent uid \<Longrightarrow> local_endpoint_uid (workspace_of st) = []"
  shows "good_step env k st (persist st')"
proof -
  have "graph_ok env (Suc k) (cs_graph st)" using assms(2) by (rule graph_ok_mono) simp
  then have "graph_ok env k (cs_graph st') \<and> workspace_later (workspace_of st) (workspace_of st') \<and> cs_persist st' = cs_persist st"
    using step_workspace [OF assms(1) _ assms(3,4), of k] by blast
  then show ?thesis using settled_persist [of st'] by (simp add: good_step_def settled_def)
qed

lemma good_entry:
  assumes "commit_entry env cenv i e st = Some st'" "graph_ok env (k + 2) (cs_graph st)"
  shows "good_step env k st (persist st')"
proof -
  have "graph_ok env (Suc k) (cs_graph st)" using assms(2) by (rule graph_ok_mono) simp
  then have "graph_ok env k (cs_graph st') \<and> cg_workspace (cs_graph st') = cg_workspace (cs_graph st) \<and> cs_persist st' = cs_persist st"
    using step_entry [OF assms(1), of k] by blast
  then show ?thesis using settled_persist [of st'] by (simp add: good_step_def settled_def)
qed

lemma commit_message_some:
  assumes "commit_message env cenv r msg st = Some st'"
  shows "cg_workspace (cs_graph st') = cg_workspace (cs_graph st) \<and> cg_entries (cs_graph st') = cg_entries (cs_graph st) \<and>
    cs_saved st' = cs_saved st \<and> cs_persist st' = cs_persist st"
  using assms by (auto simp: commit_message_def split: Option.bind_splits)

lemma graph_ok_frame:
  assumes "graph_ok env k g" "cg_workspace h = cg_workspace g" "cg_entries h = cg_entries g"
  shows "graph_ok env k h"
  using assms peer_of_same_entries [OF assms(3)] by (simp add: graph_ok_def nodes_ok_def workspace_wf_def)


lemma run_command_good:
  assumes ok: "graph_ok env (k + 2) (cs_graph st)" and fresh: "ids_fresh env cmd (cs_graph st)"
    and run: "run_chat_command env cmd st = Some st'"
  shows "good_step env k st st'"
proof (cases cmd)
  case (OpenChat oe uid)
  then obtain i where o: "OpenOrSelectChat env oe uid st = Some (i, st')" using run by auto
  have f: "ae_valid (che_ae env) (oe_entry oe)" "cg_entries (cs_graph st) (oe_entry oe) = None" "oe_base oe \<noteq> oe_entry oe"
    using fresh OpenChat by auto
  note s = step_open [OF ok o f]
  have "settled st'" if "settled st"
  proof (cases "st' = st")
    case False
    have "cs_persist (st'\<lparr> cs_saved := cs_saved st \<rparr>)" using s that by (simp add: settled_def)
    then have "settled (persist (st'\<lparr> cs_saved := cs_saved st \<rparr>))" by (rule settled_persist)
    moreover have "st' = persist (st'\<lparr> cs_saved := cs_saved st \<rparr>)" using s False by blast
    ultimately show ?thesis by metis
  qed (use that in simp)
  then show ?thesis using s by (auto simp: good_step_def)
qed (use run good_step_refl [OF ok] in \<open>auto simp: ConfigureDemoRole_def SetHostUidInput_def BindLocalEndpoint_def
    SetDesktopBounds_def SelectChat_def BindChat_def SetDraft_def SetScroll_def Let_def Option.bind_eq_Some_conv
    split: if_splits intro: good_workspace [OF _ ok] good_entry [OF _ ok]\<close>)

text \<open>A restart loads the last persisted state.  A process that stops within SubmitDraft stops after the
  reservation was persisted (stage 0), after the message was committed (1) or after that was persisted (2); from stage 1
  on the message may have been sent.\<close>

definition restart :: "command_state \<Rightarrow> command_state" where
  "restart st = st\<lparr> cs_graph := last (cs_saved st) \<rparr>"

definition crash_submit ::
  "nat \<Rightarrow> chat_env \<Rightarrow> submit_env \<Rightarrow> obj_id \<Rightarrow> u64 \<Rightarrow> command_state \<Rightarrow> (shared_event_id list \<times> command_state) option" where
  "crash_submit stage env su i now_us st = do {
     n \<leftarrow> cg_entries (cs_graph st) i;
     assert_that (can_submit env (materialized n) now_us (workspace_of st));
     room \<leftarrow> cg_rooms (cs_graph st) (entry_room (materialized n));
     let msg = drafted_message (materialized n) (materialized room) now_us (workspace_of st);
     st \<leftarrow> reserve_sequence env (su_reserve su) st;
     if stage = 0 then Some ([], restart st)
     else do {
       st \<leftarrow> commit_message env (su_message su) (entry_room (materialized n)) msg st;
       Some ([message_id msg], restart (if stage = 1 then st else persist st)) } }"

inductive chat_run :: "chat_env \<Rightarrow> command_state \<Rightarrow> nat \<Rightarrow> command_state \<Rightarrow> shared_event_id list \<Rightarrow> bool"
  for env st0 where
  started: "chat_run env st0 0 st0 []"
| command: "chat_run env st0 n st ids \<Longrightarrow> ids_fresh env cmd (cs_graph st) \<Longrightarrow> run_chat_command env cmd st = Some st' \<Longrightarrow>
    chat_run env st0 (Suc n) st' ids"
| submitted: "chat_run env st0 n st ids \<Longrightarrow> SubmitDraft env su i now_us st = Some (sent, st') \<Longrightarrow>
    chat_run env st0 (Suc n) st' (if sent = empty_event_id then ids else ids @ [sent])"
| crashed: "chat_run env st0 n st ids \<Longrightarrow> chat_run env st0 (Suc n) (restart st) ids"
| crashed_sending: "chat_run env st0 n st ids \<Longrightarrow> crash_submit stage env su i now_us st = Some (used, st') \<Longrightarrow>
    chat_run env st0 (Suc n) st' (ids @ used)"

definition next_identity :: "command_state \<Rightarrow> shared_event_id" where
  "next_identity st = \<lparr> origin_uid = local_endpoint_uid (workspace_of st), origin_sequence = next_message_sequence (workspace_of st) \<rparr>"

text \<open>The reservation: afterwards the persisted sequence is past the one in use.\<close>

lemma reserve_good:
  assumes r: "reserve_sequence env c st = Some st1" and ok: "graph_ok env (k + 2) (cs_graph st)"
  shows "graph_ok env (Suc k) (cs_graph st1) \<and> workspace_later (workspace_of st) (workspace_of st1) \<and>
    next_message_sequence (workspace_of st) < next_message_sequence (workspace_of st1) \<and>
    (settled st \<longrightarrow> settled st1) \<and> cg_rooms (cs_graph st1) = cg_rooms (cs_graph st) \<and>
    cg_entries (cs_graph st1) = cg_entries (cs_graph st)"
proof -
  let ?e = "MessageSequenceReservedEvent (next_message_sequence (workspace_of st))"
  obtain st2 where c: "commit_workspace env c ?e st = Some st2" and st1: "st1 = persist st2"
    using r by (auto simp: reserve_sequence_def Option.bind_eq_Some_conv)
  have ok2: "graph_ok env (Suc (Suc k)) (cs_graph st)" using ok by simp
  note s = step_workspace [OF c ok2, simplified]
  have "nodes_ok env (Suc (Suc k)) (cs_graph st)" using ok2 by (simp add: graph_ok_def)
  then have can: "Workspace_CanApply (che_ae env) ?e (workspace_of st)" using commit_workspace_some [OF c] by blast
  then have "next_message_sequence (workspace_of st) < next_message_sequence (workspace_of st) + 1" by (auto intro: word_less_Suc)
  then show ?thesis using s st1 can settled_persist [of st2] by (auto simp: settled_def)
qed

lemma SubmitDraft_cases:
  assumes "SubmitDraft env su i now_us st = Some (sent, st')"
  obtains "sent = empty_event_id" "st' = st"
  | st1 st2 r msg where "sent = next_identity st" "local_endpoint_uid (workspace_of st) \<noteq> []"
      "reserve_sequence env (su_reserve su) st = Some st1" "commit_message env (su_message su) r msg st1 = Some st2"
      "message_id msg = sent" "clear_draft env (su_clear su) i (persist st2) = Some st'"
proof -
  obtain n where n: "cg_entries (cs_graph st) i = Some n" using assms by (auto simp: SubmitDraft_def Option.bind_eq_Some_conv)
  show thesis
  proof (cases "can_submit env (materialized n) now_us (workspace_of st)")
    case False
    then show thesis using that(1) assms n by (simp add: SubmitDraft_def)
  next
    case True
    let ?r = "entry_room (materialized n)"
    obtain room where room: "cg_rooms (cs_graph st) ?r = Some room"
      using assms n True by (auto simp: SubmitDraft_def Let_def Option.bind_eq_Some_conv)
    let ?msg = "drafted_message (materialized n) (materialized room) now_us (workspace_of st)"
    have "do { st \<leftarrow> reserve_sequence env (su_reserve su) st; st \<leftarrow> commit_message env (su_message su) ?r ?msg st;
        st \<leftarrow> clear_draft env (su_clear su) i (persist st); Some (message_id ?msg, st) } = Some (sent, st')"
      using assms n True room by (simp add: SubmitDraft_def Let_def)
    then obtain st1 st2 where p: "reserve_sequence env (su_reserve su) st = Some st1" "commit_message env (su_message su) ?r ?msg st1 = Some st2"
        "message_id ?msg = sent" "clear_draft env (su_clear su) i (persist st2) = Some st'"
      by (auto simp: Option.bind_eq_Some_conv)
    have "local_endpoint_uid (workspace_of st) \<noteq> []" "sent = next_identity st"
      using True p(3) by (auto simp: can_submit_def next_identity_def drafted_message_def)
    then show thesis using that(2) p by blast
  qed
qed

lemma message_good:
  assumes r: "reserve_sequence env c st = Some st1" and m: "commit_message env c' room msg st1 = Some st2"
    and ok: "graph_ok env (k + 2) (cs_graph st)"
  shows "graph_ok env (Suc k) (cs_graph st2) \<and> cg_workspace (cs_graph st2) = cg_workspace (cs_graph st1) \<and>
    cs_saved st2 = cs_saved st1 \<and> cs_persist st2 = cs_persist st1"
  using reserve_good [OF r ok] commit_message_some [OF m] graph_ok_frame [of env "Suc k" "cs_graph st1" "cs_graph st2"] by blast


text \<open>The message and the cleared draft change neither the workspace nor what was reserved.\<close>

lemma submit_good:
  assumes s: "SubmitDraft env su i now_us st = Some (sent, st')" and ok: "graph_ok env (k + 2) (cs_graph st)"
  shows "good_step env k st st' \<and> (sent = empty_event_id \<or> sent = next_identity st \<and> local_endpoint_uid (workspace_of st) \<noteq> [] \<and>
    next_message_sequence (workspace_of st) < next_message_sequence (workspace_of st'))"
  using s
proof (cases rule: SubmitDraft_cases)
  case 1
  then show ?thesis using good_step_refl [OF ok] by simp
next
  case (2 st1 st2 r msg)
  note a = reserve_good [OF 2(3) ok] and b = message_good [OF 2(3,4) ok]
  obtain st3 where c: "commit_entry env (su_clear su) i (DraftChangedEvent []) (persist st2) = Some st3" and st': "st' = persist st3"
    using 2(6) by (auto simp: clear_draft_def Option.bind_eq_Some_conv)
  have "graph_ok env (Suc k) (cs_graph (persist st2))" using b by simp
  note e = step_entry [OF c this]
  have "settled st \<Longrightarrow> settled st'" using a b e st' settled_persist [of st3] by (simp add: settled_def)
  then show ?thesis using a b e st' 2(1,2) by (simp add: good_step_def)
qed

lemma crash_good:
  assumes c: "crash_submit stage env su i now_us st = Some (used, st')" and ok: "graph_ok env (k + 2) (cs_graph st)" and se: "settled st"
  shows "good_step env k st st' \<and> (used = [] \<or> used = [next_identity st] \<and> local_endpoint_uid (workspace_of st) \<noteq> []) \<and>
    next_message_sequence (workspace_of st) < next_message_sequence (workspace_of st')"
proof -
  obtain n where n: "cg_entries (cs_graph st) i = Some n" "can_submit env (materialized n) now_us (workspace_of st)"
    using c by (auto simp: crash_submit_def Option.bind_eq_Some_conv assert_that_def split: if_splits)
  obtain room where room: "cg_rooms (cs_graph st) (entry_room (materialized n)) = Some room"
    using c n by (auto simp: crash_submit_def Option.bind_eq_Some_conv assert_that_def)
  let ?msg = "drafted_message (materialized n) (materialized room) now_us (workspace_of st)"
  obtain st1 where r: "reserve_sequence env (su_reserve su) st = Some st1"
    using c n room by (auto simp: crash_submit_def Option.bind_eq_Some_conv assert_that_def Let_def)
  note a = reserve_good [OF r ok]
  have s1: "settled st1" using a se by blast
  have ok1: "graph_ok env k (cs_graph st1)" using a graph_ok_mono [of env "Suc k" _ k] by simp
  have lep: "local_endpoint_uid (workspace_of st) \<noteq> []" using n(2) by (simp add: can_submit_def)
  show ?thesis
  proof (cases "stage = 0")
    case True
    then have "used = [] \<and> st' = restart st1" using c n room r by (simp add: crash_submit_def Let_def assert_that_def)
    then show ?thesis using a s1 ok1 by (simp add: good_step_def restart_def settled_def)
  next
    case False
    then obtain st2 where m: "commit_message env (su_message su) (entry_room (materialized n)) ?msg st1 = Some st2"
      and u: "used = [message_id ?msg]" "st' = restart (if stage = 1 then st2 else persist st2)"
      using c n room r by (auto simp: crash_submit_def Let_def assert_that_def Option.bind_eq_Some_conv)
    note b = message_good [OF r m ok]
    have ok2: "graph_ok env k (cs_graph st2)" using b graph_ok_mono [of env "Suc k" _ k] by simp
    have "used = [next_identity st]" using u by (simp add: next_identity_def drafted_message_def)
    moreover have "settled (restart st2)" "cs_graph (restart st2) = cs_graph st1" "settled (restart (persist st2))"
        "cs_graph (restart (persist st2)) = cs_graph st2"
      using s1 b by (simp_all add: restart_def settled_def)
    ultimately show ?thesis using u(2) lep a b ok1 ok2 by (auto simp: good_step_def)
  qed
qed

definition identities_behind :: "command_state \<Rightarrow> shared_event_id list \<Rightarrow> bool" where
  "identities_behind st ids \<longleftrightarrow> distinct ids \<and> (\<forall>x\<in>set ids. origin_uid x \<noteq> [] \<and> origin_uid x = local_endpoint_uid (workspace_of st) \<and>
     origin_sequence x < next_message_sequence (workspace_of st))"

lemma identities_later:
  "identities_behind st ids \<Longrightarrow> workspace_later (workspace_of st) (workspace_of st') \<Longrightarrow> identities_behind st' ids"
  by (auto simp: identities_behind_def workspace_later_def intro: order_less_le_trans)

lemma identities_add:
  assumes i: "identities_behind st ids" and l: "workspace_later (workspace_of st) (workspace_of st')"
    and n: "next_message_sequence (workspace_of st) < next_message_sequence (workspace_of st')" "local_endpoint_uid (workspace_of st) \<noteq> []"
  shows "identities_behind st' (ids @ [next_identity st])"
proof -
  have "next_identity st \<notin> set ids" using i by (auto simp: identities_behind_def next_identity_def)
  moreover have "local_endpoint_uid (workspace_of st') = local_endpoint_uid (workspace_of st)"
    using l n(2) by (simp add: workspace_later_def)
  ultimately show ?thesis using identities_later [OF i l] n by (auto simp: identities_behind_def next_identity_def)
qed

lemma chat_run_good:
  assumes "chat_run env st0 n st ids" "graph_ok env (k + 2 * n) (cs_graph st0)" "settled st0"
  shows "graph_ok env k (cs_graph st) \<and> settled st \<and> workspace_later (workspace_of st0) (workspace_of st) \<and> identities_behind st ids"
  using assms
proof (induction arbitrary: k rule: chat_run.induct)
  case started
  then show ?case by (simp add: identities_behind_def)
next
  case (command n st ids cmd st')
  have ih: "graph_ok env (k + 2) (cs_graph st) \<and> settled st \<and> workspace_later (workspace_of st0) (workspace_of st) \<and> identities_behind st ids"
    using command.IH [of "k + 2"] command.prems by (simp add: add.assoc)
  then have "good_step env k st st'" using run_command_good command.hyps by blast
  then show ?case using ih workspace_later_trans identities_later unfolding good_step_def by blast
next
  case (submitted n st ids su i now_us sent st')
  have ih: "graph_ok env (k + 2) (cs_graph st) \<and> settled st \<and> workspace_later (workspace_of st0) (workspace_of st) \<and> identities_behind st ids"
    using submitted.IH [of "k + 2"] submitted.prems by (simp add: add.assoc)
  then have s: "good_step env k st st' \<and> (sent = empty_event_id \<or> sent = next_identity st \<and> local_endpoint_uid (workspace_of st) \<noteq> [] \<and>
    next_message_sequence (workspace_of st) < next_message_sequence (workspace_of st'))"
    using submit_good submitted.hyps by blast
  have "identities_behind st' (if sent = empty_event_id then ids else ids @ [sent])"
    using s ih identities_later [of st ids st'] identities_add [of st ids st'] by (auto simp: good_step_def)
  then show ?case using ih s workspace_later_trans unfolding good_step_def by blast
next
  case (crashed n st ids)
  have ih: "graph_ok env (k + 2) (cs_graph st) \<and> settled st \<and> workspace_later (workspace_of st0) (workspace_of st) \<and> identities_behind st ids"
    using crashed.IH [of "k + 2"] crashed.prems by (simp add: add.assoc)
  then have "restart st = st" by (simp add: restart_def settled_def)
  then show ?case using ih graph_ok_mono [of env "k + 2" _ k] by simp
next
  case (crashed_sending n st ids stage su i now_us used st')
  have ih: "graph_ok env (k + 2) (cs_graph st) \<and> settled st \<and> workspace_later (workspace_of st0) (workspace_of st) \<and> identities_behind st ids"
    using crashed_sending.IH [of "k + 2"] crashed_sending.prems by (simp add: add.assoc)
  then have s: "good_step env k st st' \<and> (used = [] \<or> used = [next_identity st] \<and> local_endpoint_uid (workspace_of st) \<noteq> []) \<and>
    next_message_sequence (workspace_of st) < next_message_sequence (workspace_of st')"
    using crash_good crashed_sending.hyps by blast
  have "identities_behind st' (ids @ used)"
    using s ih identities_later [of st ids st'] identities_add [of st ids st'] by (auto simp: good_step_def)
  then show ?case using ih s workspace_later_trans unfolding good_step_def by blast
qed

end
