(* ===== verification/ChatRooms.thy ===== *)
theory ChatRooms
  imports ChatCommands
begin

text \<open>
  ChatRoom as a node class: messages and topology do not interfere, so a message can be replayed at any place of the
  journal, and the messages of a room are those of its base followed by those of its journal, in journal order.
\<close>

definition room_view :: "chat_room \<Rightarrow> share list \<times> message_value list" where
  "room_view s = (shares s, messages s)"

lemma ChatRoom_ops_simps [simp]:
  "ops_can_apply (ChatRoom_ops env) = ChatRoom_CanApply" "ops_apply (ChatRoom_ops env) = ChatRoom_Apply env"
  "ops_matches (ChatRoom_ops env) = ChatRoom_matches"
  "ops_save (ChatRoom_ops env) s = (shares s, link_sync_states s, messages s)"
  "ops_restore (ChatRoom_ops env) = stash_restore"
  "ops_load (ChatRoom_ops env) (Some (sh, ls, ms)) s = s\<lparr> shares := sh, link_sync_states := ls, messages := ms \<rparr>"
  by (simp_all add: ChatRoom_ops_def)

lemma stash_restore_simps [simp]:
  "shares (stash_restore old s) = shares s" "messages (stash_restore old s) = messages s"
  by (simp_all add: stash_restore_def)

text \<open>A topology event neither reads nor writes the messages.\<close>

lemma SharedNode_Apply_messages:
  "SharedNode_Apply env i e (s\<lparr> messages := m \<rparr>) = map_option (\<lambda>(t, k). (t\<lparr> messages := m \<rparr>, k)) (SharedNode_Apply env i e s)"
proof (cases e)
  case (AddShareEvent link access)
  then show ?thesis
    by (cases "create_link_sync_node env i link")
      (auto simp: FindShareIndexForShare_def FindShareIndex_def FindLinkSyncIndexForShare_def Let_def assert_that_def)
next
  case (RemoveShareEvent sid)
  then show ?thesis by (auto simp: FindShareIndexForShare_def FindLinkSyncIndexForShare_def Let_def assert_that_def)
next
  case (ChangeShareAccessEvent sid access)
  then show ?thesis by (auto simp: FindShareIndexForShare_def Let_def assert_that_def)
qed

lemma SharedNode_Apply_keeps_messages:
  assumes "SharedNode_Apply env i e s = Some (t, k)"
  shows "messages t = messages s"
proof -
  have "t = t\<lparr> messages := messages s \<rparr>"
    using assms SharedNode_Apply_messages [where env = env and i = i and e = e and s = s and m = "messages s"] by simp
  from arg_cong [OF this, of messages] show ?thesis by simp
qed

lemma room_class:
  assumes "sn_env_ok env"
  shows "node_class (ChatRoom_ops env) room_view"
proof
  fix s t :: chat_room and e
  assume v: "room_view s = room_view t"
  then have sh: "shares s = shares t" and ms: "messages s = messages t" by (simp_all add: room_view_def)
  show "ops_can_apply (ChatRoom_ops env) e s = ops_can_apply (ChatRoom_ops env) e t" by (cases e) simp_all
  show "map_option (room_view \<circ> fst) (ops_apply (ChatRoom_ops env) i e s) =
      map_option (room_view \<circ> fst) (ops_apply (ChatRoom_ops env) i e t)" for i
  proof (cases e)
    case (Topology x)
    note a = SharedNode_Apply_shares [OF assms sh, of i x]
    note k = SharedNode_Apply_keeps_messages [of env i x]
    show ?thesis
    proof (cases "SharedNode_Apply env i x s")
      case None
      then have "SharedNode_Apply env i x t = None" using a by simp
      then show ?thesis using None Topology by simp
    next
      case (Some p)
      then obtain q where q: "SharedNode_Apply env i x t = Some q" "shares (fst q) = shares (fst p)"
        using a by (cases "SharedNode_Apply env i x t") auto
      have "messages (fst p) = messages (fst q)"
        using k [of s "fst p" "snd p"] k [of t "fst q" "snd q"] Some q(1) ms by simp
      then show ?thesis using Some Topology q by (simp add: room_view_def)
    qed
  next
    case (MessageAddedEvent msg)
    then show ?thesis using sh ms by (simp add: room_view_def)
  qed
qed (simp add: room_view_def)

section \<open>The messages of a journal\<close>

fun journal_messages :: "room_event event_record list \<Rightarrow> message_value list" where
  "journal_messages [] = []"
| "journal_messages (r # rs) =
     (case usable_event r of Some (MessageAddedEvent msg) \<Rightarrow> msg # journal_messages rs | _ \<Rightarrow> journal_messages rs)"

lemma journal_messages_append [simp]: "journal_messages (xs @ ys) = journal_messages xs @ journal_messages ys"
  by (induction xs) (auto split: option.split room_event.split)

lemma replay_messages:
  "replay (ChatRoom_ops env) rs (s\<lparr> messages := m \<rparr>) =
     map_option (\<lambda>t. t\<lparr> messages := m @ journal_messages rs \<rparr>) (replay (ChatRoom_ops env) rs s)"
proof (induction rs arbitrary: s m)
  case (Cons r rs)
  show ?case
  proof (cases "usable_event r")
    case (Some e)
    show ?thesis
    proof (cases e)
      case (Topology x)
      show ?thesis
      proof (cases "SharedNode_Apply env (ptr_id (event r)) x s")
        case None
        then show ?thesis using Some Topology SharedNode_Apply_messages [where env = env and i = "ptr_id (event r)" and e = x and s = s and m = m] by simp
      next
        case (Some p)
        then show ?thesis
          using \<open>usable_event r = Some e\<close> Topology SharedNode_Apply_messages [where env = env and i = "ptr_id (event r)" and e = x and s = s and m = m] Cons.IH
          by (cases p) simp
      qed
    next
      case (MessageAddedEvent msg)
      have "(s\<lparr> messages := m \<rparr>)\<lparr> messages := Room_Apply msg m \<rparr> = s\<lparr> messages := m @ [msg] \<rparr>" by (simp add: Room_Apply_def)
      then show ?thesis
        using Some MessageAddedEvent Cons.IH [where s = s and m = "m @ [msg]"] Cons.IH [where s = s and m = "messages s @ [msg]"]
        by (auto simp: Room_Apply_def option.map_comp comp_def)
    qed
  qed simp
qed simp

lemma replay_insert_message:
  assumes "usable_event r = Some (MessageAddedEvent msg)" "Room_CanApply msg" "replay (ChatRoom_ops env) (xs @ ys) s \<noteq> None"
  shows "replay (ChatRoom_ops env) (xs @ r # ys) s \<noteq> None"
proof -
  obtain t where t: "replay (ChatRoom_ops env) xs s = Some t" "replay (ChatRoom_ops env) ys t \<noteq> None"
    using assms(3) by (auto simp: replay_append Option.bind_eq_Some_conv)
  then show ?thesis using assms(1,2) replay_messages [where env = env and rs = ys and s = t and m = "Room_Apply msg (messages t)"] by (auto simp: replay_append)
qed

definition base_messages :: "room_node \<Rightarrow> message_value list" where
  "base_messages n = (case base_layer n of Some (sh, ls, ms) \<Rightarrow> ms | None \<Rightarrow> [])"

lemma replay_messages_of:
  assumes "replay (ChatRoom_ops env) rs s = Some t"
  shows "messages t = messages s @ journal_messages rs"
proof -
  have "t = t\<lparr> messages := messages s @ journal_messages rs \<rparr>"
    using assms replay_messages [where env = env and rs = rs and s = s and m = "messages s"] by simp
  from arg_cong [OF this, of messages] show ?thesis by simp
qed

lemma room_messages:
  assumes "node_inv (ChatRoom_ops env) room_view n"
  shows "messages (materialized n) = base_messages n @ journal_messages (journal n)"
proof -
  obtain s0 s where "base_layer n = Some (ops_save (ChatRoom_ops env) s0)" "replay (ChatRoom_ops env) (journal n) s0 = Some s"
    "room_view s = room_view (materialized n)" using assms by (auto simp: node_inv_def consistent_def)
  then show ?thesis using replay_messages_of [of env "journal n" s0 s] by (auto simp: base_messages_def room_view_def)
qed

section \<open>Committing a message\<close>

text \<open>Every message record of the journal carries the identity and the time of its message.\<close>

definition records_match :: "room_event event_record list \<Rightarrow> bool" where
  "records_match js \<longleftrightarrow> (\<forall>r\<in>set js. \<forall>msg. usable_event r = Some (MessageAddedEvent msg) \<longrightarrow>
     identity r = message_id msg \<and> timestamp_us r = message_timestamp_us msg)"

definition room_ok :: "chat_env \<Rightarrow> room_node \<Rightarrow> bool" where
  "room_ok env n \<longleftrightarrow> sn_env_ok (che_sn env) \<and> node_inv (ChatRoom_ops (che_sn env)) room_view n \<and>
     length (journal n) < kJournalFullyMaterialized \<and> records_match (journal n)"

lemma message_commit_runs:
  assumes ok: "room_ok env n" and msg: "Room_CanApply msg" and new: "message_id msg \<notin> set (shared_ids (journal n))"
  shows "\<exists>n' js ks r. CommitSharedInto (ChatRoom_ops (che_sn env)) t1 t2 (new_event cenv (node_domain n) (MessageAddedEvent msg))
      (message_id msg) (message_timestamp_us msg) n = Some n' \<and>
    node_inv (ChatRoom_ops (che_sn env)) room_view n' \<and> base_layer n' = base_layer n \<and>
    journal n = js @ ks \<and> journal n' = js @ r # ks \<and> usable_event r = Some (MessageAddedEvent msg) \<and>
    identity r = message_id msg \<and> timestamp_us r = message_timestamp_us msg \<and>
    (\<forall>x\<in>set ks. message_timestamp_us msg \<le> timestamp_us x)"
proof -
  let ?ops = "ChatRoom_ops (che_sn env)" and ?ev = "new_event cenv (node_domain n) (MessageAddedEvent msg)"
  let ?r = "\<lparr> event = ?ev, identity = message_id msg, timestamp_us = message_timestamp_us msg, retained_since_us = t1 \<rparr>"
  let ?w = "takeWhile (\<lambda>x. timestamp_us x < message_timestamp_us msg) (journal n)"
  let ?d = "dropWhile (\<lambda>x. timestamp_us x < message_timestamp_us msg) (journal n)"
  note cls = room_class [of "che_sn env"]
  have env: "sn_env_ok (che_sn env)" and inv: "node_inv ?ops room_view n" and len: "length (journal n) < kJournalFullyMaterialized"
    using ok by (simp_all add: room_ok_def)
  have p: "ptr_valid ?ev" "ptr_object ?ev = Some (MessageAddedEvent msg)" "ptr_domain ?ev = node_domain n"
    by (simp_all add: new_event_def)
  have ts: "message_timestamp_us msg \<noteq> 0" and uid: "origin_uid (message_id msg) \<noteq> []" using msg by (simp_all add: Room_CanApply_def)
  have "\<not> (\<exists>x\<in>set (journal n). HasSharedIdentity x \<and> identity x = message_id msg)"
    using new unfolding set_shared_ids image_iff by fastforce
  then have adm: "admissible ?r n"
    using inv p ts by (simp add: admissible_def node_inv_def node_live_def is_loaded_def)
  have u: "usable_event (stamped t2 ?r) = Some (MessageAddedEvent msg)" using p by (simp add: usable_event_def)
  have so: "sorted (map timestamp_us (journal n))" using inv by (simp add: node_inv_def journal_sorted_def)
  have j: "inserted_journal t2 ?r (journal n) = ?w @ stamped t2 ?r # ?d"
    using takeWhile_eq_take [of "\<lambda>x. timestamp_us x < message_timestamp_us msg" "journal n"]
      dropWhile_eq_drop [of "\<lambda>x. timestamp_us x < message_timestamp_us msg" "journal n"]
    by (simp add: inserted_journal_def lower_bound_timestamp [OF so] insert_at_def)
  obtain s0 s where s0: "base_layer n = Some (ops_save ?ops s0)" and s: "replay ?ops (journal n) s0 = Some s"
    using inv by (auto simp: node_inv_def consistent_def)
  have "replay ?ops (?w @ ?d) s0 \<noteq> None" using s by simp
  then have "replay ?ops (inserted_journal t2 ?r (journal n)) s0 \<noteq> None"
    unfolding j by (rule replay_insert_message [OF u msg])
  then obtain n' where ins: "TryInsertEvent ?ops t2 ?r n = Some (True, n')"
    using node_class.insert_accepts [OF cls [OF env] inv len adm s0] by blast
  note k = node_class.insert_ok [OF cls [OF env] inv len ins]
  have c: "CommitSharedInto ?ops t1 t2 ?ev (message_id msg) (message_timestamp_us msg) n = Some n'"
    using ins p uid by (simp add: CommitSharedInto_def TryCommitSharedInto_def assert_ok_def MatchesSharedMetadata_def)
  have "\<forall>x\<in>set ?d. message_timestamp_us msg \<le> timestamp_us x"
  proof
    fix x assume x: "x \<in> set ?d"
    have ne: "?d \<noteq> []" using x by (metis empty_iff empty_set)
    have "sorted (map timestamp_us ?d)" using so by (metis sorted_append map_append takeWhile_dropWhile_id)
    then have "timestamp_us (hd ?d) \<le> timestamp_us x" using x by (cases ?d) auto
    moreover have "\<not> timestamp_us (hd ?d) < message_timestamp_us msg" using hd_dropWhile [OF ne] .
    ultimately show "message_timestamp_us msg \<le> timestamp_us x" by simp
  qed
  then show ?thesis using c k j u
    by (intro exI [of _ n'] exI [of _ ?w] exI [of _ ?d] exI [of _ "stamped t2 ?r"]) simp
qed

end
