(* ===== verification/ChatTheorems.thy ===== *)
theory ChatTheorems
  imports ChatProperties ChatRooms
begin

text \<open>
  The guarantees of the chat commands over their runs, and the effect of one SubmitDraft.
\<close>

section \<open>The time of a new message\<close>

lemma last_own_dominates:
  assumes "sorted (map message_timestamp_us js)" "m \<in> set js" "origin_uid (message_id m) = uid"
  shows "\<exists>m0. find (\<lambda>x. origin_uid (message_id x) = uid) (rev (bs @ js)) = Some m0 \<and> message_timestamp_us m \<le> message_timestamp_us m0"
  using assms
proof (induction js rule: rev_induct)
  case (snoc x js)
  then show ?case by (auto simp: sorted_append)
qed simp

lemma effective_after_own:
  assumes "sorted (map message_timestamp_us js)" "m \<in> set js" "origin_uid (message_id m) = uid"
    and "effective_time uid (bs @ js) now_us \<noteq> 0"
  shows "message_timestamp_us m < effective_time uid (bs @ js) now_us"
proof -
  obtain m0 where f: "find (\<lambda>x. origin_uid (message_id x) = uid) (rev (bs @ js)) = Some m0"
    and le: "message_timestamp_us m \<le> message_timestamp_us m0"
    using last_own_dominates [OF assms(1-3)] by blast
  have "message_timestamp_us m0 < effective_time uid (bs @ js) now_us"
  proof (cases "now_us \<le> message_timestamp_us m0")
    case True
    then have e: "effective_time uid (bs @ js) now_us = message_timestamp_us m0 + 1" using f by (simp add: effective_time_def)
    then have "message_timestamp_us m0 \<noteq> -1" using assms(4) by auto
    then show ?thesis using e by (simp add: word_less_Suc)
  next
    case False
    then show ?thesis using f by (simp add: effective_time_def)
  qed
  then show ?thesis using le by simp
qed

lemma journal_messages_sorted:
  assumes "sorted (map timestamp_us js)" "records_match js"
  shows "sorted (map message_timestamp_us (journal_messages js))" and
    "m \<in> set (journal_messages js) \<Longrightarrow> \<exists>r\<in>set js. usable_event r = Some (MessageAddedEvent m)"
proof -
  show mem: "m \<in> set (journal_messages js) \<Longrightarrow> \<exists>r\<in>set js. usable_event r = Some (MessageAddedEvent m)" for m
    by (induction js) (auto split: option.splits room_event.splits)
  have "\<forall>m\<in>set (journal_messages js). \<exists>r\<in>set js. usable_event r = Some (MessageAddedEvent m)" for js
    by (induction js) (auto split: option.splits room_event.splits)
  note mems = this
  show "sorted (map message_timestamp_us (journal_messages js))" using assms
  proof (induction js)
    case (Cons r rs)
    have "sorted (map message_timestamp_us (journal_messages rs))" using Cons by (auto simp: records_match_def)
    moreover have "message_timestamp_us msg \<le> message_timestamp_us m"
      if e: "usable_event r = Some (MessageAddedEvent msg)" and m: "m \<in> set (journal_messages rs)" for msg m
    proof -
      obtain x where x: "x \<in> set rs" "usable_event x = Some (MessageAddedEvent m)" using mems [of rs] m by blast
      then have "timestamp_us r \<le> timestamp_us x" using Cons.prems(1) by simp
      moreover have "timestamp_us r = message_timestamp_us msg" using Cons.prems(2) e by (simp add: records_match_def)
      moreover have "timestamp_us x = message_timestamp_us m" using Cons.prems(2) x by (simp add: records_match_def)
      ultimately show ?thesis by simp
    qed
    ultimately show ?case by (auto split: option.split room_event.split)
  qed simp
qed


section \<open>One SubmitDraft\<close>

lemma commit_workspace_runs:
  assumes "node_ready (workspace_ops env) (cg_workspace (cs_graph st))" "ce_now1 cenv \<noteq> 0"
    "Workspace_CanApply (che_ae env) e (workspace_of st)"
  shows "\<exists>n'. commit_workspace env cenv e st = Some (st\<lparr> cs_graph := (cs_graph st)\<lparr> cg_workspace := n' \<rparr> \<rparr>) \<and>
    materialized n' = Workspace_Apply e (workspace_of st)"
  using chat_commit [OF assms(1) [unfolded workspace_ops_def] assms(2), of e] assms(3)
  by (auto simp: commit_workspace_def workspace_ops_def)

lemma commit_entry_runs:
  assumes "cg_entries (cs_graph st) i = Some n" "node_ready (entry_ops env) n" "ce_now1 cenv \<noteq> 0"
    "Entry_CanApply (che_ae env) (che_endpoint env) e (materialized n)"
  shows "\<exists>n'. commit_entry env cenv i e st = Some (st\<lparr> cs_graph := (cs_graph st)\<lparr> cg_entries := (cg_entries (cs_graph st))(i \<mapsto> n') \<rparr> \<rparr>) \<and>
    materialized n' = Entry_Apply e (materialized n)"
  using chat_commit [OF assms(2) [unfolded entry_ops_def] assms(3), of e] assms(1,4)
  by (auto simp: commit_entry_def entry_ops_def)

text \<open>The message goes behind every message of this endpoint.\<close>

lemma commit_message_runs:
  assumes room: "cg_rooms (cs_graph st) r = Some n" and ok: "room_ok env n" and msg: "Room_CanApply msg"
    and new: "message_id msg \<notin> set (shared_ids (journal n))" and uid: "origin_uid (message_id msg) = uid"
    and ts: "message_timestamp_us msg = effective_time uid (messages (materialized n)) now_us" "message_timestamp_us msg \<noteq> 0"
  shows "\<exists>n' xs ys. commit_message env cenv r msg st = Some (st\<lparr> cs_graph := (cs_graph st)\<lparr> cg_rooms := (cg_rooms (cs_graph st))(r \<mapsto> n') \<rparr> \<rparr>) \<and>
    messages (materialized n) = xs @ ys \<and> messages (materialized n') = xs @ msg # ys \<and>
    (\<forall>m\<in>set ys. origin_uid (message_id m) \<noteq> uid)"
proof -
  have inv: "node_inv (ChatRoom_ops (che_sn env)) room_view n" and rm: "records_match (journal n)" using ok by (simp_all add: room_ok_def)
  have so: "sorted (map timestamp_us (journal n))" using inv by (simp add: node_inv_def journal_sorted_def)
  obtain n' js ks x where c: "CommitSharedInto (ChatRoom_ops (che_sn env)) (ce_now1 cenv) (ce_now2 cenv)
      (new_event cenv (node_domain n) (MessageAddedEvent msg)) (message_id msg) (message_timestamp_us msg) n = Some n'"
    and i': "node_inv (ChatRoom_ops (che_sn env)) room_view n'" "base_layer n' = base_layer n"
    and j: "journal n = js @ ks" "journal n' = js @ x # ks" "usable_event x = Some (MessageAddedEvent msg)"
    and late: "\<forall>y\<in>set ks. message_timestamp_us msg \<le> timestamp_us y"
    using message_commit_runs [OF ok msg new, of "ce_now1 cenv" "ce_now2 cenv" cenv] by blast
  note m = room_messages [OF inv] and m' = room_messages [OF i'(1)]
  let ?xs = "base_messages n @ journal_messages js" and ?ys = "journal_messages ks"
  have own: "origin_uid (message_id y) \<noteq> uid" if y: "y \<in> set ?ys" for y
  proof
    assume u: "origin_uid (message_id y) = uid"
    have yj: "y \<in> set (journal_messages (journal n))" using y j(1) by simp
    have "message_timestamp_us y < message_timestamp_us msg"
      using effective_after_own [OF journal_messages_sorted(1) [OF so rm] yj u, of "base_messages n" now_us] ts by (simp add: m)
    moreover obtain z where "z \<in> set ks" "usable_event z = Some (MessageAddedEvent y)"
      using journal_messages_sorted(2) [OF _ _ y] so rm j(1) by (auto simp: sorted_append records_match_def)
    moreover then have "timestamp_us z = message_timestamp_us y" using rm j(1) by (auto simp: records_match_def)
    ultimately show False using late by fastforce
  qed
  have "messages (materialized n) = ?xs @ ?ys" "messages (materialized n') = ?xs @ msg # ?ys"
    using m m' j i'(2) by (simp_all add: base_messages_def)
  then show ?thesis using c room own
    by (intro exI [of _ n'] exI [of _ ?xs] exI [of _ ?ys]) (simp add: commit_message_def)
qed

lemma submit_runs:
  assumes n: "cg_entries (cs_graph st) i = Some n" and can: "can_submit env (materialized n) now_us (workspace_of st)"
    and room: "cg_rooms (cs_graph st) (entry_room (materialized n)) = Some room" "room_ok env room"
    and ready: "node_ready (workspace_ops env) (cg_workspace (cs_graph st))" "node_ready (entry_ops env) n"
    and new: "next_identity st \<notin> set (shared_ids (journal room))"
    and eff: "effective_time (local_endpoint_uid (workspace_of st)) (messages (materialized room)) now_us \<noteq> 0"
    and clock: "ce_now1 (su_reserve su) \<noteq> 0" "ce_now1 (su_clear su) \<noteq> 0"
  shows "\<exists>ws' n' room' xs ys. let g = cs_graph st; msg = drafted_message (materialized n) (materialized room) now_us (workspace_of st);
      g1 = g\<lparr> cg_workspace := ws' \<rparr>; g2 = g1\<lparr> cg_rooms := (cg_rooms g)(entry_room (materialized n) \<mapsto> room') \<rparr>;
      g3 = g2\<lparr> cg_entries := (cg_entries g)(i \<mapsto> n') \<rparr> in
    SubmitDraft env su i now_us st = Some (next_identity st, st\<lparr> cs_graph := g3,
      cs_saved := cs_saved st @ (if cs_persist st then [g1, g2, g3] else []) \<rparr>) \<and>
    materialized ws' = (workspace_of st)\<lparr> next_message_sequence := next_message_sequence (workspace_of st) + 1 \<rparr> \<and>
    materialized n' = (materialized n)\<lparr> draft := [] \<rparr> \<and>
    messages (materialized room) = xs @ ys \<and> messages (materialized room') = xs @ msg # ys \<and>
    (\<forall>m\<in>set ys. origin_uid (message_id m) \<noteq> local_endpoint_uid (workspace_of st))"
proof -
  let ?g = "cs_graph st" and ?r = "entry_room (materialized n)" and ?uid = "local_endpoint_uid (workspace_of st)"
  let ?msg = "drafted_message (materialized n) (materialized room) now_us (workspace_of st)"
  let ?seq = "next_message_sequence (workspace_of st)"
  have msg: "message_id ?msg = next_identity st" "origin_uid (message_id ?msg) = ?uid"
      "message_timestamp_us ?msg = effective_time ?uid (messages (materialized room)) now_us"
    by (simp_all add: drafted_message_def next_identity_def)
  have ra: "Room_CanApply ?msg" using can eff by (simp add: Room_CanApply_def drafted_message_def can_submit_def)
  have ce: "Workspace_CanApply (che_ae env) (MessageSequenceReservedEvent ?seq) (workspace_of st)" using can by (simp add: can_submit_def)
  obtain ws' where ws': "commit_workspace env (su_reserve su) (MessageSequenceReservedEvent ?seq) st =
      Some (st\<lparr> cs_graph := ?g\<lparr> cg_workspace := ws' \<rparr> \<rparr>)" "materialized ws' = (workspace_of st)\<lparr> next_message_sequence := ?seq + 1 \<rparr>"
    using commit_workspace_runs [OF ready(1) clock(1) ce] by auto
  define st1 where "st1 = persist (st\<lparr> cs_graph := ?g\<lparr> cg_workspace := ws' \<rparr> \<rparr>)"
  have r1: "reserve_sequence env (su_reserve su) st = Some st1" using ws'(1) by (simp add: reserve_sequence_def st1_def)
  have g1: "cs_graph st1 = ?g\<lparr> cg_workspace := ws' \<rparr>" by (simp add: st1_def)
  have room1: "cg_rooms (cs_graph st1) ?r = Some room" using room(1) g1 by simp
  obtain room' xs ys where m: "commit_message env (su_message su) ?r ?msg st1 =
      Some (st1\<lparr> cs_graph := (cs_graph st1)\<lparr> cg_rooms := (cg_rooms (cs_graph st1))(?r \<mapsto> room') \<rparr> \<rparr>)"
      "messages (materialized room) = xs @ ys" "messages (materialized room') = xs @ ?msg # ys"
      "\<forall>m\<in>set ys. origin_uid (message_id m) \<noteq> ?uid"
    using commit_message_runs [OF room1 room(2) ra _ msg(2,3), of "su_message su"] new msg(1) eff msg(3) by auto
  define st2 where "st2 = persist (st1\<lparr> cs_graph := (cs_graph st1)\<lparr> cg_rooms := (cg_rooms (cs_graph st1))(?r \<mapsto> room') \<rparr> \<rparr>)"
  have e2: "cg_entries (cs_graph st2) i = Some n" using n g1 by (simp add: st2_def)
  obtain n' where c: "commit_entry env (su_clear su) i (DraftChangedEvent []) st2 =
      Some (st2\<lparr> cs_graph := (cs_graph st2)\<lparr> cg_entries := (cg_entries (cs_graph st2))(i \<mapsto> n') \<rparr> \<rparr>)"
      "materialized n' = (materialized n)\<lparr> draft := [] \<rparr>"
    using commit_entry_runs [OF e2 ready(2) clock(2), of "DraftChangedEvent []"] by auto
  have "SubmitDraft env su i now_us st = Some (next_identity st,
      persist (st2\<lparr> cs_graph := (cs_graph st2)\<lparr> cg_entries := (cg_entries (cs_graph st2))(i \<mapsto> n') \<rparr> \<rparr>))"
    using n can room(1) r1 m(1) c(1) msg(1) by (simp add: SubmitDraft_def Let_def clear_draft_def st2_def [symmetric])
  then show ?thesis
    unfolding Let_def
    by (intro exI [of _ ws'] exI [of _ n'] exI [of _ room'] exI [of _ xs] exI [of _ ys])
      (simp add: ws'(2) c(2) m(2-4) st2_def st1_def persist_def)
qed

section \<open>A sample profile\<close>

text \<open>A client with one chat, bound to a room, and a draft.\<close>

definition sample_chat_env :: chat_env where
  "sample_chat_env = \<lparr> che_ae = sample_aether, che_endpoint = (\<lambda>i. ''bob''), che_sn = sample_sn_env,
     che_missing_workspace = id, che_missing_entry = id \<rparr>"

definition sample_room :: room_node where
  "sample_room = \<lparr> node_obj_id = 30, node_domain = Some 0, materialized = \<lparr> shares = [], link_sync_states = [], messages = [] \<rparr>,
     base = \<lparr> ptr_valid = True, ptr_id = 31, ptr_domain = Some 0, ptr_object = Some \<lparr> shares = [], link_sync_states = [], messages = [] \<rparr>,
       ptr_stored = None \<rparr>,
     base_layer = Some ([], [], []), journal = [], generation = 1, applied_journal_size = kJournalFullyMaterialized,
     journal_retention_policy = default_retention, journal_compaction_blocked = True,
     suppress_materialized_change = False, materialized_change_fn = False, notifications = 0 \<rparr>"

definition sample_workspace :: chat_workspace where
  "sample_workspace = (new_workspace sample_aether)\<lparr> demo_role := kClient, local_endpoint_uid := ''alice'',
     next_message_sequence := 5, chats := [20], selected_chat_id := 20 \<rparr>"

definition sample_entry :: chat_entry where
  "sample_entry = (new_entry sample_aether)\<lparr> peer_uid := ''bob'', peer_link := 9, entry_room := 30, draft := ''hi'' \<rparr>"

definition sample_graph :: chat_graph where
  "sample_graph = \<lparr> cg_workspace = lifecycle_sample 10 sample_workspace, cg_entries = [20 \<mapsto> lifecycle_sample 20 sample_entry],
     cg_rooms = [30 \<mapsto> sample_room] \<rparr>"

definition sample_state :: command_state where
  "sample_state = \<lparr> cs_graph = sample_graph, cs_saved = [sample_graph], cs_persist = True \<rparr>"

definition sample_su :: submit_env where
  "sample_su = \<lparr> su_reserve = sample_cenv, su_message = sample_cenv, su_clear = sample_cenv \<rparr>"

lemmas sample_chat_defs = sample_chat_env_def sample_room_def sample_workspace_def sample_entry_def sample_graph_def sample_state_def
  sample_su_def sample_cenv_def lifecycle_sample_def new_workspace_def new_entry_def sample_aether_def

lemma chat_sample_inv: "node_inv (chat_ops can app matches missing) id (lifecycle_sample i s)"
  using chat_sample_ready [of can app matches missing i s] by (simp only: node_ready_def)

lemma sample_graph_ok: "graph_ok sample_chat_env 100 sample_graph"
proof -
  have "node_inv (workspace_ops sample_chat_env) id (lifecycle_sample 10 sample_workspace)"
    "node_inv (entry_ops sample_chat_env) id (lifecycle_sample 20 sample_entry)"
    unfolding workspace_ops_def entry_ops_def by (rule chat_sample_inv)+
  then have "nodes_ok sample_chat_env 100 sample_graph"
    by (simp add: nodes_ok_def sample_graph_def lifecycle_sample_def kJournalFullyMaterialized_def)
  moreover have "workspace_wf sample_chat_env sample_graph"
    by (simp add: workspace_wf_def sample_chat_defs peer_of_def TrimAsciiWhitespace_def isspace_def)
  ultimately show ?thesis by (simp add: graph_ok_def)
qed

lemma sample_room_ok: "room_ok sample_chat_env sample_room"
  by (simp add: room_ok_def sample_chat_env_def sample_room_def node_inv_def node_live_def is_loaded_def journal_sorted_def
      shared_ids_def consistent_def records_match_def kJournalFullyMaterialized_def room_view_def exI [of _ "\<lparr> shares = [], link_sync_states = [], messages = [] \<rparr>"])

lemma sample_graph_fields:
  "cg_entries (cs_graph sample_state) 20 = Some (lifecycle_sample 20 sample_entry)"
  "cg_rooms (cs_graph sample_state) 30 = Some sample_room" "workspace_of sample_state = sample_workspace"
  "materialized (lifecycle_sample j x) = x" "entry_room sample_entry = 30" "journal sample_room = []"
  "cg_workspace (cs_graph sample_state) = lifecycle_sample 10 sample_workspace"
  "messages (materialized sample_room) = []"
  by (simp_all add: sample_state_def sample_graph_def lifecycle_sample_def sample_entry_def sample_room_def)

lemma sample_can_submit: "can_submit sample_chat_env sample_entry 5000 sample_workspace"
  by (simp add: can_submit_def sample_chat_defs)

lemma sample_nodes_ready: "node_ready (workspace_ops env) (lifecycle_sample i s)" "node_ready (entry_ops env) (lifecycle_sample i t)"
  unfolding workspace_ops_def entry_ops_def by (rule chat_sample_ready)+

lemma sample_clock: "ce_now1 (su_reserve sample_su) \<noteq> 0" "ce_now1 (su_clear sample_su) \<noteq> 0"
  by (simp_all add: sample_su_def sample_cenv_def)

lemma sample_identity: "next_identity sample_state = \<lparr> origin_uid = ''alice'', origin_sequence = 5 \<rparr>"
  by (simp add: next_identity_def sample_graph_fields sample_workspace_def)

lemma sample_submits:
  "\<exists>st'. SubmitDraft sample_chat_env sample_su 20 5000 sample_state = Some (\<lparr> origin_uid = ''alice'', origin_sequence = 5 \<rparr>, st')"
proof -
  have "\<exists>st'. SubmitDraft sample_chat_env sample_su 20 5000 sample_state = Some (next_identity sample_state, st')"
    using submit_runs [where st = sample_state and env = sample_chat_env and su = sample_su and i = 20 and now_us = 5000 and room = sample_room,
        OF sample_graph_fields(1)] sample_can_submit sample_room_ok sample_nodes_ready sample_clock
    by (auto simp: sample_graph_fields shared_ids_def effective_time_def Let_def)
  then show ?thesis by (simp add: sample_identity)
qed


section \<open>Guarantees\<close>

text \<open>C12. However commands, SubmitDraft and crashes with restarts follow each other, the workspace stays
  well formed, and its role, its endpoint, its message sequence and its list of chats never go back.\<close>

theorem commands_keep_workspace:
  assumes "chat_run env st0 n st ids" "graph_ok env (k + 2 * n) (cs_graph st0)" "settled st0"
  shows "workspace_wf env (cs_graph st) \<and> workspace_later (workspace_of st0) (workspace_of st)"
  using chat_run_good [OF assms] by (simp add: graph_ok_def)

lemma sample_settled: "settled sample_state"
  by (simp add: settled_def sample_state_def)

lemma sample_graph_of: "cs_graph sample_state = sample_graph"
  by (simp add: sample_state_def)

lemma sample_run:
  "\<exists>st. chat_run sample_chat_env sample_state 2 st [\<lparr> origin_uid = ''alice'', origin_sequence = 5 \<rparr>]"
proof -
  obtain st' where s: "SubmitDraft sample_chat_env sample_su 20 5000 sample_state = Some (\<lparr> origin_uid = ''alice'', origin_sequence = 5 \<rparr>, st')"
    using sample_submits by blast
  have "chat_run sample_chat_env sample_state (Suc 0) st' ([] @ [\<lparr> origin_uid = ''alice'', origin_sequence = 5 \<rparr>])"
    using chat_run.submitted [OF chat_run.started s] by (simp add: empty_event_id_def)
  then have "chat_run sample_chat_env sample_state (Suc (Suc 0)) (restart st') ([] @ [\<lparr> origin_uid = ''alice'', origin_sequence = 5 \<rparr>])"
    by (rule chat_run.crashed)
  then show ?thesis by (auto simp: numeral_2_eq_2)
qed

lemma commands_keep_workspace_witness:
  "\<exists>st. chat_run sample_chat_env sample_state 2 st [\<lparr> origin_uid = ''alice'', origin_sequence = 5 \<rparr>] \<and>
     workspace_wf sample_chat_env (cs_graph st) \<and> local_endpoint_uid (workspace_of st) = ''alice'' \<and> demo_role (workspace_of st) = kClient"
proof -
  obtain st where r: "chat_run sample_chat_env sample_state 2 st [\<lparr> origin_uid = ''alice'', origin_sequence = 5 \<rparr>]"
    using sample_run by blast
  have "graph_ok sample_chat_env (96 + 2 * 2) (cs_graph sample_state)" using sample_graph_ok by (simp add: sample_graph_of)
  from commands_keep_workspace [OF r this sample_settled] show ?thesis
    using r by (auto simp: workspace_later_def sample_graph_fields sample_workspace_def)
qed

text \<open>C3. No message identity is used twice: the identities of all messages committed in a run, crashes
  before, between and after the phases of SubmitDraft included, are distinct, belong to the bound endpoint and lie below
  the next sequence, since a reservation is persisted before the message exists.\<close>

theorem message_identities_never_reused:
  assumes "chat_run env st0 n st ids" "graph_ok env (k + 2 * n) (cs_graph st0)" "settled st0"
  shows "distinct ids \<and> (\<forall>x\<in>set ids. origin_uid x = local_endpoint_uid (workspace_of st) \<and>
    origin_sequence x < next_message_sequence (workspace_of st))"
  using chat_run_good [OF assms] by (simp add: identities_behind_def)

lemma message_identities_never_reused_witness:
  "\<exists>st. chat_run sample_chat_env sample_state 2 st [\<lparr> origin_uid = ''alice'', origin_sequence = 5 \<rparr>] \<and>
     5 < next_message_sequence (workspace_of st)"
proof -
  obtain st where r: "chat_run sample_chat_env sample_state 2 st [\<lparr> origin_uid = ''alice'', origin_sequence = 5 \<rparr>]"
    using sample_run by blast
  have "graph_ok sample_chat_env (96 + 2 * 2) (cs_graph sample_state)" using sample_graph_ok by (simp add: sample_graph_of)
  from message_identities_never_reused [OF r this sample_settled] show ?thesis using r by auto
qed

text \<open>C13. SubmitDraft of a sendable draft succeeds: it persists the reserved sequence before the message,
  the message before the cleared draft and then the cleared draft, and the message, which carries the draft, stands in the
  room behind every message of this endpoint.\<close>

theorem submit_draft_sends:
  assumes "cg_entries (cs_graph st) i = Some n" "can_submit env (materialized n) now_us (workspace_of st)"
    and "cg_rooms (cs_graph st) (entry_room (materialized n)) = Some room" "room_ok env room"
    and "node_ready (workspace_ops env) (cg_workspace (cs_graph st))" "node_ready (entry_ops env) n"
    and "next_identity st \<notin> set (shared_ids (journal room))"
    and "effective_time (local_endpoint_uid (workspace_of st)) (messages (materialized room)) now_us \<noteq> 0"
    and "ce_now1 (su_reserve su) \<noteq> 0" "ce_now1 (su_clear su) \<noteq> 0"
  shows "\<exists>ws' n' room' xs ys. let g = cs_graph st; msg = drafted_message (materialized n) (materialized room) now_us (workspace_of st);
      g1 = g\<lparr> cg_workspace := ws' \<rparr>; g2 = g1\<lparr> cg_rooms := (cg_rooms g)(entry_room (materialized n) \<mapsto> room') \<rparr>;
      g3 = g2\<lparr> cg_entries := (cg_entries g)(i \<mapsto> n') \<rparr> in
    SubmitDraft env su i now_us st = Some (next_identity st, st\<lparr> cs_graph := g3,
      cs_saved := cs_saved st @ (if cs_persist st then [g1, g2, g3] else []) \<rparr>) \<and>
    materialized ws' = (workspace_of st)\<lparr> next_message_sequence := next_message_sequence (workspace_of st) + 1 \<rparr> \<and>
    materialized n' = (materialized n)\<lparr> draft := [] \<rparr> \<and>
    messages (materialized room) = xs @ ys \<and> messages (materialized room') = xs @ msg # ys \<and>
    (\<forall>m\<in>set ys. origin_uid (message_id m) \<noteq> local_endpoint_uid (workspace_of st))"
  by (rule submit_runs [OF assms])

lemma submit_draft_sends_witness:
  "\<exists>st'. SubmitDraft sample_chat_env sample_su 20 5000 sample_state = Some (\<lparr> origin_uid = ''alice'', origin_sequence = 5 \<rparr>, st') \<and>
     length (cs_saved st') = 4"
proof -
  have "\<exists>st'. SubmitDraft sample_chat_env sample_su 20 5000 sample_state = Some (next_identity sample_state, st') \<and> length (cs_saved st') = 4"
    using submit_draft_sends [where st = sample_state and env = sample_chat_env and su = sample_su and i = 20 and now_us = 5000 and room = sample_room,
        OF sample_graph_fields(1)] sample_can_submit sample_room_ok sample_nodes_ready sample_clock
    by (auto simp: sample_graph_fields shared_ids_def effective_time_def Let_def) (simp_all add: sample_state_def)
  then show ?thesis by (simp add: sample_identity)
qed

text \<open>Opening a peer selects its one entry, created when there was none; opening the same peer again,
  in any spelling that trims to the same, finds that entry and changes nothing.\<close>

theorem open_finds_one_entry:
  assumes "graph_ok env (k + 2) (cs_graph st)" "OpenOrSelectChat env oe uid st = Some (i, st')" "TrimAsciiWhitespace uid \<noteq> []"
    and "ae_valid (che_ae env) (oe_entry oe)" "cg_entries (cs_graph st) (oe_entry oe) = None" "oe_base oe \<noteq> oe_entry oe"
  shows "selected_chat_id (workspace_of st') = i \<and> i \<in> set (chats (workspace_of st')) \<and>
    peer_of (cs_graph st') i = TrimAsciiWhitespace uid \<and>
    (\<forall>j\<in>set (chats (workspace_of st')). peer_of (cs_graph st') j = TrimAsciiWhitespace uid \<longrightarrow> j = i) \<and>
    (\<forall>oe' uid'. TrimAsciiWhitespace uid' = TrimAsciiWhitespace uid \<longrightarrow> OpenOrSelectChat env oe' uid' st' = Some (i, st'))"
proof -
  note s = step_open [OF assms(1,2,4-6)]
  have i: "selected_chat_id (workspace_of st') = i" "i \<in> set (chats (workspace_of st'))" "peer_of (cs_graph st') i = TrimAsciiWhitespace uid"
    using s assms(3) by simp_all
  have wf: "workspace_wf env (cs_graph st')" using s by (simp add: graph_ok_def)
  then have dist: "distinct (map (peer_of (cs_graph st')) (chats (workspace_of st')))"
    and ex: "\<forall>j\<in>set (chats (workspace_of st')). ae_valid (che_ae env) j \<and> cg_entries (cs_graph st') j \<noteq> None"
    by (simp_all add: workspace_wf_def Let_def)
  have one: "j = i" if "j \<in> set (chats (workspace_of st'))" "peer_of (cs_graph st') j = TrimAsciiWhitespace uid" for j
    using dist that i by (auto simp: distinct_map inj_on_def)
  have found: "find_peer env (cs_graph st') (TrimAsciiWhitespace uid) (chats (workspace_of st')) = Some (Some i)"
  proof -
    have "find_peer env (cs_graph st') (TrimAsciiWhitespace uid) (chats (workspace_of st')) \<noteq> None"
      using find_peer_defined ex by blast
    then obtain f where f: "find_peer env (cs_graph st') (TrimAsciiWhitespace uid) (chats (workspace_of st')) = Some f" by blast
    show ?thesis
    proof (cases f)
      case None
      have "peer_of (cs_graph st') i \<noteq> TrimAsciiWhitespace uid"
        by (rule find_peer_none [OF f [unfolded None] i(2)]) (use ex i(2) in simp)
      then show ?thesis using i(3) by contradiction
    next
      case (Some j)
      have "j = i" by (rule one) (use find_peer_found [OF f [unfolded Some]] in simp_all)
      then show ?thesis using f Some by simp
    qed
  qed
  have "OpenOrSelectChat env oe' uid' st' = Some (i, st')" if "TrimAsciiWhitespace uid' = TrimAsciiWhitespace uid" for oe' uid'
    by (simp add: OpenOrSelectChat_def Let_def that found i(1) assms(3))
  then show ?thesis using i one by blast
qed

definition sample_oe :: open_env where
  "sample_oe = \<lparr> oe_entry = 50, oe_base = 51, oe_add = sample_cenv, oe_select = sample_cenv \<rparr>"

lemma open_finds_one_entry_witness:
  "OpenOrSelectChat sample_chat_env sample_oe ''  bob '' sample_state = Some (20, sample_state) \<and>
    OpenOrSelectChat sample_chat_env sample_oe ''bob'' sample_state = Some (20, sample_state)"
proof -
  have t: "TrimAsciiWhitespace ''  bob '' = ''bob''" "TrimAsciiWhitespace ''bob'' = ''bob''"
    by (simp_all add: TrimAsciiWhitespace_def isspace_def)
  have ws: "chats sample_workspace = [20]" "selected_chat_id sample_workspace = 20" by (simp_all add: sample_workspace_def)
  have "ae_valid (che_ae sample_chat_env) 20" "peer_uid sample_entry = ''bob''"
    by (simp_all add: sample_chat_env_def sample_aether_def sample_entry_def)
  then have f1: "find_peer sample_chat_env (cs_graph sample_state) ''bob'' [20] = Some (Some 20)"
    by (simp add: sample_graph_fields)
  have o: "OpenOrSelectChat sample_chat_env sample_oe ''  bob '' sample_state = Some (20, sample_state)"
    by (simp add: OpenOrSelectChat_def Let_def t f1 sample_graph_fields(3) ws del: find_peer.simps)
  have f: "ae_valid (che_ae sample_chat_env) (oe_entry sample_oe)" "cg_entries (cs_graph sample_state) (oe_entry sample_oe) = None"
    "oe_base sample_oe \<noteq> oe_entry sample_oe" "TrimAsciiWhitespace ''  bob '' \<noteq> []" "TrimAsciiWhitespace ''bob'' = TrimAsciiWhitespace ''  bob ''"
    by (simp_all add: sample_chat_defs sample_oe_def t)
  have "graph_ok sample_chat_env (98 + 2) (cs_graph sample_state)" using sample_graph_ok by (simp add: sample_graph_of)
  from open_finds_one_entry [OF this o f(4) f(1-3)] show ?thesis using o f(5) by blast
qed

text \<open>C37. SetHostUidInput ends in a failed assertion exactly when a client stores a new text of more than 128
  bytes: the command checks the role but leaves the bound to CanApply, which Commit asserts.\<close>

theorem oversized_host_input_aborts:
  assumes "node_ready (workspace_ops env) (cg_workspace (cs_graph st))" "ce_now1 cenv \<noteq> 0"
  shows "SetHostUidInput env cenv text st = None \<longleftrightarrow>
    demo_role (workspace_of st) = kClient \<and> host_uid_input (workspace_of st) \<noteq> text \<and> length text > 128"
proof (cases "demo_role (workspace_of st) = kClient \<and> host_uid_input (workspace_of st) \<noteq> text")
  case True
  show ?thesis
  proof (cases "length text > 128")
    case True
    then have "\<not> Workspace_CanApply (che_ae env) (HostUidInputChangedEvent text) (workspace_of st)" by simp
    then have "commit_workspace env cenv (HostUidInputChangedEvent text) st = None"
      using chat_commit_refused [where can = "Workspace_CanApply (che_ae env)" and e = "HostUidInputChangedEvent text"
          and n = "cg_workspace (cs_graph st)"] by (simp add: commit_workspace_def workspace_ops_def)
    then show ?thesis using True \<open>demo_role (workspace_of st) = kClient \<and> host_uid_input (workspace_of st) \<noteq> text\<close>
      by (simp add: SetHostUidInput_def)
  next
    case False
    then show ?thesis
      using commit_workspace_runs [OF assms, of "HostUidInputChangedEvent text"]
        \<open>demo_role (workspace_of st) = kClient \<and> host_uid_input (workspace_of st) \<noteq> text\<close>
      by (auto simp: SetHostUidInput_def)
  qed
qed (auto simp: SetHostUidInput_def)

lemma oversized_host_input_aborts_witness:
  "SetHostUidInput sample_chat_env sample_cenv (replicate 129 (CHR ''a'')) sample_state = None"
proof -
  have r: "node_ready (workspace_ops sample_chat_env) (cg_workspace (cs_graph sample_state))" "ce_now1 sample_cenv \<noteq> 0"
    by (simp_all only: sample_graph_fields sample_nodes_ready) (simp add: sample_cenv_def)
  show ?thesis
    unfolding oversized_host_input_aborts [OF r] sample_graph_fields by (simp add: sample_workspace_def new_workspace_def)
qed

end
