(* ===== verification/ChatJoin.thy ===== *)
theory ChatJoin
  imports ChatSessionProperties
begin

text \<open>
  What a join can end in and how long it lasts: the room of an accepted or finished join was offered by the expected host
  for the current attempt, the requests of one attempt are bounded, and an attempt past its deadline fails.
\<close>

section \<open>Only an offered room is accepted\<close>

lemma run_inputs_commits:
  assumes "run_inputs env inputs w = Some w'" "controls inputs \<subseteq> msgs"
  shows "commits env msgs (2 * length inputs) (wk_runtime w) (wk_runtime w')"
  using assms
proof (induction inputs arbitrary: w)
  case Nil
  then show ?case by (simp add: commits.none)
next
  case (Cons i rest)
  obtain w1 where w1: "run_input env i w = Some w1" "run_inputs env rest w1 = Some w'"
    using Cons.prems(1) by (auto simp: Option.bind_eq_Some_conv)
  have sub: "controls [i] \<subseteq> msgs" "controls rest \<subseteq> msgs" using Cons.prems(2) by (auto simp: controls_def)
  have "commits env msgs 2 (wk_runtime w) (wk_runtime w1)" by (rule run_input_commits [OF w1(1) sub(1)])
  then have "commits env msgs (2 + 2 * length rest) (wk_runtime w) (wk_runtime w')"
    by (rule commits_trans [OF Cons.IH [OF w1(2) sub(2)]])
  then show ?case by simp
qed

definition room_justified :: "session_env \<Rightarrow> (string \<times> bytes) set \<Rightarrow> runtime_state \<Rightarrow> bool" where
  "room_justified env msgs rt \<longleftrightarrow>
     (join_phase rt = kAccepted \<or> join_phase rt = kJoined \<longrightarrow>
        offered env msgs (expected_host_uid rt) (join_attempt_id rt) (accepted_room_id rt)) \<and>
     (join_phase rt = kJoined \<longrightarrow> bound_room_id rt = accepted_room_id rt)"

lemma room_justified_step:
  assumes "Runtime_CanApply ae e rt" "justified env msgs e rt" "room_justified env msgs rt"
  shows "room_justified env msgs (Runtime_Apply ae i e rt)"
  using assms by (cases e) (auto simp: room_justified_def justified_def split: if_splits)

lemma commits_keep_justified:
  assumes "commits env msgs k n m" "node_inv (runtime_ops env) id n" "length (journal n) + k \<le> kJournalFullyMaterialized"
    and "room_justified env msgs (materialized n)"
  shows "node_inv (runtime_ops env) id m \<and> length (journal m) \<le> length (journal n) + k \<and> room_justified env msgs (materialized m)"
  using assms
proof (induction rule: commits.induct)
  case (step k n m e cenv m')
  have le: "length (journal n) + k \<le> kJournalFullyMaterialized" using step.prems(2) by simp
  note ih = step.IH [OF step.prems(1) le step.prems(3)]
  have m: "node_inv (runtime_ops env) id m" "length (journal m) < kJournalFullyMaterialized" "room_justified env msgs (materialized m)"
    and len: "length (journal m) \<le> length (journal n) + k"
    using ih step.prems(2) by (blast, linarith, blast, blast)
  note c = chat_commit_some [OF m(1) [unfolded runtime_ops_def] m(2) step.hyps(3) [unfolded runtime_ops_def], folded runtime_ops_def]
  have "room_justified env msgs (Runtime_Apply (se_ae env) (ce_event_id cenv) e (materialized m))"
    by (rule room_justified_step [OF _ step.hyps(2) m(3)]) (use c in simp)
  then show ?case using c len by (metis add_Suc_right Suc_le_mono)
qed simp

text \<open>C4. Whatever the worker is given, in any order: once it holds a room as accepted or joined, a received control message
  decodes to an acceptance of that room for the current attempt, and its source is the host the attempt expects; a joined
  room is the accepted one.\<close>

theorem accepted_room_was_offered:
  assumes "run_inputs env inputs w = Some w'" "node_inv (runtime_ops env) id (wk_runtime w)"
    and "length (journal (wk_runtime w)) + 2 * length inputs \<le> kJournalFullyMaterialized"
    and "join_phase (wk_rt w) \<noteq> kAccepted" "join_phase (wk_rt w) \<noteq> kJoined"
    and "join_phase (wk_rt w') = kAccepted \<or> join_phase (wk_rt w') = kJoined"
  shows "offered env (controls inputs) (expected_host_uid (wk_rt w')) (join_attempt_id (wk_rt w')) (accepted_room_id (wk_rt w')) \<and>
    (join_phase (wk_rt w') = kJoined \<longrightarrow> bound_room_id (wk_rt w') = accepted_room_id (wk_rt w'))"
proof -
  have "room_justified env (controls inputs) (wk_rt w)" using assms(4,5) by (simp add: room_justified_def)
  then have "room_justified env (controls inputs) (wk_rt w')"
    using commits_keep_justified [OF run_inputs_commits [OF assms(1) subset_refl] assms(2,3)] by blast
  then show ?thesis using assms(6) by (simp add: room_justified_def)
qed

definition sample_uid_api :: uid_api where
  "sample_uid_api = \<lparr> uid_string_valid = (\<lambda>s. True), uid_empty = (\<lambda>s. False), uid_format = id \<rparr>"

definition sample_session_env :: session_env where
  "sample_session_env = \<lparr> sv_chat = sample_chat_env, sv_archive = sample_archive, sv_uid = sample_uid_api, sv_missing_runtime = id \<rparr>"

definition sample_runtime :: runtime_state where
  "sample_runtime = \<lparr> join_phase = kJoining, join_attempt_id = 7, expected_host_uid = ''bob'',
     accepted_room_id = 0, bound_room_id = 0, join_entry_id = 20, last_error = [], copy_request_id = 0, copy_uid = [], copy_pending = False \<rparr>"

definition sample_status :: chat_status where
  "sample_status = \<lparr> st_demo_role = kClient, st_local_endpoint_uid = [], st_host_uid_input = [], st_join_phase = kIdle, st_join_status_text = [],
     st_lifecycle_state = Session_Failed, st_local_connectivity = Connectivity_Unknown, st_remote_presence = (\<lambda>_. None),
     st_room_bootstrap = (\<lambda>_. None), st_delivery = (\<lambda>_. None), st_error_text = [], st_completed_checkpoint_id = 0,
     st_edit_results = (\<lambda>_. None), st_send_results = (\<lambda>_. None), st_pending_copy = None \<rparr>"

text \<open>A client that waits for the answer of ''bob''.\<close>

definition sample_worker :: worker_state where
  "sample_worker = \<lparr> wk_cmd = sample_state, wk_runtime = lifecycle_sample 50 sample_runtime, wk_has_endpoint = True, wk_sync = Some {},
     wk_my_uid = ''alice'', wk_aether_ready = True, wk_identity_conflict = False, wk_network_epoch = 1, wk_remote_presence = (\<lambda>_. None),
     wk_waiting_entry = (\<lambda>_. None), wk_publication_dirty = False, wk_processed_edit_revisions = (\<lambda>_. None), wk_pending_select_ack = None,
     wk_retry_in_progress = False, wk_join_sched_attempt = 7, wk_join_frozen = [1, 2, 3], wk_join_start = 0, wk_join_last_send = None,
     wk_projected = None, wk_status = sample_status, wk_status_serial = 0, wk_effects = [] \<rparr>"

definition sample_acceptance :: bytes where
  "sample_acceptance = snd (EncodeChatBootstrap sample_archive \<lparr> bs_kind = kJoinAccepted, bs_attempt_id = 7, bs_room_id = 31, bs_rejection_reason = [] \<rparr>)"


lemma sample_runtime_inv [simp]: "node_inv (runtime_ops sample_session_env) id (lifecycle_sample 50 sample_runtime)"
  unfolding runtime_ops_def by (rule chat_sample_inv)

lemma sample_runtime_ready: "node_ready (runtime_ops sample_session_env) (lifecycle_sample 50 sample_runtime)"
  unfolding runtime_ops_def by (rule chat_sample_ready)

lemma sample_acceptance_decodes:
  "DecodeChatBootstrap sample_aether sample_archive sample_acceptance =
     Some \<lparr> bs_kind = kJoinAccepted, bs_attempt_id = 7, bs_room_id = 31, bs_rejection_reason = [] \<rparr>"
proof -
  let ?m = "\<lparr> bs_kind = kJoinAccepted, bs_attempt_id = 7, bs_room_id = 31, bs_rejection_reason = [] \<rparr>"
  have "bootstrap_wf sample_aether ?m" by (simp add: bootstrap_wf_def sample_aether_def)
  moreover have "EncodeChatBootstrap sample_archive ?m = (True, sample_acceptance)"
    by (simp add: EncodeChatBootstrap_def sample_archive_def sample_acceptance_def kMaxControlPayloadBytes_def)
  ultimately show ?thesis by (rule decode_encode [OF sample_archive_ok])
qed

definition sample_control_env :: control_env where
  "sample_control_env = \<lparr> ct_fail = sample_cenv, ct_accept = sample_cenv, ct_done = sample_cenv,
     ct_host = \<lparr> ac_open = \<lparr> oe_entry = 64, oe_base = 65, oe_add = sample_cenv, oe_select = sample_cenv \<rparr>, ac_room = 60, ac_room_base = 61, ac_local_link = 62, ac_remote_link = 63,
       ac_share1 = sample_cenv, ac_share2 = sample_cenv, ac_bind = sample_cenv \<rparr> \<rparr>"


lemma sample_session_fields [simp]:
  "sv_chat sample_session_env = sample_chat_env" "sv_archive sample_session_env = sample_archive" "sv_uid sample_session_env = sample_uid_api"
  "che_ae sample_chat_env = sample_aether"
  by (simp_all add: sample_session_env_def sample_chat_env_def)

lemma sample_worker_fields:
  "wk_cmd sample_worker = sample_state" "wk_runtime sample_worker = lifecycle_sample 50 sample_runtime" "wk_network_epoch sample_worker = 1"
  "wk_identity_conflict sample_worker = False" "wk_sync sample_worker = Some {}" "materialized (lifecycle_sample 50 sample_runtime) = sample_runtime"
  by (simp_all add: sample_worker_def lifecycle_sample_def)

lemma sample_entry_room: "wk_cmd w = sample_state \<Longrightarrow> entry_room_of sample_session_env w 20 = 30"
  by (simp add: entry_room_of_def FindEntryById_def sample_graph_fields sample_workspace_def new_workspace_def sample_aether_def)

lemma sample_canonical: "TryCanonicalizeAetherUid sample_uid_api ''bob'' ''bob'' = (False, ''bob'')"
  by (simp add: TryCanonicalizeAetherUid_def TrimAsciiWhitespace_def isspace_def)

lemma accepted_room_was_offered_witness:
  "\<exists>w'. run_inputs sample_session_env [In_callback 1 (Callback_control sample_control_env ''bob'' sample_acceptance)] sample_worker = Some w' \<and>
     join_phase (wk_rt w') = kAccepted \<and> offered sample_session_env {(''bob'', sample_acceptance)} ''bob'' 7 31"
proof -
  let ?ev = "JoinHostAcceptedEvent 7 ''bob'' 31"
  let ?inputs = "[In_callback 1 (Callback_control sample_control_env ''bob'' sample_acceptance)]"
  obtain n where n: "Commit (runtime_ops sample_session_env) sample_cenv ?ev (lifecycle_sample 50 sample_runtime) = Some n"
    "materialized n = sample_runtime\<lparr> join_phase := kAccepted, accepted_room_id := 31, last_error := [] \<rparr>"
    using chat_commit [OF sample_runtime_ready [unfolded runtime_ops_def], folded runtime_ops_def, of sample_cenv ?ev]
    by (auto simp: sample_cenv_def sample_runtime_def lifecycle_sample_def sample_session_env_def sample_chat_env_def sample_aether_def)
  have can: "can_runtime sample_session_env ?ev sample_worker"
    by (simp add: can_runtime_def sample_worker_def lifecycle_sample_def sample_runtime_def sample_session_env_def sample_chat_env_def sample_aether_def)
  have commit: "commit_runtime sample_session_env sample_cenv ?ev sample_worker = Some (sample_worker\<lparr> wk_runtime := n \<rparr>)"
    using n(1) by (simp add: commit_runtime_def sample_worker_def)
  have "\<exists>w'. accept_join sample_session_env sample_control_env ''bob'' \<lparr> bs_kind = kJoinAccepted, bs_attempt_id = 7, bs_room_id = 31,
      bs_rejection_reason = [] \<rparr> sample_worker = Some w' \<and> wk_runtime w' = n"
    using can commit n(2)
    by (simp add: accept_join_def sample_control_env_def Let_def sample_canonical sample_entry_room sample_worker_fields sample_runtime_def)
  then obtain w' where a: "accept_join sample_session_env sample_control_env ''bob'' \<lparr> bs_kind = kJoinAccepted, bs_attempt_id = 7, bs_room_id = 31,
      bs_rejection_reason = [] \<rparr> sample_worker = Some w'" and w': "wk_runtime w' = n" by blast
  have v: "ae_valid sample_aether 31" by (simp add: sample_aether_def)
  have r: "run_inputs sample_session_env ?inputs sample_worker = Some w'"
    using a by (simp add: run_callback_def sample_worker_fields handle_control_def sample_acceptance_decodes handle_accepted_def Let_def
        sample_graph_fields sample_workspace_def canonical_source_def sample_canonical sample_runtime_def v)
  have start: "journal (wk_runtime sample_worker) = []" "join_phase (wk_rt sample_worker) = kJoining"
    by (simp_all add: sample_worker_def lifecycle_sample_def sample_runtime_def)
  have inv: "node_inv (runtime_ops sample_session_env) id (wk_runtime sample_worker)"
    by (simp only: sample_worker_fields sample_runtime_inv)
  have "controls ?inputs = {(''bob'', sample_acceptance)}" by (auto simp: controls_def)
  then show ?thesis
    using r w' n(2) accepted_room_was_offered [OF r inv] start
    by (auto simp: sample_runtime_def kJournalFullyMaterialized_def)
qed


section \<open>The join scheduler\<close>

text \<open>The passes of the main loop over the scheduler, each with its clock reading.\<close>

fun drive_times :: "session_env \<Rightarrow> (commit_env \<times> int) list \<Rightarrow> worker_state \<Rightarrow> worker_state option" where
  "drive_times env [] w = Some w"
| "drive_times env ((cenv, now) # ts) w = drive_join_send env cenv now w \<bind> drive_times env ts"

fun is_send :: "session_effect \<Rightarrow> bool" where
  "is_send (SendControl peer bs) = True"
| "is_send _ = False"

definition sent :: "worker_state \<Rightarrow> nat" where
  "sent w = length (filter is_send (wk_effects w))"

definition scheduled :: "nat \<Rightarrow> int \<Rightarrow> worker_state \<Rightarrow> bool" where
  "scheduled before start w \<longleftrightarrow> sent w \<le> before + 30 \<and>
     (wk_join_frozen w \<noteq> [] \<longrightarrow> wk_join_start w = start \<and>
        (case wk_join_last_send w of
           None \<Rightarrow> sent w = before
         | Some t \<Rightarrow> (int (sent w) - int before) * kJoinRetryInterval \<le> t - start + kJoinRetryInterval \<and>
             t - start < kJoinAttemptDeadline))"

lemma sent_simps [simp]:
  "sent (effect e w) = sent w + (if is_send e then 1 else 0)" "sent (mark_dirty w) = sent w"
  "sent (clear_join_scheduler env w) = sent w" "sent (w\<lparr> wk_waiting_entry := f \<rparr>) = sent w"
  "sent (w\<lparr> wk_runtime := n \<rparr>) = sent w" "sent (w\<lparr> wk_join_last_send := t \<rparr>) = sent w"
  by (simp_all add: sent_def effect_def mark_dirty_def clear_join_scheduler_def)

lemma try_commit_sent: "try_commit_runtime env cenv e w = Some w' \<Longrightarrow> sent w' = sent w"
  by (auto simp: try_commit_runtime_def commit_runtime_def Option.bind_eq_Some_conv split: if_splits)

lemma cleared_simps [simp]:
  "wk_join_frozen (clear_join_scheduler env w) = []" "wk_join_frozen (effect e w) = wk_join_frozen w"
  "wk_join_start (effect e w) = wk_join_start w"
  by (simp_all add: clear_join_scheduler_def effect_def)

lemma drive_keeps_schedule:
  assumes d: "drive_join_send env cenv now w = Some w'" and s: "scheduled before start w" and now: "start \<le> now"
  shows "scheduled before start w'"
proof -
  note dd = d [unfolded drive_join_send_def]
  consider (same) "w' = w" | (stop) "wk_join_frozen w' = []" "sent w' = sent w"
    | (send) "w' = (effect (SendControl (expected_host_uid (wk_rt w)) (wk_join_frozen w)) (effect (OpenPeer (expected_host_uid (wk_rt w))) w))
        \<lparr> wk_join_last_send := Some now \<rparr>" "wk_join_frozen w \<noteq> []" "now - wk_join_start w < kJoinAttemptDeadline"
        "\<forall>t. wk_join_last_send w = Some t \<longrightarrow> kJoinRetryInterval \<le> now - t"
    using dd by (auto simp: Let_def Option.bind_eq_Some_conv dest!: try_commit_sent split: if_splits option.splits)
  then show ?thesis
  proof cases
    case send
    then show ?thesis using s now
      by (auto simp: scheduled_def kJoinRetryInterval_def kJoinAttemptDeadline_def split: option.splits)
  qed (use s in \<open>simp_all add: scheduled_def\<close>)
qed

lemma drive_times_schedule:
  assumes "drive_times env ts w = Some w'" "scheduled before start w" "\<forall>(cenv, now)\<in>set ts. start \<le> now"
  shows "scheduled before start w'"
  using assms by (induction env ts w rule: drive_times.induct) (auto simp: Option.bind_eq_Some_conv dest: drive_keeps_schedule)



lemma sample_drive:
  "drive_join_send sample_session_env sample_cenv 5 sample_worker = Some ((effect (SendControl ''bob'' [1, 2, 3])
     (effect (OpenPeer ''bob'') sample_worker))\<lparr> wk_join_last_send := Some 5 \<rparr>)"
proof -
  have f: "wk_has_endpoint sample_worker" "wk_join_sched_attempt sample_worker = 7" "wk_join_frozen sample_worker = [1, 2, 3]"
      "wk_aether_ready sample_worker" "wk_my_uid sample_worker = ''alice''" "wk_join_start sample_worker = 0" "wk_join_last_send sample_worker = None"
    by (simp_all add: sample_worker_def)
  have v: "ae_valid sample_aether 7" by (simp add: sample_aether_def)
  show ?thesis
    by (simp add: drive_join_send_def f v joining_def sample_worker_fields sample_graph_fields sample_workspace_def sample_runtime_def kJoinAttemptDeadline_def)
qed


lemma runtime_commit:
  assumes "node_ready (runtime_ops env) n" "ce_now1 cenv \<noteq> 0" "Runtime_CanApply (se_ae env) e (materialized n)"
  shows "\<exists>n'. Commit (runtime_ops env) cenv e n = Some n' \<and> materialized n' = Runtime_Apply (se_ae env) (ce_event_id cenv) e (materialized n)"
  unfolding runtime_ops_def
  using chat_commit [where can = "Runtime_CanApply (se_ae env)" and e = e, OF assms(1) [unfolded runtime_ops_def] assms(2,3)] by blast

text \<open>A ready client whose armed attempt has reached its deadline: the pass fails the attempt with the reason of its
  phase, sends nothing, forgets the expected room and frees the scheduler.\<close>

theorem late_attempt_fails:
  assumes "wk_has_endpoint w" "demo_role (wk_workspace w) = kClient" "joining w" "wk_aether_ready w" "wk_my_uid w \<noteq> []"
    and "ae_valid (se_ae env) (join_attempt_id (wk_rt w))" "wk_join_sched_attempt w = join_attempt_id (wk_rt w)" "wk_join_frozen w \<noteq> []"
    and "now - wk_join_start w \<ge> kJoinAttemptDeadline"
    and "node_ready (runtime_ops env) (wk_runtime w)" "ce_now1 cenv \<noteq> 0"
  shows "\<exists>w'. drive_join_send env cenv now w = Some w' \<and> join_phase (wk_rt w') = kFailed \<and> join_attempt_id (wk_rt w') = join_attempt_id (wk_rt w) \<and>
     last_error (wk_rt w') = (if join_phase (wk_rt w) = kAccepted then ''Room sync timed out'' else ''Host response timed out'') \<and>
     sent w' = sent w \<and> wk_join_frozen w' = [] \<and> wk_join_sched_attempt w' = ae_null (se_ae env) \<and>
     wk_waiting_entry w' (expected_host_uid (wk_rt w)) = None \<and>
     (wk_sync w \<noteq> None \<longrightarrow> ForgetInitialNode (expected_host_uid (wk_rt w)) \<in> set (wk_effects w'))"
proof -
  let ?e = "JoinHostFailedEvent (join_attempt_id (wk_rt w)) (if join_phase (wk_rt w) = kAccepted then ''Room sync timed out'' else ''Host response timed out'')"
  have can: "Runtime_CanApply (se_ae env) ?e (wk_rt w)" using assms(3,6) by (auto simp: joining_def)
  obtain n where n: "Commit (runtime_ops env) cenv ?e (wk_runtime w) = Some n" "materialized n = Runtime_Apply (se_ae env) (ce_event_id cenv) ?e (wk_rt w)"
    using runtime_commit [OF assms(10,11) can] by blast
  have c: "try_commit_runtime env cenv ?e w = Some (w\<lparr> wk_runtime := n \<rparr>)"
    using n(1) can by (simp add: try_commit_runtime_def can_runtime_def commit_runtime_def del: Runtime_CanApply.simps)
  have e: "expected_host_uid (materialized n) = expected_host_uid (wk_rt w)" by (simp add: n(2))
  let ?w1 = "w\<lparr> wk_runtime := n \<rparr>"
  let ?w2 = "if wk_sync ?w1 \<noteq> None then effect (ForgetInitialNode (expected_host_uid (wk_rt ?w1))) ?w1 else ?w1"
  let ?w3 = "?w2\<lparr> wk_waiting_entry := (wk_waiting_entry ?w2)(expected_host_uid (wk_rt ?w2) := None) \<rparr>"
  have d: "drive_join_send env cenv now w = Some (clear_join_scheduler env ?w3)"
    unfolding drive_join_send_def Let_def using assms(1-9) c by (simp del: not_le)
  have r: "wk_runtime (clear_join_scheduler env ?w3) = n" by (simp add: clear_join_scheduler_def effect_def)
  have "sent (clear_join_scheduler env ?w3) = sent w" by simp
  moreover have "wk_join_sched_attempt (clear_join_scheduler env ?w3) = ae_null (se_ae env)" by (simp add: clear_join_scheduler_def)
  moreover have "wk_waiting_entry (clear_join_scheduler env ?w3) (expected_host_uid (wk_rt w)) = None"
    by (simp add: clear_join_scheduler_def effect_def e)
  moreover have "wk_sync w \<noteq> None \<longrightarrow> ForgetInitialNode (expected_host_uid (wk_rt w)) \<in> set (wk_effects (clear_join_scheduler env ?w3))"
    by (simp add: clear_join_scheduler_def effect_def e)
  moreover have "join_phase (materialized n) = kFailed" "join_attempt_id (materialized n) = join_attempt_id (wk_rt w)"
      "last_error (materialized n) = (if join_phase (wk_rt w) = kAccepted then ''Room sync timed out'' else ''Host response timed out'')"
    unfolding n(2) using assms(6) by simp_all
  ultimately show ?thesis using d r by auto
qed


lemma late_attempt_fails_witness:
  "\<exists>w'. drive_join_send sample_session_env sample_cenv 30000000000 sample_worker = Some w' \<and> join_phase (wk_rt w') = kFailed \<and>
     last_error (wk_rt w') = ''Host response timed out'' \<and> wk_join_frozen w' = [] \<and> sent w' = 0"
proof -
  have f: "wk_has_endpoint sample_worker" "demo_role (wk_workspace sample_worker) = kClient" "joining sample_worker" "wk_aether_ready sample_worker"
      "wk_my_uid sample_worker \<noteq> []" "ae_valid (se_ae sample_session_env) (join_attempt_id (wk_rt sample_worker))"
      "wk_join_sched_attempt sample_worker = join_attempt_id (wk_rt sample_worker)" "wk_join_frozen sample_worker \<noteq> []"
      "30000000000 - wk_join_start sample_worker \<ge> kJoinAttemptDeadline" "ce_now1 sample_cenv \<noteq> 0"
      "join_phase (wk_rt sample_worker) \<noteq> kAccepted" "sent sample_worker = 0"
    by (simp_all add: sample_worker_def sample_graph_fields sample_workspace_def lifecycle_sample_def sample_runtime_def joining_def
        kJoinAttemptDeadline_def sample_cenv_def sent_def, simp add: sample_aether_def)
  have ready: "node_ready (runtime_ops sample_session_env) (wk_runtime sample_worker)"
    using sample_runtime_ready by (simp only: sample_worker_fields)
  show ?thesis
    using late_attempt_fails [OF f(1-9) ready f(10)] f(11,12) by auto
qed

end
