(* ===== verification/ChatHost.thy ===== *)
theory ChatHost
  imports ChatJoin
begin

text \<open>
  The host's answer to a repeated join request, and the epochs that separate the callbacks of successive connections.
\<close>

section \<open>A request from a client that has its room\<close>

lemma host_graph [simp]:
  "cs_graph (wk_cmd (persist_workspace w)) = cs_graph (wk_cmd w)" "cs_graph (wk_cmd (mark_dirty w)) = cs_graph (wk_cmd w)"
  "cs_graph (wk_cmd (effect e w)) = cs_graph (wk_cmd w)" "cs_graph (wk_cmd (register_room r w)) = cs_graph (wk_cmd w)"
  "cs_graph (wk_cmd (send_join_accepted env client attempt r w)) = cs_graph (wk_cmd w)"
  "cs_graph (wk_cmd (send_join_rejected env client attempt reason w)) = cs_graph (wk_cmd w)"
  by (simp_all add: persist_workspace_def mark_dirty_def effect_def register_room_def send_join_accepted_def send_join_rejected_def
      Let_def split: option.split prod.split)

lemma effects_grow [simp]:
  "wk_effects (effect e w) = wk_effects w @ [e]" "wk_effects (mark_dirty w) = wk_effects w"
  "wk_effects (persist_workspace w) = wk_effects w" "wk_has_endpoint (persist_workspace w) = wk_has_endpoint w"
  by (simp_all add: effect_def mark_dirty_def persist_workspace_def)

lemma register_room_effects: "\<exists>es. wk_effects (register_room r w) = wk_effects w @ es"
  by (auto simp: register_room_def effect_def split: option.split)

definition host_answer :: "aether \<Rightarrow> bootstrap_message \<Rightarrow> obj_id \<Rightarrow> bootstrap_message" where
  "host_answer ae req r =
     (if ae_valid ae (bs_room_id req) \<and> bs_room_id req \<noteq> r
      then \<lparr> bs_kind = kJoinRejected, bs_attempt_id = bs_attempt_id req, bs_room_id = ae_null ae,
        bs_rejection_reason = ''Join conflict: saved room does not match host room'' \<rparr>
      else \<lparr> bs_kind = kJoinAccepted, bs_attempt_id = bs_attempt_id req, bs_room_id = r, bs_rejection_reason = [] \<rparr>)"

lemma accept_existing_answers:
  assumes "wk_has_endpoint w" "client \<noteq> []" "cg_rooms (cs_graph (wk_cmd w)) r = Some room"
    and "EncodeChatBootstrap (sv_archive env) (host_answer (se_ae env) req r) = (True, out)"
  shows "\<exists>w' rest. accept_existing env client req r w = Some w' \<and> cs_graph (wk_cmd w') = cs_graph (wk_cmd w) \<and>
    wk_effects w' = wk_effects w @ [OpenPeer client, SendControl client out] @ rest"
proof (cases "ae_valid (se_ae env) (bs_room_id req) \<and> bs_room_id req \<noteq> r")
  case True
  then show ?thesis using assms by (simp add: accept_existing_def send_join_rejected_def host_answer_def)
next
  case False
  let ?w1 = "send_join_accepted env client (bs_attempt_id req) r (persist_workspace w)"
  have e: "wk_effects ?w1 = wk_effects w @ [OpenPeer client, SendControl client out]"
    using assms False by (auto simp: send_join_accepted_def host_answer_def)
  obtain es where es: "wk_effects (register_room r ?w1) = wk_effects ?w1 @ es" using register_room_effects by blast
  show ?thesis using assms(3) False e es
    by (auto simp: accept_existing_def Let_def split: option.split)
qed


section \<open>Epochs\<close>

lemma epoch_simps [simp]:
  "wk_network_epoch (effect e w) = wk_network_epoch w" "wk_network_epoch (mark_dirty w) = wk_network_epoch w"
  "wk_network_epoch (persist_workspace w) = wk_network_epoch w" "wk_network_epoch (UpdateStatus f w) = wk_network_epoch w"
  "wk_network_epoch (clear_join_scheduler env w) = wk_network_epoch w" "wk_network_epoch (end_join_send env w) = wk_network_epoch w"
  "wk_network_epoch (put_room n w) = wk_network_epoch w" "wk_network_epoch (register_room r w) = wk_network_epoch w"
  "wk_network_epoch (send_join_accepted env client attempt r w) = wk_network_epoch w"
  "wk_network_epoch (send_join_rejected env client attempt reason w) = wk_network_epoch w"
  "wk_network_epoch (supersede_attempt env can w) = wk_network_epoch w"
  "wk_network_epoch (expect_room source r w) = wk_network_epoch w" "wk_network_epoch (arm_join_scheduler env now w) = wk_network_epoch w"
  "wk_network_epoch (start_network w) = wk_network_epoch w" "wk_network_epoch (identity_conflict w) = wk_network_epoch w"
  "wk_network_epoch (set_peer_presence peer p w) = wk_network_epoch w" "wk_network_epoch (on_failed err w) = wk_network_epoch w"
  "wk_network_epoch (resume_join env now w) = wk_network_epoch w"
  "wk_network_epoch (project_demo_status force w) = wk_network_epoch w" "wk_network_epoch (reject_edit i revision reason w) = wk_network_epoch w"
  "wk_network_epoch (reject_send i revision reason w) = wk_network_epoch w" "wk_network_epoch (on_checkpoint request_id failure w) = wk_network_epoch w"
  by (simp_all add: effect_def mark_dirty_def persist_workspace_def UpdateStatus_def clear_join_scheduler_def end_join_send_def
      put_room_def register_room_def send_join_accepted_def send_join_rejected_def expect_room_def arm_join_scheduler_def
      start_network_def identity_conflict_def set_peer_presence_def on_failed_def resume_join_def supersede_attempt_def
      project_demo_status_def reject_edit_def reject_send_def on_checkpoint_def Let_def split: option.split prod.split)

lemma command_epoch: "command f w = Some (r, w') \<Longrightarrow> wk_network_epoch w' = wk_network_epoch w"
  by (auto simp: command_def Option.bind_eq_Some_conv)

lemma commit_runtime_epoch: "commit_runtime env cenv e w = Some w' \<Longrightarrow> wk_network_epoch w' = wk_network_epoch w"
  by (auto simp: commit_runtime_def Option.bind_eq_Some_conv)

lemma try_commit_epoch: "try_commit_runtime env cenv e w = Some w' \<Longrightarrow> wk_network_epoch w' = wk_network_epoch w"
  by (auto simp: try_commit_runtime_def dest: commit_runtime_epoch split: if_splits)

lemmas epoch_dests = command_epoch commit_runtime_epoch try_commit_epoch


lemma register_rooms_epoch [simp]: "wk_network_epoch (register_rooms env w) = wk_network_epoch w"
proof -
  have "wk_network_epoch (fold (\<lambda>entry w. if ae_valid (se_ae env) (entry_room entry) then register_room (entry_room entry) w else w) es w) =
     wk_network_epoch w" for es
    by (induction es arbitrary: w) auto
  then show ?thesis by (simp add: register_rooms_def)
qed

lemma open_peers_epoch [simp]: "wk_network_epoch (open_peers env w) = wk_network_epoch w"
proof -
  have "wk_network_epoch (fold (\<lambda>entry w. if ae_valid (se_ae env) (peer_link entry) \<and> che_endpoint (sv_chat env) (peer_link entry) \<noteq> []
     then effect (OpenPeer (che_endpoint (sv_chat env) (peer_link entry))) w else w) es w) = wk_network_epoch w" for es
    by (induction es arbitrary: w) auto
  then show ?thesis by (simp add: open_peers_def)
qed

lemma on_ready_epoch [simp]: "wk_network_epoch (on_ready env now w) = wk_network_epoch w"
  by (simp add: on_ready_def Let_def)

lemma drive_sync_epoch [simp]: "wk_network_epoch (snd (drive_sync env sync now rw)) = wk_network_epoch (snd rw)"
proof -
  have one: "wk_network_epoch (snd (drive_room env sync now entry rw)) = wk_network_epoch (snd rw)" for entry rw
    by (cases rw) (simp add: drive_room_def Let_def split: option.split prod.split)
  have "wk_network_epoch (snd (fold (drive_room env sync now) es rw)) = wk_network_epoch (snd rw)" for es
    by (induction es arbitrary: rw) (simp_all add: one)
  then show ?thesis by (simp add: drive_sync_def)
qed

lemma accept_existing_epoch: "accept_existing env client req r w = Some w' \<Longrightarrow> wk_network_epoch w' = wk_network_epoch w"
  by (auto simp: accept_existing_def Let_def Option.bind_eq_Some_conv split: if_splits option.splits)

lemma accept_new_epoch: "accept_new env ac client req w = Some w' \<Longrightarrow> wk_network_epoch w' = wk_network_epoch w"
  by (auto simp: accept_new_def Let_def Option.bind_eq_Some_conv split: if_splits dest!: command_epoch)

lemma host_accept_epoch: "host_accept_client env ac client req w = Some w' \<Longrightarrow> wk_network_epoch w' = wk_network_epoch w"
  by (auto simp: host_accept_client_def Option.bind_eq_Some_conv dest: accept_existing_epoch accept_new_epoch split: if_splits option.splits)

lemma handle_rejected_epoch: "handle_rejected env ct source msg w = Some w' \<Longrightarrow> wk_network_epoch w' = wk_network_epoch w"
  by (auto simp: handle_rejected_def Let_def Option.bind_eq_Some_conv dest!: epoch_dests split: if_splits)

lemma accept_join_epoch: "accept_join env ct source msg w = Some w' \<Longrightarrow> wk_network_epoch w' = wk_network_epoch w"
  by (auto simp: accept_join_def Let_def Option.bind_eq_Some_conv dest!: epoch_dests split: if_splits prod.splits)

lemma handle_accepted_epoch: "handle_accepted env ct source msg w = Some w' \<Longrightarrow> wk_network_epoch w' = wk_network_epoch w"
  by (auto simp: handle_accepted_def Let_def Option.bind_eq_Some_conv dest!: epoch_dests accept_join_epoch split: if_splits)

lemma handle_control_epoch: "handle_control env ct source bs w = Some w' \<Longrightarrow> wk_network_epoch w' = wk_network_epoch w"
  by (auto simp: handle_control_def dest!: host_accept_epoch handle_rejected_epoch handle_accepted_epoch split: if_splits option.splits)

lemma begin_join_epoch:
  assumes "begin_join env bg w = Some w'"
  shows "wk_network_epoch w' = wk_network_epoch w"
proof (cases "demo_role (wk_workspace w) = kClient")
  case False
  then show ?thesis using assms by (simp add: begin_join_def)
next
  case role: True
  obtain r w1 where c1: "command (SetHostUidInput (sv_chat env) (bg_set bg) (host_uid_input (wk_workspace w))) w = Some (r, w1)"
    using assms role by (auto simp: begin_join_def Option.bind_eq_Some_conv)
  obtain ok can where t: "TryCanonicalizeAetherUid (sv_uid env) (host_uid_input (wk_workspace w1)) [] = (ok, can)" by fastforce
  have "wk_network_epoch w' = wk_network_epoch w1"
  proof (cases "\<not> ok \<or> wk_my_uid w1 \<noteq> [] \<and> can = wk_my_uid w1")
    case True
    then show ?thesis
      using assms role c1 t by (auto simp: begin_join_def Let_def Option.bind_eq_Some_conv dest!: try_commit_epoch)
  next
    case False
    then obtain i w2 where c2: "command (OpenOrSelectChat (sv_chat env) (bg_open bg) can) w1 = Some (i, w2)"
      using assms role c1 t by (auto simp: begin_join_def Let_def Option.bind_eq_Some_conv)
    show ?thesis
      using assms role c1 t False c2 command_epoch [OF c2]
      by (auto simp: begin_join_def Let_def Option.bind_eq_Some_conv dest!: commit_runtime_epoch split: if_splits)
  qed
  then show ?thesis using command_epoch [OF c1] by simp
qed

lemma drive_join_epoch: "drive_join_send env cenv now w = Some w' \<Longrightarrow> wk_network_epoch w' = wk_network_epoch w"
  by (auto simp: drive_join_send_def Let_def Option.bind_eq_Some_conv dest!: epoch_dests split: if_splits option.splits)

lemma finish_bound_epoch: "finish_bound env im source room w = Some (ok, w') \<Longrightarrow> wk_network_epoch w' = wk_network_epoch w"
  by (auto simp: finish_bound_def Let_def Option.bind_eq_Some_conv dest!: epoch_dests split: if_splits)

lemma bind_imported_epoch: "bind_imported env im source i sh n w = Some (ok, w') \<Longrightarrow> wk_network_epoch w' = wk_network_epoch w"
  by (auto simp: bind_imported_def Let_def Option.bind_eq_Some_conv dest!: epoch_dests split: if_splits)

lemma imported_epoch: "InitialNodeImported env im source is_room n w = Some (ok, w') \<Longrightarrow> wk_network_epoch w' = wk_network_epoch w"
  by (auto simp: InitialNodeImported_def Let_def Option.bind_eq_Some_conv dest!: finish_bound_epoch bind_imported_epoch
      split: if_splits option.splits)

lemma run_callback_epoch: "run_callback env epoch c w = Some w' \<Longrightarrow> wk_network_epoch w' = wk_network_epoch w"
  by (auto simp: run_callback_def on_uid_def Let_def Option.bind_eq_Some_conv dest!: command_epoch handle_control_epoch
      split: if_splits callback.splits)

lemma user_epoch:
  "on_set_host_uid_input env cenv text w = Some w' \<Longrightarrow> wk_network_epoch w' = wk_network_epoch w"
  "on_copy_host_uid env cenv w = Some w' \<Longrightarrow> wk_network_epoch w' = wk_network_epoch w"
  "on_select_chat env cenv i w = Some w' \<Longrightarrow> wk_network_epoch w' = wk_network_epoch w"
  "on_edit_draft env cenv i text revision w = Some w' \<Longrightarrow> wk_network_epoch w' = wk_network_epoch w"
  "on_send_draft env cenv su now i text revision w = Some w' \<Longrightarrow> wk_network_epoch w' = wk_network_epoch w"
  "on_save_scroll env cenv i anchor w = Some w' \<Longrightarrow> wk_network_epoch w' = wk_network_epoch w"
  "on_save_bounds env cenv bounds w = Some w' \<Longrightarrow> wk_network_epoch w' = wk_network_epoch w"
  by (auto simp: on_set_host_uid_input_def on_copy_host_uid_def on_select_chat_def on_edit_draft_def on_send_draft_def on_save_scroll_def
      on_save_bounds_def Let_def Option.bind_eq_Some_conv dest!: epoch_dests split: if_splits option.splits)

lemma retry_epoch: "wk_network_epoch w \<le> wk_network_epoch (on_retry_connection w)"
  by (simp add: on_retry_connection_def Let_def)

lemma run_inputs_epoch: "run_inputs env inputs w = Some w' \<Longrightarrow> wk_network_epoch w \<le> wk_network_epoch w'"
proof (induction inputs arbitrary: w)
  case (Cons i rest)
  obtain w1 where w1: "run_input env i w = Some w1" "run_inputs env rest w1 = Some w'"
    using Cons.prems by (auto simp: Option.bind_eq_Some_conv)
  have "wk_network_epoch w \<le> wk_network_epoch w1"
    using w1(1) retry_epoch [of w]
    by (cases i) (auto dest: run_callback_epoch begin_join_epoch user_epoch imported_epoch drive_join_epoch)
  then show ?case using Cons.IH [OF w1(2)] by simp
qed simp


text \<open>C15. RetryConnection after a failure starts the endpoint in a fresh epoch, and from then on, whatever the worker is given in
  between, a callback of any earlier epoch leaves the worker as it is.\<close>

theorem retry_cuts_off_old_callbacks:
  assumes "\<not> wk_identity_conflict w" "\<not> wk_retry_in_progress w" "st_lifecycle_state (wk_status w) = Session_Failed"
    and "run_inputs env (In_retry # inputs) w = Some w'" "epoch \<le> wk_network_epoch w"
  shows "run_callback env epoch c w' = Some w' \<and>
    last (wk_effects (on_retry_connection w)) = StartEndpoint (Suc (wk_network_epoch w)) \<and>
    wk_has_endpoint (on_retry_connection w) \<and> \<not> wk_aether_ready (on_retry_connection w) \<and> wk_sync (on_retry_connection w) = None"
proof -
  have e: "wk_network_epoch (on_retry_connection w) = Suc (wk_network_epoch w)"
    using assms(1-3) by (simp add: on_retry_connection_def Let_def)
  have "wk_network_epoch (on_retry_connection w) \<le> wk_network_epoch w'"
    by (rule run_inputs_epoch) (use assms(4) in simp)
  then show ?thesis
    using assms(1-3,5) e by (simp add: run_callback_def on_retry_connection_def start_network_def UpdateStatus_def effect_def Let_def)
qed

lemma retry_cuts_off_old_callbacks_witness:
  "run_inputs sample_session_env [In_retry] sample_worker = Some (on_retry_connection sample_worker) \<and>
   run_callback sample_session_env 1 (Callback_ready 5) (on_retry_connection sample_worker) = Some (on_retry_connection sample_worker)"
proof -
  have r: "run_inputs sample_session_env [In_retry] sample_worker = Some (on_retry_connection sample_worker)" by simp
  show ?thesis
    using retry_cuts_off_old_callbacks [OF _ _ _ r, of 1 "Callback_ready 5"]
    by (simp add: sample_worker_def sample_status_def)
qed

text \<open>The host of the sample: it has the room 30 with the client ''bob''.\<close>

definition sample_host :: worker_state where
  "sample_host = sample_worker\<lparr> wk_cmd := sample_state\<lparr> cs_graph := sample_graph\<lparr> cg_workspace :=
     lifecycle_sample 10 (sample_workspace\<lparr> demo_role := kHost \<rparr>) \<rparr> \<rparr> \<rparr>"

definition sample_request :: bytes where
  "sample_request = snd (EncodeChatBootstrap sample_archive \<lparr> bs_kind = kJoinRequest, bs_attempt_id = 7, bs_room_id = 0, bs_rejection_reason = [] \<rparr>)"

lemma sample_request_decodes:
  "DecodeChatBootstrap sample_aether sample_archive sample_request =
     Some \<lparr> bs_kind = kJoinRequest, bs_attempt_id = 7, bs_room_id = 0, bs_rejection_reason = [] \<rparr>"
proof -
  let ?m = "\<lparr> bs_kind = kJoinRequest, bs_attempt_id = 7, bs_room_id = 0, bs_rejection_reason = [] \<rparr>"
  have "bootstrap_wf sample_aether ?m" by (simp add: bootstrap_wf_def sample_aether_def)
  moreover have "EncodeChatBootstrap sample_archive ?m = (True, sample_request)"
    by (simp add: EncodeChatBootstrap_def sample_archive_def sample_request_def kMaxControlPayloadBytes_def)
  ultimately show ?thesis by (rule decode_encode [OF sample_archive_ok])
qed


end
