(* ===== verification/ChatLaunch.thy ===== *)
theory ChatLaunch
  imports ChatModel
begin

text \<open>
  The start of the chat example: the command line (src/examples/chat_demo/common/chat_launch_options.cpp) and the binding
  through which the byte transport hands frames of the endpoint to the model thread
  (src/examples/chat_demo/aether/aether_byte_transport.cpp).
\<close>

section \<open>The command line\<close>

record launch_options =
  launch_role :: demo_role
  state_dir :: "string option"
  host_uid_prefill :: "string option"
  show_help :: bool

record parse_state =
  saw_host :: bool
  saw_client :: bool
  saw_state_dir :: bool
  saw_host_uid :: bool
  parsed_options :: launch_options

record parse_result =
  parse_ok :: bool
  parse_options :: launch_options
  error_message :: string

definition parse_start :: parse_state where
  "parse_start = \<lparr> saw_host = False, saw_client = False, saw_state_dir = False, saw_host_uid = False,
     parsed_options = \<lparr> launch_role = kUnconfigured, state_dir = None, host_uid_prefill = None, show_help = False \<rparr> \<rparr>"

definition IsRetiredFlag :: "string \<Rightarrow> bool" where
  "IsRetiredFlag arg \<longleftrightarrow> arg = ''--peer-admin-id'' \<or> arg = ''--peer-aether-uid'' \<or> arg = ''--peer-name'' \<or>
     arg = ''--open-peer'' \<or> arg = ''--admin-id''"

definition parse_error :: "string \<Rightarrow> parse_state \<Rightarrow> parse_result" where
  "parse_error message st = \<lparr> parse_ok = False, parse_options = parsed_options st, error_message = message \<rparr>"

fun parse_args :: "string list \<Rightarrow> parse_state \<Rightarrow> parse_result + parse_state" where
  "parse_args [] st = Inr st"
| "parse_args (arg # rest) st =
     (if arg = ''--help'' \<or> arg = ''-h'' then
        parse_args rest (st\<lparr> parsed_options := (parsed_options st)\<lparr> show_help := True \<rparr> \<rparr>)
      else if arg = ''--host'' then parse_args rest (st\<lparr> saw_host := True \<rparr>)
      else if arg = ''--client'' then parse_args rest (st\<lparr> saw_client := True \<rparr>)
      else if arg = ''--state-dir'' then
        (if saw_state_dir st then Inl (parse_error ''Repeated option: --state-dir'' st)
         else case rest of
           [] \<Rightarrow> Inl (parse_error ''Missing value for --state-dir'' st)
         | v # rest' \<Rightarrow>
             parse_args rest' (st\<lparr> saw_state_dir := True, parsed_options := (parsed_options st)\<lparr> state_dir := Some v \<rparr> \<rparr>))
      else if arg = ''--host-uid'' then
        (if saw_host_uid st then Inl (parse_error ''Repeated option: --host-uid'' st)
         else case rest of
           [] \<Rightarrow> Inl (parse_error ''Missing value for --host-uid'' st)
         | v # rest' \<Rightarrow>
             parse_args rest' (st\<lparr> saw_host_uid := True, parsed_options := (parsed_options st)\<lparr> host_uid_prefill := Some v \<rparr> \<rparr>))
      else if IsRetiredFlag arg then
        Inl (parse_error (''Unsupported option: '' @ arg @ '' (use --host/--client and --host-uid)'') st)
      else Inl (parse_error (''Unknown option: '' @ arg) st))"

definition ParseChatLaunchOptions :: "string list \<Rightarrow> parse_result" where
  "ParseChatLaunchOptions args = (case parse_args args parse_start of
     Inl r \<Rightarrow> r
   | Inr st \<Rightarrow>
       if show_help (parsed_options st) then \<lparr> parse_ok = True, parse_options = parsed_options st, error_message = [] \<rparr>
       else if saw_host st \<and> saw_client st then parse_error ''Specify exactly one of --host or --client'' st
       else if \<not> saw_host st \<and> \<not> saw_client st then parse_error ''Specify --host or --client'' st
       else let st = st\<lparr> parsed_options := (parsed_options st)\<lparr> launch_role := (if saw_host st then kHost else kClient) \<rparr> \<rparr> in
         if host_uid_prefill (parsed_options st) \<noteq> None \<and> launch_role (parsed_options st) \<noteq> kClient
         then parse_error ''--host-uid is allowed only with --client'' st
         else \<lparr> parse_ok = True, parse_options = parsed_options st, error_message = [] \<rparr>)"

lemma parse_args_errors: "parse_args args st = Inl r \<Longrightarrow> \<not> parse_ok r \<and> error_message r \<noteq> []"
  by (induction args st rule: parse_args.induct) (auto simp: parse_error_def split: if_splits list.splits)

text \<open>A refused command line names its error; an accepted one asks for help or has exactly one role, and a prefilled host
  only as a client.\<close>

lemma launch_options_checked:
  "let r = ParseChatLaunchOptions args in
     if parse_ok r then error_message r = [] \<and>
       (show_help (parse_options r) \<or> launch_role (parse_options r) = kClient \<or>
        launch_role (parse_options r) = kHost \<and> host_uid_prefill (parse_options r) = None)
     else error_message r \<noteq> []"
  using parse_args_errors [of args parse_start]
  by (auto simp: ParseChatLaunchOptions_def parse_error_def Let_def split: sum.splits)

text \<open>DefaultChatExampleStateDir outside Windows: the two environment variables and the current directory, as path components.\<close>

definition DefaultChatExampleStateDir :: "string list option \<Rightarrow> string list option \<Rightarrow> string list \<Rightarrow> demo_role \<Rightarrow> string list" where
  "DefaultChatExampleStateDir xdg home current role =
     (let root = (case xdg of
        Some p \<Rightarrow> p
      | None \<Rightarrow> (case home of Some p \<Rightarrow> p @ [''.local'', ''share''] | None \<Rightarrow> current)) in
      root @ [''App Traverse'', ''ChatExample'', if role = kClient then ''client'' else ''host''])"

section \<open>The receive binding of the byte transport\<close>

text \<open>The shared binding while the transport lives, the tasks it dispatched, and the receiver calls made, oldest first.  A
  task is a frame; \<open>None\<close> as receiver is a null function.\<close>

record 'r receive_binding =
  binding_alive :: bool
  binding_active :: bool
  receiver :: "'r option"
  frame_callback :: bool                        \<comment> \<open>the endpoint still has the callback\<close>
  model_tasks :: "(string \<times> u8 list) list"
  receiver_calls :: "('r \<times> string \<times> u8 list) list"

definition AetherByteTransport_new :: "'r receive_binding" where
  "AetherByteTransport_new = \<lparr> binding_alive = True, binding_active = True, receiver = None, frame_callback = True, model_tasks = [],
     receiver_calls = [] \<rparr>"

definition on_frame :: "string \<Rightarrow> u8 list \<Rightarrow> 'r receive_binding \<Rightarrow> 'r receive_binding" where
  "on_frame source bytes b =
     (if \<not> frame_callback b then b
      else if \<not> binding_alive b then b
      else if \<not> binding_active b then b
      else b\<lparr> model_tasks := model_tasks b @ [(source, bytes)] \<rparr>)"

text \<open>The model thread runs the oldest task.\<close>

definition run_model_task :: "'r receive_binding \<Rightarrow> 'r receive_binding" where
  "run_model_task b = (case model_tasks b of
     [] \<Rightarrow> b
   | t # ts \<Rightarrow>
       let b = b\<lparr> model_tasks := ts \<rparr> in
       if \<not> binding_alive b then b
       else if \<not> binding_active b then b
       else case receiver b of None \<Rightarrow> b | Some r \<Rightarrow> b\<lparr> receiver_calls := receiver_calls b @ [(r, t)] \<rparr>)"

definition Aether_BindReceive :: "'r \<Rightarrow> 'r receive_binding \<Rightarrow> 'r receive_binding" where
  "Aether_BindReceive r b = (if \<not> binding_alive b \<or> \<not> binding_active b then b else b\<lparr> receiver := Some r \<rparr>)"

definition Aether_ClearReceive :: "'r receive_binding \<Rightarrow> 'r receive_binding" where
  "Aether_ClearReceive b = (if \<not> binding_alive b then b else b\<lparr> receiver := None \<rparr>)"

definition destroy_transport :: "'r receive_binding \<Rightarrow> 'r receive_binding" where
  "destroy_transport b = b\<lparr> frame_callback := False, binding_active := False, receiver := None, binding_alive := False \<rparr>"

datatype 'r binding_op = Op_frame string "u8 list" | Op_task | Op_bind 'r | Op_clear | Op_destroy

fun binding_step :: "'r binding_op \<Rightarrow> 'r receive_binding \<Rightarrow> 'r receive_binding" where
  "binding_step (Op_frame source bytes) b = on_frame source bytes b"
| "binding_step Op_task b = run_model_task b"
| "binding_step (Op_bind r) b = Aether_BindReceive r b"
| "binding_step Op_clear b = Aether_ClearReceive b"
| "binding_step Op_destroy b = destroy_transport b"

text \<open>Once the transport is gone no receiver is called, whatever frames and tasks are still on their way.\<close>

lemma gone_transport_calls_nobody:
  "receiver_calls (fold binding_step ops (destroy_transport b)) = receiver_calls b"
proof -
  have "\<not> binding_alive c \<Longrightarrow> receiver_calls (fold binding_step ops c) = receiver_calls c" for c :: "'a receive_binding"
  proof (induction ops arbitrary: c)
    case (Cons a ops)
    then have "\<not> binding_alive (binding_step a c) \<and> receiver_calls (binding_step a c) = receiver_calls c"
      by (cases a) (auto simp: on_frame_def run_model_task_def Aether_BindReceive_def Aether_ClearReceive_def destroy_transport_def Let_def split: list.split)
    then show ?case using Cons.IH by simp
  qed simp
  then show ?thesis by (simp add: destroy_transport_def)
qed

text \<open>A receiver is called for a frame only if it was bound when the task ran: after Aether_ClearReceive the waiting frames are lost.\<close>

lemma cleared_receiver_gets_nothing:
  "receiver_calls (run_model_task (Aether_ClearReceive b)) = receiver_calls b"
  by (auto simp: run_model_task_def Aether_ClearReceive_def Let_def split: list.split option.split)

end
