(* ===== verification/ChatLoop.thy ===== *)
theory ChatLoop
  imports ChatNetwork ChatTheorems
begin

text \<open>
  The frame of ThreadMain (src/examples/chat_demo/runtime/chat_session.cpp) around the handlers: what the worker sets up from
  the stored profile and the configuration before the network starts, and one turn of the main loop.
\<close>

section \<open>Setting up\<close>

definition kLocalWorkspaceRootId :: obj_id where "kLocalWorkspaceRootId = 10001"

text \<open>A node as its factory makes it.\<close>

definition fresh_node :: "aether \<Rightarrow> nat option \<Rightarrow> obj_id \<Rightarrow> 's \<Rightarrow> ('s, 'e, 's) node" where
  "fresh_node ae d i s = \<lparr> node_obj_id = i, node_domain = d, materialized = s, base = null_ptr ae, base_layer = None, journal = [],
     generation = 1, applied_journal_size = kJournalFullyMaterialized, journal_retention_policy = default_retention,
     journal_compaction_blocked = False, suppress_materialized_change = False, materialized_change_fn = False, notifications = 0 \<rparr>"

text \<open>Ids and clock readings of the set-up; the two domains are those of the model and of the runtime state.\<close>

record setup_env =
  su_workspace_base :: obj_id
  su_runtime :: obj_id
  su_runtime_base :: obj_id
  su_domain :: nat
  su_runtime_domain :: nat
  su_role :: commit_env
  su_prefill :: commit_env

text \<open>The stored profile: none, one whose load throws, or its graph.\<close>

datatype stored_profile = No_profile | Unreadable string | Profile chat_graph

definition other_state_dir :: string where
  "other_state_dir = '' Choose another --state-dir; the existing directory was not modified.''"

definition open_workspace :: "session_env \<Rightarrow> setup_env \<Rightarrow> stored_profile \<Rightarrow> (string + command_state) option" where
  "open_workspace env su stored = (case stored of
     Unreadable what \<Rightarrow> Some (Inl (what @ other_state_dir))
   | Profile g \<Rightarrow> Some (Inr \<lparr> cs_graph = g, cs_saved = [], cs_persist = True \<rparr>)
   | No_profile \<Rightarrow> do {
       n \<leftarrow> InitializeRuntimeNode (workspace_ops (sv_chat env)) True (new_workspace (se_ae env)) (su_workspace_base su)
         (fresh_node (se_ae env) (Some (su_domain su)) kLocalWorkspaceRootId (new_workspace (se_ae env)));
       let g = \<lparr> cg_workspace = n, cg_entries = (\<lambda>i. None), cg_rooms = (\<lambda>i. None) \<rparr>;
       Some (Inr \<lparr> cs_graph = g, cs_saved = [g], cs_persist = True \<rparr>) })"

definition new_worker :: "aether \<Rightarrow> command_state \<Rightarrow> runtime_node \<Rightarrow> chat_status \<Rightarrow> u64 \<Rightarrow> worker_state" where
  "new_worker ae st rt status serial = \<lparr> wk_cmd = st, wk_runtime = rt, wk_has_endpoint = False, wk_sync = None, wk_my_uid = [],
     wk_aether_ready = False, wk_identity_conflict = False, wk_network_epoch = 0, wk_remote_presence = (\<lambda>p. None),
     wk_waiting_entry = (\<lambda>p. None), wk_publication_dirty = False, wk_processed_edit_revisions = (\<lambda>i. None), wk_pending_select_ack = None,
     wk_retry_in_progress = False, wk_join_sched_attempt = ae_null ae, wk_join_frozen = [], wk_join_start = 0, wk_join_last_send = None,
     wk_projected = None, wk_status = status, wk_status_serial = serial, wk_effects = [] \<rparr>"

text \<open>Every room of a chat keeps its whole journal.\<close>

definition block_room :: "session_env \<Rightarrow> chat_entry \<Rightarrow> worker_state \<Rightarrow> worker_state" where
  "block_room env entry w =
     (if \<not> ae_valid (se_ae env) (entry_room entry) then w
      else case cg_rooms (cs_graph (wk_cmd w)) (entry_room entry) of
        None \<Rightarrow> w
      | Some room \<Rightarrow> w\<lparr> wk_cmd := (wk_cmd w)\<lparr> cs_graph := (cs_graph (wk_cmd w))\<lparr>
          cg_rooms := (cg_rooms (cs_graph (wk_cmd w)))(entry_room entry \<mapsto> SetJournalCompactionBlocked True room) \<rparr> \<rparr> \<rparr>)"

definition block_rooms :: "session_env \<Rightarrow> worker_state \<Rightarrow> worker_state" where
  "block_rooms env w = fold (block_room env) (chat_nodes env w) w"

text \<open>\<open>Inl\<close> is the text of the exception, \<open>None\<close> a failed assertion.  The network is started afterwards.\<close>

definition set_up ::
  "session_env \<Rightarrow> setup_env \<Rightarrow> demo_role \<Rightarrow> string option \<Rightarrow> stored_profile \<Rightarrow> chat_status \<Rightarrow> u64 \<Rightarrow> (string + worker_state) option" where
  "set_up env su role host_uid_prefill stored status serial = do {
     opened \<leftarrow> open_workspace env su stored;
     case opened of
       Inl what \<Rightarrow> Some (Inl what)
     | Inr st \<Rightarrow> do {
         rt \<leftarrow> InitializeRuntimeNode (runtime_ops env) True (new_runtime_state (se_ae env)) (su_runtime_base su)
           (fresh_node (se_ae env) (Some (su_runtime_domain su)) (su_runtime su) (new_runtime_state (se_ae env)));
         let w = new_worker (se_ae env) st rt status serial;
         (ok, w) \<leftarrow> command (ConfigureDemoRole (sv_chat env) (su_role su) role) w;
         if \<not> ok then Some (Inl (''This profile is already configured for a different Host/Client role.'' @ other_state_dir))
         else do {
           (r, w) \<leftarrow> (case host_uid_prefill of
               Some uid \<Rightarrow> if demo_role (wk_workspace w) = kClient then command (SetHostUidInput (sv_chat env) (su_prefill su) uid) w else Some (True, w)
             | None \<Rightarrow> Some (True, w));
           let w = UpdateStatus (\<lambda>s. s\<lparr> st_demo_role := demo_role (wk_workspace w), st_host_uid_input := host_uid_input (wk_workspace w) \<rparr>) w;
           Some (Inr ((block_rooms env w)\<lparr> wk_network_epoch := 1 \<rparr>)) } } }"

section \<open>One turn\<close>

definition update_projection :: "session_env \<Rightarrow> worker_state \<Rightarrow> worker_state" where
  "update_projection env w =
     (let (bootstrap, delivery) = refresh_sync_projection env w in
      if st_room_bootstrap (wk_status w) \<noteq> bootstrap \<or> st_delivery (wk_status w) \<noteq> delivery
      then UpdateStatus (\<lambda>s. s\<lparr> st_room_bootstrap := bootstrap, st_delivery := delivery \<rparr>) w else w)"

definition loop_pass ::
  "session_env \<Rightarrow> commit_env \<Rightarrow> (session_effect \<Rightarrow> room_node \<Rightarrow> room_node) \<Rightarrow> int \<Rightarrow> (string \<Rightarrow> int) \<times> worker_state \<Rightarrow>
   ((string \<Rightarrow> int) \<times> worker_state) option" where
  "loop_pass env cenv sync now rw = do {
     let (retry, w) = drive_sync env sync now rw;
     let w = (if wk_sync w \<noteq> None \<and> \<not> wk_identity_conflict w then update_projection env w else w);
     w \<leftarrow> drive_join_send env cenv now w;
     Some (retry, project_demo_status False w) }"


section \<open>What the set-up leaves\<close>

lemma fresh_node_initialized:
  assumes "i \<noteq> j" "\<not> ae_valid ae (ae_null ae)"
  shows "\<exists>n. InitializeRuntimeNode (chat_ops can app matches missing) True s i (fresh_node ae (Some d) j s) = Some n \<and> materialized n = s \<and>
    journal n = [] \<and> node_inv (chat_ops can app matches missing) id n"
  using assms
  by (auto simp: InitializeRuntimeNode_def CaptureBaseStateInto_def Let_def fresh_node_def node_inv_def node_live_def
      is_loaded_def journal_sorted_def shared_ids_def consistent_def assert_that_def null_ptr_def split: Option.bind_splits if_splits)

lemma fresh_runtime:
  assumes "i \<noteq> j" "\<not> ae_valid (se_ae env) (ae_null (se_ae env))"
  shows "\<exists>n. InitializeRuntimeNode (runtime_ops env) True s i (fresh_node (se_ae env) (Some d) j s) = Some n \<and> materialized n = s \<and>
    journal n = [] \<and> node_inv (runtime_ops env) id n"
  unfolding runtime_ops_def by (rule fresh_node_initialized [OF assms])

lemma block_room_other:
  "cg_workspace (cs_graph (wk_cmd (block_room env entry w))) = cg_workspace (cs_graph (wk_cmd w))"
  "cg_entries (cs_graph (wk_cmd (block_room env entry w))) = cg_entries (cs_graph (wk_cmd w))"
  "wk_runtime (block_room env entry w) = wk_runtime w" "wk_status (block_room env entry w) = wk_status w"
  "wk_effects (block_room env entry w) = wk_effects w"
  by (simp_all add: block_room_def split: option.split)

lemma block_rooms_other [simp]:
  "cg_workspace (cs_graph (wk_cmd (block_rooms env w))) = cg_workspace (cs_graph (wk_cmd w))"
  "cg_entries (cs_graph (wk_cmd (block_rooms env w))) = cg_entries (cs_graph (wk_cmd w))"
  "wk_runtime (block_rooms env w) = wk_runtime w" "wk_status (block_rooms env w) = wk_status w"
  "wk_effects (block_rooms env w) = wk_effects w"
proof -
  have "cg_workspace (cs_graph (wk_cmd (fold (block_room env) es w))) = cg_workspace (cs_graph (wk_cmd w)) \<and>
      cg_entries (cs_graph (wk_cmd (fold (block_room env) es w))) = cg_entries (cs_graph (wk_cmd w)) \<and>
      wk_runtime (fold (block_room env) es w) = wk_runtime w \<and> wk_status (fold (block_room env) es w) = wk_status w \<and>
      wk_effects (fold (block_room env) es w) = wk_effects w" for es
    by (induction es arbitrary: w) (simp_all add: block_room_other)
  then show "cg_workspace (cs_graph (wk_cmd (block_rooms env w))) = cg_workspace (cs_graph (wk_cmd w))"
    "cg_entries (cs_graph (wk_cmd (block_rooms env w))) = cg_entries (cs_graph (wk_cmd w))"
    "wk_runtime (block_rooms env w) = wk_runtime w" "wk_status (block_rooms env w) = wk_status w"
    "wk_effects (block_rooms env w) = wk_effects w"
    by (simp_all add: block_rooms_def)
qed

definition room_blocked :: "session_env \<Rightarrow> worker_state \<Rightarrow> chat_entry \<Rightarrow> bool" where
  "room_blocked env w entry \<longleftrightarrow> (\<forall>room. ae_valid (se_ae env) (entry_room entry) \<longrightarrow>
     cg_rooms (cs_graph (wk_cmd w)) (entry_room entry) = Some room \<longrightarrow> journal_compaction_blocked room)"

lemma block_room_blocks: "room_blocked env (block_room env entry w) entry"
  by (auto simp: room_blocked_def block_room_def SetJournalCompactionBlocked_def split: option.split)

lemma block_room_keeps: "room_blocked env w e \<Longrightarrow> room_blocked env (block_room env entry w) e"
  by (auto simp: room_blocked_def block_room_def SetJournalCompactionBlocked_def split: option.split)

lemma block_rooms_blocks:
  assumes "e \<in> set (chat_nodes env w)"
  shows "room_blocked env (block_rooms env w) e"
proof -
  have keep: "room_blocked env w e \<Longrightarrow> room_blocked env (fold (block_room env) es w) e" for es w
    by (induction es arbitrary: w) (auto intro: block_room_keeps)
  have "e \<in> set es \<Longrightarrow> room_blocked env (fold (block_room env) es w) e" for es w
    by (induction es arbitrary: w) (auto intro: keep block_room_blocks)
  then show ?thesis using assms by (simp add: block_rooms_def)
qed

lemma chat_nodes_block [simp]: "chat_nodes env (block_rooms env w) = chat_nodes env w"
  by (simp add: chat_nodes_def cong: if_cong)

lemma chat_nodes_epoch [simp]: "chat_nodes env (w\<lparr> wk_network_epoch := k \<rparr>) = chat_nodes env w"
  by (simp add: chat_nodes_def cong: if_cong)

lemma command_some: "command f w = Some (r, w') \<Longrightarrow> \<exists>c. f (wk_cmd w) = Some (r, c) \<and> w' = w\<lparr> wk_cmd := c \<rparr>"
  by (auto simp: command_def Option.bind_eq_Some_conv)

lemma configure_some:
  assumes "ConfigureDemoRole env cenv role st = Some (ok, st')" "nodes_ok env (Suc k) (cs_graph st)"
  shows "(ok \<longrightarrow> role \<in> {kHost, kClient} \<and> demo_role (workspace_of st') = role \<and> demo_role (workspace_of st) \<in> {kUnconfigured, role} \<and>
    chats (workspace_of st') = chats (workspace_of st) \<and> nodes_ok env k (cs_graph st')) \<and>
    (\<not> ok \<longrightarrow> st' = st)"
proof -
  have m: "nodes_ok env k (cs_graph st)" by (rule nodes_ok_mono [OF assms(2)]) simp
  show ?thesis using assms m
    by (auto simp: ConfigureDemoRole_def Option.bind_eq_Some_conv dest!: commit_workspace_some split: if_splits)
qed

lemma prefill_some:
  assumes "SetHostUidInput env cenv uid st = Some (r, st')" "nodes_ok env (Suc k) (cs_graph st)"
  shows "demo_role (workspace_of st') = demo_role (workspace_of st) \<and> chats (workspace_of st') = chats (workspace_of st)"
  using assms by (auto simp: SetHostUidInput_def Option.bind_eq_Some_conv dest!: commit_workspace_some split: if_splits)


text \<open>A profile of the other role is refused with the exception, before anything was changed or stored.  When the set-up ends, the
  worker has the requested role, the profile had it or none, its chats are those of the profile, no join is under way,
  no room of a chat may be compacted, and only the UI was told anything.\<close>

theorem profile_keeps_its_role:
  assumes ids: "su_runtime_base su \<noteq> su_runtime su" "\<not> ae_valid (se_ae env) (ae_null (se_ae env))"
    and ok: "nodes_ok (sv_chat env) 2 g"
  shows "(demo_role (materialized (cg_workspace g)) \<notin> {kUnconfigured, role} \<longrightarrow>
      set_up env su role host_uid_prefill (Profile g) status serial =
        Some (Inl (''This profile is already configured for a different Host/Client role.'' @ other_state_dir))) \<and>
    (set_up env su role host_uid_prefill (Profile g) status serial = Some (Inr w) \<longrightarrow>
      role \<in> {kHost, kClient} \<and> demo_role (wk_workspace w) = role \<and> st_demo_role (wk_status w) = role \<and>
      chats (wk_workspace w) = chats (materialized (cg_workspace g)) \<and>
      join_phase (wk_rt w) = kIdle \<and> node_inv (runtime_ops env) id (wk_runtime w) \<and> journal (wk_runtime w) = [] \<and>
      (\<forall>entry\<in>set (chat_nodes env w). room_blocked env w entry) \<and> wk_effects w = [NotifyUi])"
proof -
  let ?st = "\<lparr> cs_graph = g, cs_saved = [], cs_persist = True \<rparr>"
  obtain rt where rt: "InitializeRuntimeNode (runtime_ops env) True (new_runtime_state (se_ae env)) (su_runtime_base su)
      (fresh_node (se_ae env) (Some (su_runtime_domain su)) (su_runtime su) (new_runtime_state (se_ae env))) = Some rt"
    and r: "materialized rt = new_runtime_state (se_ae env)" "journal rt = []" "node_inv (runtime_ops env) id rt"
    using fresh_runtime [OF ids] by blast
  let ?w = "new_worker (se_ae env) ?st rt status serial"
  have cmd: "wk_cmd ?w = ?st" "wk_runtime ?w = rt" by (simp_all add: new_worker_def)
  have refuse: "set_up env su role host_uid_prefill (Profile g) status serial =
      Some (Inl (''This profile is already configured for a different Host/Client role.'' @ other_state_dir))"
    if "demo_role (materialized (cg_workspace g)) \<notin> {kUnconfigured, role}"
  proof -
    have "ConfigureDemoRole (sv_chat env) (su_role su) role ?st = Some (False, ?st)" using that by (auto simp: ConfigureDemoRole_def)
    then have "command (ConfigureDemoRole (sv_chat env) (su_role su) role) ?w = Some (False, ?w)" by (simp add: command_def cmd new_worker_def)
    then show ?thesis using rt by (simp add: set_up_def open_workspace_def Let_def)
  qed
  have set: "role \<in> {kHost, kClient} \<and> demo_role (wk_workspace w) = role \<and> st_demo_role (wk_status w) = role \<and>
      chats (wk_workspace w) = chats (materialized (cg_workspace g)) \<and> wk_runtime w = rt \<and>
      (\<forall>entry\<in>set (chat_nodes env w). room_blocked env w entry) \<and> wk_effects w = [NotifyUi]"
    if s: "set_up env su role host_uid_prefill (Profile g) status serial = Some (Inr w)"
  proof -
    obtain ok w1 where c1: "command (ConfigureDemoRole (sv_chat env) (su_role su) role) ?w = Some (ok, w1)"
      using s rt by (auto simp: set_up_def open_workspace_def Let_def Option.bind_eq_Some_conv)
    have ok: "ok" using s rt c1 by (cases ok) (auto simp: set_up_def open_workspace_def Let_def)
    obtain st1 where st1: "ConfigureDemoRole (sv_chat env) (su_role su) role ?st = Some (ok, st1)" "w1 = ?w\<lparr> wk_cmd := st1 \<rparr>"
      using command_some [OF c1] by (auto simp: cmd)
    have o1: "nodes_ok (sv_chat env) (Suc 1) (cs_graph ?st)" using assms(3) by (simp add: numeral_2_eq_2)
    have w1: "role \<in> {kHost, kClient}" "demo_role (workspace_of st1) = role" "chats (workspace_of st1) = chats (materialized (cg_workspace g))"
        "nodes_ok (sv_chat env) 1 (cs_graph st1)"
      using configure_some [OF st1(1) o1] ok by auto
    obtain r2 w2 where c2: "(case host_uid_prefill of
        Some uid \<Rightarrow> if demo_role (wk_workspace w1) = kClient then command (SetHostUidInput (sv_chat env) (su_prefill su) uid) w1 else Some (True, w1)
      | None \<Rightarrow> Some (True, w1)) = Some (r2, w2)"
      and w: "w = (block_rooms env (UpdateStatus (\<lambda>s. s\<lparr> st_demo_role := demo_role (wk_workspace w2), st_host_uid_input := host_uid_input (wk_workspace w2) \<rparr>) w2))
        \<lparr> wk_network_epoch := 1 \<rparr>"
      using s rt c1 ok by (auto simp: set_up_def open_workspace_def Let_def Option.bind_eq_Some_conv)
    have "demo_role (wk_workspace w2) = role \<and> chats (wk_workspace w2) = chats (materialized (cg_workspace g)) \<and> wk_runtime w2 = rt \<and> wk_effects w2 = []"
    proof (cases "w2 = w1")
      case True
      then show ?thesis using w1 st1(2) by (simp add: new_worker_def)
    next
      case False
      then obtain uid where c3: "command (SetHostUidInput (sv_chat env) (su_prefill su) uid) w1 = Some (r2, w2)"
        using c2 by (auto split: option.splits if_splits)
      obtain st2 where st2: "SetHostUidInput (sv_chat env) (su_prefill su) uid (wk_cmd w1) = Some (r2, st2)" "w2 = w1\<lparr> wk_cmd := st2 \<rparr>"
        using command_some [OF c3] by blast
      have "nodes_ok (sv_chat env) (Suc 0) (cs_graph (wk_cmd w1))" using w1(4) st1(2) by simp
      then show ?thesis using prefill_some [OF st2(1)] st2(2) w1 st1(2) by (simp add: new_worker_def)
    qed
    moreover have "\<forall>entry\<in>set (chat_nodes env w). room_blocked env w entry"
      using block_rooms_blocks unfolding w by (simp add: room_blocked_def)
    ultimately show ?thesis using w1(1) unfolding w by (simp add: UpdateStatus_def effect_def)
  qed
  have "join_phase (wk_rt w) = kIdle \<and> node_inv (runtime_ops env) id (wk_runtime w) \<and> journal (wk_runtime w) = []" if "wk_runtime w = rt"
    using r by (simp only: that new_runtime_state_def runtime_state.simps simp_thms)
  then show ?thesis using refuse set by blast
qed


text \<open>The profile of the samples is that of a client.\<close>

lemma profile_keeps_its_role_witness:
  "\<forall>status. (\<exists>what. set_up \<lparr> sv_chat = sample_chat_env, sv_archive = sample_archive, sv_uid = \<lparr> uid_string_valid = (\<lambda>s. True), uid_empty = (\<lambda>s. False), uid_format = id \<rparr>,
      sv_missing_runtime = id \<rparr> \<lparr> su_workspace_base = 1, su_runtime = 2, su_runtime_base = 3, su_domain = 0, su_runtime_domain = 1,
      su_role = sample_cenv, su_prefill = sample_cenv \<rparr> kHost None (Profile sample_graph) status 0 = Some (Inl what))"
proof -
  let ?env = "\<lparr> sv_chat = sample_chat_env, sv_archive = sample_archive, sv_uid = \<lparr> uid_string_valid = (\<lambda>s. True), uid_empty = (\<lambda>s. False), uid_format = id \<rparr>,
      sv_missing_runtime = id \<rparr>"
  let ?su = "\<lparr> su_workspace_base = 1, su_runtime = 2, su_runtime_base = 3, su_domain = 0, su_runtime_domain = 1,
      su_role = sample_cenv, su_prefill = sample_cenv \<rparr>"
  have ids: "su_runtime_base ?su \<noteq> su_runtime ?su" "\<not> ae_valid (se_ae ?env) (ae_null (se_ae ?env))"
    by (simp_all add: sample_chat_env_def sample_aether_def)
  have "nodes_ok sample_chat_env 100 sample_graph" using sample_graph_ok by (simp add: graph_ok_def)
  then have ok: "nodes_ok (sv_chat ?env) 2 sample_graph" by (simp add: nodes_ok_mono [of _ 100])
  have "demo_role (materialized (cg_workspace sample_graph)) = kClient"
    by (simp add: sample_graph_def lifecycle_sample_def sample_workspace_def)
  then show ?thesis using profile_keeps_its_role [OF ids ok, of kHost None _ 0] by simp
qed

end
