(* ===== verification/Channel.thy ===== *)
theory Channel
  imports Prelude
begin

text \<open>
  The publication channel between the model thread and the GUI thread
  (src/include/apptraverse/publication_channel.h): the byte sink and source, the operations of
  PublicationChannel as the source composes them, and the two threads interleaved at their atomic
  accesses.  The producer's steps are those of UiMirror::Publish (src/src/ui_mirror.cpp), the
  consumer's those of TakePublished followed by ReleaseConsumer.  The atomics use acquire loads and
  release or acq_rel stores on two variables that each thread reads in the order in which the other
  writes them, so the steps are interleaved in one total order.
\<close>

section \<open>Sink and source\<close>

type_synonym byte_sink = bytes

definition ByteSink_write :: "byte_sink \<Rightarrow> bytes \<Rightarrow> byte_sink" where
  "ByteSink_write sink data = sink @ data"

definition ByteSink_clear :: "byte_sink \<Rightarrow> byte_sink" where
  "ByteSink_clear sink = []"

record byte_source =
  src_data :: bytes
  src_pos :: nat
  src_ok :: bool

definition byte_source :: "bytes \<Rightarrow> byte_source" where
  "byte_source data = \<lparr> src_data = data, src_pos = 0, src_ok = True \<rparr>"

text \<open>A failed read zero-fills its target and leaves the source failed.\<close>

definition ByteSource_read :: "byte_source \<Rightarrow> nat \<Rightarrow> bytes \<times> byte_source" where
  "ByteSource_read src n =
     (if \<not> src_ok src \<or> src_pos src + n > length (src_data src)
      then (replicate n 0, src\<lparr> src_ok := False \<rparr>)
      else (take n (drop (src_pos src) (src_data src)), src\<lparr> src_pos := src_pos src + n \<rparr>))"

lemma ByteSource_read_failed [simp]:
  "\<not> src_ok src \<Longrightarrow> ByteSource_read src n = (replicate n 0, src)"
  by (simp add: ByteSource_read_def)

lemma ByteSource_read_length [simp]: "length (fst (ByteSource_read src n)) = n"
  by (auto simp: ByteSource_read_def)

lemma ByteSource_read_data [simp]: "src_data (snd (ByteSource_read src n)) = src_data src"
  by (simp add: ByteSource_read_def)

section \<open>The channel\<close>

record channel =
  buffers :: "byte_sink list"
  published :: int
  in_ui :: int
  publish_count :: u64
  producer :: int

definition PublicationChannel :: "nat \<Rightarrow> channel" where
  "PublicationChannel n = \<lparr> buffers = replicate n [], published = -1, in_ui = -1, publish_count = 0,
     producer = 0 \<rparr>"

text \<open>The scan of AcquireProducer for the first slot that neither side owns.\<close>

definition free_slot :: "nat \<Rightarrow> int \<Rightarrow> int \<Rightarrow> nat option" where
  "free_slot n p u = find (\<lambda>i. int i \<noteq> p \<and> int i \<noteq> u) [0..<n]"

definition claim_slot :: "nat \<Rightarrow> channel \<Rightarrow> channel" where
  "claim_slot i ch = ch\<lparr> producer := int i, buffers := (buffers ch)[i := ByteSink_clear (buffers ch ! i)] \<rparr>"

text \<open>\<open>None\<close> is the assertion that a free slot exists.\<close>

definition AcquireProducer :: "channel \<Rightarrow> (nat \<times> channel) option" where
  "AcquireProducer ch =
     (case free_slot (length (buffers ch)) (published ch) (in_ui ch) of
        Some i \<Rightarrow> Some (i, claim_slot i ch)
      | None \<Rightarrow> None)"

definition has_unread_published :: "channel \<Rightarrow> bool" where
  "has_unread_published ch \<longleftrightarrow> published ch \<ge> 0"

definition is_publication_busy :: "channel \<Rightarrow> bool" where
  "is_publication_busy ch \<longleftrightarrow> published ch \<ge> 0 \<or> in_ui ch \<ge> 0"

definition PublishProducer :: "channel \<Rightarrow> channel option" where
  "PublishProducer ch = (if published ch = -1 then Some (ch\<lparr> published := producer ch \<rparr>) else None)"

definition ReleaseConsumer :: "channel \<Rightarrow> channel" where
  "ReleaseConsumer ch = ch\<lparr> in_ui := -1 \<rparr>"

definition TakePublished :: "channel \<Rightarrow> nat option \<times> channel" where
  "TakePublished ch =
     (let idx = published ch in
      if idx < 0 then (None, ch)
      else if in_ui ch \<noteq> -1 then (None, ch)
      else let ch = ch\<lparr> in_ui := idx \<rparr> in
        if published ch \<noteq> idx then (None, ch\<lparr> in_ui := -1 \<rparr>)
        else (Some (nat idx), ch\<lparr> published := -1 \<rparr>))"

definition TakePublishedCopy :: "channel \<Rightarrow> bytes \<times> channel" where
  "TakePublishedCopy ch =
     (case TakePublished ch of
        (None, ch) \<Rightarrow> ([], ch)
      | (Some i, ch) \<Rightarrow> (buffers ch ! i, ReleaseConsumer ch))"

definition NotePublished :: "channel \<Rightarrow> channel" where
  "NotePublished ch = ch\<lparr> publish_count := publish_count ch + 1 \<rparr>"

section \<open>Two threads\<close>

text \<open>Where each thread stands between two of its atomic accesses.\<close>

datatype producer_pc =
    PIdle
  | PUnread                      \<comment> \<open>has_unread_published() was false\<close>
  | PLoadedPublished int
  | PLoadedBoth int int
  | PWriting
  | PAborted                     \<comment> \<open>an assertion of the channel failed\<close>

datatype consumer_pc =
    CIdle
  | CLoaded int
  | CMarked int
  | CHolding int

text \<open>The two histories record what was published and what the consumer was handed.\<close>

record duo =
  chan :: channel
  ppc :: producer_pc
  cpc :: consumer_pc
  pub_log :: "bytes list"
  taken_log :: "bytes list"

definition duo_init :: "nat \<Rightarrow> duo" where
  "duo_init n = \<lparr> chan = PublicationChannel n, ppc = PIdle, cpc = CIdle, pub_log = [], taken_log = [] \<rparr>"

inductive duo_step :: "duo \<Rightarrow> duo \<Rightarrow> bool" where
  check_unread: "ppc s = PIdle \<Longrightarrow> \<not> has_unread_published (chan s) \<Longrightarrow> duo_step s (s\<lparr> ppc := PUnread \<rparr>)"
| load_published: "ppc s = PUnread \<Longrightarrow> duo_step s (s\<lparr> ppc := PLoadedPublished (published (chan s)) \<rparr>)"
| load_in_ui: "ppc s = PLoadedPublished p \<Longrightarrow> duo_step s (s\<lparr> ppc := PLoadedBoth p (in_ui (chan s)) \<rparr>)"
| claim: "ppc s = PLoadedBoth p u \<Longrightarrow> free_slot (length (buffers (chan s))) p u = Some i \<Longrightarrow>
    duo_step s (s\<lparr> ppc := PWriting, chan := claim_slot i (chan s) \<rparr>)"
| exhausted: "ppc s = PLoadedBoth p u \<Longrightarrow> free_slot (length (buffers (chan s))) p u = None \<Longrightarrow>
    duo_step s (s\<lparr> ppc := PAborted \<rparr>)"
| put_data: "ppc s = PWriting \<Longrightarrow> i = nat (producer (chan s)) \<Longrightarrow>
    duo_step s (s\<lparr> chan := (chan s)\<lparr> buffers := (buffers (chan s))[i := ByteSink_write (buffers (chan s) ! i) data] \<rparr> \<rparr>)"
| publish: "ppc s = PWriting \<Longrightarrow> PublishProducer (NotePublished (chan s)) = Some ch \<Longrightarrow>
    duo_step s (s\<lparr> ppc := PIdle, chan := ch,
      pub_log := pub_log s @ [buffers (chan s) ! nat (producer (chan s))] \<rparr>)"
| overwrite: "ppc s = PWriting \<Longrightarrow> PublishProducer (NotePublished (chan s)) = None \<Longrightarrow>
    duo_step s (s\<lparr> ppc := PAborted \<rparr>)"
| take_load: "cpc s = CIdle \<Longrightarrow> published (chan s) \<ge> 0 \<Longrightarrow>
    duo_step s (s\<lparr> cpc := CLoaded (published (chan s)) \<rparr>)"
| take_mark: "cpc s = CLoaded idx \<Longrightarrow> in_ui (chan s) = -1 \<Longrightarrow>
    duo_step s (s\<lparr> cpc := CMarked idx, chan := (chan s)\<lparr> in_ui := idx \<rparr> \<rparr>)"
| take_mark_fail: "cpc s = CLoaded idx \<Longrightarrow> in_ui (chan s) \<noteq> -1 \<Longrightarrow> duo_step s (s\<lparr> cpc := CIdle \<rparr>)"
| take_clear: "cpc s = CMarked idx \<Longrightarrow> published (chan s) = idx \<Longrightarrow>
    duo_step s (s\<lparr> cpc := CHolding idx, chan := (chan s)\<lparr> published := -1 \<rparr>,
      taken_log := taken_log s @ [buffers (chan s) ! nat idx] \<rparr>)"
| take_clear_fail: "cpc s = CMarked idx \<Longrightarrow> published (chan s) \<noteq> idx \<Longrightarrow>
    duo_step s (s\<lparr> cpc := CIdle, chan := (chan s)\<lparr> in_ui := -1 \<rparr> \<rparr>)"
| release: "cpc s = CHolding idx \<Longrightarrow> duo_step s (s\<lparr> cpc := CIdle, chan := ReleaseConsumer (chan s) \<rparr>)"

text \<open>What holds at each position of the two threads.\<close>

definition slots_ok :: "nat \<Rightarrow> channel \<Rightarrow> bool" where
  "slots_ok n ch \<longleftrightarrow> length (buffers ch) = n \<and> -1 \<le> published ch \<and> published ch < int n \<and>
     -1 \<le> in_ui ch \<and> in_ui ch < int n \<and> 0 \<le> producer ch \<and> producer ch < int n"

fun consumer_ok :: "duo \<Rightarrow> bool" where
  "consumer_ok s = (case cpc s of
     CIdle \<Rightarrow> in_ui (chan s) = -1
   | CLoaded i \<Rightarrow> in_ui (chan s) = -1 \<and> published (chan s) = i \<and> 0 \<le> i
   | CMarked i \<Rightarrow> in_ui (chan s) = i \<and> published (chan s) = i \<and> 0 \<le> i
   | CHolding i \<Rightarrow> in_ui (chan s) = i \<and> published (chan s) \<noteq> i \<and> 0 \<le> i \<and>
       taken_log s \<noteq> [] \<and> buffers (chan s) ! nat i = last (taken_log s))"

fun producer_ok :: "duo \<Rightarrow> bool" where
  "producer_ok s = (case ppc s of
     PIdle \<Rightarrow> True
   | PUnread \<Rightarrow> published (chan s) = -1
   | PLoadedPublished p \<Rightarrow> published (chan s) = -1 \<and> p = -1
   | PLoadedBoth p u \<Rightarrow> published (chan s) = -1 \<and> p = -1 \<and> in_ui (chan s) \<in> {u, -1} \<and> -1 \<le> u
   | PWriting \<Rightarrow> published (chan s) = -1 \<and> in_ui (chan s) \<noteq> producer (chan s)
   | PAborted \<Rightarrow> False)"

definition unread :: "channel \<Rightarrow> bytes list" where
  "unread ch = (if published ch < 0 then [] else [buffers ch ! nat (published ch)])"

definition duo_inv :: "nat \<Rightarrow> duo \<Rightarrow> bool" where
  "duo_inv n s \<longleftrightarrow> slots_ok n (chan s) \<and> consumer_ok s \<and> producer_ok s \<and>
     pub_log s = taken_log s @ unread (chan s)"

lemma free_slot_exists:
  assumes "3 \<le> n"
  shows "\<exists>i. free_slot n p u = Some i"
proof -
  have "\<exists>i\<in>set [0..<n]. int i \<noteq> p \<and> int i \<noteq> u"
  proof (rule ccontr)
    assume none: "\<not> ?thesis"
    have "{0, 1, 2} \<subseteq> set [0..<n]" using assms by auto
    then have "int ` {0, 1, 2} \<subseteq> {p, u}" using none by auto
    then have "card (int ` {0, 1, 2 :: nat}) \<le> card {p, u}" by (intro card_mono) auto
    moreover have "card (int ` {0, 1, 2 :: nat}) = 3" by simp
    moreover have "card {p, u} \<le> 2" by (simp add: card_insert_if)
    ultimately show False by simp
  qed
  then show ?thesis unfolding free_slot_def
    by (cases "find (\<lambda>i. int i \<noteq> p \<and> int i \<noteq> u) [0..<n]") (auto simp: find_None_iff)
qed

lemma free_slotD: "free_slot n p u = Some i \<Longrightarrow> i < n \<and> int i \<noteq> p \<and> int i \<noteq> u"
  unfolding free_slot_def by (auto simp: find_Some_iff)

lemma duo_inv_init: "0 < n \<Longrightarrow> duo_inv n (duo_init n)"
  by (simp add: duo_inv_def duo_init_def slots_ok_def PublicationChannel_def unread_def)

lemmas duo_defs = duo_inv_def slots_ok_def unread_def claim_slot_def PublishProducer_def
  NotePublished_def ReleaseConsumer_def has_unread_published_def

lemma duo_inv_step:
  assumes "duo_step s t" "duo_inv n s" "3 \<le> n"
  shows "duo_inv n t"
  using assms(1)
proof (cases rule: duo_step.cases)
  case (claim p u i)
  have "i < n \<and> int i \<noteq> p \<and> int i \<noteq> u"
    using claim assms(2) by (auto simp: duo_defs dest: free_slotD)
  then show ?thesis using claim assms(2)
    by (auto simp: duo_defs nth_list_update split: consumer_pc.splits)
next
  case (exhausted p u)
  then show ?thesis using free_slot_exists [OF assms(3), of p u] assms(2) by (auto simp: duo_defs)
next
  case (put_data i data)
  then show ?thesis using assms(2)
    by (auto simp: duo_defs nth_list_update split: consumer_pc.splits)
next
  case (take_clear idx)
  then show ?thesis using assms(2)
    by (auto simp: duo_defs split: producer_pc.splits)
next
  case (publish ch)
  then show ?thesis using assms(2)
    by (auto simp: duo_defs split: consumer_pc.splits if_splits)
qed (use assms(2) in \<open>auto simp: duo_defs split: producer_pc.splits consumer_pc.splits if_splits\<close>)

inductive duo_reachable :: "nat \<Rightarrow> duo \<Rightarrow> bool" for n where
  init: "duo_reachable n (duo_init n)"
| step: "duo_reachable n s \<Longrightarrow> duo_step s t \<Longrightarrow> duo_reachable n t"

lemma duo_reachable_inv: "duo_reachable n s \<Longrightarrow> 3 \<le> n \<Longrightarrow> duo_inv n s"
  by (induction rule: duo_reachable.induct) (auto intro: duo_inv_init duo_inv_step)

section \<open>Safety of the two threads\<close>

text \<open>C6. With at least three slots, in every reachable interleaving: no assertion of the channel fails, a
  slot the consumer holds is neither published nor the one the producer writes, and it still contains
  exactly the bytes that were published in it.\<close>

theorem publication_slots_safe:
  assumes "duo_reachable n s" "3 \<le> n"
  shows "ppc s \<noteq> PAborted \<and>
    (\<forall>i. cpc s = CHolding i \<longrightarrow> published (chan s) \<noteq> i \<and> (ppc s = PWriting \<longrightarrow> producer (chan s) \<noteq> i) \<and>
      taken_log s \<noteq> [] \<and> buffers (chan s) ! nat i = last (taken_log s))"
  using duo_reachable_inv [OF assms] by (auto simp: duo_inv_def)

text \<open>Publications are handed over in order, each once, and none is lost: what was published is what
  the consumer was handed followed by the publication it has not taken yet, of which there is at most one.\<close>

theorem publications_delivered_once:
  assumes "duo_reachable n s" "3 \<le> n"
  shows "pub_log s = taken_log s @ unread (chan s) \<and> length (unread (chan s)) \<le> 1 \<and>
    (has_unread_published (chan s) \<longleftrightarrow> unread (chan s) \<noteq> [])"
  using duo_reachable_inv [OF assms] by (auto simp: duo_inv_def unread_def has_unread_published_def)

text \<open>A run of three slots: the producer publishes two bytes, the consumer takes them.\<close>

definition sample_duo :: duo where
  "sample_duo = \<lparr> chan = \<lparr> buffers = [[1, 2], [], []], published = -1, in_ui = 0, publish_count = 1, producer = 0 \<rparr>,
     ppc = PIdle, cpc = CHolding 0, pub_log = [[1, 2]], taken_log = [[1, 2]] \<rparr>"

definition sample_published :: duo where
  "sample_published = \<lparr> chan = \<lparr> buffers = [[1, 2], [], []], published = 0, in_ui = -1, publish_count = 1, producer = 0 \<rparr>,
     ppc = PIdle, cpc = CIdle, pub_log = [[1, 2]], taken_log = [] \<rparr>"

lemma upt_three: "[0..<3] = [0, 1, 2 :: nat]"
  by (simp add: upt_rec)

lemmas duo_run_simps = duo_init_def PublicationChannel_def has_unread_published_def free_slot_def claim_slot_def
  ByteSink_clear_def ByteSink_write_def PublishProducer_def NotePublished_def upt_three numeral_3_eq_3

lemma sample_published_reachable: "duo_reachable 3 sample_published"
proof -
  have r1: "duo_reachable 3 ((duo_init 3)\<lparr> ppc := PUnread \<rparr>)"
    by (rule duo_reachable.step [OF duo_reachable.init duo_step.check_unread]) (simp_all add: duo_run_simps)
  have r2: "duo_reachable 3 ((duo_init 3)\<lparr> ppc := PLoadedPublished (-1) \<rparr>)"
    using duo_reachable.step [OF r1 duo_step.load_published] by (simp add: duo_run_simps)
  have r3: "duo_reachable 3 ((duo_init 3)\<lparr> ppc := PLoadedBoth (-1) (-1) \<rparr>)"
    using duo_reachable.step [OF r2 duo_step.load_in_ui] by (simp add: duo_run_simps)
  have r4: "duo_reachable 3 ((duo_init 3)\<lparr> ppc := PWriting \<rparr>)"
    using duo_reachable.step [OF r3 duo_step.claim [of _ "-1" "-1" 0]] by (simp add: duo_run_simps)
  have r5: "duo_reachable 3 ((duo_init 3)\<lparr> ppc := PWriting, chan := (chan (duo_init 3))\<lparr> buffers := [[1, 2], [], []] \<rparr> \<rparr>)"
    using duo_reachable.step [OF r4 duo_step.put_data [of _ 0 "[1, 2]"]] by (simp add: duo_run_simps)
  show ?thesis
    using duo_reachable.step [OF r5 duo_step.publish] by (simp add: duo_run_simps sample_published_def)
qed

lemma sample_duo_reachable: "duo_reachable 3 sample_duo"
proof -
  have r1: "duo_reachable 3 (sample_published\<lparr> cpc := CLoaded 0 \<rparr>)"
    using duo_reachable.step [OF sample_published_reachable duo_step.take_load] by (simp add: sample_published_def)
  have r2: "duo_reachable 3 (sample_published\<lparr> cpc := CMarked 0, chan := (chan sample_published)\<lparr> in_ui := 0 \<rparr> \<rparr>)"
    using duo_reachable.step [OF r1 duo_step.take_mark [of _ 0]] by (simp add: sample_published_def)
  show ?thesis
    using duo_reachable.step [OF r2 duo_step.take_clear [of _ 0]] by (simp add: sample_published_def sample_duo_def)
qed

lemma publication_slots_safe_witness:
  "cpc sample_duo = CHolding 0 \<and> buffers (chan sample_duo) ! 0 = [1, 2] \<and> ppc sample_duo \<noteq> PAborted"
  using publication_slots_safe [OF sample_duo_reachable] by (simp add: sample_duo_def)

lemma publications_delivered_once_witness:
  "pub_log sample_published = taken_log sample_published @ [[1, 2]]"
  using publications_delivered_once [OF sample_published_reachable] by (simp add: sample_published_def unread_def)

end
