(* ===== verification/ChatPublication.thy ===== *)
theory ChatPublication
  imports ChatJoin Channel
begin

text \<open>
  The publications and status updates that the chat session hands to the GUI (src/examples/chat_demo/runtime/chat_session.cpp:
  publish_now_unlocked, publish_now, the publication pass of the main loop, TryTakeUiUpdate).  A publication and its metadata
  are one step, under \<open>publication_mu_\<close>; the status is taken under its own lock, so the worker may act between the two halves
  of TryTakeUiUpdate.  The serialized bytes are an argument.
\<close>

section \<open>State\<close>

datatype publication_kind = Publication_Initial | Publication_Structural

record publication_meta =
  pm_kind :: publication_kind
  pm_serial :: u64
  pm_edit_revisions :: "obj_id \<Rightarrow> u64 option"
  pm_selected_chat_ack :: "obj_id option"

record ui_side =
  ui_channel :: channel
  ui_meta :: "publication_meta option"
  ui_next_serial :: u64
  ui_last_status_serial :: u64
  ui_worker :: worker_state
  ui_published :: "(publication_meta \<times> bytes) list"    \<comment> \<open>every publication, in order\<close>
  ui_taken :: "(publication_meta \<times> bytes) list"        \<comment> \<open>every publication the GUI took, in order\<close>

definition new_ui_side :: "worker_state \<Rightarrow> ui_side" where
  "new_ui_side w = \<lparr> ui_channel = PublicationChannel 3, ui_meta = None, ui_next_serial = 1, ui_last_status_serial = 0, ui_worker = w,
     ui_published = [], ui_taken = [] \<rparr>"

section \<open>The worker publishes\<close>

definition publish_now_unlocked :: "bytes \<Rightarrow> bool \<Rightarrow> ui_side \<Rightarrow> ui_side option" where
  "publish_now_unlocked bs is_initial u = do {
     assert_that (\<not> is_publication_busy (ui_channel u));
     (i, ch) \<leftarrow> AcquireProducer (ui_channel u);
     let ch = NotePublished (ch\<lparr> buffers := (buffers ch)[i := ByteSink_write (buffers ch ! i) bs] \<rparr>);
     let w = ui_worker u;
     let meta = \<lparr> pm_kind = (if is_initial then Publication_Initial else Publication_Structural), pm_serial = ui_next_serial u,
       pm_edit_revisions = wk_processed_edit_revisions w, pm_selected_chat_ack = wk_pending_select_ack w \<rparr>;
     ch \<leftarrow> PublishProducer ch;
     Some (u\<lparr> ui_channel := ch, ui_meta := Some meta, ui_next_serial := ui_next_serial u + 1,
       ui_worker := effect NotifyUi (w\<lparr> wk_pending_select_ack := None \<rparr>), ui_published := ui_published u @ [(meta, bs)] \<rparr>) }"

definition publish_now :: "bytes \<Rightarrow> bool \<Rightarrow> ui_side \<Rightarrow> ui_side option" where
  "publish_now bs is_initial u =
     (if is_publication_busy (ui_channel u) then Some (u\<lparr> ui_worker := mark_dirty (ui_worker u) \<rparr>)
      else do {
        u \<leftarrow> publish_now_unlocked bs is_initial u;
        Some (u\<lparr> ui_worker := (ui_worker u)\<lparr> wk_publication_dirty := False \<rparr> \<rparr>) })"

text \<open>The pass of the loop: a busy slot leaves the publication dirty.\<close>

definition publish_dirty :: "bytes \<Rightarrow> ui_side \<Rightarrow> ui_side option" where
  "publish_dirty bs u =
     (if wk_publication_dirty (ui_worker u) \<and> \<not> is_publication_busy (ui_channel u) then do {
        u \<leftarrow> publish_now_unlocked bs False u;
        Some (u\<lparr> ui_worker := (ui_worker u)\<lparr> wk_publication_dirty := False \<rparr> \<rparr>) }
      else Some u)"

section \<open>The GUI takes\<close>

text \<open>The first half of TryTakeUiUpdate; \<open>None\<close> is the assertion that a published slot has metadata.\<close>

definition take_publication :: "ui_side \<Rightarrow> ((publication_meta \<times> bytes) option \<times> ui_side) option" where
  "take_publication u =
     (if \<not> has_unread_published (ui_channel u) then Some (None, u)
      else let (bs, ch) = TakePublishedCopy (ui_channel u) in
        case ui_meta u of
          None \<Rightarrow> None
        | Some meta \<Rightarrow> Some (Some (meta, bs), u\<lparr> ui_channel := ch, ui_meta := None, ui_taken := ui_taken u @ [(meta, bs)] \<rparr>))"

text \<open>The second half: the status with the pending copy, when it changed or comes with a publication.\<close>

definition take_status :: "bool \<Rightarrow> ui_side \<Rightarrow> (chat_status \<times> (obj_id \<times> string) option) option \<times> ui_side" where
  "take_status have_publication u =
     (let w = ui_worker u; s = wk_status w; taken_w = w\<lparr> wk_status := s\<lparr> st_pending_copy := None \<rparr> \<rparr> in
      if wk_status_serial w \<noteq> ui_last_status_serial u
      then (Some (s, st_pending_copy s), u\<lparr> ui_last_status_serial := wk_status_serial w, ui_worker := taken_w \<rparr>)
      else if have_publication then (Some (s, st_pending_copy s), u\<lparr> ui_worker := taken_w \<rparr>)
      else (None, u))"

definition TryTakeUiUpdate ::
  "(ui_side \<Rightarrow> ui_side) \<Rightarrow> ui_side \<Rightarrow>
   (((publication_meta \<times> bytes) option \<times> (chat_status \<times> (obj_id \<times> string) option)) option \<times> ui_side) option" where
  "TryTakeUiUpdate between u = do {
     (p, u) \<leftarrow> take_publication u;
     let (s, u) = take_status (p \<noteq> None) (between u);
     Some (case s of None \<Rightarrow> None | Some st \<Rightarrow> Some (p, st), u) }"

section \<open>Interleavings\<close>

text \<open>What else the worker does: update the status, or change anything but the status.\<close>

inductive ui_step :: "ui_side \<Rightarrow> ui_side \<Rightarrow> bool" where
  publish: "publish_now bs is_initial u = Some u' \<Longrightarrow> ui_step u u'"
| pass: "publish_dirty bs u = Some u' \<Longrightarrow> ui_step u u'"
| update: "ui_step u (u\<lparr> ui_worker := UpdateStatus f (ui_worker u) \<rparr>)"
| work: "wk_status w = wk_status (ui_worker u) \<Longrightarrow> wk_status_serial w = wk_status_serial (ui_worker u) \<Longrightarrow> ui_step u (u\<lparr> ui_worker := w \<rparr>)"
| take_pub: "take_publication u = Some (p, u') \<Longrightarrow> ui_step u u'"
| take_stat: "take_status have_p u = (s, u') \<Longrightarrow> ui_step u u'"

inductive ui_reachable :: "worker_state \<Rightarrow> ui_side \<Rightarrow> bool" for w where
  init: "ui_reachable w (new_ui_side w)"
| step: "ui_reachable w u \<Longrightarrow> ui_step u u' \<Longrightarrow> ui_reachable w u'"

definition publications_counted :: "(publication_meta \<times> bytes) list \<Rightarrow> bool" where
  "publications_counted ps \<longleftrightarrow> map (pm_serial \<circ> fst) ps = map of_nat [1..<Suc (length ps)]"

lemma counted_simps [simp]: "publications_counted []" "publications_counted (ps @ [x]) \<longleftrightarrow> publications_counted ps \<and> pm_serial (fst x) = of_nat (Suc (length ps))"
  by (auto simp: publications_counted_def simp del: of_nat_Suc)

definition waiting :: "channel \<Rightarrow> publication_meta option \<Rightarrow> (publication_meta \<times> bytes) list" where
  "waiting ch meta = (case meta of None \<Rightarrow> [] | Some m \<Rightarrow> [(m, buffers ch ! nat (published ch))])"

definition idle_channel :: "channel \<Rightarrow> bool" where
  "idle_channel ch \<longleftrightarrow> length (buffers ch) = 3 \<and> in_ui ch = -1 \<and> (published ch = -1 \<or> 0 \<le> published ch \<and> published ch < 3)"

definition ui_inv :: "ui_side \<Rightarrow> bool" where
  "ui_inv u \<longleftrightarrow> idle_channel (ui_channel u) \<and> ui_published u = ui_taken u @ waiting (ui_channel u) (ui_meta u) \<and>
     (ui_meta u = None \<longleftrightarrow> published (ui_channel u) = -1) \<and> publications_counted (ui_published u) \<and>
     ui_next_serial u = of_nat (Suc (length (ui_published u)))"

lemma ui_inv_worker [simp]: "ui_inv (u\<lparr> ui_worker := w \<rparr>) = ui_inv u" "ui_inv (u\<lparr> ui_last_status_serial := s \<rparr>) = ui_inv u"
  "ui_inv (u\<lparr> ui_last_status_serial := s, ui_worker := w \<rparr>) = ui_inv u"
  by (simp_all add: ui_inv_def)

lemma publish_unlocked_inv:
  assumes "ui_inv u" "\<not> is_publication_busy (ui_channel u)"
  shows "\<exists>u'. publish_now_unlocked bs is_initial u = Some u' \<and> ui_inv u'"
proof -
  have c: "length (buffers (ui_channel u)) = 3" "in_ui (ui_channel u) = -1" "published (ui_channel u) = -1" "ui_meta u = None"
    using assms by (auto simp: ui_inv_def idle_channel_def is_publication_busy_def)
  have f: "free_slot 3 (-1) (-1) = Some 0" by (simp add: free_slot_def upt_three)
  have "ui_published u = ui_taken u" "publications_counted (ui_taken u)" "ui_next_serial u = of_nat (Suc (length (ui_taken u)))"
    using assms(1) c by (auto simp: ui_inv_def waiting_def simp del: of_nat_Suc)
  then show ?thesis
    using c f
    by (simp add: publish_now_unlocked_def is_publication_busy_def AcquireProducer_def claim_slot_def NotePublished_def PublishProducer_def
        ByteSink_clear_def ByteSink_write_def ui_inv_def idle_channel_def waiting_def Let_def)
qed

lemma take_publication_inv:
  assumes "ui_inv u"
  shows "\<exists>p u'. take_publication u = Some (p, u') \<and> ui_inv u'"
proof (cases "ui_meta u")
  case None
  then show ?thesis using assms by (auto simp: take_publication_def has_unread_published_def ui_inv_def)
next
  case (Some meta)
  then have c: "0 \<le> published (ui_channel u)" "in_ui (ui_channel u) = -1"
    using assms by (auto simp: ui_inv_def idle_channel_def)
  have t: "TakePublishedCopy (ui_channel u) = (buffers (ui_channel u) ! nat (published (ui_channel u)), (ui_channel u)\<lparr> in_ui := -1, published := -1 \<rparr>)"
    using c by (simp add: TakePublishedCopy_def TakePublished_def ReleaseConsumer_def Let_def)
  show ?thesis
    using assms Some c
    by (simp add: take_publication_def has_unread_published_def t) (auto simp: ui_inv_def waiting_def idle_channel_def simp del: of_nat_Suc)
qed

lemma publish_now_inv: "ui_inv u \<Longrightarrow> \<exists>u'. publish_now bs is_initial u = Some u' \<and> ui_inv u'"
  using publish_unlocked_inv [of u bs is_initial] by (auto simp: publish_now_def)

lemma publish_dirty_inv: "ui_inv u \<Longrightarrow> \<exists>u'. publish_dirty bs u = Some u' \<and> ui_inv u'"
  using publish_unlocked_inv [of u bs False] by (auto simp: publish_dirty_def)

lemma take_status_inv: "ui_inv u \<Longrightarrow> take_status have_p u = (s, u') \<Longrightarrow> ui_inv u'"
  by (auto simp: take_status_def Let_def split: if_splits)

lemma ui_step_inv:
  assumes "ui_step u u'" "ui_inv u"
  shows "ui_inv u'"
  using assms(1)
proof (cases rule: ui_step.cases)
  case (publish bs is_initial)
  then show ?thesis using publish_now_inv [OF assms(2), of bs is_initial] by auto
next
  case (pass bs)
  then show ?thesis using publish_dirty_inv [OF assms(2), of bs] by auto
next
  case (take_pub p)
  then show ?thesis using take_publication_inv [OF assms(2)] by auto
next
  case (take_stat have_p s)
  then show ?thesis using take_status_inv [OF assms(2)] by blast
qed (use assms(2) in simp_all)

lemma ui_reachable_inv: "ui_reachable w u \<Longrightarrow> ui_inv u"
proof (induction rule: ui_reachable.induct)
  case init
  show ?case by (simp add: ui_inv_def new_ui_side_def PublicationChannel_def idle_channel_def waiting_def)
qed (rule ui_step_inv)

text \<open>C21. In every interleaving of the worker and the GUI: no assertion of a publication or of taking one fails; what the GUI has
  taken is what was published, metadata with its own bytes, in order, once each, at most the last one waiting; and the
  serials count the publications from 1.\<close>

theorem publications_keep_their_metadata:
  assumes "ui_reachable w u"
  shows "publish_now bs is_initial u \<noteq> None \<and> publish_dirty bs u \<noteq> None \<and> take_publication u \<noteq> None \<and>
    (\<exists>rest. ui_published u = ui_taken u @ rest \<and> length rest \<le> 1 \<and> (rest = [] \<longleftrightarrow> \<not> has_unread_published (ui_channel u))) \<and>
    map (pm_serial \<circ> fst) (ui_published u) = map of_nat [1..<Suc (length (ui_published u))]"
proof -
  have i: "ui_inv u" using assms by (rule ui_reachable_inv)
  have "length (waiting (ui_channel u) (ui_meta u)) \<le> 1"
    "waiting (ui_channel u) (ui_meta u) = [] \<longleftrightarrow> \<not> has_unread_published (ui_channel u)"
    using i by (auto simp: ui_inv_def idle_channel_def waiting_def has_unread_published_def split: option.splits)
  then have "\<exists>rest. ui_published u = ui_taken u @ rest \<and> length rest \<le> 1 \<and> (rest = [] \<longleftrightarrow> \<not> has_unread_published (ui_channel u))"
    using i unfolding ui_inv_def by blast
  moreover have "publications_counted (ui_published u)" using i unfolding ui_inv_def by blast
  ultimately show ?thesis
    using publish_now_inv [OF i, of bs is_initial] publish_dirty_inv [OF i, of bs] take_publication_inv [OF i] unfolding publications_counted_def by auto
qed


text \<open>A publication that was taken, and the one behind it that waits.\<close>

definition sample_meta :: "publication_kind \<Rightarrow> u64 \<Rightarrow> publication_meta" where
  "sample_meta kind serial = \<lparr> pm_kind = kind, pm_serial = serial, pm_edit_revisions = (\<lambda>_. None), pm_selected_chat_ack = None \<rparr>"

lemma sample_publications:
  "\<exists>u. ui_reachable sample_worker u \<and> ui_taken u = [(sample_meta Publication_Initial 1, [7])] \<and>
     ui_published u = [(sample_meta Publication_Initial 1, [7]), (sample_meta Publication_Structural 2, [8])] \<and> has_unread_published (ui_channel u)"
proof -
  note defs = publish_now_def publish_dirty_def publish_now_unlocked_def is_publication_busy_def AcquireProducer_def free_slot_def upt_three claim_slot_def
    NotePublished_def PublishProducer_def ByteSink_clear_def ByteSink_write_def new_ui_side_def PublicationChannel_def take_publication_def
    has_unread_published_def TakePublishedCopy_def TakePublished_def ReleaseConsumer_def sample_worker_def effect_def mark_dirty_def sample_meta_def Let_def
  obtain u1 where u1: "publish_now [7] True (new_ui_side sample_worker) = Some u1" by (simp add: defs)
  obtain p u2 where u2: "take_publication u1 = Some (p, u2)" using u1 by (auto simp: defs)
  let ?u3 = "u2\<lparr> ui_worker := mark_dirty (ui_worker u2) \<rparr>"
  obtain u4 where u4: "publish_dirty [8] ?u3 = Some u4" using u1 u2 by (auto simp: defs)
  have "ui_reachable sample_worker u1" by (rule ui_reachable.step [OF ui_reachable.init ui_step.publish [OF u1]])
  then have "ui_reachable sample_worker u2" by (rule ui_reachable.step [OF _ ui_step.take_pub [OF u2]])
  then have "ui_reachable sample_worker ?u3" by (rule ui_reachable.step [OF _ ui_step.work]) (simp_all add: mark_dirty_def)
  then have "ui_reachable sample_worker u4" by (rule ui_reachable.step [OF _ ui_step.pass [OF u4]])
  moreover have "ui_taken u4 = [(sample_meta Publication_Initial 1, [7])] \<and> has_unread_published (ui_channel u4) \<and>
      ui_published u4 = [(sample_meta Publication_Initial 1, [7]), (sample_meta Publication_Structural 2, [8])]"
    using u1 u2 u4 by (auto simp: defs)
  ultimately show ?thesis by blast
qed

lemma publications_keep_their_metadata_witness:
  "\<exists>u. ui_reachable sample_worker u \<and> take_publication u \<noteq> None \<and> length (ui_published u) = 2 \<and> length (ui_taken u) = 1 \<and>
     map (pm_serial \<circ> fst) (ui_published u) = [1, 2]"
proof -
  obtain u where u: "ui_reachable sample_worker u" "length (ui_taken u) = 1" "length (ui_published u) = 2"
    using sample_publications by force
  have "map (pm_serial \<circ> fst) (ui_published u) = map of_nat [1..<Suc 2]" "take_publication u \<noteq> None"
    using publications_keep_their_metadata [OF u(1), of "[]" True] unfolding u(3) by blast+
  moreover have "map of_nat [1..<Suc 2] = [1 :: u64, 2]" by (simp add: upt_rec)
  ultimately show ?thesis using u by metis
qed

end
