(* ===== verification/ChatQueue.thy ===== *)
theory ChatQueue
  imports Prelude
begin

text \<open>
  The work queue of the chat session (src/examples/chat_demo/runtime/chat_session.cpp: Start, RequestStop, Join, Enqueue*,
  DrainModelQueue, DiscardModelQueue and the frame of ThreadMain) as a transition system.  One step is one critical
  section of \<open>queue_mu_\<close> or one work; an exception may leave the worker at any work or pass.  \<open>'w\<close> are the works.
\<close>

section \<open>State\<close>

text \<open>Where the worker thread is: in the loop, in a batch it swapped out of the queue, in the two drains behind the loop,
  in the handler of an exception, or gone.  A batch knows what comes after it.\<close>

datatype after_batch = To_loop | To_shutdown | To_end

datatype 'w worker_pc =
    At_loop
  | In_batch after_batch "'w list"
  | At_shutdown                \<comment> \<open>the endpoint is stopped, DrainModelQueue\<close>
  | At_close                   \<comment> \<open>accepting_internal_delivery_ is cleared next\<close>
  | At_end                     \<comment> \<open>the last DrainModelQueue\<close>
  | At_failure                 \<comment> \<open>an exception was caught, DiscardModelQueue is next\<close>
  | At_finalize
  | Gone

record 'w session_queue =
  started :: bool
  stop_requested :: bool
  finished :: bool
  accepting_user :: bool
  accepting_internal :: bool
  work_queue :: "'w list"
  joinable :: bool
  worker :: "'w worker_pc"
  sq_accepted :: "'w list"     \<comment> \<open>every work taken since Start, in order\<close>
  sq_run :: "'w list"          \<comment> \<open>every work that was begun since Start, in order\<close>
  failed :: bool               \<comment> \<open>the worker left by an exception\<close>

definition ChatSession :: "'w session_queue" where
  "ChatSession = \<lparr> started = False, stop_requested = False, finished = False, accepting_user = False, accepting_internal = False,
     work_queue = [], joinable = False, worker = Gone, sq_accepted = [], sq_run = [], failed = False \<rparr>"

section \<open>The other threads\<close>

text \<open>\<open>None\<close> is \<open>std::terminate\<close>: a thread is assigned to a \<open>std::thread\<close> that is still joinable.\<close>

definition session_Start :: "'w session_queue \<Rightarrow> (bool \<times> 'w session_queue) option" where
  "session_Start q =
     (if started q then Some (False, q)
      else if joinable q then None
      else Some (True, q\<lparr> started := True, stop_requested := False, finished := False, accepting_user := True, accepting_internal := True,
        joinable := True, worker := At_loop, sq_accepted := work_queue q, sq_run := [], failed := False \<rparr>))"

definition session_RequestStop :: "'w session_queue \<Rightarrow> 'w session_queue" where
  "session_RequestStop q = (if \<not> started q \<or> stop_requested q then q else q\<lparr> stop_requested := True, accepting_user := False \<rparr>)"

text \<open>The join returns when the thread is gone.\<close>

definition session_Join :: "'w session_queue \<Rightarrow> 'w session_queue option" where
  "session_Join q = (if \<not> joinable q then Some q else if worker q = Gone then Some (q\<lparr> joinable := False \<rparr>) else None)"

definition EnqueueUserModelWork :: "'w \<Rightarrow> 'w session_queue \<Rightarrow> 'w session_queue" where
  "EnqueueUserModelWork w q =
     (if \<not> accepting_user q then q else q\<lparr> work_queue := work_queue q @ [w], sq_accepted := sq_accepted q @ [w] \<rparr>)"

definition EnqueueInternalModelWork :: "'w \<Rightarrow> 'w session_queue \<Rightarrow> 'w session_queue" where
  "EnqueueInternalModelWork w q =
     (if \<not> accepting_internal q then q else q\<lparr> work_queue := work_queue q @ [w], sq_accepted := sq_accepted q @ [w] \<rparr>)"

text \<open>The answer of Checkpoint and the queue after it; another thread may stop the session between the two locks.\<close>

definition session_Checkpoint :: "u64 \<Rightarrow> 'w \<Rightarrow> ('w session_queue \<Rightarrow> 'w session_queue) \<Rightarrow> 'w session_queue \<Rightarrow> bool \<times> 'w session_queue" where
  "session_Checkpoint request_id w between q =
     (if request_id = 0 then (False, q)
      else if \<not> accepting_user q then (False, q)
      else (True, EnqueueUserModelWork w (between q)))"

section \<open>The worker\<close>

text \<open>Where the worker goes with an empty queue.\<close>

fun after_drain :: "after_batch \<Rightarrow> 'w worker_pc" where
  "after_drain To_loop = At_loop"
| "after_drain To_shutdown = At_close"
| "after_drain To_end = At_finalize"

fun drain_point :: "after_batch \<Rightarrow> 'w worker_pc" where
  "drain_point To_loop = At_loop"
| "drain_point To_shutdown = At_shutdown"
| "drain_point To_end = At_end"

definition swap_out :: "after_batch \<Rightarrow> 'w session_queue \<Rightarrow> 'w session_queue" where
  "swap_out k q = q\<lparr> worker := In_batch k (work_queue q), work_queue := [] \<rparr>"

text \<open>One step of the worker without an exception; the passes of the loop are part of leaving the batch.\<close>

definition worker_step :: "'w session_queue \<Rightarrow> 'w session_queue option" where
  "worker_step q = (case worker q of
     At_loop \<Rightarrow> Some (if stop_requested q \<and> work_queue q = [] then q\<lparr> worker := At_shutdown \<rparr> else swap_out To_loop q)
   | In_batch k (w # ws) \<Rightarrow> Some (q\<lparr> worker := In_batch k ws, sq_run := sq_run q @ [w] \<rparr>)
   | In_batch k [] \<Rightarrow> Some (q\<lparr> worker := drain_point k \<rparr>)
   | At_shutdown \<Rightarrow> Some (if work_queue q = [] then q\<lparr> worker := At_close \<rparr> else swap_out To_shutdown q)
   | At_close \<Rightarrow> Some (q\<lparr> accepting_internal := False, worker := At_end \<rparr>)
   | At_end \<Rightarrow> Some (if work_queue q = [] then q\<lparr> worker := At_finalize \<rparr> else swap_out To_end q)
   | At_failure \<Rightarrow> Some (q\<lparr> work_queue := [], accepting_user := False, accepting_internal := False, worker := At_finalize \<rparr>)
   | At_finalize \<Rightarrow> Some (q\<lparr> started := False, finished := True, worker := Gone \<rparr>)
   | Gone \<Rightarrow> None)"

text \<open>An exception: the swapped-out works go with the stack frame.\<close>

definition worker_throw :: "'w session_queue \<Rightarrow> 'w session_queue option" where
  "worker_throw q = (case worker q of
     At_failure \<Rightarrow> None | At_finalize \<Rightarrow> None | Gone \<Rightarrow> None | _ \<Rightarrow> Some (q\<lparr> worker := At_failure, failed := True \<rparr>))"

inductive session_step :: "'w session_queue \<Rightarrow> 'w session_queue \<Rightarrow> bool" where
  start: "session_Start q = Some (started_now, q') \<Longrightarrow> session_step q q'"
| request: "session_step q (session_RequestStop q)"
| join: "session_Join q = Some q' \<Longrightarrow> session_step q q'"
| user: "session_step q (EnqueueUserModelWork w q)"
| internal: "session_step q (EnqueueInternalModelWork w q)"
| "worker": "worker_step q = Some q' \<Longrightarrow> session_step q q'"
| throw: "worker_throw q = Some q' \<Longrightarrow> session_step q q'"

inductive session_reachable :: "'w session_queue \<Rightarrow> bool" where
  init: "session_reachable ChatSession"
| step: "session_reachable q \<Longrightarrow> session_step q q' \<Longrightarrow> session_reachable q'"

section \<open>Invariant\<close>

fun in_batch :: "'w worker_pc \<Rightarrow> 'w list" where
  "in_batch (In_batch k ws) = ws"
| "in_batch _ = []"

text \<open>The worker has left the loop for good.\<close>

fun left_loop :: "'w worker_pc \<Rightarrow> bool" where
  "left_loop (In_batch k ws) \<longleftrightarrow> k \<noteq> To_loop"
| "left_loop At_loop \<longleftrightarrow> False"
| "left_loop At_failure \<longleftrightarrow> False"
| "left_loop _ \<longleftrightarrow> True"

fun closed :: "'w worker_pc \<Rightarrow> bool" where
  "closed (In_batch k ws) \<longleftrightarrow> k = To_end"
| "closed w \<longleftrightarrow> w \<in> {At_end, At_finalize, Gone}"

fun over :: "'w worker_pc \<Rightarrow> bool" where
  "over w \<longleftrightarrow> w = At_finalize \<or> w = Gone"

definition session_inv :: "'w session_queue \<Rightarrow> bool" where
  "session_inv q \<longleftrightarrow>
     (\<not> failed q \<longrightarrow> sq_accepted q = sq_run q @ in_batch (worker q) @ work_queue q) \<and>
     (\<exists>rest. sq_accepted q = sq_run q @ rest) \<and>
     (stop_requested q \<longrightarrow> \<not> accepting_user q) \<and>
     (left_loop (worker q) \<longrightarrow> \<not> accepting_user q) \<and>
     (closed (worker q) \<longrightarrow> \<not> accepting_internal q) \<and>
     (over (worker q) \<longrightarrow> work_queue q = []) \<and>
     (failed q \<longrightarrow> worker q \<in> {At_failure, At_finalize, Gone}) \<and> (worker q = At_failure \<longrightarrow> failed q) \<and>
     (started q \<longleftrightarrow> worker q \<noteq> Gone) \<and> (worker q \<noteq> Gone \<longrightarrow> joinable q)"

lemma session_inv_init: "session_inv ChatSession"
  by (simp add: session_inv_def ChatSession_def)

lemma worker_step_inv:
  assumes "session_inv q" "worker_step q = Some q'"
  shows "session_inv q'"
proof (cases "worker q")
  case (In_batch k ws)
  then show ?thesis using assms by (cases ws; cases k) (auto simp: worker_step_def session_inv_def)
qed (use assms in \<open>auto simp: worker_step_def session_inv_def swap_out_def split: if_splits\<close>)

lemma worker_throw_inv:
  assumes "session_inv q" "worker_throw q = Some q'"
  shows "session_inv q'"
  using assms by (cases "worker q") (auto simp: worker_throw_def session_inv_def)

lemma session_Start_inv:
  assumes "session_inv q" "session_Start q = Some (b, q')"
  shows "session_inv q'"
  using assms by (cases "worker q = Gone") (auto simp: session_Start_def session_inv_def split: if_splits)

lemma session_inv_step:
  assumes "session_step q q'" "session_inv q"
  shows "session_inv q'"
  using assms(1)
proof (cases rule: session_step.cases)
  case (start b)
  then show ?thesis using assms(2) session_Start_inv by blast
next
  case "worker"
  then show ?thesis using assms(2) worker_step_inv by blast
next
  case throw
  then show ?thesis using assms(2) worker_throw_inv by blast
next
  case (user w)
  then show ?thesis using assms(2) by (cases "worker q") (auto simp: EnqueueUserModelWork_def session_inv_def)
next
  case (internal w)
  then show ?thesis using assms(2) by (cases "worker q") (auto simp: EnqueueInternalModelWork_def session_inv_def)
next
  case request
  then show ?thesis using assms(2) by (auto simp: session_RequestStop_def session_inv_def)
next
  case join
  then show ?thesis using assms(2) by (auto simp: session_Join_def session_inv_def split: if_splits)
qed

lemma session_reachable_inv: "session_reachable q \<Longrightarrow> session_inv q"
  by (induction rule: session_reachable.induct) (auto simp: session_inv_init intro: session_inv_step)

text \<open>C20. In every interleaving of user threads, the endpoint and the worker: what has run is an initial part of what was accepted, in
  order and once each; as long as no exception ended the worker nothing accepted is missing from the batch and the
  queue; when the worker is gone without one, everything accepted has run; behind a stop no user command is taken, and
  behind the end nothing.\<close>

theorem session_work_runs_in_order:
  assumes "session_reachable q"
  shows "(\<exists>rest. sq_accepted q = sq_run q @ rest \<and> (\<not> failed q \<longrightarrow> rest = in_batch (worker q) @ work_queue q)) \<and>
    (worker q = Gone \<and> \<not> failed q \<longrightarrow> sq_run q = sq_accepted q) \<and>
    (stop_requested q \<or> worker q = Gone \<longrightarrow> EnqueueUserModelWork w q = q) \<and>
    (worker q = Gone \<longrightarrow> EnqueueInternalModelWork w q = q \<and> work_queue q = [])"
proof -
  have i: "session_inv q" using assms by (rule session_reachable_inv)
  then show ?thesis
    by (auto simp: session_inv_def EnqueueUserModelWork_def EnqueueInternalModelWork_def)
qed


text \<open>A session that takes one command, is stopped and ends.\<close>

definition sample_session :: "nat session_queue" where
  "sample_session = \<lparr> started = False, stop_requested = True, finished = True, accepting_user = False, accepting_internal = False,
     work_queue = [], joinable = True, worker = Gone, sq_accepted = [5], sq_run = [5], failed = False \<rparr>"

fun worker_steps :: "nat \<Rightarrow> 'w session_queue \<Rightarrow> 'w session_queue" where
  "worker_steps 0 q = q"
| "worker_steps (Suc k) q = (case worker_step q of Some q' \<Rightarrow> worker_steps k q' | None \<Rightarrow> q)"

lemma worker_steps_reachable: "session_reachable q \<Longrightarrow> session_reachable (worker_steps k q)"
  by (induction k arbitrary: q) (auto intro: session_reachable.step session_step.worker split: option.split)

lemma sample_session_reachable: "session_reachable sample_session"
proof -
  let ?q1 = "snd (the (session_Start (ChatSession :: nat session_queue)))"
  have "session_Start (ChatSession :: nat session_queue) = Some (True, ?q1)" by (simp add: session_Start_def ChatSession_def)
  then have "session_reachable ?q1" by (blast intro: session_reachable.intros session_step.start)
  then have "session_reachable (session_RequestStop (EnqueueUserModelWork 5 ?q1))"
    by (blast intro: session_reachable.step session_step.user session_step.request)
  then have "session_reachable (worker_steps 8 (session_RequestStop (EnqueueUserModelWork 5 ?q1)))" by (rule worker_steps_reachable)
  also have "worker_steps 8 (session_RequestStop (EnqueueUserModelWork 5 ?q1)) = sample_session"
    by (simp add: session_RequestStop_def EnqueueUserModelWork_def session_Start_def ChatSession_def worker_step_def swap_out_def
        eval_nat_numeral sample_session_def)
  finally show ?thesis .
qed

lemma session_work_runs_in_order_witness:
  "session_reachable sample_session \<and> sq_run sample_session = sq_accepted sample_session \<and> EnqueueUserModelWork 6 sample_session = sample_session"
  using sample_session_reachable session_work_runs_in_order [OF sample_session_reachable, of 6]
  by (simp add: sample_session_def)

end
