(* ===== verification/DemoSession.thy ===== *)
theory DemoSession
  imports Journal "HOL-Library.Sublist"
begin

text \<open>
  The model thread of the surfaces and of the dynamic objects (src/examples/surfaces_demo/common/surfaces_lifecycle.cpp,
  src/examples/dynamic_objects_demo/common/dynamic_lifecycle.cpp): posted works, the set of dirty nodes, and at most one
  publication on its way to the GUI.  One step is one critical section of \<open>mu\<close> with what the thread does behind it; the GUI
  takes and releases publications and posts works between any two steps.  \<open>'w\<close> are the works, \<open>'g\<close> the graphs and \<open>'b\<close> what a
  publication says of one node.  The log of what was accepted and has run is the model's.
\<close>

section \<open>State\<close>

text \<open>What the session calls: a work with the nodes whose notifier it calls, in order, whether a node is live, and the
  contents of a node.\<close>

record ('w, 'g, 'b) demo_env =
  de_run :: "'w \<Rightarrow> 'g \<Rightarrow> 'g \<times> u32 list"
  de_live :: "'g \<Rightarrow> u32 \<Rightarrow> bool"
  de_contents :: "'g \<Rightarrow> u32 \<Rightarrow> 'b"

datatype 'b demo_channel =
    Channel_free
  | Channel_published "u32 \<rightharpoonup> 'b"
  | Channel_in_ui "u32 \<rightharpoonup> 'b"

fun channel_busy :: "'b demo_channel \<Rightarrow> bool" where
  "channel_busy Channel_free = False"
| "channel_busy _ = True"

datatype 'w demo_pc =
    Demo_wait            \<comment> \<open>at the condition variable\<close>
  | Demo_work bool 'w    \<comment> \<open>a work popped; whether the session is draining\<close>
  | Demo_publish         \<comment> \<open>at the lock of the publication loop\<close>
  | Demo_found u32       \<comment> \<open>an id popped from the dirty nodes\<close>
  | Demo_save
  | Demo_end

record ('w, 'g, 'b) demo_session =
  ds_stop :: bool
  ds_pending :: "'w list"
  ds_dirty :: pending_dirty
  ds_channel :: "'b demo_channel"
  ds_graph :: 'g
  ds_pc :: "'w demo_pc"
  ds_saved :: "'g option"
  ds_shown :: "u32 \<rightharpoonup> 'b"
  ds_accepted :: "'w list"
  ds_executed :: "'w list"

section \<open>The other threads\<close>

definition Session_RequestStop :: "('w, 'g, 'b) demo_session \<Rightarrow> ('w, 'g, 'b) demo_session" where
  "Session_RequestStop s = s\<lparr> ds_stop := True \<rparr>"

definition Session_Post :: "'w \<Rightarrow> ('w, 'g, 'b) demo_session \<Rightarrow> ('w, 'g, 'b) demo_session" where
  "Session_Post w s = (if ds_stop s then s else s\<lparr> ds_pending := ds_pending s @ [w], ds_accepted := ds_accepted s @ [w] \<rparr>)"

text \<open>The GUI thread: it takes what is published, applies it and releases the buffer.\<close>

definition gui_takes :: "('w, 'g, 'b) demo_session \<Rightarrow> ('w, 'g, 'b) demo_session" where
  "gui_takes s = (case ds_channel s of
     Channel_published p \<Rightarrow> s\<lparr> ds_channel := Channel_in_ui p \<rparr>
   | Channel_in_ui p \<Rightarrow> s\<lparr> ds_channel := Channel_free, ds_shown := ds_shown s ++ p \<rparr>
   | Channel_free \<Rightarrow> s)"

section \<open>The model thread\<close>

text \<open>Loaded, bound to the dirty nodes, and the initial publication sent.\<close>

definition session_start :: "('w, 'g, 'b) demo_env \<Rightarrow> 'g \<Rightarrow> ('w, 'g, 'b) demo_session" where
  "session_start env g =
     \<lparr> ds_stop = False, ds_pending = [], ds_dirty = \<lparr> ordered = [], membership = {} \<rparr>,
       ds_channel = Channel_published (\<lambda>i. if de_live env g i then Some (de_contents env g i) else None),
       ds_graph = g, ds_pc = Demo_wait, ds_saved = None, ds_shown = Map.empty, ds_accepted = [], ds_executed = [] \<rparr>"

text \<open>The wait and what is taken when it ends; \<open>None\<close> is a thread that waits.\<close>

definition wait_and_take :: "('w, 'g, 'b) demo_session \<Rightarrow> ('w, 'g, 'b) demo_session option" where
  "wait_and_take s =
     (if ds_stop s then
        (case ds_pending s of
           [] \<Rightarrow> Some (s\<lparr> ds_pc := Demo_save \<rparr>)
         | w # ws \<Rightarrow> Some (s\<lparr> ds_pending := ws, ds_pc := Demo_work True w \<rparr>))
      else
        (case ds_pending s of
           w # ws \<Rightarrow> Some (s\<lparr> ds_pending := ws, ds_pc := Demo_work False w \<rparr>)
         | [] \<Rightarrow> if ordered (ds_dirty s) \<noteq> [] \<and> \<not> channel_busy (ds_channel s) then Some (s\<lparr> ds_pc := Demo_publish \<rparr>) else None))"

definition run_demo_work :: "('w, 'g, 'b) demo_env \<Rightarrow> bool \<Rightarrow> 'w \<Rightarrow> ('w, 'g, 'b) demo_session \<Rightarrow> ('w, 'g, 'b) demo_session" where
  "run_demo_work env draining w s =
     (let (g, ids) = de_run env w (ds_graph s) in
      s\<lparr> ds_graph := g, ds_dirty := fold PendingDirty_Note ids (ds_dirty s), ds_executed := ds_executed s @ [w],
        ds_pc := (if draining then Demo_wait else Demo_publish) \<rparr>)"

text \<open>The publication loop.  The surfaces test the same condition once more before it and read the live ids there, which no
  work changes while the loop runs.\<close>

definition pop_dirty :: "('w, 'g, 'b) demo_session \<Rightarrow> ('w, 'g, 'b) demo_session" where
  "pop_dirty s =
     (if ds_stop s \<or> channel_busy (ds_channel s) then s\<lparr> ds_pc := Demo_wait \<rparr>
      else case PendingDirty_PopFront (ds_dirty s) of
        None \<Rightarrow> s\<lparr> ds_pc := Demo_wait \<rparr>
      | Some (i, dirty) \<Rightarrow> s\<lparr> ds_dirty := dirty, ds_pc := Demo_found i \<rparr>)"

definition publish_found :: "('w, 'g, 'b) demo_env \<Rightarrow> u32 \<Rightarrow> ('w, 'g, 'b) demo_session \<Rightarrow> ('w, 'g, 'b) demo_session" where
  "publish_found env i s =
     (if \<not> de_live env (ds_graph s) i then s\<lparr> ds_pc := Demo_publish \<rparr>
      else s\<lparr> ds_channel := Channel_published [i \<mapsto> de_contents env (ds_graph s) i], ds_pc := Demo_publish \<rparr>)"

definition save_session :: "('w, 'g, 'b) demo_session \<Rightarrow> ('w, 'g, 'b) demo_session" where
  "save_session s = s\<lparr> ds_saved := Some (ds_graph s), ds_pc := Demo_end \<rparr>"

definition model_step :: "('w, 'g, 'b) demo_env \<Rightarrow> ('w, 'g, 'b) demo_session \<Rightarrow> ('w, 'g, 'b) demo_session option" where
  "model_step env s = (case ds_pc s of
     Demo_wait \<Rightarrow> wait_and_take s
   | Demo_work draining w \<Rightarrow> Some (run_demo_work env draining w s)
   | Demo_publish \<Rightarrow> Some (pop_dirty s)
   | Demo_found i \<Rightarrow> Some (publish_found env i s)
   | Demo_save \<Rightarrow> Some (save_session s)
   | Demo_end \<Rightarrow> None)"

inductive demo_step :: "('w, 'g, 'b) demo_env \<Rightarrow> ('w, 'g, 'b) demo_session \<Rightarrow> ('w, 'g, 'b) demo_session \<Rightarrow> bool" for env where
  post: "demo_step env s (Session_Post w s)"
| request: "demo_step env s (Session_RequestStop s)"
| gui: "demo_step env s (gui_takes s)"
| model: "model_step env s = Some s' \<Longrightarrow> demo_step env s s'"

inductive demo_reachable :: "('w, 'g, 'b) demo_env \<Rightarrow> 'g \<Rightarrow> ('w, 'g, 'b) demo_session \<Rightarrow> bool" for env g where
  start: "demo_reachable env g (session_start env g)"
| step: "demo_reachable env g s \<Longrightarrow> demo_step env s s' \<Longrightarrow> demo_reachable env g s'"

section \<open>Works\<close>

fun demo_in_hand :: "'w demo_pc \<Rightarrow> 'w list" where
  "demo_in_hand (Demo_work draining w) = [w]"
| "demo_in_hand pc = []"

definition run_works :: "('w, 'g, 'b) demo_env \<Rightarrow> 'w list \<Rightarrow> 'g \<Rightarrow> 'g" where
  "run_works env ws g = fold (\<lambda>w g. fst (de_run env w g)) ws g"

definition works_ok :: "('w, 'g, 'b) demo_env \<Rightarrow> 'g \<Rightarrow> ('w, 'g, 'b) demo_session \<Rightarrow> bool" where
  "works_ok env g s \<longleftrightarrow> ds_accepted s = ds_executed s @ demo_in_hand (ds_pc s) @ ds_pending s \<and>
     ds_graph s = run_works env (ds_executed s) g \<and> pending_dirty_inv (ds_dirty s) \<and>
     (ds_pc s \<in> {Demo_save, Demo_end} \<longrightarrow> ds_stop s \<and> ds_pending s = []) \<and>
     ds_saved s = (if ds_pc s = Demo_end then Some (ds_graph s) else None) \<and>
     (\<forall>i. ds_pc s = Demo_found i \<longrightarrow> \<not> channel_busy (ds_channel s))"

lemmas demo_steps = model_step_def wait_and_take_def run_demo_work_def pop_dirty_def publish_found_def save_session_def

lemma fold_note_inv: "pending_dirty_inv p \<Longrightarrow> pending_dirty_inv (fold PendingDirty_Note ids p)"
  by (induction ids arbitrary: p) (simp_all add: PendingDirty_inv)

lemma works_ok_model:
  assumes "works_ok env g s" "model_step env s = Some s'"
  shows "works_ok env g s'"
proof (cases "ds_pc s")
  case Demo_wait
  then show ?thesis using assms by (auto simp: works_ok_def demo_steps split: if_splits list.splits)
next
  case (Demo_work draining w)
  then show ?thesis using assms
    by (cases draining) (auto simp: works_ok_def demo_steps run_works_def fold_note_inv split: prod.splits)
next
  case Demo_publish
  then show ?thesis using assms PendingDirty_inv(3) [of "ds_dirty s"]
    by (auto simp: works_ok_def demo_steps split: option.splits if_splits)
qed (use assms in \<open>auto simp: works_ok_def demo_steps split: if_splits\<close>)

lemma works_ok_others:
  assumes "works_ok env g s"
  shows "works_ok env g (Session_Post w s)" "works_ok env g (Session_RequestStop s)" "works_ok env g (gui_takes s)"
  using assms by (auto simp: works_ok_def Session_Post_def Session_RequestStop_def gui_takes_def split: demo_channel.splits if_splits)

lemma works_ok_reachable: "demo_reachable env g s \<Longrightarrow> works_ok env g s"
proof (induction rule: demo_reachable.induct)
  case start
  show ?case by (simp add: works_ok_def session_start_def run_works_def pending_dirty_inv_def)
next
  case (step s s')
  then show ?case using works_ok_model works_ok_others by (metis demo_step.cases)
qed

text \<open>Accepted works run once each, in order, and the thread that has ended has run them all and saved the graph they lead
  to; the thread waits only when there is nothing to do, and no publication is written over another.\<close>

lemma demo_works_run_and_saved:
  assumes "demo_reachable env g s"
  shows "prefix (ds_executed s) (ds_accepted s)" "ds_graph s = run_works env (ds_executed s) g"
    and "ds_pc s = Demo_end \<Longrightarrow> ds_executed s = ds_accepted s \<and> ds_saved s = Some (run_works env (ds_accepted s) g)"
    and "model_step env s = None \<longleftrightarrow> ds_pc s = Demo_end \<or> (ds_pc s = Demo_wait \<and> \<not> ds_stop s \<and> ds_pending s = [] \<and>
      (ordered (ds_dirty s) = [] \<or> channel_busy (ds_channel s)))"
    and "ds_pc s = Demo_found i \<Longrightarrow> ds_channel s = Channel_free"
proof -
  have ok: "works_ok env g s" by (rule works_ok_reachable [OF assms])
  show "prefix (ds_executed s) (ds_accepted s)" "ds_graph s = run_works env (ds_executed s) g"
    "ds_pc s = Demo_end \<Longrightarrow> ds_executed s = ds_accepted s \<and> ds_saved s = Some (run_works env (ds_accepted s) g)"
    using ok by (simp_all add: works_ok_def)
  show "model_step env s = None \<longleftrightarrow> ds_pc s = Demo_end \<or> (ds_pc s = Demo_wait \<and> \<not> ds_stop s \<and> ds_pending s = [] \<and>
      (ordered (ds_dirty s) = [] \<or> channel_busy (ds_channel s)))"
    by (auto simp: model_step_def wait_and_take_def split: demo_pc.splits list.splits)
  show "ds_pc s = Demo_found i \<Longrightarrow> ds_channel s = Channel_free"
    using ok by (cases "ds_channel s") (auto simp: works_ok_def)
qed

section \<open>What the GUI shows\<close>

text \<open>The works note every node they change.\<close>

definition works_note :: "('w, 'g, 'b) demo_env \<Rightarrow> bool" where
  "works_note env \<longleftrightarrow> (\<forall>w g i. i \<in> set (snd (de_run env w g)) \<or> de_contents env (fst (de_run env w g)) i = de_contents env g i)"

fun in_flight :: "'b demo_channel \<Rightarrow> u32 \<rightharpoonup> 'b" where
  "in_flight Channel_free = Map.empty"
| "in_flight (Channel_published p) = p"
| "in_flight (Channel_in_ui p) = p"

text \<open>What the GUI shows of a node once it has applied the publication on its way.\<close>

definition to_be_shown :: "(u32 \<rightharpoonup> 'b) \<Rightarrow> 'b demo_channel \<Rightarrow> u32 \<Rightarrow> 'b option" where
  "to_be_shown m ch i = (m ++ in_flight ch) i"

definition shown_or_pending :: "('w, 'g, 'b) demo_env \<Rightarrow> u32 \<Rightarrow> ('w, 'g, 'b) demo_session \<Rightarrow> bool" where
  "shown_or_pending env i s \<longleftrightarrow> i \<in> membership (ds_dirty s) \<or> ds_pc s = Demo_found i \<or>
     to_be_shown (ds_shown s) (ds_channel s) i = Some (de_contents env (ds_graph s) i)"

text \<open>The runs in which a node stays live.\<close>

inductive demo_live_run :: "('w, 'g, 'b) demo_env \<Rightarrow> 'g \<Rightarrow> u32 \<Rightarrow> ('w, 'g, 'b) demo_session \<Rightarrow> bool" for env g i where
  start: "de_live env g i \<Longrightarrow> demo_live_run env g i (session_start env g)"
| step: "demo_live_run env g i s \<Longrightarrow> demo_step env s s' \<Longrightarrow> de_live env (ds_graph s') i \<Longrightarrow> demo_live_run env g i s'"

lemma live_run_reachable: "demo_live_run env g i s \<Longrightarrow> demo_reachable env g s \<and> de_live env (ds_graph s) i"
proof (induction rule: demo_live_run.induct)
  case start
  then show ?case using demo_reachable.start [of env g] by (simp add: session_start_def)
qed (blast intro: demo_reachable.step)

lemma fold_note_members: "membership (fold PendingDirty_Note ids p) = membership p \<union> set ids"
  by (induction ids arbitrary: p) (auto simp: PendingDirty_Note_def)

lemma shown_model:
  assumes "shown_or_pending env i s" "works_ok env g s" "de_live env (ds_graph s) i" "works_note env" "model_step env s = Some s'"
  shows "shown_or_pending env i s'"
proof (cases "ds_pc s")
  case (Demo_work draining w)
  have s': "s' = run_demo_work env draining w s" using assms(5) Demo_work by (simp add: model_step_def)
  have dirty: "membership (ds_dirty s') = membership (ds_dirty s) \<union> set (snd (de_run env w (ds_graph s)))"
    and same: "ds_graph s' = fst (de_run env w (ds_graph s))" "ds_shown s' = ds_shown s" "ds_channel s' = ds_channel s"
    by (simp_all add: s' run_demo_work_def fold_note_members case_prod_beta)
  show ?thesis
  proof (cases "i \<in> membership (ds_dirty s')")
    case False
    then have "de_contents env (ds_graph s') i = de_contents env (ds_graph s) i" "i \<notin> membership (ds_dirty s)"
      using assms(4) dirty same(1) by (auto simp: works_note_def)
    then show ?thesis using assms(1) Demo_work same(2,3) by (simp add: shown_or_pending_def)
  qed (simp add: shown_or_pending_def)
next
  case Demo_publish
  have s': "s' = pop_dirty s" using assms(5) Demo_publish by (simp add: model_step_def)
  show ?thesis
  proof (cases "ds_stop s \<or> channel_busy (ds_channel s) \<or> PendingDirty_PopFront (ds_dirty s) = None")
    case True
    then have "s' = s\<lparr> ds_pc := Demo_wait \<rparr>" by (auto simp: s' pop_dirty_def)
    then show ?thesis using assms(1) Demo_publish by (simp add: shown_or_pending_def)
  next
    case False
    then obtain j dirty where pop: "PendingDirty_PopFront (ds_dirty s) = Some (j, dirty)" by auto
    then have "s' = s\<lparr> ds_dirty := dirty, ds_pc := Demo_found j \<rparr>" using False by (simp add: s' pop_dirty_def)
    moreover have "membership (ds_dirty s) \<subseteq> insert j (membership dirty)"
      using pop by (auto simp: PendingDirty_PopFront_def split: list.splits)
    ultimately show ?thesis using assms(1) Demo_publish by (auto simp: shown_or_pending_def)
  qed
next
  case (Demo_found j)
  have "ds_channel s = Channel_free" using assms(2) Demo_found by (cases "ds_channel s") (auto simp: works_ok_def)
  then show ?thesis using assms(1,3,5) Demo_found
    by (auto simp: shown_or_pending_def demo_steps to_be_shown_def map_add_def split: if_splits)
qed (use assms(1,5) in \<open>auto simp: shown_or_pending_def demo_steps  split: if_splits list.splits\<close>)

lemma shown_gui: "shown_or_pending env i s \<Longrightarrow> shown_or_pending env i (gui_takes s)"
  by (cases "ds_channel s") (simp_all add: shown_or_pending_def gui_takes_def to_be_shown_def)

lemma shown_or_pending_run:
  assumes "demo_live_run env g i s" "works_note env"
  shows "shown_or_pending env i s"
  using assms(1)
proof (induction rule: demo_live_run.induct)
  case start
  then show ?case by (simp add: shown_or_pending_def session_start_def to_be_shown_def)
next
  case (step s s')
  note live = live_run_reachable [OF step.hyps(1)]
  from step.hyps(2) show ?case
  proof cases
    case model
    then show ?thesis using shown_model [OF step.IH works_ok_reachable _ assms(2)] live by blast
  next
    case gui
    then show ?thesis using shown_gui [OF step.IH] by simp
  qed (use step.IH in \<open>simp_all add: shown_or_pending_def Session_Post_def Session_RequestStop_def\<close>)
qed

text \<open>A node that stays live is shown as it is whenever the model thread waits and no publication is on its way.\<close>

lemma waiting_session_is_shown:
  assumes "demo_live_run env g i s" "works_note env" "ds_pc s = Demo_wait" "model_step env s = None" "ds_channel s = Channel_free"
  shows "ds_shown s i = Some (de_contents env (ds_graph s) i)"
proof -
  have reach: "demo_reachable env g s" using live_run_reachable [OF assms(1)] by blast
  have "ordered (ds_dirty s) = []" using demo_works_run_and_saved(4) [OF reach] assms(3-5) by simp
  then have "membership (ds_dirty s) = {}" using works_ok_reachable [OF reach] by (simp add: works_ok_def pending_dirty_inv_def)
  then show ?thesis using shown_or_pending_run [OF assms(1,2)] assms(3,5) by (simp add: shown_or_pending_def to_be_shown_def)
qed

end
