(* ===== verification/NodeCommits.thy ===== *)
theory NodeCommits
  imports Lifecycle
begin

text \<open>
  What a Commit on a ready node does, for the node classes made by \<open>lifecycle_ops\<close>: the fields it leaves, and how often it
  advances the generation and calls the notifier.
\<close>

lemma lifecycle_commit:
  assumes "node_ready (lifecycle_ops can app missing) n" "ce_now1 cenv \<noteq> 0" "can e (materialized n)"
    and "app e (materialized n) = Some (s, k)"
  shows "\<exists>n' r. Commit (lifecycle_ops can app missing) cenv e n = Some n' \<and> node_inv (lifecycle_ops can app missing) id n' \<and>
    materialized n' = s \<and> journal n' = journal n @ [r]"
proof -
  let ?ops = "lifecycle_ops can app missing" and ?ev = "new_event cenv (node_domain n) e"
  have p: "ptr_valid ?ev" "ptr_object ?ev = Some e" "ptr_domain ?ev = node_domain n" by (simp_all add: new_event_def)
  have inv: "node_inv ?ops id n" and len: "length (journal n) < kJournalFullyMaterialized"
    and wrap: "journal n = [] \<or> timestamp_us (last (journal n)) \<noteq> -1"
    using assms(1) by (auto simp: node_ready_def)
  have "\<exists>n' r. CommitInto ?ops (ce_now1 cenv) (ce_now2 cenv) (ce_now3 cenv) ?ev n = Some n' \<and> node_inv ?ops id n' \<and>
    materialized n' = s \<and> journal n' = journal n @ [r] \<and> event r = ?ev \<and> \<not> HasSharedIdentity r \<and>
    timestamp_us r = commit_timestamp (ce_now1 cenv) n"
    by (rule lifecycle.commit_runs [OF inv len p _ _ assms(2) wrap]) (simp_all add: assms(3,4))
  then show ?thesis by (auto simp: Commit_def)
qed

lemma note_changes_count:
  assumes "\<not> suppress_materialized_change n"
  shows "generation ((NoteMaterializedChange ^^ k) n) = generation n + of_nat k \<and>
    notifications ((NoteMaterializedChange ^^ k) n) = notifications n + (if materialized_change_fn n then k else 0) \<and>
    \<not> suppress_materialized_change ((NoteMaterializedChange ^^ k) n) \<and>
    materialized_change_fn ((NoteMaterializedChange ^^ k) n) = materialized_change_fn n"
  using assms by (induction k) (auto simp: NoteMaterializedChange_def)

lemma commit_notes:
  assumes ready: "node_ready (lifecycle_ops can app missing) n" and c: "Commit (lifecycle_ops can app missing) cenv e n = Some n'"
    and app: "app e (materialized n) = Some (s, k)" and on: "\<not> suppress_materialized_change n"
  shows "generation n' = generation n + of_nat k \<and> notifications n' = notifications n + (if materialized_change_fn n then k else 0)"
proof -
  let ?ops = "lifecycle_ops can app missing" and ?ev = "new_event cenv (node_domain n) e"
  let ?r = "\<lparr> event = ?ev, identity = \<lparr> origin_uid = [], origin_sequence = 0 \<rparr>,
       timestamp_us = commit_timestamp (ce_now1 cenv) n, retained_since_us = ce_now2 cenv \<rparr>"
  have can: "can e (materialized n)" and ins: "TryInsertEvent ?ops (ce_now3 cenv) ?r n = Some (True, n')"
    using c by (auto simp: Commit_def CommitInto_def InsertEvent_def assert_ok_def new_event_def assert_that_def Option.bind_eq_Some_conv
      split: if_splits)
  have inv: "journal_sorted (journal n)" "applied_journal_size n \<in> {kJournalFullyMaterialized, length (journal n)}"
      "length (journal n) < kJournalFullyMaterialized" "journal n = [] \<or> timestamp_us (last (journal n)) \<noteq> -1"
    using ready by (auto simp: node_ready_def node_inv_def)
  let ?s = "stamped (ce_now3 cenv) ?r"
  have pos: "lower_bound EventRecordOrderLess (journal n) r = length (journal n)" if "timestamp_us r = commit_timestamp (ce_now1 cenv) n" for r
    by (rule lifecycle.commit_position [OF inv(1) that inv(4)])
  let ?n1 = "n\<lparr> journal := journal n @ [?s], applied_journal_size := length (journal n) \<rparr>"
  have "TryEnsureCurrentGeneration ?ops ?n1 = Some (True, n')"
  proof (cases "applied_journal_size n = kJournalFullyMaterialized")
    case True
    then show ?thesis using ins pos [of ?s]
      unfolding TryInsertEvent_def stamped_def [symmetric] Let_def
      by (auto simp: Option.bind_eq_Some_conv split: if_splits)
  next
    case False
    then have same: "applied_journal_size n = length (journal n)" using inv(2) by auto
    have "TryEnsureCurrentGeneration ?ops (n\<lparr> journal := journal n @ [?s] \<rparr>) = Some (True, n')"
      using False ins pos [of ?s]
      unfolding TryInsertEvent_def stamped_def [symmetric] Let_def
      by (auto simp: Option.bind_eq_Some_conv split: if_splits)
    moreover have "n\<lparr> journal := journal n @ [?s] \<rparr> = ?n1" using same by simp
    ultimately show ?thesis by simp
  qed
  then have "ensure_loop ?ops [?s] ?n1 = Some (True, n')"
    using inv(3) by (simp add: TryEnsureCurrentGeneration_def)
  then have "n' = ((NoteMaterializedChange ^^ k) (?n1\<lparr> materialized := s \<rparr>))
      \<lparr> applied_journal_size := Suc (applied_journal_size ((NoteMaterializedChange ^^ k) (?n1\<lparr> materialized := s \<rparr>))) \<rparr>"
    using app can by (auto simp: usable_event_def new_event_def ApplyEvent_def stamped_def Option.bind_eq_Some_conv)
  then show ?thesis using note_changes_count [of "?n1\<lparr> materialized := s \<rparr>" k] on by simp
qed

end
