(* ===== verification/Numbering.thy ===== *)
theory Numbering
  imports Prelude
begin

text \<open>
  Numbers of new objects: the loop that leaves the number behind the largest one in use, as Surface::AddSurface
  (src/src/surfaces/surfaces_model.cpp) and AddItem::Click (src/examples/dynamic_objects_demo/common/dynamic_model.cpp)
  write it.  The loop wraps behind the last number, so the facts ask that it is not in use.
\<close>

lemma number_loop:
  fixes number :: "'a \<Rightarrow> u32"
  assumes "\<forall>x\<in>set xs. number x \<noteq> -1"
  shows "a \<le> fold (\<lambda>x next. if number x \<ge> next then number x + 1 else next) xs a \<and>
    (\<forall>x\<in>set xs. number x < fold (\<lambda>x next. if number x \<ge> next then number x + 1 else next) xs a)"
  using assms
proof (induction xs arbitrary: a)
  case (Cons x xs)
  have "number x < number x + 1" using Cons.prems by (simp add: word_less_Suc)
  then have "a \<le> (if a \<le> number x then number x + 1 else a) \<and> number x < (if a \<le> number x then number x + 1 else a)"
    by (cases "a \<le> number x") auto
  then show ?case using Cons.IH [of "if a \<le> number x then number x + 1 else a"] Cons.prems by force
qed simp

lemma number_loop_bound:
  fixes number :: "'a \<Rightarrow> u32"
  assumes "\<forall>x\<in>set xs. number x < b" "a \<le> b"
  shows "fold (\<lambda>x next. if number x \<ge> next then number x + 1 else next) xs a \<le> b"
  using assms by (induction xs arbitrary: a) (auto intro: inc_le)

end
