(* ===== verification/DynamicItems.thy ===== *)
theory DynamicItems
  imports NodeCommits Numbering
begin

text \<open>
  The model of the dynamic objects example (src/examples/dynamic_objects_demo/common/dynamic_model.h, dynamic_model.cpp,
  dynamic_distill.cpp): a list of items that the GUI adds to and removes from.  Items are objects without a journal; the
  events of the list carry them.  A pointer to an object is its id; two pointers name the same object when their ids are
  equal, since all objects belong to one domain.  \<open>self\<close> is the id of the list an Apply runs on.
\<close>

section \<open>Objects\<close>

record item =
  item_number :: u32
  item_list :: obj_id
  item_presenter :: obj_id

record item_list_state =
  items :: "obj_id list"
  list_presenter :: obj_id
  list_window :: obj_id

record add_item =
  add_window :: obj_id
  add_presenter :: obj_id

record demo_window =
  demo_x :: u32
  demo_y :: u32
  demo_width :: u32
  demo_height :: u32
  window_item_list :: obj_id
  window_add_item :: obj_id
  window_presenter :: obj_id

text \<open>The presenters, each with the object it shows.\<close>

record demo_item_presenter =
  shown_item :: obj_id

record demo_list_presenter =
  shown_list :: obj_id

record demo_add_presenter =
  shown_add_item :: obj_id

record demo_window_presenter =
  shown_window :: obj_id

record demo_application =
  application_window :: obj_id

section \<open>Events of the list\<close>

datatype item_event =
    AddItemEvent "item obj_ptr"
  | RemoveItemEvent "item obj_ptr"

fun ItemList_Apply :: "aether \<Rightarrow> obj_id \<Rightarrow> item_event \<Rightarrow> item_list_state \<Rightarrow> (item_list_state \<times> nat) option" where
  "ItemList_Apply ae self (AddItemEvent p) s = do {
     assert_that (ptr_valid p);
     assert_that (is_loaded p);
     it \<leftarrow> ptr_object p;
     assert_that (ae_valid ae (item_list it));
     assert_that (item_list it = self);
     Some (s\<lparr> items := items s @ [ptr_id p] \<rparr>, 1) }"
| "ItemList_Apply ae self (RemoveItemEvent p) s = do {
     assert_that (ptr_valid p);
     assert_that (is_loaded p);
     let at = find_index (\<lambda>i. ae_valid ae i \<and> i = ptr_id p) (items s) in do {
     assert_that (at < length (items s));
     Some (s\<lparr> items := erase_at at (items s) \<rparr>, 1) } }"

type_synonym item_list_node = "(item_list_state, item_event, item_list_state) node"

definition ItemList_ops ::
  "aether \<Rightarrow> obj_id \<Rightarrow> (item_list_state \<Rightarrow> item_list_state) \<Rightarrow> (item_list_state, item_event, item_list_state) node_ops" where
  "ItemList_ops ae self missing = lifecycle_ops (\<lambda>e s. True) (ItemList_Apply ae self) missing"

section \<open>The graph\<close>

text \<open>Every object of the domain, the items that only history holds included.\<close>

record dynamic_graph =
  dy_list :: item_list_node
  dy_items :: "obj_id \<rightharpoonup> item"
  dy_presenters :: "obj_id \<rightharpoonup> demo_item_presenter"
  dy_window :: demo_window
  dy_add_item :: add_item
  dy_list_presenter :: demo_list_presenter
  dy_add_presenter :: demo_add_presenter
  dy_window_presenter :: demo_window_presenter
  dy_application :: demo_application

abbreviation list_of :: "dynamic_graph \<Rightarrow> item_list_state" where
  "list_of g \<equiv> materialized (dy_list g)"

record dynamic_env =
  dye_ae :: aether
  dye_missing :: "item_list_state \<Rightarrow> item_list_state"

definition commit_items :: "dynamic_env \<Rightarrow> commit_env \<Rightarrow> item_event \<Rightarrow> dynamic_graph \<Rightarrow> dynamic_graph option" where
  "commit_items env cenv e g = do {
     n \<leftarrow> Commit (ItemList_ops (dye_ae env) (window_item_list (dy_window g)) (dye_missing env)) cenv e (dy_list g);
     Some (g\<lparr> dy_list := n \<rparr>) }"

definition item_ptr :: "nat option \<Rightarrow> obj_id \<Rightarrow> item \<Rightarrow> item obj_ptr" where
  "item_ptr d i it = \<lparr> ptr_valid = True, ptr_id = i, ptr_domain = d, ptr_object = Some it, ptr_stored = None \<rparr>"

section \<open>Commands\<close>

text \<open>The number of a new item; \<open>existing->number + 1\<close> wraps.\<close>

definition next_item_number :: "item list \<Rightarrow> u32" where
  "next_item_number existing =
     fold (\<lambda>it next. if item_number it \<ge> next then item_number it + 1 else next) existing 1"

text \<open>The ids that one Click creates.\<close>

record click_env =
  ck_item :: obj_id
  ck_presenter :: obj_id
  ck_commit :: commit_env

definition AddItem_Click :: "dynamic_env \<Rightarrow> click_env \<Rightarrow> dynamic_graph \<Rightarrow> dynamic_graph option" where
  "AddItem_Click env ck g = do {
     assert_that (node_domain (dy_list g) \<noteq> None);
     existing \<leftarrow> those (map (dy_items g) (items (list_of g)));
     let it = \<lparr> item_number = next_item_number existing, item_list = window_item_list (dy_window g), item_presenter = ck_presenter ck \<rparr>;
         g = g\<lparr> dy_items := (dy_items g)(ck_item ck \<mapsto> it), dy_presenters := (dy_presenters g)(ck_presenter ck \<mapsto> \<lparr> shown_item = ck_item ck \<rparr>) \<rparr> in
     commit_items env (ck_commit ck) (AddItemEvent (item_ptr (node_domain (dy_list g)) (ck_item ck) it)) g }"

definition Item_Remove :: "dynamic_env \<Rightarrow> commit_env \<Rightarrow> obj_id \<Rightarrow> dynamic_graph \<Rightarrow> dynamic_graph option" where
  "Item_Remove env cenv i g = do {
     it \<leftarrow> dy_items g i;
     assert_that (node_domain (dy_list g) \<noteq> None);
     if i \<notin> set (items (list_of g)) then Some g
     else commit_items env cenv (RemoveItemEvent (item_ptr (node_domain (dy_list g)) i it)) g }"

text \<open>What the presenters ask of the model thread: the target is looked up there (ModelObjectProxy::Invoke).\<close>

datatype item_work = ClickAdd click_env | ClickRemove commit_env obj_id

fun run_item_work :: "dynamic_env \<Rightarrow> item_work \<Rightarrow> dynamic_graph \<Rightarrow> dynamic_graph option" where
  "run_item_work env (ClickAdd ck) g = AddItem_Click env ck g"
| "run_item_work env (ClickRemove cenv i) g = do {
     assert_that (dy_items g i \<noteq> None);
     Item_Remove env cenv i g }"

text \<open>The clicks of the presenters, which need a proxy; the target of the work is the object the presenter shows.\<close>

definition AddItemPresenter_Click :: "bool \<Rightarrow> click_env \<Rightarrow> demo_add_presenter \<Rightarrow> (obj_id \<times> item_work) option" where
  "AddItemPresenter_Click proxy ck p = do { assert_that proxy; Some (shown_add_item p, ClickAdd ck) }"

definition ItemPresenter_RemoveClick :: "bool \<Rightarrow> commit_env \<Rightarrow> demo_item_presenter \<Rightarrow> (obj_id \<times> item_work) option" where
  "ItemPresenter_RemoveClick proxy cenv p = do { assert_that proxy; Some (shown_item p, ClickRemove cenv (shown_item p)) }"

section \<open>The first graph\<close>

definition kDemoApplication :: obj_id where "kDemoApplication = 1"
definition kDemoMainWindow :: obj_id where "kDemoMainWindow = 2"
definition kDemoMainWindowPresenter :: obj_id where "kDemoMainWindowPresenter = 3"
definition kDemoItemList :: obj_id where "kDemoItemList = 4"
definition kDemoItemListPresenter :: obj_id where "kDemoItemListPresenter = 5"
definition kDemoItem1 :: obj_id where "kDemoItem1 = 6"
definition kDemoItem1Presenter :: obj_id where "kDemoItem1Presenter = 7"
definition kDemoAddItem :: obj_id where "kDemoAddItem = 8"
definition kDemoAddItemPresenter :: obj_id where "kDemoAddItemPresenter = 9"

lemmas demo_ids = kDemoApplication_def kDemoMainWindow_def kDemoMainWindowPresenter_def kDemoItemList_def
  kDemoItemListPresenter_def kDemoItem1_def kDemoItem1Presenter_def kDemoAddItem_def kDemoAddItemPresenter_def

definition BuildDynamicObjectsGraph :: "aether \<Rightarrow> nat \<Rightarrow> dynamic_graph" where
  "BuildDynamicObjectsGraph ae d =
     \<lparr> dy_list = \<lparr> node_obj_id = kDemoItemList, node_domain = Some d,
         materialized = \<lparr> items = [kDemoItem1], list_presenter = kDemoItemListPresenter, list_window = kDemoMainWindow \<rparr>,
         base = null_ptr ae, base_layer = None, journal = [], generation = 1,
         applied_journal_size = kJournalFullyMaterialized, journal_retention_policy = default_retention,
         journal_compaction_blocked = False, suppress_materialized_change = False,
         materialized_change_fn = False, notifications = 0 \<rparr>,
       dy_items = [kDemoItem1 \<mapsto> \<lparr> item_number = 1, item_list = kDemoItemList, item_presenter = kDemoItem1Presenter \<rparr>],
       dy_presenters = [kDemoItem1Presenter \<mapsto> \<lparr> shown_item = kDemoItem1 \<rparr>],
       dy_window = \<lparr> demo_x = 100, demo_y = 100, demo_width = 420, demo_height = 360, window_item_list = kDemoItemList,
         window_add_item = kDemoAddItem, window_presenter = kDemoMainWindowPresenter \<rparr>,
       dy_add_item = \<lparr> add_window = kDemoMainWindow, add_presenter = kDemoAddItemPresenter \<rparr>,
       dy_list_presenter = \<lparr> shown_list = kDemoItemList \<rparr>, dy_add_presenter = \<lparr> shown_add_item = kDemoAddItem \<rparr>,
       dy_window_presenter = \<lparr> shown_window = kDemoMainWindow \<rparr>,
       dy_application = \<lparr> application_window = kDemoMainWindow \<rparr> \<rparr>"

text \<open>The default fields of a list the factory made, as the base is before the snapshot.\<close>

definition new_item_list :: "aether \<Rightarrow> item_list_state" where
  "new_item_list ae = \<lparr> items = [], list_presenter = ae_null ae, list_window = ae_null ae \<rparr>"

end
