(* ===== verification/Distill.thy ===== *)
theory Distill
  imports NodeCommits
begin

text \<open>
  What the programs that create a first graph do with its nodes before they save it (src/include/apptraverse/distill.h):
  FinalizeDistilledGraph gives a base to every node that has none, StabilizeDistilledPersistentSnapshot drops all history.
  The walk visits the nodes of the graph; here it is the list of those of one class, each with the id its base would get.
\<close>

definition finalize_node ::
  "('s, 'e, 'b) node_ops \<Rightarrow> bool \<Rightarrow> 's \<Rightarrow> obj_id \<Rightarrow> ('s, 'e, 'b) node \<Rightarrow> ('s, 'e, 'b) node option" where
  "finalize_node ops has_factory created i n =
     (if ptr_valid (base n) then Some n
      else if journal n \<noteq> [] then Some n
      else InitializeRuntimeNode ops has_factory created i n)"

fun FinalizeDistilledGraph ::
  "('s, 'e, 'b) node_ops \<Rightarrow> bool \<Rightarrow> 's \<Rightarrow> (obj_id \<times> ('s, 'e, 'b) node) list \<Rightarrow> ('s, 'e, 'b) node list option" where
  "FinalizeDistilledGraph ops has_factory created [] = Some []"
| "FinalizeDistilledGraph ops has_factory created ((i, n) # rest) = do {
     n \<leftarrow> finalize_node ops has_factory created i n;
     ns \<leftarrow> FinalizeDistilledGraph ops has_factory created rest;
     Some (n # ns) }"

fun StabilizeDistilledPersistentSnapshot ::
  "('s, 'e, 'b) node_ops \<Rightarrow> ('s, 'e, 'b) node list \<Rightarrow> ('s, 'e, 'b) node list option" where
  "StabilizeDistilledPersistentSnapshot ops [] = Some []"
| "StabilizeDistilledPersistentSnapshot ops (n # rest) = do {
     let n = n\<lparr> journal := [] \<rparr>;
     n \<leftarrow> (if ptr_valid (base n) then CaptureBaseStateInto ops n else Some n);
     ns \<leftarrow> StabilizeDistilledPersistentSnapshot ops rest;
     Some (AdoptPublishedGeneration 1 n # ns) }"

section \<open>New nodes\<close>

lemma initialized_node:
  assumes "node_domain n = Some d" "\<not> ptr_valid (base n)" "journal n = []" "i \<noteq> node_obj_id n"
    and "applied_journal_size n = kJournalFullyMaterialized"
  shows "\<exists>n'. InitializeRuntimeNode (lifecycle_ops can app missing) True created i n = Some n' \<and> materialized n' = materialized n \<and>
    node_inv (lifecycle_ops can app missing) id n' \<and> journal n' = [] \<and> ptr_valid (base n') \<and>
    base_layer n' = Some (materialized n)"
  using assms
  by (auto simp: InitializeRuntimeNode_def CaptureBaseStateInto_def Let_def node_inv_def node_live_def
      is_loaded_def journal_sorted_def shared_ids_def consistent_def assert_that_def split: Option.bind_splits if_splits)

text \<open>A node that was given its base before its fields keeps the old base.\<close>

lemma finalize_skips_based: "ptr_valid (base n) \<Longrightarrow> finalize_node ops has_factory created i n = Some n"
  by (simp add: finalize_node_def)

end
