(* ===== verification/DynamicItemsProperties.thy ===== *)
theory DynamicItemsProperties
  imports DynamicItems Distill
begin

text \<open>
  What the items of the dynamic objects example promise over every run that starts from the finalized first graph: no work
  aborts, an item is in the list at most once, and live items have different numbers.
\<close>

section \<open>Consistency\<close>

abbreviation ops_of :: "dynamic_env \<Rightarrow> dynamic_graph \<Rightarrow> (item_list_state, item_event, item_list_state) node_ops" where
  "ops_of env g \<equiv> ItemList_ops (dye_ae env) (window_item_list (dy_window g)) (dye_missing env)"

definition item_numbers :: "dynamic_graph \<Rightarrow> u32 option list" where
  "item_numbers g = map (\<lambda>i. map_option item_number (dy_items g i)) (items (list_of g))"

definition items_ok :: "dynamic_env \<Rightarrow> nat \<Rightarrow> dynamic_graph \<Rightarrow> bool" where
  "items_ok env k g \<longleftrightarrow> node_inv (ops_of env g) id (dy_list g) \<and> ae_valid (dye_ae env) (window_item_list (dy_window g)) \<and>
     distinct (items (list_of g)) \<and> distinct (item_numbers g) \<and>
     (\<forall>i\<in>set (items (list_of g)). ae_valid (dye_ae env) i \<and>
       (\<exists>it. dy_items g i = Some it \<and> item_number it \<noteq> 0 \<and> unat (item_number it) \<le> Suc k))"

text \<open>A work whose objects are new, and that asks nothing of an item that was never created.\<close>

fun item_work_fits :: "dynamic_env \<Rightarrow> item_work \<Rightarrow> dynamic_graph \<Rightarrow> bool" where
  "item_work_fits env (ClickAdd ck) g \<longleftrightarrow> ce_now1 (ck_commit ck) \<noteq> 0 \<and> ae_valid (dye_ae env) (ck_item ck) \<and> dy_items g (ck_item ck) = None"
| "item_work_fits env (ClickRemove cenv i) g \<longleftrightarrow> ce_now1 cenv \<noteq> 0 \<and> dy_items g i \<noteq> None"

fun clicks :: "item_work \<Rightarrow> nat" where
  "clicks (ClickAdd ck) = 1"
| "clicks (ClickRemove cenv i) = 0"

lemma commit_items_runs:
  assumes "node_ready (ops_of env g) (dy_list g)" "ce_now1 cenv \<noteq> 0"
    and "ItemList_Apply (dye_ae env) (window_item_list (dy_window g)) e (list_of g) = Some (s, k)"
  shows "\<exists>n. commit_items env cenv e g = Some (g\<lparr> dy_list := n \<rparr>) \<and> node_inv (ops_of env g) id n \<and> materialized n = s"
  using lifecycle_commit [of "\<lambda>e s. True" "ItemList_Apply (dye_ae env) (window_item_list (dy_window g))" "dye_missing env"
      "dy_list g" cenv e s k] assms
  by (auto simp: ItemList_ops_def commit_items_def)

lemma erase_at_removeAll: "distinct xs \<Longrightarrow> i < length xs \<Longrightarrow> erase_at i xs = removeAll (xs ! i) xs"
proof (induction xs arbitrary: i)
  case (Cons x xs)
  then show ?case by (cases i) (auto simp: erase_at_def)
qed simp

section \<open>Adding an item\<close>

lemma next_item_number_above:
  assumes "\<forall>it\<in>set its. item_number it \<noteq> -1"
  shows "1 \<le> next_item_number its \<and> (\<forall>it\<in>set its. item_number it < next_item_number its)"
  using number_loop [OF assms, of 1] by (simp add: next_item_number_def)

lemma those_items:
  assumes "\<forall>i\<in>set is. m i \<noteq> None"
  obtains its where "those (map m is) = Some its" "set its = {it. \<exists>i\<in>set is. m i = Some it}"
  using assms
proof (induction "is" arbitrary: thesis)
  case (Cons i "is")
  then obtain its where "those (map m is) = Some its" "set its = {it. \<exists>i\<in>set is. m i = Some it}" by auto
  moreover obtain it where "m i = Some it" using Cons.prems(2) by auto
  ultimately show ?case by (intro Cons.prems(1) [of "it # its"]) auto
qed simp

lemma click_adds_item:
  assumes ok: "items_ok env k g" and k: "k < 2 ^ 32 - 2" and ready: "node_ready (ops_of env g) (dy_list g)"
    and fits: "item_work_fits env (ClickAdd ck) g"
  shows "\<exists>g' it. AddItem_Click env ck g = Some g' \<and> items (list_of g') = items (list_of g) @ [ck_item ck] \<and>
    dy_items g' = (dy_items g)(ck_item ck \<mapsto> it) \<and> items_ok env (Suc k) g' \<and>
    (\<forall>i\<in>set (items (list_of g)). \<forall>x. dy_items g i = Some x \<longrightarrow> item_number x < item_number it)"
proof -
  let ?is = "items (list_of g)" and ?self = "window_item_list (dy_window g)"
  have live: "\<forall>i\<in>set ?is. dy_items g i \<noteq> None" using ok by (auto simp: items_ok_def)
  obtain its where its: "those (map (dy_items g) ?is) = Some its" "set its = {it. \<exists>i\<in>set ?is. dy_items g i = Some it}"
    using those_items [OF live] by blast
  let ?it = "\<lparr> item_number = next_item_number its, item_list = ?self, item_presenter = ck_presenter ck \<rparr>"
  have numbers: "\<forall>it\<in>set its. unat (item_number it) \<le> Suc k" using ok its(2) by (auto simp: items_ok_def)
  have no_last: "\<forall>it\<in>set its. item_number it \<noteq> -1"
  proof
    fix it assume "it \<in> set its"
    then have "unat (item_number it) < 2 ^ 32 - 1" using numbers k by fastforce
    then show "item_number it \<noteq> -1" by (auto simp: unsigned_minus_1_eq_mask mask_eq_exp_minus_1)
  qed
  note above = next_item_number_above [OF no_last]
  have "next_item_number its \<le> of_nat (Suc (Suc k))"
  proof -
    have w: "unat (of_nat (Suc (Suc k)) :: u32) = Suc (Suc k)" using k by (intro unat_word_of_nat_32) simp
    then have "\<forall>it\<in>set its. item_number it < of_nat (Suc (Suc k))" using numbers by (auto simp: word_less_nat_alt less_Suc_eq_le)
    moreover have "(1 :: u32) \<le> of_nat (Suc (Suc k))" using w by (simp add: word_le_nat_alt)
    ultimately show ?thesis unfolding next_item_number_def by (rule number_loop_bound)
  qed
  then have bound: "unat (next_item_number its) \<le> Suc (Suc k)"
    using k by (simp add: word_le_nat_alt unat_word_of_nat_32 del: of_nat_Suc)
  let ?g = "g\<lparr> dy_items := (dy_items g)(ck_item ck \<mapsto> ?it),
      dy_presenters := (dy_presenters g)(ck_presenter ck \<mapsto> \<lparr> shown_item = ck_item ck \<rparr>) \<rparr>"
  let ?s = "(list_of g)\<lparr> items := ?is @ [ck_item ck] \<rparr>"
  obtain d where d: "node_domain (dy_list g) = Some d" using ok by (auto simp: items_ok_def node_inv_def node_live_def)
  let ?e = "AddItemEvent (item_ptr (Some d) (ck_item ck) ?it)"
  have "ItemList_Apply (dye_ae env) (window_item_list (dy_window ?g)) ?e (list_of ?g) = Some (?s, 1)"
    using ok by (simp add: item_ptr_def is_loaded_def items_ok_def)
  moreover have "node_ready (ops_of env ?g) (dy_list ?g)" "ce_now1 (ck_commit ck) \<noteq> 0" using ready fits by simp_all
  ultimately obtain n where "commit_items env (ck_commit ck) ?e ?g = Some (?g\<lparr> dy_list := n \<rparr>)"
      "node_inv (ops_of env ?g) id n" and s: "materialized n = ?s"
    using commit_items_runs by blast
  then have n: "commit_items env (ck_commit ck) ?e ?g = Some (?g\<lparr> dy_list := n \<rparr>)" "node_inv (ops_of env g) id n" by simp_all
  have run: "AddItem_Click env ck g = Some (?g\<lparr> dy_list := n \<rparr>)"
    using d its(1) n(1) by (simp add: AddItem_Click_def Let_def)
  have new: "ck_item ck \<notin> set ?is" using fits live by auto
  have same: "map (\<lambda>i. map_option item_number (((dy_items g)(ck_item ck \<mapsto> ?it)) i)) ?is = item_numbers g"
    using new by (auto simp: item_numbers_def)
  have less: "\<forall>i\<in>set ?is. \<forall>x. dy_items g i = Some x \<longrightarrow> item_number x < next_item_number its" using above its(2) by auto
  have fresh: "Some (next_item_number its) \<notin> set (item_numbers g)"
  proof
    assume "Some (next_item_number its) \<in> set (item_numbers g)"
    then obtain i x where "i \<in> set ?is" "dy_items g i = Some x" "item_number x = next_item_number its"
      unfolding item_numbers_def by (auto simp: map_option_case split: option.splits)
    then show False using less by fastforce
  qed
  let ?h = "?g\<lparr> dy_list := n \<rparr>"
  have "item_numbers ?h = item_numbers g @ [Some (next_item_number its)]"
    using same by (simp add: item_numbers_def s)
  moreover have "\<forall>i\<in>set (items (list_of ?h)). ae_valid (dye_ae env) i \<and>
      (\<exists>it. dy_items ?h i = Some it \<and> item_number it \<noteq> 0 \<and> unat (item_number it) \<le> Suc (Suc k))"
    using ok fits bound above new by (auto simp: s items_ok_def)
  ultimately have "items_ok env (Suc k) ?h"
    using ok n(2) new fresh unfolding items_ok_def by (simp add: s)
  then show ?thesis using run s less by (intro exI [of _ "?g\<lparr> dy_list := n \<rparr>"] exI [of _ ?it]) simp
qed

section \<open>Removing an item\<close>

lemma remove_drops_item:
  assumes ok: "items_ok env k g" and ready: "node_ready (ops_of env g) (dy_list g)" and fits: "item_work_fits env (ClickRemove cenv i) g"
  shows "\<exists>g'. Item_Remove env cenv i g = Some g' \<and> items (list_of g') = removeAll i (items (list_of g)) \<and>
    dy_items g' = dy_items g \<and> items_ok env k g' \<and> (i \<notin> set (items (list_of g)) \<longrightarrow> g' = g)"
proof (cases "i \<in> set (items (list_of g))")
  case False
  moreover obtain d where "node_domain (dy_list g) = Some d" using ok by (auto simp: items_ok_def node_inv_def node_live_def)
  ultimately show ?thesis using ok fits by (auto simp: Item_Remove_def)
next
  case True
  let ?is = "items (list_of g)"
  obtain it where it: "dy_items g i = Some it" using fits by auto
  obtain d where d: "node_domain (dy_list g) = Some d" using ok by (auto simp: items_ok_def node_inv_def node_live_def)
  let ?at = "find_index (\<lambda>j. ae_valid (dye_ae env) j \<and> j = i) ?is" and ?e = "RemoveItemEvent (item_ptr (Some d) i it)"
  have valid: "ae_valid (dye_ae env) i" using ok True by (auto simp: items_ok_def)
  have at: "?at < length ?is" "?is ! ?at = i"
    using True valid find_index_nth [of "\<lambda>j. ae_valid (dye_ae env) j \<and> j = i" ?is] by auto
  have dist: "distinct ?is" using ok by (simp add: items_ok_def)
  have gone: "erase_at ?at ?is = removeAll i ?is"
    using dist at by (metis erase_at_removeAll)
  let ?s = "(list_of g)\<lparr> items := erase_at ?at ?is \<rparr>"
  have "ItemList_Apply (dye_ae env) (window_item_list (dy_window g)) ?e (list_of g) = Some (?s, 1)"
    using True valid by (simp add: item_ptr_def is_loaded_def Let_def)
  moreover have "ce_now1 cenv \<noteq> 0" using fits by simp
  ultimately obtain n where n: "commit_items env cenv ?e g = Some (g\<lparr> dy_list := n \<rparr>)" "node_inv (ops_of env g) id n" "materialized n = ?s"
    using commit_items_runs [OF ready] by blast
  have run: "Item_Remove env cenv i g = Some (g\<lparr> dy_list := n \<rparr>)" using True it d n(1) by (simp add: Item_Remove_def)
  have "item_numbers (g\<lparr> dy_list := n \<rparr>) = erase_at ?at (item_numbers g)"
    by (simp add: item_numbers_def n(3) map_erase_at)
  then have "items_ok env k (g\<lparr> dy_list := n \<rparr>)"
    using ok n(2) set_erase_at_subset [of ?at ?is] unfolding items_ok_def by (auto simp: n(3) distinct_erase_at)
  then show ?thesis using run gone True by (intro exI [of _ "g\<lparr> dy_list := n \<rparr>"]) (simp add: n(3))
qed

section \<open>Runs\<close>

abbreviation first_graph :: "dynamic_env \<Rightarrow> nat \<Rightarrow> dynamic_graph" where
  "first_graph env d \<equiv> BuildDynamicObjectsGraph (dye_ae env) d"

abbreviation finalized :: "dynamic_env \<Rightarrow> nat \<Rightarrow> obj_id \<Rightarrow> item_list_node list option" where
  "finalized env d i \<equiv> FinalizeDistilledGraph (ops_of env (first_graph env d)) True (new_item_list (dye_ae env)) [(i, dy_list (first_graph env d))]"

text \<open>The runs while the journal has room; \<open>k\<close> is the number of clicks on the add control.\<close>

inductive dynamic_run :: "dynamic_env \<Rightarrow> nat \<Rightarrow> nat \<Rightarrow> dynamic_graph \<Rightarrow> bool" for env d where
  first: "finalized env d i = Some [n] \<Longrightarrow> dynamic_run env d 0 ((first_graph env d)\<lparr> dy_list := n \<rparr>)"
| work: "dynamic_run env d k g \<Longrightarrow> node_ready (ops_of env g) (dy_list g) \<Longrightarrow> item_work_fits env w g \<Longrightarrow>
    run_item_work env w g = Some g' \<Longrightarrow> dynamic_run env d (k + clicks w) g'"

lemma first_list_made:
  assumes "i \<noteq> kDemoItemList"
  shows "\<exists>n. finalized env d i = Some [n] \<and> node_inv (ops_of env (first_graph env d)) id n \<and>
    materialized n = list_of (first_graph env d) \<and> journal n = []"
proof -
  let ?n = "dy_list (first_graph env d)"
  have n: "node_domain ?n = Some d" "\<not> ptr_valid (base ?n)" "journal ?n = []" "i \<noteq> node_obj_id ?n"
      "applied_journal_size ?n = kJournalFullyMaterialized"
    using assms by (simp_all add: BuildDynamicObjectsGraph_def null_ptr_def)
  obtain n' where "InitializeRuntimeNode (ops_of env (first_graph env d)) True (new_item_list (dye_ae env)) i ?n = Some n'"
      "materialized n' = materialized ?n" "node_inv (ops_of env (first_graph env d)) id n'" "journal n' = []"
    using initialized_node [OF n] unfolding ItemList_ops_def by blast
  then show ?thesis using n(2,3) by (auto simp: finalize_node_def)
qed

lemma first_graph_ok:
  assumes "finalized env d i = Some [n]" "ae_valid (dye_ae env) kDemoItemList" "ae_valid (dye_ae env) kDemoItem1"
  shows "items_ok env 0 ((first_graph env d)\<lparr> dy_list := n \<rparr>)"
proof -
  have "i \<noteq> kDemoItemList"
    using assms(1) by (auto simp: finalize_node_def InitializeRuntimeNode_def CaptureBaseStateInto_def BuildDynamicObjectsGraph_def
      null_ptr_def assert_that_def)
  then have "node_inv (ops_of env (first_graph env d)) id n" "materialized n = list_of (first_graph env d)"
    using first_list_made [of i env d] assms(1) by auto
  then show ?thesis using assms(2,3) by (simp add: items_ok_def item_numbers_def BuildDynamicObjectsGraph_def)
qed

lemma dynamic_run_ok:
  assumes "dynamic_run env d k g" "ae_valid (dye_ae env) kDemoItemList" "ae_valid (dye_ae env) kDemoItem1" "k < 2 ^ 32 - 1"
  shows "items_ok env k g"
  using assms
proof (induction rule: dynamic_run.induct)
  case (first i n)
  then show ?case using first_graph_ok by blast
next
  case (work k g w g')
  show ?case
  proof (cases w)
    case (ClickAdd ck)
    then have "items_ok env k g" "k < 2 ^ 32 - 2" using work by auto
    then show ?thesis using click_adds_item [of env k g ck] work ClickAdd by auto
  next
    case (ClickRemove cenv i)
    then have "items_ok env k g" using work by simp
    then show ?thesis using remove_drops_item [of env k g cenv i] work ClickRemove by (auto simp: assert_that_def split: if_splits)
  qed
qed

text \<open>Over every run of clicks on the dynamic objects example, from its finalized first graph on and with fewer than
  2^32 - 2 items added, no work aborts; adding appends a new item whose number is above that of every live item, removing
  takes exactly the item out and does nothing the second time; live items are listed once and have different numbers.\<close>

theorem items_listed_and_numbered_once:
  assumes "dynamic_run env d k g" "ae_valid (dye_ae env) kDemoItemList" "ae_valid (dye_ae env) kDemoItem1" "k < 2 ^ 32 - 2"
  shows "distinct (items (list_of g)) \<and> distinct (item_numbers g) \<and> None \<notin> set (item_numbers g) \<and>
    (\<forall>w. node_ready (ops_of env g) (dy_list g) \<and> item_work_fits env w g \<longrightarrow>
      (\<exists>g'. run_item_work env w g = Some g' \<and> (case w of
          ClickAdd ck \<Rightarrow> items (list_of g') = items (list_of g) @ [ck_item ck] \<and>
            (\<exists>m. item_numbers g' = item_numbers g @ [Some m] \<and> (\<forall>x. Some x \<in> set (item_numbers g) \<longrightarrow> x < m))
        | ClickRemove cenv i \<Rightarrow> items (list_of g') = removeAll i (items (list_of g)) \<and>
            (i \<notin> set (items (list_of g)) \<longrightarrow> g' = g))))"
proof -
  have ok: "items_ok env k g" using dynamic_run_ok [OF assms(1-3)] assms(4) by simp
  have "\<exists>g'. run_item_work env w g = Some g' \<and> (case w of
          ClickAdd ck \<Rightarrow> items (list_of g') = items (list_of g) @ [ck_item ck] \<and>
            (\<exists>m. item_numbers g' = item_numbers g @ [Some m] \<and> (\<forall>x. Some x \<in> set (item_numbers g) \<longrightarrow> x < m))
        | ClickRemove cenv i \<Rightarrow> items (list_of g') = removeAll i (items (list_of g)) \<and>
            (i \<notin> set (items (list_of g)) \<longrightarrow> g' = g))"
    if ready: "node_ready (ops_of env g) (dy_list g)" and fits: "item_work_fits env w g" for w
  proof (cases w)
    case (ClickAdd ck)
    obtain g' it where g': "AddItem_Click env ck g = Some g'" "items (list_of g') = items (list_of g) @ [ck_item ck]"
        "dy_items g' = (dy_items g)(ck_item ck \<mapsto> it)"
        "\<forall>i\<in>set (items (list_of g)). \<forall>x. dy_items g i = Some x \<longrightarrow> item_number x < item_number it"
      using click_adds_item [OF ok assms(4) ready] fits ClickAdd by blast
    have "ck_item ck \<notin> set (items (list_of g))" using ok fits ClickAdd by (auto simp: items_ok_def)
    then have "item_numbers g' = item_numbers g @ [Some (item_number it)]" by (auto simp: item_numbers_def g'(2,3))
    moreover have "\<forall>x. Some x \<in> set (item_numbers g) \<longrightarrow> x < item_number it"
      using g'(4) by (auto simp: item_numbers_def map_option_case split: option.splits)
    ultimately show ?thesis using g'(1,2) ClickAdd by auto
  next
    case (ClickRemove cenv i)
    then show ?thesis using remove_drops_item [OF ok ready, of cenv i] fits by auto
  qed
  then show ?thesis using ok by (auto simp: items_ok_def item_numbers_def)
qed

definition sample_dynamic_env :: dynamic_env where
  "sample_dynamic_env = \<lparr> dye_ae = sample_aether, dye_missing = id \<rparr>"

definition sample_click :: click_env where
  "sample_click = \<lparr> ck_item = 20, ck_presenter = 21, ck_commit = \<lparr> ce_event_id = 22, ce_now1 = 5, ce_now2 = 5, ce_now3 = 5 \<rparr> \<rparr>"

lemma items_listed_and_numbered_once_witness:
  "\<exists>g g' m. dynamic_run sample_dynamic_env 0 0 g \<and> run_item_work sample_dynamic_env (ClickAdd sample_click) g = Some g' \<and>
    items (list_of g') = [6, 20] \<and> item_numbers g' = [Some 1, Some m] \<and> 1 < m"
proof -
  obtain n where n: "finalized sample_dynamic_env 0 10 = Some [n]" "node_inv (ops_of sample_dynamic_env (first_graph sample_dynamic_env 0)) id n"
    "materialized n = list_of (first_graph sample_dynamic_env 0)" "journal n = []"
    using first_list_made [of 10 sample_dynamic_env 0] by (auto simp: demo_ids)
  let ?g = "(first_graph sample_dynamic_env 0)\<lparr> dy_list := n \<rparr>"
  have run: "dynamic_run sample_dynamic_env 0 0 ?g" by (rule dynamic_run.first [OF n(1)])
  have ids: "ae_valid (dye_ae sample_dynamic_env) kDemoItemList" "ae_valid (dye_ae sample_dynamic_env) kDemoItem1"
    by (simp_all add: sample_dynamic_env_def sample_aether_def demo_ids)
  have before: "items (list_of ?g) = [6]" "item_numbers ?g = [Some 1]"
    by (simp_all add: n(3) item_numbers_def BuildDynamicObjectsGraph_def demo_ids)
  have "node_ready (ops_of sample_dynamic_env ?g) (dy_list ?g)" using n(2,4) by (simp add: node_ready_def kJournalFullyMaterialized_def)
  moreover have "item_work_fits sample_dynamic_env (ClickAdd sample_click) ?g"
    by (simp add: sample_click_def sample_dynamic_env_def sample_aether_def BuildDynamicObjectsGraph_def demo_ids)
  ultimately obtain g' m where "run_item_work sample_dynamic_env (ClickAdd sample_click) ?g = Some g'"
      "items (list_of g') = items (list_of ?g) @ [ck_item sample_click]" "item_numbers g' = item_numbers ?g @ [Some m]"
      "\<forall>x. Some x \<in> set (item_numbers ?g) \<longrightarrow> x < m"
    using items_listed_and_numbered_once [OF run ids] by fastforce
  then show ?thesis using run before by (intro exI [of _ ?g] exI [of _ g'] exI [of _ m]) (simp add: sample_click_def)
qed

end
