(* ===== verification/NetworkGraph.thy ===== *)
theory NetworkGraph
  imports SyncFrame
begin

text \<open>
  Object graphs as bytes (src/src/shared_network_graph.cpp and .h): validation of the stored class
  chain_infos of an untrusted graph, transfer into a replica's storage, and the freeze, parse, validate
  and import path of a standalone event.

  A RamDomainStorage is its \<open>state\<close> member, a \<open>std::map\<close> from object id to an optional map from class
  to version to bytes: an association list in key order.  A replica's storage is the map from a query
  (object, class, version) to the stored bytes.  The binary archive and the loading of objects belong
  to aether-objects; \<open>graph_io\<close> holds them as functions.  Storing does not fail here: a failed write is
  an assertion of the source where it is checked at all.
\<close>

section \<open>Storages\<close>

type_synonym class_layers = "(class_id \<times> (u8 \<times> bytes) list) list"
type_synonym ram_state = "(obj_id \<times> class_layers option) list"
type_synonym domain_query = "obj_id \<times> class_id \<times> u8"
type_synonym disk = "domain_query \<Rightarrow> bytes option"

definition Enumerate_empty :: "disk \<Rightarrow> obj_id \<Rightarrow> bool" where
  "Enumerate_empty d i \<longleftrightarrow> (\<forall>c v. d (i, c, v) = None)"

definition active :: "ram_state \<Rightarrow> obj_id list" where
  "active st = map fst (filter (\<lambda>(i, classes). classes \<noteq> None) st)"

definition layers_of :: "ram_state \<Rightarrow> obj_id \<Rightarrow> class_layers option" where
  "layers_of st i = Option.bind (map_of st i) (\<lambda>x. x)"

record graph_io =
  gio_save_id :: "obj_id \<Rightarrow> bytes"
  gio_save_state :: "ram_state \<Rightarrow> bytes"
  gio_load_id :: "bytes \<Rightarrow> (obj_id \<times> nat) option"
  gio_load_state :: "bytes \<Rightarrow> nat \<Rightarrow> (ram_state \<times> nat) option"
  gio_load_root :: "ram_state \<Rightarrow> obj_id \<Rightarrow> class_id option"

section \<open>Serialization\<close>

definition SerializeObjectGraph :: "graph_io \<Rightarrow> ram_state \<Rightarrow> bytes" where
  "SerializeObjectGraph io st = gio_save_state io st"

definition DeserializeObjectGraph :: "graph_io \<Rightarrow> bytes \<Rightarrow> ram_state option" where
  "DeserializeObjectGraph io payload = do {
     (st, pos) \<leftarrow> gio_load_state io payload 0;
     if pos = length payload then Some st else None }"

section \<open>Transfer\<close>

text \<open>Every (class, version, bytes) of an object, in the order of the two nested maps.\<close>

definition flat_layers :: "class_layers \<Rightarrow> (class_id \<times> u8 \<times> bytes) list" where
  "flat_layers ls = concat (map (\<lambda>(c, vs). map (\<lambda>(v, data). (c, v, data)) vs) ls)"

definition store_layers :: "obj_id \<Rightarrow> class_layers \<Rightarrow> disk \<Rightarrow> disk" where
  "store_layers i ls d = fold (\<lambda>(c, v, data) d. d((i, c, v) \<mapsto> data)) (flat_layers ls) d"

definition TransferRamObject :: "ram_state \<Rightarrow> obj_id \<Rightarrow> disk \<Rightarrow> disk" where
  "TransferRamObject st i d = (case layers_of st i of None \<Rightarrow> d | Some ls \<Rightarrow> store_layers i ls d)"

definition CommitObjectGraph :: "ram_state \<Rightarrow> disk \<Rightarrow> disk" where
  "CommitObjectGraph st d = fold (\<lambda>(i, classes) d. if classes = None then d else TransferRamObject st i d) st d"

definition ImportObjectGraphPayload :: "graph_io \<Rightarrow> bytes \<Rightarrow> disk \<Rightarrow> bool \<times> disk" where
  "ImportObjectGraphPayload io payload d =
     (case DeserializeObjectGraph io payload of
        None \<Rightarrow> (False, d)
      | Some parsed \<Rightarrow> (True, CommitObjectGraph parsed d))"

definition CopyStoredObjectAs :: "ram_state \<Rightarrow> obj_id \<Rightarrow> obj_id \<Rightarrow> disk \<Rightarrow> disk option" where
  "CopyStoredObjectAs st source_id destination_id d =
     (case layers_of st source_id of None \<Rightarrow> None | Some ls \<Rightarrow> Some (store_layers destination_id ls d))"

text \<open>The loop of AllocateUniqueReceiverObjId: \<open>gen k\<close> is the k-th id GenerateUnique returns.  The loop
  has no bound; \<open>None\<close> is a run that never ends.\<close>

definition id_is_free :: "aether \<Rightarrow> (obj_id \<Rightarrow> bool) \<Rightarrow> disk \<Rightarrow> obj_id set \<Rightarrow> obj_id \<Rightarrow> bool" where
  "id_is_free ae in_domain d reserved i \<longleftrightarrow>
     ae_valid ae i \<and> i \<notin> reserved \<and> \<not> in_domain i \<and> Enumerate_empty d i"

partial_function (option) AllocateUniqueReceiverObjId ::
  "aether \<Rightarrow> (obj_id \<Rightarrow> bool) \<Rightarrow> disk \<Rightarrow> obj_id set \<Rightarrow> (nat \<Rightarrow> obj_id) \<Rightarrow> nat \<Rightarrow> obj_id option" where
  "AllocateUniqueReceiverObjId ae in_domain d reserved gen k =
     (if id_is_free ae in_domain d reserved (gen k) then Some (gen k)
      else AllocateUniqueReceiverObjId ae in_domain d reserved gen (Suc k))"

section \<open>Class chain_infos\<close>

record chain_info =
  ci_obj_id :: obj_id
  ci_chain :: "class_id list"
  ci_most_derived :: class_id

text \<open>The comparator of the sort, base before derived.\<close>

definition chain_less :: "aether \<Rightarrow> class_id \<Rightarrow> class_id \<Rightarrow> bool" where
  "chain_less ae a b =
     (if a = b then False
      else if a = ae_obj_class ae then True
      else if b = ae_obj_class ae then False
      else ae_distance ae a b > 0)"

text \<open>\<open>std::sort\<close> by a comparator.  Its result is determined up to equivalent elements; this one is the
  insertion sort.\<close>

fun insert_by :: "('a \<Rightarrow> 'a \<Rightarrow> bool) \<Rightarrow> 'a \<Rightarrow> 'a list \<Rightarrow> 'a list" where
  "insert_by lt x [] = [x]"
| "insert_by lt x (y # ys) = (if lt y x then y # insert_by lt x ys else x # y # ys)"

fun sort_by :: "('a \<Rightarrow> 'a \<Rightarrow> bool) \<Rightarrow> 'a list \<Rightarrow> 'a list" where
  "sort_by lt [] = []"
| "sort_by lt (x # xs) = insert_by lt x (sort_by lt xs)"

definition related :: "aether \<Rightarrow> class_id \<Rightarrow> class_id \<Rightarrow> bool" where
  "related ae c1 c2 \<longleftrightarrow> c1 = ae_obj_class ae \<or> c2 = ae_obj_class ae \<or>
     \<not> (ae_distance ae c1 c2 < 0 \<and> ae_distance ae c2 c1 < 0)"

fun pairwise :: "('a \<Rightarrow> 'a \<Rightarrow> bool) \<Rightarrow> 'a list \<Rightarrow> bool" where
  "pairwise R [] = True"
| "pairwise R (x # xs) = ((\<forall>y\<in>set xs. R x y) \<and> pairwise R xs)"

definition check_class_chain :: "aether \<Rightarrow> obj_id \<Rightarrow> class_layers \<Rightarrow> chain_info option" where
  "check_class_chain ae i classes =
     (if \<not> ae_valid ae i then None
      else if classes = [] then None
      else if (\<exists>(c, versions)\<in>set classes. (c \<noteq> ae_obj_class ae \<and> \<not> ae_existing ae c) \<or> versions = []) then None
      else if \<not> pairwise (related ae) (map fst classes) then None
      else let chain = sort_by (chain_less ae) (map fst classes); most_derived = last chain in
        if most_derived = ae_obj_class ae then None
        else if \<not> ae_factory ae most_derived then None
        else if (\<exists>c\<in>set chain. c \<noteq> ae_obj_class ae \<and> ae_distance ae c most_derived < 0) then None
        else Some \<lparr> ci_obj_id = i, ci_chain = chain, ci_most_derived = most_derived \<rparr>)"

fun ValidateStoredClassChains :: "aether \<Rightarrow> ram_state \<Rightarrow> chain_info list option" where
  "ValidateStoredClassChains ae [] = Some []"
| "ValidateStoredClassChains ae ((i, None) # rest) = ValidateStoredClassChains ae rest"
| "ValidateStoredClassChains ae ((i, Some classes) # rest) = do {
     info \<leftarrow> check_class_chain ae i classes;
     infos \<leftarrow> ValidateStoredClassChains ae rest;
     Some (info # infos) }"

section \<open>Standalone events\<close>

definition ValidateStandaloneEventGraph :: "aether \<Rightarrow> graph_io \<Rightarrow> ram_state \<Rightarrow> obj_id \<Rightarrow> class_id \<Rightarrow> bool" where
  "ValidateStandaloneEventGraph ae io parsed root_id expected \<longleftrightarrow>
     ae_valid ae root_id \<and>
     (case ValidateStoredClassChains ae parsed of
        None \<Rightarrow> False
      | Some chain_infos \<Rightarrow>
          length (active parsed) = 1 \<and> last (active parsed) = root_id \<and>
          (case find (\<lambda>info. ci_obj_id info = root_id) chain_infos of
             None \<Rightarrow> False
           | Some info \<Rightarrow>
               ci_most_derived info = expected \<and>
               ae_distance ae (ae_event_class ae) expected \<ge> 0 \<and>
               gio_load_root io parsed root_id = Some expected))"

text \<open>A pointer field as a serializer meets it: its static class, whether it is local.\<close>

record pointer_field =
  pf_class :: class_id
  pf_local :: bool
  pf_valid :: bool
  pf_id :: obj_id
  pf_loaded :: bool

text \<open>HandlePointerSeri in validation mode: the reference closure of an event graph.\<close>

definition pointer_validates :: "aether \<Rightarrow> ram_state \<Rightarrow> chain_info list \<Rightarrow> pointer_field \<Rightarrow> bool" where
  "pointer_validates ae parsed chain_infos p =
     (if pf_local p then \<not> pf_valid p
      else if \<not> pf_valid p then True
      else if layers_of parsed (pf_id p) = None then False
      else case find (\<lambda>info. ci_obj_id info = pf_id p) chain_infos of
        None \<Rightarrow> False
      | Some info \<Rightarrow> ae_distance ae (pf_class p) (ci_most_derived info) \<ge> 0 \<and> pf_loaded p)"

text \<open>\<open>fields_of\<close> are the pointers a SaveRoot of a loaded object visits.\<close>

definition ValidateClosedEventGraphStorage ::
  "aether \<Rightarrow> graph_io \<Rightarrow> (obj_id \<Rightarrow> pointer_field list) \<Rightarrow> ram_state \<Rightarrow> obj_id \<Rightarrow> class_id \<Rightarrow> chain_info list option" where
  "ValidateClosedEventGraphStorage ae io fields_of parsed root expected =
     (if \<not> ae_valid ae root then None
      else if layers_of parsed root = None then None
      else do {
        chain_infos \<leftarrow> ValidateStoredClassChains ae parsed;
        info \<leftarrow> find (\<lambda>info. ci_obj_id info = root) chain_infos;
        if ae_distance ae (ae_event_class ae) (ci_most_derived info) < 0 then None
        else if expected \<noteq> 0 \<and> ci_most_derived info \<noteq> expected then None
        else if gio_load_root io parsed root = None then None
        else if (\<exists>c\<in>set chain_infos. gio_load_root io parsed (ci_obj_id c) = None) then None
        else if \<not> (\<forall>c\<in>set chain_infos. \<forall>p\<in>set (fields_of (ci_obj_id c)). pointer_validates ae parsed chain_infos p) then None
        else Some chain_infos })"

definition permitted_ids :: "aether \<Rightarrow> obj_id list \<Rightarrow> obj_id set" where
  "permitted_ids ae ids = {i \<in> set ids. ae_valid ae i}"

text \<open>\<open>scratch\<close> is the network-shared view that BuildNetworkSharedScratch saves.\<close>

definition FreezeEventPayload ::
  "aether \<Rightarrow> graph_io \<Rightarrow> (obj_id \<Rightarrow> pointer_field list) \<Rightarrow> obj_id set \<Rightarrow> obj_id \<Rightarrow> class_id \<Rightarrow> ram_state \<Rightarrow> bytes option" where
  "FreezeEventPayload ae io fields_of boundary event_id event_class scratch =
     (if event_id \<notin> boundary then None
      else if \<not> (\<forall>i\<in>set (active scratch). i \<in> boundary) then None
      else if ValidateClosedEventGraphStorage ae io fields_of scratch event_id event_class = None then None
      else Some (gio_save_id io event_id @ gio_save_state io scratch))"

definition FreezeStandaloneEventPayload ::
  "aether \<Rightarrow> graph_io \<Rightarrow> (obj_id \<Rightarrow> pointer_field list) \<Rightarrow> obj_id \<Rightarrow> class_id \<Rightarrow> ram_state \<Rightarrow> bytes option" where
  "FreezeStandaloneEventPayload ae io fields_of event_id event_class scratch =
     FreezeEventPayload ae io fields_of (permitted_ids ae [event_id]) event_id event_class scratch"

definition ParseEventPayload :: "aether \<Rightarrow> graph_io \<Rightarrow> bytes \<Rightarrow> (ram_state \<times> obj_id) option" where
  "ParseEventPayload ae io payload = do {
     (root, pos) \<leftarrow> gio_load_id io payload;
     if \<not> ae_valid ae root then None else do {
     (parsed, pos) \<leftarrow> gio_load_state io payload pos;
     if pos \<noteq> length payload then None
     else if layers_of parsed root = None then None
     else Some (parsed, root) }}"

text \<open>Import under a fresh id.  \<open>load_at\<close> is the class of the object that loads from the receiver storage
  under an id.\<close>

definition ImportStandaloneEventGraph ::
  "aether \<Rightarrow> graph_io \<Rightarrow> (disk \<Rightarrow> obj_id \<Rightarrow> class_id option) \<Rightarrow> (obj_id \<Rightarrow> bool) \<Rightarrow> (nat \<Rightarrow> obj_id) \<Rightarrow>
   ram_state \<Rightarrow> obj_id \<Rightarrow> class_id \<Rightarrow> disk \<Rightarrow> (obj_id option \<times> disk) option" where
  "ImportStandaloneEventGraph ae io load_at in_domain gen parsed root expected d =
     (if \<not> ValidateStandaloneEventGraph ae io parsed root expected then Some (None, d)
      else do {
        destination \<leftarrow> AllocateUniqueReceiverObjId ae in_domain d {} gen 0;
        if \<not> ae_valid ae destination then Some (None, d)
        else case CopyStoredObjectAs parsed root destination d of
          None \<Rightarrow> Some (None, d)
        | Some d \<Rightarrow>
            if load_at d destination = Some expected then Some (Some destination, d)
            else Some (None, d) })"

section \<open>Storing\<close>

lemma layers_of_active: "layers_of st i = Some ls \<Longrightarrow> i \<in> set (active st)"
  by (force simp: layers_of_def active_def dest!: map_of_SomeD split: Option.bind_splits)

lemma fold_store_other:
  "j \<noteq> i \<Longrightarrow> fold (\<lambda>(c, v, data) d. d((i, c, v) \<mapsto> data)) xs d (j, c, v) = d (j, c, v)"
  by (induction xs arbitrary: d) auto

lemma store_layers_other [simp]: "j \<noteq> i \<Longrightarrow> store_layers i ls d (j, c, v) = d (j, c, v)"
  by (simp add: store_layers_def fold_store_other)

lemma fold_store_get:
  assumes "distinct (map (\<lambda>(c, v, data). (c, v)) xs)" "(c, v, data) \<in> set xs"
  shows "fold (\<lambda>(c, v, data) d. d((i, c, v) \<mapsto> data)) xs d (i, c, v) = Some data"
  using assms
proof (induction xs arbitrary: d)
  case (Cons x xs)
  have skip: "fold (\<lambda>(c, v, data) d. d((i, c, v) \<mapsto> data)) ys e (i, c, v) = e (i, c, v)"
    if "(c, v) \<notin> (\<lambda>(c, v, data). (c, v)) ` set ys" for ys e
    using that by (induction ys arbitrary: e) auto
  show ?case
  proof (cases "x = (c, v, data)")
    case True
    then have "(c, v) \<notin> (\<lambda>(c, v, data). (c, v)) ` set xs" using Cons.prems(1) by (simp add: image_set [symmetric] del: image_set)
    from skip [OF this] have "fold (\<lambda>(c, v, data) d. d((i, c, v) \<mapsto> data)) xs (d((i, c, v) \<mapsto> data)) (i, c, v) =
        (d((i, c, v) \<mapsto> data)) (i, c, v)" .
    then show ?thesis unfolding True fold_simps prod.case fun_upd_same .
  next
    case False
    then show ?thesis using Cons by auto
  qed
qed simp

lemma store_layers_get:
  "distinct (map (\<lambda>(c, v, data). (c, v)) (flat_layers ls)) \<Longrightarrow> (c, v, data) \<in> set (flat_layers ls) \<Longrightarrow>
   store_layers i ls d (i, c, v) = Some data"
  unfolding store_layers_def by (rule fold_store_get)

lemma TransferRamObject_other: "j \<noteq> i \<Longrightarrow> TransferRamObject st i d (j, c, v) = d (j, c, v)"
  by (simp add: TransferRamObject_def split: option.split)

lemma CommitObjectGraph_other_aux:
  "(\<And>ls. (i, Some ls) \<notin> set xs) \<Longrightarrow>
   fold (\<lambda>(i, classes) d. if classes = None then d else TransferRamObject st i d) xs d (i, c, v) = d (i, c, v)"
proof (induction xs arbitrary: d)
  case (Cons x xs)
  obtain j cl where x: "x = (j, cl)" by (cases x)
  have "cl \<noteq> None \<Longrightarrow> j \<noteq> i" using Cons.prems x by (cases cl) auto
  then show ?case using Cons x by (auto simp: TransferRamObject_other)
qed simp

lemma CommitObjectGraph_other: "i \<notin> set (active st) \<Longrightarrow> CommitObjectGraph st d (i, c, v) = d (i, c, v)"
  unfolding CommitObjectGraph_def
  by (rule CommitObjectGraph_other_aux) (force simp: active_def)

section \<open>Allocation of ids\<close>

lemma AllocateUniqueReceiverObjId_free:
  "AllocateUniqueReceiverObjId ae ind d reserved gen k = Some i \<Longrightarrow> id_is_free ae ind d reserved i"
  by (erule AllocateUniqueReceiverObjId.raw_induct [rotated]) (auto split: if_splits)

text \<open>The loop ends as soon as the generator produces a free id.\<close>

lemma AllocateUniqueReceiverObjId_ends:
  "id_is_free ae ind d reserved (gen (k + m)) \<Longrightarrow> \<exists>i. AllocateUniqueReceiverObjId ae ind d reserved gen k = Some i"
proof (induction m arbitrary: k)
  case 0
  then show ?case by (subst AllocateUniqueReceiverObjId.simps) simp
next
  case (Suc m)
  then have "\<exists>i. AllocateUniqueReceiverObjId ae ind d reserved gen (Suc k) = Some i"
    by (intro Suc.IH) simp
  then show ?case by (subst AllocateUniqueReceiverObjId.simps) simp
qed

section \<open>Validated graphs\<close>

lemma set_insert_by [simp]: "set (insert_by lt x xs) = insert x (set xs)"
  by (induction xs) auto

lemma set_sort_by [simp]: "set (sort_by lt xs) = set xs"
  by (induction xs) auto

lemma check_class_chainD:
  assumes "check_class_chain ae i classes = Some info"
  shows "ae_valid ae i \<and> ci_obj_id info = i \<and> set (ci_chain info) = fst ` set classes \<and>
    ci_most_derived info \<in> fst ` set classes \<and> ci_most_derived info \<noteq> ae_obj_class ae \<and>
    ae_factory ae (ci_most_derived info) \<and>
    (\<forall>c\<in>set (ci_chain info). c = ae_obj_class ae \<or> ae_existing ae c \<and> ae_distance ae c (ci_most_derived info) \<ge> 0)"
proof -
  let ?chain = "sort_by (chain_less ae) (map fst classes)"
  have ne: "classes \<noteq> []" and info: "info = \<lparr> ci_obj_id = i, ci_chain = ?chain, ci_most_derived = last ?chain \<rparr>"
    and ok: "ae_valid ae i" "last ?chain \<noteq> ae_obj_class ae" "ae_factory ae (last ?chain)"
      "\<not> (\<exists>c\<in>set ?chain. c \<noteq> ae_obj_class ae \<and> ae_distance ae c (last ?chain) < 0)"
      "\<not> (\<exists>(c, versions)\<in>set classes. (c \<noteq> ae_obj_class ae \<and> \<not> ae_existing ae c) \<or> versions = [])"
    using assms by (auto simp: check_class_chain_def Let_def split: if_splits)
  have "set ?chain = fst ` set classes" by simp
  moreover have "?chain \<noteq> []" using ne \<open>set ?chain = _\<close> by (metis image_is_empty list.set(1) set_empty)
  ultimately have "last ?chain \<in> fst ` set classes" by (metis last_in_set)
  then show ?thesis using ok by (force simp: info)
qed

lemma ValidateStoredClassChains_ids:
  "ValidateStoredClassChains ae parsed = Some infos \<Longrightarrow> map ci_obj_id infos = active parsed"
  by (induction ae parsed arbitrary: infos rule: ValidateStoredClassChains.induct)
    (auto simp: active_def dest!: check_class_chainD split: Option.bind_splits)

lemma ValidateStoredClassChains_each:
  "ValidateStoredClassChains ae parsed = Some infos \<Longrightarrow> info \<in> set infos \<Longrightarrow>
   \<exists>i classes. (i, Some classes) \<in> set parsed \<and> check_class_chain ae i classes = Some info"
proof (induction ae parsed arbitrary: infos rule: ValidateStoredClassChains.induct)
  case (2 ae i rest)
  then show ?case by fastforce
next
  case (3 ae i classes rest)
  obtain a as where a: "check_class_chain ae i classes = Some a" and as: "ValidateStoredClassChains ae rest = Some as"
    and infos: "infos = a # as" using "3.prems"(1) by (auto split: Option.bind_splits)
  show ?case
  proof (cases "info = a")
    case False
    then obtain j cl where "(j, Some cl) \<in> set rest" "check_class_chain ae j cl = Some info"
      using "3.IH" [OF a as] "3.prems"(2) infos by auto
    then show ?thesis by (intro exI [of _ j] exI [of _ cl]) simp
  qed (use a in auto)
qed simp

lemma ValidateStandaloneD:
  assumes "ValidateStandaloneEventGraph ae io parsed root expected"
  shows "active parsed = [root] \<and> ae_valid ae root \<and> ae_factory ae expected \<and>
    ae_distance ae (ae_event_class ae) expected \<ge> 0 \<and> gio_load_root io parsed root = Some expected"
proof -
  obtain infos info where v: "ValidateStoredClassChains ae parsed = Some infos"
    and len: "length (active parsed) = 1" "last (active parsed) = root"
    and f: "find (\<lambda>info. ci_obj_id info = root) infos = Some info" and m: "ci_most_derived info = expected"
    and r: "ae_valid ae root" "ae_distance ae (ae_event_class ae) expected \<ge> 0" "gio_load_root io parsed root = Some expected"
    using assms by (auto simp: ValidateStandaloneEventGraph_def split: option.splits)
  have "active parsed = [root]" using len by (cases "active parsed") auto
  moreover have "info \<in> set infos" using f by (auto simp: find_Some_iff)
  then have "ae_factory ae expected"
    using ValidateStoredClassChains_each [OF v] check_class_chainD m by metis
  ultimately show ?thesis using r by simp
qed

text \<open>An import, accepted or not, leaves everything that was stored untouched.\<close>

lemma ImportStandalone_keeps:
  assumes "ImportStandaloneEventGraph ae io load_at ind gen parsed root expected d = Some (r, d')"
    "d (j, c, v) \<noteq> None"
  shows "d' (j, c, v) = d (j, c, v)"
proof (cases "d' = d")
  case False
  then obtain i ls where i: "AllocateUniqueReceiverObjId ae ind d {} gen 0 = Some i"
    and d': "d' = store_layers i ls d"
    using assms(1) by (auto simp: ImportStandaloneEventGraph_def CopyStoredObjectAs_def
        split: if_splits Option.bind_splits option.splits)
  have "Enumerate_empty d i" using AllocateUniqueReceiverObjId_free [OF i] by (simp add: id_is_free_def)
  then have "j \<noteq> i" using assms(2) by (auto simp: Enumerate_empty_def)
  then show ?thesis by (simp add: d')
qed simp

lemma ImportStandalone_id:
  assumes "ImportStandaloneEventGraph ae io load_at ind gen parsed root expected d = Some (Some i, d')"
  shows "id_is_free ae ind d {} i \<and> ValidateStandaloneEventGraph ae io parsed root expected \<and>
    load_at d' i = Some expected \<and> (\<exists>ls. layers_of parsed root = Some ls \<and> d' = store_layers i ls d)"
  using assms AllocateUniqueReceiverObjId_free
  by (fastforce simp: ImportStandaloneEventGraph_def CopyStoredObjectAs_def
      split: if_splits Option.bind_splits option.splits)

end
