(* ===== verification/GraphProperties.thy ===== *)
theory GraphProperties
  imports NetworkGraph
begin

text \<open>
  What the network object graphs promise: allocation of ids, import of standalone events, validated class
  chains, and the agreement of freezing with parsing.  The binary archive is third-party code and a
  parameter; its law is \<open>archive_ok\<close>, and \<open>sample_io\<close> is an archive that meets it.
\<close>

section \<open>The law of the archive\<close>

definition archive_ok :: "graph_io \<Rightarrow> bool" where
  "archive_ok io \<longleftrightarrow>
     (\<forall>i rest. gio_load_id io (gio_save_id io i @ rest) = Some (i, length (gio_save_id io i))) \<and>
     (\<forall>pre st. gio_load_state io (pre @ gio_save_state io st) (length pre) =
        Some (st, length pre + length (gio_save_state io st)))"

text \<open>A small archive: numbers in unary, lists by their length.\<close>

definition wr_nat :: "nat \<Rightarrow> bytes" where
  "wr_nat n = replicate n 1 @ [0]"

fun rd_nat :: "bytes \<Rightarrow> (nat \<times> bytes) option" where
  "rd_nat [] = None"
| "rd_nat (b # bs) = (if b = 0 then Some (0, bs) else map_option (\<lambda>(n, r). (Suc n, r)) (rd_nat bs))"

definition wr_list :: "('a \<Rightarrow> bytes) \<Rightarrow> 'a list \<Rightarrow> bytes" where
  "wr_list p xs = wr_nat (length xs) @ concat (map p xs)"

primrec rd_many :: "(bytes \<Rightarrow> ('a \<times> bytes) option) \<Rightarrow> nat \<Rightarrow> bytes \<Rightarrow> ('a list \<times> bytes) option" where
  "rd_many g 0 bs = Some ([], bs)"
| "rd_many g (Suc n) bs = do { (x, bs) \<leftarrow> g bs; (xs, bs) \<leftarrow> rd_many g n bs; Some (x # xs, bs) }"

definition rd_list :: "(bytes \<Rightarrow> ('a \<times> bytes) option) \<Rightarrow> bytes \<Rightarrow> ('a list \<times> bytes) option" where
  "rd_list g bs = do { (n, bs) \<leftarrow> rd_nat bs; rd_many g n bs }"

definition wr_pair :: "('a \<Rightarrow> bytes) \<Rightarrow> ('b \<Rightarrow> bytes) \<Rightarrow> 'a \<times> 'b \<Rightarrow> bytes" where
  "wr_pair p q x = p (fst x) @ q (snd x)"

definition rd_pair ::
  "(bytes \<Rightarrow> ('a \<times> bytes) option) \<Rightarrow> (bytes \<Rightarrow> ('b \<times> bytes) option) \<Rightarrow> bytes \<Rightarrow> (('a \<times> 'b) \<times> bytes) option" where
  "rd_pair g h bs = do { (x, bs) \<leftarrow> g bs; (y, bs) \<leftarrow> h bs; Some ((x, y), bs) }"

definition wr_opt :: "('a \<Rightarrow> bytes) \<Rightarrow> 'a option \<Rightarrow> bytes" where
  "wr_opt p x = wr_list p (case x of None \<Rightarrow> [] | Some y \<Rightarrow> [y])"

definition rd_opt :: "(bytes \<Rightarrow> ('a \<times> bytes) option) \<Rightarrow> bytes \<Rightarrow> ('a option \<times> bytes) option" where
  "rd_opt g bs = do { (xs, bs) \<leftarrow> rd_list g bs; Some (case xs of [] \<Rightarrow> None | y # _ \<Rightarrow> Some y, bs) }"

definition wr_word :: "'a::len word \<Rightarrow> bytes" where
  "wr_word w = wr_nat (unat w)"

definition rd_word :: "bytes \<Rightarrow> ('a::len word \<times> bytes) option" where
  "rd_word bs = map_option (\<lambda>(n, r). (of_nat n, r)) (rd_nat bs)"

definition reads :: "('a \<Rightarrow> bytes) \<Rightarrow> (bytes \<Rightarrow> ('a \<times> bytes) option) \<Rightarrow> bool" where
  "reads p g \<longleftrightarrow> (\<forall>x rest. g (p x @ rest) = Some (x, rest))"

lemma rd_wr_nat [simp]: "rd_nat (wr_nat n @ rest) = Some (n, rest)"
  by (induction n) (simp_all add: wr_nat_def)

lemma reads_word [intro]: "reads wr_word rd_word"
  by (simp add: reads_def wr_word_def rd_word_def)

lemma reads_many: "reads p g \<Longrightarrow> rd_many g (length xs) (concat (map p xs) @ rest) = Some (xs, rest)"
  by (induction xs) (simp_all add: reads_def)

lemma reads_list [intro]: "reads p g \<Longrightarrow> reads (wr_list p) (rd_list g)"
  by (simp add: reads_def [of "wr_list p"] wr_list_def rd_list_def reads_many)

lemma reads_pair [intro]: "reads p g \<Longrightarrow> reads q h \<Longrightarrow> reads (wr_pair p q) (rd_pair g h)"
  by (simp add: reads_def wr_pair_def rd_pair_def)

lemma reads_opt [intro]: "reads p g \<Longrightarrow> reads (wr_opt p) (rd_opt g)"
  using reads_list [of p g] by (simp add: reads_def wr_opt_def rd_opt_def split: option.split)

definition wr_state :: "ram_state \<Rightarrow> bytes" where
  "wr_state = wr_list (wr_pair wr_word (wr_opt (wr_list (wr_pair wr_word (wr_list (wr_pair wr_word (wr_list wr_word)))))))"

definition rd_state :: "bytes \<Rightarrow> (ram_state \<times> bytes) option" where
  "rd_state = rd_list (rd_pair rd_word (rd_opt (rd_list (rd_pair rd_word (rd_list (rd_pair rd_word (rd_list rd_word)))))))"

lemma reads_state: "reads wr_state rd_state"
  unfolding wr_state_def rd_state_def by (intro reads_list reads_pair reads_opt reads_word)

definition sample_io :: graph_io where
  "sample_io = \<lparr> gio_save_id = wr_word, gio_save_state = wr_state,
     gio_load_id = (\<lambda>bs. map_option (\<lambda>(i, r). (i, length bs - length r)) (rd_word bs)),
     gio_load_state = (\<lambda>bs k. map_option (\<lambda>(st, r). (st, length bs - length r)) (rd_state (drop k bs))),
     gio_load_root = (\<lambda>st i. Option.bind (layers_of st i) (\<lambda>ls. if ls = [] then None else Some (fst (last ls)))) \<rparr>"

lemma sample_io_ok: "archive_ok sample_io"
proof -
  have i: "rd_word (wr_word i @ rest) = Some (i, rest)" for i :: obj_id and rest
    by (simp add: wr_word_def rd_word_def)
  have s: "rd_state (wr_state st) = Some (st, [])" for st
    using reads_state unfolding reads_def by (metis append_Nil2)
  show ?thesis by (simp add: archive_ok_def sample_io_def i s)
qed

section \<open>Freezing and parsing\<close>

text \<open>A frozen event payload is parsed back to the very objects that were frozen, under the event's id, and
  it is only frozen when it holds nothing outside the permitted boundary.\<close>

theorem frozen_payload_parses_back:
  assumes "archive_ok io" "FreezeEventPayload ae io fields_of boundary event_id event_class scratch = Some payload"
  shows "ParseEventPayload ae io payload = Some (scratch, event_id) \<and> set (active scratch) \<subseteq> boundary \<and>
    event_id \<in> set (active scratch)"
proof -
  have b: "event_id \<in> boundary" "set (active scratch) \<subseteq> boundary"
    and v: "ValidateClosedEventGraphStorage ae io fields_of scratch event_id event_class \<noteq> None"
    and p: "payload = gio_save_id io event_id @ gio_save_state io scratch"
    using assms(2) by (auto simp: FreezeEventPayload_def split: if_splits)
  have r: "ae_valid ae event_id" "layers_of scratch event_id \<noteq> None"
    using v by (auto simp: ValidateClosedEventGraphStorage_def split: if_splits)
  have "ParseEventPayload ae io payload = Some (scratch, event_id)"
    using assms(1) r by (simp add: ParseEventPayload_def p archive_ok_def)
  then show ?thesis using b(2) r(2) layers_of_active by auto
qed

definition sample_event_graph :: ram_state where
  "sample_event_graph = [(40, Some [(2, [(0, [])]), (60, [(0, [7, 8])])])]"

lemma sample_graph_validates:
  "ValidateStoredClassChains sample_aether sample_event_graph =
     Some [\<lparr> ci_obj_id = 40, ci_chain = [2, 60], ci_most_derived = 60 \<rparr>]"
  by (simp add: sample_event_graph_def check_class_chain_def sample_aether_def related_def
      chain_less_def Let_def)

lemma sample_graph_closed:
  "ValidateClosedEventGraphStorage sample_aether sample_io (\<lambda>i. []) sample_event_graph 40 60 =
     Some [\<lparr> ci_obj_id = 40, ci_chain = [2, 60], ci_most_derived = 60 \<rparr>]"
  by (simp add: ValidateClosedEventGraphStorage_def sample_graph_validates)
    (simp add: sample_aether_def sample_event_graph_def layers_of_def sample_io_def)

lemma sample_freeze:
  "FreezeStandaloneEventPayload sample_aether sample_io (\<lambda>i. []) 40 60 sample_event_graph =
     Some (gio_save_id sample_io 40 @ gio_save_state sample_io sample_event_graph)"
proof -
  have "permitted_ids sample_aether [40] = {40}" by (auto simp: permitted_ids_def sample_aether_def)
  then show ?thesis
    by (simp add: FreezeStandaloneEventPayload_def FreezeEventPayload_def sample_graph_closed)
      (simp add: sample_event_graph_def active_def)
qed

lemma frozen_payload_parses_back_witness:
  "\<exists>payload. FreezeStandaloneEventPayload sample_aether sample_io (\<lambda>i. []) 40 60 sample_event_graph = Some payload \<and>
    ParseEventPayload sample_aether sample_io payload = Some (sample_event_graph, 40)"
  using frozen_payload_parses_back [OF sample_io_ok sample_freeze [unfolded FreezeStandaloneEventPayload_def]] sample_freeze
  by simp

section \<open>Validated graphs\<close>

text \<open>C29. Validation of the stored class chains accounts for exactly the stored objects, and what it calls an
  object's most derived class is one of its stored classes, registered with a factory, not the root
  class, and a descendant of every other class stored for the object.\<close>

theorem validated_chains_sound:
  assumes "ValidateStoredClassChains ae parsed = Some infos"
  shows "map ci_obj_id infos = active parsed \<and>
    (\<forall>info\<in>set infos. \<exists>classes. (ci_obj_id info, Some classes) \<in> set parsed \<and> ae_valid ae (ci_obj_id info) \<and>
      ci_most_derived info \<in> fst ` set classes \<and> ci_most_derived info \<noteq> ae_obj_class ae \<and>
      ae_factory ae (ci_most_derived info) \<and>
      (\<forall>c\<in>fst ` set classes. c = ae_obj_class ae \<or> ae_existing ae c \<and> ae_distance ae c (ci_most_derived info) \<ge> 0))"
proof -
  have "\<exists>classes. (ci_obj_id info, Some classes) \<in> set parsed \<and> ae_valid ae (ci_obj_id info) \<and>
      ci_most_derived info \<in> fst ` set classes \<and> ci_most_derived info \<noteq> ae_obj_class ae \<and>
      ae_factory ae (ci_most_derived info) \<and>
      (\<forall>c\<in>fst ` set classes. c = ae_obj_class ae \<or> ae_existing ae c \<and> ae_distance ae c (ci_most_derived info) \<ge> 0)"
    if m: "info \<in> set infos" for info
  proof -
    obtain i classes where c: "(i, Some classes) \<in> set parsed" "check_class_chain ae i classes = Some info"
      using ValidateStoredClassChains_each [OF assms m] by blast
    show ?thesis using c(1) check_class_chainD [OF c(2)] by (intro exI [of _ classes]) metis
  qed
  then show ?thesis using ValidateStoredClassChains_ids [OF assms] by blast
qed

lemma validated_chains_sound_witness:
  "active sample_event_graph = [40] \<and> (60 :: class_id) \<in> {2, 60} \<and> ae_factory sample_aether 60"
  using validated_chains_sound [OF sample_graph_validates] by auto



section \<open>Ids and imports\<close>

text \<open>The allocation of an id for the receiver ends as soon as the generator offers a free one, and what it
  returns is valid, not reserved, not alive in the domain and not stored.\<close>

theorem allocated_id_is_free:
  assumes "id_is_free ae in_domain d reserved (gen m)"
  shows "\<exists>i. AllocateUniqueReceiverObjId ae in_domain d reserved gen 0 = Some i \<and> ae_valid ae i \<and> i \<notin> reserved \<and>
    \<not> in_domain i \<and> (\<forall>c v. d (i, c, v) = None)"
  using AllocateUniqueReceiverObjId_ends [of ae in_domain d reserved gen 0 m] assms
    AllocateUniqueReceiverObjId_free [of ae in_domain d reserved gen 0]
  by (auto simp: id_is_free_def Enumerate_empty_def)

lemma allocated_id_is_free_witness:
  "\<exists>i. AllocateUniqueReceiverObjId sample_aether (\<lambda>i. i = 1) Map.empty {2} of_nat 0 = Some i \<and> i \<notin> {0, 1, 2}"
proof -
  have "id_is_free sample_aether (\<lambda>i. i = 1) Map.empty {2} (of_nat 3)"
    by (simp add: id_is_free_def sample_aether_def Enumerate_empty_def)
  from allocated_id_is_free [where gen = of_nat and m = 3, OF this] show ?thesis by (auto simp: sample_aether_def)
qed

text \<open>Importing a standalone event never overwrites: whatever was stored is stored unchanged, whether the
  event is accepted or not, and an accepted event is stored layer by layer under an id that was free,
  from a payload of exactly one object, of the class announced for it.\<close>

theorem import_never_overwrites:
  assumes "ImportStandaloneEventGraph ae io load_at in_domain gen parsed root expected d = Some (r, d')"
  shows "(\<forall>q. d q \<noteq> None \<longrightarrow> d' q = d q) \<and>
    (\<forall>i. r = Some i \<longrightarrow> id_is_free ae in_domain d {} i \<and> active parsed = [root] \<and>
      gio_load_root io parsed root = Some expected \<and> load_at d' i = Some expected \<and>
      (\<exists>ls. layers_of parsed root = Some ls \<and> d' = store_layers i ls d))"
proof -
  have "d' q = d q" if "d q \<noteq> None" for q
    using ImportStandalone_keeps [OF assms] that by (cases q) auto
  moreover have "id_is_free ae in_domain d {} i \<and> active parsed = [root] \<and>
      gio_load_root io parsed root = Some expected \<and> load_at d' i = Some expected \<and>
      (\<exists>ls. layers_of parsed root = Some ls \<and> d' = store_layers i ls d)" if r: "r = Some i" for i
    using ImportStandalone_id [OF assms [unfolded r]] ValidateStandaloneD [of ae io parsed root expected] by simp
  ultimately show ?thesis by blast
qed

definition sample_load_at :: "disk \<Rightarrow> obj_id \<Rightarrow> class_id option" where
  "sample_load_at d i = (if d (i, 60, 0) = Some [7, 8] then Some 60 else None)"

lemma import_never_overwrites_witness:
  "\<exists>d'. ImportStandaloneEventGraph sample_aether sample_io sample_load_at (\<lambda>i. False) (\<lambda>k. of_nat (5 + k))
      sample_event_graph 40 60 [(5, 60, 0) \<mapsto> [1]] = Some (Some 6, d') \<and> d' (5, 60, 0) = Some [1]"
proof -
  let ?d = "[(5, 60, 0) \<mapsto> [1]] :: disk"
  have f: "\<not> id_is_free sample_aether (\<lambda>i. False) ?d {} 5" "id_is_free sample_aether (\<lambda>i. False) ?d {} 6"
    by (auto simp: id_is_free_def sample_aether_def Enumerate_empty_def)
  have a: "AllocateUniqueReceiverObjId sample_aether (\<lambda>i. False) ?d {} (\<lambda>k. of_nat (5 + k)) 0 = Some 6"
    using f by (subst AllocateUniqueReceiverObjId.simps, simp) (subst AllocateUniqueReceiverObjId.simps, simp)
  have v: "ValidateStandaloneEventGraph sample_aether sample_io sample_event_graph 40 60"
    by (simp add: ValidateStandaloneEventGraph_def sample_graph_validates)
      (simp add: sample_aether_def sample_event_graph_def active_def layers_of_def sample_io_def)
  have "\<exists>d'. ImportStandaloneEventGraph sample_aether sample_io sample_load_at (\<lambda>i. False) (\<lambda>k. of_nat (5 + k))
      sample_event_graph 40 60 ?d = Some (Some 6, d')"
    unfolding ImportStandaloneEventGraph_def a using v
    by (simp add: CopyStoredObjectAs_def sample_event_graph_def layers_of_def store_layers_def flat_layers_def
        sample_load_at_def sample_aether_def)
  then obtain d' where d': "ImportStandaloneEventGraph sample_aether sample_io sample_load_at (\<lambda>i. False)
      (\<lambda>k. of_nat (5 + k)) sample_event_graph 40 60 ?d = Some (Some 6, d')" by blast
  show ?thesis using import_never_overwrites [OF d'] d' by auto
qed

end
