(* ===== verification/GraphImport.thy ===== *)
theory GraphImport
  imports GraphProperties
begin

text \<open>
  The import of a closed event graph (src/src/shared_network_graph.cpp: ImportClosedEventGraph;
  src/include/apptraverse/operation_storage.h: HandlePointerSeri in remap mode): fresh ids for every object of a validated
  graph, and the pointers rewritten while the objects are saved under them.
\<close>

section \<open>Ids\<close>

text \<open>The loop over the chains; \<open>gens j\<close> are the ids GenerateUnique returns in its \<open>j\<close>-th round.\<close>

fun allocate_ids ::
  "aether \<Rightarrow> (obj_id \<Rightarrow> bool) \<Rightarrow> disk \<Rightarrow> (nat \<Rightarrow> nat \<Rightarrow> obj_id) \<Rightarrow> nat \<Rightarrow> obj_id set \<Rightarrow> chain_info list \<Rightarrow>
   ((obj_id \<times> obj_id) list \<times> obj_id set) option" where
  "allocate_ids ae in_domain d gens j reserved [] = Some ([], reserved)"
| "allocate_ids ae in_domain d gens j reserved (info # infos) = do {
     i \<leftarrow> AllocateUniqueReceiverObjId ae in_domain d reserved (gens j) 0;
     (m, reserved) \<leftarrow> allocate_ids ae in_domain d gens (Suc j) (insert i reserved) infos;
     Some ((ci_obj_id info, i) # m, reserved) }"

section \<open>Pointers\<close>

text \<open>The id that is written for a pointer and the pointer afterwards; \<open>None\<close> is the error that clears \<open>ok\<close>.\<close>

definition remap_pointer ::
  "aether \<Rightarrow> (obj_id \<rightharpoonup> obj_id) \<Rightarrow> obj_id set \<Rightarrow> (obj_id \<Rightarrow> bool) \<Rightarrow> pointer_field \<Rightarrow> (obj_id \<times> pointer_field) option" where
  "remap_pointer ae old_to_new new_ids in_domain p =
     (if pf_local p then Some (ae_null ae, p\<lparr> pf_valid := False, pf_id := ae_null ae, pf_loaded := False \<rparr>)
      else if \<not> pf_valid p then Some (ae_null ae, p)
      else case old_to_new (pf_id p) of
        None \<Rightarrow> if pf_id p \<in> new_ids then Some (pf_id p, p) else None
      | Some new_id \<Rightarrow>
          Some (new_id, p\<lparr> pf_valid := ae_valid ae new_id, pf_id := new_id, pf_loaded := new_id \<in> new_ids \<or> in_domain new_id \<rparr>))"

text \<open>SaveRoot serializes the pointer fields of an object in the order \<open>visits\<close>; a field occurs once in every version of
  the layer its class writes.\<close>

fun remap_visits ::
  "(pointer_field \<Rightarrow> (obj_id \<times> pointer_field) option) \<Rightarrow> nat list \<Rightarrow> pointer_field list \<Rightarrow> (obj_id list \<times> pointer_field list) option" where
  "remap_visits remap [] ps = Some ([], ps)"
| "remap_visits remap (v # vs) ps = do {
     assert_that (v < length ps);
     (i, p) \<leftarrow> remap (ps ! v);
     (written, ps) \<leftarrow> remap_visits remap vs (ps[v := p]);
     Some (i # written, ps) }"

record imported_object =
  io_id :: obj_id
  io_class :: class_id
  io_written :: "obj_id list"
  io_fields :: "pointer_field list"

fun remap_objects ::
  "(pointer_field \<Rightarrow> (obj_id \<times> pointer_field) option) \<Rightarrow> (obj_id \<Rightarrow> pointer_field list) \<Rightarrow> (class_id \<Rightarrow> nat list) \<Rightarrow>
   (obj_id \<rightharpoonup> obj_id) \<Rightarrow> chain_info list \<Rightarrow> imported_object list option" where
  "remap_objects remap fields_of visits old_to_new [] = Some []"
| "remap_objects remap fields_of visits old_to_new (info # infos) = do {
     new_id \<leftarrow> old_to_new (ci_obj_id info);
     (written, ps) \<leftarrow> remap_visits remap (visits (ci_most_derived info)) (fields_of (ci_obj_id info));
     rest \<leftarrow> remap_objects remap fields_of visits old_to_new infos;
     Some (\<lparr> io_id = new_id, io_class = ci_most_derived info, io_written = written, io_fields = ps \<rparr> # rest) }"

section \<open>Import\<close>

text \<open>The outer \<open>None\<close> is a search for an id that never ends; the inner one an empty pointer as the answer.\<close>

definition ImportClosedEventGraph ::
  "aether \<Rightarrow> graph_io \<Rightarrow> (obj_id \<Rightarrow> pointer_field list) \<Rightarrow> (class_id \<Rightarrow> nat list) \<Rightarrow> (obj_id \<Rightarrow> bool) \<Rightarrow> (nat \<Rightarrow> nat \<Rightarrow> obj_id) \<Rightarrow>
   ram_state \<Rightarrow> obj_id \<Rightarrow> disk \<Rightarrow> obj_id set \<Rightarrow> ((obj_id \<times> imported_object list) option \<times> obj_id set) option" where
  "ImportClosedEventGraph ae io fields_of visits in_domain gens parsed root d reserved =
     (case ValidateClosedEventGraphStorage ae io fields_of parsed root 0 of
        None \<Rightarrow> Some (None, reserved)
      | Some infos \<Rightarrow> do {
          (m, reserved) \<leftarrow> allocate_ids ae in_domain d gens 0 reserved infos;
          if gio_load_root io parsed root = None then Some (None, reserved)
          else if (\<exists>info\<in>set infos. gio_load_root io parsed (ci_obj_id info) = None) then Some (None, reserved)
          else let new_ids = snd ` set m in
            case remap_objects (remap_pointer ae (map_of m) new_ids in_domain) fields_of visits (map_of m) infos of
              None \<Rightarrow> Some (None, reserved)
            | Some objects \<Rightarrow> Some (map_option (\<lambda>i. (i, objects)) (map_of m root), reserved) })"

section \<open>Fresh ids\<close>

lemma allocate_ids_fresh:
  assumes "allocate_ids ae in_domain d gens j reserved infos = Some (m, reserved')"
  shows "map fst m = map ci_obj_id infos \<and> distinct (map snd m) \<and> reserved' = reserved \<union> snd ` set m \<and>
    (\<forall>i\<in>snd ` set m. id_is_free ae in_domain d reserved i)"
  using assms
proof (induction infos arbitrary: j reserved m reserved')
  case (Cons info infos)
  then obtain i m' where i: "AllocateUniqueReceiverObjId ae in_domain d reserved (gens j) 0 = Some i"
    and m': "allocate_ids ae in_domain d gens (Suc j) (insert i reserved) infos = Some (m', reserved')" and m: "m = (ci_obj_id info, i) # m'"
    by (auto simp: Option.bind_eq_Some_conv)
  have free: "id_is_free ae in_domain d reserved i" by (rule AllocateUniqueReceiverObjId_free [OF i])
  have "\<forall>k\<in>snd ` set m'. id_is_free ae in_domain d (insert i reserved) k" using Cons.IH [OF m'] by simp
  then have "\<forall>k\<in>snd ` set m'. id_is_free ae in_domain d reserved k \<and> k \<noteq> i" by (auto simp: id_is_free_def)
  then show ?case using Cons.IH [OF m'] free m by auto
qed simp

section \<open>Rewriting\<close>

text \<open>What a reference of the graph must become.\<close>

definition target_id :: "aether \<Rightarrow> (obj_id \<rightharpoonup> obj_id) \<Rightarrow> pointer_field \<Rightarrow> obj_id option" where
  "target_id ae m p = (if pf_local p \<or> \<not> pf_valid p then Some (ae_null ae) else m (pf_id p))"

text \<open>A field before or after its first visit.\<close>

definition follows :: "aether \<Rightarrow> (obj_id \<rightharpoonup> obj_id) \<Rightarrow> pointer_field \<Rightarrow> pointer_field \<Rightarrow> bool" where
  "follows ae m p q \<longleftrightarrow> q = p \<or> (pf_local q = pf_local p \<and>
     (if pf_local p \<or> \<not> pf_valid p then \<not> pf_valid q \<or> pf_local q else pf_valid q \<and> m (pf_id p) = Some (pf_id q)))"

lemma remap_follows:
  assumes apart: "dom m \<inter> new_ids = {}" "ran m \<subseteq> new_ids" and valid: "\<forall>i\<in>new_ids. ae_valid ae i"
    and p: "follows ae m p q" and t: "target_id ae m p = Some t"
  shows "\<exists>q'. remap_pointer ae m new_ids in_domain q = Some (t, q') \<and> follows ae m p q'"
proof (cases "pf_local p \<or> \<not> pf_valid p")
  case True
  then show ?thesis using p t by (auto simp: follows_def target_id_def remap_pointer_def)
next
  case False
  then have mt: "m (pf_id p) = Some t" using t by (simp add: target_id_def)
  then have tn: "t \<in> new_ids" using apart(2) by (auto simp: ran_def)
  show ?thesis
  proof (cases "q = p")
    case True
    then show ?thesis using False mt tn valid by (simp add: remap_pointer_def follows_def)
  next
    case ne: False
    then have q: "\<not> pf_local q" "pf_valid q" "pf_id q = t" using p False mt by (auto simp: follows_def)
    have "m t = None" using apart(1) tn by auto
    then show ?thesis using q tn p by (simp add: remap_pointer_def)
  qed
qed

lemma remap_visits_follow:
  assumes step: "\<And>k q. k < length ps \<Longrightarrow> follows ae m (ps ! k) q \<Longrightarrow>
      \<exists>q'. remap q = Some (the (target_id ae m (ps ! k)), q') \<and> follows ae m (ps ! k) q'"
    and len: "length qs = length ps" "\<forall>k<length ps. follows ae m (ps ! k) (qs ! k)" and range: "\<forall>v\<in>set vs. v < length ps"
  shows "\<exists>qs'. remap_visits remap vs qs = Some (map (\<lambda>v. the (target_id ae m (ps ! v))) vs, qs') \<and> length qs' = length ps \<and>
    (\<forall>k<length ps. follows ae m (ps ! k) (qs' ! k))"
  using len range
proof (induction vs arbitrary: qs)
  case (Cons v vs)
  have v: "v < length ps" using Cons.prems(3) by simp
  obtain q' where q': "remap (qs ! v) = Some (the (target_id ae m (ps ! v)), q')" "follows ae m (ps ! v) q'"
    using step [OF v] Cons.prems(2) v by blast
  have "\<forall>k<length ps. follows ae m (ps ! k) (qs[v := q'] ! k)"
    using Cons.prems(1,2) q'(2) v by (auto simp: nth_list_update)
  then obtain qs' where "remap_visits remap vs (qs[v := q']) = Some (map (\<lambda>v. the (target_id ae m (ps ! v))) vs, qs')"
      "length qs' = length ps" "\<forall>k<length ps. follows ae m (ps ! k) (qs' ! k)"
    using Cons.IH [of "qs[v := q']"] Cons.prems by auto
  then show ?case using q' v Cons.prems(1) by (simp add: assert_that_def)
qed simp

lemma remap_objects_run:
  assumes "\<forall>info\<in>set infos. m (ci_obj_id info) \<noteq> None"
    and "\<forall>info\<in>set infos. \<exists>ps'. remap_visits remap (visits (ci_most_derived info)) (fields_of (ci_obj_id info)) = Some (W info, ps')"
  shows "\<exists>objs. remap_objects remap fields_of visits m infos = Some objs \<and> map io_id objs = map (\<lambda>info. the (m (ci_obj_id info))) infos \<and>
    map io_written objs = map W infos"
  using assms
proof (induction infos)
  case (Cons info infos)
  then obtain new ps' objs where "m (ci_obj_id info) = Some new"
      "remap_visits remap (visits (ci_most_derived info)) (fields_of (ci_obj_id info)) = Some (W info, ps')"
      "remap_objects remap fields_of visits m infos = Some objs" "map io_id objs = map (\<lambda>info. the (m (ci_obj_id info))) infos"
      "map io_written objs = map W infos"
    by auto
  then show ?case by simp
qed simp

lemma validated_references:
  assumes v: "ValidateClosedEventGraphStorage ae io fields_of parsed root 0 = Some infos"
  shows "ValidateStoredClassChains ae parsed = Some infos \<and> root \<in> set (map ci_obj_id infos) \<and> gio_load_root io parsed root \<noteq> None \<and>
    (\<forall>info\<in>set infos. gio_load_root io parsed (ci_obj_id info) \<noteq> None \<and>
      (\<forall>p\<in>set (fields_of (ci_obj_id info)). pf_local p \<or> \<not> pf_valid p \<or> pf_id p \<in> set (map ci_obj_id infos)))"
proof -
  have split: "ValidateStoredClassChains ae parsed = Some infos" "\<exists>info. find (\<lambda>info. ci_obj_id info = root) infos = Some info"
      "gio_load_root io parsed root \<noteq> None" "\<not> (\<exists>c\<in>set infos. gio_load_root io parsed (ci_obj_id c) = None)"
      "\<forall>c\<in>set infos. \<forall>p\<in>set (fields_of (ci_obj_id c)). pointer_validates ae parsed infos p"
    using v by (auto simp: ValidateClosedEventGraphStorage_def Option.bind_eq_Some_conv split: if_splits)
  have named: "find (\<lambda>info. ci_obj_id info = i) infos = Some info \<Longrightarrow> i \<in> set (map ci_obj_id infos)" for i info
    by (auto simp: find_Some_iff)
  have "pf_local p \<or> \<not> pf_valid p \<or> pf_id p \<in> set (map ci_obj_id infos)" if "pointer_validates ae parsed infos p" for p
    using that named by (auto simp: pointer_validates_def split: if_splits option.splits)
  then have "\<forall>info\<in>set infos. \<forall>p\<in>set (fields_of (ci_obj_id info)). pf_local p \<or> \<not> pf_valid p \<or> pf_id p \<in> set (map ci_obj_id infos)"
    using split(5) by blast
  moreover have "root \<in> set (map ci_obj_id infos)" using split(2) named by blast
  ultimately show ?thesis using split(1,3,4) by auto
qed

lemma visits_written:
  assumes disjoint: "dom m \<inter> new_ids = {}" "ran m \<subseteq> new_ids" "\<forall>i\<in>new_ids. ae_valid ae i"
    and named: "\<forall>p\<in>set ps. pf_local p \<or> \<not> pf_valid p \<or> pf_id p \<in> dom m" and range: "\<forall>k\<in>set vs. k < length ps"
  shows "\<exists>ps'. remap_visits (remap_pointer ae m new_ids in_domain) vs ps = Some (map (\<lambda>k. the (target_id ae m (ps ! k))) vs, ps')"
proof -
  let ?remap = "remap_pointer ae m new_ids in_domain"
  have t: "target_id ae m (ps ! k) \<noteq> None" if "k < length ps" for k
  proof -
    have "ps ! k \<in> set ps" using that by simp
    then have "pf_local (ps ! k) \<or> \<not> pf_valid (ps ! k) \<or> pf_id (ps ! k) \<in> dom m" using named by blast
    then show ?thesis by (auto simp: target_id_def)
  qed
  have step: "\<exists>q'. ?remap q = Some (the (target_id ae m (ps ! k)), q') \<and> follows ae m (ps ! k) q'"
    if "k < length ps" "follows ae m (ps ! k) q" for k q
    using remap_follows [OF disjoint that(2)] t [OF that(1)] by force
  show ?thesis
    using remap_visits_follow [of ps ae m ?remap ps vs, OF step] range by (auto simp: follows_def)
qed


text \<open>An event that points to itself, written in two versions.\<close>

definition sample_self_pointer :: "obj_id \<Rightarrow> pointer_field list" where
  "sample_self_pointer i = [\<lparr> pf_class = 2, pf_local = False, pf_valid = True, pf_id = 40, pf_loaded = True \<rparr>]"


text \<open>Without that: the second version of a pointer whose new id is also an id of the graph names another object.\<close>

lemma colliding_id_misdirects_second_version:
  "map_option fst (remap_visits (remap_pointer sample_aether [40 \<mapsto> 41, 41 \<mapsto> 42] {41, 42} (\<lambda>i. False)) [0, 0] (sample_self_pointer 40)) =
     Some [41, 42]"
  by (simp add: sample_self_pointer_def remap_pointer_def assert_that_def sample_aether_def)

section \<open>Copies of live graphs\<close>

text \<open>\<open>scratch\<close> is what BuildNetworkSharedScratch saves of the root; \<open>None\<close> as source is a pointer that is not loaded.\<close>

definition CopyNetworkSharedObjectGraph :: "('o \<Rightarrow> ram_state) \<Rightarrow> 'o \<Rightarrow> disk \<Rightarrow> disk" where
  "CopyNetworkSharedObjectGraph scratch root d = CommitObjectGraph (scratch root) d"

definition CopySharedNetworkGraph :: "('o \<Rightarrow> ram_state) \<Rightarrow> 'o option \<Rightarrow> disk \<Rightarrow> disk option" where
  "CopySharedNetworkGraph scratch source d = do {
     root \<leftarrow> source;
     Some (CopyNetworkSharedObjectGraph scratch root d) }"

definition SerializeNetworkSharedObjectGraph :: "graph_io \<Rightarrow> ('o \<Rightarrow> ram_state) \<Rightarrow> 'o \<Rightarrow> bytes" where
  "SerializeNetworkSharedObjectGraph io scratch root = SerializeObjectGraph io (scratch root)"

text \<open>Sending a graph as bytes and importing them stores what copying it would have stored.\<close>

lemma serialized_graph_imports_as_copy:
  assumes "archive_ok io"
  shows "ImportObjectGraphPayload io (SerializeNetworkSharedObjectGraph io scratch root) d = (True, CopyNetworkSharedObjectGraph scratch root d)"
proof -
  have "gio_load_state io (gio_save_state io st) 0 = Some (st, length (gio_save_state io st))" for st
    using assms unfolding archive_ok_def by (metis append_Nil list.size(3) add_0)
  then show ?thesis
    by (simp add: ImportObjectGraphPayload_def DeserializeObjectGraph_def SerializeNetworkSharedObjectGraph_def SerializeObjectGraph_def
        CopyNetworkSharedObjectGraph_def)
qed

end
