(* ===== verification/FileSystem.thy ===== *)
theory FileSystem
  imports Prelude "HOL-Library.Sublist"
begin

text \<open>
  The part of the file system that the directory storage uses (src/src/directory_domain_storage.cpp), and
  its two file routines ReadExistingLayerFile and ReplaceLayerFile.

  A path is the list of its components below the storage root, which is the empty path.  A file system
  is an association list from paths to entries.  Every call that can fail asks the record \<open>disk_faults\<close>
  whether it does; a failing write leaves the prefix the record names.
\<close>

section \<open>Decimal names\<close>

text \<open>\<open>std::to_string\<close> of an unsigned value.\<close>

definition digit_char :: "nat \<Rightarrow> char" where
  "digit_char d = char_of (48 + d)"

fun to_decimal :: "nat \<Rightarrow> string" where
  "to_decimal n = (if n < 10 then [digit_char n] else to_decimal (n div 10) @ [digit_char (n mod 10)])"

declare to_decimal.simps [simp del]

text \<open>\<open>std::stoul\<close> with a 64-bit \<open>unsigned long\<close>: leading white space, an optional sign, and the longest run of
  digits; \<open>None\<close> is the exception for no digits or a value out of range.\<close>

definition is_digit :: "char \<Rightarrow> bool" where
  "is_digit c \<longleftrightarrow> 48 \<le> (of_char c :: nat) \<and> (of_char c :: nat) < 58"

definition is_space :: "char \<Rightarrow> bool" where
  "is_space c \<longleftrightarrow> (of_char c :: nat) = 32 \<or> (9 \<le> (of_char c :: nat) \<and> (of_char c :: nat) < 14)"

definition digits_value :: "string \<Rightarrow> nat" where
  "digits_value = foldl (\<lambda>a c. 10 * a + (of_char c - 48)) 0"

definition stoul :: "string \<Rightarrow> u64 option" where
  "stoul s =
     (let s = dropWhile is_space s;
          negative = (s \<noteq> [] \<and> hd s = CHR ''-'');
          s = (if s \<noteq> [] \<and> (hd s = CHR ''-'' \<or> hd s = CHR ''+'') then tl s else s);
          digits = takeWhile is_digit s
      in if digits = [] then None
         else if digits_value digits \<ge> 2 ^ 64 then None
         else Some (if negative then - of_nat (digits_value digits) else of_nat (digits_value digits)))"

lemma of_char_digit [simp]: "d < 10 \<Longrightarrow> of_char (digit_char d) = 48 + d"
  by (simp add: digit_char_def of_char_of)

lemma is_digit_digit [simp]: "d < 10 \<Longrightarrow> is_digit (digit_char d)"
  by (simp add: is_digit_def)

lemma to_decimal_digits: "\<forall>c\<in>set (to_decimal n). is_digit c"
proof (induction n rule: to_decimal.induct)
  case (1 n)
  show ?case
  proof (cases "n < 10")
    case True
    then show ?thesis by (simp add: to_decimal.simps [of n])
  next
    case False
    then show ?thesis using 1 by (simp add: to_decimal.simps [of n])
  qed
qed

lemma to_decimal_not_Nil [simp]: "to_decimal n \<noteq> []"
  by (simp add: to_decimal.simps [of n])

lemma digits_value_append: "digits_value (s @ [c]) = 10 * digits_value s + (of_char c - 48)"
  by (simp add: digits_value_def)

lemma digits_value_to_decimal [simp]: "digits_value (to_decimal n) = n"
proof (induction n rule: to_decimal.induct)
  case (1 n)
  show ?case
  proof (cases "n < 10")
    case True
    then show ?thesis by (simp add: to_decimal.simps [of n] digits_value_def)
  next
    case False
    then show ?thesis using 1 by (simp add: to_decimal.simps [of n] digits_value_append)
  qed
qed

lemma to_decimal_inj [simp]: "to_decimal m = to_decimal n \<longleftrightarrow> m = n"
  by (metis digits_value_to_decimal)

lemma stoul_to_decimal [simp]:
  assumes "n < 2 ^ 64"
  shows "stoul (to_decimal n) = Some (of_nat n)"
proof -
  obtain c cs where s: "to_decimal n = c # cs" by (cases "to_decimal n") auto
  have d: "\<forall>x\<in>set (c # cs). is_digit x" using to_decimal_digits [of n] s by simp
  have c: "\<not> is_space c" "c \<noteq> CHR ''-''" "c \<noteq> CHR ''+''"
    using d by (auto simp: is_digit_def is_space_def)
  have "takeWhile is_digit (c # cs) = c # cs" using d by (simp add: takeWhile_eq_all_conv)
  then show ?thesis
    using c assms digits_value_to_decimal [of n] unfolding s stoul_def Let_def by simp
qed

section \<open>Entries\<close>

type_synonym path = "string list"

datatype entry = Directory | RegularFile bytes | OtherFile

type_synonym file_system = "(path \<times> entry) list"

record disk_faults =
  df_exists :: "path \<Rightarrow> bool"
  df_regular :: "path \<Rightarrow> bool"
  df_open_read :: "path \<Rightarrow> bool"
  df_read :: "path \<Rightarrow> bool"
  df_mkdir :: "path \<Rightarrow> bool"
  df_open_write :: "path \<Rightarrow> bool"
  df_write :: "path \<Rightarrow> nat option"
  df_flush :: "path \<Rightarrow> bool"
  df_rename :: "path \<Rightarrow> bool"
  df_remove :: "path \<Rightarrow> bool"

definition no_faults :: disk_faults where
  "no_faults = \<lparr> df_exists = (\<lambda>_. False), df_regular = (\<lambda>_. False), df_open_read = (\<lambda>_. False),
     df_read = (\<lambda>_. False), df_mkdir = (\<lambda>_. False), df_open_write = (\<lambda>_. False), df_write = (\<lambda>_. None),
     df_flush = (\<lambda>_. False), df_rename = (\<lambda>_. False), df_remove = (\<lambda>_. False) \<rparr>"

definition fs_put :: "path \<Rightarrow> entry \<Rightarrow> file_system \<Rightarrow> file_system" where
  "fs_put p e fs = (p, e) # filter (\<lambda>x. fst x \<noteq> p) fs"

definition fs_del :: "path \<Rightarrow> file_system \<Rightarrow> file_system" where
  "fs_del p fs = filter (\<lambda>x. fst x \<noteq> p) fs"

text \<open>\<open>remove_all\<close>: the entry and everything below it.\<close>

definition fs_remove_all :: "path \<Rightarrow> file_system \<Rightarrow> file_system" where
  "fs_remove_all p fs = filter (\<lambda>x. \<not> prefix p (fst x)) fs"

text \<open>The file names a directory iterator over \<open>p\<close> visits.\<close>

definition children :: "path \<Rightarrow> file_system \<Rightarrow> string list" where
  "children p fs = map (\<lambda>x. last (fst x)) (filter (\<lambda>x. fst x \<noteq> [] \<and> butlast (fst x) = p) fs)"

text \<open>\<open>create_directories\<close>, from the root down; whether it succeeded, and the directories it made.\<close>

fun make_directories :: "disk_faults \<Rightarrow> path list \<Rightarrow> file_system \<Rightarrow> bool \<times> file_system" where
  "make_directories df [] fs = (True, fs)"
| "make_directories df (p # ps) fs =
     (case map_of fs p of
        Some Directory \<Rightarrow> make_directories df ps fs
      | Some _ \<Rightarrow> (False, fs)
      | None \<Rightarrow> if df_mkdir df p then (False, fs) else make_directories df ps (fs_put p Directory fs))"

definition create_directories :: "disk_faults \<Rightarrow> path \<Rightarrow> file_system \<Rightarrow> bool \<times> file_system" where
  "create_directories df p fs = make_directories df (prefixes p) fs"

lemma map_of_filter_key: "map_of (filter (\<lambda>x. P (fst x)) fs) p = (if P p then map_of fs p else None)"
  by (induction fs) auto

lemma map_of_fs_put [simp]: "map_of (fs_put p e fs) = (map_of fs)(p \<mapsto> e)"
  by (rule ext) (simp add: fs_put_def map_of_filter_key [of "\<lambda>q. q \<noteq> p"])

lemma map_of_fs_del [simp]: "map_of (fs_del p fs) = (map_of fs)(p := None)"
  by (rule ext) (simp add: fs_del_def map_of_filter_key [of "\<lambda>q. q \<noteq> p"])

lemma map_of_fs_remove_all [simp]: "map_of (fs_remove_all p fs) q = (if prefix p q then None else map_of fs q)"
  by (simp add: fs_remove_all_def map_of_filter_key [of "\<lambda>q. \<not> prefix p q"])

lemma set_children: "set (children p fs) = {x. map_of fs (p @ [x]) \<noteq> None}"
proof -
  have "x \<in> set (children p fs) \<longleftrightarrow> p @ [x] \<in> fst ` set fs" for x
  proof
    assume "x \<in> set (children p fs)"
    then obtain y where y: "y \<in> set fs" "fst y \<noteq> []" "butlast (fst y) = p" "x = last (fst y)"
      by (auto simp: children_def)
    then have "fst y = p @ [x]" by (metis append_butlast_last_id)
    then show "p @ [x] \<in> fst ` set fs" using y(1) by (metis image_eqI)
  next
    assume "p @ [x] \<in> fst ` set fs"
    then show "x \<in> set (children p fs)" by (force simp: children_def)
  qed
  then show ?thesis by (auto simp: map_of_eq_None_iff)
qed

lemma children_empty_iff: "children p fs = [] \<longleftrightarrow> (\<forall>x. map_of fs (p @ [x]) = None)"
  using set_children [of p fs] by (metis (mono_tags, lifting) empty_iff equals0I mem_Collect_eq set_empty)

lemma make_directories_other:
  "q \<notin> set ps \<Longrightarrow> map_of (snd (make_directories df ps fs)) q = map_of fs q"
  by (induction ps arbitrary: fs) (auto split: option.split entry.split)

text \<open>Directories are only added: an entry that exists is kept.\<close>

lemma make_directories_keeps:
  "map_of fs q = Some e \<Longrightarrow> map_of (snd (make_directories df ps fs)) q = Some e"
proof (induction ps arbitrary: fs)
  case (Cons p ps)
  have "map_of (fs_put p Directory fs) q = Some e" if "map_of fs p = None"
    using Cons.prems that by auto
  then show ?case using Cons by (cases "map_of fs p") (auto split: entry.split)
qed simp

lemma make_directories_new:
  "map_of (snd (make_directories df ps fs)) q = map_of fs q \<or>
   (q \<in> set ps \<and> map_of fs q = None \<and> map_of (snd (make_directories df ps fs)) q = Some Directory)"
proof (induction ps arbitrary: fs)
  case (Cons p ps)
  show ?case
  proof (cases "map_of fs p")
    case None
    then show ?thesis using Cons.IH [of "fs_put p Directory fs"]
        make_directories_keeps [of "fs_put p Directory fs" p Directory df ps] by (auto split: if_splits)
  next
    case (Some e)
    then show ?thesis using Cons.IH [of fs] by (cases e) auto
  qed
qed simp

lemma make_directories_ok:
  assumes "\<forall>p\<in>set ps. map_of fs p = None \<or> map_of fs p = Some Directory"
  shows "fst (make_directories no_faults ps fs)"
  using assms by (induction ps arbitrary: fs) (auto simp: no_faults_def)

lemma make_directories_done:
  "fst (make_directories df ps fs) \<Longrightarrow> p \<in> set ps \<Longrightarrow> map_of (snd (make_directories df ps fs)) p = Some Directory"
proof (induction ps arbitrary: fs)
  case (Cons a ps)
  show ?case
  proof (cases "map_of fs a")
    case None
    with Cons.prems have "fst (make_directories df ps (fs_put a Directory fs))" by (simp split: if_splits)
    then show ?thesis using Cons None
        make_directories_keeps [of "fs_put a Directory fs" a Directory df ps] by (auto split: if_splits)
  next
    case (Some e)
    then show ?thesis using Cons make_directories_keeps [of fs a e df ps] by (cases e) auto
  qed
qed simp

section \<open>Layer files\<close>

datatype layer_file_read = NotFound | EmptyFile | ReadOk bytes | ReadError

definition ReadExistingLayerFile :: "disk_faults \<Rightarrow> path \<Rightarrow> file_system \<Rightarrow> layer_file_read" where
  "ReadExistingLayerFile df p fs =
     (if map_of fs p = None \<or> df_exists df p then NotFound
      else if df_regular df p then ReadError
      else case map_of fs p of
        Some (RegularFile data) \<Rightarrow>
          if df_open_read df p then ReadError
          else if data = [] then EmptyFile
          else if df_read df p then ReadError
          else ReadOk data
      | _ \<Rightarrow> ReadError)"

text \<open>\<open>LayerFileRead::bytes\<close> is empty unless the read succeeded.\<close>

fun read_bytes :: "layer_file_read \<Rightarrow> bytes" where
  "read_bytes (ReadOk data) = data"
| "read_bytes _ = []"

definition tmp_path :: "path \<Rightarrow> path" where
  "tmp_path p = butlast p @ [last p @ ''.tmp'']"

definition remove_file :: "disk_faults \<Rightarrow> path \<Rightarrow> file_system \<Rightarrow> file_system" where
  "remove_file df p fs = (if df_remove df p then fs else fs_del p fs)"

definition ReplaceLayerFile :: "disk_faults \<Rightarrow> path \<Rightarrow> bytes \<Rightarrow> file_system \<Rightarrow> bool \<times> file_system" where
  "ReplaceLayerFile df p data fs =
     (let (made, fs) = create_directories df (butlast p) fs; tmp = tmp_path p in
      if \<not> made then (False, fs)
      else if df_open_write df tmp \<or> map_of fs tmp = Some Directory then (False, fs)
      else case (if data = [] then None else df_write df tmp) of
        Some k \<Rightarrow> (False, remove_file df tmp (fs_put tmp (RegularFile (take k data)) fs))
      | None \<Rightarrow>
          let fs = fs_put tmp (RegularFile data) fs in
          if df_flush df tmp then (False, remove_file df tmp fs)
          else if df_rename df tmp \<or> map_of fs p = Some Directory then (False, remove_file df tmp fs)
          else (True, fs_put p (RegularFile data) (fs_del tmp fs)))"

lemma not_prefix_butlast: "p \<noteq> [] \<Longrightarrow> \<not> prefix p (butlast p)"
  by (metis diff_less length_butlast length_greater_0_conv less_one linorder_not_le prefix_length_le)

lemma tmp_path_neq [simp]: "p \<noteq> [] \<Longrightarrow> tmp_path p \<noteq> p"
  by (metis append_self_conv last_snoc list.discI tmp_path_def)

lemma map_of_remove_file:
  "q \<noteq> p \<Longrightarrow> map_of (remove_file df p fs) q = map_of fs q"
  by (simp add: remove_file_def)

lemma map_of_create_directories:
  "map_of (snd (create_directories df p fs)) q = map_of fs q \<or>
   (prefix q p \<and> map_of fs q = None \<and> map_of (snd (create_directories df p fs)) q = Some Directory)"
  using make_directories_new [of df "prefixes p" fs q] by (simp add: create_directories_def)

text \<open>Whatever fails, a path that is neither the layer file, nor its temporary, nor one of its directories is
  left alone, and the layer file holds its old entry or the new bytes.\<close>

lemma ReplaceLayerFile_other:
  assumes "q \<noteq> p" "q \<noteq> tmp_path p" "\<not> prefix q (butlast p)"
  shows "map_of (snd (ReplaceLayerFile df p data fs)) q = map_of fs q"
  using assms map_of_create_directories [of df "butlast p" fs q]
  by (auto simp: ReplaceLayerFile_def Let_def map_of_remove_file split: prod.split option.split)

lemma ReplaceLayerFile_self:
  assumes "p \<noteq> []" "ReplaceLayerFile df p data fs = (ok, fs')"
  shows "map_of fs' p = (if ok then Some (RegularFile data) else map_of fs p)"
proof -
  have "p \<noteq> tmp_path p" using tmp_path_neq [OF assms(1)] by metis
  then show ?thesis
    using not_prefix_butlast [OF assms(1)] assms map_of_create_directories [of df "butlast p" fs p]
    by (auto simp: ReplaceLayerFile_def Let_def map_of_remove_file split: prod.splits option.splits if_splits)
qed

lemma ReplaceLayerFile_keeps_directories:
  assumes "map_of fs q = Some Directory" "q \<noteq> p" 
  shows "map_of (snd (ReplaceLayerFile df p data fs)) q = Some Directory"
proof -
  have keep: "map_of (snd (create_directories df (butlast p) fs)) q = Some Directory"
    using make_directories_keeps [OF assms(1)] by (simp add: create_directories_def)
  show ?thesis
  proof (cases "q = tmp_path p")
    case True
    then show ?thesis using keep
      by (auto simp: ReplaceLayerFile_def Let_def split: prod.split)
  next
    case False
    then show ?thesis using keep assms(2)
      by (auto simp: ReplaceLayerFile_def Let_def map_of_remove_file split: prod.split option.split)
  qed
qed

lemma ReplaceLayerFile_no_faults:
  assumes "\<forall>q\<in>set (prefixes (butlast p)). map_of fs q = None \<or> map_of fs q = Some Directory"
    and "map_of fs (tmp_path p) \<noteq> Some Directory" "map_of fs p \<noteq> Some Directory"
    and "\<not> prefix p (butlast p)" "\<not> prefix (tmp_path p) (butlast p)"
  shows "fst (ReplaceLayerFile no_faults p data fs)"
    and "map_of (snd (ReplaceLayerFile no_faults p data fs)) =
      (map_of (snd (create_directories no_faults (butlast p) fs)))(tmp_path p := None, p \<mapsto> RegularFile data)"
proof -
  obtain fs' where mk: "create_directories no_faults (butlast p) fs = (True, fs')"
    using make_directories_ok [OF assms(1)]
    by (cases "create_directories no_faults (butlast p) fs") (simp add: create_directories_def)
  have same: "map_of fs' q = map_of fs q" if "\<not> prefix q (butlast p)" for q
    using map_of_create_directories [of no_faults "butlast p" fs q] that mk by auto
  have tmp: "map_of fs' (tmp_path p) \<noteq> Some Directory" and self: "map_of fs' p \<noteq> Some Directory"
    using assms(2-5) same [of "tmp_path p"] same [of p] by auto
  have faults: "df_open_write no_faults q = False" "df_write no_faults q = None" "df_flush no_faults q = False"
    "df_rename no_faults q = False" for q
    by (simp_all add: no_faults_def)
  show "fst (ReplaceLayerFile no_faults p data fs)"
    using tmp self by (simp add: ReplaceLayerFile_def Let_def mk faults)
  show "map_of (snd (ReplaceLayerFile no_faults p data fs)) =
      (map_of (snd (create_directories no_faults (butlast p) fs)))(tmp_path p := None, p \<mapsto> RegularFile data)"
    using tmp self by (simp add: ReplaceLayerFile_def Let_def mk faults)
qed

end
