(* ===== verification/LayerStorage.thy ===== *)
theory LayerStorage
  imports NetworkGraph
begin

text \<open>
  The interface \<open>ae::IDomainStorage\<close> as the program uses it, its abstract specification, and the contract
  between them as locales.  An implementation is the record \<open>storage_ops\<close> of its virtual functions over
  its own state.  \<open>Store\<close> is used through a writer that takes the bytes and is then destroyed, so
  \<open>so_store\<close> is the whole of it: what the writes returned, and the state after the writer is gone.
  \<open>None\<close> is an exception.
\<close>

section \<open>The interface\<close>

text \<open>\<open>ae::DomainLoad\<close>: the result code and, when loaded, the bytes the reader delivers.\<close>

datatype domain_load = LoadEmpty | LoadRemoved | LoadLoaded bytes

record 's storage_ops =
  so_store :: "domain_query \<Rightarrow> bytes \<Rightarrow> 's \<Rightarrow> bool \<times> 's"
  so_load :: "domain_query \<Rightarrow> 's \<Rightarrow> domain_load option"
  so_enumerate :: "obj_id \<Rightarrow> 's \<Rightarrow> class_id list option"
  so_remove :: "obj_id \<Rightarrow> 's \<Rightarrow> 's option"
  so_clean_up :: "'s \<Rightarrow> 's option"

text \<open>A \<open>std::set<std::uint32_t>\<close> filled with the elements of a list, as a list.\<close>

definition as_set_list :: "'a::linorder list \<Rightarrow> 'a list" where
  "as_set_list xs = remdups (sort xs)"

lemma set_as_set_list [simp]: "set (as_set_list xs) = set xs"
  by (simp add: as_set_list_def)

lemma as_set_list_Nil [simp]: "as_set_list [] = []"
  by (simp add: as_set_list_def)

lemma distinct_as_set_list [simp]: "distinct (as_set_list xs)"
  by (simp add: as_set_list_def)

text \<open>Sequences of operations that change a storage.\<close>

datatype storage_action = AStore domain_query bytes | ARemove obj_id | ACleanUp

fun storage_run :: "'s storage_ops \<Rightarrow> storage_action list \<Rightarrow> 's \<Rightarrow> 's option" where
  "storage_run ops [] s = Some s"
| "storage_run ops (AStore q data # as) s = storage_run ops as (snd (so_store ops q data s))"
| "storage_run ops (ARemove i # as) s = do { s \<leftarrow> so_remove ops i s; storage_run ops as s }"
| "storage_run ops (ACleanUp # as) s = do { s \<leftarrow> so_clean_up ops s; storage_run ops as s }"

section \<open>The abstract storage\<close>

text \<open>For every object id: never stored, or the layers it has.  An object without layers is a removed one.\<close>

type_synonym layer_map = "obj_id \<Rightarrow> (class_id \<times> u8 \<Rightarrow> bytes option) option"

fun spec_store :: "domain_query \<Rightarrow> bytes \<Rightarrow> layer_map \<Rightarrow> layer_map" where
  "spec_store (i, c, v) data m =
     m(i \<mapsto> (case m i of None \<Rightarrow> Map.empty | Some ls \<Rightarrow> ls)((c, v) \<mapsto> data))"

fun spec_load :: "domain_query \<Rightarrow> layer_map \<Rightarrow> domain_load" where
  "spec_load (i, c, v) m =
     (case m i of
        None \<Rightarrow> LoadEmpty
      | Some ls \<Rightarrow>
          if ls = Map.empty then LoadRemoved
          else case ls (c, v) of None \<Rightarrow> LoadEmpty | Some data \<Rightarrow> LoadLoaded data)"

definition spec_remove :: "obj_id \<Rightarrow> layer_map \<Rightarrow> layer_map" where
  "spec_remove i m = m(i \<mapsto> Map.empty)"

fun spec_run :: "storage_action list \<Rightarrow> layer_map \<Rightarrow> layer_map" where
  "spec_run [] m = m"
| "spec_run (AStore q data # as) m = spec_run as (spec_store q data m)"
| "spec_run (ARemove i # as) m = spec_run as (spec_remove i m)"
| "spec_run (ACleanUp # as) m = spec_run as Map.empty"

definition spec_classes :: "obj_id \<Rightarrow> layer_map \<Rightarrow> class_id set" where
  "spec_classes i m = {c. \<exists>ls v. m i = Some ls \<and> ls (c, v) \<noteq> None}"

text \<open>The storage a synchronization runtime works on, as the map the graph theories use.\<close>

definition disk_of :: "layer_map \<Rightarrow> disk" where
  "disk_of m = (\<lambda>(i, c, v). Option.bind (m i) (\<lambda>ls. ls (c, v)))"

lemma disk_of_store: "disk_of (spec_store q data m) = (disk_of m)(q \<mapsto> data)"
  by (cases q) (auto simp: disk_of_def fun_eq_iff split: option.split)

lemma spec_load_loaded: "spec_load q m = LoadLoaded data \<longleftrightarrow> disk_of m q = Some data"
  by (cases q) (auto simp: disk_of_def split: option.split)

lemma spec_load_store [simp]: "spec_load q (spec_store q data m) = LoadLoaded data"
  by (simp add: spec_load_loaded disk_of_store)

lemma spec_load_store_other: "fst q' \<noteq> fst q \<Longrightarrow> spec_load q' (spec_store q data m) = spec_load q' m"
  by (cases q; cases q') auto

lemma spec_load_remove: "spec_load (i, c, v) (spec_remove i m) = LoadRemoved"
  by (simp add: spec_remove_def)

section \<open>The contract\<close>

locale layer_storage =
  fixes ops :: "'s storage_ops"
    and ok :: "'s \<Rightarrow> bool"
    and abs :: "'s \<Rightarrow> layer_map"
  assumes store_abs: "ok s \<Longrightarrow> \<exists>s'. so_store ops q data s = (True, s') \<and> ok s' \<and> abs s' = spec_store q data (abs s)"
    and load_abs: "ok s \<Longrightarrow> so_load ops q s = Some (spec_load q (abs s))"
    and enumerate_abs: "ok s \<Longrightarrow> \<exists>cs. so_enumerate ops i s = Some cs \<and> distinct cs \<and> set cs = spec_classes i (abs s)"
begin

lemma store_ok: "ok s \<Longrightarrow> ok (snd (so_store ops q data s))"
  using store_abs [of s q data] by auto

lemma load_after_store: "ok s \<Longrightarrow> so_load ops q (snd (so_store ops q data s)) = Some (LoadLoaded data)"
  using store_abs [of s q data] by (auto simp: load_abs simp del: split_paired_All)

lemma load_other_object:
  "ok s \<Longrightarrow> fst q' \<noteq> fst q \<Longrightarrow> so_load ops q' (snd (so_store ops q data s)) = so_load ops q' s"
  using store_abs [of s q data] by (auto simp: load_abs spec_load_store_other simp del: split_paired_All)

text \<open>A sequence of stores acts as the same updates of the abstract storage.\<close>

lemma stores_abs:
  "ok s \<Longrightarrow> \<exists>s'. storage_run ops (map (\<lambda>(q, data). AStore q data) qs) s = Some s' \<and> ok s' \<and>
     abs s' = spec_run (map (\<lambda>(q, data). AStore q data) qs) (abs s)"
proof (induction qs arbitrary: s)
  case (Cons x qs)
  obtain q data where x: "x = (q, data)" by (cases x)
  obtain s' where "so_store ops q data s = (True, s')" "ok s'" "abs s' = spec_store q data (abs s)"
    using store_abs [OF Cons.prems, of q data] by blast
  then show ?case using Cons.IH [of s'] by (simp add: x)
qed simp

end

locale removable_storage = layer_storage +
  assumes remove_abs: "ok s \<Longrightarrow> \<exists>s'. so_remove ops i s = Some s' \<and> ok s' \<and> abs s' = spec_remove i (abs s)"
    and clean_up_abs: "ok s \<Longrightarrow> \<exists>s'. so_clean_up ops s = Some s' \<and> ok s' \<and> abs s' = Map.empty"
begin

text \<open>Every sequence of operations runs, and what it leaves loads and enumerates as the abstract storage does.\<close>

lemma run_abs: "ok s \<Longrightarrow> \<exists>s'. storage_run ops as s = Some s' \<and> ok s' \<and> abs s' = spec_run as (abs s)"
proof (induction as arbitrary: s)
  case (Cons a as)
  show ?case
  proof (cases a)
    case (AStore q data)
    then show ?thesis using store_abs [OF Cons.prems, of q data] Cons.IH by force
  next
    case (ARemove i)
    then show ?thesis using remove_abs [OF Cons.prems, of i] Cons.IH by force
  next
    case ACleanUp
    then show ?thesis using clean_up_abs [OF Cons.prems] Cons.IH by force
  qed
qed simp

lemma run_observed:
  assumes "ok s"
  shows "\<exists>s'. storage_run ops as s = Some s' \<and> ok s' \<and>
    (\<forall>q. so_load ops q s' = Some (spec_load q (spec_run as (abs s)))) \<and>
    (\<forall>i. \<exists>cs. so_enumerate ops i s' = Some cs \<and> distinct cs \<and> set cs = spec_classes i (spec_run as (abs s)))"
proof -
  obtain s' where s': "storage_run ops as s = Some s'" "ok s'" "abs s' = spec_run as (abs s)"
    using run_abs [OF assms] by blast
  show ?thesis using s' load_abs [OF s'(2)] enumerate_abs [OF s'(2)] by metis
qed

lemma load_after_remove:
  "ok s \<Longrightarrow> so_remove ops i s = Some s' \<Longrightarrow> so_load ops (i, c, v) s' = Some LoadRemoved"
  using remove_abs [of s i] load_abs [of s' "(i, c, v)"] spec_load_remove by auto

lemma enumerate_after_remove:
  "ok s \<Longrightarrow> so_remove ops i s = Some s' \<Longrightarrow> so_enumerate ops i s' = Some []"
  using remove_abs [of s i] enumerate_abs [of s' i] by (auto simp: spec_classes_def spec_remove_def)

end

declare spec_store.simps [simp del] spec_load.simps [simp del]

section \<open>Overlay\<close>

text \<open>
  OverlayDomainStorage (src/src/overlay_domain_storage.cpp): a RamDomainStorage in front of a backing
  storage.  The state is the pair of theirs.
\<close>

definition Overlay_Store :: "'r storage_ops \<Rightarrow> domain_query \<Rightarrow> bytes \<Rightarrow> 'r \<times> 'k \<Rightarrow> bool \<times> 'r \<times> 'k" where
  "Overlay_Store ram q data s = (let (written, r) = so_store ram q data (fst s) in (written, r, snd s))"

definition Overlay_Enumerate ::
  "'r storage_ops \<Rightarrow> 'k storage_ops \<Rightarrow> obj_id \<Rightarrow> 'r \<times> 'k \<Rightarrow> class_id list option" where
  "Overlay_Enumerate ram backing i s = do {
     overlay_classes \<leftarrow> so_enumerate ram i (fst s);
     backing_classes \<leftarrow> so_enumerate backing i (snd s);
     Some (as_set_list (overlay_classes @ backing_classes)) }"

definition Overlay_Load ::
  "'r storage_ops \<Rightarrow> 'k storage_ops \<Rightarrow> domain_query \<Rightarrow> 'r \<times> 'k \<Rightarrow> domain_load option" where
  "Overlay_Load ram backing q s = do {
     overlay_load \<leftarrow> so_load ram q (fst s);
     case overlay_load of LoadEmpty \<Rightarrow> so_load backing q (snd s) | _ \<Rightarrow> Some overlay_load }"

definition Overlay_Remove :: "'r storage_ops \<Rightarrow> obj_id \<Rightarrow> 'r \<times> 'k \<Rightarrow> ('r \<times> 'k) option" where
  "Overlay_Remove ram i s = do { r \<leftarrow> so_remove ram i (fst s); Some (r, snd s) }"

definition Overlay_CleanUp :: "'r storage_ops \<Rightarrow> 'r \<times> 'k \<Rightarrow> ('r \<times> 'k) option" where
  "Overlay_CleanUp ram s = do { r \<leftarrow> so_clean_up ram (fst s); Some (r, snd s) }"

definition OverlayDomainStorage :: "'r storage_ops \<Rightarrow> 'k storage_ops \<Rightarrow> ('r \<times> 'k) storage_ops" where
  "OverlayDomainStorage ram backing =
     \<lparr> so_store = Overlay_Store ram, so_load = Overlay_Load ram backing,
       so_enumerate = Overlay_Enumerate ram backing, so_remove = Overlay_Remove ram,
       so_clean_up = Overlay_CleanUp ram \<rparr>"

text \<open>PartitionedModelDomainStorage forwards every call to its durable backing
  (src/src/partitioned_model_domain_storage.cpp).\<close>

definition PartitionedModelDomainStorage :: "'k storage_ops \<Rightarrow> 'k storage_ops" where
  "PartitionedModelDomainStorage durable_backing =
     \<lparr> so_store = so_store durable_backing, so_load = so_load durable_backing,
       so_enumerate = so_enumerate durable_backing, so_remove = so_remove durable_backing,
       so_clean_up = so_clean_up durable_backing \<rparr>"

lemma PartitionedModelDomainStorage_forwards [simp]: "PartitionedModelDomainStorage ops = ops"
  by (simp add: PartitionedModelDomainStorage_def)

text \<open>What the overlay shows: per object, the layers of the backing overwritten by its own.  This is a
  layer storage as long as nothing is marked removed in either part.\<close>

definition no_removed :: "layer_map \<Rightarrow> bool" where
  "no_removed m \<longleftrightarrow> (\<forall>i. m i \<noteq> Some Map.empty)"

definition overlay_view :: "layer_map \<Rightarrow> layer_map \<Rightarrow> layer_map" where
  "overlay_view r k = (\<lambda>i.
     case r i of None \<Rightarrow> k i
     | Some ls \<Rightarrow> Some ((case k i of None \<Rightarrow> Map.empty | Some bs \<Rightarrow> bs) ++ ls))"

lemma overlay_view_store: "overlay_view (spec_store q data r) k = spec_store q data (overlay_view r k)"
  by (cases q) (auto simp: spec_store.simps overlay_view_def fun_eq_iff split: option.split)

lemma no_removed_store: "no_removed m \<Longrightarrow> no_removed (spec_store q data m)"
  by (cases q) (auto simp: spec_store.simps no_removed_def)

lemma overlay_view_load:
  assumes "no_removed r" "no_removed k"
  shows "spec_load q (overlay_view r k) = (case spec_load q r of LoadEmpty \<Rightarrow> spec_load q k | l \<Rightarrow> l)"
proof (cases q)
  case (fields i c v)
  have r: "r i \<noteq> Some Map.empty" and k: "k i \<noteq> Some Map.empty" using assms by (auto simp: no_removed_def)
  show ?thesis
  proof (cases "r i")
    case None
    then show ?thesis by (simp add: spec_load.simps fields overlay_view_def)
  next
    case (Some ls)
    with r have ls: "ls \<noteq> Map.empty" by auto
    then have ne: "bs ++ ls \<noteq> Map.empty" for bs by simp
    show ?thesis
    proof (cases "k i")
      case None
      then show ?thesis using ls ne by (auto simp: spec_load.simps fields overlay_view_def Some split: option.split)
    next
      case bs: (Some bs)
      with k have "bs \<noteq> Map.empty" by auto
      then show ?thesis using ls ne [of bs]
        by (auto simp: spec_load.simps fields overlay_view_def Some bs map_add_def split: option.split)
    qed
  qed
qed

lemma overlay_view_classes: "spec_classes i (overlay_view r k) = spec_classes i r \<union> spec_classes i k"
proof -
  have "(\<exists>v. (bs ++ ls) (c, v) \<noteq> None) \<longleftrightarrow> (\<exists>v. ls (c, v) \<noteq> None) \<or> (\<exists>v. bs (c, v) \<noteq> None)"
    for bs ls :: "class_id \<times> u8 \<Rightarrow> bytes option" and c
    by (simp only: map_add_None de_Morgan_conj ex_disj_distrib)
  then show ?thesis
    by (cases "r i"; cases "k i") (auto simp: spec_classes_def overlay_view_def simp del: not_None_eq)
qed

locale overlay_stack = ram: layer_storage ram ram_ok ram_abs + backing: layer_storage backing backing_ok backing_abs
  for ram :: "'r storage_ops" and ram_ok ram_abs
    and backing :: "'k storage_ops" and backing_ok backing_abs
begin

definition stack_ok :: "'r \<times> 'k \<Rightarrow> bool" where
  "stack_ok s \<longleftrightarrow> ram_ok (fst s) \<and> backing_ok (snd s) \<and> no_removed (ram_abs (fst s)) \<and> no_removed (backing_abs (snd s))"

definition stack_abs :: "'r \<times> 'k \<Rightarrow> layer_map" where
  "stack_abs s = overlay_view (ram_abs (fst s)) (backing_abs (snd s))"

sublocale overlay: layer_storage "OverlayDomainStorage ram backing" stack_ok stack_abs
proof
  fix s :: "'r \<times> 'k" and q data i
  assume s: "stack_ok s"
  then have ram: "ram_ok (fst s)" and backing: "backing_ok (snd s)" by (simp_all add: stack_ok_def)
  obtain r where r: "so_store ram q data (fst s) = (True, r)" "ram_ok r" "ram_abs r = spec_store q data (ram_abs (fst s))"
    using ram.store_abs [OF ram] by blast
  show "\<exists>s'. so_store (OverlayDomainStorage ram backing) q data s = (True, s') \<and> stack_ok s' \<and>
      stack_abs s' = spec_store q data (stack_abs s)"
    using s r by (auto simp: OverlayDomainStorage_def Overlay_Store_def stack_ok_def stack_abs_def
        no_removed_store overlay_view_store)
  show "so_load (OverlayDomainStorage ram backing) q s = Some (spec_load q (stack_abs s))"
    using s ram.load_abs [OF ram] backing.load_abs [OF backing]
    by (simp add: OverlayDomainStorage_def Overlay_Load_def stack_ok_def stack_abs_def overlay_view_load
        split: domain_load.split)
  obtain xs ys where "so_enumerate ram i (fst s) = Some xs" "set xs = spec_classes i (ram_abs (fst s))"
    "so_enumerate backing i (snd s) = Some ys" "set ys = spec_classes i (backing_abs (snd s))"
    using ram.enumerate_abs [OF ram, of i] backing.enumerate_abs [OF backing, of i] by blast
  then show "\<exists>cs. so_enumerate (OverlayDomainStorage ram backing) i s = Some cs \<and> distinct cs \<and>
      set cs = spec_classes i (stack_abs s)"
    by (simp add: OverlayDomainStorage_def Overlay_Enumerate_def stack_abs_def overlay_view_classes)
qed

lemma overlay_stores:
  assumes "stack_ok s"
  shows "\<exists>s'. storage_run (OverlayDomainStorage ram backing) (map (\<lambda>(q, data). AStore q data) qs) s = Some s' \<and>
    (\<forall>q. so_load (OverlayDomainStorage ram backing) q s' =
      Some (spec_load q (spec_run (map (\<lambda>(q, data). AStore q data) qs) (stack_abs s))))"
  using overlay.stores_abs [OF assms, of qs] overlay.load_abs by metis

end

lemma overlay_step_backing:
  "snd (snd (Overlay_Store ram q data s)) = snd s"
  "Overlay_Remove ram i s = Some t \<Longrightarrow> snd t = snd s"
  "Overlay_CleanUp ram s = Some t \<Longrightarrow> snd t = snd s"
  by (auto simp: Overlay_Store_def Overlay_Remove_def Overlay_CleanUp_def Let_def split: prod.split Option.bind_splits)

text \<open>The backing is the same after any number of operations on the overlay.\<close>

lemma overlay_run_backing: "storage_run (OverlayDomainStorage ram backing) as s = Some s' \<Longrightarrow> snd s' = snd s"
proof (induction as arbitrary: s)
  case (Cons a as)
  show ?case
  proof (cases a)
    case (AStore q data)
    then show ?thesis using Cons.IH [of "snd (Overlay_Store ram q data s)"] Cons.prems overlay_step_backing(1) [of ram q data s]
      by (simp add: OverlayDomainStorage_def)
  next
    case (ARemove i)
    then show ?thesis using Cons overlay_step_backing(2) [of ram i s]
      by (simp add: OverlayDomainStorage_def split: Option.bind_splits)
  next
    case ACleanUp
    then show ?thesis using Cons overlay_step_backing(3) [of ram s]
      by (simp add: OverlayDomainStorage_def split: Option.bind_splits)
  qed
qed simp

end
