(* ===== verification/DirectoryStorage.thy ===== *)
theory DirectoryStorage
  imports FileSystem LayerStorage Channel
begin

text \<open>
  The durable storage of a model, one file per layer (src/src/directory_domain_storage.cpp and .h):
  DirectoryDomainStorage with the writer that compares and commits when it is destroyed, its reader and its
  save-session statistics, and InstrumentedDomainStorage around it.  Counters are \<open>std::size_t\<close>, modelled as
  \<open>nat\<close>.  The lock of the instrumented storage only guards its counters.
\<close>

section \<open>State\<close>

datatype layer_commit_outcome = CommitNone | SkippedUnchanged | Written | CommitFailed

record store_stats =
  layer_store_calls :: nat
  layers_bytes_accepted :: nat
  layers_written :: nat
  layers_skipped_unchanged :: nat
  layers_written_bytes :: nat
  layers_failed_commits :: nat

definition no_store_stats :: store_stats where
  "no_store_stats = \<lparr> layer_store_calls = 0, layers_bytes_accepted = 0, layers_written = 0,
     layers_skipped_unchanged = 0, layers_written_bytes = 0, layers_failed_commits = 0 \<rparr>"

record directory_storage =
  ds_files :: file_system
  save_session_stats :: store_stats
  save_session_active :: bool
  save_session_had_failure :: bool
  last_layer_commit :: layer_commit_outcome

definition DirectoryDomainStorage :: "disk_faults \<Rightarrow> file_system \<Rightarrow> directory_storage option" where
  "DirectoryDomainStorage df fs =
     (case create_directories df [] fs of
        (False, _) \<Rightarrow> None
      | (True, fs) \<Rightarrow> Some \<lparr> ds_files = fs, save_session_stats = no_store_stats, save_session_active = False,
          save_session_had_failure = False, last_layer_commit = CommitNone \<rparr>)"

definition BeginSaveSession :: "directory_storage \<Rightarrow> directory_storage" where
  "BeginSaveSession s = s\<lparr> save_session_stats := no_store_stats, save_session_active := True,
     save_session_had_failure := False, last_layer_commit := CommitNone \<rparr>"

definition SnapshotSaveSessionStats :: "directory_storage \<Rightarrow> store_stats" where
  "SnapshotSaveSessionStats s = save_session_stats s"

definition SaveSessionHadFailure :: "directory_storage \<Rightarrow> bool" where
  "SaveSessionHadFailure s = save_session_had_failure s"

definition TakeLastLayerCommitOutcome :: "directory_storage \<Rightarrow> layer_commit_outcome \<times> directory_storage" where
  "TakeLastLayerCommitOutcome s = (last_layer_commit s, s\<lparr> last_layer_commit := CommitNone \<rparr>)"

definition RecordLayerBytesAccepted :: "nat \<Rightarrow> directory_storage \<Rightarrow> directory_storage" where
  "RecordLayerBytesAccepted n s =
     (if save_session_active s
      then s\<lparr> save_session_stats := (save_session_stats s)\<lparr> layers_bytes_accepted := layers_bytes_accepted (save_session_stats s) + n \<rparr> \<rparr>
      else s)"

definition count_outcome :: "layer_commit_outcome \<Rightarrow> nat \<Rightarrow> store_stats \<Rightarrow> store_stats" where
  "count_outcome outcome disk_bytes st =
     (let st = st\<lparr> layer_store_calls := Suc (layer_store_calls st) \<rparr> in
      case outcome of
        SkippedUnchanged \<Rightarrow> st\<lparr> layers_skipped_unchanged := Suc (layers_skipped_unchanged st) \<rparr>
      | Written \<Rightarrow> st\<lparr> layers_written := Suc (layers_written st), layers_written_bytes := layers_written_bytes st + disk_bytes \<rparr>
      | CommitFailed \<Rightarrow> st\<lparr> layers_failed_commits := Suc (layers_failed_commits st) \<rparr>
      | CommitNone \<Rightarrow> st)"

definition RecordLayerCommit :: "layer_commit_outcome \<Rightarrow> nat \<Rightarrow> directory_storage \<Rightarrow> directory_storage" where
  "RecordLayerCommit outcome disk_bytes s =
     (let s = s\<lparr> last_layer_commit := outcome \<rparr>;
          s = (if outcome = CommitFailed then s\<lparr> save_session_had_failure := True \<rparr> else s)
      in if \<not> save_session_active s then s
         else s\<lparr> save_session_stats := count_outcome outcome disk_bytes (save_session_stats s) \<rparr>)"

section \<open>Layer paths\<close>

definition object_path :: "obj_id \<Rightarrow> path" where
  "object_path i = [to_decimal (unat i)]"

definition class_path :: "obj_id \<Rightarrow> class_id \<Rightarrow> path" where
  "class_path i c = [to_decimal (unat i), to_decimal (unat c)]"

fun DirectoryDomainStorageLayerPath :: "domain_query \<Rightarrow> path" where
  "DirectoryDomainStorageLayerPath (i, c, v) = [to_decimal (unat i), to_decimal (unat c), to_decimal (unat v)]"

definition DirectoryDomainStorageLayerFileExists :: "file_system \<Rightarrow> domain_query \<Rightarrow> bool" where
  "DirectoryDomainStorageLayerFileExists fs q \<longleftrightarrow>
     (\<exists>data. map_of fs (DirectoryDomainStorageLayerPath q) = Some (RegularFile data))"

section \<open>Writing a layer\<close>

record layer_writer =
  dw_path :: path
  dw_buffer :: bytes
  dw_committed :: bool
  dw_failed :: bool

definition Store :: "domain_query \<Rightarrow> layer_writer" where
  "Store q = \<lparr> dw_path = DirectoryDomainStorageLayerPath q, dw_buffer = [], dw_committed = False, dw_failed = False \<rparr>"

text \<open>\<open>None\<close> in the first component is \<open>write_error\<close>.\<close>

definition Writer_Write ::
  "bytes \<Rightarrow> layer_writer \<Rightarrow> directory_storage \<Rightarrow> bool \<times> layer_writer \<times> directory_storage" where
  "Writer_Write data w s =
     (if dw_failed w then (False, w, s)
      else (True, w\<lparr> dw_buffer := dw_buffer w @ data \<rparr>, RecordLayerBytesAccepted (length data) s))"

text \<open>The bytes of an integer in memory, least significant first.\<close>

definition le_u32 :: "u32 \<Rightarrow> bytes" where
  "le_u32 x = [ucast x, ucast (drop_bit 8 x), ucast (drop_bit 16 x), ucast (drop_bit 24 x)]"

definition Writer_WriteSize ::
  "nat \<Rightarrow> layer_writer \<Rightarrow> directory_storage \<Rightarrow> bool \<times> layer_writer \<times> directory_storage" where
  "Writer_WriteSize n w s = Writer_Write (le_u32 (of_nat n)) w s"

text \<open>What the destructor of the writer does.\<close>

definition CommitIfNeeded :: "disk_faults \<Rightarrow> layer_writer \<Rightarrow> directory_storage \<Rightarrow> layer_writer \<times> directory_storage" where
  "CommitIfNeeded df w s =
     (if dw_committed w \<or> dw_failed w then (w, s)
      else let w = w\<lparr> dw_committed := True \<rparr>; existing = ReadExistingLayerFile df (dw_path w) (ds_files s) in
        if existing = ReadError then (w\<lparr> dw_failed := True \<rparr>, RecordLayerCommit CommitFailed 0 s)
        else if existing \<noteq> NotFound \<and> read_bytes existing = dw_buffer w
        then (w, RecordLayerCommit SkippedUnchanged 0 s)
        else case ReplaceLayerFile df (dw_path w) (dw_buffer w) (ds_files s) of
          (False, fs) \<Rightarrow> (w\<lparr> dw_failed := True \<rparr>, RecordLayerCommit CommitFailed 0 (s\<lparr> ds_files := fs \<rparr>))
        | (True, fs) \<Rightarrow> (w, RecordLayerCommit Written (length (dw_buffer w)) (s\<lparr> ds_files := fs \<rparr>)))"

definition Directory_StoreBytes ::
  "disk_faults \<Rightarrow> domain_query \<Rightarrow> bytes \<Rightarrow> directory_storage \<Rightarrow> bool \<times> directory_storage" where
  "Directory_StoreBytes df q data s =
     (let (written, w, s) = Writer_Write data (Store q) s in (written, snd (CommitIfNeeded df w s)))"

section \<open>Reading a layer\<close>

record layer_reader =
  rd_data :: bytes
  rd_pos :: nat
  rd_eof :: bool
  rd_bad :: bool

datatype read_error = ReadEof | ReadBroken

definition layer_reader :: "bytes \<Rightarrow> layer_reader" where
  "layer_reader data = \<lparr> rd_data = data, rd_pos = 0, rd_eof = False, rd_bad = False \<rparr>"

text \<open>A read that wants more than the rest takes the rest and sets the end-of-file state.\<close>

definition Reader_Read :: "nat \<Rightarrow> layer_reader \<Rightarrow> (read_error + bytes) \<times> layer_reader" where
  "Reader_Read n r =
     (if rd_eof r then (Inl ReadEof, r)
      else if rd_bad r then (Inl ReadBroken, r)
      else if rd_pos r + n \<le> length (rd_data r)
      then (Inr (take n (drop (rd_pos r) (rd_data r))), r\<lparr> rd_pos := rd_pos r + n \<rparr>)
      else (Inl ReadEof, r\<lparr> rd_pos := length (rd_data r), rd_eof := True \<rparr>))"

definition u32_of_le :: "bytes \<Rightarrow> u32" where
  "u32_of_le bs = ucast (bs ! 0) OR push_bit 8 (ucast (bs ! 1)) OR push_bit 16 (ucast (bs ! 2)) OR push_bit 24 (ucast (bs ! 3))"

definition Reader_ReadSize :: "layer_reader \<Rightarrow> (read_error + nat) \<times> layer_reader" where
  "Reader_ReadSize r =
     (case Reader_Read 4 r of
        (Inl e, r) \<Rightarrow> (Inl e, r)
      | (Inr bs, r) \<Rightarrow> (Inr (unat (u32_of_le bs)), r))"

section \<open>The other operations\<close>

definition Directory_Enumerate :: "obj_id \<Rightarrow> directory_storage \<Rightarrow> class_id list option" where
  "Directory_Enumerate i s = do {
     classes \<leftarrow> those (map stoul (children (object_path i) (ds_files s)));
     Some (as_set_list (map ucast classes)) }"

text \<open>A directory iterator over something that is not a directory throws in \<open>is_dir_empty\<close>.\<close>

definition Directory_Load :: "disk_faults \<Rightarrow> domain_query \<Rightarrow> directory_storage \<Rightarrow> domain_load option" where
  "Directory_Load df q s =
     (let fs = ds_files s; object_dir = object_path (fst q); file = DirectoryDomainStorageLayerPath q in
      case (if df_exists df object_dir then None else map_of fs object_dir) of
        None \<Rightarrow> Some LoadEmpty
      | Some Directory \<Rightarrow>
          if children object_dir fs = [] then Some LoadRemoved
          else (case map_of fs file of
              Some (RegularFile data) \<Rightarrow> if df_open_read df file then Some LoadEmpty else Some (LoadLoaded data)
            | _ \<Rightarrow> Some LoadEmpty)
      | Some _ \<Rightarrow> None)"

fun remove_children :: "disk_faults \<Rightarrow> path list \<Rightarrow> file_system \<Rightarrow> file_system" where
  "remove_children df [] fs = fs"
| "remove_children df (p # ps) fs = remove_children df ps (if df_remove df p then fs else fs_remove_all p fs)"

definition Directory_Remove :: "disk_faults \<Rightarrow> obj_id \<Rightarrow> directory_storage \<Rightarrow> directory_storage option" where
  "Directory_Remove df i s =
     (let fs = ds_files s; object_dir = object_path i in
      if map_of fs object_dir = None then
        (if df_mkdir df object_dir \<or> map_of fs [] \<noteq> Some Directory then None
         else Some (s\<lparr> ds_files := fs_put object_dir Directory fs \<rparr>))
      else if df_exists df object_dir then Some s
      else Some (s\<lparr> ds_files := remove_children df (map (\<lambda>c. object_dir @ [c]) (children object_dir fs)) fs \<rparr>))"

definition Directory_CleanUp :: "disk_faults \<Rightarrow> directory_storage \<Rightarrow> directory_storage option" where
  "Directory_CleanUp df s =
     (if df_remove df [] then None
      else case create_directories df [] (fs_remove_all [] (ds_files s)) of
        (False, _) \<Rightarrow> None
      | (True, fs) \<Rightarrow> Some (s\<lparr> ds_files := fs \<rparr>))"

definition DirectoryOps :: "disk_faults \<Rightarrow> directory_storage storage_ops" where
  "DirectoryOps df = \<lparr> so_store = Directory_StoreBytes df, so_load = Directory_Load df,
     so_enumerate = Directory_Enumerate, so_remove = Directory_Remove df, so_clean_up = Directory_CleanUp df \<rparr>"

section \<open>Instrumentation\<close>

record instrumented_stats =
  store_calls :: nat
  load_calls :: nat
  store_bytes_accepted :: nat
  load_bytes :: nat
  store_new_layers :: nat
  store_overwrite_layers :: nat
  store_skipped_unchanged_layers :: nat
  store_disk_bytes_written :: nat
  store_failed_commits :: nat
  store_obj_ids :: "obj_id list"

definition no_instrumented_stats :: instrumented_stats where
  "no_instrumented_stats = \<lparr> store_calls = 0, load_calls = 0, store_bytes_accepted = 0, load_bytes = 0,
     store_new_layers = 0, store_overwrite_layers = 0, store_skipped_unchanged_layers = 0,
     store_disk_bytes_written = 0, store_failed_commits = 0, store_obj_ids = [] \<rparr>"

text \<open>The destructor of the writer, with the outcome the directory recorded.\<close>

definition note_outcome :: "layer_commit_outcome \<Rightarrow> bool \<Rightarrow> nat \<Rightarrow> instrumented_stats \<Rightarrow> instrumented_stats" where
  "note_outcome outcome existed layer_bytes st =
     (case outcome of
        SkippedUnchanged \<Rightarrow> st\<lparr> store_skipped_unchanged_layers := Suc (store_skipped_unchanged_layers st) \<rparr>
      | Written \<Rightarrow>
          (if existed then st\<lparr> store_overwrite_layers := Suc (store_overwrite_layers st) \<rparr>
           else st\<lparr> store_new_layers := Suc (store_new_layers st) \<rparr>)
            \<lparr> store_disk_bytes_written := store_disk_bytes_written st + layer_bytes \<rparr>
      | CommitFailed \<Rightarrow> st\<lparr> store_failed_commits := Suc (store_failed_commits st) \<rparr>
      | CommitNone \<Rightarrow> st)"

text \<open>InstrumentedDomainStorage around a directory storage; the state is the pair with the statistics.\<close>

definition Instrumented_StoreBytes ::
  "disk_faults \<Rightarrow> domain_query \<Rightarrow> bytes \<Rightarrow> directory_storage \<times> instrumented_stats \<Rightarrow>
   bool \<times> directory_storage \<times> instrumented_stats" where
  "Instrumented_StoreBytes df q data s =
     (let (inner, st) = s; existed = DirectoryDomainStorageLayerFileExists (ds_files inner) q;
          st = st\<lparr> store_calls := Suc (store_calls st), store_obj_ids := List.insert (fst q) (store_obj_ids st) \<rparr>;
          (written, w, inner) = Writer_Write data (Store q) inner;
          layer_bytes = (if written then length data else 0);
          st = st\<lparr> store_bytes_accepted := store_bytes_accepted st + layer_bytes \<rparr>;
          (w, inner) = CommitIfNeeded df w inner;
          (outcome, inner) = TakeLastLayerCommitOutcome inner
      in (written, inner, note_outcome outcome existed layer_bytes st))"

definition Instrumented_Load ::
  "disk_faults \<Rightarrow> domain_query \<Rightarrow> directory_storage \<times> instrumented_stats \<Rightarrow>
   (domain_load \<times> directory_storage \<times> instrumented_stats) option" where
  "Instrumented_Load df q s = do {
     load \<leftarrow> Directory_Load df q (fst s);
     Some (load, fst s,
       case load of LoadLoaded _ \<Rightarrow> (snd s)\<lparr> load_calls := Suc (load_calls (snd s)) \<rparr> | _ \<Rightarrow> snd s) }"

definition Instrumented_Read :: "nat \<Rightarrow> layer_reader \<Rightarrow> instrumented_stats \<Rightarrow> (read_error + bytes) \<times> layer_reader \<times> instrumented_stats" where
  "Instrumented_Read n r st =
     (case Reader_Read n r of
        (Inl e, r) \<Rightarrow> (Inl e, r, st)
      | (Inr bs, r) \<Rightarrow> (Inr bs, r, st\<lparr> load_bytes := load_bytes st + n \<rparr>))"

definition InstrumentedOps :: "disk_faults \<Rightarrow> (directory_storage \<times> instrumented_stats) storage_ops" where
  "InstrumentedOps df = \<lparr> so_store = Instrumented_StoreBytes df,
     so_load = (\<lambda>q s. map_option fst (Instrumented_Load df q s)),
     so_enumerate = (\<lambda>i s. Directory_Enumerate i (fst s)),
     so_remove = (\<lambda>i s. map_option (\<lambda>inner. (inner, snd s)) (Directory_Remove df i (fst s))),
     so_clean_up = (\<lambda>s. map_option (\<lambda>inner. (inner, snd s)) (Directory_CleanUp df (fst s))) \<rparr>"

end
