(* ===== verification/PublicationFormat.thy ===== *)
theory PublicationFormat
  imports DirectoryStorage
begin

text \<open>
  The byte layout shared by the publications and the checkpoint of src/src/object_serialization.cpp: integers
  copied from memory (least significant byte first), a counted list of layer records, a counted table of
  node generations, a counted table of base bindings; and the loops that read them back from a ByteSource.
\<close>

section \<open>Integers\<close>

definition le_u64 :: "u64 \<Rightarrow> bytes" where
  "le_u64 x = le_u32 (ucast x) @ le_u32 (ucast (drop_bit 32 x))"

definition u64_of_le :: "bytes \<Rightarrow> u64" where
  "u64_of_le bs = ucast (u32_of_le bs) OR push_bit 32 (ucast (u32_of_le (drop 4 bs)))"

definition read_u8 :: "byte_source \<Rightarrow> u8 \<times> byte_source" where
  "read_u8 src = (let (bs, src) = ByteSource_read src 1 in (bs ! 0, src))"

definition read_u32 :: "byte_source \<Rightarrow> u32 \<times> byte_source" where
  "read_u32 src = (let (bs, src) = ByteSource_read src 4 in (u32_of_le bs, src))"

definition read_u64 :: "byte_source \<Rightarrow> u64 \<times> byte_source" where
  "read_u64 src = (let (bs, src) = ByteSource_read src 8 in (u64_of_le bs, src))"

section \<open>Records\<close>

type_synonym layer = "obj_id \<times> class_id \<times> u8 \<times> bytes"

definition layer_record :: "layer \<Rightarrow> bytes" where
  "layer_record l = (case l of (i, c, v, data) \<Rightarrow>
     le_u32 i @ le_u32 c @ [v] @ le_u32 (of_nat (length data)) @ data)"

definition generation_record :: "obj_id \<times> u64 \<Rightarrow> bytes" where
  "generation_record g = le_u32 (fst g) @ le_u64 (snd g)"

definition binding_record :: "obj_id \<times> obj_id \<Rightarrow> bytes" where
  "binding_record b = le_u32 (fst b) @ le_u32 (snd b)"

lemma record_pairs:
  "generation_record (i, g) = le_u32 i @ le_u64 g" "binding_record (i, j) = le_u32 i @ le_u32 j"
  by (simp_all add: generation_record_def binding_record_def)

text \<open>A table written as its count, patched in after the entries, and the entries.\<close>

definition counted :: "('a \<Rightarrow> bytes) \<Rightarrow> 'a list \<Rightarrow> bytes" where
  "counted rec xs = le_u32 (of_nat (length xs)) @ concat (map rec xs)"

record layer_header =
  lh_obj :: obj_id
  lh_class :: class_id
  lh_version :: u8
  lh_size :: u32

definition read_layer_header :: "byte_source \<Rightarrow> layer_header \<times> byte_source" where
  "read_layer_header src =
     (let (i, src) = read_u32 src; (c, src) = read_u32 src; (v, src) = read_u8 src; (n, src) = read_u32 src
      in (\<lparr> lh_obj = i, lh_class = c, lh_version = v, lh_size = n \<rparr>, src))"

section \<open>Reading the layers\<close>

text \<open>Where a reader of a publication stops.\<close>

datatype load_stage =
    StageOk | ReadRootId | ReadLayerCount | ReadLayerHeader | ReadLayerPayload | InjectLayerBytes
  | LoadRootStage | LoadExistingObjectStage | ReadGenerationCount | ReadGenerationEntry | FinalFindRoot

text \<open>The stop of the layer loop: the stage, the index of the layer, its header and the position.\<close>

type_synonym layer_stop = "load_stage \<times> nat \<times> layer_header \<times> nat"

definition note_id :: "obj_id \<Rightarrow> obj_id list \<Rightarrow> obj_id list" where
  "note_id i ids = (if i \<in> set ids then ids else ids @ [i])"

text \<open>The loop over \<open>n\<close> layer records, from index \<open>k\<close>.  With \<open>checked\<close> the result of InjectObjectBytes is looked at,
  as in ReadAndInjectPublicationLayers and InjectPersistentModelSnapshotToStorage; the other readers ignore it.\<close>

fun inject_layers ::
  "bool \<Rightarrow> 's storage_ops \<Rightarrow> nat \<Rightarrow> nat \<Rightarrow> byte_source \<Rightarrow> 's \<Rightarrow> obj_id list \<Rightarrow>
   (layer_stop + byte_source \<times> obj_id list) \<times> 's" where
  "inject_layers checked ops 0 k src s ids = (Inr (src, ids), s)"
| "inject_layers checked ops (Suc n) k src s ids =
     (let (h, src) = read_layer_header src in
      if \<not> src_ok src then (Inl (ReadLayerHeader, k, h, src_pos src), s)
      else if src_pos src + unat (lh_size h) > length (src_data src)
      then (Inl (ReadLayerPayload, k, h, src_pos src), s)
      else let data = take (unat (lh_size h)) (drop (src_pos src) (src_data src));
               (stored, s) = so_store ops (lh_obj h, lh_class h, lh_version h) data s in
        if checked \<and> \<not> stored then (Inl (InjectLayerBytes, k, h, src_pos src), s)
        else inject_layers checked ops n (Suc k) (src\<lparr> src_pos := src_pos src + unat (lh_size h) \<rparr>) s
               (note_id (lh_obj h) ids))"

text \<open>The loop over a generation table; \<open>finalize\<close> is what is done with an entry.\<close>

fun read_generations ::
  "(obj_id \<Rightarrow> u64 \<Rightarrow> 'd \<Rightarrow> 'd) \<Rightarrow> nat \<Rightarrow> nat \<Rightarrow> byte_source \<Rightarrow> 'd \<Rightarrow> (nat \<times> obj_id \<times> nat + byte_source) \<times> 'd" where
  "read_generations finalize 0 k src d = (Inr src, d)"
| "read_generations finalize (Suc n) k src d =
     (let (i, src) = read_u32 src; (g, src) = read_u64 src in
      if \<not> src_ok src then (Inl (k, i, src_pos src), d)
      else read_generations finalize n (Suc k) src (finalize i g d))"

text \<open>A loop over base bindings that ends early when the bytes end.\<close>

fun read_bindings ::
  "(obj_id \<Rightarrow> obj_id \<Rightarrow> 'd \<Rightarrow> 'd) \<Rightarrow> nat \<Rightarrow> byte_source \<Rightarrow> 'd \<Rightarrow> bool \<times> byte_source \<times> 'd" where
  "read_bindings bind_base 0 src d = (True, src, d)"
| "read_bindings bind_base (Suc n) src d =
     (let (node, src) = read_u32 src; (base, src) = read_u32 src in
      if \<not> src_ok src then (False, src, d)
      else read_bindings bind_base n src (bind_base node base d))"

section \<open>What was written is read back\<close>

text \<open>A source that stands before the bytes \<open>bs\<close>, and what comes after them.\<close>

definition before :: "bytes \<Rightarrow> bytes \<Rightarrow> byte_source \<Rightarrow> bool" where
  "before bs rest src \<longleftrightarrow> src_ok src \<and> src_pos src \<le> length (src_data src) \<and> drop (src_pos src) (src_data src) = bs @ rest"

definition advance :: "nat \<Rightarrow> byte_source \<Rightarrow> byte_source" where
  "advance n src = src\<lparr> src_pos := src_pos src + n \<rparr>"

lemma before_length: "before bs rest src \<Longrightarrow> src_pos src + length bs + length rest = length (src_data src)"
proof -
  assume a: "before bs rest src"
  then have "length (drop (src_pos src) (src_data src)) = length bs + length rest" by (simp add: before_def)
  moreover have "src_pos src \<le> length (src_data src)" using a by (simp add: before_def)
  ultimately show ?thesis by simp
qed

lemma before_advance: "before (a @ b) rest src \<Longrightarrow> before b rest (advance (length a) src)"
proof -
  assume x: "before (a @ b) rest src"
  have "drop (length a + src_pos src) (src_data src) = drop (length a) (drop (src_pos src) (src_data src))"
    by (simp only: drop_drop)
  also have "\<dots> = b @ rest" using x by (simp add: before_def)
  finally show ?thesis using x before_length [OF x] by (simp add: before_def advance_def add.commute)
qed

lemma advance_advance [simp]: "advance m (advance n src) = advance (n + m) src"
  by (simp add: advance_def)

lemma advance_simps [simp]:
  "src_ok (advance n src) = src_ok src" "src_data (advance n src) = src_data src" "src_pos (advance n src) = src_pos src + n"
  by (simp_all add: advance_def)

lemma ByteSource_read_before:
  assumes "before (a @ b) rest src"
  shows "ByteSource_read src (length a) = (a, advance (length a) src)"
  using assms before_length [OF assms] by (simp add: ByteSource_read_def before_def advance_def)

lemma le_u32_length [simp]: "length (le_u32 x) = 4"
  by (simp add: le_u32_def)

lemma le_u64_length [simp]: "length (le_u64 x) = 8"
  by (simp add: le_u64_def)

lemma u32_of_le_le_u32 [simp]: "u32_of_le (le_u32 x @ r) = x"
proof (rule bit_word_eqI)
  fix n
  assume "n < LENGTH(32)"
  then have n: "n < 32" by simp
  consider "n < 8" | "8 \<le> n" "n < 16" | "16 \<le> n" "n < 24" | "24 \<le> n" by linarith
  then show "bit (u32_of_le (le_u32 x @ r)) n \<longleftrightarrow> bit x n"
    using n by cases (auto simp: u32_of_le_def le_u32_def bit_simps)
qed

lemma u64_of_le_le_u64 [simp]: "u64_of_le (le_u64 x) = x"
proof -
  have "u64_of_le (le_u64 x) = ucast (ucast x :: u32) OR push_bit 32 (ucast (ucast (drop_bit 32 x) :: u32))"
    using u32_of_le_le_u32 [of "ucast (drop_bit 32 x)" "[]"] by (simp add: u64_of_le_def le_u64_def)
  also have "\<dots> = x" by (rule bit_word_eqI) (auto simp: bit_simps)
  finally show ?thesis .
qed

lemma read_u32_before:
  "before (le_u32 x @ b) rest src \<Longrightarrow> read_u32 src = (x, advance 4 src) \<and> before b rest (advance 4 src)"
  using ByteSource_read_before [of "le_u32 x" b rest src] before_advance [of "le_u32 x" b rest src]
    u32_of_le_le_u32 [of x "[]"]
  by (simp add: read_u32_def)

lemma read_u64_before:
  "before (le_u64 x @ b) rest src \<Longrightarrow> read_u64 src = (x, advance 8 src) \<and> before b rest (advance 8 src)"
  using ByteSource_read_before [of "le_u64 x" b rest src] before_advance [of "le_u64 x" b rest src]
  by (simp add: read_u64_def)

lemma read_u8_before:
  "before (x # b) rest src \<Longrightarrow> read_u8 src = (x, advance 1 src) \<and> before b rest (advance 1 src)"
  using ByteSource_read_before [of "[x]" b rest src] before_advance [of "[x]" b rest src]
  by (simp add: read_u8_def)

lemma read_layer_header_before:
  assumes "before (layer_record (i, c, v, data) @ b) rest src"
  shows "read_layer_header src =
      (\<lparr> lh_obj = i, lh_class = c, lh_version = v, lh_size = of_nat (length data) \<rparr>, advance 13 src)"
    and "before (data @ b) rest (advance 13 src)"
proof -
  from assms have 1: "before (le_u32 i @ le_u32 c @ (v # le_u32 (of_nat (length data)) @ data @ b)) rest src"
    by (simp add: layer_record_def)
  note r1 = read_u32_before [OF 1]
  note r2 = read_u32_before [OF conjunct2 [OF r1]]
  note r3 = read_u8_before [OF conjunct2 [OF r2]]
  note r4 = read_u32_before [OF conjunct2 [OF r3]]
  show "read_layer_header src =
      (\<lparr> lh_obj = i, lh_class = c, lh_version = v, lh_size = of_nat (length data) \<rparr>, advance 13 src)"
    using r1 r2 r3 r4 by (simp add: read_layer_header_def)
  show "before (data @ b) rest (advance 13 src)" using r4 by simp
qed

definition layer_fits :: "layer \<Rightarrow> bool" where
  "layer_fits l \<longleftrightarrow> length (snd (snd (snd l))) < 2 ^ 32"

definition store_layer :: "'s storage_ops \<Rightarrow> layer \<Rightarrow> 's \<Rightarrow> 's" where
  "store_layer ops l s = (case l of (i, c, v, data) \<Rightarrow> snd (so_store ops (i, c, v) data s))"

text \<open>Storages on which no store is refused: the comparing writer of the directory storage is one, whatever the
  disk does, and so is every storage of the contract.\<close>

definition stores_accept :: "'s storage_ops \<Rightarrow> bool" where
  "stores_accept ops \<longleftrightarrow> (\<forall>q data s. fst (so_store ops q data s))"

lemma inject_layers_written:
  assumes "before (concat (map layer_record ls) @ b) rest src" "\<forall>l\<in>set ls. layer_fits l"
    and "checked \<longrightarrow> stores_accept ops"
  shows "\<exists>src'. inject_layers checked ops (length ls) k src s ids =
      (Inr (src', fold (\<lambda>l ids. note_id (fst l) ids) ls ids), fold (store_layer ops) ls s) \<and> before b rest src'"
  using assms(1,2)
proof (induction ls arbitrary: src s ids k)
  case (Cons l ls)
  obtain i c v data where l: "l = (i, c, v, data)" by (cases l)
  let ?b = "concat (map layer_record ls) @ b"
  have at: "before (layer_record (i, c, v, data) @ ?b) rest src" using Cons.prems(1) l by simp
  note h = read_layer_header_before [OF at]
  have size: "unat (of_nat (length data) :: u32) = length data"
    using Cons.prems(2) l by (simp add: layer_fits_def unat_word_of_nat_32)
  have data: "take (length data) (drop (src_pos src + 13) (src_data src)) = data"
    using h(2) by (simp add: before_def)
  have room: "src_pos src + 13 + length data \<le> length (src_data src)"
    using before_length [OF h(2)] by simp
  have ok: "src_ok src" using at by (simp add: before_def)
  obtain stored s' where store: "so_store ops (i, c, v) data s = (stored, s')" by fastforce
  have stored: "\<not> (checked \<and> \<not> stored)"
    using assms(3) store unfolding stores_accept_def by (metis fst_conv)
  have next_at: "before ?b rest (advance (length data) (advance 13 src))"
    by (rule before_advance [OF h(2)])
  have step: "inject_layers checked ops (length (l # ls)) k src s ids =
      inject_layers checked ops (length ls) (Suc k) (advance (length data) (advance 13 src)) s' (note_id i ids)"
    using room ok stored by (cases checked; cases stored) (simp_all add: h(1) size data store Let_def advance_def add.assoc)
  obtain src' where "inject_layers checked ops (length ls) (Suc k) (advance (length data) (advance 13 src)) s' (note_id i ids) =
      (Inr (src', fold (\<lambda>l ids. note_id (fst l) ids) ls (note_id i ids)), fold (store_layer ops) ls s')" "before b rest src'"
    using Cons.IH [OF next_at, where s = s' and ids = "note_id i ids" and k = "Suc k"] Cons.prems(2) by auto
  moreover have "store_layer ops l s = s'" "fst l = i" by (simp_all add: l store_layer_def store)
  ultimately show ?case using step by (simp del: inject_layers.simps)
qed simp

lemma read_generations_written:
  assumes "before (concat (map generation_record gs) @ b) rest src"
  shows "\<exists>src'. read_generations finalize (length gs) k src d = (Inr src', fold (\<lambda>(i, g). finalize i g) gs d) \<and> before b rest src'"
  using assms
proof (induction gs arbitrary: src d k)
  case (Cons x gs)
  obtain i g where x: "x = (i, g)" by (cases x)
  have at: "before (le_u32 i @ le_u64 g @ concat (map generation_record gs) @ b) rest src"
    using Cons.prems x by (simp add: record_pairs)
  note r1 = read_u32_before [OF at]
  note r2 = read_u64_before [OF conjunct2 [OF r1]]
  have "src_ok src" using at by (simp add: before_def)
  then show ?case using Cons.IH [OF conjunct2 [OF r2], where k = "Suc k" and d = "finalize i g d"] r1 r2 by (simp add: x)
qed simp

lemma read_bindings_written:
  assumes "before (concat (map binding_record gs) @ b) rest src"
  shows "\<exists>src'. read_bindings bind_base (length gs) src d = (True, src', fold (\<lambda>(n, m). bind_base n m) gs d) \<and> before b rest src'"
  using assms
proof (induction gs arbitrary: src d)
  case (Cons x gs)
  obtain i g where x: "x = (i, g)" by (cases x)
  have at: "before (le_u32 i @ le_u32 g @ concat (map binding_record gs) @ b) rest src"
    using Cons.prems x by (simp add: record_pairs)
  note r1 = read_u32_before [OF at]
  note r2 = read_u32_before [OF conjunct2 [OF r1]]
  have "src_ok src" using at by (simp add: before_def)
  then show ?case using Cons.IH [OF conjunct2 [OF r2], where d = "bind_base i g d"] r1 r2 by (simp add: x)
qed simp

lemma before_source [simp]: "before bs [] (byte_source bs)"
  by (simp add: before_def byte_source_def)

end
