(* ===== verification/Publication.thy ===== *)
theory Publication
  imports PublicationFormat Journal
begin

text \<open>
  Publications of the model graph to the GUI domain and the durable checkpoint of the model
  (src/src/object_serialization.cpp, src/src/model_persistence.cpp).

  A domain is the map of its live objects by id, an object its class, its own fields and, when its class
  derives from Node, the bookkeeping the functions here touch.  What aether-objects does is the record
  \<open>object_system\<close>: saving an object graph into a RamDomainStorage, loading one object from a storage (which
  may construct the objects it refers to), and \<open>DomainGraph::LoadRoot\<close>.  The storage is a state of the
  interface of LayerStorage.  \<open>None\<close> is a failed assertion or the abort of the checkpoint loader.  The counters
  of publication_serialization_scope.cpp and the list of storage layers in the diagnostic text are left out.
\<close>

section \<open>Domains\<close>

record ('x, 'e) live_object =
  lo_class :: class_id
  lo_fields :: 'x
  lo_base :: "obj_id option"
  lo_journal :: "'e event_record list"
  lo_generation :: u64
  lo_applied :: nat

type_synonym ('x, 'e) domain = "obj_id \<Rightarrow> ('x, 'e) live_object option"

record ('x, 'e, 's) object_system =
  os_ae :: aether
  os_save :: "serialization_scope \<Rightarrow> obj_id \<Rightarrow> ('x, 'e) domain \<Rightarrow> ram_state \<Rightarrow> ram_state"
  os_has_load :: "class_id \<Rightarrow> bool"
  os_load :: "'s \<Rightarrow> obj_id \<Rightarrow> ('x, 'e) domain \<Rightarrow> int option \<times> ('x, 'e) domain"
  os_load_root :: "'s \<Rightarrow> obj_id \<Rightarrow> ('x, 'e) domain \<Rightarrow> bool \<times> ('x, 'e) domain"

definition is_node :: "aether \<Rightarrow> ('x, 'e) live_object \<Rightarrow> bool" where
  "is_node ae ob \<longleftrightarrow> ae_distance ae (ae_node_class ae) (lo_class ob) \<ge> 0"

text \<open>\<open>AsObjOf<Node>\<close> on what \<open>Find\<close> returns.\<close>

definition find_node :: "aether \<Rightarrow> obj_id \<Rightarrow> ('x, 'e) domain \<Rightarrow> ('x, 'e) live_object option" where
  "find_node ae i d = (case d i of Some ob \<Rightarrow> if is_node ae ob then Some ob else None | None \<Rightarrow> None)"

text \<open>A pointer that is set whatever the object is: \<open>node->field = x\<close>.\<close>

definition update_object :: "obj_id \<Rightarrow> (('x, 'e) live_object \<Rightarrow> ('x, 'e) live_object) \<Rightarrow> ('x, 'e) domain \<Rightarrow> ('x, 'e) domain" where
  "update_object i f d = (case d i of Some ob \<Rightarrow> d(i \<mapsto> f ob) | None \<Rightarrow> d)"

definition FinalizeUiNodeState :: "aether \<Rightarrow> obj_id \<Rightarrow> u64 \<Rightarrow> ('x, 'e) domain \<Rightarrow> ('x, 'e) domain" where
  "FinalizeUiNodeState ae i g d =
     (if find_node ae i d = None then d
      else update_object i (\<lambda>ob. ob\<lparr> lo_generation := g, lo_base := None, lo_journal := [] \<rparr>) d)"

section \<open>Saving\<close>

definition SaveObjectGraphToScratch ::
  "('x, 'e, 's) object_system \<Rightarrow> serialization_scope \<Rightarrow> obj_id \<Rightarrow> ('x, 'e) domain \<Rightarrow> ram_state \<Rightarrow> ram_state option" where
  "SaveObjectGraphToScratch sys scope i d scratch = do {
     ob \<leftarrow> d i;
     assert_that (ae_factory (os_ae sys) (lo_class ob));
     Some (os_save sys scope i d scratch) }"

text \<open>The layers of an object, each as class, version, size and bytes.\<close>

definition saved_layer :: "class_id \<times> u8 \<times> bytes \<Rightarrow> bytes" where
  "saved_layer l = (case l of (c, v, data) \<Rightarrow> le_u32 c @ [v] @ le_u32 (of_nat (length data)) @ data)"

definition AppendSavedObjectLayers :: "ram_state \<Rightarrow> obj_id \<Rightarrow> bytes \<Rightarrow> bytes option" where
  "AppendSavedObjectLayers scratch i out = do {
     ls \<leftarrow> layers_of scratch i;
     Some (out @ concat (map saved_layer (flat_layers ls))) }"

definition SerializeObjectToBuffer ::
  "('x, 'e, 's) object_system \<Rightarrow> serialization_scope \<Rightarrow> obj_id \<Rightarrow> ('x, 'e) domain \<Rightarrow> bytes \<Rightarrow> bytes option" where
  "SerializeObjectToBuffer sys scope i d out = do {
     scratch \<leftarrow> SaveObjectGraphToScratch sys scope i d [];
     AppendSavedObjectLayers scratch i out }"

text \<open>The ids of the base objects of the nodes that were saved.\<close>

definition distilled_bases :: "aether \<Rightarrow> obj_id list \<Rightarrow> ('x, 'e) domain \<Rightarrow> obj_id list" where
  "distilled_bases ae ids d = List.map_filter (\<lambda>i. Option.bind (find_node ae i d) lo_base) ids"

definition object_layers :: "obj_id \<Rightarrow> class_layers \<Rightarrow> layer list" where
  "object_layers i ls = map (\<lambda>(c, v, data). (i, c, v, data)) (flat_layers ls)"

text \<open>The layers and the node generations of the saved objects that \<open>keep\<close> admits.\<close>

definition scratch_layers :: "(obj_id \<Rightarrow> bool) \<Rightarrow> ram_state \<Rightarrow> layer list" where
  "scratch_layers keep scratch =
     concat (map (\<lambda>(i, ls). object_layers i ls)
       (List.map_filter (\<lambda>(i, classes). case classes of Some ls \<Rightarrow> if keep i then Some (i, ls) else None | None \<Rightarrow> None) scratch))"

definition scratch_generations :: "aether \<Rightarrow> (obj_id \<Rightarrow> bool) \<Rightarrow> ('x, 'e) domain \<Rightarrow> ram_state \<Rightarrow> (obj_id \<times> u64) list" where
  "scratch_generations ae keep d scratch =
     List.map_filter (\<lambda>i. if keep i then map_option (\<lambda>ob. (i, lo_generation ob)) (find_node ae i d) else None) (active scratch)"

definition SerializeObjectGraphToBuffer ::
  "('x, 'e, 's) object_system \<Rightarrow> obj_id \<Rightarrow> ('x, 'e) domain \<Rightarrow> bytes \<Rightarrow> bytes option" where
  "SerializeObjectGraphToBuffer sys root d out = do {
     scratch \<leftarrow> SaveObjectGraphToScratch sys MaterializedPublication root d [];
     let bases = distilled_bases (os_ae sys) (active scratch) d; keep = (\<lambda>i. i \<notin> set bases) in
     Some (out @ counted layer_record (scratch_layers keep scratch)
             @ counted generation_record (scratch_generations (os_ae sys) keep d scratch)) }"

section \<open>Loading\<close>

record load_diagnostics =
  dg_stage :: load_stage
  dg_root_id :: obj_id
  dg_obj_id :: obj_id
  dg_class_id :: class_id
  dg_version :: u8
  dg_offset :: u32
  dg_size :: u32
  dg_layer_index :: u32
  dg_layer_count :: u32
  dg_object_class_id :: class_id
  dg_load_error_code :: int

definition no_diagnostics :: load_diagnostics where
  "no_diagnostics = \<lparr> dg_stage = StageOk, dg_root_id = 0, dg_obj_id = 0, dg_class_id = 0, dg_version = 0,
     dg_offset = 0, dg_size = 0, dg_layer_index = 0, dg_layer_count = 0, dg_object_class_id = 0, dg_load_error_code = 0 \<rparr>"

definition LoadExistingObject ::
  "('x, 'e, 's) object_system \<Rightarrow> 's \<Rightarrow> obj_id \<Rightarrow> load_diagnostics \<Rightarrow> ('x, 'e) domain \<Rightarrow>
   bool \<times> load_diagnostics \<times> ('x, 'e) domain" where
  "LoadExistingObject sys s i dg d =
     (case d i of
        None \<Rightarrow> (False, dg, d)
      | Some ob \<Rightarrow>
          if \<not> os_has_load sys (lo_class ob) then (False, dg\<lparr> dg_object_class_id := lo_class ob \<rparr>, d)
          else case os_load sys s i d of
            (Some code, d) \<Rightarrow> (False, dg\<lparr> dg_object_class_id := lo_class ob, dg_load_error_code := code \<rparr>, d)
          | (None, d) \<Rightarrow> (True, dg, d))"

definition LoadExistingObjectUnchecked ::
  "('x, 'e, 's) object_system \<Rightarrow> 's \<Rightarrow> obj_id \<Rightarrow> ('x, 'e) domain \<Rightarrow> ('x, 'e) domain" where
  "LoadExistingObjectUnchecked sys s i d = snd (snd (LoadExistingObject sys s i no_diagnostics d))"

text \<open>InjectSavedObjectLayers: layers up to the position \<open>end_pos\<close>, which they must meet exactly.\<close>

function InjectSavedObjectLayers ::
  "'s storage_ops \<Rightarrow> obj_id \<Rightarrow> nat \<Rightarrow> byte_source \<Rightarrow> 's \<Rightarrow> (byte_source \<times> 's) option" where
  "InjectSavedObjectLayers ops i end_pos src s =
     (if src_pos src < end_pos then
        let (c, src1) = read_u32 src; (v, src2) = read_u8 src1; (n, src3) = read_u32 src2 in
        if \<not> (src_ok src3 \<and> src_pos src3 + unat n \<le> end_pos) then None
        else InjectSavedObjectLayers ops i end_pos (src3\<lparr> src_pos := src_pos src3 + unat n \<rparr>)
               (snd (so_store ops (i, c, v) (take (unat n) (drop (src_pos src3) (src_data src3))) s))
      else if src_pos src = end_pos then Some (src, s) else None)"
  by pat_completeness auto

lemma read_advances:
  "read_u32 src = (x, src') \<Longrightarrow> src_ok src' \<Longrightarrow> src_pos src' = src_pos src + 4"
  "read_u8 src = (y, src') \<Longrightarrow> src_ok src' \<Longrightarrow> src_pos src' = src_pos src + 1"
  by (auto simp: read_u32_def read_u8_def ByteSource_read_def split: if_splits)

lemma read_ok_before:
  "read_u32 src = (x, src') \<Longrightarrow> src_ok src' \<Longrightarrow> src_ok src"
  "read_u8 src = (y, src') \<Longrightarrow> src_ok src' \<Longrightarrow> src_ok src"
  by (auto simp: read_u32_def read_u8_def ByteSource_read_def split: if_splits)

termination InjectSavedObjectLayers
proof (relation "measure (\<lambda>(ops, i, end_pos, src, s). end_pos - src_pos src)", goal_cases)
  case (2 ops i end_pos src s x c src1 y v src2 z n src3)
  then have "src_ok src3" by simp
  then have "src_pos src3 = src_pos src2 + 4" "src_ok src2"
    using 2(6,7) read_advances(1) [of src2 n src3] read_ok_before(1) [of src2 n src3] by auto
  then show ?case using 2 read_ok_before(2) [of src1 v src2] read_advances(2) [of src1 v src2]
      read_advances(1) [of src c src1] by auto
qed simp

declare InjectSavedObjectLayers.simps [simp del]

definition DeserializeObjectFromBuffer ::
  "('x, 'e, 's) object_system \<Rightarrow> 's storage_ops \<Rightarrow> obj_id \<Rightarrow> byte_source \<Rightarrow> 's \<Rightarrow> ('x, 'e) domain \<Rightarrow>
   (byte_source \<times> 's \<times> ('x, 'e) domain) option" where
  "DeserializeObjectFromBuffer sys ops i src s d = do {
     (src, s) \<leftarrow> InjectSavedObjectLayers ops i (length (src_data src)) src s;
     Some (src, s, LoadExistingObjectUnchecked sys s i d) }"

definition finalize_found :: "aether \<Rightarrow> obj_id \<Rightarrow> u64 \<Rightarrow> ('x, 'e) domain \<Rightarrow> ('x, 'e) domain" where
  "finalize_found ae i g d = (if d i = None then d else FinalizeUiNodeState ae i g d)"

text \<open>Every injected object that is live is loaded again.\<close>

fun refresh_objects :: "('x, 'e, 's) object_system \<Rightarrow> 's \<Rightarrow> obj_id list \<Rightarrow> ('x, 'e) domain \<Rightarrow> ('x, 'e) domain" where
  "refresh_objects sys s [] d = d"
| "refresh_objects sys s (i # ids) d =
     refresh_objects sys s ids (if d i = None then d else LoadExistingObjectUnchecked sys s i d)"

definition DeserializeObjectGraphFromBuffer ::
  "('x, 'e, 's) object_system \<Rightarrow> 's storage_ops \<Rightarrow> obj_id \<Rightarrow> byte_source \<Rightarrow> 's \<Rightarrow> ('x, 'e) domain \<Rightarrow>
   (byte_source \<times> 's \<times> ('x, 'e) domain) option" where
  "DeserializeObjectGraphFromBuffer sys ops root src s d =
     (let (layer_count, src) = read_u32 src in
      if \<not> src_ok src then None
      else case inject_layers False ops (unat layer_count) 0 src s [] of
        (Inl _, _) \<Rightarrow> None
      | (Inr (src, ids), s) \<Rightarrow>
          let d = refresh_objects sys s ids (LoadExistingObjectUnchecked sys s root d);
              (node_generation_count, src) = read_u32 src in
          if \<not> src_ok src then None
          else case read_generations (finalize_found (os_ae sys)) (unat node_generation_count) 0 src d of
            (Inl _, _) \<Rightarrow> None
          | (Inr src, d) \<Rightarrow> Some (src, s, d))"

section \<open>Publications of one node\<close>

definition envelope :: "obj_id \<Rightarrow> u64 \<Rightarrow> bytes \<Rightarrow> bytes" where
  "envelope i g payload = le_u32 i @ le_u64 g @ le_u32 (of_nat (length payload)) @ payload"

text \<open>The node is live, so its generation is that of the object found.\<close>

definition SerializeIncrementalNodePublication ::
  "('x, 'e, 's) object_system \<Rightarrow> obj_id \<Rightarrow> ('x, 'e) domain \<Rightarrow> bytes \<Rightarrow> bytes option" where
  "SerializeIncrementalNodePublication sys i d out = do {
     node \<leftarrow> d i;
     payload \<leftarrow> SerializeObjectToBuffer sys MaterializedPublication i d [];
     Some (out @ envelope i (lo_generation node) payload) }"

text \<open>The header of an envelope: id, generation, and a source on the payload alone.\<close>

definition read_envelope :: "byte_source \<Rightarrow> (obj_id \<times> u64 \<times> byte_source \<times> byte_source) option" where
  "read_envelope src =
     (let (i, src) = read_u32 src; (g, src) = read_u64 src; (n, src) = read_u32 src in
      if \<not> src_ok src \<or> src_pos src + unat n > length (src_data src) then None
      else Some (i, g, byte_source (take (unat n) (drop (src_pos src) (src_data src))),
                 src\<lparr> src_pos := src_pos src + unat n \<rparr>))"

definition ApplyIncrementalPublication ::
  "('x, 'e, 's) object_system \<Rightarrow> 's storage_ops \<Rightarrow> byte_source \<Rightarrow> 's \<Rightarrow> ('x, 'e) domain \<Rightarrow>
   (obj_id \<times> byte_source \<times> 's \<times> ('x, 'e) domain) option" where
  "ApplyIncrementalPublication sys ops src s d = do {
     (i, g, payload, src) \<leftarrow> read_envelope src;
     assert_that (d i \<noteq> None);
     (_, s, d) \<leftarrow> DeserializeObjectFromBuffer sys ops i payload s d;
     Some (i, src, s, FinalizeUiNodeState (os_ae sys) i g d) }"

text \<open>\<open>take_frame_request\<close> is TakeFrameRequestPendingPublication of a desktop window: whether the node is one with a
  pending request, and the node without it.\<close>

definition SerializeStructuralNodePublication ::
  "('x, 'e, 's) object_system \<Rightarrow> (('x, 'e) live_object \<Rightarrow> bool \<times> ('x, 'e) live_object) \<Rightarrow> obj_id \<Rightarrow> ('x, 'e) domain \<Rightarrow>
   bytes \<Rightarrow> (bytes \<times> ('x, 'e) domain) option" where
  "SerializeStructuralNodePublication sys take_frame_request i d out = do {
     node \<leftarrow> d i;
     payload \<leftarrow> SerializeObjectGraphToBuffer sys i d [];
     let (requested, node') = take_frame_request node in
     Some (out @ envelope i (lo_generation node) payload @ [if requested then 1 else 0], d(i \<mapsto> node')) }"

definition ApplyStructuralPublication ::
  "('x, 'e, 's) object_system \<Rightarrow> 's storage_ops \<Rightarrow> byte_source \<Rightarrow> 's \<Rightarrow> ('x, 'e) domain \<Rightarrow>
   (obj_id \<times> u8 \<times> byte_source \<times> 's \<times> ('x, 'e) domain) option" where
  "ApplyStructuralPublication sys ops src s d = do {
     (i, g, payload, src) \<leftarrow> read_envelope src;
     assert_that (d i \<noteq> None);
     (_, s, d) \<leftarrow> DeserializeObjectGraphFromBuffer sys ops i payload s d;
     let (sidecar, src) = (if src_pos src < length (src_data src) then read_u8 src else (0, src)) in
     Some (i, sidecar, src, s, FinalizeUiNodeState (os_ae sys) i g d) }"

section \<open>Initial publication\<close>

text \<open>\<open>ensured\<close> is the domain after EnsureCurrentGeneration of every reachable node.\<close>

definition SerializeInitialPublication ::
  "('x, 'e, 's) object_system \<Rightarrow> obj_id \<Rightarrow> ('x, 'e) domain \<Rightarrow> bytes \<Rightarrow> bytes option" where
  "SerializeInitialPublication sys root ensured out =
     SerializeObjectGraphToBuffer sys root ensured (out @ le_u32 root)"

text \<open>The first id whose probe LoadRoot fails, for the diagnostics.\<close>

fun probe_roots :: "('x, 'e, 's) object_system \<Rightarrow> 's \<Rightarrow> obj_id list \<Rightarrow> load_diagnostics \<Rightarrow> ('x, 'e) domain \<Rightarrow>
  load_diagnostics \<times> ('x, 'e) domain" where
  "probe_roots sys s [] dg d = (dg, d)"
| "probe_roots sys s (i # ids) dg d =
     (let (found, d) = os_load_root sys s i d in
      if found then probe_roots sys s ids dg d else (dg\<lparr> dg_obj_id := i \<rparr>, d))"

definition reload_object ::
  "('x, 'e, 's) object_system \<Rightarrow> 's \<Rightarrow> obj_id \<Rightarrow> obj_id \<Rightarrow> load_diagnostics \<Rightarrow> ('x, 'e) domain \<Rightarrow>
   bool \<times> load_diagnostics \<times> ('x, 'e) domain" where
  "reload_object sys s root_id i dg d =
     (let (found, d) = (if d i \<noteq> None then (True, d) else os_load_root sys s i d);
          failed = (\<lambda>dg. dg\<lparr> dg_stage := LoadExistingObjectStage, dg_root_id := root_id, dg_obj_id := i \<rparr>) in
      if \<not> found then (False, failed dg, d)
      else let (loaded, dg, d) = LoadExistingObject sys s i dg d in
        if loaded then (True, dg, d) else (False, failed dg, d))"

fun reload_objects ::
  "('x, 'e, 's) object_system \<Rightarrow> 's \<Rightarrow> obj_id \<Rightarrow> obj_id list \<Rightarrow> load_diagnostics \<Rightarrow> ('x, 'e) domain \<Rightarrow>
   bool \<times> load_diagnostics \<times> ('x, 'e) domain" where
  "reload_objects sys s root_id [] dg d = (True, dg, d)"
| "reload_objects sys s root_id (i # ids) dg d =
     (let (loaded, dg, d) = reload_object sys s root_id i dg d in
      if loaded then reload_objects sys s root_id ids dg d else (False, dg, d))"

text \<open>The injected objects are loaded in order, from the largest id to the smallest, and in order again.\<close>

definition HydrateInjectedPublicationGraph ::
  "('x, 'e, 's) object_system \<Rightarrow> 's \<Rightarrow> obj_id \<Rightarrow> obj_id list \<Rightarrow> load_diagnostics \<Rightarrow> ('x, 'e) domain \<Rightarrow>
   bool \<times> load_diagnostics \<times> ('x, 'e) domain" where
  "HydrateInjectedPublicationGraph sys s root_id ids dg d =
     (let (found, d) = os_load_root sys s root_id d in
      if \<not> found then
        let (dg, d) = probe_roots sys s ids (dg\<lparr> dg_stage := LoadRootStage, dg_root_id := root_id \<rparr>) d in (False, dg, d)
      else reload_objects sys s root_id (ids @ rev (sort ids) @ ids) dg d)"

definition stop_diagnostics :: "layer_stop \<Rightarrow> load_diagnostics \<Rightarrow> load_diagnostics" where
  "stop_diagnostics stop dg = (case stop of (stage, k, h, pos) \<Rightarrow>
     dg\<lparr> dg_stage := stage, dg_layer_index := of_nat k, dg_obj_id := lh_obj h, dg_class_id := lh_class h,
         dg_version := lh_version h, dg_size := lh_size h, dg_offset := of_nat pos \<rparr>)"

definition ReadAndInjectPublicationLayers ::
  "'s storage_ops \<Rightarrow> byte_source \<Rightarrow> load_diagnostics \<Rightarrow> 's \<Rightarrow>
   (load_diagnostics + byte_source \<times> obj_id list \<times> load_diagnostics) \<times> 's" where
  "ReadAndInjectPublicationLayers ops src dg s =
     (let (layer_count, src) = read_u32 src in
      if \<not> src_ok src then (Inl (dg\<lparr> dg_stage := ReadLayerCount, dg_offset := of_nat (src_pos src) \<rparr>), s)
      else let dg = dg\<lparr> dg_layer_count := layer_count \<rparr> in
        case inject_layers True ops (unat layer_count) 0 src s [] of
          (Inl stop, s) \<Rightarrow> (Inl (stop_diagnostics stop dg), s)
        | (Inr (src, ids), s) \<Rightarrow> (Inr (src, ids, dg), s))"

text \<open>Whether a root was loaded, with the diagnostics.\<close>

definition TryLoadInitialPublication ::
  "('x, 'e, 's) object_system \<Rightarrow> 's storage_ops \<Rightarrow> byte_source \<Rightarrow> 's \<Rightarrow> ('x, 'e) domain \<Rightarrow>
   obj_id option \<times> load_diagnostics \<times> 's \<times> ('x, 'e) domain" where
  "TryLoadInitialPublication sys ops src s d =
     (let dg = no_diagnostics; (root_id, src) = read_u32 src in
      if \<not> src_ok src then (None, dg\<lparr> dg_stage := ReadRootId, dg_offset := of_nat (src_pos src) \<rparr>, s, d)
      else let dg = dg\<lparr> dg_root_id := root_id \<rparr> in
        case ReadAndInjectPublicationLayers ops src dg s of
          (Inl dg, s) \<Rightarrow> (None, dg, s, d)
        | (Inr (src, ids, dg), s) \<Rightarrow>
            let (hydrated, dg, d) = HydrateInjectedPublicationGraph sys s root_id ids dg d in
            if \<not> hydrated then (None, dg, s, d)
            else let (node_generation_count, src) = read_u32 src in
              if \<not> src_ok src then (None, dg\<lparr> dg_stage := ReadGenerationCount, dg_offset := of_nat (src_pos src) \<rparr>, s, d)
              else case read_generations (finalize_found (os_ae sys)) (unat node_generation_count) 0 src d of
                (Inl (k, i, pos), d) \<Rightarrow>
                  (None, dg\<lparr> dg_stage := ReadGenerationEntry, dg_layer_index := of_nat k, dg_obj_id := i, dg_offset := of_nat pos \<rparr>, s, d)
              | (Inr src, d) \<Rightarrow>
                  let (found, d) = os_load_root sys s root_id d in
                  if \<not> found then (None, dg\<lparr> dg_stage := FinalFindRoot \<rparr>, s, d)
                  else (Some root_id, dg\<lparr> dg_stage := StageOk \<rparr>, s, d))"

text \<open>LoadInitialPublication writes the diagnostics and aborts when there is no root.\<close>

definition LoadInitialPublication ::
  "('x, 'e, 's) object_system \<Rightarrow> 's storage_ops \<Rightarrow> byte_source \<Rightarrow> 's \<Rightarrow> ('x, 'e) domain \<Rightarrow>
   (obj_id \<times> 's \<times> ('x, 'e) domain) option" where
  "LoadInitialPublication sys ops src s d =
     (case TryLoadInitialPublication sys ops src s d of
        (Some root, _, s, d) \<Rightarrow> Some (root, s, d)
      | (None, _) \<Rightarrow> None)"

end
