(* ===== verification/Checkpoint.thy ===== *)
theory Checkpoint
  imports Publication
begin

text \<open>
  The durable checkpoint of the model (src/src/object_serialization.cpp from
  WritePersistentCheckpointScratchLayers on) and the repair of loaded pointers
  (src/src/model_persistence.cpp and .h): which objects a save reaches, the temporary removal of history
  during a save, the checkpoint envelope, its injection into a storage, its loading, and the sidecar file.
\<close>

section \<open>Reachable objects\<close>

definition RemoveDistilledBaseObjects :: "aether \<Rightarrow> ('x, 'e) domain \<Rightarrow> obj_id list \<Rightarrow> obj_id list" where
  "RemoveDistilledBaseObjects ae d ids = filter (\<lambda>i. i \<notin> set (distilled_bases ae ids d)) ids"

definition CollectReachableObjects ::
  "('x, 'e, 's) object_system \<Rightarrow> obj_id \<Rightarrow> ('x, 'e) domain \<Rightarrow> obj_id list option" where
  "CollectReachableObjects sys root d = do {
     scratch \<leftarrow> SaveObjectGraphToScratch sys FullGraph root d [];
     Some (RemoveDistilledBaseObjects (os_ae sys) d (filter (\<lambda>i. d i \<noteq> None) (active scratch))) }"

definition CollectReachableNodes ::
  "('x, 'e, 's) object_system \<Rightarrow> obj_id \<Rightarrow> ('x, 'e) domain \<Rightarrow> obj_id list option" where
  "CollectReachableNodes sys root d = do {
     objects \<leftarrow> CollectReachableObjects sys root d;
     Some (filter (\<lambda>i. find_node (os_ae sys) i d \<noteq> None) objects) }"

definition CollectMaterializedReachableObjects ::
  "('x, 'e, 's) object_system \<Rightarrow> obj_id \<Rightarrow> ('x, 'e) domain \<Rightarrow> obj_id list option" where
  "CollectMaterializedReachableObjects sys root d = do {
     scratch \<leftarrow> SaveObjectGraphToScratch sys MaterializedPublication root d [];
     Some (RemoveDistilledBaseObjects (os_ae sys) d (filter (\<lambda>i. d i \<noteq> None) (active scratch))) }"

definition CollectPersistentSerializationReachableObjects ::
  "('x, 'e, 's) object_system \<Rightarrow> obj_id \<Rightarrow> ('x, 'e) domain \<Rightarrow> obj_id list option" where
  "CollectPersistentSerializationReachableObjects sys root d = do {
     scratch \<leftarrow> SaveObjectGraphToScratch sys FullGraph root d [];
     let ids = fold (\<lambda>i ids. if ae_valid (os_ae sys) i then note_id i ids else ids) (root # map fst scratch) [] in
     Some (filter (\<lambda>i. d i \<noteq> None) ids) }"

section \<open>History set aside during a save\<close>

type_synonym saved_bases = "(obj_id \<times> obj_id option) list"
type_synonym 'e saved_journals = "(obj_id \<times> 'e event_record list) list"

definition set_base :: "obj_id \<times> obj_id option \<Rightarrow> ('x, 'e) domain \<Rightarrow> ('x, 'e) domain" where
  "set_base x d = update_object (fst x) (\<lambda>ob. ob\<lparr> lo_base := snd x \<rparr>) d"

definition set_journal :: "obj_id \<times> 'e event_record list \<Rightarrow> ('x, 'e) domain \<Rightarrow> ('x, 'e) domain" where
  "set_journal x d = update_object (fst x) (\<lambda>ob. ob\<lparr> lo_journal := snd x \<rparr>) d"

definition bases_of :: "obj_id list \<Rightarrow> ('x, 'e) domain \<Rightarrow> saved_bases" where
  "bases_of nodes d = List.map_filter (\<lambda>i. map_option (\<lambda>ob. (i, lo_base ob)) (d i)) nodes"

definition journals_of :: "obj_id list \<Rightarrow> ('x, 'e) domain \<Rightarrow> 'e saved_journals" where
  "journals_of nodes d = List.map_filter (\<lambda>i. map_option (\<lambda>ob. (i, lo_journal ob)) (d i)) nodes"

definition ClearReachableNodeHistoryForPublicationSave ::
  "('x, 'e, 's) object_system \<Rightarrow> obj_id \<Rightarrow> ('x, 'e) domain \<Rightarrow>
   (saved_bases \<times> 'e saved_journals \<times> ('x, 'e) domain) option" where
  "ClearReachableNodeHistoryForPublicationSave sys root d = do {
     nodes \<leftarrow> CollectReachableNodes sys root d;
     Some (bases_of nodes d, journals_of nodes d,
       fold (\<lambda>i. set_base (i, None) \<circ> set_journal (i, [])) nodes d) }"

definition RestoreReachableNodeHistory ::
  "saved_bases \<Rightarrow> 'e saved_journals \<Rightarrow> ('x, 'e) domain \<Rightarrow> ('x, 'e) domain" where
  "RestoreReachableNodeHistory bases journals d = fold set_journal journals (fold set_base bases d)"

definition ClearReachableNodeBaseForCheckpointSave ::
  "('x, 'e, 's) object_system \<Rightarrow> obj_id \<Rightarrow> ('x, 'e) domain \<Rightarrow> (saved_bases \<times> ('x, 'e) domain) option" where
  "ClearReachableNodeBaseForCheckpointSave sys root d = do {
     nodes \<leftarrow> CollectReachableNodes sys root d;
     Some (bases_of nodes d, fold (\<lambda>i. set_base (i, None)) nodes d) }"

definition RestoreReachableNodeBase :: "saved_bases \<Rightarrow> ('x, 'e) domain \<Rightarrow> ('x, 'e) domain" where
  "RestoreReachableNodeBase bases d = fold set_base bases d"

fun EnsurePersistentCheckpointBaseObjectsInScratch ::
  "('x, 'e, 's) object_system \<Rightarrow> saved_bases \<Rightarrow> ('x, 'e) domain \<Rightarrow> ram_state \<Rightarrow> ram_state option" where
  "EnsurePersistentCheckpointBaseObjectsInScratch sys [] d scratch = Some scratch"
| "EnsurePersistentCheckpointBaseObjectsInScratch sys ((i, None) # bases) d scratch =
     EnsurePersistentCheckpointBaseObjectsInScratch sys bases d scratch"
| "EnsurePersistentCheckpointBaseObjectsInScratch sys ((i, Some b) # bases) d scratch =
     (if layers_of scratch b \<noteq> None \<or> d b = None
      then EnsurePersistentCheckpointBaseObjectsInScratch sys bases d scratch
      else do {
        scratch \<leftarrow> SaveObjectGraphToScratch sys FullGraph b d scratch;
        EnsurePersistentCheckpointBaseObjectsInScratch sys bases d scratch })"

section \<open>The checkpoint envelope\<close>

definition checkpoint_layers :: "('x, 'e) domain \<Rightarrow> ram_state \<Rightarrow> layer list" where
  "checkpoint_layers d scratch = scratch_layers (\<lambda>i. d i \<noteq> None) scratch"

definition WritePersistentCheckpointScratchLayers :: "aether \<Rightarrow> ram_state \<Rightarrow> ('x, 'e) domain \<Rightarrow> bytes" where
  "WritePersistentCheckpointScratchLayers ae scratch d =
     counted layer_record (checkpoint_layers d scratch) @
     counted generation_record (scratch_generations ae (\<lambda>i. d i \<noteq> None) d scratch)"

definition base_bindings :: "saved_bases \<Rightarrow> (obj_id \<times> obj_id) list" where
  "base_bindings bases = List.map_filter (\<lambda>(i, b). map_option (\<lambda>b. (i, b)) b) bases"

definition WritePersistentCheckpointNodeBaseBindings :: "saved_bases \<Rightarrow> bytes" where
  "WritePersistentCheckpointNodeBaseBindings bases = counted binding_record (base_bindings bases)"

text \<open>What a checkpoint writes: the domain while its history is set aside, the scratch storage and the saved bases.\<close>

definition checkpoint_parts ::
  "('x, 'e, 's) object_system \<Rightarrow> obj_id \<Rightarrow> ('x, 'e) domain \<Rightarrow>
   ('e saved_journals \<times> saved_bases \<times> ram_state \<times> ('x, 'e) domain) option" where
  "checkpoint_parts sys root d = do {
     nodes \<leftarrow> CollectReachableNodes sys root d;
     let journals = journals_of nodes d;
     let d = fold (\<lambda>(i, j). set_journal (i, filter (\<lambda>r. ptr_valid (event r)) j)) journals d;
     (bases, d) \<leftarrow> ClearReachableNodeBaseForCheckpointSave sys root d;
     scratch \<leftarrow> SaveObjectGraphToScratch sys FullGraph root d [];
     scratch \<leftarrow> EnsurePersistentCheckpointBaseObjectsInScratch sys bases d scratch;
     Some (journals, bases, scratch, d) }"

definition SerializePersistentModelSnapshot ::
  "('x, 'e, 's) object_system \<Rightarrow> obj_id \<Rightarrow> ('x, 'e) domain \<Rightarrow> bytes \<Rightarrow> (bytes \<times> ('x, 'e) domain) option" where
  "SerializePersistentModelSnapshot sys root d out = do {
     (journals, bases, scratch, d) \<leftarrow> checkpoint_parts sys root d;
     Some (out @ le_u32 root @ WritePersistentCheckpointScratchLayers (os_ae sys) scratch d @
             WritePersistentCheckpointNodeBaseBindings bases,
           fold set_journal journals (RestoreReachableNodeBase bases d)) }"

section \<open>Into a storage\<close>

definition SkipPersistentCheckpointNodeBaseBindings :: "byte_source \<Rightarrow> bool" where
  "SkipPersistentCheckpointNodeBaseBindings src =
     (if src_pos src + 4 > length (src_data src) then True
      else let (binding_count, src) = read_u32 src in
        src_ok src \<and> fst (read_bindings (\<lambda>_ _ d. d) (unat binding_count) src ()))"

definition InjectPersistentModelSnapshotToStorage ::
  "'s storage_ops \<Rightarrow> byte_source \<Rightarrow> obj_id \<Rightarrow> 's \<Rightarrow> bool \<times> 's" where
  "InjectPersistentModelSnapshotToStorage ops src expected_root_id s =
     (let (root_id, src) = read_u32 src in
      if \<not> src_ok src \<or> root_id \<noteq> expected_root_id then (False, s)
      else let (layer_count, src) = read_u32 src in
        if \<not> src_ok src then (False, s)
        else case inject_layers True ops (unat layer_count) 0 src s [] of
          (Inl _, s) \<Rightarrow> (False, s)
        | (Inr (src, _), s) \<Rightarrow>
            let (node_generation_count, src) = read_u32 src in
            if \<not> src_ok src then (False, s)
            else case read_generations (\<lambda>_ _ d. d) (unat node_generation_count) 0 src () of
              (Inl _, _) \<Rightarrow> (False, s)
            | (Inr src, _) \<Rightarrow> (SkipPersistentCheckpointNodeBaseBindings src, s))"

text \<open>The sidecar file beside the object directories; it is truncated, then written.\<close>

definition sidecar_path :: path where
  "sidecar_path = [''persistent_model_checkpoint.bin'']"

definition WritePersistentModelCheckpointSidecar :: "disk_faults \<Rightarrow> bytes \<Rightarrow> file_system \<Rightarrow> bool \<times> file_system" where
  "WritePersistentModelCheckpointSidecar df data fs =
     (if df_open_write df sidecar_path \<or> map_of fs [] \<noteq> Some Directory \<or> map_of fs sidecar_path = Some Directory then (False, fs)
      else case df_write df sidecar_path of
        Some k \<Rightarrow> (False, fs_put sidecar_path (RegularFile (take k data)) fs)
      | None \<Rightarrow> (True, fs_put sidecar_path (RegularFile data) fs))"

text \<open>\<open>sidecar\<close> writes the sidecar of the storage, when it has one.\<close>

definition SavePersistentModelSnapshotToStorageImpl ::
  "('x, 'e, 's) object_system \<Rightarrow> 's storage_ops \<Rightarrow> (bytes \<Rightarrow> 's \<Rightarrow> bool \<times> 's) option \<Rightarrow> obj_id \<Rightarrow>
   ('x, 'e) domain \<Rightarrow> 's \<Rightarrow> (bool \<times> 's \<times> ('x, 'e) domain) option" where
  "SavePersistentModelSnapshotToStorageImpl sys ops sidecar root d s = do {
     (data, d) \<leftarrow> SerializePersistentModelSnapshot sys root d [];
     let (written, s) = (case sidecar of None \<Rightarrow> (True, s) | Some write_sidecar \<Rightarrow> write_sidecar data s) in
     if \<not> written then Some (False, s, d)
     else let (injected, s) = InjectPersistentModelSnapshotToStorage ops (byte_source data) root s in
       Some (injected, s, d) }"

definition directory_sidecar :: "disk_faults \<Rightarrow> bytes \<Rightarrow> directory_storage \<Rightarrow> bool \<times> directory_storage" where
  "directory_sidecar df data s =
     (let (written, fs) = WritePersistentModelCheckpointSidecar df data (ds_files s) in (written, s\<lparr> ds_files := fs \<rparr>))"

definition SavePersistentModelSnapshotToDirectory ::
  "('x, 'e, directory_storage) object_system \<Rightarrow> disk_faults \<Rightarrow> obj_id \<Rightarrow> ('x, 'e) domain \<Rightarrow> directory_storage \<Rightarrow>
   (bool \<times> directory_storage \<times> ('x, 'e) domain) option" where
  "SavePersistentModelSnapshotToDirectory sys df root d s =
     SavePersistentModelSnapshotToStorageImpl sys (DirectoryOps df) (Some (directory_sidecar df)) root d s"

section \<open>Stale pointers\<close>

definition ObjPtrReferenceIsStale :: "obj_id list option \<Rightarrow> ('x, 'e) domain option \<Rightarrow> obj_id option \<Rightarrow> bool" where
  "ObjPtrReferenceIsStale loaded owner ref =
     (case ref of
        None \<Rightarrow> False
      | Some i \<Rightarrow>
          (case loaded of Some ids \<Rightarrow> i \<notin> set ids | None \<Rightarrow> False) \<or>
          (case owner of None \<Rightarrow> True | Some d \<Rightarrow> d i = None))"

text \<open>A patch session over a store of pointer slots.\<close>

record 'k patch_session =
  patches :: "('k \<times> obj_id option) list"
  session_loaded :: "obj_id list option"
  restored :: bool

definition new_session :: "'k patch_session" where
  "new_session = \<lparr> patches = [], session_loaded = None, restored = False \<rparr>"

definition RecordObjPtrPatch :: "'k \<Rightarrow> ('k \<Rightarrow> obj_id option) \<Rightarrow> 'k patch_session \<Rightarrow> 'k patch_session" where
  "RecordObjPtrPatch slot mem session = session\<lparr> patches := patches session @ [(slot, mem slot)] \<rparr>"

definition ClearStaleObjPtr ::
  "('x, 'e) domain option \<Rightarrow> 'k \<Rightarrow> ('k \<Rightarrow> obj_id option) \<Rightarrow> 'k patch_session \<Rightarrow> ('k \<Rightarrow> obj_id option) \<times> 'k patch_session" where
  "ClearStaleObjPtr owner slot mem session =
     (if \<not> ObjPtrReferenceIsStale (session_loaded session) owner (mem slot) then (mem, session)
      else (mem(slot := None), RecordObjPtrPatch slot mem session))"

definition RestoreAll :: "('k \<Rightarrow> obj_id option) \<Rightarrow> 'k patch_session \<Rightarrow> ('k \<Rightarrow> obj_id option) \<times> 'k patch_session" where
  "RestoreAll mem session =
     (if restored session then (mem, session)
      else (fold (\<lambda>(slot, previous) mem. mem(slot := previous)) (patches session) mem,
            session\<lparr> patches := [], restored := True \<rparr>))"

text \<open>The objects the repair visits: a worklist of ids, each queued once.\<close>

definition queue_id :: "aether \<Rightarrow> obj_id \<Rightarrow> obj_id set \<times> obj_id list \<Rightarrow> obj_id set \<times> obj_id list" where
  "queue_id ae i q = (if \<not> ae_valid ae i \<or> i \<in> fst q then q else (insert i (fst q), i # snd q))"

definition queue_history :: "aether \<Rightarrow> ('x, 'e) live_object \<Rightarrow> obj_id set \<times> obj_id list \<Rightarrow> obj_id set \<times> obj_id list" where
  "queue_history ae ob q =
     (if \<not> is_node ae ob then q
      else fold (queue_id ae) (map (\<lambda>r. ptr_id (event r)) (filter (\<lambda>r. ptr_valid (event r)) (lo_journal ob)))
             (case lo_base ob of None \<Rightarrow> q | Some b \<Rightarrow> queue_id ae b q))"

lemma queue_id_measure:
  "fst q \<subseteq> fst (queue_id ae i q) \<and> card (- fst (queue_id ae i q)) + length (snd (queue_id ae i q)) = card (- fst q) + length (snd q)"
proof -
  have "card (- fst q) = Suc (card (- insert i (fst q)))" if "i \<notin> fst q"
    using that by (metis ComplI Compl_insert card.remove finite)
  then show ?thesis by (auto simp: queue_id_def)
qed

lemma fold_queue_measure:
  "fst q \<subseteq> fst (fold (queue_id ae) is q) \<and>
   card (- fst (fold (queue_id ae) is q)) + length (snd (fold (queue_id ae) is q)) = card (- fst q) + length (snd q)"
proof (induction "is" arbitrary: q)
  case (Cons i "is")
  show ?case using Cons.IH [of "queue_id ae i q"] queue_id_measure [of q ae i] by auto
qed simp

lemma queue_history_measure:
  "card (- fst (queue_history ae ob q)) + length (snd (queue_history ae ob q)) = card (- fst q) + length (snd q)"
  using queue_id_measure [of q ae] fold_queue_measure [of _ ae] by (simp add: queue_history_def split: option.split)

function collect_for_sanitize :: "aether \<Rightarrow> ('x, 'e) domain \<Rightarrow> obj_id set \<Rightarrow> obj_id list \<Rightarrow> obj_id list" where
  "collect_for_sanitize ae d queued [] = []"
| "collect_for_sanitize ae d queued (i # stack) =
     (case d i of
        None \<Rightarrow> collect_for_sanitize ae d queued stack
      | Some ob \<Rightarrow>
          let q = queue_history ae ob (queued, stack) in i # collect_for_sanitize ae d (fst q) (snd q))"
  by pat_completeness auto

termination collect_for_sanitize
proof (relation "measure (\<lambda>(ae, d, queued, stack). card (- queued) + length stack)", goal_cases)
  case (3 ae d queued i stack ob q)
  then show ?case using queue_history_measure [of ae ob "(queued, stack)"] by (simp add: case_prod_beta)
qed simp_all

definition CollectLoadedPersistentObjectsForSanitize ::
  "aether \<Rightarrow> obj_id \<Rightarrow> obj_id list \<Rightarrow> ('x, 'e) domain \<Rightarrow> obj_id list" where
  "CollectLoadedPersistentObjectsForSanitize ae root ids d =
     (let q = fold (queue_id ae) (root # ids) ({}, []) in collect_for_sanitize ae d (fst q) (snd q))"

text \<open>Of the reflected pointers of a Node, \<open>base\<close> is the only one outside a container.\<close>

definition SanitizePersistentObjPtrFieldsOnObject ::
  "aether \<Rightarrow> obj_id list \<Rightarrow> obj_id \<Rightarrow> ('x, 'e) domain \<Rightarrow> ('x, 'e) domain" where
  "SanitizePersistentObjPtrFieldsOnObject ae loaded i d =
     (case find_node ae i d of
        None \<Rightarrow> d
      | Some ob \<Rightarrow> if ObjPtrReferenceIsStale (Some loaded) (Some d) (lo_base ob) then set_base (i, None) d else d)"

definition SanitizeLoadedPersistentObjPtrs ::
  "aether \<Rightarrow> obj_id \<Rightarrow> obj_id list \<Rightarrow> ('x, 'e) domain \<Rightarrow> ('x, 'e) domain" where
  "SanitizeLoadedPersistentObjPtrs ae root ids d =
     fold (SanitizePersistentObjPtrFieldsOnObject ae (root # ids))
       (CollectLoadedPersistentObjectsForSanitize ae root ids d) d"

section \<open>Loading a checkpoint\<close>

definition materialize_checkpoint_shell ::
  "('x, 'e, 's) object_system \<Rightarrow> 's \<Rightarrow> obj_id \<Rightarrow> ('x, 'e) domain \<Rightarrow> ('x, 'e) domain option" where
  "materialize_checkpoint_shell sys s i d =
     (if d i \<noteq> None then Some d
      else case os_load_root sys s i d of (found, d) \<Rightarrow> if found then Some d else None)"

definition load_checkpoint_object ::
  "('x, 'e, 's) object_system \<Rightarrow> 's \<Rightarrow> obj_id \<Rightarrow> ('x, 'e) domain \<Rightarrow> ('x, 'e) domain option" where
  "load_checkpoint_object sys s i d = do {
     d \<leftarrow> materialize_checkpoint_shell sys s i d;
     case LoadExistingObject sys s i no_diagnostics d of (loaded, _, d) \<Rightarrow> if loaded then Some d else None }"

fun each_object :: "(obj_id \<Rightarrow> 'd \<Rightarrow> 'd option) \<Rightarrow> obj_id list \<Rightarrow> 'd \<Rightarrow> 'd option" where
  "each_object f [] d = Some d"
| "each_object f (i # ids) d = do { d \<leftarrow> f i d; each_object f ids d }"

definition adopt_generation :: "aether \<Rightarrow> obj_id \<Rightarrow> u64 \<Rightarrow> ('x, 'e) domain \<Rightarrow> ('x, 'e) domain" where
  "adopt_generation ae i g d =
     (if find_node ae i d = None then d else update_object i (\<lambda>ob. ob\<lparr> lo_generation := g \<rparr>) d)"

definition restore_binding ::
  "('x, 'e, 's) object_system \<Rightarrow> 's \<Rightarrow> obj_id \<Rightarrow> obj_id \<Rightarrow> ('x, 'e) domain \<Rightarrow> ('x, 'e) domain" where
  "restore_binding sys s node_id base_id d =
     (case find_node (os_ae sys) node_id d of
        None \<Rightarrow> d
      | Some node \<Rightarrow>
          if lo_base node \<noteq> None then d
          else let (held, d) = (if d base_id \<noteq> None then (True, d) else os_load_root sys s base_id d) in
            if held then set_base (node_id, Some base_id) d else d)"

definition RestorePersistedNodeBaseBindings ::
  "('x, 'e, 's) object_system \<Rightarrow> 's \<Rightarrow> byte_source \<Rightarrow> ('x, 'e) domain \<Rightarrow> ('x, 'e) domain" where
  "RestorePersistedNodeBaseBindings sys s src d =
     (if src_pos src + 4 > length (src_data src) then d
      else let (binding_count, src) = read_u32 src in
        if \<not> src_ok src then d
        else snd (snd (read_bindings (restore_binding sys s) (unat binding_count) src d)))"

text \<open>Events of the journals that are live but not loaded are loaded, and the journals counted as applied.\<close>

definition reload_events :: "('x, 'e, 's) object_system \<Rightarrow> 's \<Rightarrow> 'e event_record list \<Rightarrow> ('x, 'e) domain \<Rightarrow> ('x, 'e) domain" where
  "reload_events sys s records d =
     fold (\<lambda>r d. if \<not> ptr_valid (event r) \<or> is_loaded (event r) then d
        else if d (ptr_id (event r)) = None then d
        else LoadExistingObjectUnchecked sys s (ptr_id (event r)) d) records d"

definition adopt_journal :: "('x, 'e, 's) object_system \<Rightarrow> 's \<Rightarrow> obj_id \<Rightarrow> ('x, 'e) domain \<Rightarrow> ('x, 'e) domain" where
  "adopt_journal sys s i d =
     (case d i of
        None \<Rightarrow> d
      | Some ob \<Rightarrow> update_object i (\<lambda>ob. ob\<lparr> lo_applied := kJournalFullyMaterialized \<rparr>) (reload_events sys s (lo_journal ob) d))"

definition LoadPersistentModelSnapshot ::
  "('x, 'e, 's) object_system \<Rightarrow> 's storage_ops \<Rightarrow> byte_source \<Rightarrow> obj_id \<Rightarrow> 's \<Rightarrow> ('x, 'e) domain \<Rightarrow>
   ('s \<times> ('x, 'e) domain) option" where
  "LoadPersistentModelSnapshot sys ops src root s d =
     (let (root_id, src) = read_u32 src; (layer_count, src1) = read_u32 src in
      if \<not> src_ok src \<or> root_id \<noteq> root \<or> \<not> src_ok src1 then None
      else case inject_layers False ops (unat layer_count) 0 src1 s [] of
        (Inl _, _) \<Rightarrow> None
      | (Inr (src, ids), s) \<Rightarrow> do {
          let others = filter (\<lambda>i. i \<noteq> root) ids;
          d \<leftarrow> each_object (materialize_checkpoint_shell sys s) (others @ [root]) d;
          d \<leftarrow> each_object (load_checkpoint_object sys s) (others @ [root]) d;
          let (node_generation_count, src) = read_u32 src;
          assert_that (src_ok src);
          case read_generations (adopt_generation (os_ae sys)) (unat node_generation_count) 0 src d of
            (Inl _, _) \<Rightarrow> None
          | (Inr src, d) \<Rightarrow> do {
              let d = SanitizeLoadedPersistentObjPtrs (os_ae sys) root ids (RestorePersistedNodeBaseBindings sys s src d);
              nodes \<leftarrow> CollectReachableNodes sys root d;
              Some (s, fold (adopt_journal sys s) nodes d) } })"

text \<open>\<open>Some (False, _)\<close> is the answer false: there is no readable sidecar.\<close>

definition TryLoadPersistedModelFromStorageSidecar ::
  "('x, 'e, directory_storage) object_system \<Rightarrow> disk_faults \<Rightarrow> obj_id \<Rightarrow> directory_storage \<Rightarrow> ('x, 'e) domain \<Rightarrow>
   (bool \<times> directory_storage \<times> ('x, 'e) domain) option" where
  "TryLoadPersistedModelFromStorageSidecar sys df root s d =
     (case map_of (ds_files s) sidecar_path of
        Some (RegularFile data) \<Rightarrow>
          if df_open_read df sidecar_path \<or> (data \<noteq> [] \<and> df_read df sidecar_path) then Some (False, s, d)
          else do {
            (s, d) \<leftarrow> LoadPersistentModelSnapshot sys (PartitionedModelDomainStorage (DirectoryOps df)) (byte_source data) root s d;
            Some (True, s, d) }
      | _ \<Rightarrow> Some (False, s, d))"

end
