(* ===== verification/UiMirror.thy ===== *)
theory UiMirror
  imports Channel Publication
begin

text \<open>
  The mirror that carries changed nodes from the model thread to the GUI domain (src/src/ui_mirror.cpp): one
  publication channel of three buffers per presentation root; Publish fills a buffer with one envelope per
  changed node, ApplyPublished applies a buffer to the GUI domain, creating the shells of nodes that are new to
  it.  \<open>None\<close> is a failed assertion.  A channel belongs to two threads, whose steps are interleaved in Channel;
  here each side runs its part as one step.
\<close>

section \<open>The mirror\<close>

text \<open>\<open>ui_notified\<close> records the calls of the notification callback.\<close>

record ui_mirror =
  ui_channels :: "u32 \<Rightarrow> channel option"
  ui_notified :: "u32 list"

definition UiMirror :: ui_mirror where
  "UiMirror = \<lparr> ui_channels = Map.empty, ui_notified = [] \<rparr>"

definition set_channel :: "u32 \<Rightarrow> channel \<Rightarrow> ui_mirror \<Rightarrow> ui_mirror" where
  "set_channel root ch m = m\<lparr> ui_channels := (ui_channels m)(root \<mapsto> ch) \<rparr>"

definition ChannelFor :: "u32 \<Rightarrow> ui_mirror \<Rightarrow> channel \<times> ui_mirror" where
  "ChannelFor root m =
     (case ui_channels m root of
        Some ch \<Rightarrow> (ch, m)
      | None \<Rightarrow> (PublicationChannel 3, set_channel root (PublicationChannel 3) m))"

definition publication_count :: "u32 \<Rightarrow> ui_mirror \<Rightarrow> u64" where
  "publication_count root m = (case ui_channels m root of Some ch \<Rightarrow> publish_count ch | None \<Rightarrow> 0)"

section \<open>The producer\<close>

text \<open>One record: the envelope with the size patched in, around the fragment of the node.\<close>

definition write_published ::
  "('x, 'e, 's) object_system \<Rightarrow> ('x, 'e) domain \<Rightarrow> obj_id \<Rightarrow> bytes \<Rightarrow> bytes option" where
  "write_published sys d i out = do {
     node \<leftarrow> d i;
     payload \<leftarrow> SerializeObjectGraphToBuffer sys i d [];
     Some (out @ envelope i (lo_generation node) payload) }"

fun write_all_published ::
  "('x, 'e, 's) object_system \<Rightarrow> ('x, 'e) domain \<Rightarrow> obj_id list \<Rightarrow> bytes \<Rightarrow> bytes option" where
  "write_all_published sys d [] out = Some out"
| "write_all_published sys d (i # ids) out = do { out \<leftarrow> write_published sys d i out; write_all_published sys d ids out }"

text \<open>Publish answers whether the nodes were taken, false while the last publication is unread.\<close>

definition Publish ::
  "('x, 'e, 's) object_system \<Rightarrow> ('x, 'e) domain \<Rightarrow> u32 \<Rightarrow> obj_id list \<Rightarrow> ui_mirror \<Rightarrow> (bool \<times> ui_mirror) option" where
  "Publish sys d root changed m =
     (if changed = [] then Some (True, m)
      else let (ch, m) = ChannelFor root m in
        if has_unread_published ch then Some (False, m)
        else do {
          (slot, ch) \<leftarrow> AcquireProducer ch;
          sink \<leftarrow> write_all_published sys d changed (ByteSink_write (buffers ch ! slot) (le_u32 (of_nat (length changed))));
          ch \<leftarrow> PublishProducer (NotePublished (ch\<lparr> buffers := (buffers ch)[slot := sink] \<rparr>));
          let m = set_channel root ch m in
          Some (True, m\<lparr> ui_notified := ui_notified m @ [root] \<rparr>) })"

section \<open>The consumer\<close>

record published_record =
  pb_id :: obj_id
  pb_generation :: u64
  pb_payload :: byte_source
  pb_applied :: bool

fun read_published :: "nat \<Rightarrow> byte_source \<Rightarrow> published_record list option" where
  "read_published 0 src = Some []"
| "read_published (Suc n) src = do {
     (i, g, payload, src) \<leftarrow> read_envelope src;
     recs \<leftarrow> read_published n src;
     Some (\<lparr> pb_id = i, pb_generation = g, pb_payload = payload, pb_applied = False \<rparr> # recs) }"

text \<open>The scan for the class of a shell: the last class above Node among the layers of the object, else the first.\<close>

fun preferred_scan :: "class_id \<Rightarrow> obj_id \<Rightarrow> nat \<Rightarrow> byte_source \<Rightarrow> class_id \<times> class_id \<Rightarrow> class_id \<times> class_id" where
  "preferred_scan nc want 0 src (first, derived) = (first, derived)"
| "preferred_scan nc want (Suc n) src (first, derived) =
     (if \<not> src_ok src then (first, derived)
      else let (h, src) = read_layer_header src in
        if \<not> src_ok src \<or> src_pos src + unat (lh_size h) > length (src_data src) then (first, derived)
        else preferred_scan nc want n (src\<lparr> src_pos := src_pos src + unat (lh_size h) \<rparr>)
          (if lh_obj h \<noteq> want then (first, derived)
           else (if first = 0 then lh_class h else first, if lh_class h \<noteq> nc then lh_class h else derived)))"

definition PreferredClassIdFor :: "class_id \<Rightarrow> byte_source \<Rightarrow> obj_id \<Rightarrow> class_id" where
  "PreferredClassIdFor nc src want =
     (let (layer_count, src) = read_u32 src;
          (first, derived) = preferred_scan nc want (unat layer_count) src (0, 0)
      in if derived \<noteq> 0 then derived else first)"

text \<open>\<open>create c\<close> is what the factory of the class makes; the result is whether there is an object.\<close>

definition CreateUiShell ::
  "aether \<Rightarrow> (class_id \<Rightarrow> ('x, 'e) live_object) \<Rightarrow> obj_id \<Rightarrow> class_id \<Rightarrow> ('x, 'e) domain \<Rightarrow> bool \<times> ('x, 'e) domain" where
  "CreateUiShell ae create i c u =
     (if u i \<noteq> None then (True, u)
      else if c = 0 then (False, u)
      else if \<not> ae_factory ae c then (False, u)
      else (True, u(i \<mapsto> create c)))"

text \<open>The state of a run of ApplyPublished: the GUI storage, the GUI domain and the changed ids.\<close>

type_synonym ('x, 'e, 's) ui_state = "'s \<times> ('x, 'e) domain \<times> obj_id list"

definition apply_existing ::
  "('x, 'e, 's) object_system \<Rightarrow> 's storage_ops \<Rightarrow> published_record \<Rightarrow> ('x, 'e, 's) ui_state \<Rightarrow>
   (bool \<times> published_record \<times> ('x, 'e, 's) ui_state) option" where
  "apply_existing sys ops rec st =
     (case st of (s, u, changed) \<Rightarrow>
        if pb_applied rec \<or> u (pb_id rec) = None then Some (False, rec, st)
        else do {
          (_, s, u) \<leftarrow> DeserializeObjectGraphFromBuffer sys ops (pb_id rec) (pb_payload rec) s u;
          Some (True, rec\<lparr> pb_applied := True \<rparr>,
            s, FinalizeUiNodeState (os_ae sys) (pb_id rec) (pb_generation rec) u, changed @ [pb_id rec]) })"

text \<open>One loop over the records, restricted to those that \<open>only\<close> admits.\<close>

fun apply_pass ::
  "('x, 'e, 's) object_system \<Rightarrow> 's storage_ops \<Rightarrow> (obj_id \<Rightarrow> bool) \<Rightarrow> published_record list \<Rightarrow> ('x, 'e, 's) ui_state \<Rightarrow>
   (bool \<times> published_record list \<times> ('x, 'e, 's) ui_state) option" where
  "apply_pass sys ops only [] st = Some (False, [], st)"
| "apply_pass sys ops only (rec # recs) st = do {
     (hit, rec, st) \<leftarrow> (if only (pb_id rec) then apply_existing sys ops rec st else Some (False, rec, st));
     (progress, recs, st) \<leftarrow> apply_pass sys ops only recs st;
     Some (hit \<or> progress, rec # recs, st) }"

definition apply_round ::
  "('x, 'e, 's) object_system \<Rightarrow> 's storage_ops \<Rightarrow> u32 \<Rightarrow> published_record list \<Rightarrow> ('x, 'e, 's) ui_state \<Rightarrow>
   (bool \<times> published_record list \<times> ('x, 'e, 's) ui_state) option" where
  "apply_round sys ops root recs st = do {
     (roots, recs, st) \<leftarrow> apply_pass sys ops (\<lambda>i. i = root) recs st;
     (others, recs, st) \<leftarrow> apply_pass sys ops (\<lambda>_. True) recs st;
     Some (roots \<or> others, recs, st) }"

abbreviation waiting :: "published_record list \<Rightarrow> published_record list" where
  "waiting recs \<equiv> filter (\<lambda>rec. \<not> pb_applied rec) recs"

lemma apply_existing_waiting:
  "apply_existing sys ops rec st = Some (hit, rec', st') \<Longrightarrow>
     length (waiting [rec]) = length (waiting [rec']) + (if hit then 1 else 0)"
  by (auto simp: apply_existing_def split: prod.splits if_splits Option.bind_splits)

lemma apply_pass_waiting:
  "apply_pass sys ops only recs st = Some (progress, recs', st') \<Longrightarrow>
     length (waiting recs') \<le> length (waiting recs) \<and> (progress \<longrightarrow> length (waiting recs') < length (waiting recs))"
proof (induction recs arbitrary: st progress recs')
  case (Cons rec recs)
  obtain hit rec1 st1 where first: "(if only (pb_id rec) then apply_existing sys ops rec st else Some (False, rec, st)) = Some (hit, rec1, st1)"
    using Cons.prems by (auto split: Option.bind_splits)
  then obtain more recs1 where rest: "apply_pass sys ops only recs st1 = Some (more, recs1, st')"
    and result: "progress = (hit \<or> more)" "recs' = rec1 # recs1"
    using Cons.prems by (auto split: Option.bind_splits)
  have "length (waiting [rec]) = length (waiting [rec1]) + (if hit then 1 else 0)"
    using first apply_existing_waiting [of sys ops rec st] by (auto split: if_splits)
  moreover have "length (waiting recs1) \<le> length (waiting recs)" "more \<longrightarrow> length (waiting recs1) < length (waiting recs)"
    using Cons.IH [OF rest] by simp_all
  ultimately show ?case unfolding result by (auto split: if_splits)
qed simp

lemma apply_round_waiting:
  assumes "apply_round sys ops root recs st = Some (progress, recs', st')"
  shows "length (waiting recs') \<le> length (waiting recs)" "progress \<Longrightarrow> length (waiting recs') < length (waiting recs)"
proof -
  have "apply_pass sys ops (\<lambda>i. i = root) recs st \<noteq> None"
    by (rule notI) (use assms in \<open>simp add: apply_round_def\<close>)
  then obtain roots recs1 st1 where 1: "apply_pass sys ops (\<lambda>i. i = root) recs st = Some (roots, recs1, st1)"
    by (metis not_None_eq prod_cases3)
  have "apply_pass sys ops (\<lambda>_. True) recs1 st1 \<noteq> None"
    by (rule notI) (use assms in \<open>simp add: apply_round_def 1\<close>)
  then obtain others recs2 st2 where 2: "apply_pass sys ops (\<lambda>_. True) recs1 st1 = Some (others, recs2, st2)"
    by (metis not_None_eq prod_cases3)
  have result: "recs' = recs2" "progress = (roots \<or> others)" using assms by (simp_all add: apply_round_def 1 2)
  show "length (waiting recs') \<le> length (waiting recs)"
    using apply_pass_waiting [OF 1] apply_pass_waiting [OF 2] result by auto
  show "length (waiting recs') < length (waiting recs)" if progress
    using apply_pass_waiting [OF 1] apply_pass_waiting [OF 2] that result by auto
qed

text \<open>The loop \<open>while (progress)\<close>: every round that makes progress applies a record.\<close>

function apply_rounds ::
  "('x, 'e, 's) object_system \<Rightarrow> 's storage_ops \<Rightarrow> u32 \<Rightarrow> published_record list \<Rightarrow> ('x, 'e, 's) ui_state \<Rightarrow>
   (published_record list \<times> ('x, 'e, 's) ui_state) option" where
  "apply_rounds sys ops root recs st =
     (case apply_round sys ops root recs st of
        None \<Rightarrow> None
      | Some (progress, recs', st') \<Rightarrow> if progress then apply_rounds sys ops root recs' st' else Some (recs', st'))"
  by pat_completeness auto

termination apply_rounds
proof (relation "measure (\<lambda>(sys, ops, root, recs, st). length (waiting recs))", goal_cases)
  case 2
  then show ?case by (auto dest: apply_round_waiting(2))
qed simp

declare apply_rounds.simps [simp del]

text \<open>The records still waiting get a shell.\<close>

fun apply_created ::
  "('x, 'e, 's) object_system \<Rightarrow> 's storage_ops \<Rightarrow> (class_id \<Rightarrow> ('x, 'e) live_object) \<Rightarrow> published_record list \<Rightarrow>
   ('x, 'e, 's) ui_state \<Rightarrow> ('x, 'e, 's) ui_state option" where
  "apply_created sys ops create [] st = Some st"
| "apply_created sys ops create (rec # recs) st =
     (if pb_applied rec then apply_created sys ops create recs st
      else case st of (s, u, changed) \<Rightarrow> do {
        let c = PreferredClassIdFor (ae_node_class (os_ae sys)) (pb_payload rec) (pb_id rec);
            (created, u) = CreateUiShell (os_ae sys) create (pb_id rec) c u in do {
        assert_that created;
        (_, rec, st) \<leftarrow> apply_existing sys ops rec (s, u, changed);
        assert_that (pb_applied rec);
        apply_created sys ops create recs st } })"

text \<open>ApplyPublished answers the changed ids, in the order of their application.\<close>

definition ApplyPublished ::
  "('x, 'e, 's) object_system \<Rightarrow> 's storage_ops \<Rightarrow> (class_id \<Rightarrow> ('x, 'e) live_object) \<Rightarrow> u32 \<Rightarrow> channel \<Rightarrow>
   's \<Rightarrow> ('x, 'e) domain \<Rightarrow> (obj_id list \<times> channel \<times> 's \<times> ('x, 'e) domain) option" where
  "ApplyPublished sys ops create root ch s u =
     (case TakePublished ch of
        (None, ch) \<Rightarrow> Some ([], ch, s, u)
      | (Some slot, ch) \<Rightarrow> do {
          let (record_count, src) = read_u32 (byte_source (buffers ch ! slot)) in do {
          assert_that (src_ok src);
          recs \<leftarrow> read_published (unat record_count) src;
          (recs, st) \<leftarrow> apply_rounds sys ops root recs (s, u, []);
          (s, u, changed) \<leftarrow> apply_created sys ops create recs st;
          Some (changed, ReleaseConsumer ch, s, u) } })"

end
