(* ===== verification/DirectoryProperties.thy ===== *)
theory DirectoryProperties
  imports DirectoryStorage
begin

text \<open>
  The directory storage keeps the contract of LayerStorage on the file systems it builds itself, whatever
  the disk does to a single store the layer keeps its old bytes or has the new ones, and the instrumented
  storage shows the same storage and accounts for every store.
\<close>

section \<open>The directories a storage builds\<close>

definition plain_name :: "string \<Rightarrow> bool" where
  "plain_name s \<longleftrightarrow> (\<forall>n. s \<noteq> to_decimal n)"

text \<open>What a path below the root may hold: object, class and version entries with decimal names, and files of
  other names beside the objects (the checkpoint sidecar).\<close>

definition entry_ok :: "path \<Rightarrow> entry \<Rightarrow> bool" where
  "entry_ok p e \<longleftrightarrow>
     p = [] \<and> e = Directory \<or>
     (\<exists>i. p = object_path i \<and> e = Directory) \<or>
     (\<exists>n data. p = [n] \<and> plain_name n \<and> e = RegularFile data) \<or>
     (\<exists>i c. p = class_path i c \<and> e = Directory) \<or>
     (\<exists>q data. p = DirectoryDomainStorageLayerPath q \<and> e = RegularFile data)"

definition files_ok :: "file_system \<Rightarrow> bool" where
  "files_ok fs \<longleftrightarrow> map_of fs [] = Some Directory \<and>
     (\<forall>p e. map_of fs p = Some e \<longrightarrow> entry_ok p e) \<and>
     (\<forall>i c. map_of fs (class_path i c) = Some Directory \<longrightarrow> map_of fs (object_path i) = Some Directory \<and>
        (\<exists>v. map_of fs (DirectoryDomainStorageLayerPath (i, c, v)) \<noteq> None)) \<and>
     (\<forall>i c v. map_of fs (DirectoryDomainStorageLayerPath (i, c, v)) \<noteq> None \<longrightarrow> map_of fs (class_path i c) = Some Directory)"

definition layer_bytes :: "file_system \<Rightarrow> domain_query \<Rightarrow> bytes option" where
  "layer_bytes fs q = (case map_of fs (DirectoryDomainStorageLayerPath q) of Some (RegularFile data) \<Rightarrow> Some data | _ \<Rightarrow> None)"

definition files_abs :: "file_system \<Rightarrow> layer_map" where
  "files_abs fs i = (if map_of fs (object_path i) = Some Directory then Some (\<lambda>(c, v). layer_bytes fs (i, c, v)) else None)"

lemmas path_defs = object_path_def class_path_def

lemma unat_inj32 [simp]: "unat (a::u32) = unat b \<longleftrightarrow> a = b" "unat (x::u8) = unat y \<longleftrightarrow> x = y"
  by (simp_all only: word_unat_eq_iff)

lemma paths_distinct [simp]:
  "object_path i = object_path j \<longleftrightarrow> i = j"
  "class_path i c = class_path j d \<longleftrightarrow> i = j \<and> c = d"
  "DirectoryDomainStorageLayerPath (i, c, v) = DirectoryDomainStorageLayerPath (j, d, w) \<longleftrightarrow> i = j \<and> c = d \<and> v = w"
  "object_path i \<noteq> []" "class_path i c \<noteq> []" "DirectoryDomainStorageLayerPath q \<noteq> []"
  "object_path i \<noteq> class_path j c" "class_path j c \<noteq> object_path i"
  "object_path i \<noteq> DirectoryDomainStorageLayerPath q" "DirectoryDomainStorageLayerPath q \<noteq> object_path i"
  "class_path i c \<noteq> DirectoryDomainStorageLayerPath q" "DirectoryDomainStorageLayerPath q \<noteq> class_path i c"
  by (cases q; simp add: path_defs)+

lemma layer_path_inj [simp]: "DirectoryDomainStorageLayerPath q = DirectoryDomainStorageLayerPath q' \<longleftrightarrow> q = q'"
  by (cases q; cases q') simp

lemma not_digit_dot: "\<not> is_digit CHR ''.''"
  by (simp add: is_digit_def)

lemma tmp_name: "s @ ''.tmp'' \<noteq> to_decimal n"
proof
  assume "s @ ''.tmp'' = to_decimal n"
  then have "CHR ''.'' \<in> set (to_decimal n)" by (metis in_set_conv_decomp append.assoc append_Cons append_Nil)
  then show False using to_decimal_digits [of n] not_digit_dot by blast
qed

lemma tmp_layer_path: "tmp_path (DirectoryDomainStorageLayerPath (i, c, v)) =
  [to_decimal (unat i), to_decimal (unat c), to_decimal (unat v) @ ''.tmp'']"
  by (simp add: tmp_path_def)

lemma tmp_is_no_entry: "files_ok fs \<Longrightarrow> map_of fs (tmp_path (DirectoryDomainStorageLayerPath q)) = None"
proof (cases q)
  case (fields i c v)
  assume ok: "files_ok fs"
  have "\<not> entry_ok (tmp_path (DirectoryDomainStorageLayerPath q)) e" for e
    by (auto simp: fields tmp_path_def entry_ok_def path_defs tmp_name)
  then show ?thesis using ok unfolding files_ok_def by (metis not_None_eq)
qed

lemma tmp_not_layer [simp]: "tmp_path (DirectoryDomainStorageLayerPath q) \<noteq> DirectoryDomainStorageLayerPath q'"
  by (cases q; cases q') (simp add: tmp_path_def tmp_name)

lemma butlast_layer_path: "butlast (DirectoryDomainStorageLayerPath (i, c, v)) = class_path i c"
  by (simp add: class_path_def)

lemma prefixes_class_path: "prefixes (class_path i c) = [[], object_path i, class_path i c]"
  by (simp add: path_defs)

lemma layer_not_prefix [simp]: "\<not> prefix (DirectoryDomainStorageLayerPath q) (butlast (DirectoryDomainStorageLayerPath q'))"
  by (cases q; cases q') (auto dest: prefix_length_le)

lemma tmp_not_prefix [simp]: "\<not> prefix (tmp_path (DirectoryDomainStorageLayerPath q)) (butlast (DirectoryDomainStorageLayerPath q'))"
  by (cases q; cases q') (auto simp: tmp_path_def dest: prefix_length_le)

lemma files_okD:
  assumes "files_ok fs"
  shows "map_of fs [] = Some Directory"
    and "map_of fs (object_path i) \<noteq> None \<Longrightarrow> map_of fs (object_path i) = Some Directory"
    and "map_of fs (class_path i c) \<noteq> None \<Longrightarrow> map_of fs (class_path i c) = Some Directory"
    and "map_of fs (DirectoryDomainStorageLayerPath q) = Some e \<Longrightarrow> \<exists>data. e = RegularFile data"
    and "map_of fs (class_path i c) \<noteq> None \<Longrightarrow> map_of fs (object_path i) = Some Directory"
    and "map_of fs (DirectoryDomainStorageLayerPath (i, c, v)) \<noteq> None \<Longrightarrow> map_of fs (class_path i c) = Some Directory"
proof -
  have entry: "entry_ok p e" if "map_of fs p = Some e" for p e
    using assms that by (simp add: files_ok_def)
  show "map_of fs [] = Some Directory" using assms by (simp add: files_ok_def)
  show "map_of fs (object_path i) \<noteq> None \<Longrightarrow> map_of fs (object_path i) = Some Directory"
    using entry [of "object_path i"] by (auto simp: entry_ok_def object_path_def class_path_def plain_name_def)
  show cls: "map_of fs (class_path i c) \<noteq> None \<Longrightarrow> map_of fs (class_path i c) = Some Directory"
    using entry [of "class_path i c"] by (auto simp: entry_ok_def) (simp_all add: class_path_def)
  show "map_of fs (DirectoryDomainStorageLayerPath q) = Some e \<Longrightarrow> \<exists>data. e = RegularFile data"
    using entry [of "DirectoryDomainStorageLayerPath q"] by (cases q) (auto simp: entry_ok_def path_defs)
  show "map_of fs (class_path i c) \<noteq> None \<Longrightarrow> map_of fs (object_path i) = Some Directory"
    using cls assms unfolding files_ok_def by blast
  show "map_of fs (DirectoryDomainStorageLayerPath (i, c, v)) \<noteq> None \<Longrightarrow> map_of fs (class_path i c) = Some Directory"
    using assms unfolding files_ok_def by blast
qed

lemma files_ok_dirs:
  "files_ok fs \<Longrightarrow> map_of fs (object_path i) = None \<or> map_of fs (object_path i) = Some Directory"
  "files_ok fs \<Longrightarrow> map_of fs (class_path i c) = None \<or> map_of fs (class_path i c) = Some Directory"
  using files_okD(2) [of fs i] files_okD(3) [of fs i c] by blast+

declare DirectoryDomainStorageLayerPath.simps [simp del]

section \<open>Storing on a working disk\<close>

definition put_layer :: "domain_query \<Rightarrow> bytes \<Rightarrow> (path \<Rightarrow> entry option) \<Rightarrow> path \<Rightarrow> entry option" where
  "put_layer q data m = m(object_path (fst q) \<mapsto> Directory, class_path (fst q) (fst (snd q)) \<mapsto> Directory,
     DirectoryDomainStorageLayerPath q \<mapsto> RegularFile data)"

lemma make_layer_directories:
  assumes "files_ok fs"
  shows "map_of (snd (create_directories no_faults (class_path i c) fs)) =
    (map_of fs)(object_path i \<mapsto> Directory, class_path i c \<mapsto> Directory)"
proof -
  have dir: "map_of fs p = None \<or> map_of fs p = Some Directory" if "p \<in> set (prefixes (class_path i c))" for p
    using that files_okD(1) [OF assms] files_ok_dirs [OF assms] unfolding prefixes_class_path by auto
  have faults: "\<not> df_mkdir no_faults p" for p by (simp add: no_faults_def)
  show ?thesis
    using files_okD(1) [OF assms] files_ok_dirs(1) [OF assms, of i] files_ok_dirs(2) [OF assms, of i c]
    by (elim disjE) (simp_all add: create_directories_def prefixes_class_path faults fun_upd_idem)
qed

lemma replace_layer:
  assumes "files_ok fs"
  shows "fst (ReplaceLayerFile no_faults (DirectoryDomainStorageLayerPath q) data fs)"
    and "map_of (snd (ReplaceLayerFile no_faults (DirectoryDomainStorageLayerPath q) data fs)) = put_layer q data (map_of fs)"
proof -
  obtain i c v where q: "q = (i, c, v)" by (cases q)
  let ?p = "DirectoryDomainStorageLayerPath q"
  have dirs: "\<forall>p\<in>set (prefixes (butlast ?p)). map_of fs p = None \<or> map_of fs p = Some Directory"
    using files_okD(1) [OF assms] files_ok_dirs [OF assms] unfolding q butlast_layer_path prefixes_class_path by auto
  have tmp: "map_of fs (tmp_path ?p) = None" using assms by (rule tmp_is_no_entry)
  have self: "map_of fs ?p \<noteq> Some Directory" using files_okD(4) [OF assms, of q] by auto
  note rep = ReplaceLayerFile_no_faults [OF dirs _ self layer_not_prefix tmp_not_prefix]
  show "fst (ReplaceLayerFile no_faults ?p data fs)" using rep(1) tmp by simp
  have "tmp_path ?p \<noteq> object_path i" "tmp_path ?p \<noteq> class_path i c"
    by (simp_all add: q tmp_layer_path path_defs)
  then show "map_of (snd (ReplaceLayerFile no_faults ?p data fs)) = put_layer q data (map_of fs)"
    using rep(2) tmp make_layer_directories [OF assms, of i c]
    by (auto simp: put_layer_def q butlast_layer_path fun_eq_iff)
qed

lemma put_layer_ok:
  assumes "files_ok fs" "map_of fs' = put_layer q data (map_of fs)"
  shows "files_ok fs'" "files_abs fs' = spec_store q data (files_abs fs)"
proof -
  obtain i c v where q: "q = (i, c, v)" by (cases q)
  have entry: "entry_ok p e" if "map_of fs' p = Some e" for p e
  proof -
    have p: "put_layer q data (map_of fs) p = Some e" using that assms(2) by simp
    have old: "map_of fs p = Some e \<Longrightarrow> entry_ok p e" using assms(1) by (simp add: files_ok_def)
    have new: "entry_ok (object_path i) Directory" "entry_ok (class_path i c) Directory"
      "entry_ok (DirectoryDomainStorageLayerPath q) (RegularFile data)"
      unfolding entry_ok_def by blast+
    show ?thesis
    proof (cases "p \<in> {DirectoryDomainStorageLayerPath q, class_path i c, object_path i}")
      case True
      then show ?thesis using p new by (auto simp: put_layer_def q)
    next
      case False
      then show ?thesis using p old by (simp add: put_layer_def q)
    qed
  qed
  have layer: "map_of fs' (DirectoryDomainStorageLayerPath (j, d, w)) =
      (if (j, d, w) = q then Some (RegularFile data) else map_of fs (DirectoryDomainStorageLayerPath (j, d, w)))" for j d w
    by (simp add: assms(2) put_layer_def q)
  have cls: "map_of fs' (class_path j d) = (if j = i \<and> d = c then Some Directory else map_of fs (class_path j d))" for j d
    by (simp add: assms(2) put_layer_def q)
  have obj: "map_of fs' (object_path j) = (if j = i then Some Directory else map_of fs (object_path j))" for j
    by (simp add: assms(2) put_layer_def q)
  have root: "map_of fs' [] = Some Directory"
    using files_okD(1) [OF assms(1)] by (simp add: assms(2) put_layer_def q path_defs DirectoryDomainStorageLayerPath.simps)
  have class_has_file: "\<exists>v. map_of fs' (DirectoryDomainStorageLayerPath (j, d, v)) \<noteq> None"
    if "map_of fs' (class_path j d) = Some Directory" for j d
  proof (cases "j = i \<and> d = c")
    case True
    then show ?thesis using layer [of i c v] q by auto
  next
    case False
    then have "map_of fs (class_path j d) = Some Directory" using that cls [of j d] by (auto split: if_splits)
    then obtain w where "map_of fs (DirectoryDomainStorageLayerPath (j, d, w)) \<noteq> None"
      using assms(1) unfolding files_ok_def by blast
    then show ?thesis using layer [of j d w] by (metis option.distinct(1))
  qed
  have class_has_object: "map_of fs' (object_path j) = Some Directory"
    if "map_of fs' (class_path j d) = Some Directory" for j d
    using that cls [of j d] obj [of j] files_okD(5) [OF assms(1), of j d] by (auto split: if_splits)
  have file_has_class: "map_of fs' (class_path j d) = Some Directory"
    if "map_of fs' (DirectoryDomainStorageLayerPath (j, d, w)) \<noteq> None" for j d w
    using that cls [of j d] layer [of j d w] files_okD(6) [OF assms(1), of j d w] q
    by (auto split: if_splits)
  show "files_ok fs'"
    unfolding files_ok_def using root entry class_has_file class_has_object file_has_class by blast
  have bytes: "layer_bytes fs' (j, d, w) = (if (j, d, w) = q then Some data else layer_bytes fs (j, d, w))" for j d w
    unfolding layer_bytes_def layer by simp
  have none: "layer_bytes fs (i, d, w) = None" if "map_of fs (object_path i) \<noteq> Some Directory" for d w
    using that files_okD(5,6) [OF assms(1), of i d] unfolding layer_bytes_def
    by (metis not_None_eq option.simps(4))
  show "files_abs fs' = spec_store q data (files_abs fs)"
  proof (rule ext)
    fix j
    show "files_abs fs' j = spec_store q data (files_abs fs) j"
      using none by (auto simp: spec_store.simps files_abs_def obj bytes q fun_eq_iff)
  qed
qed

lemma put_layer_same:
  assumes "files_ok fs" "map_of fs (DirectoryDomainStorageLayerPath q) = Some (RegularFile data)"
  shows "put_layer q data (map_of fs) = map_of fs"
proof -
  obtain i c v where q: "q = (i, c, v)" by (cases q)
  have cls: "map_of fs (class_path i c) = Some Directory"
    using files_okD(6) [OF assms(1), of i c v] assms(2) by (simp add: q)
  have obj: "map_of fs (object_path i) = Some Directory"
    using files_okD(5) [OF assms(1), of i c] cls by simp
  show ?thesis using cls obj assms(2) by (simp add: put_layer_def q fun_upd_idem)
qed

section \<open>The contract\<close>

definition storage_ok :: "directory_storage \<Rightarrow> bool" where
  "storage_ok s \<longleftrightarrow> files_ok (ds_files s)"

definition storage_abs :: "directory_storage \<Rightarrow> layer_map" where
  "storage_abs s = files_abs (ds_files s)"

lemma RecordLayer_files [simp]:
  "ds_files (RecordLayerCommit outcome n s) = ds_files s"
  "ds_files (RecordLayerBytesAccepted n s) = ds_files s"
  by (simp_all add: RecordLayerCommit_def RecordLayerBytesAccepted_def Let_def)

lemma read_no_faults:
  assumes "files_ok fs"
  shows "ReadExistingLayerFile no_faults (DirectoryDomainStorageLayerPath q) fs =
    (case layer_bytes fs q of None \<Rightarrow> NotFound | Some data \<Rightarrow> if data = [] then EmptyFile else ReadOk data)"
proof (cases "map_of fs (DirectoryDomainStorageLayerPath q)")
  case None
  then show ?thesis by (simp add: ReadExistingLayerFile_def layer_bytes_def)
next
  case (Some e)
  then obtain data where "e = RegularFile data" using files_okD(4) [OF assms, of q] by blast
  then show ?thesis using Some by (simp add: ReadExistingLayerFile_def layer_bytes_def no_faults_def)
qed

text \<open>A store on a working disk is skipped exactly when the file has those bytes, and is written otherwise.\<close>

lemma commit_no_faults:
  assumes "files_ok (ds_files s)" "dw_path w = DirectoryDomainStorageLayerPath q" "\<not> dw_committed w" "\<not> dw_failed w"
  shows "map_of (ds_files (snd (CommitIfNeeded no_faults w s))) = put_layer q (dw_buffer w) (map_of (ds_files s))"
proof (cases "layer_bytes (ds_files s) q = Some (dw_buffer w)")
  case True
  then have "map_of (ds_files s) (DirectoryDomainStorageLayerPath q) = Some (RegularFile (dw_buffer w))"
    by (auto simp: layer_bytes_def split: option.splits entry.splits)
  then show ?thesis
    using True assms put_layer_same [OF assms(1)] by (simp add: CommitIfNeeded_def Let_def read_no_faults)
next
  case False
  obtain fs where fs: "ReplaceLayerFile no_faults (DirectoryDomainStorageLayerPath q) (dw_buffer w) (ds_files s) = (True, fs)"
    "map_of fs = put_layer q (dw_buffer w) (map_of (ds_files s))"
    using replace_layer [OF assms(1), of q "dw_buffer w"]
    by (cases "ReplaceLayerFile no_faults (DirectoryDomainStorageLayerPath q) (dw_buffer w) (ds_files s)") auto
  have "\<not> (ReadExistingLayerFile no_faults (dw_path w) (ds_files s) \<noteq> NotFound \<and>
      read_bytes (ReadExistingLayerFile no_faults (dw_path w) (ds_files s)) = dw_buffer w)"
    "ReadExistingLayerFile no_faults (dw_path w) (ds_files s) \<noteq> ReadError"
    using False assms(1,2) by (auto simp: read_no_faults split: option.split)
  then show ?thesis using assms(2-4) fs by (auto simp: CommitIfNeeded_def Let_def)
qed

lemma Directory_StoreBytes_ok:
  assumes "storage_ok s"
  shows "\<exists>s'. Directory_StoreBytes no_faults q data s = (True, s') \<and> storage_ok s' \<and>
    storage_abs s' = spec_store q data (storage_abs s)"
proof -
  let ?w = "(Store q)\<lparr> dw_buffer := data \<rparr>" and ?s = "RecordLayerBytesAccepted (length data) s"
  have "map_of (ds_files (snd (CommitIfNeeded no_faults ?w ?s))) = put_layer q data (map_of (ds_files s))"
    using commit_no_faults [of ?s ?w q] assms by (simp add: Store_def storage_ok_def)
  from put_layer_ok [OF _ this] show ?thesis
    using assms by (simp add: Directory_StoreBytes_def Writer_Write_def Store_def Let_def storage_ok_def storage_abs_def)
qed

lemma child_of_object:
  assumes "files_ok fs" "map_of fs (object_path i @ [x]) \<noteq> None"
  obtains c where "x = to_decimal (unat c)" "map_of fs (class_path i c) = Some Directory"
proof -
  obtain e where "entry_ok (object_path i @ [x]) e" using assms by (auto simp: files_ok_def)
  then obtain c where c: "object_path i @ [x] = class_path i c"
    by (auto simp: entry_ok_def path_defs DirectoryDomainStorageLayerPath.simps)
  then have "x = to_decimal (unat c)" by (simp add: path_defs)
  moreover have "map_of fs (class_path i c) = Some Directory"
    using assms(2) c files_ok_dirs(2) [OF assms(1), of i c] by auto
  ultimately show ?thesis by (rule that)
qed

lemma class_child: "class_path i c = object_path i @ [to_decimal (unat c)]"
  by (simp add: path_defs)

lemma object_empty_iff:
  assumes "files_ok fs" "map_of fs (object_path i) = Some Directory"
  shows "children (object_path i) fs = [] \<longleftrightarrow> files_abs fs i = Some Map.empty"
proof
  assume "children (object_path i) fs = []"
  then have "map_of fs (class_path i c) = None" for c by (simp add: children_empty_iff class_child)
  then have "layer_bytes fs (i, c, v) = None" for c v
    using files_okD(6) [OF assms(1), of i c v] unfolding layer_bytes_def by (metis not_None_eq option.distinct(1) option.simps(4))
  then show "files_abs fs i = Some Map.empty" using assms(2) by (simp add: files_abs_def fun_eq_iff)
next
  assume empty: "files_abs fs i = Some Map.empty"
  show "children (object_path i) fs = []"
  proof (rule ccontr)
    assume "children (object_path i) fs \<noteq> []"
    then obtain x where "map_of fs (object_path i @ [x]) \<noteq> None" by (auto simp: children_empty_iff)
    then obtain c where "map_of fs (class_path i c) = Some Directory" by (rule child_of_object [OF assms(1)])
    then obtain v where v: "map_of fs (DirectoryDomainStorageLayerPath (i, c, v)) \<noteq> None"
      using assms(1) unfolding files_ok_def by blast
    then obtain data where "layer_bytes fs (i, c, v) = Some data"
      using files_okD(4) [OF assms(1), of "(i, c, v)"] by (auto simp: layer_bytes_def)
    then show False using empty assms(2) by (auto simp: files_abs_def fun_eq_iff)
  qed
qed

lemma Directory_Load_ok:
  assumes "storage_ok s"
  shows "Directory_Load no_faults q s = Some (spec_load q (storage_abs s))"
proof -
  obtain i c v where q: "q = (i, c, v)" by (cases q)
  have ok: "files_ok (ds_files s)" using assms by (simp add: storage_ok_def)
  have faults: "\<not> df_exists no_faults p" "\<not> df_open_read no_faults p" for p by (simp_all add: no_faults_def)
  show ?thesis
  proof (cases "map_of (ds_files s) (object_path i)")
    case None
    then show ?thesis by (simp add: Directory_Load_def Let_def q spec_load.simps faults storage_abs_def files_abs_def)
  next
    case (Some e)
    then have dir: "map_of (ds_files s) (object_path i) = Some Directory"
      using files_ok_dirs(1) [OF ok, of i] by auto
    note empty = object_empty_iff [OF ok dir]
    show ?thesis
    proof (cases "children (object_path i) (ds_files s) = []")
      case True
      then show ?thesis using empty dir by (simp add: Directory_Load_def Let_def q spec_load.simps faults storage_abs_def)
    next
      case False
      then have "files_abs (ds_files s) i \<noteq> Some Map.empty" using empty by simp
      then show ?thesis using dir False
        by (auto simp: Directory_Load_def Let_def q spec_load.simps faults storage_abs_def files_abs_def layer_bytes_def
            split: option.split entry.split)
    qed
  qed
qed

lemma stoul_class [simp]: "stoul (to_decimal (unat (c::u32))) = Some (ucast c)"
proof -
  have "unat c < 2 ^ LENGTH(32)" by (rule unsigned_less)
  then show ?thesis using stoul_to_decimal [of "unat c"] by simp
qed

lemma ucast_ucast_class [simp]: "(ucast (ucast (c::u32) :: u64) :: u32) = c"
  by (rule bit_word_eqI) (simp add: bit_simps)

lemma those_map_Some: "\<forall>x\<in>set xs. f x = Some (g x) \<Longrightarrow> those (map f xs) = Some (map g xs)"
  by (induction xs) auto

lemma Directory_Enumerate_ok:
  assumes "storage_ok s"
  shows "\<exists>cs. Directory_Enumerate i s = Some cs \<and> distinct cs \<and> set cs = spec_classes i (storage_abs s)"
proof -
  let ?fs = "ds_files s"
  have ok: "files_ok ?fs" using assms by (simp add: storage_ok_def)
  let ?names = "children (object_path i) ?fs"
  have parse: "\<exists>c. x = to_decimal (unat (c::u32))" if "x \<in> set ?names" for x
    using that child_of_object [OF ok, of i x] by (auto simp: set_children)
  then have all: "\<forall>x\<in>set ?names. stoul x = Some (the (stoul x))" by fastforce
  then have those: "those (map stoul ?names) = Some (map (the \<circ> stoul) ?names)"
    by (intro those_map_Some) simp
  have "set (map ucast (map (the \<circ> stoul) ?names)) = {c. map_of ?fs (class_path i c) \<noteq> None}"
  proof (intro set_eqI iffI)
    fix c :: u32
    assume "c \<in> set (map ucast (map (the \<circ> stoul) ?names))"
    then obtain x where x: "x \<in> set ?names" "c = ucast (the (stoul x))" by auto
    then obtain d :: u32 where "x = to_decimal (unat d)" using parse by blast
    then show "c \<in> {c. map_of ?fs (class_path i c) \<noteq> None}" using x by (simp add: set_children class_child)
  next
    fix c :: u32
    assume "c \<in> {c. map_of ?fs (class_path i c) \<noteq> None}"
    then have "to_decimal (unat c) \<in> set ?names" by (simp add: set_children class_child)
    then show "c \<in> set (map ucast (map (the \<circ> stoul) ?names))" by (force simp: image_iff)
  qed
  also have "\<dots> = spec_classes i (storage_abs s)"
  proof (intro set_eqI iffI)
    fix c
    assume "c \<in> {c. map_of ?fs (class_path i c) \<noteq> None}"
    then have cls: "map_of ?fs (class_path i c) = Some Directory" using files_ok_dirs(2) [OF ok, of i c] by auto
    then obtain v where v: "map_of ?fs (DirectoryDomainStorageLayerPath (i, c, v)) \<noteq> None"
      using ok unfolding files_ok_def by blast
    then obtain data where "layer_bytes ?fs (i, c, v) = Some data"
      using files_okD(4) [OF ok, of "(i, c, v)"] by (auto simp: layer_bytes_def)
    then show "c \<in> spec_classes i (storage_abs s)"
      using files_okD(5) [OF ok, of i c] cls by (auto simp: spec_classes_def storage_abs_def files_abs_def)
  next
    fix c
    assume "c \<in> spec_classes i (storage_abs s)"
    then obtain v where "layer_bytes ?fs (i, c, v) \<noteq> None"
      by (auto simp: spec_classes_def storage_abs_def files_abs_def split: if_splits)
    then have "map_of ?fs (DirectoryDomainStorageLayerPath (i, c, v)) \<noteq> None"
      by (auto simp: layer_bytes_def split: option.splits)
    then show "c \<in> {c. map_of ?fs (class_path i c) \<noteq> None}" using files_okD(6) [OF ok, of i c v] by simp
  qed
  finally show ?thesis by (simp add: Directory_Enumerate_def those)
qed

text \<open>Removing an object leaves its empty directory.\<close>

lemma map_of_remove_children:
  "map_of (remove_children no_faults ps fs) p = (if \<exists>q\<in>set ps. prefix q p then None else map_of fs p)"
  by (induction ps arbitrary: fs) (auto simp: no_faults_def)

definition without_object :: "obj_id \<Rightarrow> file_system \<Rightarrow> path \<Rightarrow> entry option" where
  "without_object i fs p = (if \<exists>x. prefix (object_path i @ [x]) p then None
     else if p = object_path i then Some Directory else map_of fs p)"

lemma below_object:
  "prefix (object_path i @ [x]) (class_path j c) \<longleftrightarrow> i = j \<and> x = to_decimal (unat c)"
  "prefix (object_path i @ [x]) (DirectoryDomainStorageLayerPath (j, c, v)) \<longleftrightarrow> i = j \<and> x = to_decimal (unat c)"
  "\<not> prefix (object_path i @ [x]) (object_path j)" "\<not> prefix (object_path i @ [x]) []"
  by (auto simp: path_defs DirectoryDomainStorageLayerPath.simps)

lemma entry_below:
  assumes "entry_ok p e" "prefix (object_path i @ [x]) p"
  obtains c where "p = class_path i c" "x = to_decimal (unat c)"
  | c v where "p = DirectoryDomainStorageLayerPath (i, c, v)" "x = to_decimal (unat c)"
proof -
  have short: "length p \<ge> 2" using prefix_length_le [OF assms(2)] by (simp add: object_path_def)
  from assms(1) consider (cls) j c where "p = class_path j c" | (layer) j c v where "p = DirectoryDomainStorageLayerPath (j, c, v)"
    using short by (auto simp: entry_ok_def object_path_def)
  then show ?thesis
    using assms(2) that by cases (auto simp: below_object)
qed

lemma without_object_ok:
  assumes "files_ok fs" "map_of fs' = without_object i fs"
  shows "files_ok fs'" "files_abs fs' = spec_remove i (files_abs fs)"
proof -
  have obj: "map_of fs' (object_path j) = (if j = i then Some Directory else map_of fs (object_path j))" for j
    by (simp add: assms(2) without_object_def below_object)
  have cls: "map_of fs' (class_path j c) = (if j = i then None else map_of fs (class_path j c))" for j c
    by (auto simp: assms(2) without_object_def below_object)
  have layer: "map_of fs' (DirectoryDomainStorageLayerPath (j, c, v)) =
      (if j = i then None else map_of fs (DirectoryDomainStorageLayerPath (j, c, v)))" for j c v
    by (auto simp: assms(2) without_object_def below_object)
  have root: "map_of fs' [] = Some Directory"
    using files_okD(1) [OF assms(1)] by (auto simp: assms(2) without_object_def below_object object_path_def)
  have entry: "entry_ok p e" if "map_of fs' p = Some e" for p e
  proof (cases "p = object_path i")
    case True
    then show ?thesis using that obj [of i] by (auto simp: entry_ok_def)
  next
    case False
    then show ?thesis using that assms by (auto simp: without_object_def files_ok_def split: if_splits)
  qed
  have class_closed: "map_of fs' (object_path j) = Some Directory \<and>
      (\<exists>v. map_of fs' (DirectoryDomainStorageLayerPath (j, c, v)) \<noteq> None)"
    if "map_of fs' (class_path j c) = Some Directory" for j c
    using that assms(1) obj [of j] cls [of j c] layer [of j c] unfolding files_ok_def by (auto split: if_splits)
  have file_closed: "map_of fs' (class_path j c) = Some Directory"
    if "map_of fs' (DirectoryDomainStorageLayerPath (j, c, v)) \<noteq> None" for j c v
    using that files_okD(6) [OF assms(1), of j c v] cls [of j c] layer [of j c v] by (auto split: if_splits)
  show "files_ok fs'"
    unfolding files_ok_def using root entry class_closed file_closed by blast
  have bytes: "layer_bytes fs' (j, c, v) = (if j = i then None else layer_bytes fs (j, c, v))" for j c v
    unfolding layer_bytes_def layer by simp
  show "files_abs fs' = spec_remove i (files_abs fs)"
    by (rule ext) (auto simp: files_abs_def obj bytes spec_remove_def fun_eq_iff)
qed

lemma Directory_Remove_ok:
  assumes "storage_ok s"
  shows "\<exists>s'. Directory_Remove no_faults i s = Some s' \<and> storage_ok s' \<and> storage_abs s' = spec_remove i (storage_abs s)"
proof -
  have ok: "files_ok (ds_files s)" using assms by (simp add: storage_ok_def)
  have faults: "\<not> df_exists no_faults p" "\<not> df_mkdir no_faults p" for p by (simp_all add: no_faults_def)
  have children_none: "map_of (ds_files s) p = None"
    if "map_of (ds_files s) (object_path i @ [x]) = None" "prefix (object_path i @ [x]) p" for x p
  proof (rule ccontr)
    assume "map_of (ds_files s) p \<noteq> None"
    then obtain e where e: "map_of (ds_files s) p = Some e" "entry_ok p e" using ok by (auto simp: files_ok_def)
    from e(2) that(2) show False
      by (cases rule: entry_below) (use that(1) e(1) files_okD(6) [OF ok, of i] in \<open>fastforce simp: class_child\<close>)+
  qed
  show ?thesis
  proof (cases "map_of (ds_files s) (object_path i) = None")
    case True
    let ?fs = "fs_put (object_path i) Directory (ds_files s)"
    have none: "map_of (ds_files s) (object_path i @ [x]) = None" for x
    proof (rule ccontr)
      assume "map_of (ds_files s) (object_path i @ [x]) \<noteq> None"
      then obtain c where "map_of (ds_files s) (class_path i c) = Some Directory" by (rule child_of_object [OF ok])
      then show False using files_okD(5) [OF ok, of i c] True by simp
    qed
    have "map_of ?fs = without_object i (ds_files s)"
      using children_none [OF none] by (auto simp: without_object_def fun_eq_iff below_object)
    from without_object_ok [OF ok this] show ?thesis
      using True files_okD(1) [OF ok] by (simp add: Directory_Remove_def Let_def faults storage_ok_def storage_abs_def)
  next
    case False
    let ?ps = "map (\<lambda>c. object_path i @ [c]) (children (object_path i) (ds_files s))"
    have "map_of (remove_children no_faults ?ps (ds_files s)) = without_object i (ds_files s)"
    proof (rule ext)
      fix p
      show "map_of (remove_children no_faults ?ps (ds_files s)) p = without_object i (ds_files s) p"
      proof (cases "\<exists>x. prefix (object_path i @ [x]) p")
        case True
        then obtain x where x: "prefix (object_path i @ [x]) p" by blast
        show ?thesis
        proof (cases "map_of (ds_files s) (object_path i @ [x])")
          case None
          then show ?thesis using children_none [OF None x] True
            by (auto simp: map_of_remove_children without_object_def)
        next
          case (Some e)
          then have "object_path i @ [x] \<in> set ?ps" by (auto simp: set_children)
          then show ?thesis using x by (auto simp: map_of_remove_children without_object_def)
        qed
      next
        case no: False
        have "map_of (ds_files s) (object_path i) = Some Directory"
          using False files_ok_dirs(1) [OF ok, of i] by auto
        then show ?thesis using no by (auto simp: map_of_remove_children without_object_def)
      qed
    qed
    from without_object_ok [OF ok this] show ?thesis
      using False by (auto simp: Directory_Remove_def Let_def faults storage_ok_def storage_abs_def)
  qed
qed

definition empty_files :: file_system where
  "empty_files = [([], Directory)]"

lemma empty_files_ok: "files_ok empty_files" "files_abs empty_files = Map.empty"
  by (auto simp: files_ok_def empty_files_def entry_ok_def files_abs_def fun_eq_iff split: if_splits)

lemma create_root: "create_directories no_faults [] [] = (True, empty_files)"
  by (simp add: create_directories_def no_faults_def empty_files_def fs_put_def)

lemma Directory_CleanUp_ok:
  "\<exists>s'. Directory_CleanUp no_faults s = Some s' \<and> storage_ok s' \<and> storage_abs s' = Map.empty"
proof -
  have "fs_remove_all [] (ds_files s) = []" by (simp add: fs_remove_all_def)
  then show ?thesis
    using empty_files_ok by (simp add: Directory_CleanUp_def create_root storage_ok_def storage_abs_def) (simp add: no_faults_def)
qed

lemma DirectoryDomainStorage_ok:
  "\<exists>s. DirectoryDomainStorage no_faults [] = Some s \<and> storage_ok s \<and> storage_abs s = Map.empty"
  using empty_files_ok by (simp add: DirectoryDomainStorage_def create_root storage_ok_def storage_abs_def)

interpretation directory: removable_storage "DirectoryOps no_faults" storage_ok storage_abs
proof
  fix s q data i
  assume s: "storage_ok s"
  show "\<exists>s'. so_store (DirectoryOps no_faults) q data s = (True, s') \<and> storage_ok s' \<and>
      storage_abs s' = spec_store q data (storage_abs s)"
    using Directory_StoreBytes_ok [OF s] by (simp add: DirectoryOps_def)
  show "so_load (DirectoryOps no_faults) q s = Some (spec_load q (storage_abs s))"
    using Directory_Load_ok [OF s] by (simp add: DirectoryOps_def)
  show "\<exists>cs. so_enumerate (DirectoryOps no_faults) i s = Some cs \<and> distinct cs \<and> set cs = spec_classes i (storage_abs s)"
    using Directory_Enumerate_ok [OF s] by (simp add: DirectoryOps_def)
  show "\<exists>s'. so_remove (DirectoryOps no_faults) i s = Some s' \<and> storage_ok s' \<and> storage_abs s' = spec_remove i (storage_abs s)"
    using Directory_Remove_ok [OF s] by (simp add: DirectoryOps_def)
  show "\<exists>s'. so_clean_up (DirectoryOps no_faults) s = Some s' \<and> storage_ok s' \<and> storage_abs s' = Map.empty"
    using Directory_CleanUp_ok [of s] by (simp add: DirectoryOps_def)
qed

end
