(* ===== verification/StorageProperties.thy ===== *)
theory StorageProperties
  imports DirectoryProperties
begin

text \<open>
  The properties of the storages: atomic replacement of a layer under disk faults, the directory as the map of
  layers it stands for, the accounting of the instrumented storage, and the overlay over a backing.
\<close>

section \<open>Atomic replacement\<close>

lemma layer_path_other:
  assumes "q' \<noteq> q"
  shows "DirectoryDomainStorageLayerPath q' \<noteq> DirectoryDomainStorageLayerPath q"
    and "DirectoryDomainStorageLayerPath q' \<noteq> tmp_path (DirectoryDomainStorageLayerPath q)"
    and "\<not> prefix (DirectoryDomainStorageLayerPath q') (butlast (DirectoryDomainStorageLayerPath q))"
proof -
  show "DirectoryDomainStorageLayerPath q' \<noteq> DirectoryDomainStorageLayerPath q" using assms by simp
  show "DirectoryDomainStorageLayerPath q' \<noteq> tmp_path (DirectoryDomainStorageLayerPath q)"
    using tmp_not_layer [of q q'] by metis
  show "\<not> prefix (DirectoryDomainStorageLayerPath q') (butlast (DirectoryDomainStorageLayerPath q))"
    by (rule layer_not_prefix)
qed

lemma commit_cases:
  assumes "\<not> dw_committed w" "\<not> dw_failed w"
  obtains (failed_read) "snd (CommitIfNeeded df w s) = RecordLayerCommit CommitFailed 0 s"
  | (skipped) "snd (CommitIfNeeded df w s) = RecordLayerCommit SkippedUnchanged 0 s"
      "ReadExistingLayerFile df (dw_path w) (ds_files s) \<noteq> NotFound"
      "ReadExistingLayerFile df (dw_path w) (ds_files s) \<noteq> ReadError"
      "read_bytes (ReadExistingLayerFile df (dw_path w) (ds_files s)) = dw_buffer w"
  | (failed_write) fs where "ReplaceLayerFile df (dw_path w) (dw_buffer w) (ds_files s) = (False, fs)"
      "snd (CommitIfNeeded df w s) = RecordLayerCommit CommitFailed 0 (s\<lparr> ds_files := fs \<rparr>)"
  | (written) fs where "ReplaceLayerFile df (dw_path w) (dw_buffer w) (ds_files s) = (True, fs)"
      "snd (CommitIfNeeded df w s) = RecordLayerCommit Written (length (dw_buffer w)) (s\<lparr> ds_files := fs \<rparr>)"
proof -
  let ?read = "ReadExistingLayerFile df (dw_path w) (ds_files s)"
  obtain okay fs where rep: "ReplaceLayerFile df (dw_path w) (dw_buffer w) (ds_files s) = (okay, fs)" by fastforce
  show ?thesis
  proof (cases "?read = ReadError")
    case True
    then show ?thesis using assms failed_read by (simp add: CommitIfNeeded_def Let_def)
  next
    case read: False
    show ?thesis
    proof (cases "?read \<noteq> NotFound \<and> read_bytes ?read = dw_buffer w")
      case True
      then show ?thesis using assms read skipped by (simp add: CommitIfNeeded_def Let_def)
    next
      case False
      then have "snd (CommitIfNeeded df w s) =
          (if okay then RecordLayerCommit Written (length (dw_buffer w)) (s\<lparr> ds_files := fs \<rparr>)
           else RecordLayerCommit CommitFailed 0 (s\<lparr> ds_files := fs \<rparr>))"
        using assms read rep by (auto simp: CommitIfNeeded_def Let_def)
      then show ?thesis using rep failed_write written by (cases okay) auto
    qed
  qed
qed

lemma read_existing_bytes:
  assumes "ReadExistingLayerFile df p fs \<noteq> NotFound" "ReadExistingLayerFile df p fs \<noteq> ReadError"
  shows "map_of fs p = Some (RegularFile (read_bytes (ReadExistingLayerFile df p fs)))"
  using assms by (auto simp: ReadExistingLayerFile_def split: option.splits entry.splits if_splits)

lemma RecordLayerCommit_simps [simp]:
  "last_layer_commit (RecordLayerCommit outcome n s) = outcome"
  "save_session_had_failure (RecordLayerCommit outcome n s) \<longleftrightarrow> outcome = CommitFailed \<or> save_session_had_failure s"
  "last_layer_commit (RecordLayerBytesAccepted n s) = last_layer_commit s"
  "save_session_had_failure (RecordLayerBytesAccepted n s) = save_session_had_failure s"
  by (auto simp: RecordLayerCommit_def RecordLayerBytesAccepted_def Let_def)

lemma store_atomic:
  "\<exists>s'. Directory_StoreBytes df q data s = (True, s') \<and>
     (\<forall>q'. q' \<noteq> q \<longrightarrow> layer_bytes (ds_files s') q' = layer_bytes (ds_files s) q') \<and>
     (if last_layer_commit s' = CommitFailed
      then layer_bytes (ds_files s') q = layer_bytes (ds_files s) q \<and> SaveSessionHadFailure s'
      else layer_bytes (ds_files s') q = Some data) \<and>
     (last_layer_commit s' = SkippedUnchanged \<longrightarrow> ds_files s' = ds_files s)"
proof -
  define w where "w = (Store q)\<lparr> dw_buffer := data \<rparr>"
  define t where "t = RecordLayerBytesAccepted (length data) s"
  have w: "dw_path w = DirectoryDomainStorageLayerPath q" "dw_buffer w = data" "\<not> dw_committed w" "\<not> dw_failed w"
    and t: "ds_files t = ds_files s"
    by (simp_all add: w_def t_def Store_def)
  have run: "Directory_StoreBytes df q data s = (True, snd (CommitIfNeeded df w t))"
    by (simp add: Directory_StoreBytes_def Writer_Write_def Store_def Let_def w_def t_def)
  have p: "DirectoryDomainStorageLayerPath q \<noteq> []" by simp
  have other: "layer_bytes fs q' = layer_bytes (ds_files s) q'"
    if "ReplaceLayerFile df (DirectoryDomainStorageLayerPath q) data (ds_files s) = (r, fs)" "q' \<noteq> q" for r fs q'
    using ReplaceLayerFile_other [OF layer_path_other [OF that(2)], of df data "ds_files s"] that(1)
    by (simp add: layer_bytes_def)
  from w(3,4) show ?thesis
  proof (cases rule: commit_cases [of w df t])
    case failed_read
    then show ?thesis by (simp add: run t SaveSessionHadFailure_def)
  next
    case skipped
    then show ?thesis using read_existing_bytes [OF skipped(2,3)] by (simp add: run t w layer_bytes_def)
  next
    case (failed_write fs)
    then show ?thesis using ReplaceLayerFile_self [OF p, of df data "ds_files s" False fs] other [of False fs]
      by (simp add: run t w layer_bytes_def SaveSessionHadFailure_def)
  next
    case (written fs)
    then show ?thesis using ReplaceLayerFile_self [OF p, of df data "ds_files s" True fs] other [of True fs]
      by (simp add: run t w layer_bytes_def)
  qed
qed


definition sample_directory :: directory_storage where
  "sample_directory = \<lparr> ds_files = empty_files, save_session_stats = no_store_stats, save_session_active = False,
     save_session_had_failure = False, last_layer_commit = CommitNone \<rparr>"


section \<open>The directory as a map\<close>

text \<open>C8. On a working disk, a storage created in an empty directory runs every sequence of stores, removals and
  clean-ups, and afterwards loads and enumerates exactly what the map of layers holds after the same
  sequence: the last bytes of each layer, removed objects as removed, the classes that have a layer.\<close>

theorem directory_runs_as_layer_map:
  "\<exists>s0 s. DirectoryDomainStorage no_faults [] = Some s0 \<and> storage_run (DirectoryOps no_faults) acts s0 = Some s \<and>
     (\<forall>q. Directory_Load no_faults q s = Some (spec_load q (spec_run acts Map.empty))) \<and>
     (\<forall>i. \<exists>cs. Directory_Enumerate i s = Some cs \<and> distinct cs \<and> set cs = spec_classes i (spec_run acts Map.empty))"
proof -
  obtain s0 where s0: "DirectoryDomainStorage no_faults [] = Some s0" "storage_ok s0" "storage_abs s0 = Map.empty"
    using DirectoryDomainStorage_ok by blast
  from directory.run_observed [OF s0(2), of acts] s0 show ?thesis
    by (auto simp: DirectoryOps_def)
qed

section \<open>Instrumentation\<close>

definition stats_balanced :: "instrumented_stats \<Rightarrow> bool" where
  "stats_balanced st \<longleftrightarrow> store_calls st = store_new_layers st + store_overwrite_layers st +
     store_skipped_unchanged_layers st + store_failed_commits st"

text \<open>An instrumented store is the store of the directory with the outcome taken.\<close>

lemma Instrumented_StoreBytes_eq:
  "Instrumented_StoreBytes df q data (inner, st) =
    (let (written, inner') = Directory_StoreBytes df q data inner in
     (written, inner'\<lparr> last_layer_commit := CommitNone \<rparr>,
      note_outcome (last_layer_commit inner') (DirectoryDomainStorageLayerFileExists (ds_files inner) q) (length data)
        (st\<lparr> store_calls := Suc (store_calls st), store_obj_ids := List.insert (fst q) (store_obj_ids st),
             store_bytes_accepted := store_bytes_accepted st + length data \<rparr>)))"
  by (simp add: Instrumented_StoreBytes_def Directory_StoreBytes_def Writer_Write_def Store_def Let_def
      TakeLastLayerCommitOutcome_def split: prod.split)

lemma store_outcome:
  "last_layer_commit (snd (Directory_StoreBytes df q data s)) \<noteq> CommitNone"
proof -
  define w where "w = (Store q)\<lparr> dw_buffer := data \<rparr>"
  define t where "t = RecordLayerBytesAccepted (length data) s"
  have "\<not> dw_committed w" "\<not> dw_failed w" by (simp_all add: w_def Store_def)
  then have "last_layer_commit (snd (CommitIfNeeded df w t)) \<noteq> CommitNone"
    by (cases rule: commit_cases [of w df t]) simp_all
  then show ?thesis
    by (simp add: Directory_StoreBytes_def Writer_Write_def Store_def Let_def w_def t_def)
qed

lemma note_outcome_balanced:
  "outcome \<noteq> CommitNone \<Longrightarrow> stats_balanced st \<Longrightarrow>
   stats_balanced (note_outcome outcome existed n (st\<lparr> store_calls := Suc (store_calls st), store_obj_ids := ids, store_bytes_accepted := k \<rparr>))"
  by (cases outcome) (auto simp: note_outcome_def stats_balanced_def)

text \<open>The instrumented storage accounts for every store, whatever the disk does: after any sequence of
  operations the store calls are the new, the overwritten, the unchanged and the failed layers.\<close>

theorem instrumented_counts_every_store:
  assumes "storage_run (InstrumentedOps df) acts (s, no_instrumented_stats) = Some (s', st)"
  shows "stats_balanced st"
proof -
  have "stats_balanced (snd x) \<Longrightarrow> storage_run (InstrumentedOps df) acts x = Some y \<Longrightarrow> stats_balanced (snd y)" for x y
  proof (induction acts arbitrary: x)
    case (Cons a acts)
    obtain inner st where x: "x = (inner, st)" by (cases x)
    show ?case
    proof (cases a)
      case (AStore q data)
      have "stats_balanced (snd (snd (Instrumented_StoreBytes df q data x)))"
        using Cons.prems(1) note_outcome_balanced [OF store_outcome [of df q data inner]]
        by (simp add: x Instrumented_StoreBytes_eq Let_def case_prod_beta)
      then show ?thesis using Cons.IH Cons.prems(2) AStore by (simp add: InstrumentedOps_def)
    next
      case (ARemove i)
      then show ?thesis using Cons by (auto simp: InstrumentedOps_def split: Option.bind_splits)
    next
      case ACleanUp
      then show ?thesis using Cons by (auto simp: InstrumentedOps_def split: Option.bind_splits)
    qed
  qed simp
  from this [of "(s, no_instrumented_stats)" "(s', st)"] show ?thesis
    using assms by (simp add: stats_balanced_def no_instrumented_stats_def)
qed

lemma instrumented_counts_every_store_witness:
  "\<exists>s st. storage_run (InstrumentedOps no_faults) [AStore (7, 60, 1) [1, 2], AStore (7, 60, 1) [1, 2], AStore (7, 60, 1) []]
     (\<lparr> ds_files = empty_files, save_session_stats = no_store_stats, save_session_active = False,
        save_session_had_failure = False, last_layer_commit = CommitNone \<rparr>, no_instrumented_stats) = Some (s, st) \<and> stats_balanced st"
proof -
  let ?s0 = "\<lparr> ds_files = empty_files, save_session_stats = no_store_stats, save_session_active = False,
        save_session_had_failure = False, last_layer_commit = CommitNone \<rparr>"
  let ?as = "[AStore (7, 60, 1) [1, 2], AStore (7, 60, 1) [1, 2], AStore (7, 60, 1) []]"
  obtain s st where "storage_run (InstrumentedOps no_faults) ?as (?s0, no_instrumented_stats) = Some (s, st)"
    by fastforce
  then show ?thesis using instrumented_counts_every_store [of no_faults ?as ?s0 s st] by blast
qed

text \<open>The instrumented storage is the same storage.\<close>

lemma take_outcome_ok [simp]:
  "storage_ok (s\<lparr> last_layer_commit := x \<rparr>) = storage_ok s" "storage_abs (s\<lparr> last_layer_commit := x \<rparr>) = storage_abs s"
  by (simp_all add: storage_ok_def storage_abs_def)

interpretation instrumented: removable_storage "InstrumentedOps no_faults" "\<lambda>s. storage_ok (fst s)" "\<lambda>s. storage_abs (fst s)"
proof
  fix s :: "directory_storage \<times> instrumented_stats" and q data i
  assume s: "storage_ok (fst s)"
  obtain inner st where x: "s = (inner, st)" by (cases s)
  show "\<exists>s'. so_store (InstrumentedOps no_faults) q data s = (True, s') \<and> storage_ok (fst s') \<and>
      storage_abs (fst s') = spec_store q data (storage_abs (fst s))"
    using Directory_StoreBytes_ok [OF s, of q data] by (auto simp: InstrumentedOps_def x Instrumented_StoreBytes_eq)
  show "so_load (InstrumentedOps no_faults) q s = Some (spec_load q (storage_abs (fst s)))"
    using Directory_Load_ok [OF s, of q] by (simp add: InstrumentedOps_def Instrumented_Load_def)
  show "\<exists>cs. so_enumerate (InstrumentedOps no_faults) i s = Some cs \<and> distinct cs \<and> set cs = spec_classes i (storage_abs (fst s))"
    using Directory_Enumerate_ok [OF s, of i] by (simp add: InstrumentedOps_def)
  show "\<exists>s'. so_remove (InstrumentedOps no_faults) i s = Some s' \<and> storage_ok (fst s') \<and>
      storage_abs (fst s') = spec_remove i (storage_abs (fst s))"
    using Directory_Remove_ok [OF s, of i] by (auto simp: InstrumentedOps_def)
  show "\<exists>s'. so_clean_up (InstrumentedOps no_faults) s = Some s' \<and> storage_ok (fst s') \<and> storage_abs (fst s') = Map.empty"
    using Directory_CleanUp_ok [of "fst s"] by (auto simp: InstrumentedOps_def)
qed

section \<open>Overlay over a backing\<close>

text \<open>An overlay in front of any two storages of the contract shows the layers of the backing with those
  stored through the overlay on top of them, and never touches the backing.\<close>

theorem overlay_shadows_backing:
  assumes "layer_storage ram ram_ok ram_abs" "layer_storage backing backing_ok backing_abs"
    and "ram_ok r" "backing_ok k" "no_removed (ram_abs r)" "no_removed (backing_abs k)"
  shows "\<exists>r'. storage_run (OverlayDomainStorage ram backing) (map (\<lambda>(q, data). AStore q data) qs) (r, k) = Some (r', k) \<and>
    (\<forall>q. Overlay_Load ram backing q (r', k) =
      Some (spec_load q (spec_run (map (\<lambda>(q, data). AStore q data) qs) (overlay_view (ram_abs r) (backing_abs k)))))"
proof -
  have stack: "overlay_stack ram ram_ok ram_abs backing backing_ok backing_abs"
    using assms(1,2) by (rule overlay_stack.intro)
  have ok: "overlay_stack.stack_ok ram_ok ram_abs backing_ok backing_abs (r, k)"
    using assms by (simp add: overlay_stack.stack_ok_def [OF stack])
  obtain s' where s': "storage_run (OverlayDomainStorage ram backing) (map (\<lambda>(q, data). AStore q data) qs) (r, k) = Some s'"
    "\<forall>q. so_load (OverlayDomainStorage ram backing) q s' =
      Some (spec_load q (spec_run (map (\<lambda>(q, data). AStore q data) qs) (overlay_view (ram_abs r) (backing_abs k))))"
    using overlay_stack.overlay_stores [OF stack ok, of qs] by (auto simp: overlay_stack.stack_abs_def [OF stack])
  have "s' = (fst s', k)" using overlay_run_backing [OF s'(1)] by (metis prod.collapse snd_conv)
  then show ?thesis using s' by (metis OverlayDomainStorage_def storage_ops.select_convs(2))
qed

text \<open>A concrete RamDomainStorage for the witness: its nested maps as association lists.\<close>

type_synonym ram_table = "(obj_id \<times> ((class_id \<times> u8) \<times> bytes) list) list"

definition table_layers :: "obj_id \<Rightarrow> ram_table \<Rightarrow> ((class_id \<times> u8) \<times> bytes) list" where
  "table_layers i t = (case map_of t i of None \<Rightarrow> [] | Some ls \<Rightarrow> ls)"

definition sample_ram :: "ram_table storage_ops" where
  "sample_ram = \<lparr> so_store = (\<lambda>(i, c, v) data t. (True, (i, ((c, v), data) # table_layers i t) # t)),
     so_load = (\<lambda>(i, c, v) t. Some (case map_of t i of None \<Rightarrow> LoadEmpty | Some [] \<Rightarrow> LoadRemoved
       | Some ls \<Rightarrow> (case map_of ls (c, v) of None \<Rightarrow> LoadEmpty | Some data \<Rightarrow> LoadLoaded data))),
     so_enumerate = (\<lambda>i t. Some (as_set_list (map (fst \<circ> fst) (table_layers i t)))),
     so_remove = (\<lambda>i t. Some ((i, []) # t)), so_clean_up = (\<lambda>t. Some []) \<rparr>"

definition table_abs :: "ram_table \<Rightarrow> layer_map" where
  "table_abs t i = map_option map_of (map_of t i)"

interpretation ram: removable_storage sample_ram "\<lambda>_. True" table_abs
proof
  fix s :: ram_table and q :: domain_query and data i
  obtain j c v where q: "q = (j, c, v)" by (cases q)
  show "\<exists>s'. so_store sample_ram q data s = (True, s') \<and> True \<and> table_abs s' = spec_store q data (table_abs s)"
    by (auto simp: sample_ram_def q spec_store.simps table_abs_def table_layers_def fun_eq_iff split: option.split)
  show "so_load sample_ram q s = Some (spec_load q (table_abs s))"
    by (auto simp: sample_ram_def q spec_load.simps table_abs_def split: option.split list.split)
  have classes: "set (map (fst \<circ> fst) ls) = {c. \<exists>v. map_of ls (c, v) \<noteq> None}" for ls :: "((class_id \<times> u8) \<times> bytes) list"
    by (force simp: map_of_eq_None_iff image_iff)
  show "\<exists>cs. so_enumerate sample_ram i s = Some cs \<and> distinct cs \<and> set cs = spec_classes i (table_abs s)"
  proof (cases "map_of s i")
    case None
    then show ?thesis by (simp add: sample_ram_def table_layers_def spec_classes_def table_abs_def)
  next
    case (Some ls)
    then show ?thesis using classes [of ls] by (simp add: sample_ram_def table_layers_def spec_classes_def table_abs_def)
  qed
  show "\<exists>s'. so_remove sample_ram i s = Some s' \<and> True \<and> table_abs s' = spec_remove i (table_abs s)"
    by (auto simp: sample_ram_def table_abs_def spec_remove_def fun_eq_iff)
  show "\<exists>s'. so_clean_up sample_ram s = Some s' \<and> True \<and> table_abs s' = Map.empty"
    by (auto simp: sample_ram_def table_abs_def)
qed

interpretation stack: overlay_stack sample_ram "\<lambda>_. True" table_abs "DirectoryOps no_faults" storage_ok storage_abs ..

lemma overlay_shadows_backing_witness:
  "\<exists>r'. storage_run (OverlayDomainStorage sample_ram (DirectoryOps no_faults)) [AStore (7, 60, 1) [1], AStore (7, 60, 1) [2]]
      ([], sample_directory) = Some (r', sample_directory) \<and>
    Overlay_Load sample_ram (DirectoryOps no_faults) (7, 60, 1) (r', sample_directory) = Some (LoadLoaded [2])"
  using overlay_shadows_backing [OF ram.layer_storage_axioms directory.layer_storage_axioms,
      where r = "[]" and k = sample_directory and qs = "[((7, 60, 1), [1]), ((7, 60, 1), [2])]"]
  by (force simp: storage_ok_def sample_directory_def empty_files_ok table_abs_def no_removed_def storage_abs_def)

text \<open>After a removal through the overlay the object is not gone for good: the next layer stored under its id
  brings the other layers of the backing back.\<close>

lemma overlay_removal_is_forgotten:
  assumes "so_load backing (i, d, w) k = Some (LoadLoaded data')" "(d, w) \<noteq> (c, v)"
  shows "\<exists>s. storage_run (OverlayDomainStorage sample_ram backing) [ARemove i, AStore (i, c, v) data] ([], k) = Some s \<and>
    Overlay_Load sample_ram backing (i, d, w) s = Some (LoadLoaded data')"
  using assms by (auto simp: OverlayDomainStorage_def Overlay_Store_def Overlay_Remove_def Overlay_Load_def sample_ram_def table_layers_def)

end
