(* ===== verification/PublicationProperties.thy ===== *)
theory PublicationProperties
  imports Checkpoint StorageProperties
begin

text \<open>
  What a reader finds in a publication or a checkpoint: the fragment that was saved, applied to the storage and
  to the domain; the verdict of the initial load on any bytes; and the checkpoint, which leaves the live graph
  as it was, stores every layer, and tells a failed disk only through the save session.
\<close>

section \<open>Lists\<close>

lemma map_filter_map_of:
  "map_of (List.map_filter (\<lambda>i. map_option (\<lambda>x. (i, f x)) (d i)) xs) i = (if i \<in> set xs then map_option f (d i) else None)"
  by (induction xs) (auto simp: List.map_filter_def split: option.splits)

lemma map_fst_map_filter:
  "map fst (List.map_filter (\<lambda>i. map_option (\<lambda>x. (i, f x)) (d i)) xs) = filter (\<lambda>i. d i \<noteq> None) xs"
  by (induction xs) (auto simp: List.map_filter_def split: option.splits)

text \<open>RamDomainStorage keeps its objects in a \<open>std::map\<close>, so their ids are distinct.\<close>

definition saves_maps :: "('x, 'e, 's) object_system \<Rightarrow> bool" where
  "saves_maps sys \<longleftrightarrow> (\<forall>scope i d scratch. distinct (map fst scratch) \<longrightarrow> distinct (map fst (os_save sys scope i d scratch)))"

lemma distinct_active: "distinct (map fst st) \<Longrightarrow> distinct (active st)"
  by (induction st) (auto simp: active_def)

lemma SaveObjectGraphToScratch_distinct:
  "saves_maps sys \<Longrightarrow> SaveObjectGraphToScratch sys scope i d [] = Some scratch \<Longrightarrow> distinct (active scratch)"
  by (auto simp: SaveObjectGraphToScratch_def saves_maps_def intro!: distinct_active split: Option.bind_splits if_splits)

section \<open>Updates of the domain\<close>

lemma update_object_apply: "update_object i f d j = (if j = i then map_option f (d i) else d j)"
  by (auto simp: update_object_def split: option.split)

lemma update_object_none [simp]: "update_object i f d j = None \<longleftrightarrow> d j = None"
  by (auto simp: update_object_apply)

lemma fold_set_base:
  "distinct (map fst bs) \<Longrightarrow> fold set_base bs d i =
    (case map_of bs i of None \<Rightarrow> d i | Some b \<Rightarrow> map_option (\<lambda>ob. ob\<lparr> lo_base := b \<rparr>) (d i))"
  by (induction bs arbitrary: d) (auto simp: set_base_def update_object_apply map_of_eq_None_iff [THEN iffD2] split: option.split)

lemma fold_set_journal:
  "distinct (map fst bs) \<Longrightarrow> fold set_journal bs d i =
    (case map_of bs i of None \<Rightarrow> d i | Some b \<Rightarrow> map_option (\<lambda>ob. ob\<lparr> lo_journal := b \<rparr>) (d i))"
  by (induction bs arbitrary: d) (auto simp: set_journal_def update_object_apply map_of_eq_None_iff [THEN iffD2] split: option.split)

section \<open>A graph fragment\<close>

lemma counted_split: "counted rec xs @ r = le_u32 (of_nat (length xs)) @ (concat (map rec xs) @ r)"
  by (simp add: counted_def)

lemma unat_count: "n < 2 ^ 32 \<Longrightarrow> unat (of_nat n :: u32) = n"
  by (rule unat_word_of_nat_32)

text \<open>The fragment that SerializeObjectGraphToBuffer writes.\<close>

definition fragment :: "('x, 'e, 's) object_system \<Rightarrow> obj_id \<Rightarrow> ('x, 'e) domain \<Rightarrow> (layer list \<times> (obj_id \<times> u64) list) option" where
  "fragment sys root d = do {
     scratch \<leftarrow> SaveObjectGraphToScratch sys MaterializedPublication root d [];
     let keep = (\<lambda>i. i \<notin> set (distilled_bases (os_ae sys) (active scratch) d)) in
     Some (scratch_layers keep scratch, scratch_generations (os_ae sys) keep d scratch) }"

definition fragment_fits :: "layer list \<times> (obj_id \<times> u64) list \<Rightarrow> bool" where
  "fragment_fits f \<longleftrightarrow> length (fst f) < 2 ^ 32 \<and> length (snd f) < 2 ^ 32 \<and> (\<forall>l\<in>set (fst f). layer_fits l)"

lemma SerializeObjectGraphToBuffer_fragment:
  "SerializeObjectGraphToBuffer sys root d out =
    map_option (\<lambda>f. out @ counted layer_record (fst f) @ counted generation_record (snd f)) (fragment sys root d)"
  by (cases "SaveObjectGraphToScratch sys MaterializedPublication root d []")
    (simp_all add: SerializeObjectGraphToBuffer_def fragment_def Let_def)

lemma finalize_found_simps:
  "finalize_found ae i g d j = (if j = i \<and> find_node ae i d \<noteq> None
     then map_option (\<lambda>ob. ob\<lparr> lo_generation := g, lo_base := None, lo_journal := [] \<rparr>) (d i) else d j)"
  by (auto simp: finalize_found_def FinalizeUiNodeState_def update_object_apply find_node_def split: option.splits)

lemma finalize_found_node: "find_node ae j (finalize_found ae i g d) = None \<longleftrightarrow> find_node ae j d = None"
  by (auto simp: find_node_def finalize_found_simps is_node_def split: option.splits)

definition as_published :: "aether \<Rightarrow> ('x, 'e) domain \<Rightarrow> obj_id \<Rightarrow> u64 \<Rightarrow> bool" where
  "as_published ae d i g \<longleftrightarrow> (\<forall>node. find_node ae i d = Some node \<longrightarrow> lo_generation node = g \<and> lo_base node = None \<and> lo_journal node = [])"

lemma finalize_found_published: "as_published ae (finalize_found ae i g d) i g"
  by (auto simp: as_published_def find_node_def finalize_found_simps split: option.splits if_splits)

lemma as_published_cong: "d i = e i \<Longrightarrow> as_published ae d i g = as_published ae e i g"
  by (simp add: as_published_def find_node_def)

lemma fold_finalize_published:
  assumes "distinct (map fst gs)" "(i, g) \<in> set gs"
  shows "as_published ae (fold (\<lambda>(i, g). finalize_found ae i g) gs d) i g"
  using assms
proof (induction gs arbitrary: d)
  case (Cons x gs)
  have other: "fold (\<lambda>(i, g). finalize_found ae i g) hs e i = e i" if "i \<notin> fst ` set hs" for hs and e :: "('a, 'b) domain"
    using that
  proof (induction hs arbitrary: e)
    case (Cons h hs)
    then have "finalize_found ae (fst h) (snd h) e i = e i" by (auto simp: finalize_found_simps)
    then show ?case using Cons.IH [of "finalize_found ae (fst h) (snd h) e"] Cons.prems by (simp add: case_prod_beta)
  qed simp
  show ?case
  proof (cases "x = (i, g)")
    case True
    then have "i \<notin> fst ` set gs" using Cons.prems(1) by auto
    then have "fold (\<lambda>(i, g). finalize_found ae i g) gs (finalize_found ae i g d) i = finalize_found ae i g d i"
      by (rule other)
    then have "as_published ae (fold (\<lambda>(i, g). finalize_found ae i g) gs (finalize_found ae i g d)) i g =
        as_published ae (finalize_found ae i g d) i g"
      by (rule as_published_cong)
    then show ?thesis using finalize_found_published [of ae i g d] by (simp add: True)
  next
    case False
    then show ?thesis using Cons by (cases x) auto
  qed
qed simp

lemma fragment_generations_distinct:
  assumes "saves_maps sys" "fragment sys root d = Some (ls, gs)"
  shows "distinct (map fst gs)"
proof -
  obtain scratch keep where scratch: "SaveObjectGraphToScratch sys MaterializedPublication root d [] = Some scratch"
    and gs: "gs = scratch_generations (os_ae sys) keep d scratch"
    using assms(2) by (auto simp: fragment_def Let_def split: Option.bind_splits)
  have map: "map fst (List.map_filter (\<lambda>i. if keep i then map_option (\<lambda>ob. (i, h ob)) (e i) else None) xs) =
      filter (\<lambda>i. keep i \<and> e i \<noteq> None) xs" for h :: "('a, 'b) live_object \<Rightarrow> u64" and e xs
    by (induction xs) (auto simp: List.map_filter_def split: option.splits)
  show ?thesis
    unfolding gs scratch_generations_def map using SaveObjectGraphToScratch_distinct [OF assms(1) scratch] by simp
qed

text \<open>The reader goes through the whole fragment: it stores every layer in order, loads, and finalizes every node.\<close>

lemma DeserializeObjectGraph_fragment:
  fixes s :: 's and ops :: "'s storage_ops"
  assumes "before (counted layer_record ls @ counted generation_record gs @ b) rest src" "fragment_fits (ls, gs)"
  defines "s' \<equiv> fold (store_layer ops) ls s"
    and "ids \<equiv> fold (\<lambda>l ids. note_id (fst l) ids) ls []"
  shows "\<exists>src'. DeserializeObjectGraphFromBuffer sys ops root src s u =
      Some (src', s', fold (\<lambda>(i, g). finalize_found (os_ae sys) i g) gs
        (refresh_objects sys s' ids (LoadExistingObjectUnchecked sys s' root u))) \<and> before b rest src'"
proof -
  have n: "unat (of_nat (length ls) :: u32) = length ls" "unat (of_nat (length gs) :: u32) = length gs"
    using assms(2) by (simp_all add: fragment_fits_def unat_count)
  from assms(1) have "before (le_u32 (of_nat (length ls)) @ (concat (map layer_record ls) @ counted generation_record gs @ b)) rest src"
    by (simp add: counted_def)
  note r1 = read_u32_before [OF this]
  have fits: "\<forall>l\<in>set ls. layer_fits l" using assms(2) by (simp add: fragment_fits_def)
  obtain src1 where inj: "inject_layers False ops (length ls) 0 (advance 4 src) s [] = (Inr (src1, ids), s')"
    "before (counted generation_record gs @ b) rest src1"
    using inject_layers_written [OF conjunct2 [OF r1] fits, of False ops 0 s "[]"] by (auto simp: ids_def s'_def)
  from inj(2) have "before (le_u32 (of_nat (length gs)) @ (concat (map generation_record gs) @ b)) rest src1"
    by (simp add: counted_def)
  note r2 = read_u32_before [OF this]
  obtain src2 where gen: "read_generations (finalize_found (os_ae sys)) (length gs) 0 (advance 4 src1)
      (refresh_objects sys s' ids (LoadExistingObjectUnchecked sys s' root u)) = (Inr src2, fold (\<lambda>(i, g). finalize_found (os_ae sys) i g) gs
        (refresh_objects sys s' ids (LoadExistingObjectUnchecked sys s' root u)))" "before b rest src2"
    using read_generations_written [OF conjunct2 [OF r2], of "finalize_found (os_ae sys)" 0
        "refresh_objects sys s' ids (LoadExistingObjectUnchecked sys s' root u)"] by blast
  have "src_ok (advance 4 src)" "src_ok (advance 4 src1)" using r1 r2 by (simp_all add: before_def)
  then show ?thesis
    using r1 r2 inj(1) gen n by (simp add: DeserializeObjectGraphFromBuffer_def Let_def)
qed

text \<open>C30. A graph fragment published from the model is applied whole on the other side, wherever it stands in the
  bytes: the receiver does not run into an assertion and stops right behind it, its storage has every published
  layer stored in order, and every node of the fragment that is live in the receiving domain has the published
  generation and no history of its own.\<close>

theorem graph_publication_applied_whole:
  assumes "saves_maps sys" "SerializeObjectGraphToBuffer sys root d [] = Some bs"
    and "fragment sys root d = Some (ls, gs)" "fragment_fits (ls, gs)" "os_ae receiver = os_ae sys"
    and "before bs rest src"
  shows "\<exists>src' u'. DeserializeObjectGraphFromBuffer receiver ops root src s u = Some (src', fold (store_layer ops) ls s, u') \<and>
    before [] rest src' \<and> (\<forall>(i, g)\<in>set gs. as_published (os_ae sys) u' i g)"
proof -
  have bs: "bs = counted layer_record ls @ counted generation_record gs"
    using assms(2,3) by (simp add: SerializeObjectGraphToBuffer_fragment)
  have at: "before (counted layer_record ls @ counted generation_record gs @ []) rest src"
    using assms(6) unfolding bs by simp
  show ?thesis
    using DeserializeObjectGraph_fragment [OF at assms(4), of receiver ops root s u]
      fold_finalize_published [OF fragment_generations_distinct [OF assms(1,3)]] assms(5) by fastforce
qed

text \<open>A concrete object system: an object is saved as one layer of its class.\<close>

definition sample_system :: "(unit, unit, directory_storage) object_system" where
  "sample_system = \<lparr> os_ae = sample_aether,
     os_save = (\<lambda>scope i d scratch. (i, Some [(case d i of None \<Rightarrow> 3 | Some ob \<Rightarrow> lo_class ob, [(1, [7, 9])])]) # filter (\<lambda>x. fst x \<noteq> i) scratch),
     os_has_load = (\<lambda>c. True), os_load = (\<lambda>s i d. (None, d)), os_load_root = (\<lambda>s i d. (d i \<noteq> None, d)) \<rparr>"

definition sample_live_node :: "(unit, unit) live_object" where
  "sample_live_node = \<lparr> lo_class = 3, lo_fields = (), lo_base = None, lo_journal = [], lo_generation = 5, lo_applied = 0 \<rparr>"

definition sample_domain :: "(unit, unit) domain" where
  "sample_domain = [7 \<mapsto> sample_live_node]"

lemma sample_saves_maps: "saves_maps sample_system"
proof -
  have "distinct (map fst xs) \<Longrightarrow> distinct (map fst (filter P xs))" for P and xs :: "(obj_id \<times> class_layers option) list"
    by (induction xs) auto
  then show ?thesis by (auto simp: saves_maps_def sample_system_def)
qed

lemmas sample_system_simps = sample_system_def sample_domain_def sample_live_node_def sample_aether_def

lemma sample_fragment: "fragment sample_system 7 sample_domain = Some ([(7, 3, 1, [7, 9])], [(7, 5)])"
  by (simp add: fragment_def SaveObjectGraphToScratch_def sample_system_simps distilled_bases_def active_def
      List.map_filter_def find_node_def is_node_def scratch_layers_def object_layers_def flat_layers_def scratch_generations_def)

lemma graph_publication_applied_whole_witness:
  "\<exists>bs src s' u'. SerializeObjectGraphToBuffer sample_system 7 sample_domain [] = Some bs \<and>
    DeserializeObjectGraphFromBuffer sample_system (DirectoryOps no_faults) 7 (byte_source bs) sample_directory
      [7 \<mapsto> sample_live_node\<lparr> lo_generation := 1 \<rparr>] = Some (src, s', u') \<and> as_published sample_aether u' 7 5"
proof -
  obtain bs where bs: "SerializeObjectGraphToBuffer sample_system 7 sample_domain [] = Some bs"
    by (simp add: SerializeObjectGraphToBuffer_fragment sample_fragment)
  have "fragment_fits ([(7, 3, 1, [7, 9])], [(7, 5)])" by (simp add: fragment_fits_def layer_fits_def)
  from graph_publication_applied_whole [OF sample_saves_maps bs sample_fragment this refl before_source] bs
  show ?thesis by (fastforce simp: sample_system_def)
qed

section \<open>The initial publication\<close>

lemma inject_layers_stage:
  "inject_layers checked ops n k src s ids = (Inl (stage, j, h, pos), s') \<Longrightarrow>
   stage \<in> {ReadLayerHeader, ReadLayerPayload, InjectLayerBytes}"
  by (induction checked ops n k src s ids rule: inject_layers.induct) (auto simp: Let_def split: prod.splits if_splits)

lemma reload_object_stage:
  "reload_object sys s root i dg d = (False, dg', d') \<Longrightarrow> dg_stage dg' = LoadExistingObjectStage"
  "reload_object sys s root i dg d = (True, dg', d') \<Longrightarrow> dg' = dg"
  by (auto simp: reload_object_def LoadExistingObject_def Let_def split: prod.splits option.splits if_splits)

lemma reload_objects_stage:
  "reload_objects sys s root ids dg d = (loaded, dg', d') \<Longrightarrow> if loaded then dg' = dg else dg_stage dg' = LoadExistingObjectStage"
proof (induction ids arbitrary: dg d)
  case (Cons i ids)
  obtain ok dg1 d1 where step: "reload_object sys s root i dg d = (ok, dg1, d1)" by (metis prod_cases3)
  show ?case
  proof (cases ok)
    case True
    then show ?thesis using Cons.IH [of dg d1] Cons.prems step reload_object_stage(2) [of sys s root i dg d dg1 d1] by simp
  next
    case False
    then show ?thesis using Cons.prems step reload_object_stage(1) [of sys s root i dg d dg1 d1] by simp
  qed
qed simp

lemma probe_roots_stage: "dg_stage (fst (probe_roots sys s ids dg d)) = dg_stage dg"
  by (induction ids arbitrary: dg d) (auto simp: Let_def split: prod.split)

lemma hydrate_stage:
  "HydrateInjectedPublicationGraph sys s root ids dg d = (loaded, dg', d') \<Longrightarrow>
   if loaded then dg' = dg else dg_stage dg' \<in> {LoadRootStage, LoadExistingObjectStage}"
  using probe_roots_stage [of sys s ids "dg\<lparr> dg_stage := LoadRootStage, dg_root_id := root \<rparr>" "snd (os_load_root sys s root d)"]
    reload_objects_stage [of sys s root "ids @ rev (sort ids) @ ids" dg "snd (os_load_root sys s root d)" loaded dg' d']
  by (auto simp: HydrateInjectedPublicationGraph_def Let_def split: prod.splits if_splits)

lemma ReadAndInject_stage:
  "ReadAndInjectPublicationLayers ops src dg s = (Inl dg', s') \<Longrightarrow>
     dg_stage dg' \<in> {ReadLayerCount, ReadLayerHeader, ReadLayerPayload, InjectLayerBytes}"
  by (auto simp: ReadAndInjectPublicationLayers_def Let_def stop_diagnostics_def dest: inject_layers_stage
      split: prod.splits sum.splits if_splits)

text \<open>On any bytes the initial load ends with a verdict and no assertion: it yields the root the bytes name
  exactly when its stage is the final one, and as long as it fails while reading or storing layers the domain
  of the GUI is untouched.\<close>

theorem initial_load_verdict:
  assumes "TryLoadInitialPublication sys ops src s d = (result, dg, s', d')"
  shows "(result \<noteq> None \<longleftrightarrow> dg_stage dg = StageOk) \<and> (result \<noteq> None \<longrightarrow> result = Some (fst (read_u32 src))) \<and>
    (dg_stage dg \<in> {ReadRootId, ReadLayerCount, ReadLayerHeader, ReadLayerPayload, InjectLayerBytes} \<longrightarrow> d' = d) \<and>
    (LoadInitialPublication sys ops src s d = None \<longleftrightarrow> dg_stage dg \<noteq> StageOk)"
proof -
  have "(result \<noteq> None \<longleftrightarrow> dg_stage dg = StageOk) \<and> (result \<noteq> None \<longrightarrow> result = Some (fst (read_u32 src))) \<and>
    (dg_stage dg \<in> {ReadRootId, ReadLayerCount, ReadLayerHeader, ReadLayerPayload, InjectLayerBytes} \<longrightarrow> d' = d)"
    using assms
    by (auto simp: TryLoadInitialPublication_def Let_def dest!: hydrate_stage ReadAndInject_stage
        split: prod.splits sum.splits if_splits)
  then show ?thesis using assms by (auto simp: LoadInitialPublication_def split: option.splits)
qed

lemma initial_load_verdict_witness:
  "dg_stage (fst (snd (TryLoadInitialPublication sample_system (DirectoryOps no_faults) (byte_source [7, 0]) sample_directory sample_domain)))
      = ReadRootId \<and>
   LoadInitialPublication sample_system (DirectoryOps no_faults) (byte_source [7, 0]) sample_directory sample_domain = None"
proof -
  have run: "TryLoadInitialPublication sample_system (DirectoryOps no_faults) (byte_source [7, 0]) sample_directory sample_domain =
      (None, no_diagnostics\<lparr> dg_stage := ReadRootId, dg_offset := 0 \<rparr>, sample_directory, sample_domain)"
    by (simp add: TryLoadInitialPublication_def read_u32_def ByteSource_read_def byte_source_def Let_def)
  show ?thesis using initial_load_verdict [OF run] by (simp add: run)
qed

section \<open>The checkpoint\<close>

lemma CollectReachableNodes_distinct:
  "saves_maps sys \<Longrightarrow> CollectReachableNodes sys root d = Some nodes \<Longrightarrow> distinct nodes"
  by (auto simp: CollectReachableNodes_def CollectReachableObjects_def RemoveDistilledBaseObjects_def
      dest: SaveObjectGraphToScratch_distinct split: Option.bind_splits)

lemma clear_bases_apply:
  "distinct nodes \<Longrightarrow> fold (\<lambda>i. set_base (i, None)) nodes d i =
    (if i \<in> set nodes then map_option (\<lambda>ob. ob\<lparr> lo_base := None \<rparr>) (d i) else d i)"
  by (induction nodes arbitrary: d) (auto simp: set_base_def update_object_apply)

lemma bases_of_simps:
  "map_of (bases_of nodes d) i = (if i \<in> set nodes then map_option lo_base (d i) else None)"
  "map fst (bases_of nodes d) = filter (\<lambda>i. d i \<noteq> None) nodes"
  by (simp_all add: bases_of_def map_filter_map_of map_fst_map_filter)

lemma journals_of_simps:
  "map_of (journals_of nodes d) i = (if i \<in> set nodes then map_option lo_journal (d i) else None)"
  "map fst (journals_of nodes d) = filter (\<lambda>i. d i \<noteq> None) nodes"
  by (simp_all add: journals_of_def map_filter_map_of map_fst_map_filter)

lemma restore_bases:
  assumes "distinct nodes"
  shows "RestoreReachableNodeBase (bases_of nodes d) (fold (\<lambda>i. set_base (i, None)) nodes d) = d"
proof (rule ext)
  fix i
  have "distinct (map fst (bases_of nodes d))" using assms by (simp add: bases_of_simps)
  then show "RestoreReachableNodeBase (bases_of nodes d) (fold (\<lambda>i. set_base (i, None)) nodes d) i = d i"
    using assms by (simp add: RestoreReachableNodeBase_def fold_set_base bases_of_simps clear_bases_apply split: option.split)
qed

lemma restore_journals:
  assumes "distinct nodes"
  shows "fold set_journal (journals_of nodes d) (fold (\<lambda>(i, j). set_journal (i, h j)) (journals_of nodes d) d) = d"
proof (rule ext)
  fix i
  have dist: "distinct (map fst (journals_of nodes d))" using assms by (simp add: journals_of_simps)
  let ?js = "journals_of nodes d" and ?h = "\<lambda>(i, j). (i, h j)"
  have fold: "fold (\<lambda>(i, j). set_journal (i, h j)) js e = fold set_journal (map ?h js) e"
    for js and e :: "('a, 'b) domain" by (induction js arbitrary: e) auto
  have fst: "map fst (map ?h js) = map fst js" for js :: "'b saved_journals" by (induction js) auto
  have "distinct (map fst (map ?h ?js))" unfolding fst by (rule dist)
  moreover have "map_of (map ?h js) i = map_option h (map_of js i)" for js :: "'b saved_journals"
    by (induction js) auto
  ultimately have "fold set_journal (map ?h ?js) d i =
      (case map_of ?js i of None \<Rightarrow> d i | Some j \<Rightarrow> map_option (\<lambda>ob. ob\<lparr> lo_journal := h j \<rparr>) (d i))"
    by (simp add: fold_set_journal split: option.split)
  then show "fold set_journal ?js (fold (\<lambda>(i, j). set_journal (i, h j)) ?js d) i = d i"
    using dist unfolding fold by (simp add: fold_set_journal journals_of_simps split: option.split)
qed

lemma checkpoint_parts_restore:
  assumes "saves_maps sys" "checkpoint_parts sys root d = Some (journals, bases, scratch, d1)"
  shows "fold set_journal journals (RestoreReachableNodeBase bases d1) = d"
proof -
  obtain nodes nodes' where nodes: "CollectReachableNodes sys root d = Some nodes" and j: "journals = journals_of nodes d"
    and nodes': "CollectReachableNodes sys root
        (fold (\<lambda>(i, j). set_journal (i, filter (\<lambda>r. ptr_valid (event r)) j)) journals d) = Some nodes'"
    and b: "bases = bases_of nodes' (fold (\<lambda>(i, j). set_journal (i, filter (\<lambda>r. ptr_valid (event r)) j)) journals d)"
    and d1: "d1 = fold (\<lambda>i. set_base (i, None)) nodes' (fold (\<lambda>(i, j). set_journal (i, filter (\<lambda>r. ptr_valid (event r)) j)) journals d)"
    using assms(2) by (auto simp: checkpoint_parts_def ClearReachableNodeBaseForCheckpointSave_def Let_def split: Option.bind_splits)
  have "RestoreReachableNodeBase bases d1 = fold (\<lambda>(i, j). set_journal (i, filter (\<lambda>r. ptr_valid (event r)) j)) journals d"
    unfolding b d1 by (rule restore_bases) (rule CollectReachableNodes_distinct [OF assms(1) nodes'])
  then show ?thesis
    using restore_journals [OF CollectReachableNodes_distinct [OF assms(1) nodes], of d "filter (\<lambda>r. ptr_valid (event r))"]
    unfolding j by simp
qed

text \<open>What is in the envelope.\<close>

definition checkpoint_fits :: "('x, 'e) domain \<Rightarrow> aether \<Rightarrow> ram_state \<Rightarrow> saved_bases \<Rightarrow> bool" where
  "checkpoint_fits d ae scratch bases \<longleftrightarrow> (\<forall>l\<in>set (checkpoint_layers d scratch). layer_fits l) \<and>
     length (checkpoint_layers d scratch) < 2 ^ 32 \<and>
     length (scratch_generations ae (\<lambda>i. d i \<noteq> None) d scratch) < 2 ^ 32 \<and> length (base_bindings bases) < 2 ^ 32"

lemma inject_checkpoint:
  fixes s :: 's and ops :: "'s storage_ops"
  assumes "stores_accept ops" "checkpoint_fits d ae scratch bases"
  shows "InjectPersistentModelSnapshotToStorage ops (byte_source (le_u32 root @
      WritePersistentCheckpointScratchLayers ae scratch d @ WritePersistentCheckpointNodeBaseBindings bases)) root s =
    (True, fold (store_layer ops) (checkpoint_layers d scratch) s)"
proof -
  let ?ls = "checkpoint_layers d scratch" and ?gs = "scratch_generations ae (\<lambda>i. d i \<noteq> None) d scratch"
    and ?bs = "base_bindings bases"
  have n: "unat (of_nat (length ?ls) :: u32) = length ?ls" "unat (of_nat (length ?gs) :: u32) = length ?gs"
    "unat (of_nat (length ?bs) :: u32) = length ?bs"
    using assms(2) by (simp_all add: checkpoint_fits_def unat_count)
  let ?src = "byte_source (le_u32 root @ WritePersistentCheckpointScratchLayers ae scratch d @
      WritePersistentCheckpointNodeBaseBindings bases)"
  have "before (le_u32 root @ (le_u32 (of_nat (length ?ls)) @ (concat (map layer_record ?ls) @
      counted generation_record ?gs @ counted binding_record ?bs))) [] ?src"
    using before_source by (simp add: WritePersistentCheckpointScratchLayers_def WritePersistentCheckpointNodeBaseBindings_def counted_def)
  note r1 = read_u32_before [OF this]
  note r2 = read_u32_before [OF conjunct2 [OF r1]]
  obtain src1 ids where inj: "inject_layers True ops (length ?ls) 0 (advance 4 (advance 4 ?src)) s [] =
      (Inr (src1, ids), fold (store_layer ops) ?ls s)" "before (counted generation_record ?gs @ counted binding_record ?bs) [] src1"
    using inject_layers_written [OF conjunct2 [OF r2], of True ops 0 s "[]"] assms by (auto simp: checkpoint_fits_def)
  from inj(2) have "before (le_u32 (of_nat (length ?gs)) @ (concat (map generation_record ?gs) @ counted binding_record ?bs)) [] src1"
    by (simp add: counted_def)
  note r3 = read_u32_before [OF this]
  obtain src2 where gen: "read_generations (\<lambda>_ _ d. d) (length ?gs) 0 (advance 4 src1) () = (Inr src2, ())"
    "before (counted binding_record ?bs) [] src2"
    using read_generations_written [OF conjunct2 [OF r3], of "\<lambda>_ _ d. d" 0 "()"] by auto
  from gen(2) have b2: "before (le_u32 (of_nat (length ?bs)) @ (concat (map binding_record ?bs) @ [])) [] src2"
    by (simp add: counted_def)
  note r4 = read_u32_before [OF b2]
  obtain src3 where bind: "fst (read_bindings (\<lambda>_ _ d. d) (length ?bs) (advance 4 src2) ())"
    using read_bindings_written [OF conjunct2 [OF r4], of "\<lambda>_ _ d. d" "()"] by auto
  have skip: "SkipPersistentCheckpointNodeBaseBindings src2"
    using r4 bind n(3) conjunct2 [OF r4] by (simp add: SkipPersistentCheckpointNodeBaseBindings_def before_def)
  have ok: "src_ok (advance 4 ?src)" "src_ok (advance 4 (advance 4 ?src))" "src_ok (advance 4 src1)"
    using r1 r2 r3 by (simp_all add: before_def)
  show ?thesis
    using r1 r2 r3 inj(1) gen(1) ok n skip by (simp add: InjectPersistentModelSnapshotToStorage_def Let_def)
qed

lemma save_checkpoint:
  fixes s :: 's and ops :: "'s storage_ops"
  assumes "saves_maps sys" "stores_accept ops"
    and "checkpoint_parts sys root d = Some (journals, bases, scratch, d1)"
    and "checkpoint_fits d1 (os_ae sys) scratch bases"
    and "\<forall>data. fst (write_sidecar data s)"
  shows "\<exists>data. SavePersistentModelSnapshotToStorageImpl sys ops (Some write_sidecar) root d s =
      Some (True, fold (store_layer ops) (checkpoint_layers d1 scratch) (snd (write_sidecar data s)), d)"
    and "SavePersistentModelSnapshotToStorageImpl sys ops None root d s =
      Some (True, fold (store_layer ops) (checkpoint_layers d1 scratch) s, d)"
proof -
  let ?data = "le_u32 root @ WritePersistentCheckpointScratchLayers (os_ae sys) scratch d1 @ WritePersistentCheckpointNodeBaseBindings bases"
  have ser: "SerializePersistentModelSnapshot sys root d [] = Some (?data, d)"
    using assms(3) checkpoint_parts_restore [OF assms(1,3)] by (simp add: SerializePersistentModelSnapshot_def)
  show "SavePersistentModelSnapshotToStorageImpl sys ops None root d s =
      Some (True, fold (store_layer ops) (checkpoint_layers d1 scratch) s, d)"
    using inject_checkpoint [OF assms(2,4), of root s]
    by (simp add: SavePersistentModelSnapshotToStorageImpl_def ser)
  obtain s' where s': "write_sidecar ?data s = (True, s')" using assms(5) by (metis prod.collapse)
  show "\<exists>data. SavePersistentModelSnapshotToStorageImpl sys ops (Some write_sidecar) root d s =
      Some (True, fold (store_layer ops) (checkpoint_layers d1 scratch) (snd (write_sidecar data s)), d)"
    using inject_checkpoint [OF assms(2,4), of root s'] s'
    by (intro exI [of _ ?data]) (simp add: SavePersistentModelSnapshotToStorageImpl_def ser)
qed

lemma InjectPersistent_wrong_root:
  "fst (read_u32 src) \<noteq> expected \<Longrightarrow> InjectPersistentModelSnapshotToStorage ops src expected s = (False, s)"
  by (simp add: InjectPersistentModelSnapshotToStorage_def case_prod_beta)


lemma directory_accepts: "stores_accept (DirectoryOps df)"
proof -
  have "fst (Directory_StoreBytes df q data s)" for q data s using store_atomic [of df q data s] by auto
  then show ?thesis by (simp add: stores_accept_def DirectoryOps_def)
qed

definition sample_scratch :: ram_state where
  "sample_scratch = [(7, Some [(3, [(1, [7, 9])])])]"

lemma sample_checkpoint:
  "checkpoint_parts sample_system 7 sample_domain = Some ([(7, [])], [(7, None)], sample_scratch, sample_domain)"
proof -
  have nodes: "CollectReachableNodes sample_system 7 sample_domain = Some [7]"
    by (simp add: CollectReachableNodes_def CollectReachableObjects_def SaveObjectGraphToScratch_def
        sample_system_simps active_def RemoveDistilledBaseObjects_def distilled_bases_def find_node_def is_node_def List.map_filter_def)
  have sets: "journals_of [7] sample_domain = [(7, [])]" "bases_of [7] sample_domain = [(7, None)]"
    "set_journal (7, []) sample_domain = sample_domain" "set_base (7, None) sample_domain = sample_domain"
    by (auto simp: journals_of_def bases_of_def List.map_filter_def set_journal_def set_base_def update_object_def
        sample_domain_def sample_live_node_def)
  have save: "SaveObjectGraphToScratch sample_system FullGraph 7 sample_domain [] = Some sample_scratch"
    by (simp add: SaveObjectGraphToScratch_def sample_system_simps sample_scratch_def)
  show ?thesis
    by (simp add: checkpoint_parts_def ClearReachableNodeBaseForCheckpointSave_def nodes sets save Let_def)
qed

lemma sample_checkpoint_fits: "checkpoint_fits sample_domain (os_ae sample_system) sample_scratch [(7, None)]"
  and sample_checkpoint_layers: "checkpoint_layers sample_domain sample_scratch = [(7, 3, 1, [7, 9])]"
  by (simp_all add: checkpoint_fits_def checkpoint_layers_def scratch_layers_def object_layers_def flat_layers_def sample_scratch_def
      List.map_filter_def scratch_generations_def active_def base_bindings_def layer_fits_def find_node_def sample_domain_def)


section \<open>The checkpoint on a disk that fails\<close>

lemma store_failure_sticky:
  "SaveSessionHadFailure s \<Longrightarrow> SaveSessionHadFailure (snd (Directory_StoreBytes df q data s))"
proof -
  assume s: "SaveSessionHadFailure s"
  define w where "w = (Store q)\<lparr> dw_buffer := data \<rparr>"
  define t where "t = RecordLayerBytesAccepted (length data) s"
  have t: "save_session_had_failure t" using s by (simp add: t_def SaveSessionHadFailure_def)
  have "\<not> dw_committed w" "\<not> dw_failed w" by (simp_all add: w_def Store_def)
  then have "save_session_had_failure (snd (CommitIfNeeded df w t))"
    by (cases rule: commit_cases [of w df t]) (simp_all add: t)
  then show ?thesis
    by (simp add: Directory_StoreBytes_def Writer_Write_def Store_def Let_def w_def t_def SaveSessionHadFailure_def)
qed

definition layer_query :: "layer \<Rightarrow> domain_query" where
  "layer_query l = (case l of (i, c, v, data) \<Rightarrow> (i, c, v))"

lemma stored_layers_on_disk:
  assumes "\<not> SaveSessionHadFailure (fold (store_layer (DirectoryOps df)) ls s)" "distinct (map layer_query ls)"
  shows "\<not> SaveSessionHadFailure s \<and>
    (\<forall>q. q \<notin> set (map layer_query ls) \<longrightarrow>
      layer_bytes (ds_files (fold (store_layer (DirectoryOps df)) ls s)) q = layer_bytes (ds_files s) q) \<and>
    (\<forall>(i, c, v, data)\<in>set ls. layer_bytes (ds_files (fold (store_layer (DirectoryOps df)) ls s)) (i, c, v) = Some data)"
  using assms
proof (induction ls arbitrary: s)
  case (Cons l ls)
  obtain i c v data where l: "l = (i, c, v, data)" by (cases l)
  obtain s1 where s1: "Directory_StoreBytes df (i, c, v) data s = (True, s1)"
    "\<forall>q'. q' \<noteq> (i, c, v) \<longrightarrow> layer_bytes (ds_files s1) q' = layer_bytes (ds_files s) q'"
    "if last_layer_commit s1 = CommitFailed then layer_bytes (ds_files s1) (i, c, v) = layer_bytes (ds_files s) (i, c, v) \<and> SaveSessionHadFailure s1
     else layer_bytes (ds_files s1) (i, c, v) = Some data"
    using store_atomic [of df "(i, c, v)" data s] by blast
  have step: "fold (store_layer (DirectoryOps df)) (l # ls) s = fold (store_layer (DirectoryOps df)) ls s1"
    by (simp add: l store_layer_def DirectoryOps_def s1(1))
  have fine: "\<not> SaveSessionHadFailure s1 \<and>
    (\<forall>q. q \<notin> set (map layer_query ls) \<longrightarrow>
      layer_bytes (ds_files (fold (store_layer (DirectoryOps df)) ls s1)) q = layer_bytes (ds_files s1) q) \<and>
    (\<forall>(i, c, v, data)\<in>set ls. layer_bytes (ds_files (fold (store_layer (DirectoryOps df)) ls s1)) (i, c, v) = Some data)"
    using Cons.prems unfolding step by (intro Cons.IH) simp_all
  have "\<not> SaveSessionHadFailure s"
    using fine store_failure_sticky [of s df "(i, c, v)" data] s1(1) by auto
  moreover have "(i, c, v) \<notin> set (map layer_query ls)" using Cons.prems(2) by (simp add: l layer_query_def)
  ultimately show ?case
    unfolding step using fine s1(2,3) by (auto simp: l layer_query_def split: if_splits)
qed simp

text \<open>On a disk that may fail at any file, saving a checkpoint into a directory answers true as soon as its
  sidecar is written, whatever became of the layers: a layer is written when its writer is destroyed, after
  its result was taken.  Only the save session tells: when it had no failure, every layer of the checkpoint is
  on the disk with its bytes.\<close>

theorem checkpoint_answer_needs_save_session:
  assumes "saves_maps sys" "checkpoint_parts sys root d = Some (journals, bases, scratch, d1)"
    and "checkpoint_fits d1 (os_ae sys) scratch bases" "distinct (map layer_query (checkpoint_layers d1 scratch))"
    and "map_of (ds_files s) [] = Some Directory" "map_of (ds_files s) sidecar_path \<noteq> Some Directory"
    and "\<not> df_open_write df sidecar_path" "df_write df sidecar_path = None"
  shows "\<exists>s'. SavePersistentModelSnapshotToDirectory sys df root d s = Some (True, s', d) \<and>
    (\<not> SaveSessionHadFailure s' \<longrightarrow>
      (\<forall>(i, c, v, data)\<in>set (checkpoint_layers d1 scratch). layer_bytes (ds_files s') (i, c, v) = Some data))"
proof -
  have sidecar: "\<forall>data. fst (directory_sidecar df data s)"
    using assms(5-8) by (simp add: directory_sidecar_def WritePersistentModelCheckpointSidecar_def)
  obtain data where "SavePersistentModelSnapshotToStorageImpl sys (DirectoryOps df) (Some (directory_sidecar df)) root d s =
      Some (True, fold (store_layer (DirectoryOps df)) (checkpoint_layers d1 scratch) (snd (directory_sidecar df data s)), d)"
    using save_checkpoint(1) [where write_sidecar = "directory_sidecar df", OF assms(1) directory_accepts assms(2,3) sidecar] by blast
  then show ?thesis
    using stored_layers_on_disk [OF _ assms(4), of df "snd (directory_sidecar df data s)"]
    by (auto simp: SavePersistentModelSnapshotToDirectory_def)
qed

lemma checkpoint_answer_needs_save_session_witness:
  "\<exists>s'. SavePersistentModelSnapshotToDirectory sample_system (no_faults\<lparr> df_rename := \<lambda>_. True \<rparr>) 7 sample_domain sample_directory =
    Some (True, s', sample_domain)"
proof -
  have files: "ds_files sample_directory = [([], Directory)]" by (simp add: sample_directory_def empty_files_def)
  show ?thesis
    using checkpoint_answer_needs_save_session [OF sample_saves_maps sample_checkpoint sample_checkpoint_fits,
        of sample_directory "no_faults\<lparr> df_rename := \<lambda>_. True \<rparr>"]
    by (auto simp: files sample_checkpoint_layers layer_query_def sidecar_path_def no_faults_def)
qed

text \<open>The sidecar is not replaced atomically: when its write fails within the first four bytes, the save answers
  false, and the next load of the model does not answer that there is no sidecar but runs into the assertion
  of the checkpoint loader.\<close>

theorem failed_sidecar_aborts_next_load:
  assumes "SavePersistentModelSnapshotToDirectory sys df root d s = Some (ok, s', d')"
    and "map_of (ds_files s) [] = Some Directory" "map_of (ds_files s) sidecar_path \<noteq> Some Directory"
    and "\<not> df_open_write df sidecar_path" "df_write df sidecar_path = Some k" "k < 4"
  shows "\<not> ok \<and> TryLoadPersistedModelFromStorageSidecar receiver no_faults root s' u = None"
proof -
  have fail: "directory_sidecar df data s = (False, s\<lparr> ds_files := fs_put sidecar_path (RegularFile (take k data)) (ds_files s) \<rparr>)" for data
    using assms(2-5) by (simp add: directory_sidecar_def WritePersistentModelCheckpointSidecar_def)
  obtain data where s': "\<not> ok" "s' = s\<lparr> ds_files := fs_put sidecar_path (RegularFile (take k data)) (ds_files s) \<rparr>"
    using assms(1) by (auto simp: SavePersistentModelSnapshotToDirectory_def SavePersistentModelSnapshotToStorageImpl_def fail
        split: Option.bind_splits)
  have "\<not> src_ok (snd (read_u32 (byte_source (take k data))))"
    using assms(6) by (simp add: read_u32_def ByteSource_read_def byte_source_def)
  then have "LoadPersistentModelSnapshot receiver ops (byte_source (take k data)) root t u = None" for ops t
    by (simp add: LoadPersistentModelSnapshot_def case_prod_beta)
  then show ?thesis
    using s' by (simp add: TryLoadPersistedModelFromStorageSidecar_def) (simp add: no_faults_def)
qed

lemma failed_sidecar_aborts_next_load_witness:
  "\<exists>s'. SavePersistentModelSnapshotToDirectory sample_system (no_faults\<lparr> df_write := \<lambda>_. Some 0 \<rparr>) 7 sample_domain sample_directory =
      Some (False, s', sample_domain) \<and>
    TryLoadPersistedModelFromStorageSidecar sample_system no_faults 7 s' Map.empty = None"
proof -
  let ?df = "no_faults\<lparr> df_write := \<lambda>_. Some 0 \<rparr>"
  have files: "ds_files sample_directory = [([], Directory)]" by (simp add: sample_directory_def empty_files_def)
  have fail: "directory_sidecar ?df data sample_directory = (False, sample_directory\<lparr> ds_files := fs_put sidecar_path (RegularFile []) [([], Directory)] \<rparr>)"
    for data by (simp add: directory_sidecar_def WritePersistentModelCheckpointSidecar_def files sidecar_path_def no_faults_def)
  have run: "SavePersistentModelSnapshotToDirectory sample_system ?df 7 sample_domain sample_directory =
      Some (False, sample_directory\<lparr> ds_files := fs_put sidecar_path (RegularFile []) [([], Directory)] \<rparr>, sample_domain)"
    using checkpoint_parts_restore [OF sample_saves_maps sample_checkpoint]
    by (simp add: SavePersistentModelSnapshotToDirectory_def SavePersistentModelSnapshotToStorageImpl_def fail
        SerializePersistentModelSnapshot_def sample_checkpoint)
  show ?thesis
    using failed_sidecar_aborts_next_load [OF run, of 0] run
    by (auto simp: files sidecar_path_def no_faults_def)
qed

end
