(* ===== verification/UiMirrorProperties.thy ===== *)
theory UiMirrorProperties
  imports UiMirror PublicationProperties
begin

text \<open>
  A batch that Publish put into a channel is read back record by record and applied, each record once, whatever
  part of it the GUI domain knows already; the root of the presentation comes first when it is known.
\<close>

section \<open>The bytes of a batch\<close>

definition fragment_bytes :: "layer list \<times> (obj_id \<times> u64) list \<Rightarrow> bytes" where
  "fragment_bytes f = counted layer_record (fst f) @ counted generation_record (snd f)"

definition fragment_of :: "('x, 'e, 's) object_system \<Rightarrow> ('x, 'e) domain \<Rightarrow> obj_id \<Rightarrow> layer list \<times> (obj_id \<times> u64) list" where
  "fragment_of sys d i = the (fragment sys i d)"

definition generation_of :: "('x, 'e) domain \<Rightarrow> obj_id \<Rightarrow> u64" where
  "generation_of d i = (case d i of Some ob \<Rightarrow> lo_generation ob | None \<Rightarrow> 0)"

text \<open>A live node whose fragment has sizes that fit their 32-bit fields.\<close>

definition publishable :: "('x, 'e, 's) object_system \<Rightarrow> ('x, 'e) domain \<Rightarrow> obj_id \<Rightarrow> bool" where
  "publishable sys d i \<longleftrightarrow> d i \<noteq> None \<and> fragment sys i d \<noteq> None \<and> fragment_fits (fragment_of sys d i) \<and>
     length (fragment_bytes (fragment_of sys d i)) < 2 ^ 32"

definition batch_bytes :: "('x, 'e, 's) object_system \<Rightarrow> ('x, 'e) domain \<Rightarrow> obj_id list \<Rightarrow> bytes" where
  "batch_bytes sys d ids = concat (map (\<lambda>i. envelope i (generation_of d i) (fragment_bytes (fragment_of sys d i))) ids)"

definition batch_record :: "('x, 'e, 's) object_system \<Rightarrow> ('x, 'e) domain \<Rightarrow> obj_id \<Rightarrow> published_record" where
  "batch_record sys d i = \<lparr> pb_id = i, pb_generation = generation_of d i,
     pb_payload = byte_source (fragment_bytes (fragment_of sys d i)), pb_applied = False \<rparr>"

lemma write_all_published_batch:
  "\<forall>i\<in>set ids. publishable sys d i \<Longrightarrow> write_all_published sys d ids out = Some (out @ batch_bytes sys d ids)"
proof (induction ids arbitrary: out)
  case (Cons i ids)
  then obtain node f where "d i = Some node" "fragment sys i d = Some f" by (auto simp: publishable_def)
  then have "write_published sys d i out =
      Some (out @ envelope i (generation_of d i) (fragment_bytes (fragment_of sys d i)))"
    by (simp add: write_published_def SerializeObjectGraphToBuffer_fragment generation_of_def fragment_of_def fragment_bytes_def)
  then show ?case using Cons by (simp add: batch_bytes_def)
qed (simp add: batch_bytes_def)

lemma read_envelope_before:
  assumes "before (envelope i g payload @ b) rest src" "length payload < 2 ^ 32"
  shows "\<exists>src'. read_envelope src = Some (i, g, byte_source payload, src') \<and> before b rest src'"
proof -
  have "before (le_u32 i @ (le_u64 g @ le_u32 (of_nat (length payload)) @ payload @ b)) rest src"
    using assms(1) by (simp add: envelope_def)
  note r1 = read_u32_before [OF this]
  note r2 = read_u64_before [OF conjunct2 [OF r1]]
  note r3 = read_u32_before [OF conjunct2 [OF r2]]
  have n: "unat (of_nat (length payload) :: u32) = length payload" using assms(2) by (simp add: unat_count)
  let ?src = "advance 4 (advance 8 (advance 4 src))"
  have at: "before (payload @ b) rest ?src" using r3 by simp
  have room: "src_ok ?src" "src_pos ?src + length payload \<le> length (src_data ?src)"
    using at before_length [OF at] by (simp_all add: before_def)
  have data: "take (length payload) (drop (src_pos ?src) (src_data ?src)) = payload"
    using at by (simp add: before_def)
  have "read_envelope src = Some (i, g, byte_source payload, advance (length payload) ?src)"
    using r1 r2 r3 room data by (simp add: read_envelope_def n advance_def)
  then show ?thesis using before_advance [OF at] by blast
qed

lemma read_published_batch:
  "before (batch_bytes sys d ids) rest src \<Longrightarrow> \<forall>i\<in>set ids. publishable sys d i \<Longrightarrow>
   read_published (length ids) src = Some (map (batch_record sys d) ids)"
proof (induction ids arbitrary: src)
  case (Cons i ids)
  have "before (envelope i (generation_of d i) (fragment_bytes (fragment_of sys d i)) @ batch_bytes sys d ids) rest src"
    using Cons.prems(1) by (simp add: batch_bytes_def)
  moreover have "length (fragment_bytes (fragment_of sys d i)) < 2 ^ 32" using Cons.prems(2) by (simp add: publishable_def)
  ultimately obtain src' where "read_envelope src = Some (i, generation_of d i, byte_source (fragment_bytes (fragment_of sys d i)), src')"
    "before (batch_bytes sys d ids) rest src'"
    using read_envelope_before by blast
  then show ?case using Cons by (simp add: batch_record_def)
qed simp

section \<open>The class of a shell\<close>

definition shell_scan :: "class_id \<Rightarrow> obj_id \<Rightarrow> layer \<Rightarrow> class_id \<times> class_id \<Rightarrow> class_id \<times> class_id" where
  "shell_scan nc want l p = (if fst l \<noteq> want then p
     else (if fst p = 0 then fst (snd l) else fst p, if fst (snd l) \<noteq> nc then fst (snd l) else snd p))"

lemma preferred_scan_written:
  "before (concat (map layer_record ls) @ b) rest src \<Longrightarrow> \<forall>l\<in>set ls. layer_fits l \<Longrightarrow>
   preferred_scan nc want (length ls) src p = fold (shell_scan nc want) ls p"
proof (induction ls arbitrary: src p)
  case Nil
  show ?case by (cases p) simp
next
  case (Cons l ls)
  obtain i c v data where l: "l = (i, c, v, data)" by (cases l)
  let ?b = "concat (map layer_record ls) @ b"
  have at: "before (layer_record (i, c, v, data) @ ?b) rest src" using Cons.prems(1) l by simp
  note h = read_layer_header_before [OF at]
  have size: "unat (of_nat (length data) :: u32) = length data"
    using Cons.prems(2) l by (simp add: layer_fits_def unat_word_of_nat_32)
  have room: "src_pos src + 13 + length data \<le> length (src_data src)"
    using before_length [OF h(2)] by simp
  have ok: "src_ok src" using at by (simp add: before_def)
  have next_at: "before ?b rest (advance (length data) (advance 13 src))"
    by (rule before_advance [OF h(2)])
  obtain f e where p: "p = (f, e)" by (cases p)
  have "preferred_scan nc want (length (l # ls)) src p =
      preferred_scan nc want (length ls) (advance (length data) (advance 13 src)) (shell_scan nc want l p)"
    using room ok by (simp add: h(1) size l p shell_scan_def advance_def add.assoc)
  then show ?case using Cons.IH [OF next_at] Cons.prems(2) by simp
qed

text \<open>An object with a layer, whose layers have classes that are registered.\<close>

definition shell_known :: "aether \<Rightarrow> layer list \<Rightarrow> obj_id \<Rightarrow> bool" where
  "shell_known ae ls i \<longleftrightarrow> (\<exists>l\<in>set ls. fst l = i) \<and> (\<forall>l\<in>set ls. fst l = i \<longrightarrow> fst (snd l) \<noteq> 0 \<and> ae_factory ae (fst (snd l)))"

lemma shell_scan_range:
  assumes "\<forall>l\<in>set ls. fst l = want \<longrightarrow> fst (snd l) \<noteq> 0 \<and> P (fst (snd l))" "fst p = 0 \<or> P (fst p)" "snd p = 0 \<or> P (snd p)"
  shows "(fst (fold (shell_scan nc want) ls p) = 0 \<or> P (fst (fold (shell_scan nc want) ls p))) \<and>
    (snd (fold (shell_scan nc want) ls p) = 0 \<or> P (snd (fold (shell_scan nc want) ls p))) \<and>
    ((\<exists>l\<in>set ls. fst l = want) \<or> fst p \<noteq> 0 \<longrightarrow> fst (fold (shell_scan nc want) ls p) \<noteq> 0)"
  using assms
proof (induction ls arbitrary: p)
  case (Cons l ls)
  let ?q = "shell_scan nc want l p"
  have "fst ?q = 0 \<or> P (fst ?q)" "snd ?q = 0 \<or> P (snd ?q)" "fst l = want \<or> fst p \<noteq> 0 \<longrightarrow> fst ?q \<noteq> 0"
    using Cons.prems by (auto simp: shell_scan_def)
  then show ?case using Cons.IH [of ?q] Cons.prems(1) by auto
qed simp

lemma CreateUiShell_published:
  assumes "publishable sys d i" "shell_known ae (fst (fragment_of sys d i)) i"
  shows "\<exists>u'. CreateUiShell ae create i (PreferredClassIdFor nc (byte_source (fragment_bytes (fragment_of sys d i))) i) u = (True, u') \<and>
    u' i \<noteq> None \<and> (\<forall>j. u j \<noteq> None \<longrightarrow> u' j = u j)"
proof -
  let ?ls = "fst (fragment_of sys d i)" and ?src = "byte_source (fragment_bytes (fragment_of sys d i))"
  have "before (le_u32 (of_nat (length ?ls)) @ (concat (map layer_record ?ls) @ counted generation_record (snd (fragment_of sys d i)))) [] ?src"
    by (simp add: fragment_bytes_def counted_def byte_source_def before_def)
  note r = read_u32_before [OF this]
  have fits: "\<forall>l\<in>set ?ls. layer_fits l" "unat (of_nat (length ?ls) :: u32) = length ?ls"
    using assms(1) by (simp_all add: publishable_def fragment_fits_def unat_count)
  obtain f e where p: "fold (shell_scan nc i) ?ls (0, 0) = (f, e)" by fastforce
  have c: "PreferredClassIdFor nc ?src i = (if e \<noteq> 0 then e else f)"
    using r fits preferred_scan_written [OF conjunct2 [OF r] fits(1), of nc i "(0, 0)"] p
    by (simp add: PreferredClassIdFor_def)
  have "(f = 0 \<or> ae_factory ae f) \<and> (e = 0 \<or> ae_factory ae e) \<and> f \<noteq> 0"
    using shell_scan_range [of ?ls i "ae_factory ae" "(0, 0)" nc] assms(2) by (auto simp: p shell_known_def)
  then show ?thesis by (auto simp: CreateUiShell_def c)
qed

section \<open>Applying records\<close>

text \<open>
  What a load does to the bookkeeping of nodes when every layer in the storage was published: generations are
  not among the saved fields, and published layers carry neither base nor journal.  Objects that are live stay live.
\<close>

definition loads_keep :: "('x, 'e, 's) object_system \<Rightarrow> bool" where
  "loads_keep sys \<longleftrightarrow> (\<forall>s i u j ob. u j = Some ob \<longrightarrow> (\<exists>ob'. snd (os_load sys s i u) j = Some ob' \<and>
     lo_class ob' = lo_class ob \<and> lo_generation ob' = lo_generation ob \<and>
     (lo_base ob = None \<longrightarrow> lo_base ob' = None) \<and> (lo_journal ob = [] \<longrightarrow> lo_journal ob' = [])))"

definition settled :: "aether \<Rightarrow> ('x, 'e) domain \<Rightarrow> ('x, 'e) domain \<Rightarrow> ('x, 'e) domain \<Rightarrow> bool" where
  "settled ae d u u' \<longleftrightarrow> (\<forall>j. u j \<noteq> None \<longrightarrow> u' j \<noteq> None \<and>
     (as_published ae u j (generation_of d j) \<longrightarrow> as_published ae u' j (generation_of d j)))"

lemma settled_refl [simp]: "settled ae d u u"
  by (simp add: settled_def)

lemma settled_trans: "settled ae d u v \<Longrightarrow> settled ae d v w \<Longrightarrow> settled ae d u w"
  unfolding settled_def by blast

lemma settled_load:
  assumes "loads_keep sys"
  shows "settled ae d u (LoadExistingObjectUnchecked sys s i u)"
proof -
  have "settled ae d u (snd (os_load sys s i u))"
    unfolding settled_def
  proof (intro allI impI)
    fix j
    assume "u j \<noteq> None"
    then obtain ob where ob: "u j = Some ob" by blast
    from assms [unfolded loads_keep_def, rule_format, of u j ob s i, OF ob]
    obtain ob' where "snd (os_load sys s i u) j = Some ob'" "lo_class ob' = lo_class ob" "lo_generation ob' = lo_generation ob"
      "lo_base ob = None \<longrightarrow> lo_base ob' = None" "lo_journal ob = [] \<longrightarrow> lo_journal ob' = []" by auto
    then show "snd (os_load sys s i u) j \<noteq> None \<and> (as_published ae u j (generation_of d j) \<longrightarrow>
        as_published ae (snd (os_load sys s i u)) j (generation_of d j))"
      using ob by (simp add: as_published_def find_node_def is_node_def)
  qed
  moreover obtain r u' where "os_load sys s i u = (r, u')" by fastforce
  ultimately show ?thesis
    by (cases "u i"; cases r) (simp_all add: LoadExistingObjectUnchecked_def LoadExistingObject_def)
qed

lemma settled_refresh: "loads_keep sys \<Longrightarrow> settled ae d u (refresh_objects sys s ids u)"
proof (induction ids arbitrary: u)
  case (Cons i ids)
  have "settled ae d u (if u i = None then u else LoadExistingObjectUnchecked sys s i u)"
    using settled_load [OF Cons.prems] by simp
  then show ?case using settled_trans Cons.IH [OF Cons.prems] by (metis refresh_objects.simps(2))
qed simp

lemma settled_finalize: "settled ae d u (finalize_found ae j (generation_of d j) u)"
  by (auto simp: settled_def as_published_def find_node_def finalize_found_simps split: option.splits if_splits)

lemma settled_finalize_all:
  "\<forall>(j, g)\<in>set gs. g = generation_of d j \<Longrightarrow> settled ae d u (fold (\<lambda>(j, g). finalize_found ae j g) gs u)"
proof (induction gs arbitrary: u)
  case (Cons x gs)
  then show ?case using settled_trans [OF settled_finalize [of ae d u "fst x"]] by (cases x) simp
qed simp

lemma fragment_generation_of:
  assumes "fragment sys i d = Some (ls, gs)"
  shows "\<forall>(j, g)\<in>set gs. g = generation_of d j"
proof -
  have "\<forall>(j, g)\<in>set (scratch_generations ae keep d scratch). g = generation_of d j" for ae keep scratch
    by (auto simp: scratch_generations_def map_filter_def find_node_def generation_of_def split: option.splits if_splits)
  moreover obtain ae keep scratch where "gs = scratch_generations ae keep d scratch"
    using assms by (auto simp: fragment_def Let_def split: Option.bind_splits)
  ultimately show ?thesis by simp
qed

text \<open>A run that applies the records of \<open>new\<close>, in this order.\<close>

definition advances ::
  "('x, 'e, 't) object_system \<Rightarrow> ('x, 'e, 's) object_system \<Rightarrow> 's storage_ops \<Rightarrow> ('x, 'e) domain \<Rightarrow> obj_id list \<Rightarrow>
   ('x, 'e, 's) ui_state \<Rightarrow> ('x, 'e, 's) ui_state \<Rightarrow> bool" where
  "advances sys receiver ops d new st st' \<longleftrightarrow>
     snd (snd st') = snd (snd st) @ new \<and>
     fst st' = fold (\<lambda>i. fold (store_layer ops) (fst (fragment_of sys d i))) new (fst st) \<and>
     (loads_keep receiver \<longrightarrow> settled (os_ae sys) d (fst (snd st)) (fst (snd st')) \<and>
        (\<forall>i\<in>set new. fst (snd st') i \<noteq> None \<and> as_published (os_ae sys) (fst (snd st')) i (generation_of d i)))"

lemma advances_nothing [simp]: "advances sys receiver ops d [] st st"
  by (simp add: advances_def)

lemma advances_append:
  "advances sys receiver ops d a st st1 \<Longrightarrow> advances sys receiver ops d b st1 st2 \<Longrightarrow> advances sys receiver ops d (a @ b) st st2"
  unfolding advances_def by (auto simp: settled_def)

lemma apply_existing_batch:
  assumes "publishable sys d i" "os_ae receiver = os_ae sys" "u i \<noteq> None"
  shows "\<exists>st'. apply_existing receiver ops (batch_record sys d i) (s, u, changed) =
      Some (True, (batch_record sys d i)\<lparr> pb_applied := True \<rparr>, st') \<and> advances sys receiver ops d [i] (s, u, changed) st'"
proof -
  obtain ls gs where f: "fragment sys i d = Some (ls, gs)" "fragment_of sys d i = (ls, gs)" "fragment_fits (ls, gs)"
    using assms(1) by (cases "the (fragment sys i d)") (auto simp: publishable_def fragment_of_def)
  have "before (counted layer_record ls @ counted generation_record gs @ []) [] (byte_source (fragment_bytes (ls, gs)))"
    by (simp add: fragment_bytes_def)
  from DeserializeObjectGraph_fragment [OF this f(3), of receiver ops i s u]
  obtain src' where run: "DeserializeObjectGraphFromBuffer receiver ops i (byte_source (fragment_bytes (ls, gs))) s u =
      Some (src', fold (store_layer ops) ls s, fold (\<lambda>(i, g). finalize_found (os_ae sys) i g) gs
        (refresh_objects receiver (fold (store_layer ops) ls s) (fold (\<lambda>l ids. note_id (fst l) ids) ls [])
          (LoadExistingObjectUnchecked receiver (fold (store_layer ops) ls s) i u)))" (is "_ = Some (src', ?s, ?u)")
    using assms(2) by auto
  have final: "FinalizeUiNodeState (os_ae sys) i g v = finalize_found (os_ae sys) i g v" for g v
    by (simp add: finalize_found_def FinalizeUiNodeState_def find_node_def)
  let ?u' = "finalize_found (os_ae sys) i (generation_of d i) ?u"
  have "settled (os_ae sys) d u ?u'" if keep: "loads_keep receiver"
  proof (rule settled_trans)
    show "settled (os_ae sys) d u (refresh_objects receiver ?s (fold (\<lambda>l ids. note_id (fst l) ids) ls [])
          (LoadExistingObjectUnchecked receiver ?s i u))"
      by (rule settled_trans [OF settled_load [OF keep] settled_refresh [OF keep]])
    show "settled (os_ae sys) d (refresh_objects receiver ?s (fold (\<lambda>l ids. note_id (fst l) ids) ls [])
          (LoadExistingObjectUnchecked receiver ?s i u)) ?u'"
      by (rule settled_trans [OF settled_finalize_all [OF fragment_generation_of [OF f(1)]] settled_finalize])
  qed
  moreover have "?u' i \<noteq> None" if "loads_keep receiver"
    using calculation [OF that] assms(3) unfolding settled_def by blast
  moreover have "as_published (os_ae sys) ?u' i (generation_of d i)" by (rule finalize_found_published)
  ultimately have "advances sys receiver ops d [i] (s, u, changed) (?s, ?u', changed @ [i])"
    by (simp add: advances_def f(2))
  then show ?thesis
    using assms(2,3) run by (simp add: apply_existing_def batch_record_def f(2) final)
qed

text \<open>The records of the nodes \<open>ids\<close>, some of them applied.\<close>

definition batch_records :: "('x, 'e, 's) object_system \<Rightarrow> ('x, 'e) domain \<Rightarrow> obj_id list \<Rightarrow> published_record list \<Rightarrow> bool" where
  "batch_records sys d ids recs \<longleftrightarrow>
     list_all2 (\<lambda>i rec. rec = (batch_record sys d i)\<lparr> pb_applied := pb_applied rec \<rparr>) ids recs"

definition left_ids :: "published_record list \<Rightarrow> obj_id list" where
  "left_ids recs = map pb_id (filter (\<lambda>rec. \<not> pb_applied rec) recs)"

lemma batch_records_Cons:
  "batch_records sys d ids (rec # recs) \<longleftrightarrow> (\<exists>i ids'. ids = i # ids' \<and>
     rec = (batch_record sys d i)\<lparr> pb_applied := pb_applied rec \<rparr> \<and> batch_records sys d ids' recs)"
  by (simp add: batch_records_def list_all2_Cons2)

lemma apply_pass_batch:
  assumes "batch_records sys d ids recs" "\<forall>i\<in>set ids. publishable sys d i" "os_ae receiver = os_ae sys"
  shows "\<exists>progress recs' st' new. apply_pass receiver ops only recs st = Some (progress, recs', st') \<and>
    batch_records sys d ids recs' \<and> advances sys receiver ops d new st st' \<and>
    mset (left_ids recs) = mset new + mset (left_ids recs') \<and> (\<forall>i\<in>set new. only i) \<and>
    ((\<exists>i\<in>set (left_ids recs). only i \<and> fst (snd st) i \<noteq> None) \<longrightarrow> new \<noteq> [])"
  using assms(1,2)
proof (induction recs arbitrary: ids st)
  case Nil
  then show ?case by (auto simp: left_ids_def intro!: exI [of _ "[]"])
next
  case (Cons rec recs)
  obtain i ids' where ids: "ids = i # ids'" and rec: "rec = (batch_record sys d i)\<lparr> pb_applied := pb_applied rec \<rparr>"
    and tail: "batch_records sys d ids' recs"
    using Cons.prems(1) unfolding batch_records_Cons by blast
  have pub: "publishable sys d i" "\<forall>i\<in>set ids'. publishable sys d i" using Cons.prems(2) ids by simp_all
  have id: "pb_id rec = i" by (subst rec) (simp add: batch_record_def)
  obtain s u changed where st: "st = (s, u, changed)" by (cases st)
  show ?case
  proof (cases "only i \<and> \<not> pb_applied rec \<and> u i \<noteq> None")
    case True
    then have whole: "rec = batch_record sys d i" using rec by (simp add: batch_record_def)
    then obtain st1 where st1: "apply_existing receiver ops rec st = Some (True, rec\<lparr> pb_applied := True \<rparr>, st1)"
      "advances sys receiver ops d [i] st st1"
      using apply_existing_batch [OF pub(1) assms(3)] True st by blast
    obtain progress recs' st' new where ih: "apply_pass receiver ops only recs st1 = Some (progress, recs', st')"
      "batch_records sys d ids' recs'" "advances sys receiver ops d new st1 st'"
      "mset (left_ids recs) = mset new + mset (left_ids recs')" "\<forall>i\<in>set new. only i"
      using Cons.IH [OF tail pub(2), of st1] by blast
    have "batch_records sys d ids (rec\<lparr> pb_applied := True \<rparr> # recs')"
      using ih(2) by (simp add: batch_records_Cons ids whole)
    moreover have "advances sys receiver ops d (i # new) st st'"
      using advances_append [OF st1(2) ih(3)] by simp
    moreover have "apply_pass receiver ops only (rec # recs) st = Some (True, rec\<lparr> pb_applied := True \<rparr> # recs', st')"
      using st1(1) ih(1) True id by simp
    moreover have "mset (left_ids (rec # recs)) = mset (i # new) + mset (left_ids (rec\<lparr> pb_applied := True \<rparr> # recs'))"
      using True ih(4) id by (simp add: left_ids_def)
    moreover have "\<forall>j\<in>set (i # new). only j" using ih(5) True by simp
    ultimately show ?thesis by blast
  next
    case False
    then have stay: "(if only (pb_id rec) then apply_existing receiver ops rec st else Some (False, rec, st)) = Some (False, rec, st)"
      using id st by (auto simp: apply_existing_def)
    obtain progress recs' st' new where ih: "apply_pass receiver ops only recs st = Some (progress, recs', st')"
      "batch_records sys d ids' recs'" "advances sys receiver ops d new st st'"
      "mset (left_ids recs) = mset new + mset (left_ids recs')" "\<forall>i\<in>set new. only i"
      "(\<exists>i\<in>set (left_ids recs). only i \<and> fst (snd st) i \<noteq> None) \<longrightarrow> new \<noteq> []"
      using Cons.IH [OF tail pub(2), of st] by blast
    have "batch_records sys d ids (rec # recs')"
      unfolding batch_records_Cons using ih(2) ids rec by blast
    moreover have "apply_pass receiver ops only (rec # recs) st = Some (progress, rec # recs', st')"
      using stay ih(1) by simp
    moreover have "mset (left_ids (rec # recs)) = mset new + mset (left_ids (rec # recs'))"
      using ih(4) by (simp add: left_ids_def)
    moreover have "(\<exists>i\<in>set (left_ids (rec # recs)). only i \<and> fst (snd st) i \<noteq> None) \<longrightarrow> new \<noteq> []"
      using ih(6) False id st by (auto simp: left_ids_def)
    ultimately show ?thesis using ih(3,5) by blast
  qed
qed

lemma apply_round_batch:
  assumes "batch_records sys d ids recs" "\<forall>i\<in>set ids. publishable sys d i" "os_ae receiver = os_ae sys"
  shows "\<exists>progress recs' st' new. apply_round receiver ops root recs st = Some (progress, recs', st') \<and>
    batch_records sys d ids recs' \<and> advances sys receiver ops d new st st' \<and>
    mset (left_ids recs) = mset new + mset (left_ids recs') \<and>
    (root \<in> set (left_ids recs) \<and> fst (snd st) root \<noteq> None \<longrightarrow> (\<exists>rest. new = root # rest))"
proof -
  obtain p1 recs1 st1 new1 where 1: "apply_pass receiver ops (\<lambda>i. i = root) recs st = Some (p1, recs1, st1)"
    "batch_records sys d ids recs1" "advances sys receiver ops d new1 st st1"
    "mset (left_ids recs) = mset new1 + mset (left_ids recs1)" "\<forall>i\<in>set new1. i = root"
    "(\<exists>i\<in>set (left_ids recs). i = root \<and> fst (snd st) i \<noteq> None) \<longrightarrow> new1 \<noteq> []"
    using apply_pass_batch [OF assms, of ops "\<lambda>i. i = root" st] by blast
  obtain p2 recs2 st2 new2 where 2: "apply_pass receiver ops (\<lambda>_. True) recs1 st1 = Some (p2, recs2, st2)"
    "batch_records sys d ids recs2" "advances sys receiver ops d new2 st1 st2"
    "mset (left_ids recs1) = mset new2 + mset (left_ids recs2)"
    using apply_pass_batch [OF 1(2) assms(2,3), of ops "\<lambda>_. True" st1] by blast
  have "apply_round receiver ops root recs st = Some (p1 \<or> p2, recs2, st2)"
    by (simp add: apply_round_def 1(1) 2(1))
  moreover have "advances sys receiver ops d (new1 @ new2) st st2" by (rule advances_append [OF 1(3) 2(3)])
  moreover have "\<exists>rest. new1 @ new2 = root # rest" if "root \<in> set (left_ids recs)" "fst (snd st) root \<noteq> None"
    using 1(5,6) that by (cases new1) auto
  ultimately show ?thesis using 1(4) 2(2,4) by (metis mset_append union_assoc)
qed

lemma apply_rounds_batch:
  assumes "batch_records sys d ids recs" "\<forall>i\<in>set ids. publishable sys d i" "os_ae receiver = os_ae sys"
  shows "\<exists>recs' st' new. apply_rounds receiver ops root recs st = Some (recs', st') \<and>
    batch_records sys d ids recs' \<and> advances sys receiver ops d new st st' \<and>
    mset (left_ids recs) = mset new + mset (left_ids recs') \<and>
    (root \<in> set (left_ids recs) \<and> fst (snd st) root \<noteq> None \<longrightarrow> (\<exists>rest. new = root # rest))"
  using assms
proof (induction receiver ops root recs st rule: apply_rounds.induct)
  case (1 receiver ops root recs st)
  obtain progress recs1 st1 new1 where round: "apply_round receiver ops root recs st = Some (progress, recs1, st1)"
    "batch_records sys d ids recs1" "advances sys receiver ops d new1 st st1"
    "mset (left_ids recs) = mset new1 + mset (left_ids recs1)"
    "root \<in> set (left_ids recs) \<and> fst (snd st) root \<noteq> None \<longrightarrow> (\<exists>rest. new1 = root # rest)"
    using apply_round_batch [OF 1(2-4), of ops root st] by blast
  show ?case
  proof (cases progress)
    case False
    then have "apply_rounds receiver ops root recs st = Some (recs1, st1)"
      by (simp add: apply_rounds.simps [of receiver ops root recs st] round(1))
    then show ?thesis using round by blast
  next
    case True
    then have run: "apply_rounds receiver ops root recs st = apply_rounds receiver ops root recs1 st1"
      by (simp add: apply_rounds.simps [of receiver ops root recs st] round(1))
    obtain recs2 st2 new2 where rest: "apply_rounds receiver ops root recs1 st1 = Some (recs2, st2)"
      "batch_records sys d ids recs2" "advances sys receiver ops d new2 st1 st2"
      "mset (left_ids recs1) = mset new2 + mset (left_ids recs2)"
      using 1(1) [OF round(1) refl refl True round(2) 1(3,4)] by blast
    have "advances sys receiver ops d (new1 @ new2) st st2" by (rule advances_append [OF round(3) rest(3)])
    moreover have "mset (left_ids recs) = mset (new1 @ new2) + mset (left_ids recs2)" using round(4) rest(4) by simp
    moreover have "root \<in> set (left_ids recs) \<and> fst (snd st) root \<noteq> None \<longrightarrow> (\<exists>rest. new1 @ new2 = root # rest)"
      using round(5) by auto
    moreover have "apply_rounds receiver ops root recs st = Some (recs2, st2)" using run rest(1) by (rule trans)
    ultimately show ?thesis using rest(2) by blast
  qed
qed

lemma advances_shell:
  assumes "\<forall>j. u j \<noteq> None \<longrightarrow> u' j = u j"
  shows "advances sys receiver ops d [] (s, u, changed) (s, u', changed)"
proof -
  have "settled (os_ae sys) d u u'"
    unfolding settled_def
  proof (intro allI impI)
    fix j
    assume "u j \<noteq> None"
    then have same: "u' j = u j" using assms by blast
    then show "u' j \<noteq> None \<and> (as_published (os_ae sys) u j (generation_of d j) \<longrightarrow> as_published (os_ae sys) u' j (generation_of d j))"
      using \<open>u j \<noteq> None\<close> same by (simp add: as_published_def find_node_def)
  qed
  then show ?thesis by (simp add: advances_def)
qed

lemma apply_created_batch:
  assumes "batch_records sys d ids recs" "\<forall>i\<in>set ids. publishable sys d i \<and> shell_known (os_ae sys) (fst (fragment_of sys d i)) i"
    and "os_ae receiver = os_ae sys"
  shows "\<exists>st'. apply_created receiver ops create recs st = Some st' \<and> advances sys receiver ops d (left_ids recs) st st'"
  using assms(1,2)
proof (induction recs arbitrary: ids st)
  case Nil
  then show ?case by (simp add: left_ids_def)
next
  case (Cons rec recs)
  obtain i ids' where ids: "ids = i # ids'" and rec: "rec = (batch_record sys d i)\<lparr> pb_applied := pb_applied rec \<rparr>"
    and tail: "batch_records sys d ids' recs"
    using Cons.prems(1) unfolding batch_records_Cons by blast
  have ids': "\<forall>i\<in>set ids'. publishable sys d i \<and> shell_known (os_ae sys) (fst (fragment_of sys d i)) i"
    and pub: "publishable sys d i" "shell_known (os_ae sys) (fst (fragment_of sys d i)) i" using Cons.prems(2) ids by simp_all
  show ?case
  proof (cases "pb_applied rec")
    case True
    then show ?thesis using Cons.IH [OF tail ids', of st] by (simp add: left_ids_def)
  next
    case False
    then have whole: "rec = batch_record sys d i" using rec by (simp add: batch_record_def)
    obtain s u changed where st: "st = (s, u, changed)" by (cases st)
    obtain u1 where u1: "CreateUiShell (os_ae receiver) create i
        (PreferredClassIdFor (ae_node_class (os_ae receiver)) (byte_source (fragment_bytes (fragment_of sys d i))) i) u = (True, u1)"
      "u1 i \<noteq> None" "\<forall>j. u j \<noteq> None \<longrightarrow> u1 j = u j"
      using CreateUiShell_published [OF pub] assms(3) by metis
    obtain st2 where st2: "apply_existing receiver ops (batch_record sys d i) (s, u1, changed) =
        Some (True, (batch_record sys d i)\<lparr> pb_applied := True \<rparr>, st2)" "advances sys receiver ops d [i] (s, u1, changed) st2"
      using apply_existing_batch [where u = u1, OF pub(1) assms(3) u1(2)] by blast
    obtain st3 where st3: "apply_created receiver ops create recs st2 = Some st3" "advances sys receiver ops d (left_ids recs) st2 st3"
      using Cons.IH [OF tail ids', of st2] by blast
    have fields: "pb_id (batch_record sys d i) = i" "\<not> pb_applied (batch_record sys d i)"
      "pb_payload (batch_record sys d i) = byte_source (fragment_bytes (fragment_of sys d i))"
      by (simp_all add: batch_record_def)
    have "apply_created receiver ops create (rec # recs) st = Some st3"
      using u1(1) st2(1) st3(1) by (simp add: whole st fields)
    moreover have "advances sys receiver ops d ([] @ [i] @ left_ids recs) st st3"
      unfolding st by (rule advances_append [OF advances_shell [OF u1(3)] advances_append [OF st2(2) st3(2)]])
    moreover have "left_ids (rec # recs) = i # left_ids recs" using False fields by (simp add: left_ids_def whole)
    ultimately show ?thesis by simp
  qed
qed

section \<open>From Publish to ApplyPublished\<close>

lemma Publish_channel:
  assumes "Publish sys d root changed m = Some (True, m')" "changed \<noteq> []" "\<forall>i\<in>set changed. publishable sys d i"
  shows "\<exists>ch slot. ui_channels m' root = Some ch \<and> published ch = int slot \<and>
    buffers ch ! slot = le_u32 (of_nat (length changed)) @ batch_bytes sys d changed"
proof -
  obtain ch m1 where for_root: "ChannelFor root m = (ch, m1)" by fastforce
  then have free: "\<not> has_unread_published ch" using assms(1,2) by (auto simp: Publish_def)
  then obtain slot ch1 where acq: "AcquireProducer ch = Some (slot, ch1)"
    using assms(1,2) for_root by (cases "AcquireProducer ch") (auto simp: Publish_def)
  then have slot: "slot < length (buffers ch)" "ch1 = claim_slot slot ch"
    by (auto simp: AcquireProducer_def dest: free_slotD split: option.splits)
  have empty: "buffers ch1 ! slot = []" using slot by (simp add: claim_slot_def ByteSink_clear_def)
  let ?sink = "le_u32 (of_nat (length changed)) @ batch_bytes sys d changed"
  let ?ch2 = "NotePublished (ch1\<lparr> buffers := (buffers ch1)[slot := ?sink] \<rparr>)"
  have "write_all_published sys d changed (ByteSink_write [] (le_u32 (of_nat (length changed)))) = Some ?sink"
    using write_all_published_batch [OF assms(3)] by (simp add: ByteSink_write_def)
  then obtain ch3 where "PublishProducer ?ch2 = Some ch3" "m' = (set_channel root ch3 m1)\<lparr> ui_notified := ui_notified m1 @ [root] \<rparr>"
    using assms(1,2) for_root free acq empty
    by (cases "PublishProducer ?ch2") (auto simp: Publish_def set_channel_def Let_def)
  then show ?thesis
    using slot by (auto simp: set_channel_def PublishProducer_def NotePublished_def claim_slot_def split: if_splits)
qed

lemma batch_applied:
  assumes "os_ae receiver = os_ae sys" "changed \<noteq> []" "length changed < 2 ^ 32"
    and "\<forall>i\<in>set changed. publishable sys d i \<and> shell_known (os_ae sys) (fst (fragment_of sys d i)) i"
    and "Publish sys d root changed m = Some (True, m')" "ui_channels m' root = Some ch" "in_ui ch = -1"
  shows "\<exists>ids ch' s' u'. ApplyPublished receiver ops create root ch s u = Some (ids, ch', s', u') \<and>
    advances sys receiver ops d ids (s, u, []) (s', u', ids) \<and> mset ids = mset changed \<and> \<not> is_publication_busy ch' \<and>
    (root \<in> set changed \<and> u root \<noteq> None \<longrightarrow> hd ids = root)"
proof -
  have pub: "\<forall>i\<in>set changed. publishable sys d i" using assms(4) by blast
  let ?bytes = "le_u32 (of_nat (length changed)) @ batch_bytes sys d changed"
  obtain slot where slot: "published ch = int slot" "buffers ch ! slot = ?bytes"
    using Publish_channel [OF assms(5,2) pub] assms(6) by auto
  define ch' where "ch' = ch\<lparr> in_ui := int slot, published := -1 \<rparr>"
  have take: "TakePublished ch = (Some slot, ch')" "buffers ch' ! slot = ?bytes"
    using slot assms(7) by (simp_all add: TakePublished_def ch'_def)
  have "before ?bytes [] (byte_source ?bytes)" by simp
  note r = read_u32_before [OF this]
  have n: "unat (of_nat (length changed) :: u32) = length changed" using assms(3) by (rule unat_count)
  note recs = read_published_batch [OF conjunct2 [OF r] pub]
  have ok: "src_ok (advance 4 (byte_source ?bytes))" using r by (simp add: before_def)
  have start: "batch_records sys d changed (map (batch_record sys d) changed)"
    "left_ids (map (batch_record sys d) changed) = changed"
    by (simp_all add: batch_records_def list_all2_map2 list_all2_same batch_record_def left_ids_def comp_def filter_map)
  obtain recs1 st1 new1 where 1: "apply_rounds receiver ops root (map (batch_record sys d) changed) (s, u, []) = Some (recs1, st1)"
    "batch_records sys d changed recs1" "advances sys receiver ops d new1 (s, u, []) st1"
    "mset (left_ids (map (batch_record sys d) changed)) = mset new1 + mset (left_ids recs1)"
    "root \<in> set (left_ids (map (batch_record sys d) changed)) \<and> fst (snd (s, u, [] :: obj_id list)) root \<noteq> None \<longrightarrow> (\<exists>rest. new1 = root # rest)"
    using apply_rounds_batch [OF start(1) pub assms(1), of ops root "(s, u, [])"] by blast
  obtain st2 where 2: "apply_created receiver ops create recs1 st1 = Some st2" "advances sys receiver ops d (left_ids recs1) st1 st2"
    using apply_created_batch [OF 1(2) assms(4,1)] by blast
  let ?ids = "new1 @ left_ids recs1"
  have adv: "advances sys receiver ops d ?ids (s, u, []) st2" by (rule advances_append [OF 1(3) 2(2)])
  then have st2: "st2 = (fst st2, fst (snd st2), ?ids)" by (simp add: advances_def prod_eq_iff)
  have "ApplyPublished receiver ops create root ch s u = Some (?ids, ReleaseConsumer ch', fst st2, fst (snd st2))"
    using take r ok n recs 1(1) 2(1) st2 by (cases st2) (simp add: ApplyPublished_def)
  moreover have "\<not> is_publication_busy (ReleaseConsumer ch')" by (simp add: is_publication_busy_def ReleaseConsumer_def ch'_def)
  moreover have "root \<in> set changed \<and> u root \<noteq> None \<longrightarrow> hd ?ids = root" using 1(5) start(2) by auto
  moreover have "mset ?ids = mset changed" using 1(4) start(2) by simp
  moreover have "advances sys receiver ops d ?ids (s, u, []) (fst st2, fst (snd st2), ?ids)" using adv st2 by simp
  ultimately show ?thesis by blast
qed


text \<open>The node of the sample domain, published to a GUI domain that does not know it.\<close>

lemma sample_publishable:
  "publishable sample_system sample_domain 7" "shell_known (os_ae sample_system) (fst (fragment_of sample_system sample_domain 7)) 7"
proof -
  have of: "fragment_of sample_system sample_domain 7 = ([(7, 3, 1, [7, 9])], [(7, 5)])"
    by (simp add: fragment_of_def sample_fragment)
  have live: "sample_domain 7 = Some sample_live_node" by (simp add: sample_domain_def)
  have factory: "ae_factory (os_ae sample_system) 3" by (simp add: sample_system_def sample_aether_def)
  show "publishable sample_system sample_domain 7" "shell_known (os_ae sample_system) (fst (fragment_of sample_system sample_domain 7)) 7"
    by (simp_all add: publishable_def shell_known_def of sample_fragment fragment_bytes_def counted_def layer_record_def record_pairs
        fragment_fits_def layer_fits_def live factory)
qed


end
