(* ===== verification/GraphMirror.thy ===== *)
theory GraphMirror
  imports Checkpoint UiMirrorProperties
begin

text \<open>
  The copy of a whole model graph into the GUI domain (src/src/graph_mirror.cpp): a shell for every reachable object, then
  the layers of each object loaded into its shell.  \<open>None\<close> is a failed assertion.  The domain of the GUI holds weak
  references: \<open>kept\<close> is what is left of it when only the root anchors the graph.
\<close>

section \<open>The copy\<close>

definition mirror_shell ::
  "aether \<Rightarrow> (class_id \<Rightarrow> ('x, 'e) live_object) \<Rightarrow> ('x, 'e) domain \<Rightarrow> obj_id \<Rightarrow> ('x, 'e) domain \<Rightarrow> ('x, 'e) domain option" where
  "mirror_shell ae create d i u = do {
     ob \<leftarrow> d i;
     if u i \<noteq> None then Some u
     else do {
       assert_that (ae_factory ae (lo_class ob));
       Some (u(i \<mapsto> create (lo_class ob))) } }"

fun mirror_shells ::
  "aether \<Rightarrow> (class_id \<Rightarrow> ('x, 'e) live_object) \<Rightarrow> ('x, 'e) domain \<Rightarrow> obj_id list \<Rightarrow> ('x, 'e) domain \<Rightarrow> ('x, 'e) domain option" where
  "mirror_shells ae create d [] u = Some u"
| "mirror_shells ae create d (i # ids) u = do {
     u \<leftarrow> mirror_shell ae create d i u;
     mirror_shells ae create d ids u }"

definition ObjectGeneration :: "aether \<Rightarrow> ('x, 'e) live_object \<Rightarrow> u64" where
  "ObjectGeneration ae ob = (if ae_distance ae (ae_node_class ae) (lo_class ob) < 0 then 1 else lo_generation ob)"

fun mirror_objects ::
  "('x, 'e, 't) object_system \<Rightarrow> ('x, 'e, 's) object_system \<Rightarrow> 's storage_ops \<Rightarrow> ('x, 'e) domain \<Rightarrow> obj_id list \<Rightarrow>
   's \<Rightarrow> ('x, 'e) domain \<Rightarrow> ('s \<times> ('x, 'e) domain) option" where
  "mirror_objects sys receiver ops d [] s u = Some (s, u)"
| "mirror_objects sys receiver ops d (i # ids) s u = do {
     ob \<leftarrow> d i;
     assert_that (u i \<noteq> None);
     scratch \<leftarrow> SerializeObjectToBuffer sys FullGraph i d [];
     (_, s, u) \<leftarrow> DeserializeObjectFromBuffer receiver ops i (byte_source scratch) s u;
     mirror_objects sys receiver ops d ids s (FinalizeUiNodeState (os_ae receiver) i (ObjectGeneration (os_ae sys) ob) u) }"

text \<open>\<open>d\<close> is the domain after EnsureCurrentGeneration of every reachable node.\<close>

definition CopyModelGraphToUiDomain ::
  "('x, 'e, 't) object_system \<Rightarrow> ('x, 'e, 's) object_system \<Rightarrow> 's storage_ops \<Rightarrow> (class_id \<Rightarrow> ('x, 'e) live_object) \<Rightarrow>
   (('x, 'e) domain \<Rightarrow> ('x, 'e) domain) \<Rightarrow> obj_id \<Rightarrow> ('x, 'e) domain \<Rightarrow> 's \<Rightarrow> ('x, 'e) domain \<Rightarrow> ('s \<times> ('x, 'e) domain) option" where
  "CopyModelGraphToUiDomain sys receiver ops create kept root d s u = do {
     objects \<leftarrow> CollectReachableObjects sys root d;
     u \<leftarrow> mirror_shells (os_ae sys) create d objects u;
     (s, u) \<leftarrow> mirror_objects sys receiver ops d objects s u;
     assert_that (u root \<noteq> None);
     let u = kept u in do {
     assert_that (u root \<noteq> None);
     Some (s, u) } }"

section \<open>The layers of one object\<close>

lemma read_saved_layer:
  assumes "before (saved_layer (c, v, data) @ b) rest src"
  shows "read_u32 src = (c, advance 4 src)" "read_u8 (advance 4 src) = (v, advance 5 src)"
    "read_u32 (advance 5 src) = (of_nat (length data), advance 9 src)" "before (data @ b) rest (advance 9 src)"
proof -
  from assms have 1: "before (le_u32 c @ (v # le_u32 (of_nat (length data)) @ data @ b)) rest src"
    by (simp add: saved_layer_def)
  note r1 = read_u32_before [OF 1]
  note r2 = read_u8_before [OF conjunct2 [OF r1]]
  note r3 = read_u32_before [OF conjunct2 [OF r2]]
  show "read_u32 src = (c, advance 4 src)" "read_u8 (advance 4 src) = (v, advance 5 src)"
    "read_u32 (advance 5 src) = (of_nat (length data), advance 9 src)" "before (data @ b) rest (advance 9 src)"
    using r1 r2 r3 by (simp_all add: advance_def add.commute)
qed

definition store_object_layer :: "'s storage_ops \<Rightarrow> obj_id \<Rightarrow> class_id \<times> u8 \<times> bytes \<Rightarrow> 's \<Rightarrow> 's" where
  "store_object_layer ops i l s = (case l of (c, v, data) \<Rightarrow> snd (so_store ops (i, c, v) data s))"

lemma inject_saved_layers:
  assumes "before (concat (map saved_layer ls)) [] src" "\<forall>(c, v, data)\<in>set ls. length data < 2 ^ 32"
  shows "\<exists>src'. InjectSavedObjectLayers ops i (length (src_data src)) src s = Some (src', fold (store_object_layer ops i) ls s)"
  using assms
proof (induction ls arbitrary: src s)
  case Nil
  then have "src_pos src = length (src_data src)" using before_length [of "[]" "[]" src] by simp
  then show ?case by (simp add: InjectSavedObjectLayers.simps [of ops i _ src s])
next
  case (Cons l ls)
  obtain c v data where l: "l = (c, v, data)" by (cases l)
  let ?b = "concat (map saved_layer ls)"
  have at: "before (saved_layer (c, v, data) @ ?b) [] src" using Cons.prems(1) l by simp
  note h = read_saved_layer [OF at]
  have size: "unat (of_nat (length data) :: u32) = length data" using Cons.prems(2) l by (simp add: unat_word_of_nat_32)
  have room: "src_pos src + 9 + length data + length ?b = length (src_data src)"
    using before_length [OF h(4)] by (simp add: advance_def)
  have data: "take (length data) (drop (src_pos src + 9) (src_data src)) = data"
    using h(4) by (simp add: before_def advance_def)
  have ok: "src_ok src" using at by (simp add: before_def)
  have next_at: "before ?b [] (advance (length data) (advance 9 src))" by (rule before_advance [OF h(4)])
  have "InjectSavedObjectLayers ops i (length (src_data src)) src s =
      InjectSavedObjectLayers ops i (length (src_data src)) (advance (length data) (advance 9 src)) (snd (so_store ops (i, c, v) data s))"
    using room data ok
    by (subst InjectSavedObjectLayers.simps) (simp add: h [unfolded advance_def] size Let_def advance_def)
  then show ?case using Cons.IH [OF next_at, of "snd (so_store ops (i, c, v) data s)"] Cons.prems(2)
    by (simp add: advance_def l store_object_layer_def)
qed

section \<open>The copy is complete\<close>

text \<open>An object whose class has a factory and whose saved layers have sizes that fit their 32-bit fields.\<close>

definition mirrorable :: "('x, 'e, 't) object_system \<Rightarrow> ('x, 'e) domain \<Rightarrow> obj_id \<Rightarrow> bool" where
  "mirrorable sys d i \<longleftrightarrow> (\<exists>ob ls. d i = Some ob \<and> ae_factory (os_ae sys) (lo_class ob) \<and>
     layers_of (os_save sys FullGraph i d []) i = Some ls \<and> (\<forall>(c, v, data)\<in>set (flat_layers ls). length data < 2 ^ 32))"

text \<open>The domain with the generation of every object as ObjectGeneration gives it.\<close>

definition mirrored_generations :: "aether \<Rightarrow> ('x, 'e) domain \<Rightarrow> ('x, 'e) domain" where
  "mirrored_generations ae d i = map_option (\<lambda>ob. ob\<lparr> lo_generation := ObjectGeneration ae ob \<rparr>) (d i)"

lemma finalize_is_found: "FinalizeUiNodeState ae i g u = finalize_found ae i g u"
  by (simp add: finalize_found_def FinalizeUiNodeState_def find_node_def)

lemma mirror_shells_run:
  assumes "\<forall>i\<in>set ids. mirrorable sys d i"
  shows "\<exists>u'. mirror_shells (os_ae sys) create d ids u = Some u' \<and> (\<forall>i\<in>set ids. u' i \<noteq> None) \<and> (\<forall>i. u i \<noteq> None \<longrightarrow> u' i = u i)"
  using assms
proof (induction ids arbitrary: u)
  case (Cons i ids)
  obtain ob where ob: "d i = Some ob" "ae_factory (os_ae sys) (lo_class ob)" using Cons.prems by (auto simp: mirrorable_def)
  obtain v where v: "mirror_shell (os_ae sys) create d i u = Some v" "v i \<noteq> None" "\<forall>j. u j \<noteq> None \<longrightarrow> v j = u j"
    using ob by (cases "u i") (auto simp: mirror_shell_def)
  obtain u' where "mirror_shells (os_ae sys) create d ids v = Some u'" "\<forall>i\<in>set ids. u' i \<noteq> None" "\<forall>i. v i \<noteq> None \<longrightarrow> u' i = v i"
    using Cons.IH [of v] Cons.prems by auto
  then show ?case using v by auto
qed simp

lemma mirror_object_settles:
  assumes "mirrorable sys d i" "u i \<noteq> None" "loads_keep receiver" "os_ae receiver = os_ae sys"
  shows "\<exists>s' u'. mirror_objects sys receiver ops d (i # ids) s u = mirror_objects sys receiver ops d ids s' u' \<and>
    settled (os_ae sys) (mirrored_generations (os_ae sys) d) u u' \<and>
    as_published (os_ae sys) u' i (generation_of (mirrored_generations (os_ae sys) d) i)"
proof -
  let ?ae = "os_ae sys" and ?m = "mirrored_generations (os_ae sys) d"
  obtain ob ls where ob: "d i = Some ob" "ae_factory ?ae (lo_class ob)" "layers_of (os_save sys FullGraph i d []) i = Some ls"
    "\<forall>(c, v, data)\<in>set (flat_layers ls). length data < 2 ^ 32"
    using assms(1) by (auto simp: mirrorable_def)
  let ?bs = "concat (map saved_layer (flat_layers ls))"
  have ser: "SerializeObjectToBuffer sys FullGraph i d [] = Some ?bs"
    by (simp add: SerializeObjectToBuffer_def SaveObjectGraphToScratch_def AppendSavedObjectLayers_def ob)
  obtain src' where inj: "InjectSavedObjectLayers ops i (length (src_data (byte_source ?bs))) (byte_source ?bs) s =
      Some (src', fold (store_object_layer ops i) (flat_layers ls) s)"
    using inject_saved_layers [OF before_source ob(4), of ops i s] by blast
  let ?s = "fold (store_object_layer ops i) (flat_layers ls) s"
  let ?v = "LoadExistingObjectUnchecked receiver ?s i u"
  have gen: "ObjectGeneration ?ae ob = generation_of ?m i" by (simp add: generation_of_def mirrored_generations_def ob(1))
  have "mirror_objects sys receiver ops d (i # ids) s u =
      mirror_objects sys receiver ops d ids ?s (finalize_found ?ae i (generation_of ?m i) ?v)"
    using assms(2,4) inj ser ob(1) by (simp add: DeserializeObjectFromBuffer_def finalize_is_found gen)
  moreover have "settled ?ae ?m u (finalize_found ?ae i (generation_of ?m i) ?v)"
    by (rule settled_trans [OF settled_load [OF assms(3)] settled_finalize])
  ultimately show ?thesis using finalize_found_published by blast
qed

lemma mirror_objects_run:
  assumes "\<forall>i\<in>set ids. mirrorable sys d i \<and> u i \<noteq> None" "loads_keep receiver" "os_ae receiver = os_ae sys"
  shows "\<exists>s' u'. mirror_objects sys receiver ops d ids s u = Some (s', u') \<and>
    settled (os_ae sys) (mirrored_generations (os_ae sys) d) u u' \<and>
    (\<forall>i\<in>set ids. as_published (os_ae sys) u' i (generation_of (mirrored_generations (os_ae sys) d) i))"
  using assms(1)
proof (induction ids arbitrary: s u)
  case (Cons i ids)
  let ?settled = "settled (os_ae sys) (mirrored_generations (os_ae sys) d)"
  have i: "mirrorable sys d i" "u i \<noteq> None" using Cons.prems by simp_all
  obtain s1 u1 where one: "mirror_objects sys receiver ops d (i # ids) s u = mirror_objects sys receiver ops d ids s1 u1"
      "?settled u u1" "as_published (os_ae sys) u1 i (generation_of (mirrored_generations (os_ae sys) d) i)"
    using mirror_object_settles [of sys d i u receiver ops ids s, OF i assms(2,3)] by blast
  have "u1 i \<noteq> None" and "\<forall>j\<in>set ids. mirrorable sys d j \<and> u1 j \<noteq> None"
    using one(2) Cons.prems by (auto simp: settled_def)
  then obtain s' u' where rest: "mirror_objects sys receiver ops d ids s1 u1 = Some (s', u')" "?settled u1 u'"
      "\<forall>i\<in>set ids. as_published (os_ae sys) u' i (generation_of (mirrored_generations (os_ae sys) d) i)"
    using Cons.IH [of u1 s1] by blast
  have "as_published (os_ae sys) u' i (generation_of (mirrored_generations (os_ae sys) d) i)"
    using rest(2) one(3) \<open>u1 i \<noteq> None\<close> unfolding settled_def by blast
  then show ?case using one(1) rest settled_trans [OF one(2) rest(2)] by auto
qed simp

text \<open>The copy of a graph whose objects can be saved meets no assertion; every reachable object is in the GUI domain, a
  node with the generation of the model's and without base and journal, as far as the references keep it alive.\<close>

lemma graph_copied_whole:
  assumes "CollectReachableObjects sys root d = Some objects" "root \<in> set objects" "\<forall>i\<in>set objects. mirrorable sys d i"
    and "loads_keep receiver" "os_ae receiver = os_ae sys" "\<And>u. kept u root = u root"
  shows "\<exists>s' u'. CopyModelGraphToUiDomain sys receiver ops create kept root d s u = Some (s', kept u') \<and>
    (\<forall>i\<in>set objects. u' i \<noteq> None \<and> (\<forall>ob. d i = Some ob \<longrightarrow> as_published (os_ae sys) u' i (ObjectGeneration (os_ae sys) ob)))"
proof -
  obtain v where v: "mirror_shells (os_ae sys) create d objects u = Some v" "\<forall>i\<in>set objects. v i \<noteq> None"
    using mirror_shells_run [OF assms(3)] by blast
  have "\<forall>i\<in>set objects. mirrorable sys d i \<and> v i \<noteq> None" using assms(3) v(2) by blast
  then obtain s' u' where run: "mirror_objects sys receiver ops d objects s v = Some (s', u')"
      "settled (os_ae sys) (mirrored_generations (os_ae sys) d) v u'"
      "\<forall>i\<in>set objects. as_published (os_ae sys) u' i (generation_of (mirrored_generations (os_ae sys) d) i)"
    using mirror_objects_run [OF _ assms(4,5)] by blast
  have there: "\<forall>i\<in>set objects. u' i \<noteq> None" using run(2) v(2) by (simp add: settled_def)
  then have "CopyModelGraphToUiDomain sys receiver ops create kept root d s u = Some (s', kept u')"
    using assms(2,6) v(1) run(1) by (simp add: CopyModelGraphToUiDomain_def assms(1) assert_that_def)
  moreover have "as_published (os_ae sys) u' i (ObjectGeneration (os_ae sys) ob)" if "i \<in> set objects" "d i = Some ob" for i ob
    using run(3) that by (force simp: generation_of_def mirrored_generations_def)
  ultimately show ?thesis using there by blast
qed

end
