(* ===== verification/MainWindowDemo.thy ===== *)
theory MainWindowDemo
  imports NodeCommits
begin

text \<open>
  The main window example (src/examples/main_window_runtime_demo): the node MainWindow with its outer rectangle
  (main_window_model.h, main_window_model.cpp), the model thread that takes the newest change of the native window
  (main_window_lifecycle.cpp) and the presenter that submits changes and follows the model (windows/win_presenters.cpp).
  One step is one critical section of \<open>mu\<close> with what its thread does behind it, or one message of the GUI thread.  The channel
  is what the session asks of it: whether a publication is unread, and its contents.  The presenter pointer of the node, which
  no event changes, is left out; a window gets the rectangle it is asked to have.
\<close>

section \<open>The model\<close>

record outer_rect =
  rect_x :: u32
  rect_y :: u32
  rect_width :: u32
  rect_height :: u32

datatype main_window_event = WindowChangedEvent outer_rect

fun MainWindow_Apply :: "main_window_event \<Rightarrow> outer_rect \<Rightarrow> (outer_rect \<times> nat) option" where
  "MainWindow_Apply (WindowChangedEvent r) s = Some (r, 1)"

type_synonym main_window_node = "(outer_rect, main_window_event, outer_rect) node"

definition MainWindow_ops :: "(outer_rect \<Rightarrow> outer_rect) \<Rightarrow> (outer_rect, main_window_event, outer_rect) node_ops" where
  "MainWindow_ops missing = lifecycle_ops (\<lambda>e s. True) MainWindow_Apply missing"

definition default_rect :: outer_rect where
  "default_rect = \<lparr> rect_x = 80, rect_y = 80, rect_width = 800, rect_height = 600 \<rparr>"

record window_command =
  cmd_sequence :: u64
  cmd_rect :: outer_rect

section \<open>The session\<close>

datatype main_pc =
    Main_wait
  | Main_apply window_command
  | Main_publish u64
  | Main_end

text \<open>The last four fields are the GUI's: the native window, the mirrored node and the two counters of the presenter.\<close>

record main_session =
  ms_stop :: bool
  ms_pending :: "window_command option"
  ms_window :: main_window_node
  ms_unread :: "(u64 \<times> outer_rect) option"
  ms_pc :: main_pc
  ms_native :: outer_rect
  ms_mirror :: outer_rect
  ms_submitted :: u64
  ms_acknowledged :: u64

definition Main_RequestStop :: "main_session \<Rightarrow> main_session" where
  "Main_RequestStop s = s\<lparr> ms_stop := True \<rparr>"

definition SubmitWindowChanged :: "window_command \<Rightarrow> main_session \<Rightarrow> main_session" where
  "SubmitWindowChanged c s = s\<lparr> ms_pending := Some c \<rparr>"

text \<open>WM_WINDOWPOSCHANGED: the native window has a new rectangle.\<close>

definition window_moved :: "outer_rect \<Rightarrow> main_session \<Rightarrow> main_session" where
  "window_moved r s =
     (let n = ms_submitted s + 1 in
      SubmitWindowChanged \<lparr> cmd_sequence = n, cmd_rect = r \<rparr> (s\<lparr> ms_native := r, ms_submitted := n \<rparr>))"

definition WindowChangePublicationIsCurrent :: "main_session \<Rightarrow> bool" where
  "WindowChangePublicationIsCurrent s \<longleftrightarrow> ms_acknowledged s \<ge> ms_submitted s"

text \<open>SetWindowPos moves the window, which is a change of it as well.\<close>

definition Main_OnModelChanged :: "main_session \<Rightarrow> main_session" where
  "Main_OnModelChanged s =
     (if \<not> WindowChangePublicationIsCurrent s then s
      else if ms_native s = ms_mirror s then s
      else window_moved (ms_mirror s) s)"

definition ApplyMainWindowIncremental :: "main_session \<Rightarrow> main_session option" where
  "ApplyMainWindowIncremental s = (case ms_unread s of
     None \<Rightarrow> None
   | Some (processed, r) \<Rightarrow> Some (Main_OnModelChanged (s\<lparr> ms_unread := None, ms_mirror := r, ms_acknowledged := processed \<rparr>)))"

text \<open>The model thread; \<open>None\<close> at \<open>Main_wait\<close> is a thread that waits, elsewhere a failed assertion.\<close>

definition take_command :: "main_session \<Rightarrow> main_session option" where
  "take_command s = (case ms_pending s of
     None \<Rightarrow> None
   | Some c \<Rightarrow> if ms_unread s = None then Some (s\<lparr> ms_pending := None, ms_pc := Main_apply c \<rparr>) else None)"

definition apply_command :: "(outer_rect \<Rightarrow> outer_rect) \<Rightarrow> commit_env \<Rightarrow> window_command \<Rightarrow> main_session \<Rightarrow> main_session option" where
  "apply_command missing cenv c s =
     (if materialized (ms_window s) = cmd_rect c then Some (s\<lparr> ms_pc := Main_publish (cmd_sequence c) \<rparr>)
      else do {
        n \<leftarrow> Commit (MainWindow_ops missing) cenv (WindowChangedEvent (cmd_rect c)) (ms_window s);
        Some (s\<lparr> ms_window := n, ms_pc := Main_publish (cmd_sequence c) \<rparr>) })"

definition PublishWindowChange :: "u64 \<Rightarrow> main_session \<Rightarrow> main_session" where
  "PublishWindowChange processed s = s\<lparr> ms_unread := Some (processed, materialized (ms_window s)), ms_pc := Main_wait \<rparr>"

definition main_step :: "(outer_rect \<Rightarrow> outer_rect) \<Rightarrow> commit_env \<Rightarrow> main_session \<Rightarrow> main_session option" where
  "main_step missing cenv s = (case ms_pc s of
     Main_wait \<Rightarrow>
       if ms_stop s then do {
         n \<leftarrow> CompactJournalInto (MainWindow_ops missing) (ce_now2 cenv) (ms_window s);
         Some (s\<lparr> ms_window := n, ms_pc := Main_end \<rparr>) }
       else take_command s
   | Main_apply c \<Rightarrow> apply_command missing cenv c s
   | Main_publish processed \<Rightarrow> Some (PublishWindowChange processed s)
   | Main_end \<Rightarrow> None)"

text \<open>Loaded, without history to keep, the initial publication applied and the native window created from it.\<close>

definition main_start :: "main_window_node \<Rightarrow> main_session" where
  "main_start n =
     (let n = SetJournalRetentionPolicy \<lparr> max_events = 0, max_age = None \<rparr> n; r = materialized n in
      \<lparr> ms_stop = False, ms_pending = None, ms_window = n, ms_unread = None, ms_pc = Main_wait, ms_native = r, ms_mirror = r,
        ms_submitted = 0, ms_acknowledged = 0 \<rparr>)"

inductive main_step_rel :: "(outer_rect \<Rightarrow> outer_rect) \<Rightarrow> main_session \<Rightarrow> main_session \<Rightarrow> bool" for missing where
  moved: "ms_submitted s \<noteq> -1 \<Longrightarrow> main_step_rel missing s (window_moved r s)"
| applied: "ApplyMainWindowIncremental s = Some s' \<Longrightarrow> main_step_rel missing s s'"
| request: "main_step_rel missing s (Main_RequestStop s)"
| model: "ce_now1 cenv \<noteq> 0 \<Longrightarrow> main_step missing cenv s = Some s' \<Longrightarrow> main_step_rel missing s s'"

text \<open>The runs with room in the journal and fewer changes than the counter can tell apart.\<close>

inductive main_reachable :: "(outer_rect \<Rightarrow> outer_rect) \<Rightarrow> main_session \<Rightarrow> bool" for missing where
  start: "node_inv (MainWindow_ops missing) id n \<Longrightarrow> \<not> suppress_materialized_change n \<Longrightarrow> main_reachable missing (main_start n)"
| step: "main_reachable missing s \<Longrightarrow> node_ready (MainWindow_ops missing) (ms_window s) \<Longrightarrow> main_step_rel missing s s' \<Longrightarrow>
    main_reachable missing s'"

section \<open>The newest change\<close>

definition newest :: "main_session \<Rightarrow> bool" where
  "newest s \<longleftrightarrow>
     (case ms_pending s of Some c \<Rightarrow> c = \<lparr> cmd_sequence = ms_submitted s, cmd_rect = ms_native s \<rparr>
      | None \<Rightarrow> (case ms_pc s of
          Main_apply c \<Rightarrow> c = \<lparr> cmd_sequence = ms_submitted s, cmd_rect = ms_native s \<rparr>
        | Main_publish n \<Rightarrow> n = ms_submitted s \<and> materialized (ms_window s) = ms_native s
        | _ \<Rightarrow> materialized (ms_window s) = ms_native s \<and>
            (if ms_unread s = None then ms_acknowledged s = ms_submitted s \<and> ms_mirror s = ms_native s
             else ms_unread s = Some (ms_submitted s, ms_native s))))"

text \<open>Older sequences are on their way only in front of newer ones.\<close>

definition older_before :: "main_session \<Rightarrow> bool" where
  "older_before s \<longleftrightarrow>
     (ms_pending s \<noteq> None \<longrightarrow> (\<forall>c. ms_pc s = Main_apply c \<longrightarrow> cmd_sequence c < ms_submitted s) \<and>
        (\<forall>n. ms_pc s = Main_publish n \<longrightarrow> n < ms_submitted s) \<and>
        (\<forall>n r. ms_unread s = Some (n, r) \<longrightarrow> n < ms_submitted s)) \<and>
     (ms_pc s \<notin> {Main_wait, Main_end} \<longrightarrow> ms_unread s = None)"

definition main_inv :: "(outer_rect \<Rightarrow> outer_rect) \<Rightarrow> main_session \<Rightarrow> bool" where
  "main_inv missing s \<longleftrightarrow> newest s \<and> older_before s \<and> node_inv (MainWindow_ops missing) id (ms_window s) \<and>
     \<not> suppress_materialized_change (ms_window s)"

lemmas main_inv_defs = main_inv_def newest_def older_before_def

lemma commit_keeps_static:
  assumes "Commit ops cenv e n = Some n'"
  shows "suppress_materialized_change n' = suppress_materialized_change n"
  using assms
  by (auto simp: Commit_def CommitInto_def InsertEvent_def assert_ok_def assert_that_def TryInsertEvent_alt Let_def static_part_def
      Option.bind_eq_Some_conv split: if_splits Option.bind_splits dest!: TryEnsure_keeps TryRebuild_keeps)

lemma window_moved_inv:
  assumes "main_inv missing s" "ms_submitted s \<noteq> -1"
  shows "main_inv missing (window_moved r s)"
proof -
  have less: "ms_submitted s < ms_submitted s + 1" using assms(2) by (rule word_less_Suc)
  show ?thesis using assms(1) less
    by (auto simp: main_inv_defs window_moved_def SubmitWindowChanged_def Let_def split: option.splits main_pc.splits)
qed

text \<open>What the GUI applies is either older than its window, and only mirrored, or what its window shows: it never moves it.\<close>

lemma incremental_never_moves:
  assumes "main_inv missing s" "ms_unread s = Some (n, r)"
  shows "ApplyMainWindowIncremental s = Some (s\<lparr> ms_unread := None, ms_mirror := r, ms_acknowledged := n \<rparr>)"
  using assms
  by (auto simp: main_inv_defs ApplyMainWindowIncremental_def Main_OnModelChanged_def WindowChangePublicationIsCurrent_def
      split: option.splits main_pc.splits)

lemma applied_inv:
  assumes "main_inv missing s" "ApplyMainWindowIncremental s = Some s'"
  shows "main_inv missing s'"
proof -
  obtain n r where u: "ms_unread s = Some (n, r)"
    using assms(2) by (auto simp: ApplyMainWindowIncremental_def split: option.splits)
  have "s' = s\<lparr> ms_unread := None, ms_mirror := r, ms_acknowledged := n \<rparr>"
    using incremental_never_moves [OF assms(1) u] assms(2) by simp
  then show ?thesis using assms(1) u by (auto simp: main_inv_defs split: option.splits main_pc.splits)
qed

lemma apply_command_runs:
  assumes "main_inv missing s" "node_ready (MainWindow_ops missing) (ms_window s)" "ce_now1 cenv \<noteq> 0"
  shows "\<exists>n. apply_command missing cenv c s = Some (s\<lparr> ms_window := n, ms_pc := Main_publish (cmd_sequence c) \<rparr>) \<and>
    materialized n = cmd_rect c \<and> node_inv (MainWindow_ops missing) id n \<and> \<not> suppress_materialized_change n"
proof (cases "materialized (ms_window s) = cmd_rect c")
  case True
  then show ?thesis using assms(1) by (intro exI [of _ "ms_window s"]) (simp add: apply_command_def main_inv_def)
next
  case False
  have "MainWindow_Apply (WindowChangedEvent (cmd_rect c)) (materialized (ms_window s)) = Some (cmd_rect c, 1)" by simp
  then obtain n where n: "Commit (MainWindow_ops missing) cenv (WindowChangedEvent (cmd_rect c)) (ms_window s) = Some n"
    "node_inv (MainWindow_ops missing) id n" "materialized n = cmd_rect c"
    using lifecycle_commit [OF assms(2) [unfolded MainWindow_ops_def] assms(3) TrueI] unfolding MainWindow_ops_def by metis
  then show ?thesis using False commit_keeps_static [OF n(1)] assms(1) by (intro exI [of _ n]) (simp add: apply_command_def main_inv_def)
qed

lemma main_compacts:
  assumes "main_inv missing s"
  shows "\<exists>n. CompactJournalInto (MainWindow_ops missing) now (ms_window s) = Some n \<and> node_inv (MainWindow_ops missing) id n \<and>
    materialized n = materialized (ms_window s) \<and> \<not> suppress_materialized_change n"
  using lifecycle.compact_total [of _ _ missing "ms_window s" now] assms unfolding MainWindow_ops_def main_inv_def by fastforce

lemma compacted_inv:
  assumes "main_inv missing s" "ms_pc s = Main_wait"
  shows "\<exists>n. CompactJournalInto (MainWindow_ops missing) now (ms_window s) = Some n \<and>
    main_inv missing (s\<lparr> ms_window := n, ms_pc := Main_end \<rparr>) \<and> materialized n = materialized (ms_window s)"
proof -
  obtain n where "CompactJournalInto (MainWindow_ops missing) now (ms_window s) = Some n" "node_inv (MainWindow_ops missing) id n"
    "materialized n = materialized (ms_window s)" "\<not> suppress_materialized_change n"
    using main_compacts [OF assms(1)] by blast
  then show ?thesis using assms by (intro exI [of _ n]) (auto simp: main_inv_defs split: option.splits)
qed

lemma main_step_inv:
  assumes "main_inv missing s" "node_ready (MainWindow_ops missing) (ms_window s)" "ce_now1 cenv \<noteq> 0"
    and "main_step missing cenv s = Some s'"
  shows "main_inv missing s'"
proof (cases "ms_pc s")
  case Main_wait
  show ?thesis
  proof (cases "ms_stop s")
    case True
    then show ?thesis using compacted_inv [OF assms(1) Main_wait, of "ce_now2 cenv"] assms(4) Main_wait by (auto simp: main_step_def)
  next
    case False
    then show ?thesis using assms(1,4) Main_wait
      by (auto simp: main_step_def take_command_def main_inv_defs split: option.splits if_splits)
  qed
next
  case (Main_apply c)
  then obtain n where "s' = s\<lparr> ms_window := n, ms_pc := Main_publish (cmd_sequence c) \<rparr>" "materialized n = cmd_rect c"
    "node_inv (MainWindow_ops missing) id n" "\<not> suppress_materialized_change n"
    using apply_command_runs [OF assms(1-3), of c] assms(4) by (auto simp: main_step_def)
  then show ?thesis using assms(1) Main_apply by (auto simp: main_inv_defs split: option.splits)
next
  case (Main_publish n)
  then show ?thesis using assms(1,4)
    by (auto simp: main_step_def PublishWindowChange_def main_inv_defs split: option.splits)
qed (use assms(4) in \<open>simp add: main_step_def\<close>)

lemma main_inv_reachable: "main_reachable missing s \<Longrightarrow> main_inv missing s"
proof (induction rule: main_reachable.induct)
  case (start n)
  then show ?case
    by (simp add: main_inv_defs main_start_def Let_def SetJournalRetentionPolicy_def node_inv_def node_live_def consistent_def)
next
  case (step s s')
  from step.hyps(3) show ?case
  proof cases
    case moved
    then show ?thesis using window_moved_inv [OF step.IH] by simp
  next
    case applied
    then show ?thesis using applied_inv [OF step.IH] by simp
  next
    case request
    then show ?thesis using step.IH by (cases "ms_pending s"; cases "ms_pc s") (simp_all add: main_inv_defs Main_RequestStop_def)
  next
    case model
    then show ?thesis using main_step_inv [OF step.IH step.hyps(2)] by simp
  qed
qed

text \<open>A window with the rectangle BuildMainWindowGraph gives it can start the session.\<close>

lemma new_window_starts: "main_reachable missing (main_start (lifecycle_sample 2 default_rect))"
proof (rule main_reachable.start)
  show "node_inv (MainWindow_ops missing) id (lifecycle_sample 2 default_rect)"
    using lifecycle_sample_ready [of "\<lambda>e s. True" MainWindow_Apply missing 2 default_rect] by (simp only: node_ready_def MainWindow_ops_def)
qed (simp add: lifecycle_sample_def)

section \<open>What the window and the model agree on\<close>

text \<open>No assertion of the model thread fails: it stops only at its end, or where it waits for a change or for the GUI.\<close>

lemma main_thread_runs:
  assumes "main_reachable missing s" "node_ready (MainWindow_ops missing) (ms_window s)" "ce_now1 cenv \<noteq> 0"
  shows "main_step missing cenv s = None \<longleftrightarrow> ms_pc s = Main_end \<or>
    (ms_pc s = Main_wait \<and> \<not> ms_stop s \<and> (ms_pending s = None \<or> ms_unread s \<noteq> None))"
proof -
  note inv = main_inv_reachable [OF assms(1)]
  show ?thesis
  proof (cases "ms_pc s")
    case Main_wait
    then show ?thesis using compacted_inv [OF inv Main_wait, of "ce_now2 cenv"]
      by (auto simp: main_step_def take_command_def split: option.splits)
  next
    case (Main_apply c)
    then show ?thesis using apply_command_runs [OF inv assms(2,3), of c] by (auto simp: main_step_def)
  qed (simp_all add: main_step_def)
qed

text \<open>Once the changes of the native window have been taken, published and applied, the model, its mirror and the window
  agree, and every change is acknowledged; nothing the GUI applied on the way has moved the window.\<close>

lemma settled_window_agrees:
  assumes "main_reachable missing s" "ms_pc s = Main_wait" "ms_pending s = None" "ms_unread s = None"
  shows "materialized (ms_window s) = ms_native s" "ms_mirror s = ms_native s" "ms_acknowledged s = ms_submitted s"
  using main_inv_reachable [OF assms(1)] assms(2-4) by (simp_all add: main_inv_defs)

lemma applying_leaves_window:
  assumes "main_reachable missing s" "ApplyMainWindowIncremental s = Some s'"
  shows "ms_native s' = ms_native s" "ms_pending s' = ms_pending s" "ms_submitted s' = ms_submitted s"
proof -
  obtain n r where u: "ms_unread s = Some (n, r)"
    using assms(2) by (auto simp: ApplyMainWindowIncremental_def split: option.splits)
  have "s' = s\<lparr> ms_unread := None, ms_mirror := r, ms_acknowledged := n \<rparr>"
    using incremental_never_moves [OF main_inv_reachable [OF assms(1)] u] assms(2) by simp
  then show "ms_native s' = ms_native s" "ms_pending s' = ms_pending s" "ms_submitted s' = ms_submitted s" by simp_all
qed

text \<open>Unlike the sessions that drain their works, a stop drops the change that is pending: the model ends as it was.\<close>

lemma stop_drops_pending_change:
  assumes "main_reachable missing s" "ms_pc s = Main_wait" "ms_stop s"
  shows "\<exists>s'. main_step missing cenv s = Some s' \<and> ms_pc s' = Main_end \<and>
    materialized (ms_window s') = materialized (ms_window s) \<and> ms_pending s' = ms_pending s"
  using compacted_inv [OF main_inv_reachable [OF assms(1)] assms(2), of "ce_now2 cenv"] assms(2,3)
  by (auto simp: main_step_def)

end
