(* ===== verification/ModelRuntime.thy ===== *)
theory ModelRuntime
  imports UiMirrorProperties
begin

text \<open>
  The bookkeeping of the model thread (src/src/model_runtime.cpp): which nodes are updated, which presentation
  roots show a node, and which nodes wait for publication per root.  A pointer to a node is its object id in the
  model domain; \<open>mr_bound\<close> are the nodes whose notifier is this runtime.  The iteration order of the unordered
  containers is a parameter \<open>enum\<close>.  The work queue and the threads are in WorkQueue.
\<close>

section \<open>State\<close>

record model_runtime =
  presentation_roots :: "u32 list"
  model_nodes :: "obj_id list"
  object_to_roots :: "obj_id \<Rightarrow> u32 list option"
  pending_by_root :: "u32 \<Rightarrow> obj_id set option"
  mr_bound :: "obj_id set"

text \<open>The constructor runs BuildExecutionLists; \<open>nodes\<close> is what CollectReachableNodes finds.\<close>

definition ModelRuntime :: "obj_id list \<Rightarrow> model_runtime" where
  "ModelRuntime nodes = \<lparr> presentation_roots = [], model_nodes = nodes, object_to_roots = Map.empty,
     pending_by_root = Map.empty, mr_bound = {} \<rparr>"

definition roots_of :: "obj_id \<Rightarrow> model_runtime \<Rightarrow> u32 list" where
  "roots_of i rt = (case object_to_roots rt i of Some rs \<Rightarrow> rs | None \<Rightarrow> [])"

definition map_to_root :: "u32 \<Rightarrow> obj_id \<Rightarrow> model_runtime \<Rightarrow> model_runtime" where
  "map_to_root root i rt = rt\<lparr> object_to_roots := (object_to_roots rt)(i \<mapsto> roots_of i rt @ [root]) \<rparr>"

text \<open>\<open>objects\<close> is what CollectReachableObjects finds below the root.\<close>

definition AddPresentationRoot :: "u32 \<Rightarrow> obj_id list \<Rightarrow> model_runtime \<Rightarrow> model_runtime" where
  "AddPresentationRoot root objects rt =
     fold (map_to_root root) objects (rt\<lparr> presentation_roots := presentation_roots rt @ [root] \<rparr>)"

text \<open>\<open>initialize\<close> is InitializeRuntimeNode, called on a node without a base.\<close>

definition AttachNode ::
  "(obj_id \<Rightarrow> ('x, 'e) domain \<Rightarrow> ('x, 'e) domain option) \<Rightarrow> obj_id \<Rightarrow> u32 \<Rightarrow> ('x, 'e) domain \<Rightarrow> model_runtime \<Rightarrow>
   (('x, 'e) domain \<times> model_runtime) option" where
  "AttachNode initialize i root d rt = do {
     node \<leftarrow> d i;
     d \<leftarrow> (if lo_base node = None then initialize i d else Some d);
     let rt = rt\<lparr> mr_bound := insert i (mr_bound rt),
                 model_nodes := (if i \<in> set (model_nodes rt) then model_nodes rt else model_nodes rt @ [i]) \<rparr> in
     Some (d, if root \<in> set (roots_of i rt) then rt else map_to_root root i rt) }"

definition drop_pending :: "obj_id \<Rightarrow> u32 \<Rightarrow> model_runtime \<Rightarrow> model_runtime" where
  "drop_pending i root rt =
     (case pending_by_root rt root of
        None \<Rightarrow> rt
      | Some nodes \<Rightarrow> rt\<lparr> pending_by_root :=
          (pending_by_root rt)(root := if nodes - {i} = {} then None else Some (nodes - {i})) \<rparr>)"

text \<open>\<open>None\<close>: the node was never mapped, and the code dereferences the end of the map.\<close>

definition DetachNode :: "obj_id \<Rightarrow> u32 \<Rightarrow> model_runtime \<Rightarrow> model_runtime option" where
  "DetachNode i root rt =
     (let rt = drop_pending i root rt in
      case object_to_roots rt i of
        None \<Rightarrow> None
      | Some roots \<Rightarrow>
          let roots = removeAll root roots in
          if roots \<noteq> [] then Some (rt\<lparr> object_to_roots := (object_to_roots rt)(i \<mapsto> roots) \<rparr>)
          else Some (rt\<lparr> object_to_roots := (object_to_roots rt)(i := None),
                         model_nodes := removeAll i (model_nodes rt), mr_bound := mr_bound rt - {i} \<rparr>))"

definition add_pending :: "obj_id \<Rightarrow> u32 \<Rightarrow> model_runtime \<Rightarrow> model_runtime" where
  "add_pending i root rt = rt\<lparr> pending_by_root := (pending_by_root rt)(root \<mapsto>
     insert i (case pending_by_root rt root of Some nodes \<Rightarrow> nodes | None \<Rightarrow> {})) \<rparr>"

definition OnMaterializedChange :: "obj_id \<Rightarrow> model_runtime \<Rightarrow> model_runtime" where
  "OnMaterializedChange i rt =
     (case object_to_roots rt i of
        None \<Rightarrow> rt
      | Some roots \<Rightarrow> fold (add_pending i) roots rt)"

text \<open>A node calls its notifier after a materialized change, when it has one.\<close>

definition NotifyMaterializedChange :: "obj_id \<Rightarrow> model_runtime \<Rightarrow> model_runtime" where
  "NotifyMaterializedChange i rt = (if i \<in> mr_bound rt then OnMaterializedChange i rt else rt)"

definition HasPending :: "u32 \<Rightarrow> model_runtime \<Rightarrow> bool" where
  "HasPending root rt = (case pending_by_root rt root of Some nodes \<Rightarrow> nodes \<noteq> {} | None \<Rightarrow> False)"

definition IsInExecutionList :: "obj_id \<Rightarrow> model_runtime \<Rightarrow> bool" where
  "IsInExecutionList i rt \<longleftrightarrow> i \<in> set (model_nodes rt)"

definition IsMappedToPresentationRoot :: "obj_id \<Rightarrow> u32 \<Rightarrow> model_runtime \<Rightarrow> bool" where
  "IsMappedToPresentationRoot i root rt \<longleftrightarrow> root \<in> set (roots_of i rt)"

definition BindAllModelNodeNotifiers :: "model_runtime \<Rightarrow> model_runtime" where
  "BindAllModelNodeNotifiers rt = rt\<lparr> mr_bound := mr_bound rt \<union> set (model_nodes rt) \<rparr>"

section \<open>The loop of the model thread\<close>

text \<open>\<open>update i d\<close> is EnsureCurrentGeneration and Update of the node: the domain afterwards and the nodes whose
  materialized change was announced, in order; \<open>None\<close> an assertion.  It does not attach or detach nodes.\<close>

fun UpdateAll ::
  "(obj_id \<Rightarrow> ('x, 'e) domain \<Rightarrow> (('x, 'e) domain \<times> obj_id list) option) \<Rightarrow> obj_id list \<Rightarrow> ('x, 'e) domain \<Rightarrow> model_runtime \<Rightarrow>
   (('x, 'e) domain \<times> model_runtime) option" where
  "UpdateAll update [] d rt = Some (d, rt)"
| "UpdateAll update (i # ids) d rt = do {
     (d, announced) \<leftarrow> update i d;
     UpdateAll update ids d (fold NotifyMaterializedChange announced rt) }"

fun publish_each ::
  "('x, 'e, 's) object_system \<Rightarrow> ('x, 'e) domain \<Rightarrow> (obj_id set \<Rightarrow> obj_id list) \<Rightarrow> u32 list \<Rightarrow> model_runtime \<Rightarrow> ui_mirror \<Rightarrow>
   (model_runtime \<times> ui_mirror) option" where
  "publish_each sys d enum [] rt m = Some (rt, m)"
| "publish_each sys d enum (root # roots) rt m =
     (case pending_by_root rt root of
        None \<Rightarrow> publish_each sys d enum roots rt m
      | Some nodes \<Rightarrow>
          let erased = rt\<lparr> pending_by_root := (pending_by_root rt)(root := None) \<rparr> in
          if nodes = {} then publish_each sys d enum roots erased m
          else do {
            (taken, m) \<leftarrow> Publish sys d root (enum nodes) m;
            publish_each sys d enum roots (if taken then erased else rt) m })"

definition PublishChanged ::
  "('x, 'e, 's) object_system \<Rightarrow> ('x, 'e) domain \<Rightarrow> (obj_id set \<Rightarrow> obj_id list) \<Rightarrow> model_runtime \<Rightarrow> ui_mirror \<Rightarrow>
   (model_runtime \<times> ui_mirror) option" where
  "PublishChanged sys d enum rt m = publish_each sys d enum (enum (Map.dom (pending_by_root rt))) rt m"

text \<open>\<open>works\<close> is what DrainWork runs, in order.\<close>

definition PumpOnce ::
  "('x, 'e, 's) object_system \<Rightarrow> (obj_id set \<Rightarrow> obj_id list) \<Rightarrow>
   (obj_id \<Rightarrow> ('x, 'e) domain \<Rightarrow> (('x, 'e) domain \<times> obj_id list) option) \<Rightarrow>
   (('x, 'e) domain \<times> model_runtime \<Rightarrow> ('x, 'e) domain \<times> model_runtime) list \<Rightarrow>
   ('x, 'e) domain \<Rightarrow> model_runtime \<Rightarrow> ui_mirror \<Rightarrow> (('x, 'e) domain \<times> model_runtime \<times> ui_mirror) option" where
  "PumpOnce sys enum update works d rt m =
     (let (d, rt) = fold (\<lambda>w. w) works (d, BindAllModelNodeNotifiers rt) in do {
        (d, rt) \<leftarrow> UpdateAll update (model_nodes rt) d rt;
        (rt, m) \<leftarrow> PublishChanged sys d enum rt m;
        Some (d, rt, m) })"

section \<open>Invariant\<close>

text \<open>What is pending for a root is mapped to it, so that the last detachment of a node leaves no pointer to it.\<close>

definition runtime_ok :: "model_runtime \<Rightarrow> bool" where
  "runtime_ok rt \<longleftrightarrow> distinct (model_nodes rt) \<and> (\<forall>i. object_to_roots rt i \<noteq> Some []) \<and>
     (\<forall>root nodes. pending_by_root rt root = Some nodes \<longrightarrow> nodes \<noteq> {} \<and> (\<forall>i\<in>nodes. root \<in> set (roots_of i rt)))"

lemma runtime_okD:
  assumes "runtime_ok rt" "pending_by_root rt root = Some nodes"
  shows "nodes \<noteq> {}" "i \<in> nodes \<Longrightarrow> root \<in> set (roots_of i rt)"
  using assms unfolding runtime_ok_def by blast+

lemma roots_of_simps [simp]:
  "roots_of i (rt\<lparr> presentation_roots := a \<rparr>) = roots_of i rt" "roots_of i (rt\<lparr> model_nodes := b \<rparr>) = roots_of i rt"
  "roots_of i (rt\<lparr> pending_by_root := p \<rparr>) = roots_of i rt" "roots_of i (rt\<lparr> mr_bound := e \<rparr>) = roots_of i rt"
  "roots_of i (rt\<lparr> object_to_roots := f \<rparr>) = (case f i of Some rs \<Rightarrow> rs | None \<Rightarrow> [])"
  by (simp_all add: roots_of_def)

lemma runtime_ok_new: "distinct nodes \<Longrightarrow> runtime_ok (ModelRuntime nodes)"
  by (simp add: runtime_ok_def ModelRuntime_def)

lemma runtime_ok_map_to_root:
  assumes "runtime_ok rt"
  shows "runtime_ok (map_to_root root i rt)"
proof -
  have "roots_of j (map_to_root root i rt) = (if j = i then roots_of i rt @ [root] else roots_of j rt)" for j
    by (simp add: map_to_root_def roots_of_def)
  then show ?thesis using assms by (auto simp: runtime_ok_def map_to_root_def)
qed

lemma runtime_ok_AddPresentationRoot:
  assumes "runtime_ok rt"
  shows "runtime_ok (AddPresentationRoot root objects rt)"
proof -
  have "runtime_ok rt \<Longrightarrow> runtime_ok (fold (map_to_root root) objects rt)" for rt
    by (induction objects arbitrary: rt) (simp_all add: runtime_ok_map_to_root)
  moreover have "runtime_ok (rt\<lparr> presentation_roots := presentation_roots rt @ [root] \<rparr>)"
    using assms by (simp add: runtime_ok_def)
  ultimately show ?thesis by (simp add: AddPresentationRoot_def)
qed

lemma runtime_ok_fields:
  "runtime_ok rt \<Longrightarrow> distinct nodes \<Longrightarrow> runtime_ok (rt\<lparr> mr_bound := b, model_nodes := nodes \<rparr>)"
  by (simp add: runtime_ok_def)

lemma runtime_ok_AttachNode:
  assumes "runtime_ok rt" "AttachNode initialize i root d rt = Some (d', rt')"
  shows "runtime_ok rt'"
proof -
  let ?rt = "rt\<lparr> mr_bound := insert i (mr_bound rt),
                 model_nodes := (if i \<in> set (model_nodes rt) then model_nodes rt else model_nodes rt @ [i]) \<rparr>"
  have "distinct (model_nodes rt)" using assms(1) by (simp add: runtime_ok_def)
  then have "runtime_ok ?rt" by (intro runtime_ok_fields assms(1)) simp
  moreover have "rt' = ?rt \<or> rt' = map_to_root root i ?rt"
    using assms(2) by (auto simp: AttachNode_def Let_def split: Option.bind_splits if_splits)
  ultimately show ?thesis using runtime_ok_map_to_root by blast
qed

lemma runtime_ok_add_pending:
  "runtime_ok rt \<Longrightarrow> root \<in> set (roots_of i rt) \<Longrightarrow> runtime_ok (add_pending i root rt)"
  by (auto simp: runtime_ok_def add_pending_def split: option.splits if_splits)

lemma runtime_ok_add_all:
  "runtime_ok rt \<Longrightarrow> set roots \<subseteq> set (roots_of i rt) \<Longrightarrow> runtime_ok (fold (add_pending i) roots rt)"
proof (induction roots arbitrary: rt)
  case (Cons root roots)
  have "roots_of i (add_pending i root rt) = roots_of i rt" by (simp add: add_pending_def)
  then show ?case using Cons runtime_ok_add_pending [of rt root i] by simp
qed simp

lemma runtime_ok_Notify: "runtime_ok rt \<Longrightarrow> runtime_ok (NotifyMaterializedChange i rt)"
  using runtime_ok_add_all [of rt _ i]
  by (auto simp: NotifyMaterializedChange_def OnMaterializedChange_def roots_of_def split: option.split)

lemma runtime_ok_erase: "runtime_ok rt \<Longrightarrow> runtime_ok (rt\<lparr> pending_by_root := (pending_by_root rt)(root := None) \<rparr>)"
  by (auto simp: runtime_ok_def)

lemma runtime_ok_publish_each:
  "runtime_ok rt \<Longrightarrow> publish_each sys d enum roots rt m = Some (rt', m') \<Longrightarrow> runtime_ok rt'"
proof (induction roots arbitrary: rt m)
  case (Cons root roots)
  then show ?case
    using runtime_ok_erase [OF Cons.prems(1), of root]
    by (auto simp: Let_def split: option.splits if_splits Option.bind_splits)
qed simp

lemma drop_pending_at:
  "pending_by_root (drop_pending i root rt) root' =
     (if root' = root then (case pending_by_root rt root of None \<Rightarrow> None
        | Some nodes \<Rightarrow> if nodes - {i} = {} then None else Some (nodes - {i}))
      else pending_by_root rt root')"
  by (simp add: drop_pending_def split: option.split)

lemma drop_pending_fields [simp]:
  "object_to_roots (drop_pending i root rt) = object_to_roots rt" "model_nodes (drop_pending i root rt) = model_nodes rt"
  "mr_bound (drop_pending i root rt) = mr_bound rt" "roots_of j (drop_pending i root rt) = roots_of j rt"
  by (simp_all add: drop_pending_def roots_of_def split: option.split)

lemma DetachNode_roots:
  assumes "DetachNode i root rt = Some rt'"
  shows "roots_of j rt' = (if j = i then removeAll root (roots_of i rt) else roots_of j rt)"
    and "pending_by_root rt' = pending_by_root (drop_pending i root rt)"
    and "object_to_roots rt' i = (if removeAll root (roots_of i rt) = [] then None else Some (removeAll root (roots_of i rt)))"
    and "j \<noteq> i \<Longrightarrow> object_to_roots rt' j = object_to_roots rt j"
    and "model_nodes rt' = (if removeAll root (roots_of i rt) = [] then removeAll i (model_nodes rt) else model_nodes rt)"
    and "mr_bound rt' = (if removeAll root (roots_of i rt) = [] then mr_bound rt - {i} else mr_bound rt)"
  using assms by (auto simp: DetachNode_def Let_def roots_of_def split: option.splits if_splits)

lemma runtime_ok_DetachNode:
  assumes "runtime_ok rt" "DetachNode i root rt = Some rt'"
  shows "runtime_ok rt'"
proof -
  note eqs = DetachNode_roots [OF assms(2)]
  have "nodes \<noteq> {} \<and> (\<forall>j\<in>nodes. root' \<in> set (roots_of j rt'))" if p: "pending_by_root rt' root' = Some nodes" for root' nodes
  proof (cases "root' = root")
    case True
    then obtain all where all: "pending_by_root rt root = Some all" "nodes = all - {i}" "nodes \<noteq> {}"
      using p by (auto simp: eqs(2) drop_pending_at split: option.splits if_splits)
    then show ?thesis using runtime_okD(2) [OF assms(1) all(1)] True by (auto simp: eqs(1))
  next
    case False
    then have "pending_by_root rt root' = Some nodes" using p by (simp add: eqs(2) drop_pending_at)
    from runtime_okD [OF assms(1) this] False show ?thesis by (auto simp: eqs(1))
  qed
  moreover have "object_to_roots rt' j \<noteq> Some []" for j
    using assms(1) by (cases "j = i") (auto simp: eqs(3,4) runtime_ok_def)
  moreover have "distinct (model_nodes rt')" using assms(1) by (simp add: eqs(5) runtime_ok_def distinct_removeAll)
  ultimately show ?thesis unfolding runtime_ok_def by blast
qed

lemma runtime_ok_bind: "runtime_ok rt \<Longrightarrow> runtime_ok (BindAllModelNodeNotifiers rt)"
  by (simp add: runtime_ok_def BindAllModelNodeNotifiers_def)

lemma runtime_ok_UpdateAll:
  "runtime_ok rt \<Longrightarrow> UpdateAll update ids d rt = Some (d', rt') \<Longrightarrow> runtime_ok rt'"
proof (induction ids arbitrary: d rt)
  case (Cons i ids)
  have "runtime_ok rt \<Longrightarrow> runtime_ok (fold NotifyMaterializedChange js rt)" for js rt
    by (induction js arbitrary: rt) (simp_all add: runtime_ok_Notify)
  then show ?case using Cons by (auto split: Option.bind_splits)
qed simp

lemma runtime_ok_PublishChanged:
  "runtime_ok rt \<Longrightarrow> PublishChanged sys d enum rt m = Some (rt', m') \<Longrightarrow> runtime_ok rt'"
  unfolding PublishChanged_def by (rule runtime_ok_publish_each)

section \<open>Publication\<close>

definition mirror_ok :: "ui_mirror \<Rightarrow> bool" where
  "mirror_ok m \<longleftrightarrow> (\<forall>root ch. ui_channels m root = Some ch \<longrightarrow> slots_ok 3 ch)"

definition channel_of :: "ui_mirror \<Rightarrow> u32 \<Rightarrow> channel" where
  "channel_of m root = fst (ChannelFor root m)"

lemma channel_of_ok: "mirror_ok m \<Longrightarrow> slots_ok 3 (channel_of m root)"
  by (auto simp: channel_of_def ChannelFor_def mirror_ok_def slots_ok_def PublicationChannel_def split: option.split)

text \<open>Publish never runs out of buffers: it answers, and takes the nodes unless the last publication is unread.\<close>

lemma Publish_total:
  assumes "mirror_ok m" "\<forall>i\<in>set changed. publishable sys d i" "changed \<noteq> []"
  shows "\<exists>m' ch'. Publish sys d root changed m = Some (\<not> has_unread_published (channel_of m root), m') \<and> mirror_ok m' \<and>
    ui_channels m' root = Some ch' \<and> in_ui ch' = in_ui (channel_of m root) \<and>
    (\<forall>other. other \<noteq> root \<longrightarrow> ui_channels m' other = ui_channels m other)"
proof -
  let ?ch = "channel_of m root"
  obtain m1 where m1: "ChannelFor root m = (?ch, m1)" by (metis channel_of_def prod.collapse)
  have same: "ui_channels m1 = (ui_channels m)(root \<mapsto> ?ch)"
    using m1 by (auto simp: ChannelFor_def set_channel_def split: option.splits)
  have ok: "slots_ok 3 ?ch" by (rule channel_of_ok [OF assms(1)])
  have others: "mirror_ok m'" if "slots_ok 3 ch'" "ui_channels m' = (ui_channels m)(root \<mapsto> ch')" for m' ch'
    using assms(1) that by (simp add: mirror_ok_def)
  show ?thesis
  proof (cases "has_unread_published ?ch")
    case True
    then have "Publish sys d root changed m = Some (False, m1)" using m1 assms(3) by (simp add: Publish_def)
    then show ?thesis using True others [OF ok same] same by auto
  next
    case False
    then have unread: "published ?ch = -1" using ok by (simp add: has_unread_published_def slots_ok_def)
    obtain slot where slot: "free_slot 3 (published ?ch) (in_ui ?ch) = Some slot" using free_slot_exists [of 3] by blast
    have bound: "slot < 3" by (rule conjunct1 [OF free_slotD [OF slot]])
    have acq: "AcquireProducer ?ch = Some (slot, claim_slot slot ?ch)"
      using ok slot by (simp add: AcquireProducer_def slots_ok_def)
    have empty: "buffers (claim_slot slot ?ch) ! slot = []"
      using ok bound by (simp add: claim_slot_def ByteSink_clear_def slots_ok_def)
    let ?sink = "le_u32 (of_nat (length changed)) @ batch_bytes sys d changed"
    let ?ch' = "(NotePublished ((claim_slot slot ?ch)\<lparr> buffers := (buffers (claim_slot slot ?ch))[slot := ?sink] \<rparr>))\<lparr> published := int slot \<rparr>"
    have "write_all_published sys d changed (ByteSink_write [] (le_u32 (of_nat (length changed)))) = Some ?sink"
      using write_all_published_batch [OF assms(2)] by (simp add: ByteSink_write_def)
    then have "Publish sys d root changed m = Some (True, (set_channel root ?ch' m1)\<lparr> ui_notified := ui_notified m1 @ [root] \<rparr>)"
      using m1 assms(3) False acq empty unread
      by (simp add: Publish_def PublishProducer_def NotePublished_def claim_slot_def set_channel_def)
    moreover have "slots_ok 3 ?ch'" using ok bound by (simp add: slots_ok_def claim_slot_def NotePublished_def)
    moreover have "in_ui ?ch' = in_ui ?ch" by (simp add: claim_slot_def NotePublished_def)
    ultimately show ?thesis using False others same by (auto simp: set_channel_def)
  qed
qed

text \<open>Every root in the list is treated on its own.\<close>

definition pending_publishable :: "('x, 'e, 's) object_system \<Rightarrow> ('x, 'e) domain \<Rightarrow> model_runtime \<Rightarrow> bool" where
  "pending_publishable sys d rt \<longleftrightarrow> (\<forall>root nodes. pending_by_root rt root = Some nodes \<longrightarrow> nodes \<noteq> {} \<and> (\<forall>i\<in>nodes. publishable sys d i))"

definition enumerates :: "(obj_id set \<Rightarrow> obj_id list) \<Rightarrow> bool" where
  "enumerates enum \<longleftrightarrow> (\<forall>A. set (enum A) = A \<and> distinct (enum A))"

text \<open>What a root gets whose nodes are pending: \<open>m\<close> is the mirror before, \<open>rt'\<close> and \<open>m'\<close> the states after.\<close>

definition root_served ::
  "('x, 'e, 's) object_system \<Rightarrow> ('x, 'e) domain \<Rightarrow> (obj_id set \<Rightarrow> obj_id list) \<Rightarrow> ui_mirror \<Rightarrow> model_runtime \<Rightarrow> ui_mirror \<Rightarrow>
   u32 \<Rightarrow> obj_id set \<Rightarrow> bool" where
  "root_served sys d enum m rt' m' root nodes \<longleftrightarrow>
     (\<exists>m1 m2 ch. ui_channels m' root = Some ch \<and> ui_channels m2 root = Some ch \<and> in_ui ch = in_ui (channel_of m root) \<and>
        Publish sys d root (enum nodes) m1 = Some (\<not> has_unread_published (channel_of m root), m2) \<and>
        pending_by_root rt' root = (if has_unread_published (channel_of m root) then Some nodes else None))"

lemma root_served_cong: "channel_of m1 root = channel_of m2 root \<Longrightarrow>
  root_served sys d enum m1 rt' m' root nodes = root_served sys d enum m2 rt' m' root nodes"
  by (simp add: root_served_def)

lemma publish_each_total:
  assumes "mirror_ok m" "pending_publishable sys d rt" "enumerates enum" "distinct roots"
  shows "\<exists>rt' m'. publish_each sys d enum roots rt m = Some (rt', m') \<and> mirror_ok m' \<and>
    (\<forall>root. root \<notin> set roots \<longrightarrow> pending_by_root rt' root = pending_by_root rt root \<and> ui_channels m' root = ui_channels m root) \<and>
    (\<forall>root\<in>set roots. \<forall>nodes. pending_by_root rt root = Some nodes \<longrightarrow> root_served sys d enum m rt' m' root nodes)"
  using assms(1,2,4)
proof (induction roots arbitrary: rt m)
  case Nil
  then show ?case by simp
next
  case (Cons root roots)
  have fresh: "root \<notin> set roots" "distinct roots" using Cons.prems(3) by simp_all
  show ?case
  proof (cases "pending_by_root rt root")
    case None
    obtain rt' m' where ih: "publish_each sys d enum roots rt m = Some (rt', m')" "mirror_ok m'"
      "\<forall>other. other \<notin> set roots \<longrightarrow> pending_by_root rt' other = pending_by_root rt other \<and> ui_channels m' other = ui_channels m other"
      "\<forall>root\<in>set roots. \<forall>nodes. pending_by_root rt root = Some nodes \<longrightarrow> root_served sys d enum m rt' m' root nodes"
      using Cons.IH [OF Cons.prems(1,2) fresh(2)] by blast
    show ?thesis using ih None by (intro exI [of _ rt'] exI [of _ m']) simp
  next
    case (Some nodes)
    then have nodes: "nodes \<noteq> {}" "\<forall>i\<in>nodes. publishable sys d i" using Cons.prems(2) unfolding pending_publishable_def by blast+
    have enum: "set (enum nodes) = nodes" using assms(3) unfolding enumerates_def by blast
    then have some: "enum nodes \<noteq> []" using nodes(1) by auto
    let ?unread = "has_unread_published (channel_of m root)"
    obtain m2 ch where pub: "Publish sys d root (enum nodes) m = Some (\<not> ?unread, m2)" "mirror_ok m2"
      "ui_channels m2 root = Some ch" "in_ui ch = in_ui (channel_of m root)"
      "\<forall>other. other \<noteq> root \<longrightarrow> ui_channels m2 other = ui_channels m other"
      using Publish_total [OF Cons.prems(1) _ some, of sys d root] nodes(2) enum by auto
    define rt1 where "rt1 = (if \<not> ?unread then rt\<lparr> pending_by_root := (pending_by_root rt)(root := None) \<rparr> else rt)"
    have rt1: "pending_by_root rt1 root = (if ?unread then Some nodes else None)"
      "\<forall>other. other \<noteq> root \<longrightarrow> pending_by_root rt1 other = pending_by_root rt other" by (simp_all add: rt1_def Some)
    have pp: "pending_publishable sys d rt1"
      using Cons.prems(2) by (auto simp: pending_publishable_def rt1_def)
    have chan: "channel_of m2 other = channel_of m other" if "other \<noteq> root" for other
      using pub(5) that by (simp add: channel_of_def ChannelFor_def split: option.split)
    obtain rt' m' where ih: "publish_each sys d enum roots rt1 m2 = Some (rt', m')" "mirror_ok m'"
      "\<forall>other. other \<notin> set roots \<longrightarrow> pending_by_root rt' other = pending_by_root rt1 other \<and> ui_channels m' other = ui_channels m2 other"
      "\<forall>root\<in>set roots. \<forall>nodes. pending_by_root rt1 root = Some nodes \<longrightarrow> root_served sys d enum m2 rt' m' root nodes"
      using Cons.IH [OF pub(2) pp fresh(2)] by blast
    have run: "publish_each sys d enum (root # roots) rt m = Some (rt', m')"
      using Some nodes(1) pub(1) ih(1) by (simp add: Let_def rt1_def)
    show ?thesis
    proof (intro exI conjI)
      show "publish_each sys d enum (root # roots) rt m = Some (rt', m')" by (rule run)
      show "mirror_ok m'" by (rule ih(2))
      show "\<forall>other. other \<notin> set (root # roots) \<longrightarrow> pending_by_root rt' other = pending_by_root rt other \<and> ui_channels m' other = ui_channels m other"
        using ih(3) rt1(2) pub(5) by simp
      show "\<forall>r\<in>set (root # roots). \<forall>nodes. pending_by_root rt r = Some nodes \<longrightarrow> root_served sys d enum m rt' m' r nodes"
      proof (intro ballI allI impI)
        fix r nodes'
        assume r: "r \<in> set (root # roots)" "pending_by_root rt r = Some nodes'"
        show "root_served sys d enum m rt' m' r nodes'"
        proof (cases "r = root")
          case True
          then have "ui_channels m' r = Some ch" "pending_by_root rt' r = (if ?unread then Some nodes' else None)"
            using ih(3) fresh(1) pub(3) rt1(1) r(2) Some by simp_all
          then show ?thesis using pub(1,3,4) True r(2) Some unfolding root_served_def
            by (intro exI [of _ m] exI [of _ m2] exI [of _ ch]) simp
        next
          case False
          then have "r \<in> set roots" "pending_by_root rt1 r = Some nodes'" using r rt1(2) by simp_all
          then show ?thesis using ih(4) root_served_cong [OF chan [OF False]] by blast
        qed
      qed
    qed
  qed
qed

section \<open>From the notification to the GUI\<close>

lemma add_pending_all:
  "root \<in> set roots \<or> (\<exists>nodes. pending_by_root st root = Some nodes \<and> i \<in> nodes) \<Longrightarrow>
    \<exists>nodes. pending_by_root (fold (add_pending i) roots st) root = Some nodes \<and> i \<in> nodes"
proof (induction roots arbitrary: st)
  case (Cons r roots)
  then have "root \<in> set roots \<or> (\<exists>nodes. pending_by_root (add_pending i r st) root = Some nodes \<and> i \<in> nodes)"
    by (auto simp: add_pending_def)
  then show ?case using Cons.IH by simp
qed simp

lemma notified_node_pends:
  assumes "i \<in> mr_bound rt" "IsMappedToPresentationRoot i root rt"
  obtains nodes where "pending_by_root (NotifyMaterializedChange i rt) root = Some nodes" "i \<in> nodes"
proof -
  obtain roots where "object_to_roots rt i = Some roots" "root \<in> set roots"
    using assms(2) by (cases "object_to_roots rt i") (auto simp: IsMappedToPresentationRoot_def roots_of_def)
  then show thesis
    using add_pending_all [of root roots rt i] assms(1) that by (auto simp: NotifyMaterializedChange_def OnMaterializedChange_def)
qed

lemma enumerated: "enumerates enum \<Longrightarrow> set (enum A) = A \<and> distinct (enum A)"
  unfolding enumerates_def by blast

text \<open>What is published for a served root is what was pending for it, and the GUI applies it.\<close>

lemma served_root_applied:
  fixes sys :: "('x, 'e, 't) object_system" and receiver :: "('x, 'e, 's) object_system"
  assumes "root_served sys d enum m rt' m' root nodes" "\<not> has_unread_published (channel_of m root)" "enumerates enum"
    and "card nodes < 2 ^ 32" "i \<in> nodes" "\<forall>j\<in>nodes. publishable sys d j \<and> shell_known (os_ae sys) (fst (fragment_of sys d j)) j"
    and "os_ae receiver = os_ae sys" "in_ui (channel_of m root) = -1"
  shows "pending_by_root rt' root = None \<and> (\<exists>ch ids ch' s' u'. ui_channels m' root = Some ch \<and>
    ApplyPublished receiver ops create root ch s u = Some (ids, ch', s', u') \<and> distinct ids \<and> set ids = nodes)"
proof -
  note enum = enumerated [OF assms(3), of nodes]
  obtain m1 m2 ch where ch: "ui_channels m' root = Some ch" "ui_channels m2 root = Some ch" "in_ui ch = in_ui (channel_of m root)"
    "Publish sys d root (enum nodes) m1 = Some (\<not> has_unread_published (channel_of m root), m2)"
    "pending_by_root rt' root = (if has_unread_published (channel_of m root) then Some nodes else None)"
    using assms(1) unfolding root_served_def by blast
  have all: "\<forall>j\<in>set (enum nodes). publishable sys d j \<and> shell_known (os_ae sys) (fst (fragment_of sys d j)) j"
    using assms(6) by (simp add: enum)
  have some: "enum nodes \<noteq> []" using assms(5) enum by auto
  have short: "length (enum nodes) < 2 ^ 32" using assms(4) distinct_card [of "enum nodes"] enum by simp
  have taken: "Publish sys d root (enum nodes) m1 = Some (True, m2)" using ch(4) assms(2) by simp
  have idle: "in_ui ch = -1" using ch(3) assms(8) by simp
  obtain ids ch' s' u' where applied: "ApplyPublished receiver ops create root ch s u = Some (ids, ch', s', u')" "mset ids = mset (enum nodes)"
    using batch_applied [OF assms(7) some short all taken ch(2) idle] by blast
  have "distinct ids" using applied(2) enum mset_eq_imp_distinct_iff by blast
  moreover have "set ids = nodes" using applied(2) enum mset_eq_setD by blast
  ultimately show ?thesis using ch(1,5) applied(1) assms(2) by auto
qed

section \<open>Properties\<close>

text \<open>Detaching a node from a root fails only for a node that was never mapped; otherwise exactly this mapping
  and its pending entry are gone, and with its last mapping the node leaves the execution list, its notifier is
  cleared, and no pending set holds a pointer to it.\<close>

theorem detach_forgets_node:
  assumes "runtime_ok rt"
  shows "(DetachNode i root rt = None \<longleftrightarrow> object_to_roots rt i = None) \<and>
    (\<forall>rt'. DetachNode i root rt = Some rt' \<longrightarrow> runtime_ok rt' \<and>
      (\<forall>j r. IsMappedToPresentationRoot j r rt' \<longleftrightarrow> IsMappedToPresentationRoot j r rt \<and> (j, r) \<noteq> (i, root)) \<and>
      (\<forall>r j. (\<exists>nodes. pending_by_root rt' r = Some nodes \<and> j \<in> nodes) \<longleftrightarrow>
        (\<exists>nodes. pending_by_root rt r = Some nodes \<and> j \<in> nodes) \<and> (j, r) \<noteq> (i, root)) \<and>
      ((\<forall>r. \<not> IsMappedToPresentationRoot i r rt') \<longrightarrow>
        \<not> IsInExecutionList i rt' \<and> i \<notin> mr_bound rt' \<and> (\<forall>r nodes. pending_by_root rt' r = Some nodes \<longrightarrow> i \<notin> nodes)) \<and>
      ((\<exists>r. IsMappedToPresentationRoot i r rt') \<longrightarrow> model_nodes rt' = model_nodes rt \<and> mr_bound rt' = mr_bound rt))"
proof (intro conjI allI impI)
  show "DetachNode i root rt = None \<longleftrightarrow> object_to_roots rt i = None"
    by (auto simp: DetachNode_def Let_def split: option.splits)
next
  fix rt'
  assume d: "DetachNode i root rt = Some rt'"
  note eqs = DetachNode_roots [OF d]
  show ok: "runtime_ok rt'" by (rule runtime_ok_DetachNode [OF assms d])
  fix j r
  show "IsMappedToPresentationRoot j r rt' \<longleftrightarrow> IsMappedToPresentationRoot j r rt \<and> (j, r) \<noteq> (i, root)"
    by (auto simp: IsMappedToPresentationRoot_def eqs(1))
  show "(\<exists>nodes. pending_by_root rt' r = Some nodes \<and> j \<in> nodes) \<longleftrightarrow>
      (\<exists>nodes. pending_by_root rt r = Some nodes \<and> j \<in> nodes) \<and> (j, r) \<noteq> (i, root)"
    by (auto simp: eqs(2) drop_pending_at split: option.splits)
next
  fix rt'
  assume d: "DetachNode i root rt = Some rt'" and gone: "\<forall>r. \<not> IsMappedToPresentationRoot i r rt'"
  note eqs = DetachNode_roots [OF d]
  have "roots_of i rt' = []"
    using gone unfolding IsMappedToPresentationRoot_def by (cases "roots_of i rt'") auto
  then have "removeAll root (roots_of i rt) = []" unfolding eqs(1) by simp
  then show "\<not> IsInExecutionList i rt'" "i \<notin> mr_bound rt'" by (simp_all add: IsInExecutionList_def eqs(5,6))
  show "i \<notin> nodes" if "pending_by_root rt' r = Some nodes" for r nodes
    using runtime_okD(2) [OF runtime_ok_DetachNode [OF assms d] that, of i] gone by (auto simp: IsMappedToPresentationRoot_def)
next
  fix rt'
  assume d: "DetachNode i root rt = Some rt'" and "\<exists>r. IsMappedToPresentationRoot i r rt'"
  then have "roots_of i rt' \<noteq> []" by (auto simp: IsMappedToPresentationRoot_def)
  then have "removeAll root (roots_of i rt) \<noteq> []" unfolding DetachNode_roots(1) [OF d] by simp
  then show "model_nodes rt' = model_nodes rt" "mr_bound rt' = mr_bound rt" by (simp_all add: DetachNode_roots(5,6) [OF d])
qed

text \<open>A node shown below two roots, changed and detached from both.\<close>

definition sample_runtime :: model_runtime where
  "sample_runtime = \<lparr> presentation_roots = [1, 2], model_nodes = [7], object_to_roots = [7 \<mapsto> [1, 2]],
     pending_by_root = [1 \<mapsto> {7}, 2 \<mapsto> {7}], mr_bound = {7} \<rparr>"

lemma sample_runtime_ok: "runtime_ok sample_runtime"
  by (simp add: runtime_ok_def sample_runtime_def roots_of_def)

lemma detach_forgets_node_witness:
  "\<exists>rt1. DetachNode 7 1 sample_runtime = Some rt1 \<and> IsMappedToPresentationRoot 7 2 rt1 \<and> \<not> IsMappedToPresentationRoot 7 1 rt1 \<and>
     model_nodes rt1 = [7]"
proof -
  obtain rt1 where rt1: "DetachNode 7 1 sample_runtime = Some rt1"
    by (simp add: DetachNode_def sample_runtime_def drop_pending_def Let_def)
  have two: "IsMappedToPresentationRoot 7 r sample_runtime \<longleftrightarrow> r = 1 \<or> r = 2" for r
    by (simp add: IsMappedToPresentationRoot_def roots_of_def sample_runtime_def)
  have facts: "IsMappedToPresentationRoot 7 r rt1 \<longleftrightarrow> IsMappedToPresentationRoot 7 r sample_runtime \<and> (7, r) \<noteq> (7 :: u32, 1)"
    "(\<exists>r. IsMappedToPresentationRoot 7 r rt1) \<longrightarrow> model_nodes rt1 = model_nodes sample_runtime" for r
    using mp [OF spec [OF conjunct2 [OF detach_forgets_node [OF sample_runtime_ok, of 7 1]]] rt1] by blast+
  have "IsMappedToPresentationRoot 7 2 rt1" using facts(1) [of 2] two by simp
  then show ?thesis using rt1 facts(1) [of 1] facts(2) by (auto simp: sample_runtime_def)
qed

text \<open>C36. A materialized change of a bound node that is shown below a root is not lost: the next PublishChanged
  meets no assertion, and either the last publication for the root is still unread and the node stays pending, or
  the nodes pending for the root are published together and the GUI thread finds and applies them all.\<close>

theorem change_reaches_ui:
  fixes sys :: "('x, 'e, 't) object_system" and receiver :: "('x, 'e, 's) object_system"
  assumes "i \<in> mr_bound rt" "IsMappedToPresentationRoot i root rt" "runtime_ok rt" "mirror_ok m" "enumerates enum"
    and "\<forall>r nodes. pending_by_root (NotifyMaterializedChange i rt) r = Some nodes \<longrightarrow> card nodes < 2 ^ 32 \<and>
      (\<forall>j\<in>nodes. publishable sys d j \<and> shell_known (os_ae sys) (fst (fragment_of sys d j)) j)"
    and "os_ae receiver = os_ae sys" "in_ui (channel_of m root) = -1"
  shows "\<exists>rt' m' nodes. PublishChanged sys d enum (NotifyMaterializedChange i rt) m = Some (rt', m') \<and> i \<in> nodes \<and>
    (if has_unread_published (channel_of m root) then pending_by_root rt' root = Some nodes
     else pending_by_root rt' root = None \<and> (\<exists>ch ids ch' s' u'. ui_channels m' root = Some ch \<and>
       ApplyPublished receiver ops create root ch s u = Some (ids, ch', s', u') \<and> distinct ids \<and> set ids = nodes))"
proof -
  let ?rt = "NotifyMaterializedChange i rt"
  obtain nodes where nodes: "pending_by_root ?rt root = Some nodes" "i \<in> nodes" using notified_node_pends [OF assms(1,2)] .
  have known: "publishable sys d j \<and> shell_known (os_ae sys) (fst (fragment_of sys d j)) j"
    if "pending_by_root ?rt r = Some ns" "j \<in> ns" for r ns j
    using assms(6) that by blast
  have pp: "pending_publishable sys d ?rt"
    using known runtime_okD(1) [OF runtime_ok_Notify [OF assms(3)]] unfolding pending_publishable_def by blast
  note enum = enumerated [OF assms(5)]
  have "root \<in> set (enum (Map.dom (pending_by_root ?rt)))" using nodes(1) by (simp add: enum domI)
  then obtain rt' m' where run: "publish_each sys d enum (enum (Map.dom (pending_by_root ?rt))) ?rt m = Some (rt', m')"
    and served: "root_served sys d enum m rt' m' root nodes"
    using publish_each_total [OF assms(4) pp assms(5) conjunct2 [OF enum]] nodes(1) by blast
  have published: "PublishChanged sys d enum ?rt m = Some (rt', m')" using run by (simp add: PublishChanged_def)
  show ?thesis
  proof (cases "has_unread_published (channel_of m root)")
    case True
    then have "pending_by_root rt' root = Some nodes" using served unfolding root_served_def by auto
    then show ?thesis using published nodes(2) True by auto
  next
    case False
    have "card nodes < 2 ^ 32" "\<forall>j\<in>nodes. publishable sys d j \<and> shell_known (os_ae sys) (fst (fragment_of sys d j)) j"
      using assms(6) nodes(1) by blast+
    note applied = served_root_applied [OF served False assms(5) this(1) nodes(2) this(2) assms(7,8), of ops create s u]
    then show ?thesis using published nodes(2) False by auto
  qed
qed

text \<open>The node of the sample domain changes below the root 1 of an idle mirror.\<close>

lemma change_reaches_ui_witness:
  "\<exists>rt' m' ch ids ch' s' u'. PublishChanged sample_system sample_domain sorted_list_of_set
     (NotifyMaterializedChange 7 (sample_runtime\<lparr> pending_by_root := Map.empty, object_to_roots := [7 \<mapsto> [1]] \<rparr>)) UiMirror = Some (rt', m') \<and>
    pending_by_root rt' 1 = None \<and> ui_channels m' 1 = Some ch \<and>
    ApplyPublished sample_system (DirectoryOps no_faults) (\<lambda>c. sample_live_node) 1 ch sample_directory Map.empty = Some (ids, ch', s', u') \<and>
    7 \<in> set ids"
proof -
  let ?rt = "sample_runtime\<lparr> pending_by_root := Map.empty, object_to_roots := [7 \<mapsto> [1]] \<rparr>"
  have pending: "pending_by_root (NotifyMaterializedChange 7 ?rt) = [1 \<mapsto> {7}]"
    by (simp add: NotifyMaterializedChange_def OnMaterializedChange_def add_pending_def sample_runtime_def fun_eq_iff)
  have 1: "7 \<in> mr_bound ?rt" "IsMappedToPresentationRoot 7 1 ?rt" "runtime_ok ?rt" "mirror_ok UiMirror"
    by (simp_all add: IsMappedToPresentationRoot_def roots_of_def sample_runtime_def runtime_ok_def mirror_ok_def UiMirror_def)
  have 2: "enumerates sorted_list_of_set" by (simp add: enumerates_def)
  have 3: "\<forall>r nodes. pending_by_root (NotifyMaterializedChange 7 ?rt) r = Some nodes \<longrightarrow> card nodes < 2 ^ 32 \<and>
      (\<forall>j\<in>nodes. publishable sample_system sample_domain j \<and> shell_known (os_ae sample_system) (fst (fragment_of sample_system sample_domain j)) j)"
    using sample_publishable unfolding pending by simp
  have 4: "in_ui (channel_of UiMirror 1) = -1" "\<not> has_unread_published (channel_of UiMirror 1)"
    by (simp_all add: channel_of_def ChannelFor_def UiMirror_def PublicationChannel_def has_unread_published_def)
  show ?thesis
    using change_reaches_ui [OF 1 2 3 refl 4(1), where create = "\<lambda>c. sample_live_node" and ops = "DirectoryOps no_faults" and s = sample_directory and u = Map.empty] 4(2)
    by (simp only: if_False) blast
qed

end
