(* ===== verification/NodeProperties.thy ===== *)
theory NodeProperties
  imports SharedNode
begin

text \<open>
  What the journal of a Node promises to every concrete class (any \<open>ops\<close> with the contract
  \<open>node_class ops view\<close>).  The witnesses run a synchronization state node, whose class meets the
  contract by \<open>link_sync_class\<close>.
\<close>

section \<open>Samples\<close>

definition sample_record :: "obj_id \<Rightarrow> string \<Rightarrow> u64 \<Rightarrow> u64 \<Rightarrow> link_sync_event \<Rightarrow> link_sync_event event_record" where
  "sample_record i origin k ts e =
     \<lparr> event = \<lparr> ptr_valid = True, ptr_id = i, ptr_domain = Some 0, ptr_object = Some e, ptr_stored = None \<rparr>,
       identity = \<lparr> origin_uid = origin, origin_sequence = k \<rparr>, timestamp_us = ts, retained_since_us = 1 \<rparr>"

definition record_a :: "link_sync_event event_record" where
  "record_a = sample_record 50 ''bob'' 1 20 (NoteInitialSyncReceivedEvent 60)"

definition record_b :: "link_sync_event event_record" where
  "record_b = sample_record 51 ''bob'' 2 10 (NoteInitialSyncReceivedEvent 61)"

definition record_c :: "link_sync_event event_record" where
  "record_c = sample_record 52 ''bob'' 3 30 (CompleteFromReceivedSnapshotEvent [])"

definition sample_after :: "link_sync_event event_record list \<Rightarrow> link_sync_node" where
  "sample_after rs = the (insert_all sample_sync_ops (map (\<lambda>r. (5, r)) rs) sample_sync_node)"

lemmas sample_defs = sample_record_def record_a_def record_b_def record_c_def sample_sync_node_eq
  kJournalFullyMaterialized_def

lemmas run_defs = TryInsertEvent_def TryEnsureCurrentGeneration_def TryRebuildFromBaseAndReplay_def
  TryReplayJournal_def ApplyEvent_def NoteMaterializedChange_def usable_event_def HasSharedIdentity_def
  EventRecordOrderLess_def SharedEventOrderLess_def lower_bound_def lower_bound_from.simps insert_at_def is_loaded_def

lemma sample_insert_a: "insert_all sample_sync_ops [(5, record_a)] sample_sync_node = Some (sample_after [record_a])"
  by (simp add: sample_after_def sample_defs run_defs)

lemma sample_insert_ab:
  "insert_all sample_sync_ops [(5, record_a), (5, record_b)] sample_sync_node = Some (sample_after [record_a, record_b])"
  by (simp add: sample_after_def sample_defs run_defs LinkSyncState_ops_def)

lemma sample_insert_ba:
  "insert_all sample_sync_ops [(5, record_b), (5, record_a)] sample_sync_node = Some (sample_after [record_b, record_a])"
  by (simp add: sample_after_def sample_defs run_defs LinkSyncState_ops_def)

lemma sample_small: "length (journal sample_sync_node) + 2 \<le> kJournalFullyMaterialized"
  "length (journal sample_sync_node) < kJournalFullyMaterialized"
  by (simp_all add: sample_sync_node_eq kJournalFullyMaterialized_def)

lemma sample_after_a_inv: "node_inv sample_sync_ops id (sample_after [record_a])"
  by (rule conjunct1 [OF link_sync.insert_all_ok [OF sample_sync_node_inv _ sample_insert_a]])
    (simp add: sample_sync_node_eq kJournalFullyMaterialized_def)

lemma sample_after_a_fields:
  "journal (sample_after [record_a]) = [record_a]" "base_layer (sample_after [record_a]) = base_layer sample_sync_node"
  "node_domain (sample_after [record_a]) = Some 0" "\<not> suppress_materialized_change (sample_after [record_a])"
  "applied_journal_size (sample_after [record_a]) = 1"
  "materialized (sample_after [record_a]) = (materialized sample_sync_node)\<lparr> received_initial_packet_id := 60,
     initial_sync_phase := Complete \<rparr>"
  by (simp_all add: sample_after_def sample_defs run_defs LinkSyncState_ops_def)

lemma sample_positions:
  "lower_bound EventRecordOrderLess [record_a] record_b = 0" "stamped 5 record_b = record_b" "stamped 5 record_a = record_a"
  "lower_bound EventRecordOrderLess [record_a] record_c = 1" "stamped 5 record_c = record_c"
  "Suc 0 < kJournalFullyMaterialized" "0 < kJournalFullyMaterialized"
  by (simp_all add: sample_defs run_defs stamped_def)

section \<open>Insertion\<close>

lemma mset_insert_at: "mset (insert_at i x xs) = add_mset x (mset xs)"
proof -
  have "mset xs = mset (take i xs) + mset (drop i xs)" by (metis append_take_drop_id mset_append)
  then show ?thesis by (simp add: insert_at_def)
qed

lemma nth_insert_at: "i \<le> length xs \<Longrightarrow> insert_at i x xs ! i = x"
  by (simp add: insert_at_def nth_append)

lemma lower_bound_timestamp_le:
  "sorted (map timestamp_us js) \<Longrightarrow> lower_bound EventRecordOrderLess js r \<le> length js"
  by (simp add: lower_bound_timestamp length_takeWhile_le)

text \<open>C2. A successful insertion keeps the node's invariant: the journal stays sorted by timestamp, no shared
  identity occurs twice, and the fields are the journal replayed on the captured base.  The record,
  stamped with the time of its retention, is in the journal at its lower bound and nothing else of
  journal or base moved.\<close>

theorem insertion_keeps_invariant:
  assumes "node_class ops view" "node_inv ops view n" "length (journal n) < kJournalFullyMaterialized"
    and "TryInsertEvent ops t r n = Some (True, n')"
  shows "node_inv ops view n' \<and> mset (journal n') = add_mset (stamped t r) (mset (journal n)) \<and>
    journal n' ! lower_bound EventRecordOrderLess (journal n) r = stamped t r \<and> base_layer n' = base_layer n"
proof -
  have i: "node_inv ops view n'" "journal n' = inserted_journal t r (journal n)" "base_layer n' = base_layer n"
    using node_class.insert_ok [OF assms] by blast+
  have "sorted (map timestamp_us (journal n))"
    using assms(2) by (simp add: node_inv_def journal_sorted_def)
  then show ?thesis
    using i by (simp add: inserted_journal_def mset_insert_at nth_insert_at lower_bound_timestamp_le)
qed

lemma sample_second: "TryInsertEvent sample_sync_ops 5 record_b (sample_after [record_a]) =
    Some (True, sample_after [record_a, record_b])"
  by (simp add: sample_after_def sample_defs run_defs LinkSyncState_ops_def)

lemma insertion_keeps_invariant_witness:
  "node_inv sample_sync_ops id (sample_after [record_a, record_b]) \<and>
    mset (journal (sample_after [record_a, record_b])) = {#record_a, record_b#} \<and>
    journal (sample_after [record_a, record_b]) ! 0 = record_b"
  using insertion_keeps_invariant [OF link_sync_class sample_after_a_inv _ sample_second]
  by (simp add: sample_after_a_fields sample_positions add_mset_commute)

text \<open>Whether TryInsertEvent inserts is decided by the record alone: a record whose pointers, domain
  or timestamp are wrong, or whose identity is already in the journal, is refused and the node is not
  touched; an admissible record is inserted whenever the journal with it replays on the base.\<close>

theorem insertion_decided:
  assumes "node_class ops view" "node_inv ops view n" "length (journal n) < kJournalFullyMaterialized"
    and "base_layer n = Some (ops_save ops s0)"
  shows "if \<not> admissible r n then TryInsertEvent ops t r n = Some (False, n)
    else replay ops (inserted_journal t r (journal n)) s0 \<noteq> None \<longrightarrow>
      (\<exists>n'. TryInsertEvent ops t r n = Some (True, n'))"
  using node_class.insert_accepts [OF assms(1-3) _ assms(4)] by (auto simp: TryInsertEvent_alt)

lemma sample_admissible:
  "\<not> admissible record_a (sample_after [record_a])" "admissible record_b (sample_after [record_a])"
  "admissible record_c (sample_after [record_a])"
  by (simp_all add: sample_after_def sample_defs run_defs admissible_def LinkSyncState_ops_def)

lemma sample_base_layer:
  "base_layer (sample_after [record_a]) = Some (ops_save sample_sync_ops (materialized sample_sync_node))"
  by (simp add: sample_after_a_fields) (simp add: sample_sync_node_eq)

lemma sample_replays: "replay sample_sync_ops [record_b, record_a] (materialized sample_sync_node) \<noteq> None"
  by (simp add: sample_defs run_defs LinkSyncState_ops_def)

lemma insertion_decided_witness:
  "TryInsertEvent sample_sync_ops 5 record_a (sample_after [record_a]) = Some (False, sample_after [record_a]) \<and>
    (\<exists>n'. TryInsertEvent sample_sync_ops 5 record_b (sample_after [record_a]) = Some (True, n'))"
proof -
  have l: "length (journal (sample_after [record_a])) < kJournalFullyMaterialized"
    by (simp add: sample_after_a_fields sample_positions)
  have j: "inserted_journal 5 record_b (journal (sample_after [record_a])) = [record_b, record_a]"
    by (simp add: sample_after_a_fields sample_positions inserted_journal_def insert_at_def)
  show ?thesis
    using insertion_decided [OF link_sync_class sample_after_a_inv l sample_base_layer, of record_a 5]
      insertion_decided [OF link_sync_class sample_after_a_inv l sample_base_layer, of record_b 5]
      sample_admissible sample_replays unfolding j by metis
qed

text \<open>A record appended at the end of the journal that cannot be applied is taken out again: journal,
  base, fields and generation are those before the call; only the replay cursor may have moved to the
  end of the journal.\<close>

theorem rejected_append_restores:
  assumes "node_class ops view" "node_inv ops view n" "length (journal n) < kJournalFullyMaterialized"
    and "lower_bound EventRecordOrderLess (journal n) r = length (journal n)"
    and "TryInsertEvent ops t r n = Some (False, n')"
  shows "n' = n \<or> n' = n\<lparr> applied_journal_size := length (journal n) \<rparr>"
  by (rule node_class.append_rejected [OF assms])

lemma rejected_append_restores_witness:
  "\<exists>n'. TryInsertEvent sample_sync_ops 5 record_c (sample_after [record_a]) = Some (False, n') \<and>
    materialized n' = materialized (sample_after [record_a]) \<and> journal n' = [record_a]"
proof -
  have p: "lower_bound EventRecordOrderLess (journal (sample_after [record_a])) record_c =
      length (journal (sample_after [record_a]))"
    by (simp add: sample_after_a_fields sample_positions)
  have "\<exists>n'. TryInsertEvent sample_sync_ops 5 record_c (sample_after [record_a]) = Some (False, n')"
    by (simp add: sample_after_def sample_defs run_defs LinkSyncState_ops_def Complete_def NotStarted_def)
  then obtain n' where n': "TryInsertEvent sample_sync_ops 5 record_c (sample_after [record_a]) = Some (False, n')" by blast
  have "length (journal (sample_after [record_a])) < kJournalFullyMaterialized"
    by (simp add: sample_after_a_fields kJournalFullyMaterialized_def)
  then show ?thesis
    using rejected_append_restores [OF link_sync_class sample_after_a_inv _ p n'] n' by (auto simp: sample_after_a_fields)
qed

section \<open>Order of arrival\<close>

text \<open>C1. Replicas that start from the same base and journal and insert the same records end with the same
  journal and the same fields, whatever the order in which the records arrived, as long as no two
  records of the final journal carry the same timestamp.\<close>

theorem arrival_order_irrelevant:
  assumes "node_class ops view"
    and "node_inv ops view n" "length (journal n) + length xs \<le> kJournalFullyMaterialized"
      "insert_all ops xs n = Some n'"
    and "node_inv ops view m" "length (journal m) + length ys \<le> kJournalFullyMaterialized"
      "insert_all ops ys m = Some m'"
    and "base_layer n = base_layer m" "map content (journal n) = map content (journal m)"
    and "mset (map (content \<circ> snd) xs) = mset (map (content \<circ> snd) ys)"
    and "distinct (map timestamp_us (journal n'))"
  shows "map content (journal n') = map content (journal m') \<and> view (materialized n') = view (materialized m')"
  by (rule node_class.convergence [OF assms])

lemma sample_after_ab_fields:
  "journal (sample_after [record_a, record_b]) = [record_b, record_a]"
  "\<not> suppress_materialized_change (sample_after [record_a, record_b])"
  "\<not> journal_compaction_blocked (sample_after [record_a, record_b])"
  "received_initial_packet_id (materialized (sample_after [record_a, record_b])) = 60"
  by (simp_all add: sample_after_def sample_defs run_defs LinkSyncState_ops_def)

lemma arrival_order_irrelevant_witness:
  "map content (journal (sample_after [record_a, record_b])) = map content (journal (sample_after [record_b, record_a])) \<and>
    materialized (sample_after [record_a, record_b]) = materialized (sample_after [record_b, record_a])"
proof -
  have d: "distinct (map timestamp_us (journal (sample_after [record_a, record_b])))"
    by (simp add: sample_after_ab_fields) (simp add: sample_defs)
  show ?thesis
    using arrival_order_irrelevant [OF link_sync_class sample_sync_node_inv _ sample_insert_ab
        sample_sync_node_inv _ sample_insert_ba refl refl _ d] sample_small by (simp add: add_mset_commute)
qed

section \<open>Compaction\<close>

text \<open>C32. Compaction folds exactly the collapsible prefix into the base and never fails: the fields, the
  generation and the notifier are not disturbed and the invariant, with the new base, still holds.\<close>

theorem compaction_preserves_fields:
  assumes "node_class ops view" "node_inv ops view n" "\<not> suppress_materialized_change n"
  shows "\<exists>n'. CompactJournalInto ops now n = Some n' \<and> node_inv ops view n' \<and>
    journal n' = drop (CollapsiblePrefixCount now n) (journal n) \<and>
    view (materialized n') = view (materialized n) \<and> generation n' = generation n \<and>
    notifications n' = notifications n \<and> \<not> suppress_materialized_change n'"
  by (rule node_class.compact_total [OF assms])

definition sample_compactable :: link_sync_node where
  "sample_compactable = SetJournalRetentionPolicy \<lparr> max_events = 1, max_age = None \<rparr> (sample_after [record_a, record_b])"

lemma sample_compactable_ok:
  "node_inv sample_sync_ops id sample_compactable" "\<not> suppress_materialized_change sample_compactable"
  "journal sample_compactable = [record_b, record_a]" "CollapsiblePrefixCount 100 sample_compactable = 1"
proof -
  have "node_inv sample_sync_ops id (sample_after [record_a, record_b])"
    by (rule conjunct1 [OF link_sync.insert_all_ok [OF sample_sync_node_inv _ sample_insert_ab]])
      (simp add: sample_sync_node_eq kJournalFullyMaterialized_def)
  then show "node_inv sample_sync_ops id sample_compactable"
    by (simp add: sample_compactable_def SetJournalRetentionPolicy_def node_inv_def node_live_def consistent_def)
  show "CollapsiblePrefixCount 100 sample_compactable = 1"
    by (simp add: sample_compactable_def SetJournalRetentionPolicy_def CollapsiblePrefixCount_def
        sample_after_ab_fields retain_record_def kUnlimitedEvents_def)
qed (simp_all add: sample_compactable_def SetJournalRetentionPolicy_def sample_after_ab_fields)

lemma compaction_preserves_fields_witness:
  "\<exists>n'. CompactJournalInto sample_sync_ops 100 sample_compactable = Some n' \<and> journal n' = [record_a] \<and>
    materialized n' = materialized sample_compactable"
  using compaction_preserves_fields [OF link_sync_class sample_compactable_ok(1,2), of 100] sample_compactable_ok(3,4)
  by (metis One_nat_def drop0 drop_Suc_Cons id_apply)

text \<open>The collapsible prefix is the longest prefix that retention does not need: it stays inside the
  journal, none of its records is retained by count or by age, the first record after it is, and at
  least \<open>max_events\<close> records survive.  Nothing collapses while compaction is blocked.\<close>

theorem collapsible_prefix_exact:
  "(if journal_compaction_blocked n then CollapsiblePrefixCount now n = 0
    else (\<forall>i<CollapsiblePrefixCount now n.
        \<not> retain_record (journal_retention_policy n) now (length (journal n) - i) (journal n ! i)) \<and>
      (CollapsiblePrefixCount now n = length (journal n) \<or>
        retain_record (journal_retention_policy n) now (length (journal n) - CollapsiblePrefixCount now n)
          (journal n ! CollapsiblePrefixCount now n))) \<and>
   CollapsiblePrefixCount now n \<le> length (journal n) \<and>
   min (max_events (journal_retention_policy n)) (length (journal n)) \<le> length (journal n) - CollapsiblePrefixCount now n"
proof -
  let ?p = "journal_retention_policy n" and ?js = "journal n"
  show ?thesis
    using collapsible_scan_le [where p = ?p and now = now and js = ?js]
      collapsible_scan_keeps_count [where p = ?p and now = now and js = ?js]
      collapsible_scan_collapses [where p = ?p and now = now and js = ?js]
      collapsible_scan_stops [where p = ?p and now = now and js = ?js]
    by (auto simp: CollapsiblePrefixCount_def le_less)
qed

lemma collapsible_prefix_exact_witness:
  "\<not> retain_record \<lparr> max_events = 1, max_age = None \<rparr> 100 2 record_b"
proof -
  have b: "\<not> journal_compaction_blocked sample_compactable" "journal_retention_policy sample_compactable = \<lparr> max_events = 1, max_age = None \<rparr>"
    by (simp_all add: sample_compactable_def SetJournalRetentionPolicy_def sample_after_ab_fields)
  show ?thesis
    using collapsible_prefix_exact [of sample_compactable 100] sample_compactable_ok(3,4) b
    by (simp add: numeral_2_eq_2)
qed

section \<open>Local commits\<close>

text \<open>A local commit of an applicable event succeeds and appends: the record has no shared identity and a
  timestamp after every other, the fields are the event applied to the fields before, and the invariant
  holds again.  The one exception is a last record at the largest timestamp (C8).\<close>

theorem commit_succeeds_and_appends:
  assumes "node_class ops view" "node_inv ops view n" "length (journal n) < kJournalFullyMaterialized"
    and "ptr_valid ev" "ptr_object ev = Some e" "ptr_domain ev = node_domain n"
    and "ops_can_apply ops e (materialized n)" "ops_apply ops (ptr_id ev) e (materialized n) = Some (s', k)"
    and "now1 \<noteq> 0" "journal n = [] \<or> timestamp_us (last (journal n)) \<noteq> -1"
  shows "\<exists>n' r. CommitInto ops now1 now2 now3 ev n = Some n' \<and> node_inv ops view n' \<and>
    materialized n' = s' \<and> journal n' = journal n @ [r] \<and> event r = ev \<and> \<not> HasSharedIdentity r \<and>
    (\<forall>x\<in>set (journal n). timestamp_us x < timestamp_us r)"
proof -
  have "journal_sorted (journal n)" using assms(2) by (simp add: node_inv_def)
  then show ?thesis
    using node_class.commit_runs [OF assms, of now2 now3] node_class.commit_timestamp_later [OF assms(1) _ assms(10)] by metis
qed

lemma commit_succeeds_and_appends_witness:
  "\<exists>n' r. CommitInto sample_sync_ops 15 16 17 (event record_b) (sample_after [record_a]) = Some n' \<and>
    journal n' = [record_a, r] \<and> (20::u64) < timestamp_us r"
proof -
  let ?n = "sample_after [record_a]"
  have l: "length (journal ?n) < kJournalFullyMaterialized" by (simp add: sample_after_a_fields sample_positions)
  have e: "ptr_valid (event record_b)" "ptr_object (event record_b) = Some (NoteInitialSyncReceivedEvent 61)"
      "ptr_domain (event record_b) = node_domain ?n"
    by (simp_all add: sample_after_a_fields record_b_def sample_record_def)
  have c: "ops_can_apply sample_sync_ops (NoteInitialSyncReceivedEvent 61) (materialized ?n)"
      "\<exists>s'. ops_apply sample_sync_ops (ptr_id (event record_b)) (NoteInitialSyncReceivedEvent 61) (materialized ?n) = Some (s', 1)"
    by simp_all
  then obtain s' where a: "ops_apply sample_sync_ops (ptr_id (event record_b)) (NoteInitialSyncReceivedEvent 61)
      (materialized ?n) = Some (s', 1)" by blast
  have t: "timestamp_us record_a = 20" by (simp add: sample_defs)
  have w: "journal ?n = [] \<or> timestamp_us (last (journal ?n)) \<noteq> -1"
    using t by (simp add: sample_after_a_fields)
  show ?thesis
    using commit_succeeds_and_appends [OF link_sync_class sample_after_a_inv l e c(1) a _ w, of 15 16 17] t
    by (auto simp: sample_after_a_fields)
qed

text \<open>The exception: when the last record carries the largest 64-bit timestamp, every local commit fails,
  whatever the clock says: the timestamp after it wraps to 0, which the insertion refuses.\<close>

theorem commit_fails_at_last_timestamp:
  assumes "journal n \<noteq> []" "timestamp_us (last (journal n)) = -1"
  shows "CommitInto ops now1 now2 now3 ev n = None"
  by (rule commit_after_last_timestamp [OF assms])

definition record_max :: "link_sync_event event_record" where
  "record_max = sample_record 53 ''mallory'' 1 (-1) (NoteInitialSyncReceivedEvent 62)"

lemma commit_fails_at_last_timestamp_witness:
  "\<exists>n'. TryInsertEvent sample_sync_ops 5 record_max sample_sync_node = Some (True, n') \<and>
    CommitInto sample_sync_ops 15 16 17 (event record_b) n' = None"
proof -
  have "insert_all sample_sync_ops [(5, record_max)] sample_sync_node = Some (sample_after [record_max]) \<and>
      TryInsertEvent sample_sync_ops 5 record_max sample_sync_node = Some (True, sample_after [record_max]) \<and>
      journal (sample_after [record_max]) = [record_max] \<and> timestamp_us record_max = -1"
    by (simp add: sample_after_def sample_defs run_defs LinkSyncState_ops_def record_max_def)
  then show ?thesis using commit_fails_at_last_timestamp [of "sample_after [record_max]"] by auto
qed

section \<open>Trials on a copy\<close>

text \<open>A trial on a disposable copy decides for the original: when the copy has the original's journal
  contents and a base of the same view, and a record with the same effect could be inserted into the
  copy, then the record can be inserted into the original.\<close>

theorem trial_on_copy_sound:
  assumes "node_class ops view"
    and "node_inv ops view n" "length (journal n) < kJournalFullyMaterialized"
    and "node_inv ops view m" "length (journal m) < kJournalFullyMaterialized"
    and "map content (journal m) = map content (journal n)"
      "base_layer m = Some (ops_save ops s1)" "base_layer n = Some (ops_save ops s0)" "view s1 = view s0"
    and "TryInsertEvent ops t1 r m = Some (True, m')"
    and "same_effect ops r q" "admissible q n"
  shows "\<exists>n'. TryInsertEvent ops t2 q n = Some (True, n')"
  by (rule node_class.trial_insert_sound [OF assms])

lemma trial_on_copy_sound_witness:
  "\<exists>n'. TryInsertEvent sample_sync_ops 77 record_b (sample_after [record_a]) = Some (True, n')"
proof -
  have l: "length (journal (sample_after [record_a])) < kJournalFullyMaterialized"
    by (simp add: sample_after_a_fields sample_positions)
  show ?thesis
    by (rule trial_on_copy_sound [OF link_sync_class sample_after_a_inv l sample_after_a_inv l refl
          sample_base_layer sample_base_layer refl sample_second _ sample_admissible(2)])
      (simp add: same_effect_def)
qed

end
