(* ===== verification/Presentation.thy ===== *)
theory Presentation
  imports Checkpoint
begin

text \<open>
  Live topology and presenters (src/src/object_serialization.cpp, src/include/apptraverse/graph_walk.h and
  presenter.h): the walk over live pointer fields, the objects that count as live for the GUI, the activation
  of presenters in passes until nothing moves, and their unloading in descending load order.
\<close>

section \<open>The walk over live fields\<close>

text \<open>\<open>edges i\<close> are the ids of the valid graph edges of the object \<open>i\<close>, in the order in which the reflection
  and the registered edge appender push them.  The head of the list is the back of the vector.\<close>

function live_walk :: "(obj_id \<Rightarrow> obj_id list) \<Rightarrow> ('x, 'e) domain \<Rightarrow> obj_id list \<Rightarrow> obj_id list \<Rightarrow> obj_id list" where
  "live_walk edges d out [] = out"
| "live_walk edges d out (i # stack) =
     (if i \<in> set out then live_walk edges d out stack
      else live_walk edges d (out @ [i]) (rev (filter (\<lambda>j. d j \<noteq> None) (edges i)) @ stack))"
  by pat_completeness auto

termination live_walk
proof (relation "measures [\<lambda>(edges, d, out, stack). card (- set out), \<lambda>(edges, d, out, stack). length stack]", goal_cases)
  case (3 edges d out i stack)
  then have "- set (out @ [i]) \<subset> - set out" by auto
  then have "card (- set (out @ [i])) < card (- set out)" by (rule psubset_card_mono [OF finite])
  then show ?case by simp
qed simp_all

definition CollectReachableObjectsFromLiveFields ::
  "aether \<Rightarrow> (obj_id \<Rightarrow> obj_id list) \<Rightarrow> obj_id \<Rightarrow> ('x, 'e) domain \<Rightarrow> obj_id list" where
  "CollectReachableObjectsFromLiveFields ae edges root d =
     RemoveDistilledBaseObjects ae d (live_walk edges d [] [root])"

definition CollectLiveReachableNodes ::
  "aether \<Rightarrow> (obj_id \<Rightarrow> obj_id list) \<Rightarrow> obj_id \<Rightarrow> ('x, 'e) domain \<Rightarrow> obj_id list" where
  "CollectLiveReachableNodes ae edges root d =
     filter (\<lambda>i. find_node ae i d \<noteq> None) (CollectReachableObjectsFromLiveFields ae edges root d)"

definition CollectLiveReachableObjects ::
  "('x, 'e, 's) object_system \<Rightarrow> (obj_id \<Rightarrow> obj_id list) \<Rightarrow> obj_id \<Rightarrow> ('x, 'e) domain \<Rightarrow> obj_id list option" where
  "CollectLiveReachableObjects sys edges root d = do {
     let live = CollectReachableObjectsFromLiveFields (os_ae sys) edges root d;
     scratch \<leftarrow> SaveObjectGraphToScratch sys MaterializedPublication root d [];
     Some (RemoveDistilledBaseObjects (os_ae sys) d
       (live @ filter (\<lambda>i. i \<notin> set live \<and> d i \<noteq> None) (active scratch))) }"

definition FindLiveReachableNode ::
  "('x, 'e, 's) object_system \<Rightarrow> (obj_id \<Rightarrow> obj_id list) \<Rightarrow> obj_id \<Rightarrow> ('x, 'e) domain \<Rightarrow> obj_id \<Rightarrow>
   ('x, 'e) live_object option option" where
  "FindLiveReachableNode sys edges root d object_id = do {
     live \<leftarrow> CollectLiveReachableObjects sys edges root d;
     Some (if object_id \<in> set live then find_node (os_ae sys) object_id d else None) }"

text \<open>Reachability over the edges whose target is live.\<close>

definition live_edge :: "(obj_id \<Rightarrow> obj_id list) \<Rightarrow> ('x, 'e) domain \<Rightarrow> (obj_id \<times> obj_id) set" where
  "live_edge edges d = {(i, j). j \<in> set (edges i) \<and> d j \<noteq> None}"

lemma live_walk_distinct: "distinct out \<Longrightarrow> distinct (live_walk edges d out stack)"
  by (induction edges d out stack rule: live_walk.induct) auto

lemma live_walk_sound:
  "set out \<union> set stack \<subseteq> (live_edge edges d)\<^sup>* `` {root} \<Longrightarrow> set (live_walk edges d out stack) \<subseteq> (live_edge edges d)\<^sup>* `` {root}"
proof (induction edges d out stack rule: live_walk.induct)
  case (2 edges d out i stack)
  have "(root, j) \<in> (live_edge edges d)\<^sup>*" if "j \<in> set (edges i)" "d j \<noteq> None" for j
    using 2(3) that by (auto simp: live_edge_def intro: rtrancl_into_rtrancl)
  then show ?case using 2 by auto
qed simp

lemma live_walk_closed:
  "\<forall>x\<in>set out. live_edge edges d `` {x} \<subseteq> set out \<union> set stack \<Longrightarrow>
   set out \<union> set stack \<subseteq> set (live_walk edges d out stack) \<and>
   (\<forall>x\<in>set (live_walk edges d out stack). live_edge edges d `` {x} \<subseteq> set (live_walk edges d out stack))"
proof (induction edges d out stack rule: live_walk.induct)
  case (2 edges d out i stack)
  show ?case
  proof (cases "i \<in> set out")
    case True
    then show ?thesis using 2 by auto
  next
    case False
    have "\<forall>x\<in>set (out @ [i]). live_edge edges d `` {x} \<subseteq>
        set (out @ [i]) \<union> set (rev (filter (\<lambda>j. d j \<noteq> None) (edges i)) @ stack)"
      using 2(3) by (auto simp: live_edge_def)
    from 2(2) [OF False this] show ?thesis using False by auto
  qed
qed simp

lemma live_walk_reachable: "set (live_walk edges d [] [root]) = (live_edge edges d)\<^sup>* `` {root}"
proof
  show "set (live_walk edges d [] [root]) \<subseteq> (live_edge edges d)\<^sup>* `` {root}"
    by (rule live_walk_sound) simp
  have closed: "root \<in> set (live_walk edges d [] [root])"
    "\<forall>x\<in>set (live_walk edges d [] [root]). live_edge edges d `` {x} \<subseteq> set (live_walk edges d [] [root])"
    using live_walk_closed [of "[]" edges d "[root]"] by auto
  show "(live_edge edges d)\<^sup>* `` {root} \<subseteq> set (live_walk edges d [] [root])"
  proof
    fix j
    assume "j \<in> (live_edge edges d)\<^sup>* `` {root}"
    then have "(root, j) \<in> (live_edge edges d)\<^sup>*" by simp
    then show "j \<in> set (live_walk edges d [] [root])"
      by (induction rule: rtrancl_induct) (use closed in auto)
  qed
qed

lemma set_distilled_bases: "b \<in> set (distilled_bases ae ids d) \<longleftrightarrow> (\<exists>i\<in>set ids. \<exists>node. find_node ae i d = Some node \<and> lo_base node = Some b)"
  by (induction ids) (auto simp: distilled_bases_def List.map_filter_def split: option.splits Option.bind_splits)

text \<open>C34. The walk over live fields ends, visits no object twice, and returns exactly the objects that live
  pointers lead to from the root, less those that are the base snapshot of a node among them.\<close>

theorem live_walk_exact:
  "distinct (CollectReachableObjectsFromLiveFields ae edges root d) \<and>
   set (CollectReachableObjectsFromLiveFields ae edges root d) =
     {i. (root, i) \<in> (live_edge edges d)\<^sup>* \<and>
       \<not> (\<exists>j node. (root, j) \<in> (live_edge edges d)\<^sup>* \<and> find_node ae j d = Some node \<and> lo_base node = Some i)}"
proof -
  have "set (CollectReachableObjectsFromLiveFields ae edges root d) =
      {i \<in> set (live_walk edges d [] [root]). \<not> (\<exists>j\<in>set (live_walk edges d [] [root]). \<exists>node. find_node ae j d = Some node \<and> lo_base node = Some i)}"
    by (auto simp: CollectReachableObjectsFromLiveFields_def RemoveDistilledBaseObjects_def set_distilled_bases)
  then show ?thesis
    using live_walk_distinct [of "[]" edges d "[root]"] unfolding live_walk_reachable
    by (auto simp: CollectReachableObjectsFromLiveFields_def RemoveDistilledBaseObjects_def)
qed

section \<open>Presenters\<close>

text \<open>
  The GUI is a state \<open>'g\<close>.  \<open>ge_presenters\<close> are the presenters among the live reachable objects in the order of
  the walk; the other fields are the virtual functions of Presenter, which act on the GUI.
\<close>

record 'g gui_env =
  ge_presenters :: "'g \<Rightarrow> obj_id list"
  ge_ready :: "'g \<Rightarrow> obj_id \<Rightarrow> bool"
  ge_on_load :: "obj_id \<Rightarrow> 'g \<Rightarrow> 'g"
  ge_created :: "'g \<Rightarrow> obj_id \<Rightarrow> bool"
  ge_on_model_changed :: "obj_id \<Rightarrow> 'g \<Rightarrow> 'g"
  ge_on_unload :: "obj_id \<Rightarrow> 'g \<Rightarrow> 'g"

datatype hook = OnLoad obj_id | OnModelChanged obj_id | OnUnload obj_id

text \<open>\<open>presentation_loaded\<close> and \<open>presentation_load_order\<close> per presenter, the process-wide counter, and the hooks called.\<close>

record 'g presentation =
  pr_gui :: 'g
  presentation_loaded :: "obj_id set"
  presentation_load_order :: "obj_id \<Rightarrow> nat"
  next_load_order :: nat
  pr_hooks :: "hook list"

definition call_hook :: "hook \<Rightarrow> 'g gui_env \<Rightarrow> 'g presentation \<Rightarrow> 'g presentation" where
  "call_hook h env p = p\<lparr> pr_hooks := pr_hooks p @ [h],
     pr_gui := (case h of OnLoad i \<Rightarrow> ge_on_load env i | OnModelChanged i \<Rightarrow> ge_on_model_changed env i
       | OnUnload i \<Rightarrow> ge_on_unload env i) (pr_gui p) \<rparr>"

text \<open>One pass over the presenters collected at its start.\<close>

fun present_pass :: "'g gui_env \<Rightarrow> obj_id list \<Rightarrow> bool \<Rightarrow> 'g presentation \<Rightarrow> bool \<times> 'g presentation" where
  "present_pass env [] progress p = (progress, p)"
| "present_pass env (i # ids) progress p =
     (if i \<in> presentation_loaded p \<or> \<not> ge_ready env (pr_gui p) i then present_pass env ids progress p
      else let p = call_hook (OnLoad i) env p in
        if \<not> ge_created env (pr_gui p) i then present_pass env ids progress p
        else present_pass env ids True
          (p\<lparr> presentation_loaded := insert i (presentation_loaded p),
              presentation_load_order := (presentation_load_order p)(i := next_load_order p),
              next_load_order := Suc (next_load_order p) \<rparr>))"

lemma call_hook_fields [simp]:
  "presentation_loaded (call_hook h env p) = presentation_loaded p"
  "presentation_load_order (call_hook h env p) = presentation_load_order p"
  "next_load_order (call_hook h env p) = next_load_order p"
  "pr_hooks (call_hook h env p) = pr_hooks p @ [h]"
  by (simp_all add: call_hook_def)

lemma present_pass_loaded:
  "presentation_loaded p \<subseteq> presentation_loaded (snd (present_pass env ids progress p)) \<and>
   (fst (present_pass env ids progress p) \<longrightarrow> progress \<or> presentation_loaded p \<subset> presentation_loaded (snd (present_pass env ids progress p)))"
proof (induction env ids progress p rule: present_pass.induct)
  case (2 env i ids progress p)
  define q where "q = call_hook (OnLoad i) env p"
  define r where "r = q\<lparr> presentation_loaded := insert i (presentation_loaded q),
              presentation_load_order := (presentation_load_order q)(i := next_load_order q),
              next_load_order := Suc (next_load_order q) \<rparr>"
  have loaded: "presentation_loaded q = presentation_loaded p" "presentation_loaded r = insert i (presentation_loaded p)"
    by (simp_all add: q_def r_def)
  consider "i \<in> presentation_loaded p \<or> \<not> ge_ready env (pr_gui p) i"
    | "\<not> (i \<in> presentation_loaded p \<or> \<not> ge_ready env (pr_gui p) i)" "\<not> ge_created env (pr_gui q) i"
    | "\<not> (i \<in> presentation_loaded p \<or> \<not> ge_ready env (pr_gui p) i)" "ge_created env (pr_gui q) i" by blast
  then show ?case
  proof cases
    case 1
    then show ?thesis using "2.IH"(1) by (simp split del: if_split)
  next
    case 2
    then have "present_pass env (i # ids) progress p = present_pass env ids progress q"
      by (simp add: q_def Let_def)
    then show ?thesis using "2.IH"(2) [OF 2(1) q_def] 2(2) loaded(1) by simp
  next
    case 3
    then have "present_pass env (i # ids) progress p = present_pass env ids True r"
      by (simp add: q_def r_def Let_def)
    moreover have "presentation_loaded r \<subseteq> presentation_loaded (snd (present_pass env ids True r))"
      using "2.IH"(3) [OF 3(1) q_def] 3(2) unfolding r_def by simp
    moreover have "i \<notin> presentation_loaded p" using 3(1) by blast
    ultimately show ?thesis using loaded(2) by auto
  qed
qed simp

function InitializeNewPresenters :: "'g gui_env \<Rightarrow> 'g presentation \<Rightarrow> 'g presentation option" where
  "InitializeNewPresenters env p =
     (let (progress, p') = present_pass env (ge_presenters env (pr_gui p)) False p in
      if progress then InitializeNewPresenters env p'
      else if \<forall>i\<in>set (ge_presenters env (pr_gui p')). i \<in> presentation_loaded p' then Some p' else None)"
  by pat_completeness auto

termination InitializeNewPresenters
proof (relation "measure (\<lambda>(env, p). card (- presentation_loaded p))", goal_cases)
  case (2 env p x progress p')
  have "present_pass env (ge_presenters env (pr_gui p)) False p = (progress, p')" using 2(1,2) by simp
  then have "presentation_loaded p \<subset> presentation_loaded p'"
    using present_pass_loaded [of p env "ge_presenters env (pr_gui p)" False] 2(3) by simp
  then have "- presentation_loaded p' \<subset> - presentation_loaded p" by auto
  then show ?case by (simp add: psubset_card_mono)
qed simp

declare InitializeNewPresenters.simps [simp del]

fun notify_presenters :: "'g gui_env \<Rightarrow> obj_id list \<Rightarrow> 'g presentation \<Rightarrow> 'g presentation" where
  "notify_presenters env [] p = p"
| "notify_presenters env (i # ids) p =
     notify_presenters env ids (if i \<in> presentation_loaded p then call_hook (OnModelChanged i) env p else p)"

definition InitializePresenters :: "'g gui_env \<Rightarrow> 'g presentation \<Rightarrow> 'g presentation option" where
  "InitializePresenters env p = do {
     p \<leftarrow> InitializeNewPresenters env p;
     Some (notify_presenters env (ge_presenters env (pr_gui p)) p) }"

definition UnloadPresenter :: "'g gui_env \<Rightarrow> obj_id \<Rightarrow> 'g presentation \<Rightarrow> 'g presentation" where
  "UnloadPresenter env i p =
     (let p = call_hook (OnUnload i) env p in
      p\<lparr> presentation_loaded := presentation_loaded p - {i}, presentation_load_order := (presentation_load_order p)(i := 0) \<rparr>)"

fun unload_each :: "'g gui_env \<Rightarrow> obj_id list \<Rightarrow> 'g presentation \<Rightarrow> 'g presentation" where
  "unload_each env [] p = p"
| "unload_each env (i # ids) p =
     unload_each env ids (if i \<in> presentation_loaded p then UnloadPresenter env i p else p)"

text \<open>The sort is by load order at the time of the call, largest first.\<close>

definition UnloadPresentersDescending :: "'g gui_env \<Rightarrow> obj_id list \<Rightarrow> 'g presentation \<Rightarrow> 'g presentation" where
  "UnloadPresentersDescending env ids p = unload_each env (rev (sort_key (presentation_load_order p) ids)) p"

definition UnloadPresenters :: "'g gui_env \<Rightarrow> 'g presentation \<Rightarrow> 'g presentation" where
  "UnloadPresenters env p =
     UnloadPresentersDescending env (filter (\<lambda>i. i \<in> presentation_loaded p) (ge_presenters env (pr_gui p))) p"

text \<open>The presenters that were active, less those that have lost their objects, are held by the caller.\<close>

definition UpdatePresentersAfterStructuralPublication ::
  "'g gui_env \<Rightarrow> obj_id list \<Rightarrow> 'g presentation \<Rightarrow> 'g presentation option" where
  "UpdatePresentersAfterStructuralPublication env previously_active p =
     (let live = ge_presenters env (pr_gui p);
          removed = filter (\<lambda>i. i \<in> presentation_loaded p \<and> i \<notin> set live) previously_active
      in do {
        p \<leftarrow> InitializeNewPresenters env (UnloadPresentersDescending env removed p);
        Some (notify_presenters env live p) })"

definition CaptureStructuralPresentationKeepalive :: "'g gui_env \<Rightarrow> 'g presentation \<Rightarrow> obj_id list" where
  "CaptureStructuralPresentationKeepalive env p =
     filter (\<lambda>i. i \<in> presentation_loaded p) (ge_presenters env (pr_gui p))"

text \<open>\<open>apply\<close> is ApplyStructuralPublication on the GUI domain, which may fail its assertions.\<close>

definition ApplyStructuralPublicationAndUpdatePresenters ::
  "'g gui_env \<Rightarrow> ('g \<Rightarrow> 'g option) \<Rightarrow> 'g presentation \<Rightarrow> 'g presentation option" where
  "ApplyStructuralPublicationAndUpdatePresenters env apply_structural p = do {
     let held = CaptureStructuralPresentationKeepalive env p;
     gui \<leftarrow> apply_structural (pr_gui p);
     UpdatePresentersAfterStructuralPublication env held (p\<lparr> pr_gui := gui \<rparr>) }"

section \<open>The order of loading and unloading\<close>

text \<open>Loaded presenters carry distinct orders below the counter, and the last load hook of each was called in
  that order.\<close>

definition presentation_ok :: "'g presentation \<Rightarrow> bool" where
  "presentation_ok p \<longleftrightarrow> inj_on (presentation_load_order p) (presentation_loaded p) \<and>
     (\<forall>i\<in>presentation_loaded p. presentation_load_order p i < next_load_order p)"

lemma presentation_ok_insert:
  assumes "presentation_ok p" "i \<notin> presentation_loaded p"
  shows "presentation_ok (q\<lparr> presentation_loaded := insert i (presentation_loaded p),
      presentation_load_order := (presentation_load_order p)(i := next_load_order p),
      next_load_order := Suc (next_load_order p) \<rparr>)"
proof -
  have less: "presentation_load_order p j < next_load_order p" if "j \<in> presentation_loaded p" for j
    using assms(1) that by (simp add: presentation_ok_def)
  have inj: "inj_on (presentation_load_order p) (presentation_loaded p)"
    using assms(1) by (simp add: presentation_ok_def)
  have "inj_on ((presentation_load_order p)(i := next_load_order p)) (presentation_loaded p)"
    using inj assms(2) by (simp add: inj_on_def)
  moreover have "next_load_order p \<notin> (presentation_load_order p)(i := next_load_order p) ` presentation_loaded p"
  proof
    assume "next_load_order p \<in> (presentation_load_order p)(i := next_load_order p) ` presentation_loaded p"
    then obtain j where "j \<in> presentation_loaded p" "next_load_order p = ((presentation_load_order p)(i := next_load_order p)) j" by blast
    then show False using less [of j] assms(2) by (cases "j = i") simp_all
  qed
  ultimately show ?thesis
    using less assms(2) by (auto simp: presentation_ok_def less_SucI)
qed

lemma present_pass_ok:
  "presentation_ok p \<Longrightarrow> presentation_ok (snd (present_pass env ids progress p)) \<and>
     (\<forall>j\<in>presentation_loaded p. presentation_load_order (snd (present_pass env ids progress p)) j = presentation_load_order p j)"
proof (induction env ids progress p rule: present_pass.induct)
  case (2 env i ids progress p)
  define q where "q = call_hook (OnLoad i) env p"
  define r where "r = q\<lparr> presentation_loaded := insert i (presentation_loaded q),
              presentation_load_order := (presentation_load_order q)(i := next_load_order q),
              next_load_order := Suc (next_load_order q) \<rparr>"
  have okq: "presentation_ok q" using "2.prems" by (simp add: presentation_ok_def q_def)
  have fields: "presentation_loaded q = presentation_loaded p" "presentation_load_order q = presentation_load_order p"
    by (simp_all add: q_def)
  consider "i \<in> presentation_loaded p \<or> \<not> ge_ready env (pr_gui p) i"
    | "\<not> (i \<in> presentation_loaded p \<or> \<not> ge_ready env (pr_gui p) i)" "\<not> ge_created env (pr_gui q) i"
    | "\<not> (i \<in> presentation_loaded p \<or> \<not> ge_ready env (pr_gui p) i)" "ge_created env (pr_gui q) i" by blast
  then show ?case
  proof cases
    case 1
    then show ?thesis using "2.IH"(1) "2.prems" by (simp split del: if_split)
  next
    case 2
    then have "present_pass env (i # ids) progress p = present_pass env ids progress q"
      by (simp add: q_def Let_def)
    then show ?thesis using "2.IH"(2) [OF 2(1) q_def] 2(2) okq fields by simp
  next
    case 3
    then have eq: "present_pass env (i # ids) progress p = present_pass env ids True r"
      by (simp add: q_def r_def Let_def)
    have new: "i \<notin> presentation_loaded q" using 3(1) fields by simp
    have "presentation_ok r" using presentation_ok_insert [OF okq new] unfolding r_def .
    then have "presentation_ok (snd (present_pass env ids True r)) \<and>
        (\<forall>j\<in>presentation_loaded r. presentation_load_order (snd (present_pass env ids True r)) j = presentation_load_order r j)"
      using "2.IH"(3) [OF 3(1) q_def] 3(2) unfolding r_def by simp
    moreover have "presentation_loaded r = insert i (presentation_loaded p)"
      "presentation_load_order r = (presentation_load_order p)(i := next_load_order p)" by (simp_all add: r_def q_def)
    ultimately show ?thesis using eq new fields by auto
  qed
qed simp

lemma InitializeNewPresenters_props:
  "InitializeNewPresenters env p = Some p' \<Longrightarrow> presentation_ok p \<Longrightarrow>
     presentation_ok p' \<and> presentation_loaded p \<subseteq> presentation_loaded p' \<and>
     (\<forall>i\<in>presentation_loaded p. presentation_load_order p' i = presentation_load_order p i) \<and>
     (\<forall>i\<in>set (ge_presenters env (pr_gui p')). i \<in> presentation_loaded p')"
proof (induction env p rule: InitializeNewPresenters.induct)
  case (1 env p)
  obtain progress p1 where pass: "present_pass env (ge_presenters env (pr_gui p)) False p = (progress, p1)" by fastforce
  have ok: "presentation_ok p1" "presentation_loaded p \<subseteq> presentation_loaded p1"
    "\<forall>i\<in>presentation_loaded p. presentation_load_order p1 i = presentation_load_order p i"
    using present_pass_ok [OF 1(3), of env "ge_presenters env (pr_gui p)" False]
      present_pass_loaded [of p env "ge_presenters env (pr_gui p)" False] unfolding pass by simp_all
  show ?case
  proof (cases progress)
    case True
    then have "InitializeNewPresenters env p1 = Some p'"
      using 1(2) pass by (simp add: InitializeNewPresenters.simps [of env p])
    from 1(1) [OF pass [symmetric] refl True this ok(1)] ok(2,3) show ?thesis by (simp add: subset_iff)
  next
    case False
    then have "p' = p1" "\<forall>i\<in>set (ge_presenters env (pr_gui p1)). i \<in> presentation_loaded p1"
      using 1(2) pass by (simp_all add: InitializeNewPresenters.simps [of env p] split: if_splits)
    then show ?thesis using ok by simp
  qed
qed

lemma unload_each_hooks:
  assumes "distinct ids" "set ids \<subseteq> presentation_loaded p"
  shows "pr_hooks (unload_each env ids p) = pr_hooks p @ map OnUnload ids \<and>
    presentation_loaded (unload_each env ids p) = presentation_loaded p - set ids"
  using assms
proof (induction ids arbitrary: p)
  case (Cons i ids)
  have "presentation_loaded (UnloadPresenter env i p) = presentation_loaded p - {i}"
    "pr_hooks (UnloadPresenter env i p) = pr_hooks p @ [OnUnload i]"
    by (simp_all add: UnloadPresenter_def Let_def)
  then show ?case using Cons.IH [of "UnloadPresenter env i p"] Cons.prems by auto
qed simp

text \<open>When the activation of presenters returns, every live presenter is loaded, and those loaded before keep
  their place; unloading then calls OnUnload once for every live loaded presenter, the later loaded before the
  earlier loaded, and leaves none of them loaded.\<close>

theorem presenters_unload_in_reverse_load_order:
  assumes "presentation_ok p" "InitializeNewPresenters env p = Some p'" "distinct (ge_presenters env (pr_gui p'))"
  shows "(\<forall>i\<in>set (ge_presenters env (pr_gui p')). i \<in> presentation_loaded p') \<and>
    (\<forall>i\<in>presentation_loaded p. i \<in> presentation_loaded p' \<and> presentation_load_order p' i = presentation_load_order p i) \<and>
    (\<exists>ids. pr_hooks (UnloadPresenters env p') = pr_hooks p' @ map OnUnload ids \<and>
      set ids = set (ge_presenters env (pr_gui p')) \<and> distinct ids \<and>
      sorted_wrt (\<lambda>i j. presentation_load_order p' i > presentation_load_order p' j) ids \<and>
      presentation_loaded (UnloadPresenters env p') = presentation_loaded p' - set (ge_presenters env (pr_gui p')))"
proof -
  note init = InitializeNewPresenters_props [OF assms(2,1)]
  let ?live = "ge_presenters env (pr_gui p')" and ?order = "presentation_load_order p'"
  define ids where "ids = rev (sort_key ?order ?live)"
  have filter: "filter (\<lambda>i. i \<in> presentation_loaded p') ?live = ?live"
    using init by (simp add: filter_id_conv)
  have set: "set ids = set ?live" "distinct ids" using assms(3) by (simp_all add: ids_def)
  have inj: "inj_on ?order (set ?live)"
    using init by (meson inj_on_subset presentation_ok_def subsetI)
  have "sorted (map ?order (sort_key ?order ?live))" by simp
  moreover have "distinct (map ?order (sort_key ?order ?live))"
    using inj assms(3) by (simp add: distinct_map)
  ultimately have "sorted_wrt (<) (map ?order (sort_key ?order ?live))"
    by (simp add: strict_sorted_iff)
  then have sorted: "sorted_wrt (\<lambda>i j. ?order i > ?order j) ids"
    by (simp add: ids_def sorted_wrt_rev sorted_wrt_map)
  have unload: "pr_hooks (UnloadPresenters env p') = pr_hooks p' @ map OnUnload ids \<and>
      presentation_loaded (UnloadPresenters env p') = presentation_loaded p' - set ids"
    using unload_each_hooks [of ids p' env] init set
    by (simp add: UnloadPresenters_def UnloadPresentersDescending_def filter ids_def [symmetric] subset_iff)
  show ?thesis using init set sorted unload by blast
qed

text \<open>A GUI of a window and a child that needs the window first; the child comes first in the walk.\<close>

definition sample_gui :: "obj_id list gui_env" where
  "sample_gui = \<lparr> ge_presenters = (\<lambda>g. [9, 8]), ge_ready = (\<lambda>g i. i = 8 \<or> 8 \<in> set g), ge_on_load = (\<lambda>i g. i # g),
     ge_created = (\<lambda>g i. True), ge_on_model_changed = (\<lambda>i g. g), ge_on_unload = (\<lambda>i g. g) \<rparr>"

definition no_presentation :: "obj_id list presentation" where
  "no_presentation = \<lparr> pr_gui = [], presentation_loaded = {}, presentation_load_order = (\<lambda>_. 0), next_load_order = 1, pr_hooks = [] \<rparr>"

lemma sample_gui_run:
  "\<exists>p. InitializeNewPresenters sample_gui no_presentation = Some p \<and> pr_gui p = [9, 8] \<and> pr_hooks p = [OnLoad 8, OnLoad 9] \<and>
     presentation_load_order p 8 = 1 \<and> presentation_load_order p 9 = 2"
  by (simp add: InitializeNewPresenters.simps sample_gui_def no_presentation_def call_hook_def)

lemma presenters_unload_in_reverse_load_order_witness:
  "\<exists>p. InitializeNewPresenters sample_gui no_presentation = Some p \<and>
     pr_hooks (UnloadPresenters sample_gui p) = [OnLoad 8, OnLoad 9, OnUnload 9, OnUnload 8]"
proof -
  obtain p where p: "InitializeNewPresenters sample_gui no_presentation = Some p" "pr_gui p = [9, 8]"
    "pr_hooks p = [OnLoad 8, OnLoad 9]" "presentation_load_order p 8 = 1" "presentation_load_order p 9 = 2"
    using sample_gui_run by blast
  have ok: "presentation_ok no_presentation" by (simp add: presentation_ok_def no_presentation_def)
  obtain ids where ids: "pr_hooks (UnloadPresenters sample_gui p) = pr_hooks p @ map OnUnload ids" "set ids = {8, 9}" "distinct ids"
    "sorted_wrt (\<lambda>i j. presentation_load_order p i > presentation_load_order p j) ids"
    using presenters_unload_in_reverse_load_order [OF ok p(1)] p(2) by (auto simp: sample_gui_def)
  have "length ids = 2" using ids(2,3) distinct_card [of ids] by simp
  then obtain a b where ab: "ids = [a, b]" by (auto simp: length_Suc_conv numeral_2_eq_2)
  then have "ids = [9, 8]" using ids(2,4) p(4,5) by (auto simp: doubleton_eq_iff)
  then show ?thesis using p ids(1) by simp
qed

end
