(* ===== verification/SurfacesModel.thy ===== *)
theory SurfacesModel
  imports NodeCommits
begin

text \<open>
  The surfaces of the application (src/include/apptraverse/surfaces/surfaces_model.h, src/src/surfaces/surfaces_model.cpp):
  the node Surface with its bounds and sizes, the node Surfaces with the live list, the current page and the desktop
  z-order, their events, and the commands of the model thread.  A pointer to a surface is its object id; all surfaces
  belong to one Surfaces node.  A coordinate is the 32 bits of its \<open>std::int32_t\<close>.
\<close>

section \<open>Surface\<close>

record surface_chrome =
  chrome_window :: obj_id
  chrome_add_button :: obj_id
  chrome_close_button :: obj_id
  chrome_language_button :: obj_id

record surface_state =
  surface_number :: u32
  desktop_x :: u32
  desktop_y :: u32
  desktop_width :: u32
  desktop_height :: u32
  presentation_width :: u32
  presentation_height :: u32
  parent_surfaces :: obj_id
  chrome :: surface_chrome

definition new_surface :: "aether \<Rightarrow> surface_state" where
  "new_surface ae = \<lparr> surface_number = 0, desktop_x = 0, desktop_y = 0, desktop_width = 0, desktop_height = 0,
     presentation_width = 0, presentation_height = 0, parent_surfaces = ae_null ae,
     chrome = \<lparr> chrome_window = ae_null ae, chrome_add_button = ae_null ae, chrome_close_button = ae_null ae,
       chrome_language_button = ae_null ae \<rparr> \<rparr>"

datatype surface_event =
    SurfaceBoundsChangedEvent u32 u32 u32 u32
  | SurfacePresentationSizeChangedEvent u32 u32

fun Surface_Apply :: "surface_event \<Rightarrow> surface_state \<Rightarrow> (surface_state \<times> nat) option" where
  "Surface_Apply (SurfaceBoundsChangedEvent x y w h) s =
     Some (s\<lparr> desktop_x := x, desktop_y := y, desktop_width := w, desktop_height := h \<rparr>, 1)"
| "Surface_Apply (SurfacePresentationSizeChangedEvent w h) s =
     Some (s\<lparr> presentation_width := w, presentation_height := h \<rparr>, 1)"

text \<open>\<open>None\<close> is the signed overflow of \<open>kBaseX + offset\<close>.\<close>

definition AssignInitialDesktopBounds :: "surface_state \<Rightarrow> surface_state option" where
  "AssignInitialDesktopBounds s = do {
     let offset = (if surface_number s > 0 then surface_number s - 1 else 0) * 36;
     assert_that (sint offset + 120 < 2 ^ 31);
     Some (s\<lparr> desktop_x := 120 + offset, desktop_y := 120 + offset, desktop_width := 360, desktop_height := 240,
       presentation_width := 360, presentation_height := 240 \<rparr>) }"

text \<open>SurfacePresenter::IsWide.\<close>

definition IsWide :: "surface_state \<Rightarrow> bool" where
  "IsWide s \<longleftrightarrow> sint (presentation_width s) \<ge> sint (presentation_height s)"

section \<open>Surfaces\<close>

record surfaces_state =
  surfaces :: "obj_id list"
  mobile_current :: obj_id
  desktop_z_order :: "obj_id list"

datatype surfaces_event =
    AddSurfaceEvent obj_id
  | RemoveSurfaceEvent obj_id
  | SetCurrentSurfaceEvent obj_id
  | SetDesktopZOrderEvent "obj_id list"

fun Surfaces_Apply :: "aether \<Rightarrow> surfaces_event \<Rightarrow> surfaces_state \<Rightarrow> (surfaces_state \<times> nat) option" where
  "Surfaces_Apply ae (AddSurfaceEvent i) s =
     Some (s\<lparr> surfaces := surfaces s @ [i], desktop_z_order := desktop_z_order s @ [i] \<rparr>, 1)"
| "Surfaces_Apply ae (RemoveSurfaceEvent i) s = do {
     assert_that (i \<in> set (surfaces s));
     let s = s\<lparr> surfaces := remove1 i (surfaces s) \<rparr>;
     let s = (if ae_valid ae (mobile_current s) \<and> mobile_current s = i then s\<lparr> mobile_current := ae_null ae \<rparr> else s);
     Some (s\<lparr> desktop_z_order := filter (\<lambda>entry. entry \<noteq> i) (desktop_z_order s) \<rparr>, 1) }"
| "Surfaces_Apply ae (SetCurrentSurfaceEvent i) s = Some (s\<lparr> mobile_current := i \<rparr>, 1)"
| "Surfaces_Apply ae (SetDesktopZOrderEvent order) s = Some (s\<lparr> desktop_z_order := order \<rparr>, 1)"

text \<open>Surfaces::Load: the layout of version 0 has no z-order.\<close>

definition Surfaces_Load :: "nat \<Rightarrow> surfaces_state \<Rightarrow> surfaces_state" where
  "Surfaces_Load version layer = (if version = 0 then layer\<lparr> desktop_z_order := [] \<rparr> else layer)"

definition SameSurfaceOrder :: "obj_id list \<Rightarrow> obj_id list \<Rightarrow> bool" where
  "SameSurfaceOrder a b \<longleftrightarrow> length a = length b \<and> list_all (\<lambda>(x, y). x = y) (zip a b)"

definition FindLiveSurfaceByObjId :: "surfaces_state \<Rightarrow> obj_id \<Rightarrow> obj_id option" where
  "FindLiveSurfaceByObjId s i = find (\<lambda>entry. entry = i) (surfaces s)"

text \<open>The two loops of SetDesktopZOrderFromObjIds.\<close>

fun resolve_order :: "surfaces_state \<Rightarrow> obj_id list \<Rightarrow> obj_id list \<Rightarrow> obj_id list \<Rightarrow> obj_id list" where
  "resolve_order s seen resolved [] = resolved"
| "resolve_order s seen resolved (raw # rest) =
     (if List.member seen raw then resolve_order s seen resolved rest
      else case FindLiveSurfaceByObjId s raw of
        None \<Rightarrow> resolve_order s (raw # seen) resolved rest
      | Some surface \<Rightarrow> resolve_order s (raw # seen) (resolved @ [surface]) rest)"

definition append_missing :: "obj_id \<Rightarrow> obj_id list \<Rightarrow> obj_id list" where
  "append_missing live resolved = (if list_ex (\<lambda>entry. entry = live) resolved then resolved else resolved @ [live])"

definition resolved_order :: "surfaces_state \<Rightarrow> obj_id list \<Rightarrow> obj_id list" where
  "resolved_order s ids = fold append_missing (surfaces s) (resolve_order s [] [] ids)"

section \<open>Nodes\<close>

type_synonym surface_node = "(surface_state, surface_event, surface_state) node"
type_synonym surfaces_node = "(surfaces_state, surfaces_event, surfaces_state) node"

text \<open>
  The rest of the program the commands call: what AttachPlatformSurfacePresenters of the platform puts into the chrome, and
  whether the Application is in the domain.
\<close>

record surfaces_env =
  sfe_ae :: aether
  sfe_attach :: "surface_state \<Rightarrow> surface_chrome"
  sfe_application :: bool
  sfe_missing_surface :: "surface_state \<Rightarrow> surface_state"
  sfe_missing_surfaces :: "surfaces_state \<Rightarrow> surfaces_state"

definition surface_ops :: "surfaces_env \<Rightarrow> (surface_state, surface_event, surface_state) node_ops" where
  "surface_ops env = lifecycle_ops (\<lambda>e s. True) Surface_Apply (sfe_missing_surface env)"

definition surfaces_ops :: "surfaces_env \<Rightarrow> (surfaces_state, surfaces_event, surfaces_state) node_ops" where
  "surfaces_ops env = lifecycle_ops (\<lambda>e s. True) (Surfaces_Apply (sfe_ae env)) (sfe_missing_surfaces env)"

text \<open>The Surfaces node and every surface in the domain, the removed ones that history still holds included.\<close>

record surfaces_graph =
  sg_parent :: surfaces_node
  sg_surfaces :: "obj_id \<rightharpoonup> surface_node"

abbreviation parent_of :: "surfaces_graph \<Rightarrow> surfaces_state" where
  "parent_of g \<equiv> materialized (sg_parent g)"

definition commit_surfaces :: "surfaces_env \<Rightarrow> commit_env \<Rightarrow> surfaces_event \<Rightarrow> surfaces_graph \<Rightarrow> surfaces_graph option" where
  "commit_surfaces env cenv e g = do {
     n \<leftarrow> Commit (surfaces_ops env) cenv e (sg_parent g);
     Some (g\<lparr> sg_parent := n \<rparr>) }"

definition commit_surface ::
  "surfaces_env \<Rightarrow> commit_env \<Rightarrow> surface_event \<Rightarrow> obj_id \<Rightarrow> surfaces_graph \<Rightarrow> surfaces_graph option" where
  "commit_surface env cenv e i g = do {
     n \<leftarrow> sg_surfaces g i;
     n \<leftarrow> Commit (surface_ops env) cenv e n;
     Some (g\<lparr> sg_surfaces := (sg_surfaces g)(i \<mapsto> n) \<rparr>) }"

section \<open>Commands\<close>

definition SetDesktopZOrderFromObjIds ::
  "surfaces_env \<Rightarrow> commit_env \<Rightarrow> obj_id list \<Rightarrow> surfaces_graph \<Rightarrow> surfaces_graph option" where
  "SetDesktopZOrderFromObjIds env cenv ids g =
     (let resolved = resolved_order (parent_of g) ids in
      if SameSurfaceOrder (desktop_z_order (parent_of g)) resolved then Some g
      else commit_surfaces env cenv (SetDesktopZOrderEvent resolved) g)"

text \<open>The number of a new surface; \<open>existing->number + 1\<close> wraps.\<close>

definition next_surface_number :: "surface_node list \<Rightarrow> u32" where
  "next_surface_number existing =
     fold (\<lambda>n next. if surface_number (materialized n) \<ge> next then surface_number (materialized n) + 1 else next) existing 1"

text \<open>The ids and the clock one AddSurface consumes.\<close>

record add_env =
  adv_sibling :: obj_id
  adv_base :: obj_id
  adv_commit :: commit_env

definition created_surface :: "surfaces_env \<Rightarrow> nat option \<Rightarrow> obj_id \<Rightarrow> surface_node" where
  "created_surface env d i = \<lparr> node_obj_id = i, node_domain = d, materialized = new_surface (sfe_ae env),
     base = null_ptr (sfe_ae env), base_layer = None, journal = [], generation = 1,
     applied_journal_size = kJournalFullyMaterialized, journal_retention_policy = default_retention,
     journal_compaction_blocked = False, suppress_materialized_change = False,
     materialized_change_fn = False, notifications = 0 \<rparr>"

definition make_sibling :: "surfaces_env \<Rightarrow> add_env \<Rightarrow> obj_id \<Rightarrow> surfaces_graph \<Rightarrow> surface_node option" where
  "make_sibling env ad i g = do {
     self \<leftarrow> sg_surfaces g i;
     existing \<leftarrow> those (map (sg_surfaces g) (surfaces (parent_of g)));
     let n = created_surface env (node_domain (sg_parent g)) (adv_sibling ad);
     s \<leftarrow> AssignInitialDesktopBounds ((materialized n)\<lparr> surface_number := next_surface_number existing \<rparr>);
     let s = s\<lparr> parent_surfaces := parent_surfaces (materialized self) \<rparr>;
     assert_that (sfe_application env);
     n \<leftarrow> InitializeRuntimeNode (surface_ops env) True (new_surface (sfe_ae env)) (adv_base ad)
       (n\<lparr> materialized := s\<lparr> chrome := sfe_attach env s \<rparr> \<rparr>);
     Some (n\<lparr> materialized_change_fn := materialized_change_fn self \<rparr>) }"

definition AddSurface :: "surfaces_env \<Rightarrow> add_env \<Rightarrow> obj_id \<Rightarrow> surfaces_graph \<Rightarrow> surfaces_graph option" where
  "AddSurface env ad i g = do {
     n \<leftarrow> make_sibling env ad i g;
     commit_surfaces env (adv_commit ad) (AddSurfaceEvent (adv_sibling ad))
       (g\<lparr> sg_surfaces := (sg_surfaces g)(adv_sibling ad \<mapsto> n) \<rparr>) }"

definition Surface_Remove :: "surfaces_env \<Rightarrow> commit_env \<Rightarrow> obj_id \<Rightarrow> surfaces_graph \<Rightarrow> surfaces_graph option" where
  "Surface_Remove env cenv i g =
     (if i \<notin> set (surfaces (parent_of g)) then Some g else commit_surfaces env cenv (RemoveSurfaceEvent i) g)"

definition MakeCurrent :: "surfaces_env \<Rightarrow> commit_env \<Rightarrow> obj_id \<Rightarrow> surfaces_graph \<Rightarrow> surfaces_graph option" where
  "MakeCurrent env cenv i g =
     (if ae_valid (sfe_ae env) (mobile_current (parent_of g)) \<and> mobile_current (parent_of g) = i then Some g
      else if i \<notin> set (surfaces (parent_of g)) then Some g
      else commit_surfaces env cenv (SetCurrentSurfaceEvent i) g)"

definition Surface_SetDesktopBounds ::
  "surfaces_env \<Rightarrow> commit_env \<Rightarrow> u32 \<Rightarrow> u32 \<Rightarrow> u32 \<Rightarrow> u32 \<Rightarrow> obj_id \<Rightarrow> surfaces_graph \<Rightarrow> surfaces_graph option" where
  "Surface_SetDesktopBounds env cenv x y w h i g = do {
     n \<leftarrow> sg_surfaces g i;
     let s = materialized n;
     if desktop_x s = x \<and> desktop_y s = y \<and> desktop_width s = w \<and> desktop_height s = h then Some g
     else commit_surface env cenv (SurfaceBoundsChangedEvent x y w h) i g }"

definition SetPresentationSize ::
  "surfaces_env \<Rightarrow> commit_env \<Rightarrow> u32 \<Rightarrow> u32 \<Rightarrow> obj_id \<Rightarrow> surfaces_graph \<Rightarrow> surfaces_graph option" where
  "SetPresentationSize env cenv w h i g = do {
     n \<leftarrow> sg_surfaces g i;
     let s = materialized n;
     if presentation_width s = w \<and> presentation_height s = h then Some g
     else commit_surface env cenv (SurfacePresentationSizeChangedEvent w h) i g }"

end
