(* ===== verification/SurfacesProperties.thy ===== *)
theory SurfacesProperties
  imports SurfacesModel Numbering
begin

text \<open>
  What the commands on surfaces promise: they return and keep the live list, the current page and the z-order
  consistent; numbers are fresh; a z-order snapshot becomes a permutation of the live surfaces.
\<close>

section \<open>Consistency\<close>

definition surfaces_ok :: "aether \<Rightarrow> surfaces_state \<Rightarrow> bool" where
  "surfaces_ok ae s \<longleftrightarrow> distinct (surfaces s) \<and> distinct (desktop_z_order s) \<and> set (desktop_z_order s) \<subseteq> set (surfaces s) \<and>
     (ae_valid ae (mobile_current s) \<longrightarrow> mobile_current s \<in> set (surfaces s))"

definition number_of :: "surfaces_graph \<Rightarrow> obj_id \<Rightarrow> u32 option" where
  "number_of g i = map_option (surface_number \<circ> materialized) (sg_surfaces g i)"

definition surfaces_graph_ok :: "surfaces_env \<Rightarrow> surfaces_graph \<Rightarrow> bool" where
  "surfaces_graph_ok env g \<longleftrightarrow> surfaces_ok (sfe_ae env) (parent_of g) \<and> node_inv (surfaces_ops env) id (sg_parent g) \<and>
     (\<forall>i\<in>set (surfaces (parent_of g)). sg_surfaces g i \<noteq> None) \<and>
     (\<forall>i n. sg_surfaces g i = Some n \<longrightarrow> node_inv (surface_ops env) id n) \<and>
     inj_on (number_of g) (set (surfaces (parent_of g)))"

text \<open>Another event fits: the journals are not full and their last timestamp is not the largest.\<close>

definition surfaces_ready :: "surfaces_env \<Rightarrow> surfaces_graph \<Rightarrow> bool" where
  "surfaces_ready env g \<longleftrightarrow> node_ready (surfaces_ops env) (sg_parent g) \<and>
     (\<forall>i n. sg_surfaces g i = Some n \<longrightarrow> node_ready (surface_ops env) n)"

lemma commit_parent_runs:
  assumes "node_ready (surfaces_ops env) (sg_parent g)" "ce_now1 cenv \<noteq> 0" "Surfaces_Apply (sfe_ae env) e (parent_of g) = Some (s, k)"
  shows "\<exists>n. commit_surfaces env cenv e g = Some (g\<lparr> sg_parent := n \<rparr>) \<and> node_inv (surfaces_ops env) id n \<and> materialized n = s"
  using lifecycle_commit [of "\<lambda>e s. True" "Surfaces_Apply (sfe_ae env)" "sfe_missing_surfaces env" "sg_parent g" cenv e s k] assms
  by (auto simp: surfaces_ops_def commit_surfaces_def)

lemma commit_surfaces_runs:
  assumes "surfaces_ready env g" "ce_now1 cenv \<noteq> 0" "Surfaces_Apply (sfe_ae env) e (parent_of g) = Some (s, k)"
  shows "\<exists>n. commit_surfaces env cenv e g = Some (g\<lparr> sg_parent := n \<rparr>) \<and> node_inv (surfaces_ops env) id n \<and> materialized n = s"
  using assms by (intro commit_parent_runs) (auto simp: surfaces_ready_def)

lemma commit_surface_runs:
  assumes "surfaces_ready env g" "ce_now1 cenv \<noteq> 0" "sg_surfaces g i = Some n" "Surface_Apply e (materialized n) = Some (s, k)"
  shows "\<exists>n'. commit_surface env cenv e i g = Some (g\<lparr> sg_surfaces := (sg_surfaces g)(i \<mapsto> n') \<rparr>) \<and>
    node_inv (surface_ops env) id n' \<and> materialized n' = s"
  using lifecycle_commit [of "\<lambda>e s. True" Surface_Apply "sfe_missing_surface env" n cenv e s k] assms
  by (auto simp: surfaces_ready_def surface_ops_def commit_surface_def)

lemma surfaces_graph_ok_parent:
  assumes "surfaces_graph_ok env g" "node_inv (surfaces_ops env) id n" "surfaces_ok (sfe_ae env) (materialized n)"
    "set (surfaces (materialized n)) \<subseteq> set (surfaces (parent_of g))"
  shows "surfaces_graph_ok env (g\<lparr> sg_parent := n \<rparr>)"
proof -
  have "number_of (g\<lparr> sg_parent := n \<rparr>) = number_of g" by (simp add: number_of_def fun_eq_iff)
  then show ?thesis using assms by (auto simp: surfaces_graph_ok_def intro: inj_on_subset)
qed

lemma surfaces_graph_ok_surface:
  assumes "surfaces_graph_ok env g" "sg_surfaces g i = Some n" "node_inv (surface_ops env) id n'"
    "surface_number (materialized n') = surface_number (materialized n)"
  shows "surfaces_graph_ok env (g\<lparr> sg_surfaces := (sg_surfaces g)(i \<mapsto> n') \<rparr>)"
proof -
  have "number_of (g\<lparr> sg_surfaces := (sg_surfaces g)(i \<mapsto> n') \<rparr>) = number_of g"
    using assms(2,4) by (simp add: number_of_def fun_eq_iff)
  then show ?thesis using assms by (auto simp: surfaces_graph_ok_def)
qed

section \<open>The z-order\<close>

lemma SameSurfaceOrder_eq: "SameSurfaceOrder a b \<longleftrightarrow> a = b"
  unfolding SameSurfaceOrder_def
  by (induction a arbitrary: b; case_tac b) auto

lemma FindLive_simp: "FindLiveSurfaceByObjId s i = (if i \<in> set (surfaces s) then Some i else None)"
proof -
  have "find (\<lambda>entry. entry = i) xs = (if i \<in> set xs then Some i else None)" for xs by (induction xs) auto
  then show ?thesis by (simp add: FindLiveSurfaceByObjId_def)
qed

text \<open>The ids of a snapshot that are live, each at its first mention.\<close>

fun named_live :: "obj_id set \<Rightarrow> obj_id set \<Rightarrow> obj_id list \<Rightarrow> obj_id list" where
  "named_live live seen [] = []"
| "named_live live seen (i # is) =
     (if i \<in> live \<and> i \<notin> seen then i # named_live live (insert i seen) is else named_live live seen is)"

lemma named_live_dead: "i \<notin> live \<Longrightarrow> named_live live (insert i seen) is = named_live live seen is"
proof (induction "is" arbitrary: seen)
  case (Cons a "is")
  then show ?case using Cons.IH [of "insert a seen"] by (auto simp: insert_commute)
qed simp

lemma resolve_order_named:
  "resolve_order s seen resolved ids = resolved @ named_live (set (surfaces s)) (set seen) ids"
  by (induction ids arbitrary: seen resolved) (auto simp: FindLive_simp named_live_dead)

lemma set_named_live: "set (named_live live seen ids) = set ids \<inter> live - seen"
  by (induction ids arbitrary: seen) auto

lemma distinct_named_live: "distinct (named_live live seen ids)"
  by (induction ids arbitrary: seen) (auto simp: set_named_live)

lemma fold_append_missing:
  "distinct xs \<Longrightarrow> fold append_missing xs resolved = resolved @ filter (\<lambda>i. i \<notin> set resolved) xs"
proof (induction xs arbitrary: resolved)
  case (Cons x xs)
  have "filter (\<lambda>i. i \<notin> set (resolved @ [x])) xs = filter (\<lambda>i. i \<notin> set resolved) xs"
    using Cons.prems by (intro filter_cong) auto
  then show ?case using Cons by (auto simp: append_missing_def list_ex_iff)
qed simp

lemma resolved_order_eq:
  assumes "distinct (surfaces s)"
  shows "resolved_order s ids = named_live (set (surfaces s)) {} ids @ filter (\<lambda>i. i \<notin> set ids) (surfaces s)"
proof -
  have "filter (\<lambda>i. i \<notin> set (named_live (set (surfaces s)) {} ids)) (surfaces s) = filter (\<lambda>i. i \<notin> set ids) (surfaces s)"
    by (intro filter_cong) (auto simp: set_named_live)
  then show ?thesis by (simp add: resolved_order_def resolve_order_named fold_append_missing [OF assms])
qed

lemma resolved_order_permutation:
  assumes "distinct (surfaces s)"
  shows "distinct (resolved_order s ids)" "set (resolved_order s ids) = set (surfaces s)"
  using assms by (auto simp: resolved_order_eq set_named_live distinct_named_live)

text \<open>C24. A z-order snapshot of the GUI, with whatever ids it names, becomes a permutation of the live surfaces: those it names
  first, in its order, then the others in the order of the live list; nothing else changes, and the same snapshot again
  commits nothing.\<close>

theorem z_order_is_a_permutation:
  assumes ok: "surfaces_graph_ok env g" and ready: "surfaces_ready env g" and clock: "ce_now1 cenv \<noteq> 0"
  shows "\<exists>g'. SetDesktopZOrderFromObjIds env cenv ids g = Some g' \<and> surfaces_graph_ok env g' \<and>
    desktop_z_order (parent_of g') = named_live (set (surfaces (parent_of g))) {} ids @ filter (\<lambda>i. i \<notin> set ids) (surfaces (parent_of g)) \<and>
    distinct (desktop_z_order (parent_of g')) \<and> set (desktop_z_order (parent_of g')) = set (surfaces (parent_of g)) \<and>
    surfaces (parent_of g') = surfaces (parent_of g) \<and> mobile_current (parent_of g') = mobile_current (parent_of g) \<and>
    sg_surfaces g' = sg_surfaces g \<and> SetDesktopZOrderFromObjIds env cenv' ids g' = Some g'"
proof -
  let ?p = "parent_of g" and ?z = "resolved_order (parent_of g) ids"
  have d: "distinct (surfaces ?p)" and p: "surfaces_ok (sfe_ae env) ?p" using ok by (auto simp: surfaces_graph_ok_def surfaces_ok_def)
  note z = resolved_order_eq [OF d, of ids] resolved_order_permutation [OF d, of ids]
  show ?thesis
  proof (cases "desktop_z_order ?p = ?z")
    case True
    then show ?thesis using ok z by (simp add: SetDesktopZOrderFromObjIds_def SameSurfaceOrder_eq)
  next
    case False
    have "Surfaces_Apply (sfe_ae env) (SetDesktopZOrderEvent ?z) ?p = Some (?p\<lparr> desktop_z_order := ?z \<rparr>, 1)" by simp
    then obtain n where n: "commit_surfaces env cenv (SetDesktopZOrderEvent ?z) g = Some (g\<lparr> sg_parent := n \<rparr>)"
      "node_inv (surfaces_ops env) id n" "materialized n = ?p\<lparr> desktop_z_order := ?z \<rparr>"
      using commit_surfaces_runs [OF ready clock] by blast
    have "surfaces_graph_ok env (g\<lparr> sg_parent := n \<rparr>)"
      by (rule surfaces_graph_ok_parent [OF ok n(2)]) (use p z n(3) in \<open>simp_all add: surfaces_ok_def\<close>)
    moreover have "resolved_order (materialized n) ids = ?z"
      using d by (simp add: resolved_order_eq n(3))
    ultimately show ?thesis
      using False n z by (simp add: SetDesktopZOrderFromObjIds_def SameSurfaceOrder_eq)
  qed
qed

section \<open>New surfaces\<close>

lemma next_number_above:
  assumes "\<forall>n\<in>set ns. surface_number (materialized n) \<noteq> -1"
  shows "\<forall>n\<in>set ns. surface_number (materialized n) < next_surface_number ns"
  using number_loop [OF assms] by (simp add: next_surface_number_def)

lemma next_number_bound:
  assumes "\<forall>n\<in>set ns. surface_number (materialized n) < b" "1 \<le> b"
  shows "next_surface_number ns \<le> b"
  unfolding next_surface_number_def by (rule number_loop_bound [OF assms])

lemma cascade_fits:
  assumes "m \<le> (59652321 :: u32)"
  shows "sint ((if m > 0 then m - 1 else 0) * 36) + 120 < 2 ^ 31"
proof (cases "m > 0")
  case True
  have m: "unat m \<le> 59652321" using assms by (simp add: word_le_nat_alt)
  have "unat (m - 1) = unat m - 1" using True by (simp add: unat_minus_one word_gt_0)
  then have "unat (m - 1) * unat (36 :: u32) < 2 ^ LENGTH(32)" using m by simp
  then have u: "unat ((m - 1) * 36) = (unat m - 1) * 36" using \<open>unat (m - 1) = unat m - 1\<close> by (subst (asm) unat_mult_lem) simp
  have "uint ((m - 1) * 36) = int ((unat m - 1) * 36)" unfolding u [symmetric] by simp
  then have b: "uint ((m - 1) * 36) \<le> 59652320 * 36" using m by simp
  have le: "sint w \<le> uint w" for w :: u32 by (simp add: sint_uint signed_take_bit_eq_take_bit_minus bintr_uint)
  have "sint ((m - 1) * 36) \<le> 59652320 * 36" by (rule order_trans [OF le b])
  moreover have "(59652320 :: int) * 36 = 2147483520" "(2 :: int) ^ 31 = 2147483648" by simp_all
  ultimately show ?thesis unfolding if_P [OF True] by linarith
qed simp

lemma those_live:
  assumes "\<forall>j\<in>set xs. f j \<noteq> None"
  shows "\<exists>ns. those (map f xs) = Some ns \<and> (\<forall>j\<in>set xs. \<exists>n\<in>set ns. f j = Some n) \<and> (\<forall>n\<in>set ns. \<exists>j\<in>set xs. f j = Some n)"
  using assms by (induction xs) (auto split: option.split)

lemma surface_initialized:
  assumes "i \<noteq> j" "\<not> ae_valid ae (ae_null ae)" "n = created_surface env (Some d) j" "sfe_ae env = ae"
  shows "\<exists>n'. InitializeRuntimeNode (surface_ops env) True created i (n\<lparr> materialized := s \<rparr>) = Some n' \<and> materialized n' = s \<and>
    node_inv (surface_ops env) id n'"
  using assms
  by (auto simp: InitializeRuntimeNode_def CaptureBaseStateInto_def Let_def created_surface_def node_inv_def node_live_def surface_ops_def
      is_loaded_def journal_sorted_def shared_ids_def consistent_def assert_that_def null_ptr_def split: Option.bind_splits if_splits)

lemma node_inv_notifier: "node_inv ops view (n\<lparr> materialized_change_fn := b \<rparr>) = node_inv ops view n"
  by (simp add: node_inv_def node_live_def consistent_def)

lemma sibling_made:
  assumes ok: "surfaces_graph_ok env g" and self: "sg_surfaces g i = Some self" and base: "adv_base ad \<noteq> adv_sibling ad"
    and ns: "those (map (sg_surfaces g) (surfaces (parent_of g))) = Some ns"
    and numbers: "\<forall>n\<in>set ns. surface_number (materialized n) < 59652321"
    and app: "sfe_application env" "\<not> ae_valid (sfe_ae env) (ae_null (sfe_ae env))"
  shows "\<exists>new. make_sibling env ad i g = Some new \<and> node_inv (surface_ops env) id new \<and>
    surface_number (materialized new) = next_surface_number ns \<and> parent_surfaces (materialized new) = parent_surfaces (materialized self) \<and>
    materialized_change_fn new = materialized_change_fn self"
proof -
  let ?m = "next_surface_number ns" and ?n = "created_surface env (node_domain (sg_parent g)) (adv_sibling ad)"
  obtain d where d: "node_domain (sg_parent g) = Some d" using ok by (auto simp: surfaces_graph_ok_def node_inv_def node_live_def)
  let ?s0 = "(materialized ?n)\<lparr> surface_number := ?m \<rparr>"
  have "?m \<le> 59652321" by (rule next_number_bound [OF numbers]) simp
  then have "surface_number ?s0 \<le> 59652321" by simp
  then have "sint ((if surface_number ?s0 > 0 then surface_number ?s0 - 1 else 0) * 36) + 120 < 2 ^ 31"
    by (rule cascade_fits)
  then obtain s where s: "AssignInitialDesktopBounds ?s0 = Some s" "surface_number s = ?m"
    unfolding AssignInitialDesktopBounds_def Let_def assert_that_def by auto
  let ?s = "s\<lparr> parent_surfaces := parent_surfaces (materialized self) \<rparr>"
  have n: "?n = created_surface env (Some d) (adv_sibling ad)" by (simp add: d)
  obtain new where new: "InitializeRuntimeNode (surface_ops env) True (new_surface (sfe_ae env)) (adv_base ad)
      (?n\<lparr> materialized := ?s\<lparr> chrome := sfe_attach env ?s \<rparr> \<rparr>) = Some new"
    "materialized new = ?s\<lparr> chrome := sfe_attach env ?s \<rparr>" "node_inv (surface_ops env) id new"
    using surface_initialized [OF base app(2) n refl] by blast
  then show ?thesis using self ns s app(1)
    by (simp add: make_sibling_def Let_def node_inv_notifier assert_that_def)
qed

lemma sibling_joins:
  assumes ok: "surfaces_graph_ok env g" and fresh: "sg_surfaces g k = None" and new: "node_inv (surface_ops env) id new"
    and above: "\<forall>j\<in>set (surfaces (parent_of g)). \<forall>n. sg_surfaces g j = Some n \<longrightarrow> surface_number (materialized n) < surface_number (materialized new)"
    and n: "node_inv (surfaces_ops env) id n" "materialized n = (parent_of g)\<lparr> surfaces := surfaces (parent_of g) @ [k],
      desktop_z_order := desktop_z_order (parent_of g) @ [k] \<rparr>"
  shows "surfaces_graph_ok env (g\<lparr> sg_surfaces := (sg_surfaces g)(k \<mapsto> new), sg_parent := n \<rparr>)"
proof -
  let ?g = "g\<lparr> sg_surfaces := (sg_surfaces g)(k \<mapsto> new), sg_parent := n \<rparr>" and ?live = "set (surfaces (parent_of g))"
  have live: "k \<notin> ?live" "\<And>j. j \<in> ?live \<Longrightarrow> \<exists>n. sg_surfaces g j = Some n" using ok fresh by (auto simp: surfaces_graph_ok_def)
  have same: "number_of ?g j = number_of g j" if "j \<in> ?live" for j using live(1) that by (auto simp: number_of_def)
  have "number_of ?g k \<notin> number_of ?g ` ?live"
  proof
    assume "number_of ?g k \<in> number_of ?g ` ?live"
    then obtain j where j: "j \<in> ?live" "number_of ?g k = number_of g j" using same by auto
    then obtain m where "sg_surfaces g j = Some m" using live(2) by blast
    then show False using above j by (auto simp: number_of_def)
  qed
  moreover have "inj_on (number_of ?g) ?live" using ok same by (simp add: surfaces_graph_ok_def cong: inj_on_cong)
  ultimately have "inj_on (number_of ?g) (insert k ?live)" using live(1) by (simp add: inj_on_insert)
  then show ?thesis using ok n new live(1) by (auto simp: surfaces_graph_ok_def surfaces_ok_def)
qed

text \<open>C25. AddSurface on a live surface returns: the new surface is last in the list and at the bottom of the z-order, nothing else of
  the parent changes, its number is larger than every live number, its notifier is that of the surface it came from, and
  the graph stays consistent.  This needs fresh ids, a live Application and numbers below the one whose cascade overflows.\<close>

theorem add_surface_appends:
  assumes ok: "surfaces_graph_ok env g" and ready: "surfaces_ready env g" and clock: "ce_now1 (adv_commit ad) \<noteq> 0"
    and self: "sg_surfaces g i = Some self" and fresh: "sg_surfaces g (adv_sibling ad) = None" "adv_base ad \<noteq> adv_sibling ad"
    and numbers: "\<forall>j\<in>set (surfaces (parent_of g)). \<forall>n. sg_surfaces g j = Some n \<longrightarrow> surface_number (materialized n) < 59652321"
    and app: "sfe_application env" "\<not> ae_valid (sfe_ae env) (ae_null (sfe_ae env))"
  shows "\<exists>g' new. AddSurface env ad i g = Some g' \<and> surfaces_graph_ok env g' \<and>
    surfaces (parent_of g') = surfaces (parent_of g) @ [adv_sibling ad] \<and>
    desktop_z_order (parent_of g') = desktop_z_order (parent_of g) @ [adv_sibling ad] \<and>
    mobile_current (parent_of g') = mobile_current (parent_of g) \<and> sg_surfaces g' = (sg_surfaces g)(adv_sibling ad \<mapsto> new) \<and>
    parent_surfaces (materialized new) = parent_surfaces (materialized self) \<and>
    materialized_change_fn new = materialized_change_fn self \<and>
    (\<forall>j\<in>set (surfaces (parent_of g)). \<forall>n. sg_surfaces g j = Some n \<longrightarrow> surface_number (materialized n) < surface_number (materialized new))"
proof -
  let ?p = "parent_of g" and ?k = "adv_sibling ad"
  obtain ns where ns: "those (map (sg_surfaces g) (surfaces ?p)) = Some ns"
      "\<forall>j\<in>set (surfaces ?p). \<exists>n\<in>set ns. sg_surfaces g j = Some n"
      "\<forall>n\<in>set ns. \<exists>j\<in>set (surfaces ?p). sg_surfaces g j = Some n"
    using those_live [of "surfaces ?p" "sg_surfaces g"] ok by (auto simp: surfaces_graph_ok_def)
  obtain new where new: "make_sibling env ad i g = Some new" "node_inv (surface_ops env) id new"
      "surface_number (materialized new) = next_surface_number ns" "parent_surfaces (materialized new) = parent_surfaces (materialized self)"
      "materialized_change_fn new = materialized_change_fn self"
    using sibling_made [OF ok self fresh(2) ns(1) _ app] ns(3) numbers by blast
  let ?g = "g\<lparr> sg_surfaces := (sg_surfaces g)(?k \<mapsto> new) \<rparr>"
  have small: "w \<noteq> -1" if "w < 59652321" for w :: u32 using that by auto
  have "\<forall>n\<in>set ns. surface_number (materialized n) \<noteq> -1" using ns(3) numbers small by blast
  then have above: "\<forall>j\<in>set (surfaces ?p). \<forall>n. sg_surfaces g j = Some n \<longrightarrow> surface_number (materialized n) < surface_number (materialized new)"
    using next_number_above ns(2) new(3) by fastforce
  let ?s = "?p\<lparr> surfaces := surfaces ?p @ [?k], desktop_z_order := desktop_z_order ?p @ [?k] \<rparr>"
  have "node_ready (surfaces_ops env) (sg_parent ?g)" using ready by (simp add: surfaces_ready_def)
  then obtain n where n: "commit_surfaces env (adv_commit ad) (AddSurfaceEvent ?k) ?g = Some (?g\<lparr> sg_parent := n \<rparr>)"
    "node_inv (surfaces_ops env) id n" "materialized n = ?s"
    using commit_parent_runs [of env ?g "adv_commit ad" "AddSurfaceEvent ?k" ?s 1] clock by auto
  have "surfaces_graph_ok env (?g\<lparr> sg_parent := n \<rparr>)"
    by (rule sibling_joins [OF ok fresh(1) new(2) above n(2,3)])
  moreover have "AddSurface env ad i g = Some (?g\<lparr> sg_parent := n \<rparr>)" using new(1) n(1) by (simp add: AddSurface_def)
  ultimately show ?thesis using n(3) new above
    by (intro exI [of _ "?g\<lparr> sg_parent := n \<rparr>"] exI [of _ new]) simp
qed

section \<open>The other commands\<close>

lemma remove_applies:
  assumes "i \<in> set (surfaces p)"
  shows "\<exists>s. Surfaces_Apply ae (RemoveSurfaceEvent i) p = Some (s, 1) \<and> surfaces s = remove1 i (surfaces p) \<and>
    desktop_z_order s = filter (\<lambda>j. j \<noteq> i) (desktop_z_order p) \<and>
    mobile_current s = (if ae_valid ae (mobile_current p) \<and> mobile_current p = i then ae_null ae else mobile_current p)"
  using assms by (cases "ae_valid ae (mobile_current p) \<and> mobile_current p = i") (simp_all add: Let_def assert_that_def, auto)

text \<open>Remove of a live surface returns: the surface is gone from the live list and from the z-order, the rest keeps its order,
  and it is not the current page; removing it again commits nothing.\<close>

theorem removed_surface_is_gone:
  assumes ok: "surfaces_graph_ok env g" and ready: "surfaces_ready env g" and clock: "ce_now1 cenv \<noteq> 0"
    and null: "\<not> ae_valid (sfe_ae env) (ae_null (sfe_ae env))"
  shows "\<exists>g'. Surface_Remove env cenv i g = Some g' \<and> surfaces_graph_ok env g' \<and>
    surfaces (parent_of g') = filter (\<lambda>j. j \<noteq> i) (surfaces (parent_of g)) \<and>
    desktop_z_order (parent_of g') = filter (\<lambda>j. j \<noteq> i) (desktop_z_order (parent_of g)) \<and>
    (ae_valid (sfe_ae env) (mobile_current (parent_of g')) \<longrightarrow> mobile_current (parent_of g') \<noteq> i) \<and>
    sg_surfaces g' = sg_surfaces g \<and> Surface_Remove env cenv' i g' = Some g' \<and> MakeCurrent env cenv' i g' = Some g'"
proof (cases "i \<in> set (surfaces (parent_of g))")
  case False
  then have z: "filter (\<lambda>j. j \<noteq> i) (surfaces (parent_of g)) = surfaces (parent_of g)"
      "filter (\<lambda>j. j \<noteq> i) (desktop_z_order (parent_of g)) = desktop_z_order (parent_of g)"
      "ae_valid (sfe_ae env) (mobile_current (parent_of g)) \<longrightarrow> mobile_current (parent_of g) \<noteq> i"
    using ok by (auto simp: surfaces_graph_ok_def surfaces_ok_def filter_id_conv)
  then show ?thesis using ok False by (simp add: Surface_Remove_def MakeCurrent_def)
next
  case True
  let ?p = "parent_of g" and ?ae = "sfe_ae env"
  have p: "surfaces_ok ?ae ?p" using ok by (simp add: surfaces_graph_ok_def)
  then have d: "remove1 i (surfaces ?p) = filter (\<lambda>j. j \<noteq> i) (surfaces ?p)"
    by (simp add: surfaces_ok_def distinct_remove1_removeAll removeAll_filter_not_eq) metis
  obtain s where s: "Surfaces_Apply ?ae (RemoveSurfaceEvent i) ?p = Some (s, 1)" "surfaces s = remove1 i (surfaces ?p)"
      "desktop_z_order s = filter (\<lambda>j. j \<noteq> i) (desktop_z_order ?p)"
      "mobile_current s = (if ae_valid ?ae (mobile_current ?p) \<and> mobile_current ?p = i then ae_null ?ae else mobile_current ?p)"
    using remove_applies [OF True, of ?ae] by blast
  have s_ok: "surfaces_ok ?ae s" "set (surfaces s) \<subseteq> set (surfaces ?p)" "i \<notin> set (surfaces s)"
    using p null by (auto simp: surfaces_ok_def s d)
  obtain n where n: "commit_surfaces env cenv (RemoveSurfaceEvent i) g = Some (g\<lparr> sg_parent := n \<rparr>)"
    "node_inv (surfaces_ops env) id n" "materialized n = s"
    using commit_surfaces_runs [OF ready clock s(1)] by blast
  have "surfaces_graph_ok env (g\<lparr> sg_parent := n \<rparr>)"
    by (rule surfaces_graph_ok_parent [OF ok n(2)]) (use s_ok n(3) in simp_all)
  moreover have "ae_valid ?ae (mobile_current s) \<longrightarrow> mobile_current s \<noteq> i" using s(4) null by auto
  ultimately show ?thesis using True n s_ok(3) s(2,3) d by (simp add: Surface_Remove_def MakeCurrent_def)
qed

section \<open>A sample\<close>

definition sample_surfaces_env :: surfaces_env where
  "sample_surfaces_env = \<lparr> sfe_ae = sample_aether, sfe_attach = chrome, sfe_application = True, sfe_missing_surface = id,
     sfe_missing_surfaces = id \<rparr>"

definition sample_surface :: "obj_id \<Rightarrow> u32 \<Rightarrow> surface_node" where
  "sample_surface i k = lifecycle_sample i ((new_surface sample_aether)\<lparr> surface_number := k, parent_surfaces := 9 \<rparr>)"

definition sample_surfaces :: surfaces_graph where
  "sample_surfaces = \<lparr> sg_parent = lifecycle_sample 9 \<lparr> surfaces = [11, 13], mobile_current = 11, desktop_z_order = [13] \<rparr>,
     sg_surfaces = [11 \<mapsto> sample_surface 11 1, 13 \<mapsto> sample_surface 13 2] \<rparr>"

lemma sample_parent [simp]:
  "parent_of sample_surfaces = \<lparr> surfaces = [11, 13], mobile_current = 11, desktop_z_order = [13] \<rparr>"
  by (simp add: sample_surfaces_def lifecycle_sample_def)

lemma sample_surfaces_ready: "surfaces_ready sample_surfaces_env sample_surfaces"
  by (auto simp: surfaces_ready_def sample_surfaces_def surfaces_ops_def surface_ops_def sample_surface_def lifecycle_sample_ready
      split: if_splits)

lemma sample_surfaces_ok: "surfaces_graph_ok sample_surfaces_env sample_surfaces"
proof -
  have "surfaces_ok (sfe_ae sample_surfaces_env) (parent_of sample_surfaces)" by (simp add: surfaces_ok_def)
  moreover have "inj_on (number_of sample_surfaces) {11, 13}"
    by (simp add: number_of_def sample_surfaces_def sample_surface_def lifecycle_sample_def)
  moreover have "sg_surfaces sample_surfaces = [11 \<mapsto> sample_surface 11 1, 13 \<mapsto> sample_surface 13 2]" by (simp add: sample_surfaces_def)
  ultimately show ?thesis
    using sample_surfaces_ready by (simp add: surfaces_graph_ok_def surfaces_ready_def node_ready_def)
qed

lemma z_order_is_a_permutation_witness:
  "\<exists>g'. SetDesktopZOrderFromObjIds sample_surfaces_env sample_cenv [5, 11, 11] sample_surfaces = Some g' \<and>
     desktop_z_order (parent_of g') = [11, 13]"
proof -
  have c: "ce_now1 sample_cenv \<noteq> 0" by (simp add: sample_cenv_def)
  show ?thesis
    using z_order_is_a_permutation [OF sample_surfaces_ok sample_surfaces_ready c, of "[5, 11, 11]" sample_cenv] by auto
qed

lemma removed_surface_is_gone_witness:
  "\<exists>g'. Surface_Remove sample_surfaces_env sample_cenv 11 sample_surfaces = Some g' \<and> surfaces (parent_of g') = [13]"
proof -
  have c: "ce_now1 sample_cenv \<noteq> 0" "\<not> ae_valid (sfe_ae sample_surfaces_env) (ae_null (sfe_ae sample_surfaces_env))"
    by (simp_all add: sample_cenv_def sample_surfaces_env_def sample_aether_def)
  show ?thesis
    using removed_surface_is_gone [OF sample_surfaces_ok sample_surfaces_ready c, of 11 sample_cenv] by auto
qed

lemma add_surface_appends_witness:
  "\<exists>g'. AddSurface sample_surfaces_env \<lparr> adv_sibling = 15, adv_base = 16, adv_commit = sample_cenv \<rparr> 11 sample_surfaces = Some g' \<and>
     surfaces (parent_of g') = [11, 13, 15] \<and> desktop_z_order (parent_of g') = [13, 15]"
proof -
  let ?ad = "\<lparr> adv_sibling = 15, adv_base = 16, adv_commit = sample_cenv \<rparr> :: add_env"
  have c: "ce_now1 (adv_commit ?ad) \<noteq> 0" "sfe_application sample_surfaces_env"
    "\<not> ae_valid (sfe_ae sample_surfaces_env) (ae_null (sfe_ae sample_surfaces_env))" "adv_base ?ad \<noteq> adv_sibling ?ad"
    by (simp_all add: sample_cenv_def sample_surfaces_env_def sample_aether_def)
  have s: "sg_surfaces sample_surfaces 11 = Some (sample_surface 11 1)" "sg_surfaces sample_surfaces (adv_sibling ?ad) = None"
    by (simp_all add: sample_surfaces_def)
  have n: "\<forall>j\<in>set (surfaces (parent_of sample_surfaces)). \<forall>n. sg_surfaces sample_surfaces j = Some n \<longrightarrow>
      surface_number (materialized n) < 59652321"
    by (simp add: sample_surfaces_def sample_surface_def lifecycle_sample_def)
  show ?thesis
    using add_surface_appends [OF sample_surfaces_ok sample_surfaces_ready c(1) s(1) s(2) c(4) n c(2) c(3)] by auto
qed

end
