(* ===== verification/SizeQueue.thy ===== *)
theory SizeQueue
  imports SurfacesProperties
begin

text \<open>
  The queue that coalesces the sizes the GUI reports (src/src/surfaces/surfaces_presentation_size_queue.cpp and .h) between
  the GUI thread and the model thread, and the binding of a proxy to it (src/src/model_object_proxy.cpp).  One step is one
  critical section of \<open>mu_\<close> or one action outside it; the model thread runs the drains and, between them, the commands
  of SurfacesModel.  \<open>post_\<close> is a model thread that still accepts work.
\<close>

section \<open>State\<close>

datatype gui_pc = Gui_idle | Gui_stored | Gui_posting

text \<open>Where a drain is: the key it works on, the size it read, the keys left and \<open>need_again\<close>.\<close>

datatype drain_pc =
    Drain_idle
  | Drain_begin
  | Drain_snapshot
  | Drain_loop "obj_id list" bool
  | Drain_drop obj_id "obj_id list" bool
  | Drain_reread obj_id "obj_id list" bool
  | Drain_apply obj_id u32 u32 "obj_id list" bool
  | Drain_check obj_id u32 u32 "obj_id list" bool
  | Drain_again
  | Drain_posting

record size_queue =
  slots :: "obj_id \<rightharpoonup> u32 \<times> u32"
  drain_scheduled :: bool
  drains_queued :: nat
  gui_at :: gui_pc
  drain_at :: drain_pc
  size_graph :: surfaces_graph
  last_posted :: "obj_id \<rightharpoonup> u32 \<times> u32"     \<comment> \<open>the last size of a surface that was not dropped with the surface missing\<close>

definition SizeQueue_new :: "surfaces_graph \<Rightarrow> size_queue" where
  "SizeQueue_new g = \<lparr> slots = Map.empty, drain_scheduled = False, drains_queued = 0, gui_at = Gui_idle, drain_at = Drain_idle,
     size_graph = g, last_posted = Map.empty \<rparr>"

section \<open>The GUI thread\<close>

text \<open>Post in its steps: the slot, EnsureDrainScheduled, and the call of \<open>post_\<close>.\<close>

definition Post_size :: "obj_id \<Rightarrow> u32 \<Rightarrow> u32 \<Rightarrow> size_queue \<Rightarrow> size_queue option" where
  "Post_size k w h q =
     (if gui_at q = Gui_idle
      then Some (q\<lparr> slots := (slots q)(k \<mapsto> (w, h)), gui_at := Gui_stored, last_posted := (last_posted q)(k \<mapsto> (w, h)) \<rparr>)
      else None)"

definition gui_continue :: "size_queue \<Rightarrow> size_queue option" where
  "gui_continue q = (case gui_at q of
     Gui_idle \<Rightarrow> None
   | Gui_stored \<Rightarrow> Some (if drain_scheduled q then q\<lparr> gui_at := Gui_idle \<rparr> else q\<lparr> drain_scheduled := True, gui_at := Gui_posting \<rparr>)
   | Gui_posting \<Rightarrow> Some (q\<lparr> drains_queued := Suc (drains_queued q), gui_at := Gui_idle \<rparr>))"

section \<open>The drain\<close>

text \<open>\<open>keys\<close> is the order in which the map is iterated.\<close>

definition drain_step :: "surfaces_env \<Rightarrow> commit_env \<Rightarrow> obj_id list \<Rightarrow> size_queue \<Rightarrow> size_queue option" where
  "drain_step env cenv keys q = (case drain_at q of
     Drain_idle \<Rightarrow> (if drains_queued q = 0 then None else Some (q\<lparr> drains_queued := drains_queued q - 1, drain_at := Drain_begin \<rparr>))
   | Drain_begin \<Rightarrow> Some (q\<lparr> drain_scheduled := False, drain_at := Drain_snapshot \<rparr>)
   | Drain_snapshot \<Rightarrow> (if distinct keys \<and> set keys = dom (slots q) then Some (q\<lparr> drain_at := Drain_loop keys False \<rparr>) else None)
   | Drain_loop [] need \<Rightarrow> Some (q\<lparr> drain_at := (if need then Drain_again else Drain_idle) \<rparr>)
   | Drain_loop (k # ks) need \<Rightarrow>
       Some (q\<lparr> drain_at := (case slots q k of
         None \<Rightarrow> Drain_loop ks need
       | Some _ \<Rightarrow> if sg_surfaces (size_graph q) k = None then Drain_drop k ks need else Drain_reread k ks need) \<rparr>)
   | Drain_drop k ks need \<Rightarrow>
       Some (q\<lparr> slots := (slots q)(k := None), last_posted := (last_posted q)(k := None), drain_at := Drain_loop ks need \<rparr>)
   | Drain_reread k ks need \<Rightarrow>
       Some (q\<lparr> drain_at := (case slots q k of None \<Rightarrow> Drain_loop ks need | Some (w, h) \<Rightarrow> Drain_apply k w h ks need) \<rparr>)
   | Drain_apply k w h ks need \<Rightarrow> do {
       g \<leftarrow> SetPresentationSize env cenv w h k (size_graph q);
       Some (q\<lparr> size_graph := g, drain_at := Drain_check k w h ks need \<rparr>) }
   | Drain_check k w h ks need \<Rightarrow>
       Some (case slots q k of
         None \<Rightarrow> q\<lparr> drain_at := Drain_loop ks need \<rparr>
       | Some sz \<Rightarrow> if sz = (w, h) then q\<lparr> slots := (slots q)(k := None), drain_at := Drain_loop ks need \<rparr>
           else q\<lparr> drain_at := Drain_loop ks True \<rparr>)
   | Drain_again \<Rightarrow>
       Some (if drain_scheduled q then q\<lparr> drain_at := Drain_idle \<rparr> else q\<lparr> drain_scheduled := True, drain_at := Drain_posting \<rparr>)
   | Drain_posting \<Rightarrow> Some (q\<lparr> drains_queued := Suc (drains_queued q), drain_at := Drain_idle \<rparr>))"

text \<open>The other works of the model thread: a command a presenter asks of a surface through the proxy
  (ModelObjectProxy::Invoke), which asserts that the target is in the domain, or a z-order snapshot.\<close>

datatype surface_work =
    AddClick add_env
  | RemoveClick commit_env
  | PageShown commit_env
  | UpdateModelBounds commit_env u32 u32 u32 u32

fun run_work :: "surfaces_env \<Rightarrow> surface_work \<Rightarrow> obj_id \<Rightarrow> surfaces_graph \<Rightarrow> surfaces_graph option" where
  "run_work env (AddClick ad) i g = AddSurface env ad i g"
| "run_work env (RemoveClick cenv) i g = Surface_Remove env cenv i g"
| "run_work env (PageShown cenv) i g = MakeCurrent env cenv i g"
| "run_work env (UpdateModelBounds cenv x y w h) i g = Surface_SetDesktopBounds env cenv x y w h i g"

definition Invoke :: "surfaces_env \<Rightarrow> surface_work \<Rightarrow> obj_id \<Rightarrow> surfaces_graph \<Rightarrow> surfaces_graph option" where
  "Invoke env work i g = do {
     assert_that (sg_surfaces g i \<noteq> None);
     run_work env work i g }"

fun work_clock :: "surface_work \<Rightarrow> u64" where
  "work_clock (AddClick ad) = ce_now1 (adv_commit ad)"
| "work_clock (RemoveClick cenv) = ce_now1 cenv"
| "work_clock (PageShown cenv) = ce_now1 cenv"
| "work_clock (UpdateModelBounds cenv x y w h) = ce_now1 cenv"

fun fresh_for :: "surface_work \<Rightarrow> surfaces_graph \<Rightarrow> bool" where
  "fresh_for (AddClick ad) g \<longleftrightarrow> sg_surfaces g (adv_sibling ad) = None"
| "fresh_for _ g \<longleftrightarrow> True"

inductive size_step :: "surfaces_env \<Rightarrow> size_queue \<Rightarrow> size_queue \<Rightarrow> bool" for env where
  post: "Post_size k w h q = Some q' \<Longrightarrow> size_step env q q'"
| gui: "gui_continue q = Some q' \<Longrightarrow> size_step env q q'"
| drain: "ce_now1 cenv \<noteq> 0 \<Longrightarrow> drain_step env cenv keys q = Some q' \<Longrightarrow> size_step env q q'"
| invoke: "drain_at q = Drain_idle \<Longrightarrow> work_clock work \<noteq> 0 \<Longrightarrow> fresh_for work (size_graph q) \<Longrightarrow>
    Invoke env work i (size_graph q) = Some g \<Longrightarrow> size_step env q (q\<lparr> size_graph := g \<rparr>)"
| z_order: "drain_at q = Drain_idle \<Longrightarrow> ce_now1 cenv \<noteq> 0 \<Longrightarrow>
    SetDesktopZOrderFromObjIds env cenv ids (size_graph q) = Some g \<Longrightarrow> size_step env q (q\<lparr> size_graph := g \<rparr>)"

text \<open>The states reached while the journals have room for another event.\<close>

inductive size_reachable :: "surfaces_env \<Rightarrow> size_queue \<Rightarrow> bool" for env where
  init: "size_reachable env (SizeQueue_new g)"
| step: "size_reachable env q \<Longrightarrow> surfaces_ready env (size_graph q) \<Longrightarrow> size_step env q q' \<Longrightarrow> size_reachable env q'"

section \<open>The binding of proxies\<close>

text \<open>\<open>proxy_refs\<close> counts the bindings of a proxy, \<open>bound\<close> is whether its pointer is this queue.\<close>

record 'p proxies =
  proxy_refs :: "'p \<rightharpoonup> nat"
  bound :: "'p \<Rightarrow> bool"

definition BindProxy :: "'p \<Rightarrow> 'p proxies \<Rightarrow> 'p proxies" where
  "BindProxy p b = b\<lparr> proxy_refs := (proxy_refs b)(p \<mapsto> Suc (case proxy_refs b p of None \<Rightarrow> 0 | Some k \<Rightarrow> k)),
     bound := (bound b)(p := True) \<rparr>"

definition UnbindProxy :: "'p \<Rightarrow> 'p proxies \<Rightarrow> 'p proxies" where
  "UnbindProxy p b = (case proxy_refs b p of
     None \<Rightarrow> b
   | Some k \<Rightarrow> b\<lparr> proxy_refs := (proxy_refs b)(p := (if k - 1 = 0 then None else Some (k - 1))), bound := (bound b)(p := False) \<rparr>)"

end
