(* ===== verification/SizeQueueProperties.thy ===== *)
theory SizeQueueProperties
  imports SizeQueue
begin

text \<open>
  What the size queue promises in every interleaving: one drain at most is on its way, no reported size is lost, and at
  rest every surface has the size that was reported last.
\<close>

section \<open>Sizes of surfaces\<close>

definition size_of :: "surfaces_graph \<Rightarrow> obj_id \<Rightarrow> (u32 \<times> u32) option" where
  "size_of g k = map_option (\<lambda>n. (presentation_width (materialized n), presentation_height (materialized n))) (sg_surfaces g k)"

definition keeps_sizes :: "surfaces_graph \<Rightarrow> surfaces_graph \<Rightarrow> bool" where
  "keeps_sizes g g' \<longleftrightarrow> (\<forall>k. size_of g k \<noteq> None \<longrightarrow> size_of g' k = size_of g k)"

lemma commit_surfaces_sizes: "commit_surfaces env cenv e g = Some g' \<Longrightarrow> sg_surfaces g' = sg_surfaces g"
  by (auto simp: commit_surfaces_def Option.bind_eq_Some_conv)

lemma same_surfaces_sizes: "sg_surfaces g' = sg_surfaces g \<Longrightarrow> keeps_sizes g g'"
  by (simp add: keeps_sizes_def size_of_def)

lemma commit_surface_applies:
  assumes "surfaces_ready env g" "ce_now1 cenv \<noteq> 0" "sg_surfaces g i = Some n" "Surface_Apply e (materialized n) = Some (s, k)"
    and "commit_surface env cenv e i g = Some g'"
  shows "\<exists>n'. sg_surfaces g' = (sg_surfaces g)(i \<mapsto> n') \<and> materialized n' = s"
  using commit_surface_runs [OF assms(1-4)] assms(5) by auto

lemma Surface_SetDesktopBounds_sizes:
  assumes "surfaces_ready env g" "ce_now1 cenv \<noteq> 0" "Surface_SetDesktopBounds env cenv x y w h i g = Some g'"
  shows "keeps_sizes g g'"
proof -
  obtain n where n: "sg_surfaces g i = Some n" using assms(3) by (auto simp: Surface_SetDesktopBounds_def Option.bind_eq_Some_conv)
  show ?thesis
  proof (cases "g' = g")
    case False
    then have "commit_surface env cenv (SurfaceBoundsChangedEvent x y w h) i g = Some g'"
      using assms(3) n by (auto simp: Surface_SetDesktopBounds_def Let_def split: if_splits)
    then obtain n' where "sg_surfaces g' = (sg_surfaces g)(i \<mapsto> n')"
        "materialized n' = (materialized n)\<lparr> desktop_x := x, desktop_y := y, desktop_width := w, desktop_height := h \<rparr>"
      using commit_surface_applies [OF assms(1,2) n] by (metis Surface_Apply.simps(1))
    then show ?thesis using n by (simp add: keeps_sizes_def size_of_def)
  qed (simp add: keeps_sizes_def)
qed

lemma SetPresentationSize_sizes:
  assumes "surfaces_ready env g" "ce_now1 cenv \<noteq> 0" "SetPresentationSize env cenv w h i g = Some g'"
  shows "size_of g' i = Some (w, h) \<and> (\<forall>k. k \<noteq> i \<longrightarrow> size_of g' k = size_of g k) \<and> (\<forall>k. sg_surfaces g k = None \<longleftrightarrow> sg_surfaces g' k = None)"
proof -
  obtain n where n: "sg_surfaces g i = Some n" using assms(3) by (auto simp: SetPresentationSize_def Option.bind_eq_Some_conv)
  show ?thesis
  proof (cases "presentation_width (materialized n) = w \<and> presentation_height (materialized n) = h")
    case True
    then show ?thesis using assms(3) n by (simp add: SetPresentationSize_def Let_def size_of_def)
  next
    case False
    then have "commit_surface env cenv (SurfacePresentationSizeChangedEvent w h) i g = Some g'"
      using assms(3) n by (auto simp: SetPresentationSize_def Let_def split: if_splits)
    then obtain n' where "sg_surfaces g' = (sg_surfaces g)(i \<mapsto> n')"
        "materialized n' = (materialized n)\<lparr> presentation_width := w, presentation_height := h \<rparr>"
      using commit_surface_applies [OF assms(1,2) n] by (metis Surface_Apply.simps(2))
    then show ?thesis using n by (simp add: size_of_def)
  qed
qed

lemma SetPresentationSize_runs:
  assumes "surfaces_ready env g" "ce_now1 cenv \<noteq> 0" "sg_surfaces g i \<noteq> None"
  shows "SetPresentationSize env cenv w h i g \<noteq> None"
proof -
  obtain n where n: "sg_surfaces g i = Some n" using assms(3) by blast
  have "commit_surface env cenv (SurfacePresentationSizeChangedEvent w h) i g \<noteq> None"
    using commit_surface_runs [OF assms(1,2) n] by (metis Surface_Apply.simps(2) option.distinct(1))
  then show ?thesis using n by (simp add: SetPresentationSize_def Let_def)
qed

lemma Invoke_sizes:
  assumes "surfaces_ready env g" "work_clock work \<noteq> 0" "fresh_for work g" "Invoke env work i g = Some g'"
  shows "keeps_sizes g g'"
proof (cases work)
  case (AddClick ad)
  then obtain n where "commit_surfaces env (adv_commit ad) (AddSurfaceEvent (adv_sibling ad))
      (g\<lparr> sg_surfaces := (sg_surfaces g)(adv_sibling ad \<mapsto> n) \<rparr>) = Some g'"
    using assms(4) by (auto simp: Invoke_def AddSurface_def assert_that_def Option.bind_eq_Some_conv split: if_splits)
  then show ?thesis using commit_surfaces_sizes assms(3) AddClick by (force simp: keeps_sizes_def size_of_def)
next
  case (UpdateModelBounds cenv x y w h)
  then have "Surface_SetDesktopBounds env cenv x y w h i g = Some g'"
    using assms(4) by (auto simp: Invoke_def assert_that_def Option.bind_eq_Some_conv split: if_splits)
  then show ?thesis using Surface_SetDesktopBounds_sizes [OF assms(1)] assms(2) UpdateModelBounds by simp
qed (use assms(4) in \<open>auto simp: Invoke_def Surface_Remove_def MakeCurrent_def Option.bind_eq_Some_conv
    intro!: same_surfaces_sizes dest: commit_surfaces_sizes split: if_splits\<close>)

lemma z_order_sizes: "SetDesktopZOrderFromObjIds env cenv ids g = Some g' \<Longrightarrow> keeps_sizes g g'"
  by (auto simp: SetDesktopZOrderFromObjIds_def Let_def intro!: same_surfaces_sizes dest: commit_surfaces_sizes split: if_splits)

section \<open>Invariant\<close>

text \<open>The keys the pass that is running will still come to, or will make another drain come to.\<close>

fun pass_covers :: "drain_pc \<Rightarrow> obj_id \<Rightarrow> bool" where
  "pass_covers Drain_snapshot k \<longleftrightarrow> True"
| "pass_covers (Drain_loop ks need) k \<longleftrightarrow> k \<in> set ks \<or> need"
| "pass_covers (Drain_drop j ks need) k \<longleftrightarrow> k = j \<or> k \<in> set ks \<or> need"
| "pass_covers (Drain_reread j ks need) k \<longleftrightarrow> k = j \<or> k \<in> set ks \<or> need"
| "pass_covers (Drain_apply j w h ks need) k \<longleftrightarrow> k = j \<or> k \<in> set ks \<or> need"
| "pass_covers (Drain_check j w h ks need) k \<longleftrightarrow> k = j \<or> k \<in> set ks \<or> need"
| "pass_covers Drain_again k \<longleftrightarrow> True"
| "pass_covers _ k \<longleftrightarrow> False"

lemma covers_nothing: "Collect (pass_covers Drain_idle) = {}" "Collect (pass_covers (Drain_loop [] False)) = {}"
  by auto

definition drains_on_way :: "size_queue \<Rightarrow> nat" where
  "drains_on_way q = drains_queued q + (if gui_at q = Gui_posting then 1 else 0) +
     (if drain_at q = Drain_begin \<or> drain_at q = Drain_posting then 1 else 0)"

text \<open>What a drain that looked at a surface knows of it.\<close>

fun drain_knows :: "drain_pc \<Rightarrow> size_queue \<Rightarrow> bool" where
  "drain_knows (Drain_reread k ks need) q \<longleftrightarrow> slots q k \<noteq> None \<and> sg_surfaces (size_graph q) k \<noteq> None"
| "drain_knows (Drain_apply k w h ks need) q \<longleftrightarrow> slots q k \<noteq> None \<and> sg_surfaces (size_graph q) k \<noteq> None"
| "drain_knows (Drain_check k w h ks need) q \<longleftrightarrow> slots q k \<noteq> None \<and> size_of (size_graph q) k = Some (w, h)"
| "drain_knows _ q \<longleftrightarrow> True"

text \<open>The last size of a surface waits in its slot or is the surface's.\<close>

definition sizes_known ::
  "(obj_id \<rightharpoonup> u32 \<times> u32) \<Rightarrow> (obj_id \<rightharpoonup> u32 \<times> u32) \<Rightarrow> surfaces_graph \<Rightarrow> bool" where
  "sizes_known waiting posted g \<longleftrightarrow> (\<forall>k. if waiting k = None then posted k = None \<or> posted k = size_of g k else posted k = waiting k)"

lemma sizes_known_post: "sizes_known waiting posted g \<Longrightarrow> sizes_known (waiting(k \<mapsto> sz)) (posted(k \<mapsto> sz)) g"
  by (simp add: sizes_known_def)

lemma sizes_known_drop: "sizes_known waiting posted g \<Longrightarrow> sizes_known (waiting(k := None)) (posted(k := None)) g"
  by (simp add: sizes_known_def)

lemma sizes_known_erase:
  assumes "sizes_known waiting posted g" "waiting k = Some sz" "size_of g k = Some sz"
  shows "sizes_known (waiting(k := None)) posted g"
proof -
  have "posted k = Some sz" using assms(1,2) unfolding sizes_known_def by (metis option.distinct(1))
  then show ?thesis using assms by (simp add: sizes_known_def)
qed

lemma sizes_known_graph:
  assumes "sizes_known waiting posted g" "\<And>k. waiting k = None \<Longrightarrow> size_of g k \<noteq> None \<Longrightarrow> size_of g' k = size_of g k"
  shows "sizes_known waiting posted g'"
  using assms unfolding sizes_known_def by metis

definition size_inv :: "size_queue \<Rightarrow> bool" where
  "size_inv q \<longleftrightarrow> finite (dom (slots q)) \<and> drains_on_way q = (if drain_scheduled q then 1 else 0) \<and>
     (drain_scheduled q \<or> gui_at q = Gui_stored \<or> dom (slots q) \<subseteq> Collect (pass_covers (drain_at q))) \<and>
     sizes_known (slots q) (last_posted q) (size_graph q) \<and>
     drain_knows (drain_at q) q"

lemma drain_knows_mono:
  "drain_knows pc q \<Longrightarrow> dom (slots q) \<subseteq> dom (slots q') \<Longrightarrow> size_graph q' = size_graph q \<Longrightarrow> drain_knows pc q'"
  by (cases pc) auto

lemma size_inv_post:
  assumes "size_inv q" "Post_size k w h q = Some q'"
  shows "size_inv q'"
proof -
  have q': "gui_at q = Gui_idle" "q' = q\<lparr> slots := (slots q)(k \<mapsto> (w, h)), gui_at := Gui_stored, last_posted := (last_posted q)(k \<mapsto> (w, h)) \<rparr>"
    using assms(2) by (auto simp: Post_size_def split: if_splits)
  have "drain_knows (drain_at q) q'"
    by (rule drain_knows_mono [of _ q]) (use assms(1) q' in \<open>auto simp: size_inv_def\<close>)
  then show ?thesis using assms(1) q' by (simp add: size_inv_def drains_on_way_def sizes_known_post)
qed

lemma size_inv_gui:
  assumes "size_inv q" "gui_continue q = Some q'"
  shows "size_inv q'"
proof -
  have same: "slots q' = slots q" "size_graph q' = size_graph q" "drain_at q' = drain_at q" "last_posted q' = last_posted q"
    using assms(2) by (auto simp: gui_continue_def split: gui_pc.splits if_splits)
  have "drain_knows (drain_at q) q'"
    by (rule drain_knows_mono [of _ q]) (use assms(1) same in \<open>auto simp: size_inv_def\<close>)
  moreover have "drains_on_way q' = (if drain_scheduled q' then 1 else 0)" "drain_scheduled q \<or> gui_at q = Gui_stored \<longrightarrow> drain_scheduled q'"
    using assms by (auto simp: gui_continue_def size_inv_def drains_on_way_def split: gui_pc.splits if_splits)
  ultimately show ?thesis using assms(1) same unfolding size_inv_def by auto
qed

lemma size_inv_graph:
  assumes "size_inv q" "keeps_sizes (size_graph q) g" "drain_at q = Drain_idle"
  shows "size_inv (q\<lparr> size_graph := g \<rparr>)"
proof -
  have "sizes_known (slots q) (last_posted q) g"
  proof (rule sizes_known_graph)
    show "sizes_known (slots q) (last_posted q) (size_graph q)" using assms(1) by (simp add: size_inv_def)
  qed (use assms(2) in \<open>unfold keeps_sizes_def, blast\<close>)
  then show ?thesis using assms(1,3) unfolding size_inv_def by (simp add: drains_on_way_def)
qed

lemma dom_drop: "dom m \<subseteq> insert k A \<Longrightarrow> dom (m(k := None)) \<subseteq> A"
  by auto

lemma covers_drop: "Collect (pass_covers (Drain_drop k ks need)) = insert k (Collect (pass_covers (Drain_loop ks need)))"
  by auto

lemma pass_covers_same:
  "pass_covers (Drain_apply k w h ks need) = pass_covers (Drain_reread k ks need)"
  "pass_covers (Drain_check k w h ks need) = pass_covers (Drain_reread k ks need)"
  "pass_covers (Drain_drop k ks need) = pass_covers (Drain_reread k ks need)"
  "pass_covers (Drain_loop (k # ks) need) = pass_covers (Drain_reread k ks need)"
  by auto

lemma size_inv_moved:
  assumes "size_inv q" "drain_at q \<notin> {Drain_begin, Drain_posting}" "pc \<notin> {Drain_begin, Drain_posting}" "drain_knows pc q"
    and "dom (slots q) \<subseteq> Collect (pass_covers (drain_at q)) \<Longrightarrow> dom (slots q) \<subseteq> Collect (pass_covers pc)"
  shows "size_inv (q\<lparr> drain_at := pc \<rparr>)"
proof -
  have "drain_knows pc (q\<lparr> drain_at := pc \<rparr>)" by (rule drain_knows_mono [OF assms(4)]) simp_all
  then show ?thesis using assms by (simp add: size_inv_def drains_on_way_def) blast
qed

lemma size_inv_dropped:
  assumes "size_inv q" "Collect (pass_covers (drain_at q)) = Collect (pass_covers (Drain_drop k ks need))"
    and "drain_at q \<notin> {Drain_begin, Drain_posting}" "sizes_known ((slots q)(k := None)) posted (size_graph q)"
  shows "size_inv (q\<lparr> slots := (slots q)(k := None), last_posted := posted, drain_at := Drain_loop ks need \<rparr>)"
proof -
  have "dom (slots q) \<subseteq> Collect (pass_covers (drain_at q)) \<Longrightarrow>
      dom ((slots q)(k := None)) \<subseteq> Collect (pass_covers (Drain_loop ks need))"
    unfolding assms(2) covers_drop by (rule dom_drop)
  then show ?thesis using assms(1,3,4) unfolding size_inv_def
    by (simp add: drains_on_way_def del: pass_covers.simps dom_fun_upd) blast
qed

lemma size_inv_loop:
  assumes inv: "size_inv q" and at: "drain_at q = Drain_loop ks need" and step: "drain_step env cenv keys q = Some q'"
  shows "size_inv q'"
proof (cases ks)
  case Nil
  have q': "q' = q\<lparr> drain_at := (if need then Drain_again else Drain_idle) \<rparr>"
    using Nil at step by (simp add: drain_step_def)
  show ?thesis unfolding q' by (rule size_inv_moved [OF inv]) (use Nil at in auto)
next
  case (Cons k js)
  let ?pc = "case slots q k of None \<Rightarrow> Drain_loop js need
    | Some _ \<Rightarrow> if sg_surfaces (size_graph q) k = None then Drain_drop k js need else Drain_reread k js need"
  have q': "q' = q\<lparr> drain_at := ?pc \<rparr>" using Cons at step by (simp add: drain_step_def)
  show ?thesis unfolding q'
    by (cases "slots q k"; cases "sg_surfaces (size_graph q) k"; rule size_inv_moved [OF inv]) (use Cons at in fastforce)+
qed

lemma size_inv_apply:
  assumes inv: "size_inv q" and ready: "surfaces_ready env (size_graph q)" "ce_now1 cenv \<noteq> 0"
    and at: "drain_at q = Drain_apply k w h ks need" and step: "drain_step env cenv keys q = Some q'"
  shows "size_inv q'"
proof -
  obtain g where g: "SetPresentationSize env cenv w h k (size_graph q) = Some g"
      "q' = q\<lparr> size_graph := g, drain_at := Drain_check k w h ks need \<rparr>"
    using step at by (auto simp: drain_step_def Option.bind_eq_Some_conv)
  note sizes = SetPresentationSize_sizes [OF ready g(1)]
  have k: "slots q k \<noteq> None" using inv at by (simp add: size_inv_def)
  have "sizes_known (slots q) (last_posted q) g"
  proof (rule sizes_known_graph)
    show "sizes_known (slots q) (last_posted q) (size_graph q)" using inv by (simp add: size_inv_def)
    show "size_of g j = size_of (size_graph q) j" if "slots q j = None" for j using sizes that k by metis
  qed
  moreover have "drains_on_way q' = drains_on_way q" using at g(2) by (simp add: drains_on_way_def)
  moreover have "drain_knows (drain_at q') q'" using g(2) k sizes by simp
  moreover have "drain_at q' = Drain_check k w h ks need" by (simp add: g(2))
  then have "Collect (pass_covers (drain_at q')) = Collect (pass_covers (drain_at q))"
    unfolding at by (simp only: pass_covers_same)
  ultimately show ?thesis using inv g(2) unfolding size_inv_def by simp
qed

lemma size_inv_check:
  assumes inv: "size_inv q" and at: "drain_at q = Drain_check k w h ks need" and step: "drain_step env cenv keys q = Some q'"
  shows "size_inv q'"
proof -
  obtain sz where sz: "slots q k = Some sz" "size_of (size_graph q) k = Some (w, h)" using inv at by (auto simp: size_inv_def)
  show ?thesis
  proof (cases "sz = (w, h)")
    case True
    have q': "q' = q\<lparr> slots := (slots q)(k := None), last_posted := last_posted q, drain_at := Drain_loop ks need \<rparr>"
      using at sz True step by (simp add: drain_step_def)
    have "sizes_known ((slots q)(k := None)) (last_posted q) (size_graph q)"
      using inv sz True by (intro sizes_known_erase) (auto simp: size_inv_def)
    then show ?thesis unfolding q' using at by (intro size_inv_dropped [OF inv]) (simp_all only: pass_covers_same, simp_all)
  next
    case False
    have q': "q' = q\<lparr> drain_at := Drain_loop ks True \<rparr>" using at sz False step by (simp add: drain_step_def)
    show ?thesis unfolding q' by (rule size_inv_moved [OF inv]) (use at in auto)
  qed
qed

lemma size_inv_drain:
  assumes inv: "size_inv q" and ready: "surfaces_ready env (size_graph q)" "ce_now1 cenv \<noteq> 0"
    and step: "drain_step env cenv keys q = Some q'"
  shows "size_inv q'"
proof (cases "drain_at q")
  case (Drain_loop ks need)
  then show ?thesis by (rule size_inv_loop [OF inv _ step])
next
  case (Drain_drop k ks need)
  have q': "q' = q\<lparr> slots := (slots q)(k := None), last_posted := (last_posted q)(k := None), drain_at := Drain_loop ks need \<rparr>"
    using Drain_drop step by (simp add: drain_step_def)
  show ?thesis unfolding q'
    by (rule size_inv_dropped [OF inv]) (use Drain_drop inv in \<open>auto simp: size_inv_def intro: sizes_known_drop\<close>)
next
  case (Drain_reread k ks need)
  then obtain w h where sz: "slots q k = Some (w, h)" "sg_surfaces (size_graph q) k \<noteq> None" using inv by (auto simp: size_inv_def)
  have q': "q' = q\<lparr> drain_at := Drain_apply k w h ks need \<rparr>" using Drain_reread sz step by (simp add: drain_step_def)
  show ?thesis unfolding q' by (rule size_inv_moved [OF inv]) (use Drain_reread sz in \<open>simp_all add: pass_covers_same\<close>)
next
  case (Drain_apply k w h ks need)
  then show ?thesis by (rule size_inv_apply [OF inv ready _ step])
next
  case (Drain_check k w h ks need)
  then show ?thesis by (rule size_inv_check [OF inv _ step])
qed (use inv step in \<open>auto simp: drain_step_def size_inv_def drains_on_way_def split: if_splits\<close>)

lemma size_reachable_inv: "size_reachable env q \<Longrightarrow> size_inv q"
proof (induction rule: size_reachable.induct)
  case (step q q')
  show ?case using step.hyps(3)
  proof cases
    case (invoke work i g)
    then show ?thesis using size_inv_graph [OF step.IH] Invoke_sizes step.hyps(2) by blast
  next
    case (z_order cenv ids g)
    then show ?thesis using size_inv_graph [OF step.IH] z_order_sizes by blast
  qed (use step size_inv_post size_inv_gui size_inv_drain in blast)+
qed (simp add: size_inv_def SizeQueue_new_def drains_on_way_def sizes_known_def)

lemma drain_goes_on:
  assumes inv: "size_inv q" and busy: "drain_at q \<noteq> Drain_idle \<or> drains_queued q \<noteq> 0"
    and ready: "surfaces_ready env (size_graph q)" "ce_now1 cenv \<noteq> 0"
  shows "\<exists>keys. drain_step env cenv keys q \<noteq> None"
proof (cases "drain_at q")
  case Drain_snapshot
  obtain keys where "distinct keys" "set keys = dom (slots q)" 
    using finite_distinct_list [of "dom (slots q)"] inv unfolding size_inv_def by blast
  then show ?thesis using Drain_snapshot by (intro exI [of _ keys]) (simp add: drain_step_def)
next
  case (Drain_apply k w h ks need)
  then have "sg_surfaces (size_graph q) k \<noteq> None" using inv by (auto simp: size_inv_def)
  then obtain g where "SetPresentationSize env cenv w h k (size_graph q) = Some g" using SetPresentationSize_runs [OF ready] by blast
  then show ?thesis using Drain_apply by (simp add: drain_step_def)
next
  case (Drain_loop ks need)
  then show ?thesis by (cases ks) (simp_all add: drain_step_def)
qed (use busy in \<open>simp_all add: drain_step_def\<close>)

text \<open>C23. In every interleaving of the GUI thread with the drains and the other works of the model thread: at most one drain is queued or
  on its way into the queue, and none while the flag is clear; when both threads are at rest no size waits and every surface
  has the size that was reported last; and until then one of them can go on, so no report is left behind.\<close>

theorem last_reported_size_wins:
  assumes "size_reachable env q"
  shows "drains_on_way q = (if drain_scheduled q then 1 else 0) \<and>
    (gui_at q = Gui_idle \<and> drain_at q = Drain_idle \<and> drains_queued q = 0 \<longrightarrow>
       slots q = Map.empty \<and> (\<forall>k sz. last_posted q k = Some sz \<longrightarrow> size_of (size_graph q) k = Some sz)) \<and>
    (gui_at q \<noteq> Gui_idle \<longrightarrow> gui_continue q \<noteq> None) \<and>
    (drain_at q \<noteq> Drain_idle \<or> drains_queued q \<noteq> 0 \<longrightarrow> surfaces_ready env (size_graph q) \<longrightarrow>
       (\<forall>cenv. ce_now1 cenv \<noteq> 0 \<longrightarrow> (\<exists>keys. drain_step env cenv keys q \<noteq> None)))"
proof -
  have inv: "size_inv q" by (rule size_reachable_inv [OF assms])
  have rest: "slots q = Map.empty \<and> (\<forall>k sz. last_posted q k = Some sz \<longrightarrow> size_of (size_graph q) k = Some sz)"
    if "gui_at q = Gui_idle" "drain_at q = Drain_idle" "drains_queued q = 0"
  proof -
    have "\<not> drain_scheduled q" using inv that by (simp add: size_inv_def drains_on_way_def split: if_splits)
    then have e: "slots q = Map.empty" using inv that by (simp add: size_inv_def covers_nothing del: pass_covers.simps)
    have "sizes_known (slots q) (last_posted q) (size_graph q)" using inv by (simp add: size_inv_def)
    then show ?thesis using e unfolding sizes_known_def by (metis option.distinct(1))
  qed
  show ?thesis
    using inv rest drain_goes_on [OF inv] by (auto simp: size_inv_def gui_continue_def split: gui_pc.split)
qed

text \<open>The GUI reports twice; the first drain takes the second size.\<close>

definition sample_reported :: size_queue where
  "sample_reported = (SizeQueue_new sample_surfaces)\<lparr> slots := [11 \<mapsto> (800, 600)], drain_scheduled := True, drains_queued := 1,
     last_posted := [11 \<mapsto> (800, 600)] \<rparr>"

lemma sample_reported_reachable: "size_reachable sample_surfaces_env sample_reported"
proof -
  let ?r = "size_reachable sample_surfaces_env" and ?q0 = "SizeQueue_new sample_surfaces"
  let ?q1 = "the (Post_size 11 640 480 ?q0)" let ?q2 = "the (gui_continue ?q1)" let ?q3 = "the (gui_continue ?q2)"
  let ?q4 = "the (Post_size 11 800 600 ?q3)" let ?q5 = "the (gui_continue ?q4)"
  have go: "?r q \<Longrightarrow> size_graph q = sample_surfaces \<Longrightarrow> Post_size k w h q = Some q' \<or> gui_continue q = Some q' \<Longrightarrow> ?r q'" for q q' k w h
    using sample_surfaces_ready by (auto intro: size_reachable.step size_step.post size_step.gui)
  note defs = Post_size_def gui_continue_def SizeQueue_new_def
  have "?r ?q1" by (rule go [OF size_reachable.init, of _ 11 640 480]) (simp_all add: defs)
  then have "?r ?q2" by (rule go) (simp_all add: defs)
  then have "?r ?q3" by (rule go) (simp_all add: defs)
  then have "?r ?q4" by (rule go [of _ 11 800 600]) (simp_all add: defs)
  then have "?r ?q5" by (rule go) (simp_all add: defs)
  then show ?thesis by (simp add: defs sample_reported_def)
qed

lemma last_reported_size_wins_witness:
  "drains_on_way sample_reported = 1 \<and> (\<exists>keys. drain_step sample_surfaces_env sample_cenv keys sample_reported \<noteq> None)"
proof -
  have "surfaces_ready sample_surfaces_env (size_graph sample_reported)"
    using sample_surfaces_ready by (simp add: sample_reported_def SizeQueue_new_def)
  moreover have "drains_queued sample_reported \<noteq> 0" "drain_scheduled sample_reported" "ce_now1 sample_cenv \<noteq> 0"
    by (simp_all add: sample_reported_def sample_cenv_def)
  ultimately show ?thesis using last_reported_size_wins [OF sample_reported_reachable] by simp
qed

section \<open>Bindings\<close>

text \<open>A proxy bound twice and unbound once has lost the queue while a reference is left.\<close>

lemma unbind_drops_the_queue:
  "proxy_refs (UnbindProxy p (BindProxy p (BindProxy p b))) p \<noteq> None \<and> \<not> bound (UnbindProxy p (BindProxy p (BindProxy p b))) p"
  by (simp add: BindProxy_def UnbindProxy_def)

end
