(* ===== verification/UiWidgets.thy ===== *)
theory UiWidgets
  imports NodeCommits
begin

text \<open>
  The widgets of the model (src/include/apptraverse/ui, src/src/ui): windows, edit boxes, push buttons, list containers,
  the locale and localized strings, each with its events and the functions the GUI reaches through the model proxy.  An
  Apply yields the fields and how often it called NoteMaterializedChange.  A pointer is an object id; an \<open>int\<close> or a
  \<open>std::int32_t\<close> is its 32 bits.
\<close>

section \<open>Windows\<close>

record ui_window =
  client_width :: u32
  client_height :: u32

record ui_desktop_window = ui_window +
  frame_x :: u32
  frame_y :: u32

datatype ui_window_event = SetUiWindowClientSizeEvent u32 u32

definition SetClientSizeInternal :: "u32 \<Rightarrow> u32 \<Rightarrow> 'a ui_window_scheme \<Rightarrow> 'a ui_window_scheme \<times> nat" where
  "SetClientSizeInternal w h s =
     (if client_width s = w \<and> client_height s = h then (s, 0) else (s\<lparr> client_width := w, client_height := h \<rparr>, 1))"

fun UiWindow_Apply :: "ui_window_event \<Rightarrow> 'a ui_window_scheme \<Rightarrow> ('a ui_window_scheme \<times> nat) option" where
  "UiWindow_Apply (SetUiWindowClientSizeEvent w h) s = Some (SetClientSizeInternal w h s)"

text \<open>The events of the base class apply to a desktop window too.\<close>

datatype ui_desktop_event =
    WindowEvent ui_window_event
  | SetUiDesktopWindowFrameEvent u32 u32 u32 u32
  | ReportUiDesktopWindowFrameFromNativeEvent u32 u32 u32 u32
  | RequestUiDesktopWindowFrameEvent u32 u32 u32 u32

definition ApplyFrameGeometry :: "u32 \<Rightarrow> u32 \<Rightarrow> u32 \<Rightarrow> u32 \<Rightarrow> ui_desktop_window \<Rightarrow> ui_desktop_window \<times> nat" where
  "ApplyFrameGeometry x y w h s =
     (let changed = False;
          (s, changed) = (if frame_x s \<noteq> x then (s\<lparr> frame_x := x \<rparr>, True) else (s, changed));
          (s, changed) = (if frame_y s \<noteq> y then (s\<lparr> frame_y := y \<rparr>, True) else (s, changed)) in
      if client_width s \<noteq> w \<or> client_height s \<noteq> h then SetClientSizeInternal w h s
      else if changed then (s, 1) else (s, 0))"

fun UiDesktopWindow_Apply :: "ui_desktop_event \<Rightarrow> ui_desktop_window \<Rightarrow> (ui_desktop_window \<times> nat) option" where
  "UiDesktopWindow_Apply (WindowEvent e) s = UiWindow_Apply e s"
| "UiDesktopWindow_Apply (SetUiDesktopWindowFrameEvent x y w h) s = Some (ApplyFrameGeometry x y w h s)"
| "UiDesktopWindow_Apply (ReportUiDesktopWindowFrameFromNativeEvent x y w h) s = Some (ApplyFrameGeometry x y w h s)"
| "UiDesktopWindow_Apply (RequestUiDesktopWindowFrameEvent x y w h) s = Some (ApplyFrameGeometry x y w h s)"

text \<open>Every class here accepts all its events.\<close>

abbreviation widget_ops :: "('e \<Rightarrow> 's \<Rightarrow> ('s \<times> nat) option) \<Rightarrow> ('s \<Rightarrow> 's) \<Rightarrow> ('s, 'e, 's) node_ops" where
  "widget_ops app missing \<equiv> lifecycle_ops (\<lambda>e s. True) app missing"

type_synonym ui_desktop_node = "(ui_desktop_window, ui_desktop_event, ui_desktop_window) node"

text \<open>The pending request is a member that is not reflected: it belongs to the live object only.\<close>

record desktop_window_object =
  dw_node :: ui_desktop_node
  frame_request_pending_publication :: bool

definition same_frame :: "u32 \<Rightarrow> u32 \<Rightarrow> u32 \<Rightarrow> u32 \<Rightarrow> ui_desktop_window \<Rightarrow> bool" where
  "same_frame x y w h s \<longleftrightarrow> frame_x s = x \<and> frame_y s = y \<and> client_width s = w \<and> client_height s = h"

definition SubmitFrameFromNative ::
  "(ui_desktop_window \<Rightarrow> ui_desktop_window) \<Rightarrow> commit_env \<Rightarrow> u32 \<Rightarrow> u32 \<Rightarrow> u32 \<Rightarrow> u32 \<Rightarrow> desktop_window_object \<Rightarrow>
   desktop_window_object option" where
  "SubmitFrameFromNative missing cenv x y w h d =
     (if same_frame x y w h (materialized (dw_node d)) then Some d
      else do {
        n \<leftarrow> Commit (widget_ops UiDesktopWindow_Apply missing) cenv (ReportUiDesktopWindowFrameFromNativeEvent x y w h) (dw_node d);
        Some (d\<lparr> dw_node := n \<rparr>) })"

definition RequestFrame ::
  "(ui_desktop_window \<Rightarrow> ui_desktop_window) \<Rightarrow> commit_env \<Rightarrow> u32 \<Rightarrow> u32 \<Rightarrow> u32 \<Rightarrow> u32 \<Rightarrow> desktop_window_object \<Rightarrow>
   desktop_window_object option" where
  "RequestFrame missing cenv x y w h d =
     (if same_frame x y w h (materialized (dw_node d)) then Some d
      else do {
        n \<leftarrow> Commit (widget_ops UiDesktopWindow_Apply missing) cenv (RequestUiDesktopWindowFrameEvent x y w h) (dw_node d);
        Some (d\<lparr> dw_node := n, frame_request_pending_publication := True \<rparr>) })"

definition TakeFrameRequestPendingPublication :: "desktop_window_object \<Rightarrow> bool \<times> desktop_window_object" where
  "TakeFrameRequestPendingPublication d =
     (frame_request_pending_publication d, d\<lparr> frame_request_pending_publication := False \<rparr>)"

section \<open>Edit boxes\<close>

record ui_edit_box =
  edit_text :: string
  caret_utf8_offset :: nat
  read_only :: bool

datatype ui_edit_event = SetUiEditBoxTextEvent string | SetUiEditBoxCaretEvent nat

definition MaterializeText :: "string \<Rightarrow> ui_edit_box \<Rightarrow> ui_edit_box \<times> nat" where
  "MaterializeText t s = (if edit_text s = t then (s, 0) else (s\<lparr> edit_text := t \<rparr>, 1))"

definition MaterializeCaret :: "nat \<Rightarrow> ui_edit_box \<Rightarrow> ui_edit_box \<times> nat" where
  "MaterializeCaret c s = (if caret_utf8_offset s = c then (s, 0) else (s\<lparr> caret_utf8_offset := c \<rparr>, 1))"

fun UiEditBox_Apply :: "ui_edit_event \<Rightarrow> ui_edit_box \<Rightarrow> (ui_edit_box \<times> nat) option" where
  "UiEditBox_Apply (SetUiEditBoxTextEvent t) s = Some (MaterializeText t s)"
| "UiEditBox_Apply (SetUiEditBoxCaretEvent c) s = Some (MaterializeCaret c s)"

type_synonym ui_edit_node = "(ui_edit_box, ui_edit_event, ui_edit_box) node"

definition SubmitCaretFromUi :: "(ui_edit_box \<Rightarrow> ui_edit_box) \<Rightarrow> commit_env \<Rightarrow> nat \<Rightarrow> ui_edit_node \<Rightarrow> ui_edit_node option" where
  "SubmitCaretFromUi missing cenv c n = Commit (widget_ops UiEditBox_Apply missing) cenv (SetUiEditBoxCaretEvent c) n"

definition SubmitTextFromUi ::
  "(ui_edit_box \<Rightarrow> ui_edit_box) \<Rightarrow> commit_env \<Rightarrow> commit_env \<Rightarrow> string \<Rightarrow> nat \<Rightarrow> ui_edit_node \<Rightarrow> ui_edit_node option" where
  "SubmitTextFromUi missing cenv cenv' t c n = do {
     n \<leftarrow> Commit (widget_ops UiEditBox_Apply missing) cenv (SetUiEditBoxTextEvent t) n;
     SubmitCaretFromUi missing cenv' c n }"

text \<open>UiEditBoxPresenter::OnCommand; \<open>0x0300\<close> is EN_CHANGE.\<close>

definition EditBoxPresenter_OnCommand :: "u32 \<Rightarrow> u32 \<Rightarrow> 16 word \<Rightarrow> bool" where
  "EditBoxPresenter_OnCommand control_id command_id notification_code \<longleftrightarrow>
     \<not> (control_id = 0 \<or> command_id \<noteq> control_id \<or> notification_code \<noteq> 0x0300)"

section \<open>Push buttons\<close>

record ui_push_button =
  button_label :: obj_id
  button_enabled :: bool

datatype ui_button_event = UiPushButtonClickedEvent | SetUiPushButtonEnabledEvent bool

definition MaterializeEnabled :: "bool \<Rightarrow> ui_push_button \<Rightarrow> ui_push_button \<times> nat" where
  "MaterializeEnabled b s = (if button_enabled s = b then (s, 0) else (s\<lparr> button_enabled := b \<rparr>, 1))"

fun UiPushButton_Apply :: "ui_button_event \<Rightarrow> ui_push_button \<Rightarrow> (ui_push_button \<times> nat) option" where
  "UiPushButton_Apply UiPushButtonClickedEvent s = Some (s, 0)"
| "UiPushButton_Apply (SetUiPushButtonEnabledEvent b) s = Some (MaterializeEnabled b s)"

text \<open>HandlePushButtonClicked is virtual: \<open>clicked\<close>.\<close>

definition NotifyClicked :: "('g \<Rightarrow> 'g) \<Rightarrow> ui_push_button \<Rightarrow> 'g \<Rightarrow> 'g" where
  "NotifyClicked clicked s g = (if \<not> button_enabled s then g else clicked g)"

text \<open>UiPushButtonPresenter::OnCommand: the answer and whether NotifyClicked is invoked.  \<open>button\<close> is the button of the GUI
  mirror, \<open>None\<close> for an empty pointer.\<close>

definition PushButtonPresenter_OnCommand :: "u32 \<Rightarrow> ui_push_button option \<Rightarrow> bool \<Rightarrow> u32 \<Rightarrow> 16 word \<Rightarrow> bool \<times> bool" where
  "PushButtonPresenter_OnCommand control_id button has_proxy command_id notification_code =
     (if control_id = 0 \<or> command_id \<noteq> control_id \<or> notification_code \<noteq> 0 then (False, False)
      else case button of
        None \<Rightarrow> (False, False)
      | Some s \<Rightarrow> if \<not> button_enabled s then (False, False) else if \<not> has_proxy then (False, False) else (True, True))"

section \<open>List containers\<close>

record ui_list_container =
  list_rows :: "obj_id list"

datatype ui_list_event = RemoveUiListRowEvent obj_id

fun UiListContainer_Apply :: "aether \<Rightarrow> ui_list_event \<Rightarrow> ui_list_container \<Rightarrow> (ui_list_container \<times> nat) option" where
  "UiListContainer_Apply ae (RemoveUiListRowEvent row_id) s =
     Some (s\<lparr> list_rows := filter (\<lambda>row. \<not> (ae_valid ae row \<and> row = row_id)) (list_rows s) \<rparr>, 0)"

section \<open>Locale and localized strings\<close>

record ui_locale_settings =
  language_index :: u32

datatype ui_locale_event = SetUiLanguageIndexEvent u32

fun UiLocaleSettings_Apply :: "ui_locale_event \<Rightarrow> ui_locale_settings \<Rightarrow> (ui_locale_settings \<times> nat) option" where
  "UiLocaleSettings_Apply (SetUiLanguageIndexEvent i) s =
     Some (if language_index s = i then (s, 0) else (s\<lparr> language_index := i \<rparr>, 1))"

type_synonym ui_locale_node = "(ui_locale_settings, ui_locale_event, ui_locale_settings) node"

definition SubmitLanguageIndexFromUi ::
  "(ui_locale_settings \<Rightarrow> ui_locale_settings) \<Rightarrow> commit_env \<Rightarrow> u32 \<Rightarrow> ui_locale_node \<Rightarrow> ui_locale_node option" where
  "SubmitLanguageIndexFromUi missing cenv i n =
     (if language_index (materialized n) = i then Some n
      else Commit (widget_ops UiLocaleSettings_Apply missing) cenv (SetUiLanguageIndexEvent i) n)"

text \<open>SurfaceLanguageButtonPresenter::OnCommand: the language it asks for.\<close>

definition LanguageButton_OnCommand :: "u32 \<Rightarrow> bool \<Rightarrow> ui_locale_settings option \<Rightarrow> u32 \<Rightarrow> u32 option" where
  "LanguageButton_OnCommand control_id has_proxy locale command_id =
     (if command_id \<noteq> control_id \<or> \<not> has_proxy then None else map_option (\<lambda>s. 1 - language_index s) locale)"

text \<open>The strings of a localization; \<open>None\<close> is an empty pointer.\<close>

definition ResolveLocalization :: "string option list option \<Rightarrow> u32 \<Rightarrow> string" where
  "ResolveLocalization localization index = (case localization of
     None \<Rightarrow> []
   | Some [] \<Rightarrow> []
   | Some (front # rest) \<Rightarrow>
       let first = (case front of Some utf8 \<Rightarrow> utf8 | None \<Rightarrow> []) in
       if sint index < 0 \<or> nat (sint index) \<ge> length (front # rest) then first
       else (case (front # rest) ! nat (sint index) of Some utf8 \<Rightarrow> utf8 | None \<Rightarrow> first))"

definition LocalizationSlot_Apply :: "u32 \<Rightarrow> string \<Rightarrow> string option list \<Rightarrow> string option list \<times> nat" where
  "LocalizationSlot_Apply slot_index utf8 strings =
     (if sint slot_index < 0 then (strings, 0)
      else let index = nat (sint slot_index) in
        if index \<ge> length strings then (strings, 0)
        else case strings ! index of
          None \<Rightarrow> (strings, 0)
        | Some old \<Rightarrow> if old = utf8 then (strings, 0) else (strings[index := Some utf8], 1))"

section \<open>Changes and their notices\<close>

definition notes_changes :: "('e \<Rightarrow> 's \<Rightarrow> ('s \<times> nat) option) \<Rightarrow> bool" where
  "notes_changes app \<longleftrightarrow> (\<forall>e s. \<exists>s' k. app e s = Some (s', k) \<and> k = (if s' = s then 0 else 1))"

lemma window_notes: "notes_changes (UiWindow_Apply :: _ \<Rightarrow> ui_window \<Rightarrow> _)"
proof -
  have "\<exists>s' k. UiWindow_Apply e s = Some (s', k) \<and> k = (if s' = s then 0 else 1)" for e and s :: ui_window
    by (cases e; cases s) (auto simp: SetClientSizeInternal_def)
  then show ?thesis unfolding notes_changes_def by blast
qed

lemma frame_noted:
  "snd (ApplyFrameGeometry x y w h s) = (if fst (ApplyFrameGeometry x y w h s) = s then 0 else 1)"
  by (cases s) (auto simp: ApplyFrameGeometry_def SetClientSizeInternal_def Let_def)

lemma frame_applied: "\<exists>s' k. Some (ApplyFrameGeometry x y w h s) = Some (s', k) \<and> k = (if s' = s then 0 else 1)"
  using frame_noted [of x y w h s] by (cases "ApplyFrameGeometry x y w h s") simp

lemma desktop_window_notes: "notes_changes UiDesktopWindow_Apply"
proof -
  have "\<exists>s' k. UiDesktopWindow_Apply e s = Some (s', k) \<and> k = (if s' = s then 0 else 1)" for e s
  proof (cases e)
    case (WindowEvent we)
    then show ?thesis by (cases we; cases s) (auto simp: SetClientSizeInternal_def)
  qed (simp_all only: UiDesktopWindow_Apply.simps frame_applied)
  then show ?thesis unfolding notes_changes_def by blast
qed

lemma edit_box_notes: "notes_changes UiEditBox_Apply"
proof -
  have "\<exists>s' k. UiEditBox_Apply e s = Some (s', k) \<and> k = (if s' = s then 0 else 1)" for e s
    by (cases e; cases s) (auto simp: MaterializeText_def MaterializeCaret_def)
  then show ?thesis unfolding notes_changes_def by blast
qed

lemma push_button_notes: "notes_changes UiPushButton_Apply"
proof -
  have "\<exists>s' k. UiPushButton_Apply e s = Some (s', k) \<and> k = (if s' = s then 0 else 1)" for e s
    by (cases e; cases s) (auto simp: MaterializeEnabled_def)
  then show ?thesis unfolding notes_changes_def by blast
qed

lemma locale_notes: "notes_changes UiLocaleSettings_Apply"
proof -
  have "\<exists>s' k. UiLocaleSettings_Apply e s = Some (s', k) \<and> k = (if s' = s then 0 else 1)" for e s
    by (cases e; cases s) auto
  then show ?thesis unfolding notes_changes_def by blast
qed

text \<open>A commit on a widget that notes its changes tells the runtime exactly when the fields changed.\<close>

lemma widget_commit_told:
  assumes "notes_changes app" "node_ready (widget_ops app missing) n" "ce_now1 cenv \<noteq> 0" "\<not> suppress_materialized_change n"
  shows "\<exists>n'. Commit (widget_ops app missing) cenv e n = Some n' \<and> app e (materialized n) = Some (materialized n', if materialized n' = materialized n then 0 else 1) \<and>
    generation n' = generation n + (if materialized n' = materialized n then 0 else 1) \<and>
    notifications n' = notifications n + (if materialized_change_fn n \<and> materialized n' \<noteq> materialized n then 1 else 0)"
proof -
  obtain s k where s: "app e (materialized n) = Some (s, k)" "k = (if s = materialized n then 0 else 1)"
    using assms(1) unfolding notes_changes_def by blast
  obtain n' where n': "Commit (widget_ops app missing) cenv e n = Some n'" "materialized n' = s"
    using lifecycle_commit [where can = "\<lambda>e s. True", OF assms(2,3) _ s(1)] by blast
  have "generation n' = generation n + of_nat k \<and> notifications n' = notifications n + (if materialized_change_fn n then k else 0)"
    by (rule commit_notes [OF assms(2) n'(1) s(1) assms(4)])
  then show ?thesis using n' s by auto
qed



end
