(* ===== verification/SurfacesStart.thy ===== *)
theory SurfacesStart
  imports SizeQueue UiWidgets Distill FileSystem
begin

text \<open>
  The first graph of the surfaces and what stands around it: the localized strings
  (src/src/surfaces/surfaces_localization.cpp), the presenters of a surface with the commands they send to the model
  (surface_window_presenter, surface_button_presenter, surface_language_button_presenter and desktop_surface_presenter
  under src/src/surfaces), the wiring of their labels (surfaces_chrome_wiring.cpp) and BuildSurfacesGraph
  (src/examples/surfaces_demo/common/surfaces_distill.cpp).  A pointer is an object id.
\<close>

section \<open>Localized strings\<close>

text \<open>The strings of a localized string, \<open>None\<close> for an empty pointer; the event names a slot.\<close>

datatype localization_event = SetUiLocalizationSlotUtf8Event u32 string

fun UiLocalizationString_Apply :: "localization_event \<Rightarrow> string option list \<Rightarrow> (string option list \<times> nat) option" where
  "UiLocalizationString_Apply (SetUiLocalizationSlotUtf8Event slot utf8) strings = Some (LocalizationSlot_Apply slot utf8 strings)"

type_synonym localization_node = "(string option list, localization_event, string option list) node"

definition Localization_ops ::
  "(string option list \<Rightarrow> string option list) \<Rightarrow> (string option list, localization_event, string option list) node_ops" where
  "Localization_ops missing = lifecycle_ops (\<lambda>e s. True) UiLocalizationString_Apply missing"

definition created_localization :: "aether \<Rightarrow> nat option \<Rightarrow> obj_id \<Rightarrow> localization_node" where
  "created_localization ae d i = \<lparr> node_obj_id = i, node_domain = d, materialized = [], base = null_ptr ae, base_layer = None,
     journal = [], generation = 1, applied_journal_size = kJournalFullyMaterialized,
     journal_retention_policy = default_retention, journal_compaction_blocked = False,
     suppress_materialized_change = False, materialized_change_fn = False, notifications = 0 \<rparr>"

text \<open>InitializeRuntimeNode with a node to take the notifier from; then the strings are put in.\<close>

definition MakeLocalizedString ::
  "aether \<Rightarrow> (string option list \<Rightarrow> string option list) \<Rightarrow> bool \<Rightarrow> obj_id \<Rightarrow> obj_id \<Rightarrow> nat option \<Rightarrow> string \<Rightarrow> string \<Rightarrow>
   localization_node option" where
  "MakeLocalizedString ae missing surfaces_fn i base_id d en ru = do {
     n \<leftarrow> InitializeRuntimeNode (Localization_ops missing) True [] base_id (created_localization ae d i);
     Some (n\<lparr> materialized_change_fn := surfaces_fn, materialized := [Some en, Some ru] \<rparr>) }"

text \<open>The four localized strings of the application and its locale; the Russian texts are the bytes of their UTF-8.\<close>

record surfaces_application =
  app_surfaces :: obj_id
  app_locale :: obj_id
  app_label_add :: obj_id
  app_label_close :: obj_id
  app_title_prefix :: obj_id
  app_language_switch :: obj_id

definition utf8_text :: "u8 list \<Rightarrow> string" where
  "utf8_text bs = bytes_string bs"

definition ru_add :: string where
  "ru_add = utf8_text [0xD0, 0x94, 0xD0, 0xBE, 0xD0, 0xB1, 0xD0, 0xB0, 0xD0, 0xB2, 0xD0, 0xB8, 0xD1, 0x82, 0xD1, 0x8C]"

definition ru_close :: string where
  "ru_close = utf8_text [0xD0, 0x97, 0xD0, 0xB0, 0xD0, 0xBA, 0xD1, 0x80, 0xD1, 0x8B, 0xD1, 0x82, 0xD1, 0x8C, 0x20, 0xD1, 0x8D, 0xD1, 0x82, 0xD0, 0xBE, 0x20, 0xD0, 0xBE, 0xD0, 0xBA, 0xD0, 0xBD, 0xD0, 0xBE]"

definition ru_surface :: string where
  "ru_surface = utf8_text [0xD0, 0x9F, 0xD0, 0xBE, 0xD0, 0xB2, 0xD0, 0xB5, 0xD1, 0x80, 0xD1, 0x85, 0xD0, 0xBD, 0xD0, 0xBE, 0xD1, 0x81, 0xD1, 0x82, 0xD1, 0x8C, 0x20]"

text \<open>The ids that one installation creates, a node and its base at a time.\<close>

record install_env =
  in_locale :: "obj_id \<times> obj_id"
  in_add :: "obj_id \<times> obj_id"
  in_close :: "obj_id \<times> obj_id"
  in_title :: "obj_id \<times> obj_id"
  in_switch :: "obj_id \<times> obj_id"

definition created_locale :: "aether \<Rightarrow> nat option \<Rightarrow> obj_id \<Rightarrow> ui_locale_node" where
  "created_locale ae d i = \<lparr> node_obj_id = i, node_domain = d, materialized = \<lparr> language_index = 0 \<rparr>, base = null_ptr ae,
     base_layer = None, journal = [], generation = 1, applied_journal_size = kJournalFullyMaterialized,
     journal_retention_policy = default_retention, journal_compaction_blocked = False,
     suppress_materialized_change = False, materialized_change_fn = False, notifications = 0 \<rparr>"

definition InstallSurfacesDemoLocalization ::
  "aether \<Rightarrow> (ui_locale_settings \<Rightarrow> ui_locale_settings) \<Rightarrow> (string option list \<Rightarrow> string option list) \<Rightarrow> install_env \<Rightarrow>
   nat option \<Rightarrow> surfaces_node \<Rightarrow> surfaces_application \<Rightarrow>
   (surfaces_application \<times> ui_locale_node \<times> localization_node list) option" where
  "InstallSurfacesDemoLocalization ae m1 m2 ids d source app = do {
     let fn = materialized_change_fn source;
     let make = (\<lambda>(i, b) en ru. MakeLocalizedString ae m2 fn i b d en ru);
     locale \<leftarrow> InitializeRuntimeNode (widget_ops UiLocaleSettings_Apply m1) True \<lparr> language_index = 0 \<rparr> (snd (in_locale ids))
       (created_locale ae d (fst (in_locale ids)));
     add \<leftarrow> make (in_add ids) ''Add'' ru_add;
     close \<leftarrow> make (in_close ids) ''Close this window'' ru_close;
     title \<leftarrow> make (in_title ids) ''Surface '' ru_surface;
     switch \<leftarrow> make (in_switch ids) ''RU'' ''EN'';
     Some (app\<lparr> app_locale := fst (in_locale ids), app_label_add := fst (in_add ids), app_label_close := fst (in_close ids),
         app_title_prefix := fst (in_title ids), app_language_switch := fst (in_switch ids) \<rparr>,
       locale\<lparr> materialized_change_fn := fn \<rparr>, [add, close, title, switch]) }"

definition FormatSurfaceWindowTitle :: "localization_node \<Rightarrow> u32 \<Rightarrow> u32 \<Rightarrow> string" where
  "FormatSurfaceWindowTitle title language number =
     ResolveLocalization (Some (materialized title)) language @ to_decimal (unat number)"

section \<open>Presenters of a surface\<close>

record surface_window_presenter =
  swp_surface :: obj_id
  swp_locale :: obj_id
  swp_title_prefix :: obj_id
  swp_loaded :: bool

datatype surface_button_role = Role_Add | Role_Close

record surface_button_presenter =
  sbp_surface :: "obj_id option"
  sbp_window :: "obj_id option"
  sbp_role :: surface_button_role
  sbp_control :: u32
  sbp_locale :: obj_id
  sbp_label :: obj_id

record surface_language_presenter =
  slp_surface :: "obj_id option"
  slp_window :: "obj_id option"
  slp_locale :: obj_id
  slp_label :: obj_id
  slp_control :: u32

record presenter_graph =
  pg_windows :: "obj_id \<rightharpoonup> surface_window_presenter"
  pg_buttons :: "obj_id \<rightharpoonup> surface_button_presenter"
  pg_languages :: "obj_id \<rightharpoonup> surface_language_presenter"

text \<open>A button is ready once the window it is in has been loaded; both kinds of buttons ask the same.\<close>

definition window_loaded :: "presenter_graph \<Rightarrow> obj_id option \<Rightarrow> bool" where
  "window_loaded pg w \<longleftrightarrow> (case w of None \<Rightarrow> False | Some i \<Rightarrow> (case pg_windows pg i of None \<Rightarrow> False | Some p \<Rightarrow> swp_loaded p))"

definition SurfaceButton_Ready :: "presenter_graph \<Rightarrow> surface_button_presenter \<Rightarrow> bool" where
  "SurfaceButton_Ready pg p \<longleftrightarrow> window_loaded pg (sbp_window p)"

definition SurfaceLanguage_Ready :: "presenter_graph \<Rightarrow> surface_language_presenter \<Rightarrow> bool" where
  "SurfaceLanguage_Ready pg p \<longleftrightarrow> window_loaded pg (slp_window p)"

text \<open>OnCommand: the surface and the work that goes to the model thread; \<open>None\<close> is a command that is not handled.\<close>

definition SurfaceButton_OnCommand ::
  "bool \<Rightarrow> add_env \<Rightarrow> commit_env \<Rightarrow> u32 \<Rightarrow> surface_button_presenter \<Rightarrow> (obj_id \<times> surface_work) option" where
  "SurfaceButton_OnCommand proxy ad cenv command_id p =
     (if command_id \<noteq> sbp_control p \<or> \<not> proxy then None
      else case sbp_surface p of
        None \<Rightarrow> None
      | Some i \<Rightarrow> if sbp_role p = Role_Add then Some (i, AddClick ad) else Some (i, RemoveClick cenv))"

text \<open>What a window presenter sends: the page it shows, and the bounds a desktop window has.\<close>

definition SurfaceWindow_PageShown :: "commit_env \<Rightarrow> surface_window_presenter \<Rightarrow> obj_id \<times> surface_work" where
  "SurfaceWindow_PageShown cenv p = (swp_surface p, PageShown cenv)"

definition DesktopSurface_UpdateModelBounds ::
  "commit_env \<Rightarrow> u32 \<Rightarrow> u32 \<Rightarrow> u32 \<Rightarrow> u32 \<Rightarrow> surface_window_presenter \<Rightarrow> obj_id \<times> surface_work" where
  "DesktopSurface_UpdateModelBounds cenv x y w h p = (swp_surface p, UpdateModelBounds cenv x y w h)"

text \<open>PostSurfacePresentationSize: the queue the proxy is bound to takes the size, and \<open>None\<close> means that the proxy
  without a queue invokes Surface::SetPresentationSize.\<close>

definition SurfaceWindow_PresentationSizeChanged ::
  "bool \<Rightarrow> u32 \<Rightarrow> u32 \<Rightarrow> surface_window_presenter \<Rightarrow> size_queue \<Rightarrow> size_queue option" where
  "SurfaceWindow_PresentationSizeChanged is_bound w h p q = (if is_bound then Post_size (swp_surface p) w h q else None)"

section \<open>Wiring\<close>

definition wire_window :: "surfaces_application \<Rightarrow> surface_window_presenter \<Rightarrow> surface_window_presenter" where
  "wire_window app p = p\<lparr> swp_locale := app_locale app, swp_title_prefix := app_title_prefix app \<rparr>"

definition wire_button :: "surfaces_application \<Rightarrow> obj_id \<Rightarrow> surface_button_presenter \<Rightarrow> surface_button_presenter" where
  "wire_button app label p = p\<lparr> sbp_locale := app_locale app, sbp_label := label \<rparr>"

definition wire_language :: "surfaces_application \<Rightarrow> surface_language_presenter \<Rightarrow> surface_language_presenter" where
  "wire_language app p = p\<lparr> slp_locale := app_locale app, slp_label := app_language_switch app \<rparr>"

text \<open>A chrome pointer that is empty or not loaded is passed over.\<close>

definition at_pointer :: "('p \<Rightarrow> 'p) \<Rightarrow> obj_id \<Rightarrow> (obj_id \<rightharpoonup> 'p) \<Rightarrow> (obj_id \<rightharpoonup> 'p)" where
  "at_pointer f i m = (case m i of None \<Rightarrow> m | Some p \<Rightarrow> m(i \<mapsto> f p))"

definition WireSurfaceChromeLocalization :: "surface_chrome \<Rightarrow> surfaces_application \<Rightarrow> presenter_graph \<Rightarrow> presenter_graph" where
  "WireSurfaceChromeLocalization c app pg =
     pg\<lparr> pg_windows := at_pointer (wire_window app) (chrome_window c) (pg_windows pg),
         pg_buttons := at_pointer (wire_button app (app_label_close app)) (chrome_close_button c)
           (at_pointer (wire_button app (app_label_add app)) (chrome_add_button c) (pg_buttons pg)),
         pg_languages := at_pointer (wire_language app) (chrome_language_button c) (pg_languages pg) \<rparr>"

section \<open>The first graph\<close>

definition kSurfacesApplication :: obj_id where "kSurfacesApplication = 1"
definition kSurfaces :: obj_id where "kSurfaces = 2"
definition kSurface1 :: obj_id where "kSurface1 = 3"

record first_surfaces =
  fs_graph :: surfaces_graph
  fs_application :: surfaces_application
  fs_locale :: ui_locale_node
  fs_strings :: "localization_node list"

definition created_surfaces :: "aether \<Rightarrow> nat option \<Rightarrow> obj_id list \<Rightarrow> surfaces_node" where
  "created_surfaces ae d live = \<lparr> node_obj_id = kSurfaces, node_domain = d,
     materialized = \<lparr> surfaces = live, mobile_current = ae_null ae, desktop_z_order = [] \<rparr>, base = null_ptr ae, base_layer = None,
     journal = [], generation = 1, applied_journal_size = kJournalFullyMaterialized,
     journal_retention_policy = default_retention, journal_compaction_blocked = False,
     suppress_materialized_change = False, materialized_change_fn = False, notifications = 0 \<rparr>"

definition BuildSurfacesGraph ::
  "surfaces_env \<Rightarrow> (ui_locale_settings \<Rightarrow> ui_locale_settings) \<Rightarrow> (string option list \<Rightarrow> string option list) \<Rightarrow> install_env \<Rightarrow>
   nat option \<Rightarrow> first_surfaces option" where
  "BuildSurfacesGraph env m1 m2 ids d = do {
     let n = created_surface env d kSurface1;
     s \<leftarrow> AssignInitialDesktopBounds ((materialized n)\<lparr> surface_number := 1 \<rparr>);
     let s = s\<lparr> parent_surfaces := kSurfaces \<rparr>;
     let parent = created_surfaces (sfe_ae env) d [kSurface1];
     let null = ae_null (sfe_ae env);
     (app, locale, strings) \<leftarrow> InstallSurfacesDemoLocalization (sfe_ae env) m1 m2 ids d parent
       \<lparr> app_surfaces = kSurfaces, app_locale = null, app_label_add = null, app_label_close = null,
         app_title_prefix = null, app_language_switch = null \<rparr>;
     Some \<lparr> fs_graph = \<lparr> sg_parent = parent, sg_surfaces = [kSurface1 \<mapsto> n\<lparr> materialized := s\<lparr> chrome := sfe_attach env s \<rparr> \<rparr>] \<rparr>,
       fs_application = app, fs_locale = locale, fs_strings = strings \<rparr> }"

end
