(* ===== verification/SurfacesStartProperties.thy ===== *)
theory SurfacesStartProperties
  imports SurfacesStart
begin

text \<open>
  The first graph of the surfaces is consistent once it is finalized, its localized strings excepted: they were given
  their base before their texts, so every replay from the base loses them.
\<close>

section \<open>Localized strings\<close>

definition loses_texts :: "(string option list \<Rightarrow> string option list) \<Rightarrow> localization_node \<Rightarrow> bool" where
  "loses_texts missing n \<longleftrightarrow> \<not> node_inv (Localization_ops missing) id n \<and>
     (\<forall>has_factory created i. finalize_node (Localization_ops missing) has_factory created i n = Some n) \<and>
     (\<exists>n'. TryRebuildFromBaseAndReplay (Localization_ops missing) n = Some (True, n') \<and> materialized n' = [] \<and>
       (\<forall>l. ResolveLocalization (Some (materialized n')) l = []))"

lemma made_string_loses_texts:
  assumes "MakeLocalizedString ae missing fn i b d en ru = Some n"
  shows "materialized n = [Some en, Some ru] \<and> loses_texts missing n \<and>
    (\<exists>n'. StabilizeDistilledPersistentSnapshot (Localization_ops missing) [n] = Some [n'] \<and> materialized n' = materialized n \<and>
      node_inv (Localization_ops missing) id n')"
  using assms
  by (auto simp: MakeLocalizedString_def created_localization_def InitializeRuntimeNode_def CaptureBaseStateInto_def Let_def
      Localization_ops_def node_inv_def node_live_def consistent_def loses_texts_def finalize_node_def ResolveLocalization_def
      TryRebuildFromBaseAndReplay_def TryReplayJournal_def TryEnsureCurrentGeneration_def is_loaded_def journal_sorted_def shared_ids_def AdoptPublishedGeneration_def
      assert_that_def null_ptr_def split: Option.bind_splits if_splits)

text \<open>C39. The localized strings of the surfaces get their base before their texts: none of the four satisfies the
  invariant of nodes, FinalizeDistilledGraph passes over them, and the next rebuild from the base succeeds with a node that
  has no texts, in any language.  Capturing the base after the texts, as StabilizeDistilledPersistentSnapshot does and the
  first run does not, would keep them.\<close>

theorem localized_strings_lost_by_rebuild:
  assumes "InstallSurfacesDemoLocalization ae m1 m2 ids d source app = Some (app', loc, strings)"
  shows "length strings = 4 \<and> (\<forall>n\<in>set strings.
    (\<exists>en ru. materialized n = [Some en, Some ru] \<and> en \<noteq> []) \<and> \<not> node_inv (Localization_ops m2) id n \<and>
    FinalizeDistilledGraph (Localization_ops m2) True [] [(i, n)] = Some [n] \<and>
    (\<exists>n'. TryRebuildFromBaseAndReplay (Localization_ops m2) n = Some (True, n') \<and>
      (\<forall>l. ResolveLocalization (Some (materialized n')) l = [])) \<and>
    (\<exists>n'. StabilizeDistilledPersistentSnapshot (Localization_ops m2) [n] = Some [n'] \<and> materialized n' = materialized n \<and>
      node_inv (Localization_ops m2) id n'))"
proof -
  obtain n1 n2 n3 n4 where strings: "strings = [n1, n2, n3, n4]"
    and made: "MakeLocalizedString ae m2 (materialized_change_fn source) (fst (in_add ids)) (snd (in_add ids)) d ''Add'' ru_add = Some n1"
      "MakeLocalizedString ae m2 (materialized_change_fn source) (fst (in_close ids)) (snd (in_close ids)) d ''Close this window'' ru_close = Some n2"
      "MakeLocalizedString ae m2 (materialized_change_fn source) (fst (in_title ids)) (snd (in_title ids)) d ''Surface '' ru_surface = Some n3"
      "MakeLocalizedString ae m2 (materialized_change_fn source) (fst (in_switch ids)) (snd (in_switch ids)) d ''RU'' ''EN'' = Some n4"
    using assms by (auto simp: InstallSurfacesDemoLocalization_def Let_def case_prod_beta Option.bind_eq_Some_conv)
  have one: "(\<exists>en ru. materialized n = [Some en, Some ru] \<and> en \<noteq> []) \<and> \<not> node_inv (Localization_ops m2) id n \<and>
      FinalizeDistilledGraph (Localization_ops m2) True [] [(i, n)] = Some [n] \<and>
      (\<exists>n'. TryRebuildFromBaseAndReplay (Localization_ops m2) n = Some (True, n') \<and>
        (\<forall>l. ResolveLocalization (Some (materialized n')) l = [])) \<and>
      (\<exists>n'. StabilizeDistilledPersistentSnapshot (Localization_ops m2) [n] = Some [n'] \<and> materialized n' = materialized n \<and>
        node_inv (Localization_ops m2) id n')"
    if "MakeLocalizedString ae m2 fn j b d en ru = Some n" "en \<noteq> []" for fn j b en ru n
    using made_string_loses_texts [OF that(1)] that(2) unfolding loses_texts_def by auto
  show ?thesis using one [OF made(1)] one [OF made(2)] one [OF made(3)] one [OF made(4)] by (simp add: strings)
qed

lemma localized_strings_lost_by_rebuild_witness:
  "\<exists>app loc strings. InstallSurfacesDemoLocalization sample_aether id id
     \<lparr> in_locale = (10, 11), in_add = (12, 13), in_close = (14, 15), in_title = (16, 17), in_switch = (18, 19) \<rparr> (Some 0)
     (created_surfaces sample_aether (Some 0) [kSurface1])
     \<lparr> app_surfaces = kSurfaces, app_locale = 0, app_label_add = 0, app_label_close = 0, app_title_prefix = 0, app_language_switch = 0 \<rparr>
     = Some (app, loc, strings) \<and> length strings = 4 \<and>
     (\<exists>n'. TryRebuildFromBaseAndReplay (Localization_ops id) (hd strings) = Some (True, n') \<and>
       ResolveLocalization (Some (materialized n')) 0 = [] \<and> ResolveLocalization (Some (materialized (hd strings))) 0 = ''Add'')"
proof -
  let ?ids = "\<lparr> in_locale = (10, 11), in_add = (12, 13), in_close = (14, 15), in_title = (16, 17), in_switch = (18, 19) \<rparr>"
  let ?app = "\<lparr> app_surfaces = kSurfaces, app_locale = 0, app_label_add = 0, app_label_close = 0, app_title_prefix = 0, app_language_switch = 0 \<rparr>"
  have "\<exists>app loc n rest. InstallSurfacesDemoLocalization sample_aether id id ?ids (Some 0)
      (created_surfaces sample_aether (Some 0) [kSurface1]) ?app = Some (app, loc, n # rest) \<and> materialized n = [Some ''Add'', Some ru_add]"
    by (simp add: InstallSurfacesDemoLocalization_def MakeLocalizedString_def created_localization_def created_locale_def
        InitializeRuntimeNode_def CaptureBaseStateInto_def Let_def Localization_ops_def null_ptr_def sample_aether_def)
  then obtain app loc n rest where run: "InstallSurfacesDemoLocalization sample_aether id id ?ids (Some 0)
      (created_surfaces sample_aether (Some 0) [kSurface1]) ?app = Some (app, loc, n # rest)" "materialized n = [Some ''Add'', Some ru_add]"
    by blast
  note lost = localized_strings_lost_by_rebuild [OF run(1), of 30]
  then obtain n' where "TryRebuildFromBaseAndReplay (Localization_ops id) n = Some (True, n')"
      "ResolveLocalization (Some (materialized n')) 0 = []" by auto
  moreover have "ResolveLocalization (Some (materialized n)) 0 = ''Add''" by (simp add: run(2) ResolveLocalization_def)
  ultimately show ?thesis using run(1) lost by (intro exI [of _ app] exI [of _ loc] exI [of _ "n # rest"]) auto
qed

section \<open>Surfaces\<close>

text \<open>Once its two nodes are finalized, the first graph is consistent, so the commands on surfaces apply to it.\<close>

lemma first_surfaces_ok:
  assumes built: "BuildSurfacesGraph env m1 m2 ids d = Some fs" and null: "aether_ids (sfe_ae env)"
    and parent: "FinalizeDistilledGraph (surfaces_ops env) True created [(i, sg_parent (fs_graph fs))] = Some [p]"
    and surface: "sg_surfaces (fs_graph fs) kSurface1 = Some s0" "FinalizeDistilledGraph (surface_ops env) True created' [(j, s0)] = Some [s]"
  shows "surfaces_graph_ok env \<lparr> sg_parent = p, sg_surfaces = [kSurface1 \<mapsto> s] \<rparr> \<and> surfaces (materialized p) = [kSurface1] \<and>
    desktop_z_order (materialized p) = [] \<and> surface_number (materialized s) = 1"
proof -
  obtain sf where fs: "sg_parent (fs_graph fs) = created_surfaces (sfe_ae env) d [kSurface1]"
      "s0 = (created_surface env d kSurface1)\<lparr> materialized := sf \<rparr>" "surface_number sf = 1"
    using built surface(1) by (auto simp: BuildSurfacesGraph_def AssignInitialDesktopBounds_def Let_def assert_that_def
        Option.bind_eq_Some_conv split: if_splits)
  have p: "node_inv (surfaces_ops env) id p" "materialized p = materialized (created_surfaces (sfe_ae env) d [kSurface1])"
    using parent by (auto simp: fs(1) finalize_node_def created_surfaces_def surfaces_ops_def InitializeRuntimeNode_def CaptureBaseStateInto_def
        Let_def node_inv_def node_live_def is_loaded_def journal_sorted_def shared_ids_def consistent_def assert_that_def null_ptr_def
        split: Option.bind_splits if_splits)
  have s: "node_inv (surface_ops env) id s" "materialized s = sf"
    using surface(2) by (auto simp: fs(2) finalize_node_def created_surface_def surface_ops_def InitializeRuntimeNode_def CaptureBaseStateInto_def
        Let_def node_inv_def node_live_def is_loaded_def journal_sorted_def shared_ids_def consistent_def assert_that_def null_ptr_def
        split: Option.bind_splits if_splits)
  show ?thesis using p s fs(3) null
    by (simp add: surfaces_graph_ok_def surfaces_ok_def created_surfaces_def aether_ids_def)
qed

section \<open>Labels\<close>

text \<open>After the wiring the presenters of the chrome show the texts of the application; all others are as they were.\<close>

lemma wired_chrome:
  assumes "chrome_add_button c \<noteq> chrome_close_button c"
  shows "pg_windows (WireSurfaceChromeLocalization c app pg) i =
      (if i = chrome_window c then map_option (wire_window app) (pg_windows pg i) else pg_windows pg i)"
    and "pg_buttons (WireSurfaceChromeLocalization c app pg) i =
      (if i = chrome_add_button c then map_option (wire_button app (app_label_add app)) (pg_buttons pg i)
       else if i = chrome_close_button c then map_option (wire_button app (app_label_close app)) (pg_buttons pg i) else pg_buttons pg i)"
    and "pg_languages (WireSurfaceChromeLocalization c app pg) i =
      (if i = chrome_language_button c then map_option (wire_language app) (pg_languages pg i) else pg_languages pg i)"
  using assms by (auto simp: WireSurfaceChromeLocalization_def at_pointer_def split: option.splits)

text \<open>A command of a live surface's button that is handled runs on the model thread without an abort.\<close>

lemma handled_remove_runs:
  assumes "SurfaceButton_OnCommand proxy ad cenv cmd p = Some (i, work)" "sbp_role p = Role_Close"
    and "surfaces_graph_ok env g" "surfaces_ready env g" "ce_now1 cenv \<noteq> 0" "sg_surfaces g i \<noteq> None"
  shows "\<exists>g'. Invoke env work i g = Some g' \<and> surfaces (parent_of g') = removeAll i (surfaces (parent_of g))"
proof -
  have work: "work = RemoveClick cenv" using assms(1,2) by (auto simp: SurfaceButton_OnCommand_def split: if_splits option.splits)
  show ?thesis
  proof (cases "i \<in> set (surfaces (parent_of g))")
    case True
    have d: "distinct (surfaces (parent_of g))" using assms(3) by (simp add: surfaces_graph_ok_def surfaces_ok_def)
    obtain s k where "Surfaces_Apply (sfe_ae env) (RemoveSurfaceEvent i) (parent_of g) = Some (s, k)" "surfaces s = remove1 i (surfaces (parent_of g))"
      using True by (auto simp: assert_that_def Let_def)
    then show ?thesis using commit_surfaces_runs [OF assms(4,5)] True assms(6) work d
      by (fastforce simp: Invoke_def Surface_Remove_def distinct_remove1_removeAll)
  next
    case False
    then show ?thesis using assms(6) work by (auto simp: Invoke_def Surface_Remove_def)
  qed
qed

end
