(* ===== verification/SyncRuntime.thy ===== *)
theory SyncRuntime
  imports SharedNode NetworkGraph
begin

text \<open>
  The synchronization runtime of one replica (src/src/shared_sync_runtime.cpp and .h).  Its state is the
  registered nodes, the bootstrap permissions, the allowlist and the replica's storage; \<open>rt_effects\<close>
  records, in order, what it made durable and what it handed to the transport.  \<open>None\<close> is a failed
  assertion, here or in the nodes it drives.

  \<open>sync_env\<close> holds what is not this component: the transport's own endpoint, the classes of objects, the
  network-shared view of an object (BuildNetworkSharedScratch), and what loads from a storage.
\<close>

section \<open>State\<close>

type_synonym ('x, 'e, 'b) snode = "('x shared_fields_scheme, 'e, 'b) node"

record endpoint_expectation =
  source_endpoint :: string
  expected_root_class_id :: class_id
  expected_node_id :: obj_id

datatype ('s, 'e, 'b) effect =
    SavedNode "('s, 'e, 'b) node"
  | SavedState link_sync_node
  | Sent string bytes

record ('s, 'e, 'b) sync_env =
  se_ae :: aether
  se_io :: graph_io
  se_ops :: "('s, 'e, 'b) node_ops"
  se_missing_sync :: "link_sync_state \<Rightarrow> link_sync_state"
  se_local_endpoint :: string
  se_domain :: nat
  se_in_domain :: "obj_id \<Rightarrow> bool"
  se_gen :: "nat \<Rightarrow> obj_id"
  se_node_class :: "('s, 'e, 'b) node \<Rightarrow> class_id"
  se_event_class :: "'e \<Rightarrow> class_id"
  se_target_class :: "'e \<Rightarrow> class_id"
  se_event_pointers :: "'e \<Rightarrow> obj_id \<Rightarrow> pointer_field list"
  se_event_scratch :: "obj_id \<Rightarrow> 'e \<Rightarrow> ram_state"
  se_node_scratch :: "('s, 'e, 'b) node \<Rightarrow> ram_state"
  se_load_event :: "disk \<Rightarrow> obj_id \<Rightarrow> 'e option"
  se_load_node :: "disk \<Rightarrow> obj_id \<Rightarrow> ('s, 'e, 'b) node option"
  se_callback :: "(string \<Rightarrow> ('s, 'e, 'b) node \<Rightarrow> bool) option"

record ('s, 'e, 'b) sync_runtime =
  rt_nodes :: "('s, 'e, 'b) node list"
  expected_initial_nodes :: "obj_id list"
  expected_endpoint_nodes :: "endpoint_expectation list"
  standalone_event_classes :: "class_id list"
  rt_storage :: disk
  rt_effects :: "('s, 'e, 'b) effect list"

definition ram_disk :: "ram_state \<Rightarrow> disk" where
  "ram_disk st = (\<lambda>(i, c, v). case layers_of st i of None \<Rightarrow> None
     | Some ls \<Rightarrow> (case map_of ls c of None \<Rightarrow> None | Some vs \<Rightarrow> map_of vs v))"

definition send :: "string \<Rightarrow> bytes \<Rightarrow> ('s, 'e, 'b) sync_runtime \<Rightarrow> ('s, 'e, 'b) sync_runtime" where
  "send dest packet rt = rt\<lparr> rt_effects := rt_effects rt @ [Sent dest packet] \<rparr>"

definition saved :: "('s, 'e, 'b) effect list \<Rightarrow> ('s, 'e, 'b) sync_runtime \<Rightarrow> ('s, 'e, 'b) sync_runtime" where
  "saved es rt = rt\<lparr> rt_effects := rt_effects rt @ es \<rparr>"

definition node_index :: "obj_id \<Rightarrow> ('s, 'e, 'b) sync_runtime \<Rightarrow> nat" where
  "node_index i rt = find_index (\<lambda>n. node_obj_id n = i) (rt_nodes rt)"

definition FindNode :: "obj_id \<Rightarrow> ('s, 'e, 'b) sync_runtime \<Rightarrow> ('s, 'e, 'b) node option" where
  "FindNode i rt = find (\<lambda>n. node_obj_id n = i) (rt_nodes rt)"

text \<open>The registered object after its methods ran.\<close>

definition put_node :: "('s, 'e, 'b) node \<Rightarrow> ('s, 'e, 'b) sync_runtime \<Rightarrow> ('s, 'e, 'b) sync_runtime" where
  "put_node n rt = rt\<lparr> rt_nodes := (rt_nodes rt)[node_index (node_obj_id n) rt := n] \<rparr>"

section \<open>Topology queries\<close>

definition ShareEndpoint :: "share \<Rightarrow> string option" where
  "ShareEndpoint sh = (if \<not> ptr_valid (share_link sh) then None else map_option EndpointUid (ptr_load (share_link sh)))"

definition ShareEndpointOf :: "obj_id \<Rightarrow> 'x shared_fields_scheme \<Rightarrow> string option" where
  "ShareEndpointOf sid s =
     (let i = FindShareIndexForShare sid s in
      if i \<ge> length (shares s) then None else ShareEndpoint (shares s ! i))"

definition TopologyKnowsEndpoint :: "string \<Rightarrow> 'x shared_fields_scheme \<Rightarrow> bool" where
  "TopologyKnowsEndpoint ep s \<longleftrightarrow> (\<exists>sh\<in>set (shares s). ShareEndpoint sh = Some ep)"

definition AddressedToThisReplica :: "string \<Rightarrow> string \<Rightarrow> obj_id \<Rightarrow> 'x shared_fields_scheme \<Rightarrow> bool" where
  "AddressedToThisReplica local source dest s =
     (if source = local then False
      else if ShareEndpointOf dest s \<noteq> Some local then False
      else TopologyKnowsEndpoint source s)"

definition ShareOfEndpoint :: "string \<Rightarrow> 'x shared_fields_scheme \<Rightarrow> share option" where
  "ShareOfEndpoint ep s = find (\<lambda>sh. ShareEndpoint sh = Some ep) (shares s)"

definition EventAddressedToThisReplica :: "string \<Rightarrow> string \<Rightarrow> obj_id \<Rightarrow> 'x shared_fields_scheme \<Rightarrow> bool" where
  "EventAddressedToThisReplica local source dest s =
     (if source = local then False
      else if ShareEndpointOf dest s \<noteq> Some local then False
      else case ShareOfEndpoint source s of
        None \<Rightarrow> False
      | Some sh \<Rightarrow> share_access sh = ReadWrite)"

definition NextUndeliveredSharedEvent ::
  "aether \<Rightarrow> string \<Rightarrow> link_sync_state \<Rightarrow> 'e event_record list \<Rightarrow> 'e event_record option" where
  "NextUndeliveredSharedEvent ae destination st js =
     find (\<lambda>r. HasSharedIdentity r \<and> \<not> HasDelivered (identity r) st \<and>
       \<not> (HasPendingEvent ae st \<and> pending_event_identity st = identity r) \<and>
       origin_uid (identity r) \<noteq> destination) js"

section \<open>Registration and permissions\<close>

definition RegisterNode ::
  "('s, 'e, 'b) node \<Rightarrow> ('s, 'e, 'b) sync_runtime \<Rightarrow> ('s, 'e, 'b) sync_runtime option" where
  "RegisterNode n rt = do {
     assert_that (FindNode (node_obj_id n) rt = None);
     Some (rt\<lparr> rt_nodes := rt_nodes rt @ [n] \<rparr>) }"

definition ExpectInitialNode ::
  "aether \<Rightarrow> obj_id \<Rightarrow> ('s, 'e, 'b) sync_runtime \<Rightarrow> ('s, 'e, 'b) sync_runtime option" where
  "ExpectInitialNode ae i rt = do {
     assert_that (ae_valid ae i);
     Some (rt\<lparr> expected_initial_nodes := expected_initial_nodes rt @ [i] \<rparr>) }"

definition IsExpectedInitialNode :: "obj_id \<Rightarrow> ('s, 'e, 'b) sync_runtime \<Rightarrow> bool" where
  "IsExpectedInitialNode i rt \<longleftrightarrow> i \<in> set (expected_initial_nodes rt)"

definition ExpectInitialNodeFromEndpoint ::
  "string \<Rightarrow> class_id \<Rightarrow> obj_id \<Rightarrow> ('s, 'e, 'b) sync_runtime \<Rightarrow> ('s, 'e, 'b) sync_runtime" where
  "ExpectInitialNodeFromEndpoint ep cls i rt =
     (if ep = [] \<or> cls = 0 then rt
      else let exps = expected_endpoint_nodes rt; k = find_index (\<lambda>x. source_endpoint x = ep) exps;
               entry = \<lparr> source_endpoint = ep, expected_root_class_id = cls, expected_node_id = i \<rparr>
        in if k < length exps then rt\<lparr> expected_endpoint_nodes := exps[k := entry] \<rparr>
           else rt\<lparr> expected_endpoint_nodes := exps @ [entry] \<rparr>)"

definition ForgetInitialNodeFromEndpoint ::
  "string \<Rightarrow> ('s, 'e, 'b) sync_runtime \<Rightarrow> ('s, 'e, 'b) sync_runtime" where
  "ForgetInitialNodeFromEndpoint ep rt =
     (if ep = [] then rt
      else rt\<lparr> expected_endpoint_nodes := filter (\<lambda>x. source_endpoint x \<noteq> ep) (expected_endpoint_nodes rt) \<rparr>)"

definition IsStandaloneEventClassAllowed :: "class_id \<Rightarrow> ('s, 'e, 'b) sync_runtime \<Rightarrow> bool" where
  "IsStandaloneEventClassAllowed cls rt \<longleftrightarrow> cls \<in> set (standalone_event_classes rt)"

definition AllowStandaloneEventClass ::
  "aether \<Rightarrow> class_id \<Rightarrow> ('s, 'e, 'b) sync_runtime \<Rightarrow> ('s, 'e, 'b) sync_runtime" where
  "AllowStandaloneEventClass ae cls rt =
     (if cls = 0 then rt
      else if ae_distance ae (ae_event_class ae) cls < 0 then rt
      else if IsStandaloneEventClassAllowed cls rt then rt
      else rt\<lparr> standalone_event_classes := standalone_event_classes rt @ [cls] \<rparr>)"

section \<open>Sending\<close>

text \<open>What SyncInitialState and SyncNextEvent check first: the node, the destination endpoint, and the
  sync state of the relationship.\<close>

definition sync_target ::
  "('x shared_fields_scheme, 'e, 'b) sync_env \<Rightarrow> obj_id \<Rightarrow> obj_id \<Rightarrow>
   ('x shared_fields_scheme, 'e, 'b) sync_runtime \<Rightarrow> (('x, 'e, 'b) snode \<times> string \<times> nat \<times> link_sync_node) option" where
  "sync_target env node_id sid rt = do {
     n \<leftarrow> FindNode node_id rt;
     destination \<leftarrow> ShareEndpointOf sid (materialized n);
     assert_that (destination \<noteq> []);
     assert_that (destination \<noteq> se_local_endpoint env);
     let i = FindLinkSyncIndexForShare sid (materialized n);
     assert_that (i < length (link_sync_states (materialized n)));
     state \<leftarrow> ptr_load (link_sync_states (materialized n) ! i);
     Some (n, destination, i, state) }"

text \<open>The node with the state behind one of its pointers replaced.\<close>

definition put_state :: "nat \<Rightarrow> link_sync_node \<Rightarrow> ('x, 'e, 'b) snode \<Rightarrow> ('x, 'e, 'b) snode" where
  "put_state i state n =
     (let s = materialized n in
      n\<lparr> materialized := s\<lparr> link_sync_states :=
        (link_sync_states s)[i := (link_sync_states s ! i)\<lparr> ptr_object := Some state \<rparr>] \<rparr> \<rparr>)"

text \<open>FreezeNetworkSharedNodeState: the payload and the identities of the journal that travels in it.\<close>

definition FreezeNetworkSharedNodeState ::
  "('s, 'e, 'b) sync_env \<Rightarrow> ('s, 'e, 'b) node \<Rightarrow> (bytes \<times> shared_event_id list) option" where
  "FreezeNetworkSharedNodeState env n = do {
     let scratch = se_node_scratch env n;
     loaded_root \<leftarrow> se_load_node env (ram_disk scratch) (node_obj_id n);
     Some (SerializeObjectGraph (se_io env) scratch,
           map identity (filter HasSharedIdentity (journal loaded_root))) }"

definition SyncInitialState ::
  "('x shared_fields_scheme, 'e, 'b) sync_env \<Rightarrow> commit_env \<Rightarrow> obj_id \<Rightarrow> obj_id \<Rightarrow>
   ('x shared_fields_scheme, 'e, 'b) sync_runtime \<Rightarrow> ('x shared_fields_scheme, 'e, 'b) sync_runtime option" where
  "SyncInitialState env cenv node_id sid rt = do {
     (n, destination, i, state) \<leftarrow> sync_target env node_id sid rt;
     if initial_sync_phase (materialized state) = Complete then Some rt
     else if initial_sync_phase (materialized state) = Pending
     then Some (send destination (pending_initial_packet (materialized state)) rt)
     else do {
       (payload, covered) \<leftarrow> FreezeNetworkSharedNodeState env n;
       let packet = EncodeNodeStateFrame \<lparr> ns_packet_id = ce_event_id cenv, ns_target_node_id = node_id,
             ns_destination_share_id = sid, ns_payload = payload \<rparr>;
       state \<leftarrow> Commit (LinkSyncState_ops (se_ae env) (se_missing_sync env)) cenv
         (BeginInitialSyncEvent packet covered) state;
       let n = put_state i state n;
       let rt = saved [SavedNode n, SavedState state] (put_node n rt);
       Some (send destination (pending_initial_packet (materialized state)) rt) }}"

definition SyncNextEvent ::
  "('x shared_fields_scheme, 'e, 'b) sync_env \<Rightarrow> commit_env \<Rightarrow> obj_id \<Rightarrow> obj_id \<Rightarrow>
   ('x shared_fields_scheme, 'e, 'b) sync_runtime \<Rightarrow> ('x shared_fields_scheme, 'e, 'b) sync_runtime option" where
  "SyncNextEvent env cenv node_id sid rt = do {
     (n, destination, i, state) \<leftarrow> sync_target env node_id sid rt;
     if initial_sync_phase (materialized state) \<noteq> Complete then Some rt
     else if HasPendingEvent (se_ae env) (materialized state)
     then Some (send destination (pending_event_packet (materialized state)) rt)
     else case NextUndeliveredSharedEvent (se_ae env) destination (materialized state) (journal n) of
       None \<Rightarrow> Some rt
     | Some r \<Rightarrow> do {
         assert_that (ptr_valid (event r));
         e \<leftarrow> ptr_object (event r);
         if \<not> IsStandaloneEventClassAllowed (se_event_class env e) rt then Some rt
         else case FreezeStandaloneEventPayload (se_ae env) (se_io env) (se_event_pointers env e)
             (ptr_id (event r)) (se_event_class env e) (se_event_scratch env (ptr_id (event r)) e) of
           None \<Rightarrow> Some rt
         | Some payload \<Rightarrow> do {
             let packet = EncodeEventFrame \<lparr> ev_packet_id = ce_event_id cenv, ev_target_node_id = node_id,
                   ev_destination_share_id = sid, ev_identity = identity r, ev_timestamp_us = timestamp_us r,
                   ev_event_class_id = se_event_class env e, ev_payload = payload \<rparr>;
             state \<leftarrow> Commit (LinkSyncState_ops (se_ae env) (se_missing_sync env)) cenv
               (BeginIncrementalEventSyncEvent (identity r) packet) state;
             let n = put_state i state n;
             let rt = saved [SavedNode n, SavedState state] (put_node n rt);
             Some (send destination (pending_event_packet (materialized state)) rt) }}}"

definition send_ack ::
  "string \<Rightarrow> obj_id \<Rightarrow> obj_id \<Rightarrow> obj_id \<Rightarrow> ('s, 'e, 'b) sync_runtime \<Rightarrow> ('s, 'e, 'b) sync_runtime" where
  "send_ack source packet_id target share rt =
     send source (EncodeAckFrame \<lparr> ack_packet_id = packet_id, ack_target_node_id = target,
       ack_destination_share_id = share \<rparr>) rt"

section \<open>Receiving\<close>

text \<open>A record of an untrusted journal: its event is loaded, written against the candidate's class or a
  base of it, and has a timestamp.\<close>

definition record_admissible :: "('s, 'e, 'b) sync_env \<Rightarrow> class_id \<Rightarrow> 'e event_record \<Rightarrow> bool" where
  "record_admissible env cls r \<longleftrightarrow>
     (case usable_event r of
        None \<Rightarrow> False
      | Some e \<Rightarrow> ae_distance (se_ae env) (se_target_class env e) cls \<ge> 0 \<and> timestamp_us r \<noteq> 0)"

definition share_admissible :: "aether \<Rightarrow> 'x shared_fields_scheme \<Rightarrow> nat \<Rightarrow> bool" where
  "share_admissible ae s i \<longleftrightarrow>
     ae_valid ae (share_id (shares s ! i)) \<and> FindShareIndexForShare (share_id (shares s ! i)) s = i \<and>
     (case ShareEndpoint (shares s ! i) of None \<Rightarrow> False | Some ep \<Rightarrow> ep \<noteq> [])"

text \<open>SnapshotIsAdmissible replays the candidate, so it returns it.\<close>

definition SnapshotIsAdmissible ::
  "('x shared_fields_scheme, 'e, 'b) sync_env \<Rightarrow> string \<Rightarrow> obj_id \<Rightarrow> ('x, 'e, 'b) snode \<Rightarrow>
   (bool \<times> ('x, 'e, 'b) snode) option" where
  "SnapshotIsAdmissible env source dest candidate =
     (if \<not> ptr_valid (base candidate) \<or> \<not> is_loaded (base candidate) then Some (False, candidate)
      else if \<not> (\<forall>r\<in>set (journal candidate). record_admissible env (se_node_class env candidate) r)
      then Some (False, candidate)
      else do {
        (ok, candidate) \<leftarrow> TryRebuildFromBaseAndReplay (se_ops env) candidate;
        if \<not> ok then Some (False, candidate)
        else if \<not> (\<forall>i<length (shares (materialized candidate)). share_admissible (se_ae env) (materialized candidate) i)
        then Some (False, candidate)
        else Some (AddressedToThisReplica (se_local_endpoint env) source dest (materialized candidate), candidate) })"

definition endpoint_expectation_for ::
  "string \<Rightarrow> ('s, 'e, 'b) sync_runtime \<Rightarrow> endpoint_expectation option" where
  "endpoint_expectation_for ep rt = find (\<lambda>x. source_endpoint x = ep) (expected_endpoint_nodes rt)"

text \<open>The checks of the parsed graph before any object of it is loaded.\<close>

definition parsed_root_ok ::
  "('s, 'e, 'b) sync_env \<Rightarrow> endpoint_expectation option \<Rightarrow> obj_id \<Rightarrow> ram_state \<Rightarrow> bool" where
  "parsed_root_ok env expectation target parsed \<longleftrightarrow>
     (case ValidateStoredClassChains (se_ae env) parsed of
        None \<Rightarrow> False
      | Some infos \<Rightarrow>
          (case find (\<lambda>info. ci_obj_id info = target) infos of
             None \<Rightarrow> False
           | Some info \<Rightarrow>
               ae_distance (se_ae env) (ae_shared_node_class (se_ae env)) (ci_most_derived info) \<ge> 0 \<and>
               (case expectation of None \<Rightarrow> True | Some x \<Rightarrow> ci_most_derived info = expected_root_class_id x)))"

text \<open>The shares whose endpoint is the sender.\<close>

definition matching_shares :: "string \<Rightarrow> 'x shared_fields_scheme \<Rightarrow> share list" where
  "matching_shares source s = filter (\<lambda>sh. ShareEndpoint sh = Some source) (shares s)"

text \<open>The scratch inspection: \<open>Some (Some sid)\<close> admits the snapshot with the sender's share.\<close>

definition inspect_candidate ::
  "('x shared_fields_scheme, 'e, 'b) sync_env \<Rightarrow> string \<Rightarrow> node_state_frame \<Rightarrow> ram_state \<Rightarrow> obj_id option option" where
  "inspect_candidate env source frame parsed =
     (case se_load_node env (ram_disk parsed) (ns_target_node_id frame) of
        None \<Rightarrow> Some None
      | Some candidate \<Rightarrow>
          if ae_distance (se_ae env) (ae_shared_node_class (se_ae env)) (se_node_class env candidate) < 0 then Some None
          else do {
            (ok, candidate) \<leftarrow> SnapshotIsAdmissible env source (ns_destination_share_id frame) candidate;
            if \<not> ok then Some None
            else let matching = matching_shares source (materialized candidate) in
              if length matching \<noteq> 1 \<or> \<not> ae_valid (se_ae env) (share_id (last matching)) then Some None
              else let sid = share_id (last matching); k = FindLinkSyncIndexForShare sid (materialized candidate) in
                if k \<ge> length (link_sync_states (materialized candidate)) then Some None
                else if \<not> ptr_valid (link_sync_states (materialized candidate) ! k) then Some None
                else Some (Some sid) })"

definition collides :: "('s, 'e, 'b) sync_env \<Rightarrow> disk \<Rightarrow> ram_state \<Rightarrow> bool" where
  "collides env d parsed \<longleftrightarrow> (\<exists>i\<in>set (active parsed). se_in_domain env i \<or> \<not> Enumerate_empty d i)"

definition ImportValidatedNode ::
  "('x shared_fields_scheme, 'e, 'b) sync_env \<Rightarrow> string \<Rightarrow> node_state_frame \<Rightarrow>
   ('x shared_fields_scheme, 'e, 'b) sync_runtime \<Rightarrow>
   ((('x, 'e, 'b) snode \<times> obj_id) option \<times> ('x shared_fields_scheme, 'e, 'b) sync_runtime) option" where
  "ImportValidatedNode env source frame rt =
     (let target = ns_target_node_id frame; expectation = endpoint_expectation_for source rt in
      if \<not> IsExpectedInitialNode target rt \<and> expectation = None then Some (None, rt)
      else if (case expectation of None \<Rightarrow> False
               | Some x \<Rightarrow> ae_valid (se_ae env) (expected_node_id x) \<and> target \<noteq> expected_node_id x)
      then Some (None, rt)
      else case DeserializeObjectGraph (se_io env) (ns_payload frame) of
        None \<Rightarrow> Some (None, rt)
      | Some parsed \<Rightarrow>
          if \<not> parsed_root_ok env expectation target parsed then Some (None, rt)
          else do {
            admitted \<leftarrow> inspect_candidate env source frame parsed;
            case admitted of
              None \<Rightarrow> Some (None, rt)
            | Some sid \<Rightarrow>
                if collides env (rt_storage rt) parsed then Some (None, rt)
                else do {
                  let rt = rt\<lparr> rt_storage := CommitObjectGraph parsed (rt_storage rt) \<rparr>;
                  n \<leftarrow> se_load_node env (rt_storage rt) target;
                  n \<leftarrow> RebuildFromBaseAndReplay (se_ops env) n;
                  Some (Some (n, sid), rt) }})"

text \<open>The end of OnNodeState: registration, the binding callback, the acknowledgement.\<close>

definition finish_node_state ::
  "('s, 'e, 'b) sync_env \<Rightarrow> bool \<Rightarrow> string \<Rightarrow> node_state_frame \<Rightarrow> ('s, 'e, 'b) node \<Rightarrow>
   ('s, 'e, 'b) sync_runtime \<Rightarrow> ('s, 'e, 'b) sync_runtime" where
  "finish_node_state env imported source frame n rt =
     (let rt = (if imported then rt\<lparr> rt_nodes := rt_nodes rt @ [n] \<rparr> else rt);
          ack = send_ack source (ns_packet_id frame) (ns_target_node_id frame) (ns_destination_share_id frame);
          k = find_index (\<lambda>x. source_endpoint x = source) (expected_endpoint_nodes rt)
      in if k < length (expected_endpoint_nodes rt)
         then (case se_callback env of
             None \<Rightarrow> rt
           | Some callback \<Rightarrow>
               if \<not> callback source n then rt
               else ack (rt\<lparr> expected_endpoint_nodes := erase_at k (expected_endpoint_nodes rt) \<rparr>))
         else ack rt)"

text \<open>The sender's share of an imported snapshot becomes Complete; returns the node and that state.\<close>

definition complete_source_state ::
  "('x shared_fields_scheme, 'e, 'b) sync_env \<Rightarrow> commit_env \<Rightarrow> obj_id \<Rightarrow> ('x, 'e, 'b) snode \<Rightarrow>
   (('x, 'e, 'b) snode \<times> link_sync_node) option" where
  "complete_source_state env cenv sid n = do {
     assert_that (ae_valid (se_ae env) sid);
     let i = FindLinkSyncIndexForShare sid (materialized n);
     assert_that (i < length (link_sync_states (materialized n)));
     state \<leftarrow> ptr_load (link_sync_states (materialized n) ! i);
     let covered = map identity (filter (\<lambda>r. HasSharedIdentity r \<and> origin_uid (identity r) \<noteq> []) (journal n));
     state \<leftarrow> CompleteFromReceivedSnapshot (se_ae env) (se_missing_sync env) cenv covered state;
     Some (put_state i state n, state) }"

definition OnNodeState ::
  "('x shared_fields_scheme, 'e, 'b) sync_env \<Rightarrow> commit_env \<Rightarrow> commit_env \<Rightarrow> string \<Rightarrow> node_state_frame \<Rightarrow>
   ('x shared_fields_scheme, 'e, 'b) sync_runtime \<Rightarrow> ('x shared_fields_scheme, 'e, 'b) sync_runtime option" where
  "OnNodeState env cenv1 cenv2 source frame rt =
     (case FindNode (ns_target_node_id frame) rt of
        Some n \<Rightarrow>
          if \<not> AddressedToThisReplica (se_local_endpoint env) source (ns_destination_share_id frame) (materialized n)
          then Some rt
          else do {
            let i = FindLinkSyncIndexForShare (ns_destination_share_id frame) (materialized n);
            assert_that (i < length (link_sync_states (materialized n)));
            state \<leftarrow> ptr_load (link_sync_states (materialized n) ! i);
            if received_initial_packet_id (materialized state) \<noteq> ns_packet_id frame then Some rt
            else Some (finish_node_state env False source frame n rt) }
      | None \<Rightarrow> do {
          (imported, rt) \<leftarrow> ImportValidatedNode env source frame rt;
          case imported of
            None \<Rightarrow> Some rt
          | Some (n, sid) \<Rightarrow> do {
              (n, source_state) \<leftarrow> complete_source_state env cenv1 sid n;
              let rt = saved [SavedState source_state] rt;
              let i = FindLinkSyncIndexForShare (ns_destination_share_id frame) (materialized n);
              assert_that (i < length (link_sync_states (materialized n)));
              state \<leftarrow> ptr_load (link_sync_states (materialized n) ! i);
              if received_initial_packet_id (materialized state) \<noteq> ns_packet_id frame then
                if ae_valid (se_ae env) (received_initial_packet_id (materialized state)) then Some rt
                else do {
                  state \<leftarrow> NoteInitialSyncReceived (se_ae env) (se_missing_sync env) cenv2 (ns_packet_id frame) state;
                  let n = put_state i state n;
                  let rt = saved [SavedNode n, SavedState state, SavedState source_state] rt;
                  Some (finish_node_state env True source frame n rt) }
              else Some (finish_node_state env True source frame n rt) }})"

definition OnAck ::
  "('x shared_fields_scheme, 'e, 'b) sync_env \<Rightarrow> commit_env \<Rightarrow> string \<Rightarrow> ack_frame \<Rightarrow>
   ('x shared_fields_scheme, 'e, 'b) sync_runtime \<Rightarrow> ('x shared_fields_scheme, 'e, 'b) sync_runtime option" where
  "OnAck env cenv source frame rt =
     (case FindNode (ack_target_node_id frame) rt of
        None \<Rightarrow> Some rt
      | Some n \<Rightarrow>
          if ShareEndpointOf (ack_destination_share_id frame) (materialized n) \<noteq> Some source then Some rt
          else let i = FindLinkSyncIndexForShare (ack_destination_share_id frame) (materialized n) in
            if i \<ge> length (link_sync_states (materialized n)) then Some rt
            else do {
              state \<leftarrow> ptr_load (link_sync_states (materialized n) ! i);
              if initial_sync_phase (materialized state) = Pending \<and>
                 pending_initial_packet_id (materialized state) = ack_packet_id frame
              then do {
                state \<leftarrow> CompleteInitialSync (se_ae env) (se_missing_sync env) cenv state;
                let n = put_state i state n;
                Some (saved [SavedNode n, SavedState state] (put_node n rt)) }
              else if initial_sync_phase (materialized state) = Complete \<and>
                 pending_event_packet_id (materialized state) = ack_packet_id frame
              then do {
                state \<leftarrow> CompleteIncrementalEvent (se_ae env) (se_missing_sync env) cenv state;
                let n = put_state i state n;
                Some (saved [SavedNode n, SavedState state] (put_node n rt)) }
              else Some rt })"

definition SameEventPayload :: "('s, 'e, 'b) sync_env \<Rightarrow> obj_id \<Rightarrow> 'e \<Rightarrow> bytes \<Rightarrow> bool" where
  "SameEventPayload env i e payload =
     (case ParseEventPayload (se_ae env) (se_io env) payload of
        None \<Rightarrow> False
      | Some (parsed, root) \<Rightarrow>
          (case (layers_of (se_event_scratch env i e) i, layers_of parsed root) of
             (Some a, Some b) \<Rightarrow> a = b
           | _ \<Rightarrow> False))"

definition event_ptr :: "nat option \<Rightarrow> obj_id \<Rightarrow> 'e \<Rightarrow> 'e obj_ptr" where
  "event_ptr d i e = \<lparr> ptr_valid = True, ptr_id = i, ptr_domain = d, ptr_object = Some e, ptr_stored = None \<rparr>"

definition load_class :: "('s, 'e, 'b) sync_env \<Rightarrow> disk \<Rightarrow> obj_id \<Rightarrow> class_id option" where
  "load_class env d i = map_option (se_event_class env) (se_load_event env d i)"

text \<open>The insertion tried on a scratch copy of the target.\<close>

definition PreflightHistoricalEventInsertion ::
  "('s, 'e, 'b) sync_env \<Rightarrow> u64 \<Rightarrow> u64 \<Rightarrow> (obj_id \<Rightarrow> bool) \<Rightarrow> ('s, 'e, 'b) node \<Rightarrow> ram_state \<Rightarrow> obj_id \<Rightarrow> event_frame \<Rightarrow>
   bool option" where
  "PreflightHistoricalEventInsertion env now1 now2 in_scratch n parsed root frame = do {
     (candidate, d) \<leftarrow> ImportStandaloneEventGraph (se_ae env) (se_io env) (load_class env) in_scratch (se_gen env)
       parsed root (ev_event_class_id frame) (ram_disk (se_node_scratch env n));
     case candidate of
       None \<Rightarrow> Some False
     | Some i \<Rightarrow>
         (case (se_load_event env d i, se_load_node env d (node_obj_id n)) of
            (Some e, Some scratch) \<Rightarrow> do {
              (ok, scratch) \<leftarrow> TryCommitSharedInto (se_ops env) now1 now2 (event_ptr (node_domain scratch) i e)
                (ev_identity frame) (ev_timestamp_us frame) scratch;
              Some ok }
          | _ \<Rightarrow> Some False) }"

definition OnEvent ::
  "('x shared_fields_scheme, 'e, 'b) sync_env \<Rightarrow> u64 \<Rightarrow> u64 \<Rightarrow> (obj_id \<Rightarrow> bool) \<Rightarrow> string \<Rightarrow> event_frame \<Rightarrow>
   ('x shared_fields_scheme, 'e, 'b) sync_runtime \<Rightarrow> ('x shared_fields_scheme, 'e, 'b) sync_runtime option" where
  "OnEvent env now1 now2 in_scratch source frame rt =
     (let ae = se_ae env; io = se_io env;
          ack = send_ack source (ev_packet_id frame) (ev_target_node_id frame) (ev_destination_share_id frame)
      in case FindNode (ev_target_node_id frame) rt of
        None \<Rightarrow> Some rt
      | Some n \<Rightarrow>
          if \<not> EventAddressedToThisReplica (se_local_endpoint env) source (ev_destination_share_id frame) (materialized n)
          then Some rt
          else if \<not> IsStandaloneEventClassAllowed (ev_event_class_id frame) rt then Some rt
          else case ParseEventPayload ae io (ev_payload frame) of
            None \<Rightarrow> Some rt
          | Some (parsed, root) \<Rightarrow>
              if \<not> ValidateStandaloneEventGraph ae io parsed root (ev_event_class_id frame) then Some rt
              else case se_load_event env (ram_disk parsed) root of
                None \<Rightarrow> Some rt
              | Some scratch_event \<Rightarrow>
                  if se_event_class env scratch_event \<noteq> ev_event_class_id frame then Some rt
                  else if ae_distance ae (se_target_class env scratch_event) (se_node_class env n) < 0 then Some rt
                  else case FindSharedEvent (ev_identity frame) n of
                    Some existing \<Rightarrow>
                      (case usable_event existing of
                         None \<Rightarrow> Some rt
                       | Some e \<Rightarrow>
                           if timestamp_us existing \<noteq> ev_timestamp_us frame \<or>
                              se_event_class env e \<noteq> ev_event_class_id frame \<or>
                              \<not> SameEventPayload env (ptr_id (event existing)) e (ev_payload frame)
                           then Some rt else Some (ack rt))
                  | None \<Rightarrow> do {
                      ok \<leftarrow> PreflightHistoricalEventInsertion env now1 now2 in_scratch n parsed root frame;
                      if \<not> ok then Some rt
                      else do {
                        (local_event, d) \<leftarrow> ImportStandaloneEventGraph ae io (load_class env) (se_in_domain env)
                          (se_gen env) parsed root (ev_event_class_id frame) (rt_storage rt);
                        let rt = rt\<lparr> rt_storage := d \<rparr>;
                        case local_event of
                          None \<Rightarrow> Some rt
                        | Some i \<Rightarrow> do {
                            e \<leftarrow> se_load_event env d i;
                            assert_that (se_event_class env e = ev_event_class_id frame);
                            n \<leftarrow> assert_ok (TryCommitSharedInto (se_ops env) now1 now2
                              (event_ptr (Some (se_domain env)) i e) (ev_identity frame) (ev_timestamp_us frame) n);
                            Some (ack (saved [SavedNode n] (put_node n rt))) }}})"

definition OnBytes ::
  "('x shared_fields_scheme, 'e, 'b) sync_env \<Rightarrow> commit_env \<Rightarrow> commit_env \<Rightarrow> (obj_id \<Rightarrow> bool) \<Rightarrow> string \<Rightarrow> bytes \<Rightarrow>
   ('x shared_fields_scheme, 'e, 'b) sync_runtime \<Rightarrow> ('x shared_fields_scheme, 'e, 'b) sync_runtime option" where
  "OnBytes env cenv1 cenv2 in_scratch source bs rt =
     (case PeekSyncFrameType bs of
        None \<Rightarrow> Some rt
      | Some kNodeState \<Rightarrow>
          (case DecodeNodeStateFrame (se_ae env) bs of
             None \<Rightarrow> Some rt | Some frame \<Rightarrow> OnNodeState env cenv1 cenv2 source frame rt)
      | Some kAck \<Rightarrow>
          (case DecodeAckFrame (se_ae env) bs of
             None \<Rightarrow> Some rt | Some frame \<Rightarrow> OnAck env cenv1 source frame rt)
      | Some kEvent \<Rightarrow>
          (case DecodeEventFrame (se_ae env) bs of
             None \<Rightarrow> Some rt
           | Some frame \<Rightarrow> OnEvent env (ce_now1 cenv1) (ce_now2 cenv1) in_scratch source frame rt))"

section \<open>Lookup after update\<close>

lemma find_some_index:
  "find P xs = Some x \<Longrightarrow> find_index P xs < length xs \<and> xs ! find_index P xs = x \<and> P x"
  by (induction xs) (auto split: if_splits)

lemma find_update:
  "find P xs = Some x \<Longrightarrow> P y \<Longrightarrow> find P (xs[find_index P xs := y]) = Some y"
  by (induction xs) (auto split: if_splits)

lemma FindNode_id: "FindNode i rt = Some n \<Longrightarrow> node_obj_id n = i"
  unfolding FindNode_def by (auto dest: find_some_index)

lemma FindNode_put:
  "FindNode i rt = Some n \<Longrightarrow> node_obj_id m = i \<Longrightarrow> FindNode i (put_node m rt) = Some m"
  unfolding FindNode_def put_node_def node_index_def by (auto intro: find_update)

lemma effects_simps [simp]:
  "rt_effects (send dest p rt) = rt_effects rt @ [Sent dest p]"
  "rt_effects (saved es rt) = rt_effects rt @ es"
  "rt_effects (put_node n rt) = rt_effects rt"
  "rt_nodes (send dest p rt) = rt_nodes rt" "rt_nodes (saved es rt) = rt_nodes rt"
  "rt_storage (send dest p rt) = rt_storage rt" "rt_storage (saved es rt) = rt_storage rt"
  "rt_storage (put_node n rt) = rt_storage rt"
  "FindNode i (send dest p rt) = FindNode i rt" "FindNode i (saved es rt) = FindNode i rt"
  by (simp_all add: send_def saved_def put_node_def FindNode_def)

lemma put_state_simps [simp]:
  "node_obj_id (put_state i st n) = node_obj_id n" "shares (materialized (put_state i st n)) = shares (materialized n)"
  "journal (put_state i st n) = journal n"
  "length (link_sync_states (materialized (put_state i st n))) = length (link_sync_states (materialized n))"
  by (simp_all add: put_state_def Let_def)

lemma ShareEndpointOf_shares: "shares s = shares t \<Longrightarrow> ShareEndpointOf i s = ShareEndpointOf i t"
  by (simp add: ShareEndpointOf_def FindShareIndexForShare_def Let_def)

text \<open>The state found for a share, and found again after it was edited.\<close>

lemma FindLinkSync_entry:
  "FindLinkSyncIndexForShare sid s < length (link_sync_states s) \<Longrightarrow>
   sync_entry_for sid (link_sync_states s ! FindLinkSyncIndexForShare sid s)"
  unfolding FindLinkSyncIndexForShare_def by (rule find_index_nth)

lemma FindLinkSync_put_state:
  assumes "i = FindLinkSyncIndexForShare sid (materialized n)" "i < length (link_sync_states (materialized n))"
    "ls_share_id (materialized st) = sid"
  shows "FindLinkSyncIndexForShare sid (materialized (put_state i st n)) = i"
proof -
  let ?ls = "link_sync_states (materialized n)"
  have v: "ptr_valid (?ls ! i)" using FindLinkSync_entry assms(1,2) by (auto simp: sync_entry_for_def)
  have e: "link_sync_states (materialized (put_state i st n)) = ?ls[i := (?ls ! i)\<lparr> ptr_object := Some st \<rparr>]"
    by (simp add: put_state_def Let_def)
  show ?thesis unfolding FindLinkSyncIndexForShare_def e
  proof (rule find_index_eqI)
    show "i < length (?ls[i := (?ls ! i)\<lparr> ptr_object := Some st \<rparr>])" using assms(2) by simp
    show "sync_entry_for sid (?ls[i := (?ls ! i)\<lparr> ptr_object := Some st \<rparr>] ! i)"
      using assms(2,3) v by (simp add: sync_entry_for_def)
    show "\<not> sync_entry_for sid (?ls[i := (?ls ! i)\<lparr> ptr_object := Some st \<rparr>] ! j)" if "j < i" for j
      using that assms(1) find_index_before [of j "sync_entry_for sid" ?ls]
      by (simp add: FindLinkSyncIndexForShare_def)
  qed
qed

lemma put_state_get:
  "i < length (link_sync_states (materialized n)) \<Longrightarrow>
   ptr_load (link_sync_states (materialized (put_state i st n)) ! i) = Some st"
  by (simp add: put_state_def Let_def)

section \<open>Commits of the sync state\<close>

lemma Commit_applies:
  assumes c: "Commit (LinkSyncState_ops ae missing) cenv e n = Some n'"
    and inv: "node_inv (LinkSyncState_ops ae missing) id n" and len: "length (journal n) < kJournalFullyMaterialized"
    and wrap: "journal n = [] \<or> timestamp_us (last (journal n)) \<noteq> -1"
  shows "\<exists>k. LinkSyncState_Apply ae (ce_event_id cenv) e (materialized n) = Some (materialized n', k)"
proof -
  let ?ev = "new_event cenv (node_domain n) e"
  let ?r = "\<lparr> event = ?ev, identity = \<lparr> origin_uid = [], origin_sequence = 0 \<rparr>,
       timestamp_us = commit_timestamp (ce_now1 cenv) n, retained_since_us = ce_now2 cenv \<rparr>"
  have ins: "TryInsertEvent (LinkSyncState_ops ae missing) (ce_now3 cenv) ?r n = Some (True, n')"
    using c by (auto simp: Commit_def CommitInto_def InsertEvent_def assert_ok_def new_event_def
        split: Option.bind_splits if_splits)
  have pos: "lower_bound EventRecordOrderLess (journal n) ?r = length (journal n)"
    using inv wrap by (intro link_sync.commit_position) (auto simp: node_inv_def)
  have "replay (LinkSyncState_ops ae missing) [stamped (ce_now3 cenv) ?r] (materialized n) = Some (materialized n')"
    by (rule link_sync.append_replays [OF inv len pos ins])
  then show ?thesis
    by (auto simp: usable_event_def new_event_def split: if_splits Option.bind_splits)
qed

lemma Commit_sync_ok:
  assumes "sync_node_ok ae missing st" "Commit (LinkSyncState_ops ae missing) cenv e st = Some st'"
  obtains k where "LinkSyncState_Apply ae (ce_event_id cenv) e (materialized st) = Some (materialized st', k)"
  using Commit_applies [OF assms(2)] assms(1) by (auto simp: sync_node_ok_def)

lemma LinkSyncState_Apply_share:
  assumes "LinkSyncState_Apply ae i e s = Some (s', k)"
  shows "ls_share_id s' = ls_share_id s"
  using assms
proof (cases e)
  case CompleteInitialSyncEvent
  let ?s = "s\<lparr> initial_sync_phase := Complete, pending_initial_packet_id := ae_null ae, pending_initial_packet := [] \<rparr>"
  show ?thesis using assms CompleteInitialSyncEvent
    fold_note_delivered [of "pending_initial_covered_event_ids s" ?s] by (auto simp: Let_def)
next
  case (CompleteFromReceivedSnapshotEvent ids)
  show ?thesis using assms CompleteFromReceivedSnapshotEvent
    fold_note_named [of ids "s\<lparr> initial_sync_phase := Complete \<rparr>"] by (auto simp: Let_def)
qed (auto simp: note_delivered_eq split: if_splits)

lemma LinkSyncState_Apply_BeginInitial:
  assumes "LinkSyncState_Apply ae i (BeginInitialSyncEvent packet covered) s = Some (s', k)"
  shows "s' = s\<lparr> initial_sync_phase := Pending, pending_initial_packet_id := i,
      pending_initial_packet := packet, pending_initial_covered_event_ids := covered \<rparr>"
  using assms by (auto split: if_splits)

lemma LinkSyncState_Apply_BeginIncremental:
  assumes "LinkSyncState_Apply ae i (BeginIncrementalEventSyncEvent ident packet) s = Some (s', k)"
  shows "s' = s\<lparr> pending_event_packet_id := i, pending_event_identity := ident, pending_event_packet := packet \<rparr>"
  using assms by (auto split: if_splits)

lemma sync_targetD:
  assumes "sync_target env node_id sid rt = Some (n, destination, i, state)"
  shows "FindNode node_id rt = Some n" "ShareEndpointOf sid (materialized n) = Some destination"
    "destination \<noteq> []" "destination \<noteq> se_local_endpoint env" "i = FindLinkSyncIndexForShare sid (materialized n)"
    "i < length (link_sync_states (materialized n))" "ptr_load (link_sync_states (materialized n) ! i) = Some state"
    "ls_share_id (materialized state) = sid"
proof -
  show a: "FindNode node_id rt = Some n" "ShareEndpointOf sid (materialized n) = Some destination"
    "destination \<noteq> []" "destination \<noteq> se_local_endpoint env" "i = FindLinkSyncIndexForShare sid (materialized n)"
    "i < length (link_sync_states (materialized n))" "ptr_load (link_sync_states (materialized n) ! i) = Some state"
    using assms by (auto simp: sync_target_def Let_def split: Option.bind_splits if_splits)
  have "sync_entry_for sid (link_sync_states (materialized n) ! i)"
    using FindLinkSync_entry a(5,6) by simp
  then show "ls_share_id (materialized state) = sid" using a(7) by (simp add: sync_entry_for_def)
qed

text \<open>The same target, seen after the state was edited and the node put back.\<close>

lemma sync_target_after:
  assumes t: "sync_target env node_id sid rt = Some (n, destination, i, state)"
    and st: "ls_share_id (materialized state') = sid"
    and rt': "FindNode node_id rt' = Some (put_state i state' n)"
  shows "sync_target env node_id sid rt' = Some (put_state i state' n, destination, i, state')"
proof -
  note d = sync_targetD [OF t]
  have "ShareEndpointOf sid (materialized (put_state i state' n)) = Some destination"
    using d(2) ShareEndpointOf_shares [of "materialized (put_state i state' n)" "materialized n" sid] by simp
  moreover have "FindLinkSyncIndexForShare sid (materialized (put_state i state' n)) = i"
    using FindLinkSync_put_state [of i sid n state'] d st by simp
  ultimately show ?thesis using d rt' put_state_get [of i n state'] by (simp add: sync_target_def Let_def)
qed

lemma FindNode_put_state:
  assumes "sync_target env node_id sid rt = Some (n, destination, i, state)"
  shows "FindNode node_id (put_node (put_state i state' n) rt) = Some (put_state i state' n)"
  using sync_targetD(1) [OF assms] FindNode_id by (intro FindNode_put) auto

lemma SyncInitialState_freezes:
  assumes t: "sync_target env node_id sid rt = Some (n, destination, i, state)"
    and ok: "sync_node_ok (se_ae env) (se_missing_sync env) state"
    and phase: "initial_sync_phase (materialized state) \<noteq> Complete" "initial_sync_phase (materialized state) \<noteq> Pending"
    and run: "SyncInitialState env cenv node_id sid rt = Some rt'"
  shows "\<exists>state' packet. sync_target env node_id sid rt' = Some (put_state i state' n, destination, i, state') \<and>
    rt_effects rt' = rt_effects rt @ [SavedNode (put_state i state' n), SavedState state', Sent destination packet] \<and>
    pending_initial_packet (materialized state') = packet \<and> initial_sync_phase (materialized state') = Pending \<and>
    pending_initial_packet_id (materialized state') = ce_event_id cenv"
proof -
  obtain payload covered state' where
    c: "Commit (LinkSyncState_ops (se_ae env) (se_missing_sync env)) cenv
      (BeginInitialSyncEvent (EncodeNodeStateFrame \<lparr> ns_packet_id = ce_event_id cenv, ns_target_node_id = node_id,
             ns_destination_share_id = sid, ns_payload = payload \<rparr>) covered) state = Some state'"
    and rt': "rt' = send destination (pending_initial_packet (materialized state'))
      (saved [SavedNode (put_state i state' n), SavedState state'] (put_node (put_state i state' n) rt))"
    using run t phase by (auto simp: SyncInitialState_def Let_def split: Option.bind_splits if_splits)
  obtain k where a: "LinkSyncState_Apply (se_ae env) (ce_event_id cenv) (BeginInitialSyncEvent (EncodeNodeStateFrame
        \<lparr> ns_packet_id = ce_event_id cenv, ns_target_node_id = node_id, ns_destination_share_id = sid,
          ns_payload = payload \<rparr>) covered) (materialized state) = Some (materialized state', k)"
    using Commit_sync_ok [OF ok c] .
  have "ls_share_id (materialized state') = sid" using LinkSyncState_Apply_share [OF a] sync_targetD(8) [OF t] by simp
  then have "sync_target env node_id sid rt' = Some (put_state i state' n, destination, i, state')"
    using t FindNode_put_state [OF t, of state'] by (intro sync_target_after) (simp_all add: rt')
  moreover have "initial_sync_phase (materialized state') = Pending \<and>
      pending_initial_packet_id (materialized state') = ce_event_id cenv"
    using LinkSyncState_Apply_BeginInitial [OF a] by simp
  ultimately show ?thesis by (intro exI [of _ state']) (simp add: rt')
qed

lemma SyncNextEvent_freezes:
  assumes t: "sync_target env node_id sid rt = Some (n, destination, i, state)"
    and ok: "sync_node_ok (se_ae env) (se_missing_sync env) state"
    and phase: "initial_sync_phase (materialized state) = Complete" "\<not> HasPendingEvent (se_ae env) (materialized state)"
    and run: "SyncNextEvent env cenv node_id sid rt = Some rt'" "rt' \<noteq> rt"
  shows "\<exists>r state' packet. NextUndeliveredSharedEvent (se_ae env) destination (materialized state) (journal n) = Some r \<and>
    sync_target env node_id sid rt' = Some (put_state i state' n, destination, i, state') \<and>
    rt_effects rt' = rt_effects rt @ [SavedNode (put_state i state' n), SavedState state', Sent destination packet] \<and>
    pending_event_packet (materialized state') = packet \<and> pending_event_identity (materialized state') = identity r \<and>
    pending_event_packet_id (materialized state') = ce_event_id cenv \<and>
    initial_sync_phase (materialized state') = Complete"
proof -
  obtain r e payload state' where r: "NextUndeliveredSharedEvent (se_ae env) destination (materialized state) (journal n) = Some r"
    and c: "Commit (LinkSyncState_ops (se_ae env) (se_missing_sync env)) cenv
      (BeginIncrementalEventSyncEvent (identity r) (EncodeEventFrame \<lparr> ev_packet_id = ce_event_id cenv,
         ev_target_node_id = node_id, ev_destination_share_id = sid, ev_identity = identity r,
         ev_timestamp_us = timestamp_us r, ev_event_class_id = se_event_class env e, ev_payload = payload \<rparr>)) state = Some state'"
    and rt': "rt' = send destination (pending_event_packet (materialized state'))
      (saved [SavedNode (put_state i state' n), SavedState state'] (put_node (put_state i state' n) rt))"
    using run t phase by (auto simp: SyncNextEvent_def Let_def split: Option.bind_splits if_splits option.splits)
  let ?p = "EncodeEventFrame \<lparr> ev_packet_id = ce_event_id cenv, ev_target_node_id = node_id,
      ev_destination_share_id = sid, ev_identity = identity r, ev_timestamp_us = timestamp_us r,
      ev_event_class_id = se_event_class env e, ev_payload = payload \<rparr>"
  obtain k where a: "LinkSyncState_Apply (se_ae env) (ce_event_id cenv)
      (BeginIncrementalEventSyncEvent (identity r) ?p) (materialized state) = Some (materialized state', k)"
    using Commit_sync_ok [OF ok c] .
  have "ls_share_id (materialized state') = sid" using LinkSyncState_Apply_share [OF a] sync_targetD(8) [OF t] by simp
  then have tgt: "sync_target env node_id sid rt' = Some (put_state i state' n, destination, i, state')"
    using t FindNode_put_state [OF t, of state'] by (intro sync_target_after) (simp_all add: rt')
  have m: "pending_event_packet_id (materialized state') = ce_event_id cenv"
    "pending_event_identity (materialized state') = identity r" "pending_event_packet (materialized state') = ?p"
    "initial_sync_phase (materialized state') = Complete"
    using LinkSyncState_Apply_BeginIncremental [OF a] phase(1) by simp_all
  show ?thesis using tgt r m by (intro exI [of _ r] exI [of _ state']) (simp add: rt')
qed

section \<open>Acknowledgements\<close>

lemma Commit_sync_succeeds:
  assumes ok: "sync_node_ok ae missing st" and can: "LinkSyncState_CanApply ae e (materialized st)"
    and app: "LinkSyncState_Apply ae (ce_event_id cenv) e (materialized st) = Some (s', k)" and clock: "ce_now1 cenv \<noteq> 0"
  shows "\<exists>st'. Commit (LinkSyncState_ops ae missing) cenv e st = Some st' \<and> materialized st' = s'"
  using sync_commit_runs [OF ok clock can app] by blast

lemma OnAck_authorized:
  assumes "OnAck env cenv source ack rt = Some rt'" "rt' \<noteq> rt"
  shows "\<exists>n state. FindNode (ack_target_node_id ack) rt = Some n \<and>
    ShareEndpointOf (ack_destination_share_id ack) (materialized n) = Some source \<and>
    ptr_load (link_sync_states (materialized n) !
      FindLinkSyncIndexForShare (ack_destination_share_id ack) (materialized n)) = Some state \<and>
    (initial_sync_phase (materialized state) = Pending \<and> pending_initial_packet_id (materialized state) = ack_packet_id ack \<or>
     initial_sync_phase (materialized state) = Complete \<and> pending_event_packet_id (materialized state) = ack_packet_id ack)"
  using assms by (auto simp: OnAck_def Let_def split: option.splits if_splits Option.bind_splits)

lemma OnAck_pending_event:
  assumes t: "sync_target env node_id sid rt = Some (n, destination, i, state)"
    and ok: "sync_node_ok (se_ae env) (se_missing_sync env) state" and clock: "ce_now1 cenv \<noteq> 0"
    and p: "initial_sync_phase (materialized state) = Complete" "HasPendingEvent (se_ae env) (materialized state)"
      "pending_event_packet_id (materialized state) = pid"
    and ids: "aether_ids (se_ae env)"
  shows "\<exists>rt' state'. OnAck env cenv destination \<lparr> ack_packet_id = pid, ack_target_node_id = node_id,
      ack_destination_share_id = sid \<rparr> rt = Some rt' \<and>
    sync_target env node_id sid rt' = Some (put_state i state' n, destination, i, state') \<and>
    HasDelivered (pending_event_identity (materialized state)) (materialized state') \<and>
    \<not> HasPendingEvent (se_ae env) (materialized state') \<and>
    rt_effects rt' = rt_effects rt @ [SavedNode (put_state i state' n), SavedState state']"
proof -
  let ?ae = "se_ae env"
  let ?s = "(note_delivered (pending_event_identity (materialized state)) (materialized state))
      \<lparr> pending_event_packet_id := ae_null ?ae, pending_event_identity := empty_event_id, pending_event_packet := [] \<rparr>"
  have a: "LinkSyncState_Apply ?ae (ce_event_id cenv) CompleteIncrementalEventSyncEvent (materialized state) = Some (?s, 1)"
    using p(2) by simp
  obtain state' where c: "Commit (LinkSyncState_ops ?ae (se_missing_sync env)) cenv CompleteIncrementalEventSyncEvent state = Some state'"
    and m: "materialized state' = ?s"
    using Commit_sync_succeeds [OF ok _ a clock] by auto
  note d = sync_targetD [OF t]
  let ?rt = "saved [SavedNode (put_state i state' n), SavedState state'] (put_node (put_state i state' n) rt)"
  have ne: "initial_sync_phase (materialized state) \<noteq> Pending" using p(1) by (simp add: phase_defs)
  have run: "OnAck env cenv destination \<lparr> ack_packet_id = pid, ack_target_node_id = node_id,
      ack_destination_share_id = sid \<rparr> rt = Some ?rt"
    using d p c ne by (simp add: OnAck_def Let_def CompleteIncrementalEvent_def)
  have "ls_share_id (materialized state') = sid" using LinkSyncState_Apply_share [OF a] m d(8) by simp
  then have "sync_target env node_id sid ?rt = Some (put_state i state' n, destination, i, state')"
    using t FindNode_put_state [OF t, of state'] by (intro sync_target_after) simp_all
  moreover have "HasDelivered (pending_event_identity (materialized state)) (materialized state')"
    by (simp add: m HasDelivered_def note_delivered_eq)
  moreover have "\<not> HasPendingEvent ?ae (materialized state')"
    using ids by (simp add: m HasPendingEvent_def aether_ids_def)
  ultimately show ?thesis using run by (intro exI [of _ ?rt] exI [of _ state']) simp
qed

section \<open>Incoming events\<close>

lemma OnEvent_authorized:
  assumes "OnEvent env now1 now2 in_scratch source ev rt = Some rt'" "rt' \<noteq> rt"
  shows "\<exists>n. FindNode (ev_target_node_id ev) rt = Some n \<and>
    EventAddressedToThisReplica (se_local_endpoint env) source (ev_destination_share_id ev) (materialized n) \<and>
    IsStandaloneEventClassAllowed (ev_event_class_id ev) rt"
  using assms by (auto simp: OnEvent_def Let_def split: option.splits if_splits)

lemma EventAddressedD:
  assumes "EventAddressedToThisReplica local source dest s"
  shows "source \<noteq> local \<and> ShareEndpointOf dest s = Some local \<and>
    (\<exists>sh\<in>set (shares s). ShareEndpoint sh = Some source \<and> share_access sh = ReadWrite)"
  using assms by (auto simp: EventAddressedToThisReplica_def ShareOfEndpoint_def find_Some_iff
      split: if_splits option.splits)

text \<open>Everything OnEvent can do, by the effects it leaves.\<close>

lemma OnEvent_effects:
  assumes run: "OnEvent env now1 now2 in_scratch source ev rt = Some rt'"
    and n: "FindNode (ev_target_node_id ev) rt = Some n"
  defines "ack \<equiv> EncodeAckFrame \<lparr> ack_packet_id = ev_packet_id ev, ack_target_node_id = ev_target_node_id ev,
      ack_destination_share_id = ev_destination_share_id ev \<rparr>"
  shows "rt_effects rt' = rt_effects rt \<and> rt_nodes rt' = rt_nodes rt \<or>
    FindSharedEvent (ev_identity ev) n \<noteq> None \<and> rt' = send source ack rt \<or>
    (\<exists>n'. FindSharedEvent (ev_identity ev) n = None \<and>
      rt_effects rt' = rt_effects rt @ [SavedNode n', Sent source ack] \<and>
      FindNode (ev_target_node_id ev) rt' = Some n' \<and> set (journal n) \<subseteq> set (journal n') \<and>
      (\<exists>r\<in>set (journal n'). identity r = ev_identity ev \<and> timestamp_us r = ev_timestamp_us ev \<and> HasSharedIdentity r))"
proof (cases "rt_effects rt' = rt_effects rt \<and> rt_nodes rt' = rt_nodes rt \<or>
    FindSharedEvent (ev_identity ev) n \<noteq> None \<and> rt' = send source ack rt")
  case False
  then obtain d i e n' where no: "FindSharedEvent (ev_identity ev) n = None"
    and c: "TryCommitSharedInto (se_ops env) now1 now2 (event_ptr (Some (se_domain env)) i e) (ev_identity ev)
        (ev_timestamp_us ev) n = Some (True, n')"
    and rt': "rt' = send source ack (saved [SavedNode n'] (put_node n' (rt\<lparr> rt_storage := d \<rparr>)))"
    using run n
    by (auto simp: OnEvent_def Let_def send_ack_def ack_def assert_ok_def
        split: option.splits if_splits Option.bind_splits)
  note t = TryCommitShared_True [OF c]
  have "FindNode (ev_target_node_id ev) (rt\<lparr> rt_storage := d \<rparr>) = Some n" using n by (simp add: FindNode_def)
  then have "FindNode (ev_target_node_id ev) (put_node n' (rt\<lparr> rt_storage := d \<rparr>)) = Some n'"
    using t FindNode_id by (intro FindNode_put) auto
  then show ?thesis using no rt' t by auto
qed blast

lemma OnEvent_storage:
  assumes "OnEvent env now1 now2 in_scratch source ev rt = Some rt'" "rt_storage rt (j, c, v) \<noteq> None"
  shows "rt_storage rt' (j, c, v) = rt_storage rt (j, c, v)"
  using assms ImportStandalone_keeps
  by (fastforce simp: OnEvent_def Let_def send_ack_def split: option.splits if_splits Option.bind_splits)

section \<open>Incoming snapshots\<close>

lemma ImportValidated_rejects:
  "ImportValidatedNode env source nsf rt = Some (None, rt') \<Longrightarrow> rt' = rt"
  by (auto simp: ImportValidatedNode_def Let_def split: option.splits if_splits Option.bind_splits)

lemma ImportValidated_admits:
  assumes "ImportValidatedNode env source nsf rt = Some (Some (n, sid), rt')"
  shows "\<exists>parsed. (IsExpectedInitialNode (ns_target_node_id nsf) rt \<or> endpoint_expectation_for source rt \<noteq> None) \<and>
    DeserializeObjectGraph (se_io env) (ns_payload nsf) = Some parsed \<and>
    parsed_root_ok env (endpoint_expectation_for source rt) (ns_target_node_id nsf) parsed \<and>
    inspect_candidate env source nsf parsed = Some (Some sid) \<and>
    \<not> collides env (rt_storage rt) parsed \<and>
    rt' = rt\<lparr> rt_storage := CommitObjectGraph parsed (rt_storage rt) \<rparr>"
  using assms by (auto simp: ImportValidatedNode_def Let_def split: option.splits if_splits Option.bind_splits)

text \<open>A snapshot never overwrites what the replica has stored.\<close>

lemma CommitObjectGraph_fresh:
  assumes "\<not> collides env d parsed" "d (j, c, v) \<noteq> None"
  shows "CommitObjectGraph parsed d (j, c, v) = d (j, c, v)"
proof (rule CommitObjectGraph_other)
  show "j \<notin> set (active parsed)" using assms by (auto simp: collides_def Enumerate_empty_def)
qed

lemma OnNodeState_storage:
  assumes "OnNodeState env cenv1 cenv2 source nsf rt = Some rt'" "rt_storage rt (j, c, v) \<noteq> None"
  shows "rt_storage rt' (j, c, v) = rt_storage rt (j, c, v)"
proof -
  have fin: "rt_storage (finish_node_state env imp source nsf n r) = rt_storage r" for imp n r
    by (auto simp: finish_node_state_def Let_def send_ack_def split: option.splits)
  show ?thesis
  proof (cases "FindNode (ns_target_node_id nsf) rt")
    case (Some n)
    then show ?thesis using assms(1)
      by (auto simp: OnNodeState_def Let_def fin split: if_splits Option.bind_splits)
  next
    case None
    then obtain imported rt1 where i: "ImportValidatedNode env source nsf rt = Some (imported, rt1)"
      and st: "rt_storage rt' = rt_storage rt1"
      using assms(1) by (auto simp: OnNodeState_def Let_def fin split: if_splits Option.bind_splits option.splits)
    show ?thesis
    proof (cases imported)
      case (Some p)
      obtain n sid where "p = (n, sid)" by (cases p)
      then obtain parsed where "\<not> collides env (rt_storage rt) parsed"
          "rt1 = rt\<lparr> rt_storage := CommitObjectGraph parsed (rt_storage rt) \<rparr>"
        using ImportValidated_admits i Some by blast
      then show ?thesis using CommitObjectGraph_fresh assms(2) st by simp
    qed (use i st ImportValidated_rejects in fastforce)
  qed
qed

text \<open>A shared topology event has no CanApply, so a snapshot whose journal removes an unknown share is
  not rejected: its replay runs into the assertion of Apply.\<close>

lemma replay_unknown_share_aborts:
  assumes "usable_event r = Some (RemoveShareEvent sid)" "FindShareIndexForShare sid (materialized m) = length (shares (materialized m))"
  shows "ensure_loop (SharedNode_ops senv) (r # rs) m = None"
  using assms by (simp add: ApplyEvent_def)

lemma SnapshotIsAdmissible_aborts:
  assumes "ptr_valid (base n)" "is_loaded (base n)" "base_layer n = Some ([], ls)" "journal n = [r]"
    and "usable_event r = Some (RemoveShareEvent sid)" "timestamp_us r \<noteq> 0"
    and "se_ops env = SharedNode_ops senv" "ae_distance (se_ae env) (se_target_class env (RemoveShareEvent sid)) (se_node_class env n) \<ge> 0"
  shows "SnapshotIsAdmissible env source dest n = None"
proof -
  have "TryRebuildFromBaseAndReplay (SharedNode_ops senv) n = None"
    using assms(3-5)
    by (simp add: TryRebuildFromBaseAndReplay_def TryReplayJournal_def TryEnsureCurrentGeneration_def
        kJournalFullyMaterialized_def stash_restore_def ApplyEvent_def FindShareIndexForShare_def)
  then show ?thesis using assms by (simp add: SnapshotIsAdmissible_def record_admissible_def)
qed

end
