(* ===== verification/SharedProperties.thy ===== *)
theory SharedProperties
  imports SharedNode
begin

text \<open>
  What the synchronization state of a relationship and the topology of a shared node promise: the phase
  machine and its deliveries, the acknowledgement of an initial snapshot, the invariant of the topology
  and the effect of adding and removing a share.
\<close>

section \<open>The synchronization state\<close>



text \<open>Completing the initial synchronization succeeds on a ready node: the state becomes Complete, the frozen
  packet is dropped, and exactly the events inside that snapshot are added to the deliveries.\<close>

theorem complete_initial_sync_delivers_snapshot:
  assumes "sync_node_ok ae missing n" "ce_now1 cenv \<noteq> 0"
  shows "\<exists>n'. CompleteInitialSync ae missing cenv n = Some n' \<and>
    initial_sync_phase (materialized n') = Complete \<and> pending_initial_packet (materialized n') = [] \<and>
    pending_initial_packet_id (materialized n') = ae_null ae \<and> pending_initial_covered_event_ids (materialized n') = [] \<and>
    set (delivered_event_ids (materialized n')) =
      set (delivered_event_ids (materialized n)) \<union> set (pending_initial_covered_event_ids (materialized n))"
proof -
  let ?s = "materialized n"
  let ?t = "?s\<lparr> initial_sync_phase := Complete, pending_initial_packet_id := ae_null ae, pending_initial_packet := [] \<rparr>"
  obtain d where d: "fold note_delivered (pending_initial_covered_event_ids ?s) ?t =
      ?t\<lparr> delivered_event_ids := delivered_event_ids ?t @ d \<rparr>"
      "set d = set (pending_initial_covered_event_ids ?s) - set (delivered_event_ids ?t)"
    using fold_note_delivered [of "pending_initial_covered_event_ids ?s" ?t] by blast
  have a: "LinkSyncState_Apply ae (ce_event_id cenv) CompleteInitialSyncEvent ?s =
      Some (?t\<lparr> delivered_event_ids := delivered_event_ids ?s @ d, pending_initial_covered_event_ids := [] \<rparr>, 1)"
    using d(1) by (simp add: Let_def)
  show ?thesis
    using sync_commit_runs [OF assms _ a] d(2) by (auto simp: CompleteInitialSync_def)
qed

lemma sample_ready: "sync_node_ok sample_aether id sample_sync_node"
  using sample_sync_node_inv by (simp add: sync_node_ok_def sample_sync_node_eq kJournalFullyMaterialized_def)

definition sample_covered :: shared_event_id where
  "sample_covered = \<lparr> origin_uid = ''alice'', origin_sequence = 1 \<rparr>"

definition sample_pending_node :: link_sync_node where
  "sample_pending_node = the (Commit sample_sync_ops sample_cenv (BeginInitialSyncEvent [1, 2] [sample_covered]) sample_sync_node)"

lemmas commit_run_defs = Commit_def CommitInto_def InsertEvent_def assert_ok_def new_event_def commit_timestamp_def
  TryInsertEvent_def TryEnsureCurrentGeneration_def ApplyEvent_def NoteMaterializedChange_def usable_event_def
  HasSharedIdentity_def lower_bound_def lower_bound_from.simps insert_at_def is_loaded_def
  EventRecordOrderLess_def SharedEventOrderLess_def

lemma sample_pending_run:
  "Commit sample_sync_ops sample_cenv (BeginInitialSyncEvent [1, 2] [sample_covered]) sample_sync_node = Some sample_pending_node"
  "length (journal sample_pending_node) = 1" "timestamp_us (last (journal sample_pending_node)) = 1000"
  "initial_sync_phase (materialized sample_pending_node) = Pending"
  "pending_initial_packet_id (materialized sample_pending_node) = 40"
  "pending_initial_packet (materialized sample_pending_node) = [1, 2]"
  "pending_initial_covered_event_ids (materialized sample_pending_node) = [sample_covered]"
  "delivered_event_ids (materialized sample_pending_node) = []"
  "ls_share_id (materialized sample_pending_node) = 7"
  by (simp_all add: sample_pending_node_def commit_run_defs sample_sync_node_eq sample_cenv_def
      kJournalFullyMaterialized_def default_link_sync_state_def)

lemma sample_pending_ready: "sync_node_ok sample_aether id sample_pending_node"
proof -
  have "\<exists>s. LinkSyncState_Apply sample_aether (ce_event_id sample_cenv) (BeginInitialSyncEvent [1, 2] [sample_covered])
      (materialized sample_sync_node) = Some (s, 1)"
    by (simp add: sample_sync_node_eq default_link_sync_state_def)
  then obtain s where a: "LinkSyncState_Apply sample_aether (ce_event_id sample_cenv) (BeginInitialSyncEvent [1, 2] [sample_covered])
      (materialized sample_sync_node) = Some (s, 1)" by blast
  have "node_inv sample_sync_ops id sample_pending_node"
    using sync_commit_runs [OF sample_ready _ _ a] sample_pending_run(1) by (auto simp: sample_cenv_def)
  then show ?thesis using sample_pending_run(2,3) by (simp add: sync_node_ok_def kJournalFullyMaterialized_def)
qed

lemma complete_initial_sync_delivers_snapshot_witness:
  "\<exists>n'. CompleteInitialSync sample_aether id sample_cenv sample_pending_node = Some n' \<and>
    initial_sync_phase (materialized n') = Complete \<and> set (delivered_event_ids (materialized n')) = {sample_covered}"
  using complete_initial_sync_delivers_snapshot [OF sample_pending_ready, of sample_cenv] sample_pending_run(7,8)
  by (auto simp: sample_cenv_def)

section \<open>The topology\<close>

text \<open>Every applied topology event keeps share identities and links unique and every share
  covered by a synchronization state of its own.\<close>

theorem topology_events_keep_invariant:
  assumes "sn_env_ok env" "topology_ok s" "sync_covered s" "SharedNode_Apply env i e s = Some (s', k)"
  shows "topology_ok s' \<and> sync_covered s'"
  using topology_ok_Apply [OF assms(1,2,4)] sync_covered_Apply [OF assms] by simp

definition sample_shared :: shared_fields where
  "sample_shared = \<lparr> shares = [\<lparr> share_id = 7, share_link = sample_link, share_access = ReadWrite \<rparr>],
     link_sync_states = [sync_node_ptr sample_sync_node] \<rparr>"

definition sample_other_link :: "link_obj obj_ptr" where
  "sample_other_link = sample_link\<lparr> ptr_id := 11, ptr_object := Some (MemoryLink ''carol'' 1000) \<rparr>"

lemma sample_shared_ok: "topology_ok sample_shared" "sync_covered sample_shared"
  by (simp_all add: sample_shared_def topology_ok_def sync_covered_def sync_entry_for_def sync_node_ptr_def
      sample_link_def ptr_load_def sample_sync_node_eq)

lemma topology_events_keep_invariant_witness:
  "\<exists>s'. SharedNode_Apply sample_sn_env 8 (AddShareEvent sample_other_link ReadOnly) sample_shared = Some (s', 1) \<and>
    map share_id (shares s') = [7, 8] \<and> topology_ok s' \<and> sync_covered s'"
proof -
  obtain n where n: "create_link_sync_node sample_sn_env 8 sample_other_link = Some n"
    using create_link_sync_node_ok [OF sample_sn_env_ok] by metis
  have "\<exists>s'. SharedNode_Apply sample_sn_env 8 (AddShareEvent sample_other_link ReadOnly) sample_shared = Some (s', 1) \<and>
      map share_id (shares s') = [7, 8]"
    using n by (simp add: sample_shared_def sample_other_link_def sample_link_def FindShareIndexForShare_def
        FindShareIndex_def FindLinkSyncIndexForShare_def sync_entry_for_def sync_node_ptr_def ptr_load_def
        sample_sync_node_eq Let_def sample_sn_env_def sample_aether_def)
  then show ?thesis using topology_events_keep_invariant [OF sample_sn_env_ok sample_shared_ok] by metis
qed

section \<open>Adding and removing shares\<close>

definition shared_ready :: "sn_env \<Rightarrow> shared_node \<Rightarrow> bool" where
  "shared_ready env n \<longleftrightarrow> sn_env_ok env \<and> node_inv (SharedNode_ops env) shares n \<and>
     length (journal n) < kJournalFullyMaterialized \<and> (journal n = [] \<or> timestamp_us (last (journal n)) \<noteq> -1)"

lemma shared_commit_runs:
  assumes "shared_ready env n" "ce_now1 cenv \<noteq> 0"
    and "SharedNode_Apply env (ce_event_id cenv) e (materialized n) = Some (s', k)"
  shows "\<exists>n'. Commit (SharedNode_ops env) cenv e n = Some n' \<and> materialized n' = s' \<and>
    node_inv (SharedNode_ops env) shares n' \<and> length (journal n') = Suc (length (journal n))"
proof -
  let ?ev = "new_event cenv (node_domain n) e"
  have r: "node_inv (SharedNode_ops env) shares n" "length (journal n) < kJournalFullyMaterialized"
    and w: "journal n = [] \<or> timestamp_us (last (journal n)) \<noteq> -1" and c: "node_class (SharedNode_ops env) shares"
    using assms(1) shared_node_class by (auto simp: shared_ready_def)
  have p: "ptr_valid ?ev" "ptr_object ?ev = Some e" "ptr_domain ?ev = node_domain n" "ptr_id ?ev = ce_event_id cenv"
    by (simp_all add: new_event_def)
  have "\<exists>n' r. CommitInto (SharedNode_ops env) (ce_now1 cenv) (ce_now2 cenv) (ce_now3 cenv) ?ev n = Some n' \<and>
    node_inv (SharedNode_ops env) shares n' \<and>
    materialized n' = s' \<and> journal n' = journal n @ [r] \<and> event r = ?ev \<and> \<not> HasSharedIdentity r \<and>
    timestamp_us r = commit_timestamp (ce_now1 cenv) n"
    by (rule node_class.commit_runs [OF c r p(1-3) _ _ assms(2) w]) (simp_all add: p assms(3))
  then show ?thesis by (auto simp: Commit_def)
qed

lemma FindShareIndex_less:
  "FindShareIndex l s < length (shares s) \<longleftrightarrow> (\<exists>sh\<in>set (shares s). ptr_valid (share_link sh) \<and> ptr_id (share_link sh) = l)"
  using FindShareIndex_none [of l s] FindShareIndex_le [of l s] by (auto simp: le_less)

text \<open>Adding a share over a link that is not shared opens one relationship, named by the event, with a
  synchronization state of its own; over a link that is shared it changes nothing, so that adding the
  same link again is the identity.\<close>

theorem add_share_opens_one_relationship:
  assumes "shared_ready env n" "ce_now1 cenv \<noteq> 0" "ptr_valid link" "ae_valid (sn_ae env) (ce_event_id cenv)"
    and "ce_event_id cenv \<notin> share_id ` set (shares (materialized n))"
  shows "\<exists>n'. AddShare env cenv link access n = Some n' \<and> node_inv (SharedNode_ops env) shares n' \<and>
    AddShare env cenv' link access' n' = Some n' \<and>
    (if \<exists>sh\<in>set (shares (materialized n)). ptr_valid (share_link sh) \<and> ptr_id (share_link sh) = ptr_id link then n' = n
     else shares (materialized n') = shares (materialized n) @
         [\<lparr> share_id = ce_event_id cenv, share_link = link, share_access = access \<rparr>] \<and>
       (\<exists>entry\<in>set (link_sync_states (materialized n')). sync_entry_for (ce_event_id cenv) entry))"
proof (cases "FindShareIndex (ptr_id link) (materialized n) < length (shares (materialized n))")
  case True
  then show ?thesis using assms by (auto simp: AddShare_def FindShareIndex_less shared_ready_def)
next
  case False
  let ?s = "materialized n" and ?e = "AddShareEvent link access"
  have env: "sn_env_ok env" using assms(1) by (simp add: shared_ready_def)
  obtain st where st: "create_link_sync_node env (ce_event_id cenv) link = Some st"
    using create_link_sync_node_ok [OF env] by metis
  have f: "FindShareIndex (ptr_id link) ?s = length (shares ?s)"
      "FindShareIndexForShare (ce_event_id cenv) ?s = length (shares ?s)"
    using False FindShareIndex_le [of "ptr_id link" ?s] assms(5) by (auto simp: FindShareIndexForShare_none)
  have "\<exists>s'. SharedNode_Apply env (ce_event_id cenv) ?e ?s = Some (s', 1)"
    using assms(3,4) f st
    by (cases "length (link_sync_states ?s) \<le> FindLinkSyncIndexForShare (ce_event_id cenv)
      (?s\<lparr> shares := shares ?s @ [\<lparr> share_id = ce_event_id cenv, share_link = link, share_access = access \<rparr>] \<rparr>)")
      (simp_all add: Let_def)
  then obtain s' where a: "SharedNode_Apply env (ce_event_id cenv) ?e ?s = Some (s', 1)" by blast
  obtain n' where n': "Commit (SharedNode_ops env) cenv ?e n = Some n'" "materialized n' = s'"
      "node_inv (SharedNode_ops env) shares n'"
    using shared_commit_runs [OF assms(1,2) a] by blast
  note add = SharedNode_Apply_Add [OF env a]
  have again: "FindShareIndex (ptr_id link) s' < length (shares s')"
    unfolding FindShareIndex_less using add assms(3) by auto
  have "AddShare env cenv link access n = Some n'" "AddShare env cenv' link access' n' = Some n'"
    using False again n'(1,2) assms(3) by (simp_all add: AddShare_def)
  moreover have "\<not> (\<exists>sh\<in>set (shares ?s). ptr_valid (share_link sh) \<and> ptr_id (share_link sh) = ptr_id link)"
    using False by (simp add: FindShareIndex_less)
  ultimately show ?thesis using n'(2,3) add by auto
qed

lemma erase_find_index:
  assumes "distinct (map key xs)" "find_index (\<lambda>x. P x \<and> key x = k) xs < length xs" "\<forall>x\<in>set xs. P x"
  shows "erase_at (find_index (\<lambda>x. P x \<and> key x = k) xs) xs = filter (\<lambda>x. key x \<noteq> k) xs"
  using assms
proof (induction xs)
  case (Cons x xs)
  show ?case
  proof (cases "key x = k")
    case True
    have "key x \<notin> key ` set xs" using Cons.prems(1) by simp
    then have "\<forall>y\<in>set xs. key y \<noteq> k" using True by (metis image_eqI)
    then show ?thesis using True Cons.prems(3) by (simp add: erase_at_def)
  next
    case False
    then show ?thesis using Cons by (simp add: erase_at_def)
  qed
qed simp

text \<open>Removing the share over a link succeeds and removes that relationship and no other; over a link
  that is not shared it changes nothing.\<close>

theorem remove_share_removes_one:
  assumes "shared_ready env n" "ce_now1 cenv \<noteq> 0" "ptr_valid link" "topology_ok (materialized n)"
  shows "\<exists>n'. RemoveShare env cenv link n = Some n' \<and> node_inv (SharedNode_ops env) shares n' \<and>
    shares (materialized n') = filter (\<lambda>sh. ptr_id (share_link sh) \<noteq> ptr_id link) (shares (materialized n))"
proof (cases "FindShareIndex (ptr_id link) (materialized n) < length (shares (materialized n))")
  case False
  then have "\<forall>sh\<in>set (shares (materialized n)). ptr_id (share_link sh) \<noteq> ptr_id link"
    using assms(4) by (auto simp: FindShareIndex_less topology_ok_def)
  then have "filter (\<lambda>sh. ptr_id (share_link sh) \<noteq> ptr_id link) (shares (materialized n)) = shares (materialized n)"
    by (simp add: filter_id_conv)
  then show ?thesis using False assms(1,3) by (auto simp: RemoveShare_def Let_def shared_ready_def)
next
  case True
  let ?s = "materialized n" and ?j = "FindShareIndex (ptr_id link) (materialized n)"
  let ?sid = "share_id (shares ?s ! ?j)"
  have top: "distinct (map share_id (shares ?s))" "distinct (map (\<lambda>sh. ptr_id (share_link sh)) (shares ?s))"
      "\<forall>sh\<in>set (shares ?s). ptr_valid (share_link sh)" using assms(4) by (simp_all add: topology_ok_def)
  have i: "FindShareIndexForShare ?sid ?s < length (shares ?s)" using True by (simp add: FindShareIndexForShare_some)
  have "share_id (shares ?s ! FindShareIndexForShare ?sid ?s) = ?sid" by (rule FindShareIndexForShare_nth [OF i])
  then have j: "FindShareIndexForShare ?sid ?s = ?j"
    using nth_eq_iff_index_eq [OF top(1), of "FindShareIndexForShare ?sid ?s" ?j] True i by simp
  have "\<exists>s' k. SharedNode_Apply env (ce_event_id cenv) (RemoveShareEvent ?sid) ?s = Some (s', k)"
    using i by (simp add: Let_def)
  then obtain s' k where a: "SharedNode_Apply env (ce_event_id cenv) (RemoveShareEvent ?sid) ?s = Some (s', k)" by blast
  have "shares s' = erase_at ?j (shares ?s)"
    using SharedNode_Apply_Remove [OF a] j by simp
  also have "\<dots> = filter (\<lambda>sh. ptr_id (share_link sh) \<noteq> ptr_id link) (shares ?s)"
    using erase_find_index [OF top(2), of "\<lambda>sh. ptr_valid (share_link sh)" "ptr_id link"] True top(3)
    by (simp add: FindShareIndex_def)
  finally show ?thesis
    using shared_commit_runs [OF assms(1,2) a] True assms(3) by (auto simp: RemoveShare_def Let_def)
qed

definition sample_shared_node :: shared_node where
  "sample_shared_node = \<lparr> node_obj_id = 300, node_domain = Some 0, materialized = sample_shared,
     base = \<lparr> ptr_valid = True, ptr_id = 301, ptr_domain = Some 0, ptr_object = Some sample_shared, ptr_stored = None \<rparr>,
     base_layer = Some (shares sample_shared, link_sync_states sample_shared), journal = [], generation = 1,
     applied_journal_size = kJournalFullyMaterialized, journal_retention_policy = default_retention,
     journal_compaction_blocked = False, suppress_materialized_change = False,
     materialized_change_fn = False, notifications = 0 \<rparr>"

lemma sample_shared_ready: "shared_ready sample_sn_env sample_shared_node"
  by (auto simp: shared_ready_def sample_shared_node_def node_inv_def node_live_def journal_sorted_def shared_ids_def
      consistent_def is_loaded_def kJournalFullyMaterialized_def intro!: exI [of _ sample_shared])

lemma sample_shared_shares: "shares (materialized sample_shared_node) =
    [\<lparr> share_id = 7, share_link = sample_link, share_access = ReadWrite \<rparr>]"
  by (simp add: sample_shared_node_def sample_shared_def)

lemma add_share_opens_one_relationship_witness:
  "\<exists>n'. AddShare sample_sn_env sample_cenv sample_other_link ReadOnly sample_shared_node = Some n' \<and>
    map share_id (shares (materialized n')) = [7, 40]"
proof -
  have h: "ce_now1 sample_cenv \<noteq> 0" "ptr_valid sample_other_link" "ae_valid (sn_ae sample_sn_env) (ce_event_id sample_cenv)"
      "ce_event_id sample_cenv \<notin> share_id ` set (shares (materialized sample_shared_node))"
    by (simp_all add: sample_cenv_def sample_other_link_def sample_link_def sample_sn_env_def sample_aether_def sample_shared_shares)
  show ?thesis
    using add_share_opens_one_relationship [OF sample_shared_ready h, of ReadOnly sample_cenv ReadOnly]
    by (auto simp: sample_shared_shares sample_other_link_def sample_link_def sample_cenv_def)
qed

lemma remove_share_removes_one_witness:
  "\<exists>n'. RemoveShare sample_sn_env sample_cenv sample_link sample_shared_node = Some n' \<and> shares (materialized n') = []"
proof -
  have h: "ce_now1 sample_cenv \<noteq> 0" "ptr_valid sample_link" "topology_ok (materialized sample_shared_node)"
    using sample_shared_ok(1) by (simp_all add: sample_cenv_def sample_link_def sample_shared_node_def)
  show ?thesis
    using remove_share_removes_one [OF sample_shared_ready h] by (auto simp: sample_shared_shares)
qed

end
