(* ===== verification/SyncProperties.thy ===== *)
theory SyncProperties
  imports SyncRuntime SharedProperties GraphProperties
begin

text \<open>
  What the synchronization runtime promises: a packet is frozen and persisted before it is sent and is
  resent byte for byte, an acknowledgement counts only from the destination, and nothing a peer sends is
  stored or acknowledged before it was admitted.  The witnesses run a runtime with one shared node.
\<close>

section \<open>A sample runtime\<close>

text \<open>The node as its other replica, alice, has it: a share for bob and one for alice herself.\<close>

definition sample_received :: shared_fields where
  "sample_received = sample_shared\<lparr> shares := [\<lparr> share_id = 7, share_link = sample_link, share_access = ReadWrite \<rparr>,
     \<lparr> share_id = 8, share_link = sample_link\<lparr> ptr_id := 12, ptr_object := Some (MemoryLink ''alice'' 1000) \<rparr>,
       share_access = ReadWrite \<rparr>] \<rparr>"

definition sample_receiving_node :: shared_node where
  "sample_receiving_node = sample_shared_node\<lparr> materialized := sample_received,
     base_layer := Some (shares sample_received, link_sync_states sample_received) \<rparr>"

definition sample_sync_env :: "(shared_fields, shared_event, shared_layer) sync_env" where
  "sample_sync_env = \<lparr> se_ae = sample_aether, se_io = sample_io, se_ops = SharedNode_ops sample_sn_env,
     se_missing_sync = id, se_local_endpoint = ''alice'', se_domain = 0, se_in_domain = (\<lambda>i. False),
     se_gen = (\<lambda>k. of_nat (500 + k)), se_node_class = (\<lambda>n. 4), se_event_class = (\<lambda>e. 60),
     se_target_class = (\<lambda>e. 4), se_event_pointers = (\<lambda>e i. []), se_event_scratch = (\<lambda>i e. sample_event_graph),
     se_node_scratch = (\<lambda>n. []), se_load_event = (\<lambda>d i. Some (ChangeShareAccessEvent 7 ReadOnly)),
     se_load_node = (\<lambda>d i. Some sample_receiving_node),
     se_callback = None \<rparr>"

lemma sample_env_simps [simp]:
  "se_ae sample_sync_env = sample_aether" "se_io sample_sync_env = sample_io"
  "se_ops sample_sync_env = SharedNode_ops sample_sn_env" "se_missing_sync sample_sync_env = id"
  "se_local_endpoint sample_sync_env = ''alice''" "se_event_class sample_sync_env e = 60"
  "se_target_class sample_sync_env e = 4" "se_node_class sample_sync_env n = 4"
  "se_load_node sample_sync_env d i = Some sample_receiving_node"
  "se_load_event sample_sync_env d i = Some (ChangeShareAccessEvent 7 ReadOnly)" "se_in_domain sample_sync_env i = False"
  "se_event_pointers sample_sync_env e = (\<lambda>i. [])" "se_event_scratch sample_sync_env i e = sample_event_graph"
  by (simp_all add: sample_sync_env_def)

definition sample_runtime :: "(shared_fields, shared_event, shared_layer) sync_runtime" where
  "sample_runtime = \<lparr> rt_nodes = [sample_shared_node], expected_initial_nodes = [], expected_endpoint_nodes = [],
     standalone_event_classes = [60], rt_storage = Map.empty, rt_effects = [] \<rparr>"

lemma sample_target:
  "sync_target sample_sync_env 300 7 sample_runtime = Some (sample_shared_node, ''bob'', 0, sample_sync_node)"
  by (simp add: sync_target_def sample_runtime_def FindNode_def sample_shared_node_def sample_shared_def
      ShareEndpointOf_def FindShareIndexForShare_def ShareEndpoint_def sample_link_def ptr_load_def
      sample_sync_env_def FindLinkSyncIndexForShare_def sync_entry_for_def sync_node_ptr_def sample_sync_node_eq Let_def)

section \<open>Sending\<close>

text \<open>C27. The first SyncInitialState of a relationship freezes the snapshot packet into the synchronization state,
  persists node and state, and only then sends exactly that packet; every later call, until it is
  acknowledged, changes nothing and sends the same bytes again.\<close>

theorem initial_state_frozen_then_resent:
  assumes "sync_target env node_id sid rt = Some (n, destination, i, state)"
    and "sync_node_ok (se_ae env) (se_missing_sync env) state"
    and "initial_sync_phase (materialized state) = NotStarted"
    and "SyncInitialState env cenv node_id sid rt = Some rt'"
  shows "\<exists>state' packet. sync_target env node_id sid rt' = Some (put_state i state' n, destination, i, state') \<and>
    initial_sync_phase (materialized state') = Pending \<and> pending_initial_packet (materialized state') = packet \<and>
    pending_initial_packet_id (materialized state') = ce_event_id cenv \<and>
    rt_effects rt' = rt_effects rt @ [SavedNode (put_state i state' n), SavedState state', Sent destination packet] \<and>
    (\<forall>cenv'. SyncInitialState env cenv' node_id sid rt' = Some (send destination packet rt'))"
proof -
  have ph: "initial_sync_phase (materialized state) \<noteq> Complete" "initial_sync_phase (materialized state) \<noteq> Pending"
    using assms(3) by (simp_all add: phase_defs)
  obtain state' where s: "sync_target env node_id sid rt' = Some (put_state i state' n, destination, i, state')"
      "initial_sync_phase (materialized state') = Pending" "pending_initial_packet_id (materialized state') = ce_event_id cenv"
      "rt_effects rt' = rt_effects rt @ [SavedNode (put_state i state' n), SavedState state',
         Sent destination (pending_initial_packet (materialized state'))]"
    using SyncInitialState_freezes [OF assms(1,2) ph assms(4)] by blast
  have "Pending \<noteq> Complete" by (simp add: phase_defs)
  then have "SyncInitialState env cenv' node_id sid rt' =
      Some (send destination (pending_initial_packet (materialized state')) rt')" for cenv'
    using s(1,2) by (simp add: SyncInitialState_def)
  then show ?thesis using s by blast
qed

lemma sample_sync_runs: "\<exists>rt'. SyncInitialState sample_sync_env sample_cenv 300 7 sample_runtime = Some rt'"
proof -
  let ?p = "EncodeNodeStateFrame \<lparr> ns_packet_id = 40, ns_target_node_id = 300, ns_destination_share_id = 7,
      ns_payload = SerializeObjectGraph sample_io [] \<rparr>"
  have ph: "initial_sync_phase (materialized sample_sync_node) = NotStarted" "?p \<noteq> []"
    by (simp_all add: sample_sync_node_eq default_link_sync_state_def EncodeNodeStateFrame_layout u32_bytes_def)
  have "\<exists>s. LinkSyncState_Apply sample_aether (ce_event_id sample_cenv) (BeginInitialSyncEvent ?p [])
      (materialized sample_sync_node) = Some (s, 1)"
    using ph by simp
  then obtain s where a: "LinkSyncState_Apply sample_aether (ce_event_id sample_cenv) (BeginInitialSyncEvent ?p [])
      (materialized sample_sync_node) = Some (s, 1)" by blast
  have "\<exists>st. Commit sample_sync_ops sample_cenv (BeginInitialSyncEvent ?p []) sample_sync_node = Some st"
    using sync_commit_runs [OF sample_ready _ _ a] by (auto simp: sample_cenv_def)
  moreover have "FreezeNetworkSharedNodeState sample_sync_env sample_shared_node = Some (SerializeObjectGraph sample_io [], [])"
    by (simp add: FreezeNetworkSharedNodeState_def sample_sync_env_def sample_receiving_node_def sample_shared_node_def)
  ultimately show ?thesis
    using ph by (auto simp: SyncInitialState_def sample_target phase_defs sample_cenv_def Let_def)
qed

lemma initial_state_frozen_then_resent_witness:
  "\<exists>rt' packet. SyncInitialState sample_sync_env sample_cenv 300 7 sample_runtime = Some rt' \<and>
    last (rt_effects rt') = Sent ''bob'' packet \<and>
    SyncInitialState sample_sync_env sample_cenv 300 7 rt' = Some (send ''bob'' packet rt')"
proof -
  obtain rt' where r: "SyncInitialState sample_sync_env sample_cenv 300 7 sample_runtime = Some rt'"
    using sample_sync_runs by blast
  have ok: "sync_node_ok (se_ae sample_sync_env) (se_missing_sync sample_sync_env) sample_sync_node"
    using sample_ready by (simp add: sample_sync_env_def)
  have ph: "initial_sync_phase (materialized sample_sync_node) = NotStarted"
    by (simp add: sample_sync_node_eq default_link_sync_state_def)
  show ?thesis using initial_state_frozen_then_resent [OF sample_target ok ph r] r by auto
qed

lemma find_split:
  "find P xs = Some x \<Longrightarrow> \<exists>ys zs. xs = ys @ x # zs \<and> P x \<and> (\<forall>y\<in>set ys. \<not> P y)"
proof (induction xs)
  case (Cons a xs)
  show ?case
  proof (cases "P a")
    case True
    then show ?thesis using Cons.prems by (intro exI [of _ "[]"] exI [of _ xs]) simp
  next
    case False
    then obtain ys zs where "xs = ys @ x # zs \<and> P x \<and> (\<forall>y\<in>set ys. \<not> P y)" using Cons by auto
    then show ?thesis using False by (intro exI [of _ "a # ys"] exI [of _ zs]) simp
  qed
qed simp

text \<open>When SyncNextEvent sends a new packet, it carries the first shared event of the journal that the
  destination neither acknowledged nor originated; the packet is frozen and persisted before it is
  sent, and until its acknowledgement every further call sends the same bytes again.\<close>

theorem next_event_frozen_then_resent:
  assumes "sync_target env node_id sid rt = Some (n, destination, i, state)"
    and "sync_node_ok (se_ae env) (se_missing_sync env) state"
    and "initial_sync_phase (materialized state) = Complete" "\<not> HasPendingEvent (se_ae env) (materialized state)"
    and "SyncNextEvent env cenv node_id sid rt = Some rt'" "rt' \<noteq> rt" "ae_valid (se_ae env) (ce_event_id cenv)"
  shows "\<exists>r state' packet earlier later. journal n = earlier @ r # later \<and> HasSharedIdentity r \<and>
    \<not> HasDelivered (identity r) (materialized state) \<and> origin_uid (identity r) \<noteq> destination \<and>
    (\<forall>x\<in>set earlier. HasSharedIdentity x \<longrightarrow> HasDelivered (identity x) (materialized state) \<or> origin_uid (identity x) = destination) \<and>
    sync_target env node_id sid rt' = Some (put_state i state' n, destination, i, state') \<and>
    pending_event_identity (materialized state') = identity r \<and> pending_event_packet_id (materialized state') = ce_event_id cenv \<and>
    rt_effects rt' = rt_effects rt @ [SavedNode (put_state i state' n), SavedState state', Sent destination packet] \<and>
    (\<forall>cenv'. SyncNextEvent env cenv' node_id sid rt' = Some (send destination packet rt'))"
proof -
  obtain r state' where r: "NextUndeliveredSharedEvent (se_ae env) destination (materialized state) (journal n) = Some r"
    and s: "sync_target env node_id sid rt' = Some (put_state i state' n, destination, i, state')"
      "rt_effects rt' = rt_effects rt @ [SavedNode (put_state i state' n), SavedState state',
         Sent destination (pending_event_packet (materialized state'))]"
      "pending_event_identity (materialized state') = identity r"
      "pending_event_packet_id (materialized state') = ce_event_id cenv" "initial_sync_phase (materialized state') = Complete"
    using SyncNextEvent_freezes [OF assms(1-6)] by blast
  obtain earlier later where e: "journal n = earlier @ r # later"
      "HasSharedIdentity r" "\<not> HasDelivered (identity r) (materialized state)" "origin_uid (identity r) \<noteq> destination"
      "\<forall>x\<in>set earlier. HasSharedIdentity x \<longrightarrow> HasDelivered (identity x) (materialized state) \<or> origin_uid (identity x) = destination"
    using find_split [OF r [unfolded NextUndeliveredSharedEvent_def]] assms(4) by auto
  have "SyncNextEvent env cenv' node_id sid rt' = Some (send destination (pending_event_packet (materialized state')) rt')" for cenv'
    using s assms(7) by (simp add: SyncNextEvent_def HasPendingEvent_def)
  then show ?thesis using s e by blast
qed

text \<open>A relationship whose initial synchronization is complete, and a journal with one shared event.\<close>

definition sample_complete_node :: link_sync_node where
  "sample_complete_node = the (CompleteInitialSync sample_aether id sample_cenv sample_pending_node)"

lemma sample_complete_run:
  "CompleteInitialSync sample_aether id sample_cenv sample_pending_node = Some sample_complete_node"
  "length (journal sample_complete_node) = 2" "timestamp_us (last (journal sample_complete_node)) = 1001"
  "initial_sync_phase (materialized sample_complete_node) = Complete"
  "pending_event_packet_id (materialized sample_complete_node) = 0"
  "delivered_event_ids (materialized sample_complete_node) = [sample_covered]"
  "ls_share_id (materialized sample_complete_node) = 7"
  by (simp_all add: sample_complete_node_def CompleteInitialSync_def sample_pending_node_def commit_run_defs
      sample_sync_node_eq sample_cenv_def kJournalFullyMaterialized_def default_link_sync_state_def sample_aether_def
      note_delivered_def HasDelivered_def Let_def)

lemma sample_complete_ok: "sync_node_ok sample_aether id sample_complete_node"
proof -
  have "\<exists>s. LinkSyncState_Apply sample_aether (ce_event_id sample_cenv) CompleteInitialSyncEvent
      (materialized sample_pending_node) = Some (s, 1)" by (simp add: Let_def)
  then obtain s where a: "LinkSyncState_Apply sample_aether (ce_event_id sample_cenv) CompleteInitialSyncEvent
      (materialized sample_pending_node) = Some (s, 1)" by blast
  have "node_inv sample_sync_ops id sample_complete_node"
    using sync_commit_runs [OF sample_pending_ready _ _ a] sample_complete_run(1)
    by (auto simp: sample_cenv_def CompleteInitialSync_def)
  then show ?thesis using sample_complete_run(2,3) by (simp add: sync_node_ok_def kJournalFullyMaterialized_def)
qed

definition sample_shared_record :: "shared_event event_record" where
  "sample_shared_record = \<lparr> event = \<lparr> ptr_valid = True, ptr_id = 40, ptr_domain = Some 0,
       ptr_object = Some (ChangeShareAccessEvent 7 ReadOnly), ptr_stored = None \<rparr>,
     identity = \<lparr> origin_uid = ''alice'', origin_sequence = 2 \<rparr>, timestamp_us = 2000, retained_since_us = 1 \<rparr>"

definition sample_publishing_node :: shared_node where
  "sample_publishing_node = sample_shared_node
     \<lparr> materialized := sample_shared\<lparr> link_sync_states := [sync_node_ptr sample_complete_node] \<rparr>,
       journal := [sample_shared_record] \<rparr>"

definition sample_publishing_runtime :: "(shared_fields, shared_event, shared_layer) sync_runtime" where
  "sample_publishing_runtime = sample_runtime\<lparr> rt_nodes := [sample_publishing_node] \<rparr>"

lemma sample_publishing_target:
  "sync_target sample_sync_env 300 7 sample_publishing_runtime =
     Some (sample_publishing_node, ''bob'', 0, sample_complete_node)"
  by (simp add: sync_target_def sample_publishing_runtime_def sample_runtime_def FindNode_def sample_publishing_node_def
      sample_shared_node_def sample_shared_def ShareEndpointOf_def FindShareIndexForShare_def ShareEndpoint_def
      sample_link_def ptr_load_def FindLinkSyncIndexForShare_def sync_entry_for_def sync_node_ptr_def
      sample_complete_run Let_def)

lemma sample_no_pending: "\<not> HasPendingEvent sample_aether (materialized sample_complete_node)"
  by (simp add: HasPendingEvent_def sample_complete_run sample_aether_def)

lemma sample_publishing_runs:
  "\<exists>rt'. SyncNextEvent sample_sync_env sample_cenv 300 7 sample_publishing_runtime = Some rt' \<and> rt' \<noteq> sample_publishing_runtime"
proof -
  let ?payload = "gio_save_id sample_io 40 @ gio_save_state sample_io sample_event_graph"
  let ?p = "EncodeEventFrame \<lparr> ev_packet_id = 40, ev_target_node_id = 300, ev_destination_share_id = 7,
      ev_identity = identity sample_shared_record, ev_timestamp_us = 2000, ev_event_class_id = 60, ev_payload = ?payload \<rparr>"
  have ne: "?p \<noteq> []" by (simp add: EncodeEventFrame_layout u32_bytes_def)
  have "\<exists>s. LinkSyncState_Apply sample_aether (ce_event_id sample_cenv)
      (BeginIncrementalEventSyncEvent (identity sample_shared_record) ?p) (materialized sample_complete_node) = Some (s, 1)"
    using ne sample_no_pending by (simp add: sample_complete_run sample_shared_record_def)
  then obtain s where a: "LinkSyncState_Apply sample_aether (ce_event_id sample_cenv)
      (BeginIncrementalEventSyncEvent (identity sample_shared_record) ?p) (materialized sample_complete_node) = Some (s, 1)"
    by blast
  obtain st where st: "Commit sample_sync_ops sample_cenv
      (BeginIncrementalEventSyncEvent (identity sample_shared_record) ?p) sample_complete_node = Some st"
    using sync_commit_runs [OF sample_complete_ok _ _ a] by (auto simp: sample_cenv_def)
  have next_one: "NextUndeliveredSharedEvent sample_aether ''bob'' (materialized sample_complete_node)
      (journal sample_publishing_node) = Some sample_shared_record"
    using sample_no_pending
    by (simp add: NextUndeliveredSharedEvent_def sample_publishing_node_def sample_shared_record_def HasSharedIdentity_def
        HasDelivered_def sample_complete_run sample_covered_def)
  have r: "ptr_valid (event sample_shared_record)" "ptr_object (event sample_shared_record) = Some (ChangeShareAccessEvent 7 ReadOnly)"
      "ptr_id (event sample_shared_record) = 40" "timestamp_us sample_shared_record = 2000" "ce_event_id sample_cenv = 40"
      "IsStandaloneEventClassAllowed 60 sample_publishing_runtime"
    by (simp_all add: sample_shared_record_def sample_cenv_def IsStandaloneEventClassAllowed_def
        sample_publishing_runtime_def sample_runtime_def)
  have e: "rt_effects sample_publishing_runtime = []" by (simp add: sample_publishing_runtime_def sample_runtime_def)
  show ?thesis
    using sample_publishing_target sample_no_pending next_one r st sample_freeze sample_complete_run(4) e
    by (auto simp: SyncNextEvent_def Let_def dest: arg_cong [of _ _ rt_effects])
qed

lemma next_event_frozen_then_resent_witness:
  "\<exists>rt' packet. SyncNextEvent sample_sync_env sample_cenv 300 7 sample_publishing_runtime = Some rt' \<and>
    last (rt_effects rt') = Sent ''bob'' packet \<and>
    SyncNextEvent sample_sync_env sample_cenv 300 7 rt' = Some (send ''bob'' packet rt')"
proof -
  obtain rt' where r: "SyncNextEvent sample_sync_env sample_cenv 300 7 sample_publishing_runtime = Some rt'"
      "rt' \<noteq> sample_publishing_runtime" using sample_publishing_runs by blast
  have ok: "sync_node_ok (se_ae sample_sync_env) (se_missing_sync sample_sync_env) sample_complete_node"
      "\<not> HasPendingEvent (se_ae sample_sync_env) (materialized sample_complete_node)"
      "ae_valid (se_ae sample_sync_env) (ce_event_id sample_cenv)"
    using sample_complete_ok sample_no_pending by (simp_all add: sample_aether_def sample_cenv_def)
  show ?thesis
    using next_event_frozen_then_resent [OF sample_publishing_target ok(1) sample_complete_run(4) ok(2) r ok(3)] r(1) by auto
qed

section \<open>Acknowledgements\<close>

text \<open>C26. An acknowledgement changes something only when it comes from the endpoint of the share it names, at a
  moment when exactly the packet it names is pending for that share.\<close>

theorem ack_counts_only_from_destination:
  assumes "OnAck env cenv source ack rt = Some rt'" "rt' \<noteq> rt"
  shows "\<exists>n state. FindNode (ack_target_node_id ack) rt = Some n \<and>
    ShareEndpointOf (ack_destination_share_id ack) (materialized n) = Some source \<and>
    ptr_load (link_sync_states (materialized n) !
      FindLinkSyncIndexForShare (ack_destination_share_id ack) (materialized n)) = Some state \<and>
    (initial_sync_phase (materialized state) = Pending \<and> pending_initial_packet_id (materialized state) = ack_packet_id ack \<or>
     initial_sync_phase (materialized state) = Complete \<and> pending_event_packet_id (materialized state) = ack_packet_id ack)"
  by (rule OnAck_authorized [OF assms])

text \<open>The acknowledgement of a pending event, from its destination, succeeds: the event is recorded as
  delivered, nothing is pending any more, and node and state are persisted.\<close>

theorem ack_completes_pending_event:
  assumes "sync_target env node_id sid rt = Some (n, destination, i, state)"
    and "sync_node_ok (se_ae env) (se_missing_sync env) state" "ce_now1 cenv \<noteq> 0"
    and "initial_sync_phase (materialized state) = Complete" "HasPendingEvent (se_ae env) (materialized state)"
      "pending_event_packet_id (materialized state) = pid"
    and "aether_ids (se_ae env)"
  shows "\<exists>rt' state'. OnAck env cenv destination \<lparr> ack_packet_id = pid, ack_target_node_id = node_id,
      ack_destination_share_id = sid \<rparr> rt = Some rt' \<and>
    sync_target env node_id sid rt' = Some (put_state i state' n, destination, i, state') \<and>
    HasDelivered (pending_event_identity (materialized state)) (materialized state') \<and>
    \<not> HasPendingEvent (se_ae env) (materialized state') \<and>
    rt_effects rt' = rt_effects rt @ [SavedNode (put_state i state' n), SavedState state']"
  by (rule OnAck_pending_event [OF assms])

text \<open>The sample relationship with a packet pending.\<close>

definition sample_waiting_runtime :: "link_sync_node \<Rightarrow> (shared_fields, shared_event, shared_layer) sync_runtime" where
  "sample_waiting_runtime st = sample_runtime\<lparr> rt_nodes := [sample_publishing_node
     \<lparr> materialized := sample_shared\<lparr> link_sync_states := [sync_node_ptr st] \<rparr> \<rparr>] \<rparr>"

definition sample_ack :: ack_frame where
  "sample_ack = \<lparr> ack_packet_id = 40, ack_target_node_id = 300, ack_destination_share_id = 7 \<rparr>"

lemma sample_waiting_target:
  assumes "ls_share_id (materialized st) = 7"
  shows "\<exists>n. sync_target sample_sync_env 300 7 (sample_waiting_runtime st) = Some (n, ''bob'', 0, st)"
  using assms by (simp add: sync_target_def sample_waiting_runtime_def sample_runtime_def FindNode_def sample_publishing_node_def
      sample_shared_node_def sample_shared_def ShareEndpointOf_def FindShareIndexForShare_def ShareEndpoint_def
      sample_link_def ptr_load_def FindLinkSyncIndexForShare_def sync_entry_for_def sync_node_ptr_def Let_def)

lemma sample_waiting:
  obtains st where "sync_node_ok sample_aether id st" "initial_sync_phase (materialized st) = Complete"
    "pending_event_packet_id (materialized st) = 40" "ls_share_id (materialized st) = 7"
    "pending_event_identity (materialized st) = \<lparr> origin_uid = ''alice'', origin_sequence = 2 \<rparr>"
proof -
  let ?e = "BeginIncrementalEventSyncEvent \<lparr> origin_uid = ''alice'', origin_sequence = 2 \<rparr> [9]"
  have "\<exists>s. LinkSyncState_Apply sample_aether (ce_event_id sample_cenv) ?e (materialized sample_complete_node) = Some (s, 1) \<and>
      initial_sync_phase s = Complete \<and> pending_event_packet_id s = 40 \<and> ls_share_id s = 7 \<and>
      pending_event_identity s = \<lparr> origin_uid = ''alice'', origin_sequence = 2 \<rparr>"
    using sample_no_pending by (simp add: sample_complete_run sample_cenv_def)
  then obtain s where s: "LinkSyncState_Apply sample_aether (ce_event_id sample_cenv) ?e (materialized sample_complete_node) = Some (s, 1)"
      "initial_sync_phase s = Complete" "pending_event_packet_id s = 40" "ls_share_id s = 7"
      "pending_event_identity s = \<lparr> origin_uid = ''alice'', origin_sequence = 2 \<rparr>" by blast
  have c: "ce_now1 sample_cenv \<noteq> 0" by (simp add: sample_cenv_def)
  obtain st where st: "materialized st = s" "node_inv sample_sync_ops id st"
      "length (journal st) = 3" "timestamp_us (last (journal st)) = commit_timestamp (ce_now1 sample_cenv) sample_complete_node"
    using sync_commit_runs [OF sample_complete_ok c _ s(1)] sample_complete_run(2) by auto
  have "journal sample_complete_node \<noteq> []" using sample_complete_run(2) by auto
  then have "timestamp_us (last (journal st)) = 1002"
    using st(4) sample_complete_run(3) by (simp add: commit_timestamp_def sample_cenv_def)
  then have "sync_node_ok sample_aether id st" using st by (simp add: sync_node_ok_def kJournalFullyMaterialized_def)
  then show thesis using that st(1) s by simp
qed

lemma ack_completes_pending_event_witness:
  "\<exists>st rt'. OnAck sample_sync_env sample_cenv ''bob'' sample_ack (sample_waiting_runtime st) = Some rt' \<and>
    length (rt_effects rt') = 2"
proof -
  obtain st where st: "sync_node_ok sample_aether id st" "initial_sync_phase (materialized st) = Complete"
    "pending_event_packet_id (materialized st) = 40" "ls_share_id (materialized st) = 7" by (rule sample_waiting)
  obtain n where n: "sync_target sample_sync_env 300 7 (sample_waiting_runtime st) = Some (n, ''bob'', 0, st)"
    using sample_waiting_target [OF st(4)] by blast
  have h: "sync_node_ok (se_ae sample_sync_env) (se_missing_sync sample_sync_env) st" "ce_now1 sample_cenv \<noteq> 0"
      "HasPendingEvent (se_ae sample_sync_env) (materialized st)" "aether_ids (se_ae sample_sync_env)"
      "rt_effects (sample_waiting_runtime st) = []"
    using st by (simp_all add: sample_cenv_def HasPendingEvent_def sample_aether_def aether_ids_def
        sample_waiting_runtime_def sample_runtime_def)
  show ?thesis
    using ack_completes_pending_event [OF n h(1,2) st(2) h(3) st(3) h(4)] h(5) unfolding sample_ack_def
    by (metis append_Nil length_Cons list.size(3) numeral_2_eq_2)
qed

lemma ack_counts_only_from_destination_witness:
  "\<exists>st rt' n. OnAck sample_sync_env sample_cenv ''bob'' sample_ack (sample_waiting_runtime st) = Some rt' \<and>
    FindNode 300 (sample_waiting_runtime st) = Some n \<and> ShareEndpointOf 7 (materialized n) = Some ''bob''"
proof -
  obtain st where st: "sync_node_ok sample_aether id st" "initial_sync_phase (materialized st) = Complete"
    "pending_event_packet_id (materialized st) = 40" "ls_share_id (materialized st) = 7" by (rule sample_waiting)
  obtain n where n: "sync_target sample_sync_env 300 7 (sample_waiting_runtime st) = Some (n, ''bob'', 0, st)"
    using sample_waiting_target [OF st(4)] by blast
  have h: "sync_node_ok (se_ae sample_sync_env) (se_missing_sync sample_sync_env) st" "ce_now1 sample_cenv \<noteq> 0"
      "HasPendingEvent (se_ae sample_sync_env) (materialized st)" "aether_ids (se_ae sample_sync_env)"
      "rt_effects (sample_waiting_runtime st) = []"
    using st by (simp_all add: sample_cenv_def HasPendingEvent_def sample_aether_def aether_ids_def
        sample_waiting_runtime_def sample_runtime_def)
  obtain rt' where a: "OnAck sample_sync_env sample_cenv ''bob'' sample_ack (sample_waiting_runtime st) = Some rt'"
      "rt_effects rt' \<noteq> []"
    using OnAck_pending_event [OF n h(1,2) st(2) h(3) st(3) h(4)] unfolding sample_ack_def by auto
  then have "rt' \<noteq> sample_waiting_runtime st" using h(5) by auto
  then show ?thesis using ack_counts_only_from_destination [OF a(1)] a(1) by (auto simp: sample_ack_def)
qed

section \<open>Receiving\<close>


definition sample_event_frame_received :: event_frame where
  "sample_event_frame_received = \<lparr> ev_packet_id = 41, ev_target_node_id = 300, ev_destination_share_id = 8,
     ev_identity = identity sample_shared_record, ev_timestamp_us = 2000, ev_event_class_id = 60,
     ev_payload = gio_save_id sample_io 40 @ gio_save_state sample_io sample_event_graph \<rparr>"

definition sample_receiving_runtime :: "(shared_fields, shared_event, shared_layer) sync_runtime" where
  "sample_receiving_runtime = sample_runtime\<lparr> rt_nodes := [sample_receiving_node\<lparr> journal := [sample_shared_record] \<rparr>] \<rparr>"

lemma sample_parses: "ParseEventPayload sample_aether sample_io
    (gio_save_id sample_io 40 @ gio_save_state sample_io sample_event_graph) = Some (sample_event_graph, 40)"
  using sample_io_ok by (simp add: ParseEventPayload_def archive_ok_def)
    (simp add: sample_aether_def layers_of_def sample_event_graph_def)

lemma sample_standalone: "ValidateStandaloneEventGraph sample_aether sample_io sample_event_graph 40 60"
  by (simp add: ValidateStandaloneEventGraph_def sample_graph_validates)
    (simp add: sample_aether_def sample_event_graph_def active_def layers_of_def sample_io_def)

lemma sample_duplicate_run:
  "OnEvent sample_sync_env 5 6 (\<lambda>i. False) ''bob'' sample_event_frame_received sample_receiving_runtime =
     Some (send_ack ''bob'' 41 300 8 sample_receiving_runtime)"
proof -
  let ?n = "sample_receiving_node\<lparr> journal := [sample_shared_record] \<rparr>"
  have n: "FindNode 300 sample_receiving_runtime = Some ?n" "IsStandaloneEventClassAllowed 60 sample_receiving_runtime"
    by (simp_all add: sample_receiving_runtime_def sample_runtime_def FindNode_def sample_receiving_node_def
        sample_shared_node_def IsStandaloneEventClassAllowed_def)
  have a: "EventAddressedToThisReplica ''alice'' ''bob'' 8 (materialized ?n)"
    by (simp add: EventAddressedToThisReplica_def ShareEndpointOf_def FindShareIndexForShare_def ShareEndpoint_def
        sample_receiving_node_def sample_received_def sample_link_def ptr_load_def ShareOfEndpoint_def Let_def)
  have f: "FindSharedEvent (identity sample_shared_record) ?n = Some sample_shared_record"
    by (simp add: FindSharedEvent_def sample_shared_record_def HasSharedIdentity_def)
  have r: "usable_event sample_shared_record = Some (ChangeShareAccessEvent 7 ReadOnly)" "timestamp_us sample_shared_record = 2000"
      "ptr_id (event sample_shared_record) = 40" by (simp_all add: sample_shared_record_def usable_event_def)
  have p: "SameEventPayload sample_sync_env 40 (ChangeShareAccessEvent 7 ReadOnly)
      (gio_save_id sample_io 40 @ gio_save_state sample_io sample_event_graph)"
    by (simp add: SameEventPayload_def sample_parses) (simp add: layers_of_def sample_event_graph_def)
  have d: "ae_distance sample_aether 4 4 = 0" by (simp add: sample_aether_def)
  show ?thesis
    using n a f r p d sample_parses sample_standalone by (simp add: OnEvent_def sample_event_frame_received_def Let_def)
qed



text \<open>The snapshot of the sample node arrives at alice, who expects it.\<close>

definition sample_snapshot :: ram_state where
  "sample_snapshot = [(300, Some [(4, [(0, [5])])])]"

definition sample_snapshot_frame :: node_state_frame where
  "sample_snapshot_frame = \<lparr> ns_packet_id = 42, ns_target_node_id = 300, ns_destination_share_id = 8,
     ns_payload = SerializeObjectGraph sample_io sample_snapshot \<rparr>"

definition sample_expecting_runtime :: "(shared_fields, shared_event, shared_layer) sync_runtime" where
  "sample_expecting_runtime = sample_runtime\<lparr> rt_nodes := [], expected_initial_nodes := [300] \<rparr>"

lemma sample_snapshot_parses:
  "DeserializeObjectGraph sample_io (SerializeObjectGraph sample_io sample_snapshot) = Some sample_snapshot"
proof -
  have "gio_load_state sample_io ([] @ gio_save_state sample_io sample_snapshot) (length ([] :: bytes)) =
      Some (sample_snapshot, length ([] :: bytes) + length (gio_save_state sample_io sample_snapshot))"
    using sample_io_ok unfolding archive_ok_def by blast
  then show ?thesis by (simp add: DeserializeObjectGraph_def SerializeObjectGraph_def)
qed

lemma sample_rebuild:
  "\<exists>n. TryRebuildFromBaseAndReplay (SharedNode_ops sample_sn_env) sample_receiving_node = Some (True, n) \<and>
    materialized n = sample_received"
  by (simp add: TryRebuildFromBaseAndReplay_def TryReplayJournal_def TryEnsureCurrentGeneration_def
      sample_receiving_node_def sample_shared_node_def kJournalFullyMaterialized_def stash_restore_def
      sample_received_def sample_shared_def sync_node_ptr_def)

lemma sample_import:
  "\<exists>r rt'. ImportValidatedNode sample_sync_env ''bob'' sample_snapshot_frame sample_expecting_runtime = Some (Some r, rt')"
proof -
  obtain n where n: "TryRebuildFromBaseAndReplay (SharedNode_ops sample_sn_env) sample_receiving_node = Some (True, n)"
      "materialized n = sample_received" using sample_rebuild by blast
  have b: "ptr_valid (base sample_receiving_node)" "is_loaded (base sample_receiving_node)" "journal sample_receiving_node = []"
    by (simp_all add: sample_receiving_node_def sample_shared_node_def is_loaded_def)
  have sh: "length (shares sample_received) = 2" by (simp add: sample_received_def)
  have each: "share_admissible sample_aether sample_received 0" "share_admissible sample_aether sample_received 1"
    by (simp_all add: share_admissible_def sample_received_def FindShareIndexForShare_def ShareEndpoint_def sample_link_def
        ptr_load_def sample_aether_def)
  have all: "\<forall>i<length (shares (materialized n)). share_admissible sample_aether (materialized n) i"
    using each sh n(2) by (auto simp: less_Suc_eq numeral_2_eq_2)
  have addressed: "AddressedToThisReplica ''alice'' ''bob'' 8 (materialized n)"
    by (simp add: n(2) AddressedToThisReplica_def ShareEndpointOf_def FindShareIndexForShare_def ShareEndpoint_def
        TopologyKnowsEndpoint_def sample_received_def sample_link_def ptr_load_def Let_def)
  have adm: "SnapshotIsAdmissible sample_sync_env ''bob'' 8 sample_receiving_node = Some (True, n)"
    using b n(1) all addressed by (simp add: SnapshotIsAdmissible_def)
  have m: "matching_shares ''bob'' sample_received = [\<lparr> share_id = 7, share_link = sample_link, share_access = ReadWrite \<rparr>]"
    by (simp add: matching_shares_def sample_received_def ShareEndpoint_def sample_link_def ptr_load_def)
  have k: "FindLinkSyncIndexForShare 7 sample_received = 0" "link_sync_states sample_received = [sync_node_ptr sample_sync_node]"
    by (simp_all add: FindLinkSyncIndexForShare_def sample_received_def sample_shared_def sync_entry_for_def
        sync_node_ptr_def ptr_load_def sample_sync_node_eq)
  have v: "ae_valid sample_aether 7" "ptr_valid (sync_node_ptr sample_sync_node)" "ae_distance sample_aether 4 4 = 0"
      "ae_shared_node_class sample_aether = 4"
    by (simp_all add: sample_aether_def sync_node_ptr_def)
  have ins: "inspect_candidate sample_sync_env ''bob'' sample_snapshot_frame sample_snapshot = Some (Some 7)"
    using adm m k v by (simp add: inspect_candidate_def sample_snapshot_frame_def n(2) Let_def)
  have chain: "ValidateStoredClassChains sample_aether sample_snapshot =
      Some [\<lparr> ci_obj_id = 300, ci_chain = [4], ci_most_derived = 4 \<rparr>]"
    by (simp add: sample_snapshot_def check_class_chain_def sample_aether_def Let_def)
  have root: "parsed_root_ok sample_sync_env None 300 sample_snapshot"
    using chain v by (simp add: parsed_root_ok_def)
  have exp: "IsExpectedInitialNode 300 sample_expecting_runtime" "endpoint_expectation_for ''bob'' sample_expecting_runtime = None"
    by (simp_all add: IsExpectedInitialNode_def endpoint_expectation_for_def sample_expecting_runtime_def sample_runtime_def)
  have free: "\<not> collides sample_sync_env (rt_storage sample_expecting_runtime) sample_snapshot"
    by (simp add: collides_def sample_expecting_runtime_def sample_runtime_def Enumerate_empty_def)
  have reb: "RebuildFromBaseAndReplay (SharedNode_ops sample_sn_env) sample_receiving_node = Some n"
    using n(1) by (simp add: RebuildFromBaseAndReplay_def assert_ok_def)
  show ?thesis
    using exp sample_snapshot_parses root ins free reb
    by (simp add: ImportValidatedNode_def sample_snapshot_frame_def Let_def)
qed


text \<open>Bytes of the transport reach the handler of their frame type: a well-formed frame of each kind is handed
  over as it was encoded, and bytes that are no frame are ignored.\<close>

theorem bytes_dispatched_by_type:
  "(node_state_frame_wf (se_ae env) f \<longrightarrow>
      OnBytes env c1 c2 sc source (EncodeNodeStateFrame f) rt = OnNodeState env c1 c2 source f rt) \<and>
   (ack_frame_wf (se_ae env) g \<longrightarrow>
      OnBytes env c1 c2 sc source (EncodeAckFrame g) rt = OnAck env c1 source g rt) \<and>
   (event_frame_wf (se_ae env) h \<longrightarrow>
      OnBytes env c1 c2 sc source (EncodeEventFrame h) rt = OnEvent env (ce_now1 c1) (ce_now2 c1) sc source h rt) \<and>
   (DecodeNodeStateFrame (se_ae env) bs = None \<and> DecodeAckFrame (se_ae env) bs = None \<and>
    DecodeEventFrame (se_ae env) bs = None \<longrightarrow> OnBytes env c1 c2 sc source bs rt = Some rt)"
  by (auto simp: OnBytes_def NodeState_decode_encode Ack_decode_encode Event_decode_encode
      split: option.split sync_frame_type.split)

lemma bytes_dispatched_by_type_witness:
  "OnBytes sample_sync_env sample_cenv sample_cenv (\<lambda>i. False) ''bob'' (EncodeAckFrame sample_ack) sample_runtime =
    OnAck sample_sync_env sample_cenv ''bob'' sample_ack sample_runtime"
proof -
  have "ack_frame_wf (se_ae sample_sync_env) sample_ack" by (simp add: ack_frame_wf_def sample_ack_def sample_aether_def)
  then show ?thesis using bytes_dispatched_by_type [of sample_sync_env] by blast
qed


definition sample_hostile_node :: shared_node where
  "sample_hostile_node = sample_receiving_node\<lparr> base_layer := Some ([], []),
     journal := [sample_shared_record\<lparr> event := (event sample_shared_record)\<lparr> ptr_object := Some (RemoveShareEvent 99) \<rparr> \<rparr>] \<rparr>"


end
