(* ===== verification/WorkQueue.thy ===== *)
theory WorkQueue
  imports Prelude
begin

text \<open>
  The work queue of the model thread (src/src/model_runtime.cpp: Start, Post, RequestStop, ThreadMain, DrainWork)
  as a transition system: any thread may post or request the stop between two steps of the model thread.  One
  step is what the code does in one critical section of \<open>mu_\<close>, or one access to an atomic.  \<open>'w\<close> are the works;
  what a work does to the model is outside of this theory, but a work that posts or requests a stop is a step of
  the first two kinds while the thread is at \<open>TRun\<close>.
\<close>

section \<open>State\<close>

text \<open>Where the model thread is; the flag of \<open>TDrain\<close> and \<open>TRun\<close> says whether the drain is the one after the loop.\<close>

datatype 'w thread_pc =
    TLoop                     \<comment> \<open>at the condition of the loop\<close>
  | TDrain bool               \<comment> \<open>in DrainWork, at the lock\<close>
  | TRun bool 'w              \<comment> \<open>in DrainWork, a work popped and running\<close>
  | TUpdate                   \<comment> \<open>UpdateAll when due, PublishChanged\<close>
  | TWait                     \<comment> \<open>at the condition variable\<close>
  | TDone

record 'w work_queue =
  accept_work :: bool
  stop :: bool
  work :: "'w list"
  thread :: "'w thread_pc"
  accepted :: "'w list"       \<comment> \<open>every work Post has taken, in order\<close>
  executed :: "'w list"       \<comment> \<open>every work that has run, in order\<close>

section \<open>The other threads\<close>

definition Post :: "'w \<Rightarrow> 'w work_queue \<Rightarrow> 'w work_queue" where
  "Post w q = (if \<not> accept_work q then q else q\<lparr> work := work q @ [w], accepted := accepted q @ [w] \<rparr>)"

definition RequestStop :: "'w work_queue \<Rightarrow> 'w work_queue" where
  "RequestStop q = q\<lparr> accept_work := False, stop := True \<rparr>"

definition Start :: "'w work_queue \<Rightarrow> 'w work_queue" where
  "Start q = q\<lparr> stop := False, accept_work := True, thread := TLoop \<rparr>"

section \<open>The model thread\<close>

text \<open>The wait ends when its predicate holds; a timeout at the time of the next update ends it as well.\<close>

fun thread_step :: "bool \<Rightarrow> 'w work_queue \<Rightarrow> 'w work_queue option" where
  "thread_step timeout q = (case thread q of
     TLoop \<Rightarrow> Some (q\<lparr> thread := TDrain (stop q) \<rparr>)
   | TDrain final \<Rightarrow> (case work q of
        [] \<Rightarrow> Some (q\<lparr> thread := if final then TDone else TUpdate \<rparr>)
      | w # ws \<Rightarrow> Some (q\<lparr> work := ws, thread := TRun final w \<rparr>))
   | TRun final w \<Rightarrow> Some (q\<lparr> thread := TDrain final, executed := executed q @ [w] \<rparr>)
   | TUpdate \<Rightarrow> Some (q\<lparr> thread := TWait \<rparr>)
   | TWait \<Rightarrow> if stop q \<or> work q \<noteq> [] \<or> timeout then Some (q\<lparr> thread := TLoop \<rparr>) else None
   | TDone \<Rightarrow> None)"

declare thread_step.simps [simp del]

inductive queue_step :: "'w work_queue \<Rightarrow> 'w work_queue \<Rightarrow> bool" where
  post: "queue_step q (Post w q)"
| request: "queue_step q (RequestStop q)"
| thread: "thread_step timeout q = Some q' \<Longrightarrow> queue_step q q'"

text \<open>The runs of one Start, with what was posted before it.\<close>

inductive queue_reachable :: "'w list \<Rightarrow> 'w work_queue \<Rightarrow> bool" for ws where
  init: "queue_reachable ws (Start \<lparr> accept_work = True, stop = False, work = ws, thread = TDone, accepted = ws, executed = [] \<rparr>)"
| step: "queue_reachable ws q \<Longrightarrow> queue_step q q' \<Longrightarrow> queue_reachable ws q'"

inductive_cases queue_stepE: "queue_step q q'"

section \<open>Invariant\<close>

fun in_hand :: "'w thread_pc \<Rightarrow> 'w list" where
  "in_hand (TRun final w) = [w]"
| "in_hand pc = []"

fun leaving :: "'w thread_pc \<Rightarrow> bool" where
  "leaving (TDrain final) = final"
| "leaving (TRun final w) = final"
| "leaving TDone = True"
| "leaving pc = False"

definition queue_ok :: "'w work_queue \<Rightarrow> bool" where
  "queue_ok q \<longleftrightarrow> accepted q = executed q @ in_hand (thread q) @ work q \<and>
     (stop q \<longleftrightarrow> \<not> accept_work q) \<and> (leaving (thread q) \<longrightarrow> stop q) \<and> (thread q = TDone \<longrightarrow> work q = [])"

lemma queue_ok_post: "queue_ok q \<Longrightarrow> queue_ok (Post w q)"
  by (auto simp: queue_ok_def Post_def)

lemma queue_ok_request: "queue_ok q \<Longrightarrow> queue_ok (RequestStop q)"
  by (auto simp: queue_ok_def RequestStop_def)

lemma queue_ok_thread:
  assumes "queue_ok q" "thread_step timeout q = Some q'"
  shows "queue_ok q'"
proof (cases "thread q")
  case (TDrain final)
  then show ?thesis using assms
    by (cases "work q"; cases final) (auto simp: queue_ok_def thread_step.simps)
qed (use assms in \<open>auto simp: queue_ok_def thread_step.simps split: if_splits\<close>)

lemma queue_ok_reachable: "queue_reachable ws q \<Longrightarrow> queue_ok q"
proof (induction rule: queue_reachable.induct)
  case init
  show ?case by (simp add: queue_ok_def Start_def)
next
  case (step q q')
  from step.hyps(2) step.IH show ?case
    by (elim queue_stepE) (simp_all add: queue_ok_post queue_ok_request queue_ok_thread)
qed

section \<open>After the stop\<close>

text \<open>Nothing is accepted any more, and every step of the thread brings it nearer to its end.\<close>

fun pc_rank :: "'w thread_pc \<Rightarrow> nat" where
  "pc_rank TWait = 5"
| "pc_rank TLoop = 4"
| "pc_rank (TDrain final) = (if final then 2 else 7)"
| "pc_rank (TRun final w) = (if final then 3 else 8)"
| "pc_rank TUpdate = 6"
| "pc_rank TDone = 0"

definition steps_left :: "'w work_queue \<Rightarrow> nat" where
  "steps_left q = 2 * length (work q) + pc_rank (thread q)"

lemma thread_step_stopped:
  assumes "stop q" "thread_step timeout q = Some q'"
  shows "steps_left q' < steps_left q \<and> stop q' \<and> accept_work q' = accept_work q"
proof (cases "thread q")
  case (TDrain final)
  then show ?thesis using assms
    by (cases "work q"; cases final) (auto simp: steps_left_def thread_step.simps)
qed (use assms in \<open>auto simp: steps_left_def thread_step.simps\<close>)

lemma thread_step_enabled: "stop q \<Longrightarrow> thread q \<noteq> TDone \<Longrightarrow> thread_step timeout q \<noteq> None"
  by (cases "thread q") (auto simp: thread_step.simps split: list.split)

text \<open>The thread alone, for at most \<open>n\<close> steps.\<close>

fun run_thread :: "nat \<Rightarrow> 'w work_queue \<Rightarrow> 'w work_queue" where
  "run_thread 0 q = q"
| "run_thread (Suc n) q = (case thread_step False q of None \<Rightarrow> q | Some q' \<Rightarrow> run_thread n q')"

lemma run_thread_done:
  assumes "stop q" "steps_left q \<le> n"
  shows "thread (run_thread n q) = TDone"
  using assms
proof (induction n arbitrary: q)
  case 0
  then show ?case by (cases "thread q") (auto simp: steps_left_def split: if_splits)
next
  case (Suc n)
  show ?case
  proof (cases "thread_step False q")
    case None
    then show ?thesis using thread_step_enabled [OF Suc.prems(1), of False] by auto
  next
    case (Some q')
    then show ?thesis using thread_step_stopped [OF Suc.prems(1) Some] Suc by simp
  qed
qed

lemma run_thread_ok: "queue_ok q \<Longrightarrow> queue_ok (run_thread n q)"
  by (induction n arbitrary: q) (auto split: option.split dest: queue_ok_thread)

lemma run_thread_accepted: "accepted (run_thread n q) = accepted q"
proof (induction n arbitrary: q)
  case (Suc n)
  have "thread_step False q = Some q' \<Longrightarrow> accepted q' = accepted q" for q'
    by (cases "thread q") (auto simp: thread_step.simps split: list.splits if_splits)
  then show ?case using Suc by (auto split: option.split)
qed simp

section \<open>Properties\<close>

text \<open>C11. In every interleaving the works run in the order in which they were accepted, each once: those that ran,
  the one that runs and those that wait are together the accepted ones; and when the model thread has ended,
  which it does only after a stop was requested, all of them have run and none is left.\<close>

theorem accepted_work_runs_once:
  assumes "queue_reachable ws q"
  shows "accepted q = executed q @ in_hand (thread q) @ work q \<and>
    (thread q = TDone \<longrightarrow> stop q \<and> \<not> accept_work q \<and> executed q = accepted q \<and> work q = [])"
  using queue_ok_reachable [OF assms] by (auto simp: queue_ok_def)

text \<open>One work posted before the start, one after, one after the stop: the third is refused.\<close>

definition stopped_queue :: "nat work_queue" where
  "stopped_queue = Post 3 (RequestStop (Post 2 (Start
     \<lparr> accept_work = True, stop = False, work = [1], thread = TDone, accepted = [1], executed = [] \<rparr>)))"

lemma stopped_queue_reachable: "queue_reachable [1] stopped_queue"
  unfolding stopped_queue_def
  by (rule queue_reachable.step [OF queue_reachable.step [OF queue_reachable.step [OF init post] request] post])

lemma stopped_queue_fields: "stop stopped_queue" "accepted stopped_queue = [1, 2]" "steps_left stopped_queue \<le> 20"
  "length (work stopped_queue) = 2"
  by (simp_all add: stopped_queue_def steps_left_def Post_def RequestStop_def Start_def)

lemma run_thread_reachable: "queue_reachable ws q \<Longrightarrow> queue_reachable ws (run_thread n q)"
proof (induction n arbitrary: q)
  case (Suc n)
  have "queue_reachable ws q'" if "thread_step False q = Some q'" for q'
    by (rule queue_reachable.step [OF Suc.prems queue_step.thread [OF that]])
  then show ?case using Suc.IH Suc.prems by (simp split: option.split)
qed simp

lemma accepted_work_runs_once_witness:
  "thread (run_thread 20 stopped_queue) = TDone \<and> executed (run_thread 20 stopped_queue) = [1, 2] \<and> work (run_thread 20 stopped_queue) = []"
proof -
  have "thread (run_thread 20 stopped_queue) = TDone"
    by (rule run_thread_done [OF stopped_queue_fields(1,3)])
  moreover have "accepted (run_thread 20 stopped_queue) = [1, 2]"
    by (simp only: run_thread_accepted stopped_queue_fields)
  ultimately show ?thesis
    using conjunct2 [OF accepted_work_runs_once [OF run_thread_reachable [OF stopped_queue_reachable, of 20]]] by simp
qed

text \<open>Once a stop was requested the model thread never blocks and ends by itself within the steps that its
  position and the length of the queue allow, having run everything that was accepted.\<close>

theorem stop_drains_and_ends:
  assumes "queue_reachable ws q" "stop q"
  shows "(thread q \<noteq> TDone \<longrightarrow> (\<forall>timeout. thread_step timeout q \<noteq> None)) \<and>
    (\<forall>n\<ge>2 * length (work q) + 8. thread (run_thread n q) = TDone \<and> executed (run_thread n q) = accepted q)"
proof -
  have ok: "queue_ok q" by (rule queue_ok_reachable [OF assms(1)])
  have "thread (run_thread n q) = TDone \<and> executed (run_thread n q) = accepted q" if "n \<ge> 2 * length (work q) + 8" for n
  proof -
    have "pc_rank (thread q) \<le> 8" by (cases "thread q") auto
    then have ended: "thread (run_thread n q) = TDone"
      using run_thread_done [OF assms(2), of n] that by (simp add: steps_left_def)
    then show ?thesis
      using run_thread_ok [OF ok, of n] run_thread_accepted [of n q] by (simp add: queue_ok_def)
  qed
  then show ?thesis using thread_step_enabled [OF assms(2)] by blast
qed

lemma stop_drains_and_ends_witness:
  "thread (run_thread 12 stopped_queue) = TDone \<and> executed (run_thread 12 stopped_queue) = [1, 2]"
  using stop_drains_and_ends [OF stopped_queue_reachable stopped_queue_fields(1)] stopped_queue_fields(2,4) by simp

end
