(* ===== verification/Spec2Isabelle.thy ===== *)
theory Spec2Isabelle
  imports ChatEndpointProperties ChatHost ChatLaunch ChatLoop ChatPublication ChatQueue DemoSession DynamicItemsProperties GraphImport GraphMirror MainWindowDemo ModelRuntime NodeProperties Presentation SizeQueueProperties SurfacesStartProperties SyncProperties WorkQueue
begin

text \<open>
  AppTraverse: a verification development.

  AppTraverse is a C++20 library for applications whose model is a graph of event-sourced objects.  The model lives in
  one thread; a GUI thread sees copies of it; replicas exchange events and snapshots over a transport; a directory keeps
  the graph durable.  The chat example (src/examples/chat_demo) is the complete application on top of it.  This
  development models the library under src/src and src/include/apptraverse and the runtime of the chat example, one group
  of definitions per component, and proves what each component promises.

  \<^bold>\<open>How the parts interact.\<close>  A Node holds materialized fields, a base snapshot and a journal of events (Journal).
  SharedNode and LinkSyncState are nodes that record with whom an object is shared and how far each relationship has
  been synchronized (SharedNode).  The synchronization runtime drives them: it freezes packets, persists and sends them,
  and admits what peers send, after decoding it (SyncFrame) and validating the object graph in it (NetworkGraph,
  GraphImport).  Below it lie the in-memory network and the framing of Aether streams (Transport, ChatEndpoint).  The
  layers of objects go to a directory (DirectoryStorage over FileSystem), through the interface of LayerStorage.  A
  change of a node is noted by the model runtime (ModelRuntime), serialized (Publication, PublicationFormat), handed over
  a lock-free channel (Channel) and applied to the GUI domain (UiMirror), whose presenters follow it (Presentation); the
  GUI answers with works posted to the model thread (WorkQueue, SizeQueue).  The chat session (ChatSession and the
  theories after it) runs all of this for the rooms of a profile.

  \<^bold>\<open>Conventions.\<close>  An \<open>assert\<close> of the source makes its function an option, and \<open>None\<close> is the abort of a failed
  assertion (Prelude); where a comment says so it is a thrown exception or a dereferenced dangling pointer.  A
  \<open>bool\<close> result with an output parameter is an option too, as every caller discards the parameter on failure.
  Integers of fixed width are words and wrap as they do in C++; \<open>std::size_t\<close> of objects in memory is \<open>nat\<close>.
  Enumerations stored as bytes are bytes, since untrusted input need not name a constant.  Pointers between objects are
  object ids; the record \<open>aether\<close> says which ids are valid and which classes derive from which.  Clock readings and ids of created
  objects are arguments.  Threads are step relations whose steps are the critical sections or atomic accesses of the
  code, and the theorems hold over every reachable state.

  \<^bold>\<open>Theories.\<close>

  Prelude: machine types, assertions, object ids, bytes and strings, searching and editing of lists, insertion in order.
  Codec: the locale \<open>wire_codec\<close>, the contract of an encoder and its decoder.

  Nodes.
  \<^item> Journal: include/apptraverse/node.h, event.h, event_record.h, event_for.h, node_for.h, shared_event_order.h,
    journal_retention_policy.h, runtime_node.h.  A node class is the record \<open>node_ops\<close>; the locale \<open>node_class\<close>
    states what the journal relies on, and LinkSyncState, SharedNode, ChatRoom, the lifecycle nodes, the nodes of the
    chat, the surfaces and the widgets meet it (\<open>link_sync\<close>, \<open>lifecycle\<close>, \<open>chat\<close> are its interpretations).
  \<^item> NodeProperties: insertion and rejection of events, equal journals whatever the order of arrival, compaction.
    NodeCommits: the effect of a Commit, its generation and notifications.
  \<^item> SharedNode, SharedProperties: include/apptraverse/shared_node.h, link.h and their sources.  Deliveries are
    recorded once and never forgotten, the phase only advances, shares and states stay in correspondence.
  \<^item> Lifecycle: runtime_lifecycle.cpp and .h.

  Synchronization.
  \<^item> SyncFrame: sync_frame.cpp and .h.  Each decoder accepts exactly the encodings of well-formed frames
    (\<open>node_state\<close>, \<open>ack\<close>, \<open>event\<close> interpret \<open>wire_codec\<close>).
  \<^item> NetworkGraph, GraphProperties: shared_network_graph.cpp: freezing, parsing, validation of class chains, events.
    GraphImport: ImportClosedEventGraph with the pointer rewriting of operation_storage.h.
  \<^item> SyncRuntime, SyncProperties: shared_sync_runtime.cpp and .h, every operation.  \<open>rt_effects\<close> lists what was made
    durable and sent, in order, so that the theorems can say that a packet is persisted before it is sent.
  \<^item> Transport: memory_transport.cpp and .h; examples/chat_demo/aether/aether_stream_frame.cpp (\<open>stream\<close>).

  Storage.
  \<^item> LayerStorage: \<open>ae::IDomainStorage\<close> as the record \<open>storage_ops\<close>, the locales \<open>layer_storage\<close>,
    \<open>removable_storage\<close> and \<open>overlay_stack\<close> with the abstract map of layers as specification, and
    overlay_domain_storage.cpp and partitioned_model_domain_storage.cpp.
  \<^item> FileSystem, DirectoryStorage, DirectoryProperties, StorageProperties: directory_domain_storage.cpp and .h over a
    disk each of whose calls may fail.  The directory, the instrumented directory and the overlay over it are
    interpretations (\<open>directory\<close>, \<open>instrumented\<close>, \<open>stack\<close>).
  \<^item> PublicationFormat, Publication, Checkpoint, PublicationProperties: object_serialization.cpp and
    model_persistence.cpp: the formats, the publications, the persistent checkpoint and the repair of loaded pointers.

  Model and GUI.
  \<^item> Channel: publication_channel.h, with the two threads interleaved at their atomic accesses.
  \<^item> UiMirror, UiMirrorProperties: ui_mirror.cpp and .h.  ModelRuntime, WorkQueue: model_runtime.cpp and .h, its
    bookkeeping and its queue.  Presentation: graph_walk.h, presenter.h and the live walk of object_serialization.cpp.
  \<^item> SurfacesModel, SurfacesProperties: surfaces_model.cpp and .h.  SizeQueue, SizeQueueProperties:
    surfaces_presentation_size_queue.cpp and model_object_proxy.cpp.  UiWidgets: the nodes under src/src/ui.
  \<^item> GraphMirror: graph_mirror.cpp, the copy of a whole graph into the GUI domain.  Numbering: the numbers of new objects.
  \<^item> Distill: distill.h, what the first run does with the nodes of a new graph.  SurfacesStart, SurfacesStartProperties: the
    first graph of the surfaces, its localized strings, presenters and labels (surfaces_localization.cpp,
    surfaces_chrome_wiring.cpp and the presenters under src/src/surfaces).  DynamicItems, DynamicItemsProperties: the model
    of src/examples/dynamic_objects_demo, over every run of clicks.
    DemoSession: the model thread of both (surfaces_lifecycle.cpp, dynamic_lifecycle.cpp): accepted works run once each, in
    order, before the graph is saved, and a node that stays live is shown as it is whenever the thread waits.
    MainWindowDemo: src/examples/main_window_runtime_demo, a window whose newest change reaches the model: applying a
    publication never moves the window, and once all is applied the window, the mirror and the model agree; a stop drops
    the change that is pending.

  Chat (src/examples/chat_demo).
  \<^item> ChatModel, ChatCommands, ChatRooms, ChatProperties, ChatTheorems: chat_model, chat_demo_runtime_state and
    chat_commands: the workspace, its commands, and runs of them with crashes between the persisted states.
  \<^item> ChatBootstrap: chat_bootstrap.cpp, the messages of the join protocol.  ChatLaunch: the command line and the
    byte transport.  ChatEndpoint, ChatEndpointProperties: chat_aether_runtime.cpp, peers, writes and presence.
  \<^item> ChatSession, ChatHandlers, ChatNetwork, ChatLoop: chat_session.cpp, the worker's handlers, its callbacks and its
    loop; ChatQueue: its work queue; ChatPublication: what it hands to the GUI.
  \<^item> ChatSessionProperties, ChatJoin, ChatHost: which room a join can end in, how many requests it sends, what the host
    answers, and the epochs that cut off callbacks of earlier connections.

  \<^bold>\<open>What the lemmas show.\<close>  Each state has an invariant that every operation keeps (\<open>node_inv\<close>, \<open>topology_ok\<close>,
  \<open>storage_ok\<close>, \<open>surfaces_graph_ok\<close>, \<open>workspace_wf\<close> and the invariants of the step relations), and each operation a
  lemma that gives its result on every branch, failures included.  The contracts between components are the locales
  named above.  The numbered properties rest on these: C3, C4, C12 to C21 and C37 on the chat, C23 to C25, C39 and C40 on
  surfaces and widgets, C36 on the whole way of a change to the GUI, the others on the library's nodes, protocols,
  storages and publications.  C37 to C40 state behaviour of the code that its comments or callers do not expect.

  \<^bold>\<open>Bounds and loops.\<close>  No model runs on fuel.  Loops over data are structural recursion or \<open>function\<close> with a
  measure: the live walk and the collection for a checkpoint are bounded by the objects not yet visited, the passes of
  presenters by the objects without presenter, the rounds of ApplyPublished by the records not yet applied, each
  pass applying at least one of them or being the last.  The search for an unused id, which may go on for ever when
  every id is taken, is a \<open>partial_function\<close>, and the theorems on allocation and import say under which ids it returns.
  The bounds of the source (journal lengths up to \<open>kJournalFullyMaterialized\<close>, sizes of frames and payloads, thirty
  join requests) are the code's constants.

  \<^bold>\<open>What is a parameter.\<close>  aether-objects (the archive, \<open>Obj::Save\<close> and \<open>Load\<close>, Registry, Domain, RamDomainStorage),
  \<open>ae::Uid\<close> and the Aether library are not part of the repository: the records \<open>aether\<close>, \<open>object_system\<close>,
  \<open>graph_io\<close>, \<open>archive\<close>, \<open>uid_api\<close> and \<open>storage_ops\<close> hold what the code calls of them, the predicates
  \<open>archive_ok\<close> and \<open>layer_storage\<close> the laws it relies on, each met by a concrete sample.  Virtual functions of
  user classes (Apply, Update, presenter hooks, pointer fields) are parameters too.  Failures of the disk are the record
  \<open>disk_faults\<close>.

  \<^bold>\<open>Not modelled.\<close>  Native windows and event loops: the Win32 presenters (but for the moves of the main window), the Windows and Linux chat applications, the
  hosts of the surfaces model on Windows, Android, iOS and the web, with their shutdown traces; they call
  the operating system around the session and the model.  The presence monitor and the Aether probe, diagnostic
  programs around the Aether library.  The older demonstrations
  (chat_ui_runtime_demo, model_ui_runtime_demo, shared_node_demo), small users of library parts modelled here, and, of the
  sessions modelled here, the bootstrap of a missing profile.  Tests.  Process-wide counters, diagnostics, version and C runtime settings, the profile's file
  lock, the registration of classes, pointer wrappers and macros of the object library.  Of the Aether endpoint, the selection of the client and the
  life of the Aether application are calls of its library.  Of the chat model, layers of schema versions that
  Load refuses by throwing.  The interleavings of the threads are sequentially consistent.
\<close>

end
